(* ===== verification/Prelude.thy ===== *)
theory Prelude imports Main "HOL-Library.AList" "HOL-Library.Multiset" "HOL-Library.Char_ord" "HOL-Library.List_Lexorder" "HOL-Library.Word"
begin

text \<open>
  What the components share: the error values of \<^verbatim>\<open>internal/errcode\<close>, Go's clock and 64-bit
  integers, the string functions of Go's standard library that the code calls, and the generic
  lemmas on lists and options.

  \<^item> An error is \<open>E code msg\<close> (made by \<^verbatim>\<open>errcode.E\<close> or \<^verbatim>\<open>errcode.Wrap\<close>) or \<open>Plain msg\<close> (any other
    Go error). A fallible function returns \<open>goerror + 'a\<close>; a Go function whose only result is
    an \<^verbatim>\<open>error\<close> returns \<open>goerror option\<close>, \<open>None\<close> being Go's \<^verbatim>\<open>nil\<close>.
  \<^item> A Go string is its list of bytes, an Isabelle \<open>string\<close>; \<open>length\<close> is Go's \<^verbatim>\<open>len\<close>.
  \<^item> A \<^verbatim>\<open>time.Time\<close> is the number of nanoseconds since the Unix epoch, an \<open>int\<close>.
  \<^item> An \<^verbatim>\<open>int64\<close> or \<^verbatim>\<open>int\<close> is an \<open>int\<close>; a product or sum of values that a caller supplies is
    wrapped by \<open>wrap64\<close>, as the machine does.
\<close>

section \<open>Automation shared by the components\<close>

named_theorems footprint \<open>which fields of the state an operation can change\<close>
named_theorems handler_defs \<open>the definitions of the operations\<close>
named_theorems preserved \<open>an operation keeps an invariant\<close>

section \<open>Errors (internal/errcode)\<close>

datatype errcode =
    OK | CONFLICT | UNAVAILABLE | TIMEOUT | RATE_LIMITED | INVALID_CREDENTIALS | ACCOUNT_LOCKED
  | DENIED | DEGRADED | DUPLICATE_NODE_ID | INCOMPATIBLE_VERSION | NOT_FOUND | INVALID

datatype goerror = E errcode string | Plain string

text \<open>\<^verbatim>\<open>errcode.Is\<close>: does the error carry this code?\<close>

fun err_is :: "goerror \<Rightarrow> errcode \<Rightarrow> bool" where
  "err_is (E c m) c' = (c = c')"
| "err_is (Plain m) c' = False"

text \<open>\<^verbatim>\<open>Error()\<close>: the text of an error.\<close>

definition code_text :: "errcode \<Rightarrow> string" where
  "code_text c = (case c of OK \<Rightarrow> ''OK'' | CONFLICT \<Rightarrow> ''CONFLICT'' | UNAVAILABLE \<Rightarrow> ''UNAVAILABLE''
     | TIMEOUT \<Rightarrow> ''TIMEOUT'' | RATE_LIMITED \<Rightarrow> ''RATE_LIMITED'' | INVALID_CREDENTIALS \<Rightarrow> ''INVALID_CREDENTIALS''
     | ACCOUNT_LOCKED \<Rightarrow> ''ACCOUNT_LOCKED'' | DENIED \<Rightarrow> ''DENIED'' | DEGRADED \<Rightarrow> ''DEGRADED''
     | DUPLICATE_NODE_ID \<Rightarrow> ''DUPLICATE_NODE_ID'' | INCOMPATIBLE_VERSION \<Rightarrow> ''INCOMPATIBLE_VERSION''
     | NOT_FOUND \<Rightarrow> ''NOT_FOUND'' | INVALID \<Rightarrow> ''INVALID'')"

fun err_text :: "goerror \<Rightarrow> string" where
  "err_text (E c msg) = (if msg \<noteq> [] then code_text c @ '': '' @ msg else code_text c)"
| "err_text (Plain msg) = msg"

abbreviation fail :: "errcode \<Rightarrow> string \<Rightarrow> goerror + 'a" where
  "fail c m \<equiv> Inl (E c m)"

text \<open>\<open>check e k\<close> is \<^verbatim>\<open>if err := e; err != nil { return err }\<close> followed by \<open>k\<close>.\<close>

definition check :: "goerror option \<Rightarrow> (goerror + 'a) \<Rightarrow> goerror + 'a" where
  "check e k = (case e of Some x \<Rightarrow> Inl x | None \<Rightarrow> k)"

lemma check_Inr [simp]: "check e k = Inr v \<longleftrightarrow> e = None \<and> k = Inr v"
  by (simp add: check_def split: option.split)

lemma check_None [simp]: "check None k = k"
  by (simp add: check_def)

lemma check_Some [simp]: "check (Some x) k = Inl x"
  by (simp add: check_def)

text \<open>A branching computation succeeds in the branch taken.\<close>

lemma if_Inr_iff [simp]:
  "((if c then x else k) = Inr v) \<longleftrightarrow> c \<and> x = Inr v \<or> \<not> c \<and> k = Inr v"
  by simp

lemma case_option_Inr_iff [simp]:
  "((case x of None \<Rightarrow> y | Some z \<Rightarrow> k z) = Inr v) \<longleftrightarrow>
     x = None \<and> y = Inr v \<or> (\<exists>z. x = Some z \<and> k z = Inr v)"
  by (cases x) auto

lemma case_sum_fail_Inr [simp]:
  "((case x of Inl y \<Rightarrow> Inl (f y) | Inr z \<Rightarrow> k z) = Inr v) \<longleftrightarrow> (\<exists>z. x = Inr z \<and> k z = Inr v)"
  by (cases x) auto

lemma map_sum_id_Inr [simp]: "map_sum id f x = Inr v \<longleftrightarrow> (\<exists>z. x = Inr z \<and> f z = v)"
  by (cases x) auto

section \<open>Integers and the clock\<close>

definition wrap64 :: "int \<Rightarrow> int" where
  "wrap64 x = (x + 9223372036854775808) mod 18446744073709551616 - 9223372036854775808"

lemma wrap64_bounds: "- 9223372036854775808 \<le> wrap64 x \<and> wrap64 x < 9223372036854775808"
proof -
  have "0 \<le> (x + 9223372036854775808) mod 18446744073709551616"
    and "(x + 9223372036854775808) mod 18446744073709551616 < 18446744073709551616"
    by simp_all
  then show ?thesis unfolding wrap64_def by linarith
qed

lemma wrap64_id:
  "- 9223372036854775808 \<le> x \<Longrightarrow> x < 9223372036854775808 \<Longrightarrow> wrap64 x = x"
  unfolding wrap64_def by (subst mod_pos_pos_trivial) simp_all

text \<open>Leader terms and epochs are \<^verbatim>\<open>uint64\<close>.\<close>

type_synonym u64 = "64 word"

type_synonym gtime = int

abbreviation nanos :: int where "nanos \<equiv> 1000000000"

text \<open>\<^verbatim>\<open>t.Unix()\<close> rounds down; \<^verbatim>\<open>time.Unix(s, 0)\<close> is exact; the zero \<^verbatim>\<open>Time\<close> is year 1.\<close>

definition Unix :: "gtime \<Rightarrow> int" where
  "Unix t = t div nanos"

definition time_Unix :: "int \<Rightarrow> gtime" where
  "time_Unix s = s * nanos"

definition time_zero :: gtime where
  "time_zero = - 62135596800 * nanos"

lemma Unix_add_seconds: "Unix (t + s * nanos) = Unix t + s"
  unfolding Unix_def by (simp add: add.commute)

lemma Unix_time_Unix [simp]: "Unix (time_Unix s) = s"
  unfolding Unix_def time_Unix_def by simp

lemma before_time_Unix: "t < time_Unix s \<longleftrightarrow> Unix t < s"
  unfolding Unix_def time_Unix_def by linarith

lemma Unix_mono: "s \<le> t \<Longrightarrow> Unix s \<le> Unix t"
  unfolding Unix_def by (simp add: zdiv_mono1)

section \<open>Strings (package strings, regexp)\<close>

text \<open>
  \<^verbatim>\<open>strings.TrimSpace\<close> removes Unicode white space. On bytes these are the six ASCII spaces and
  the UTF-8 encodings of U+0085, U+00A0, U+1680, U+2000 to U+200A, U+2028, U+2029, U+202F,
  U+205F and U+3000.
\<close>

definition bytes :: "nat list \<Rightarrow> string" where
  "bytes ns = map char_of ns"

definition space_encodings :: "string list" where
  "space_encodings = map (\<lambda>n. bytes [n]) [9, 10, 11, 12, 13, 32]
     @ [bytes [194, 133], bytes [194, 160], bytes [225, 154, 128]]
     @ map (\<lambda>n. bytes [226, 128, n]) [128 ..< 139]
     @ [bytes [226, 128, 168], bytes [226, 128, 169], bytes [226, 128, 175],
        bytes [226, 129, 159], bytes [227, 128, 128]]"

text \<open>The number of bytes of the white space character that starts \<open>s\<close>; 0 if none does.\<close>

definition space_len :: "string list \<Rightarrow> string \<Rightarrow> nat" where
  "space_len encs s =
     (case filter (\<lambda>e. take (length e) s = e) encs of [] \<Rightarrow> 0 | e # _ \<Rightarrow> length e)"

function strip :: "string list \<Rightarrow> string \<Rightarrow> string" where
  "strip encs s = (let n = space_len encs s in if n = 0 \<or> s = [] then s else strip encs (drop n s))"
  by pat_completeness auto
termination
  by (relation "measure (\<lambda>(encs, s). length s)") auto

declare strip.simps [simp del]

definition TrimSpace :: "string \<Rightarrow> string" where
  "TrimSpace s = rev (strip (map rev space_encodings) (rev (strip space_encodings s)))"

lemma strip_Nil [simp]: "strip encs [] = []"
  by (subst strip.simps) (simp add: Let_def)

lemma strip_idem: "strip encs (strip encs s) = strip encs s"
proof (induction encs s rule: strip.induct)
  case (1 encs s)
  show ?case
  proof (cases "space_len encs s = 0 \<or> s = []")
    case True
    then show ?thesis by (simp add: strip.simps [of encs s] Let_def)
  next
    case False
    with "1.IH" [OF refl] show ?thesis by (simp add: strip.simps [of encs s] Let_def)
  qed
qed

lemma length_strip: "length (strip encs s) \<le> length s"
proof (induction encs s rule: strip.induct)
  case (1 encs s)
  show ?case
  proof (cases "space_len encs s = 0 \<or> s = []")
    case True
    then show ?thesis by (simp add: strip.simps [of encs s] Let_def)
  next
    case False
    with "1.IH" [OF refl] show ?thesis by (simp add: strip.simps [of encs s] Let_def)
  qed
qed

lemma length_TrimSpace: "length (TrimSpace s) \<le> length s"
  unfolding TrimSpace_def by (metis length_rev length_strip order_trans)

lemma TrimSpace_Nil [simp]: "TrimSpace [] = []"
  by (simp add: TrimSpace_def)

text \<open>A text that starts and ends with a graphic ASCII character has nothing to trim.\<close>

lemma space_len_0:
  assumes "\<And>e. e \<in> set encs \<Longrightarrow> e \<noteq> [] \<and> hd e \<noteq> c"
  shows "space_len encs (c # s) = 0"
proof -
  have "filter (\<lambda>e. take (length e) (c # s) = e) encs = []"
    unfolding filter_empty_conv
  proof
    fix e assume "e \<in> set encs"
    from assms [OF this] obtain d r where "e = d # r" "d \<noteq> c" by (cases e) auto
    then show "take (length e) (c # s) \<noteq> e" by simp
  qed
  then show ?thesis by (simp add: space_len_def)
qed

lemma space_bytes:
  "e \<in> set space_encodings \<Longrightarrow> e \<noteq> [] \<and> (of_char (hd e) :: nat) \<notin> {33..127} \<and> (of_char (last e) :: nat) \<notin> {33..127}"
  by (auto simp: space_encodings_def bytes_def)

lemma TrimSpace_graphic:
  assumes "s \<noteq> []" and "(of_char (hd s) :: nat) \<in> {33..127}" and "(of_char (last s) :: nat) \<in> {33..127}"
  shows "TrimSpace s = s"
proof -
  have "space_len space_encodings (c # r) = 0" if "(of_char c :: nat) \<in> {33..127}" for c r
    by (rule space_len_0) (use space_bytes that in blast)
  with assms(1,2) have 1: "strip space_encodings s = s"
    by (cases s) (simp_all add: strip.simps [of space_encodings] Let_def)
  have "space_len (map rev space_encodings) (c # r) = 0" if "(of_char c :: nat) \<in> {33..127}" for c r
  proof (rule space_len_0)
    fix e assume "e \<in> set (map rev space_encodings)"
    then obtain d where "e = rev d" "d \<in> set space_encodings" by auto
    with space_bytes [of d] that show "e \<noteq> [] \<and> hd e \<noteq> c" by (auto simp: hd_rev)
  qed
  with assms(1,3) have 2: "strip (map rev space_encodings) (rev s) = rev s"
    by (cases s rule: rev_cases) (simp_all add: strip.simps [of "map rev space_encodings"] Let_def)
  show ?thesis by (simp add: TrimSpace_def 1 2)
qed

text \<open>
  \<^verbatim>\<open>strings.ToUpper\<close>, \<^verbatim>\<open>ToLower\<close> and \<^verbatim>\<open>EqualFold\<close> on ASCII, which is where the code uses them
  (hexadecimal certificate serials and fingerprints); a byte above 127 is kept as it is.
\<close>

definition upper_char :: "char \<Rightarrow> char" where
  "upper_char c = (let n = (of_char c :: nat) in if 97 \<le> n \<and> n \<le> 122 then char_of (n - 32) else c)"

definition lower_char :: "char \<Rightarrow> char" where
  "lower_char c = (let n = (of_char c :: nat) in if 65 \<le> n \<and> n \<le> 90 then char_of (n + 32) else c)"

definition ToUpper :: "string \<Rightarrow> string" where
  "ToUpper s = map upper_char s"

definition ToLower :: "string \<Rightarrow> string" where
  "ToLower s = map lower_char s"

definition EqualFold :: "string \<Rightarrow> string \<Rightarrow> bool" where
  "EqualFold a b \<longleftrightarrow> ToLower a = ToLower b"

lemma upper_char_idem [simp]: "upper_char (upper_char c) = upper_char c"
  by (auto simp: upper_char_def Let_def)

lemma lower_upper_char [simp]: "lower_char (upper_char c) = lower_char c"
  by (auto simp: upper_char_def lower_char_def Let_def)

lemma ToUpper_idem [simp]: "ToUpper (ToUpper s) = ToUpper s"
  by (simp add: ToUpper_def)

lemma ToUpper_Nil_iff [simp]: "ToUpper s = [] \<longleftrightarrow> s = []"
  by (simp add: ToUpper_def)

lemma EqualFold_refl [simp]: "EqualFold s s"
  by (simp add: EqualFold_def)

lemma EqualFold_ToUpper [simp]: "EqualFold (ToUpper s) t = EqualFold s t"
  by (simp add: EqualFold_def ToUpper_def ToLower_def comp_def)

definition is_digit :: "char \<Rightarrow> bool" where
  "is_digit c = (let n = (of_char c :: nat) in 48 \<le> n \<and> n \<le> 57)"

definition is_alpha :: "char \<Rightarrow> bool" where
  "is_alpha c = (let n = (of_char c :: nat) in 65 \<le> n \<and> n \<le> 90 \<or> 97 \<le> n \<and> n \<le> 122)"

definition is_hex :: "char \<Rightarrow> bool" where
  "is_hex c = (is_digit c \<or> (let n = (of_char c :: nat) in 65 \<le> n \<and> n \<le> 70 \<or> 97 \<le> n \<and> n \<le> 102))"

text \<open>The regular expression \<^verbatim>\<open>^[A-Za-z0-9._-]{1,64}$\<close> of group, channel and process group names.\<close>

definition name64_match :: "string \<Rightarrow> bool" where
  "name64_match s \<longleftrightarrow> 1 \<le> length s \<and> length s \<le> 64
     \<and> list_all (\<lambda>c. is_alpha c \<or> is_digit c \<or> c \<in> set ''._-'') s"

text \<open>\<^verbatim>\<open>strings.Fields\<close> and \<^verbatim>\<open>strconv.Atoi\<close>.\<close>

function fields_aux :: "string \<Rightarrow> string \<Rightarrow> string list" where
  "fields_aux acc s =
     (if s = [] then (if acc = [] then [] else [rev acc])
      else let n = space_len space_encodings s in
        if n = 0 then fields_aux (hd s # acc) (tl s)
        else (if acc = [] then [] else [rev acc]) @ fields_aux [] (drop n s))"
  by pat_completeness auto
termination
  by (relation "measure (\<lambda>(acc, s). length s)") auto

declare fields_aux.simps [simp del]

definition Fields :: "string \<Rightarrow> string list" where
  "Fields s = fields_aux [] s"

definition digits_val :: "string \<Rightarrow> int" where
  "digits_val s = foldl (\<lambda>n c. n * 10 + (int (of_char c) - 48)) 0 s"

definition unsigned_of :: "string \<Rightarrow> int option" where
  "unsigned_of s = (if s \<noteq> [] \<and> list_all is_digit s then Some (digits_val s) else None)"

definition Atoi :: "string \<Rightarrow> int option" where
  "Atoi s =
     (let v = (case s of
          [] \<Rightarrow> None
        | c # r \<Rightarrow>
            if c = CHR ''-'' then map_option uminus (unsigned_of r)
            else if c = CHR ''+'' then unsigned_of r
            else unsigned_of s)
      in case v of
          None \<Rightarrow> None
        | Some n \<Rightarrow>
            if - 9223372036854775808 \<le> n \<and> n < 9223372036854775808 then Some n else None)"

text \<open>\<^verbatim>\<open>strconv.Itoa\<close>, and that numbers are told apart by their text.\<close>

fun digits_of :: "nat \<Rightarrow> string" where
  "digits_of n = (if n < 10 then [char_of (48 + n)] else digits_of (n div 10) @ [char_of (48 + n mod 10)])"

declare digits_of.simps [simp del]

definition Itoa :: "int \<Rightarrow> string" where
  "Itoa n = (if n < 0 then CHR ''-'' # digits_of (nat (- n)) else digits_of (nat n))"

lemma char_of_inj: "m < 256 \<Longrightarrow> n < 256 \<Longrightarrow> (char_of m :: char) = char_of n \<longleftrightarrow> m = (n :: nat)"
  using of_char_of [of m] of_char_of [of n] by (metis mod_less)

lemma digits_of_length: "n < 10 \<longleftrightarrow> length (digits_of n) = 1"
  by (subst digits_of.simps) (auto, subst (asm) digits_of.simps, simp split: if_splits)

lemma digits_of_nonempty: "digits_of n \<noteq> []"
  by (subst digits_of.simps) simp

lemma digits_of_inj: "digits_of m = digits_of n \<Longrightarrow> m = n"
proof (induction m arbitrary: n rule: digits_of.induct)
  case (1 m)
  show ?case
  proof (cases "m < 10")
    case True
    then have "n < 10" using 1(2) digits_of_length by metis
    with True 1(2) show ?thesis by (subst (asm) (1 2) digits_of.simps) (simp add: char_of_inj)
  next
    case False
    then have n: "\<not> n < 10" using 1(2) digits_of_length by metis
    from 1(2) False n have "digits_of (m div 10) = digits_of (n div 10)" "char_of (48 + m mod 10) = (char_of (48 + n mod 10) :: char)"
      by (subst (asm) (1 2) digits_of.simps, simp)+
    with 1(1) [OF False] have "m div 10 = n div 10" "m mod 10 = n mod 10" by (auto simp: char_of_inj)
    then show ?thesis by (metis div_mult_mod_eq)
  qed
qed

lemma digits_of_digits: "c \<in> set (digits_of n) \<Longrightarrow> \<exists>k<10::nat. c = char_of (48 + k)"
proof (induction n rule: digits_of.induct)
  case (1 n)
  then show ?case
    by (cases "n < 10"; subst (asm) (2) digits_of.simps) (auto intro: exI [of _ n] exI [of _ "n mod 10"])
qed

lemma split_at_first: "c \<notin> set xs \<Longrightarrow> takeWhile (\<lambda>x. x \<noteq> c) (xs @ c # ys) = xs"
  by (induction xs) auto

section \<open>Slices\<close>

text \<open>
  A Go slice is \<^verbatim>\<open>nil\<close> or holds elements; the two empty slices differ only for
  \<^verbatim>\<open>reflect.DeepEqual\<close>, so \<open>slice\<close> is used for the fields that reach it and plain lists elsewhere.
  \<open>slice_copy\<close> is \<^verbatim>\<open>append([]T(nil), x...)\<close>.
\<close>

datatype 'a slice = NilSlice | Slice "'a list"

fun elems :: "'a slice \<Rightarrow> 'a list" where
  "elems NilSlice = []"
| "elems (Slice xs) = xs"

definition slice_copy :: "'a slice \<Rightarrow> 'a slice" where
  "slice_copy x = (if elems x = [] then NilSlice else Slice (elems x))"

lemma elems_slice_copy [simp]: "elems (slice_copy x) = elems x"
  by (simp add: slice_copy_def)

lemma slice_copy_idem [simp]: "slice_copy (slice_copy x) = slice_copy x"
  by (simp add: slice_copy_def)

section \<open>Lists\<close>

text \<open>\<open>first_dup\<close>: the loops that keep a \<^verbatim>\<open>seen\<close> set and stop at the first repeated key.\<close>

fun has_dup :: "'a list \<Rightarrow> bool" where
  "has_dup [] = False"
| "has_dup (x # xs) = (x \<in> set xs \<or> has_dup xs)"

lemma has_dup_iff [simp]: "has_dup xs \<longleftrightarrow> \<not> distinct xs"
  by (induction xs) auto

lemma sort_eq_iff_mset: "sort (xs :: 'a :: linorder list) = sort ys \<longleftrightarrow> mset xs = mset ys"
  by (metis mset_sort properties_for_sort sorted_sort)

lemma set_sort_eqD: "sort (xs :: 'a :: linorder list) = sort ys \<Longrightarrow> set xs = set ys"
  by (metis set_sort)

lemma sort_eq_distinct: "sort (xs :: 'a :: linorder list) = sort ys \<Longrightarrow> distinct xs = distinct ys"
  by (metis distinct_sort)

lemma remove1_mem: "distinct xs \<Longrightarrow> x \<notin> set (remove1 x xs)"
  by simp

end
