(* ===== verification/Machine.thy ===== *)
theory Machine imports Prelude
begin

text \<open>
  The interface of a replicated machine: commands are applied one by one in the order of the
  log. \<open>norm\<close> fills the defaults of a state; a new machine starts from a normalised state, and
  restoring a snapshot normalises the state it holds. The lemmas lift what holds of one command to
  a whole log, and show that restoring a snapshot and replaying the rest of the log reaches the
  state of an uninterrupted run.
\<close>

locale replicated_machine =
  fixes exec :: "'c \<Rightarrow> 's \<Rightarrow> 's"
    and norm :: "'s \<Rightarrow> 's"
  assumes norm_norm: "norm (norm s) = norm s"
    and norm_exec: "norm s = s \<Longrightarrow> norm (exec c s) = exec c s"
begin

lemma norm_fold: "norm s = s \<Longrightarrow> norm (fold exec cs s) = fold exec cs s"
  by (induction cs arbitrary: s) (simp_all add: norm_exec)

lemma snapshot_replay:
  "norm s = s \<Longrightarrow> fold exec (xs @ ys) s = fold exec ys (norm (fold exec xs s))"
  by (simp add: norm_fold)

end

text \<open>An invariant of the normalised states, kept by every command.\<close>

locale machine_invariant = replicated_machine +
  fixes inv :: "'s \<Rightarrow> bool"
  assumes inv_exec: "norm s = s \<Longrightarrow> inv s \<Longrightarrow> inv (exec c s)"
begin

lemma inv_fold: "norm s = s \<Longrightarrow> inv s \<Longrightarrow> inv (fold exec cs s)"
  by (induction cs arbitrary: s) (simp_all add: inv_exec norm_exec)

lemma inv_restored: "norm s = s \<Longrightarrow> inv s \<Longrightarrow> inv (fold exec ys (norm (fold exec xs s)))"
  by (simp add: norm_fold inv_fold)

end

text \<open>A relation between the states before and after that every command respects.\<close>

locale machine_order = replicated_machine +
  fixes le :: "'s \<Rightarrow> 's \<Rightarrow> bool"
  assumes le_refl: "le s s"
    and le_trans: "le s t \<Longrightarrow> le t u \<Longrightarrow> le s u"
    and le_exec: "norm s = s \<Longrightarrow> le s (exec c s)"
begin

lemma le_fold: "norm s = s \<Longrightarrow> le s (fold exec cs s)"
proof (induction cs arbitrary: s)
  case Nil
  show ?case by (simp add: le_refl)
next
  case (Cons c cs)
  from Cons.prems have "norm (exec c s) = exec c s" by (rule norm_exec)
  from le_trans [OF le_exec [OF Cons.prems] Cons.IH [OF this]] show ?case by simp
qed

end

text \<open>An invariant kept by the commands of some kind: it holds along logs of such commands only.\<close>

locale guarded_machine = replicated_machine +
  fixes inv :: "'s \<Rightarrow> bool"
    and allowed :: "'c \<Rightarrow> bool"
  assumes inv_allowed: "norm s = s \<Longrightarrow> allowed c \<Longrightarrow> inv s \<Longrightarrow> inv (exec c s)"
begin

lemma guarded_fold: "norm s = s \<Longrightarrow> list_all allowed cs \<Longrightarrow> inv s \<Longrightarrow> inv (fold exec cs s)"
  by (induction cs arbitrary: s) (simp_all add: inv_allowed norm_exec)

end

end
