(* ===== verification/Go_Map.thy ===== *)
theory Go_Map imports Prelude
begin

text \<open>
  Go maps. A map is an association list with distinct keys (\<open>wfmap\<close>); the order of its entries
  is the order in which one run of the program ranges over it, so a theorem about every state is
  a theorem about every iteration order. A missing key reads as \<open>None\<close>; where the code uses the
  zero value of a missing key, the model writes that value.

  The interface \<open>map_store\<close> states what the components rely on (lookup after an insert or a
  delete, and that the representation stays well formed); it is interpreted on the association
  lists, and the facts on invariants of all entries are proved once inside it.
\<close>

type_synonym ('k, 'v) gomap = "('k \<times> 'v) list"

abbreviation mget :: "('k, 'v) gomap \<Rightarrow> 'k \<Rightarrow> 'v option" where
  "mget \<equiv> map_of"

abbreviation mput :: "'k \<Rightarrow> 'v \<Rightarrow> ('k, 'v) gomap \<Rightarrow> ('k, 'v) gomap" where
  "mput \<equiv> AList.update"

abbreviation mdel :: "'k \<Rightarrow> ('k, 'v) gomap \<Rightarrow> ('k, 'v) gomap" where
  "mdel \<equiv> AList.delete"

abbreviation mvals :: "('k, 'v) gomap \<Rightarrow> 'v list" where
  "mvals m \<equiv> map snd m"

definition mhas :: "('k, 'v) gomap \<Rightarrow> 'k \<Rightarrow> bool" where
  "mhas m k \<longleftrightarrow> mget m k \<noteq> None"

definition wfmap :: "('k, 'v) gomap \<Rightarrow> bool" where
  "wfmap m \<longleftrightarrow> distinct (map fst m)"

text \<open>A loop \<^verbatim>\<open>for k, v := range m\<close> that only rewrites the entry \<^verbatim>\<open>m[k]\<close>, or only deletes it.\<close>

definition mmap :: "('k \<Rightarrow> 'v \<Rightarrow> 'w) \<Rightarrow> ('k, 'v) gomap \<Rightarrow> ('k, 'w) gomap" where
  "mmap f m = map (\<lambda>(k, v). (k, f k v)) m"

definition mfilter :: "('k \<Rightarrow> 'v \<Rightarrow> bool) \<Rightarrow> ('k, 'v) gomap \<Rightarrow> ('k, 'v) gomap" where
  "mfilter P m = filter (\<lambda>(k, v). P k v) m"

text \<open>A loop that looks for one entry; and reading with a default (Go's zero value).\<close>

definition mex :: "('k \<Rightarrow> 'v \<Rightarrow> bool) \<Rightarrow> ('k, 'v) gomap \<Rightarrow> bool" where
  "mex P m \<longleftrightarrow> list_ex (\<lambda>(k, v). P k v) m"

definition mget_or :: "'v \<Rightarrow> ('k, 'v) gomap \<Rightarrow> 'k \<Rightarrow> 'v" where
  "mget_or d m k = (case mget m k of Some v \<Rightarrow> v | None \<Rightarrow> d)"

section \<open>The interface and what follows from it\<close>

locale map_store =
  fixes lookup :: "'m \<Rightarrow> 'k \<Rightarrow> 'v option"
    and put :: "'k \<Rightarrow> 'v \<Rightarrow> 'm \<Rightarrow> 'm"
    and del :: "'k \<Rightarrow> 'm \<Rightarrow> 'm"
    and ok :: "'m \<Rightarrow> bool"
  assumes lookup_put: "lookup (put k v m) = (lookup m)(k \<mapsto> v)"
    and lookup_del: "lookup (del k m) = (lookup m)(k := None)"
    and ok_put: "ok m \<Longrightarrow> ok (put k v m)"
    and ok_del: "ok m \<Longrightarrow> ok (del k m)"
begin

lemma all_put:
  assumes "\<And>a w. lookup m a = Some w \<Longrightarrow> P a w" and "P k v"
  shows "lookup (put k v m) a = Some w \<Longrightarrow> P a w"
  using assms by (auto simp: lookup_put split: if_splits)

lemma all_del:
  assumes "\<And>a w. lookup m a = Some w \<Longrightarrow> P a w"
  shows "lookup (del k m) a = Some w \<Longrightarrow> P a w"
  using assms by (auto simp: lookup_del split: if_splits)

lemma key_put:
  assumes "\<And>a b x y. lookup m a = Some x \<Longrightarrow> lookup m b = Some y \<Longrightarrow> f x = f y \<Longrightarrow> a = b"
    and "\<And>a x. lookup m a = Some x \<Longrightarrow> f x = f v \<Longrightarrow> a = k"
  shows "lookup (put k v m) a = Some x \<Longrightarrow> lookup (put k v m) b = Some y \<Longrightarrow> f x = f y \<Longrightarrow> a = b"
  using assms by (force simp: lookup_put split: if_splits)

lemma lookup_put_same: "lookup (put k v m) k = Some v"
  by (simp add: lookup_put)

lemma put_frame: "a \<noteq> k \<Longrightarrow> lookup (put k v m) a = lookup m a"
  by (simp add: lookup_put)

end

interpretation gomap: map_store map_of AList.update AList.delete wfmap
  by unfold_locales (simp_all add: update_conv' delete_conv' wfmap_def distinct_update distinct_delete)

lemmas gomap_simps [simp] = gomap.lookup_put gomap.lookup_del

lemma wfmap_Nil [simp]: "wfmap []"
  by (simp add: wfmap_def)

lemma wfmap_mput [simp, intro]: "wfmap m \<Longrightarrow> wfmap (mput k v m)"
  by (rule gomap.ok_put)

lemma wfmap_mdel [simp, intro]: "wfmap m \<Longrightarrow> wfmap (mdel k m)"
  by (rule gomap.ok_del)

lemma map_fst_mmap [simp]: "map fst (mmap f m) = map fst m"
  by (induction m) (auto simp: mmap_def)

lemma wfmap_mmap [simp]: "wfmap (mmap f m) = wfmap m"
  by (simp add: wfmap_def)

lemma wfmap_mfilter [simp, intro]: "wfmap m \<Longrightarrow> wfmap (mfilter P m)"
  unfolding wfmap_def mfilter_def by (simp add: distinct_map_filter)

lemma mget_mmap [simp]: "mget (mmap f m) k = map_option (f k) (mget m k)"
  by (induction m) (auto simp: mmap_def)

lemma mget_in_set: "wfmap m \<Longrightarrow> mget m k = Some v \<longleftrightarrow> (k, v) \<in> set m"
  by (simp add: wfmap_def map_of_eq_Some_iff)

lemma mget_SomeD: "mget m k = Some v \<Longrightarrow> (k, v) \<in> set m"
  by (rule map_of_SomeD)

lemma mget_mfilter:
  "wfmap m \<Longrightarrow> mget (mfilter P m) k =
    (case mget m k of Some v \<Rightarrow> if P k v then Some v else None | None \<Rightarrow> None)"
proof (induction m)
  case Nil
  then show ?case by (simp add: mfilter_def)
next
  case (Cons e m)
  obtain a w where e: "e = (a, w)" by (cases e)
  from Cons.prems have wf: "wfmap m" and a: "mget m a = None"
    by (auto simp: wfmap_def e map_of_eq_None_iff)
  from Cons.IH [OF wf] a show ?case
    by (auto simp: mfilter_def e split: option.splits)
qed

lemma mex_iff: "wfmap m \<Longrightarrow> mex P m \<longleftrightarrow> (\<exists>k v. mget m k = Some v \<and> P k v)"
  by (auto simp: mex_def list_ex_iff mget_in_set)

lemma mex_set: "mex P m \<longleftrightarrow> (\<exists>(k, v) \<in> set m. P k v)"
  by (auto simp: mex_def list_ex_iff)

lemma not_mexD: "\<not> mex P m \<Longrightarrow> mget m k = Some v \<Longrightarrow> \<not> P k v"
  by (auto simp: mex_def list_ex_iff dest: map_of_SomeD)

lemma mhas_mput [simp]: "mhas (mput k v m) a \<longleftrightarrow> a = k \<or> mhas m a"
  by (simp add: mhas_def)

lemma mhas_mdel [simp]: "mhas (mdel k m) a \<longleftrightarrow> a \<noteq> k \<and> mhas m a"
  by (simp add: mhas_def)

lemma mhas_Some [simp]: "mget m k = Some v \<Longrightarrow> mhas m k"
  by (simp add: mhas_def)

lemma mput_mput_same [simp]: "mput k v (mput k w m) = mput k v m"
  by (induction m) auto

lemma mput_same: "mget m k = Some v \<Longrightarrow> mput k v m = m"
  by (induction m) (auto split: if_splits)

lemma in_mvals_iff: "wfmap m \<Longrightarrow> w \<in> set (mvals m) \<longleftrightarrow> (\<exists>a. mget m a = Some w)"
  by (force simp: mget_in_set)

lemma set_mvals_mput:
  assumes "wfmap m"
  shows "set (mvals (mput k v m)) = insert v {w. \<exists>a. a \<noteq> k \<and> mget m a = Some w}"
proof -
  from assms have "wfmap (mput k v m)" by simp
  from in_mvals_iff [OF this] show ?thesis
    by (intro set_eqI) (simp only: gomap_simps, auto split: if_splits)
qed

text \<open>Two entries never share the value of \<open>f\<close> (unique names).\<close>

definition unique_by :: "('v \<Rightarrow> 'n) \<Rightarrow> ('k, 'v) gomap \<Rightarrow> bool" where
  "unique_by f m \<longleftrightarrow>
     (\<forall>a b x y. mget m a = Some x \<longrightarrow> mget m b = Some y \<longrightarrow> f x = f y \<longrightarrow> a = b)"

lemma unique_by_mput:
  "unique_by f m \<Longrightarrow> (\<And>a x. mget m a = Some x \<Longrightarrow> f x = f v \<Longrightarrow> a = k) \<Longrightarrow> unique_by f (mput k v m)"
  unfolding unique_by_def by (force split: if_splits)

lemma unique_by_mdel: "unique_by f m \<Longrightarrow> unique_by f (mdel k m)"
  unfolding unique_by_def by (auto split: if_splits)

lemma unique_by_Nil [simp]: "unique_by f []"
  by (simp add: unique_by_def)

lemma unique_by_mmap:
  "unique_by f m \<Longrightarrow> (\<And>k v. f (g k v) = f v) \<Longrightarrow> unique_by f (mmap g m)"
  unfolding unique_by_def by auto

text \<open>Every entry satisfies \<open>P\<close>.\<close>

definition mall :: "('k \<Rightarrow> 'v \<Rightarrow> bool) \<Rightarrow> ('k, 'v) gomap \<Rightarrow> bool" where
  "mall P m \<longleftrightarrow> (\<forall>k v. mget m k = Some v \<longrightarrow> P k v)"

lemma mallD: "mall P m \<Longrightarrow> mget m k = Some v \<Longrightarrow> P k v"
  by (simp add: mall_def)

lemma mall_Nil [simp]: "mall P []"
  by (simp add: mall_def)

lemma mall_mput [intro]: "mall P m \<Longrightarrow> P k v \<Longrightarrow> mall P (mput k v m)"
  unfolding mall_def using gomap.all_put [of m P k v] by blast

lemma mall_mdel [intro]: "mall P m \<Longrightarrow> mall P (mdel k m)"
  unfolding mall_def using gomap.all_del [of m P k] by blast

lemma mall_mmap [simp]: "mall P (mmap f m) \<longleftrightarrow> mall (\<lambda>k v. P k (f k v)) m"
  unfolding mall_def by auto

lemma mall_mono: "mall P m \<Longrightarrow> (\<And>k v. mget m k = Some v \<Longrightarrow> P k v \<Longrightarrow> Q k v) \<Longrightarrow> mall Q m"
  by (simp add: mall_def)

lemma mall_mfilter: "wfmap m \<Longrightarrow> mall P m \<Longrightarrow> mall P (mfilter Q m)"
  by (auto simp: mall_def mget_mfilter split: option.splits if_splits)

section \<open>The first entry that matches\<close>

lemma find_mput:
  assumes "wfmap m" and "find P m = Some (i, v)" and "P (i, w)"
  shows "find P (mput i w m) = Some (i, w)"
  using assms
proof (induction m)
  case (Cons e m)
  obtain k x where e: "e = (k, x)" by (cases e)
  show ?case
  proof (cases "P e")
    case True
    with Cons.prems e show ?thesis by simp
  next
    case False
    with Cons.prems e have f: "find P m = Some (i, v)" and wf: "wfmap m" by (simp_all add: wfmap_def)
    from f have "(i, v) \<in> set m" by (auto simp: find_Some_iff)
    with Cons.prems(1) e have "k \<noteq> i" by (force simp: wfmap_def)
    with Cons.IH [OF wf f Cons.prems(3)] False e show ?thesis by simp
  qed
qed simp

lemma find_map_entry:
  assumes "wfmap m" and "find P m = Some (i, v)"
  shows "mget m i = Some v"
  using assms by (auto simp: find_Some_iff mget_in_set)

end
