(* ===== verification/Control_State.thy ===== *)
theory Control_State imports Go_Map
begin

text \<open>
  The control state of \<^verbatim>\<open>internal/control/fsm.go\<close>: one record per Go struct, in the order of
  the sources (the command bodies are with the component that handles them). A typed
  string constant of the code (a status, a scope, a selector) is a constructor; the last
  constructor of such a datatype stands for any other text. \<open>env\<close> holds what one application of a
  command reads from outside the state: SHA-256, the result of \<^verbatim>\<open>newUUID\<close>, whether a text parses as
  a JSON object, and the known time zones.
\<close>

record env =
  sha256_hex :: "string \<Rightarrow> string"
  new_uuid :: "goerror + string"
  json_object :: "string \<Rightarrow> bool"
  timezone_known :: "string \<Rightarrow> bool"

section \<open>Constants\<close>

definition SessionTTL :: int where "SessionTTL = 12 * 3600 * nanos"
definition LockAfter :: int where "LockAfter = 10"
definition LockFor :: int where "LockFor = 15 * 60 * nanos"
definition DefaultRBACCacheTTL :: int where "DefaultRBACCacheTTL = 5 * 60 * nanos"
definition DefaultTokenTTL :: int where "DefaultTokenTTL = 3600 * nanos"

section \<open>Users, roles and sessions\<close>

datatype ScopeType =
  ScopeCluster | ScopeAgent | ScopeAgentGroup | ScopeProcessGroup | ScopeOther string

datatype UserStatus = UserActive | UserDisabled | UserLocked

record User =
  u_ID :: string
  u_Username :: string
  u_PasswordHash :: string
  u_DisplayName :: string
  u_Email :: string
  u_Status :: UserStatus
  u_CreatedUnix :: int
  u_LastLoginUnix :: int
  u_LockedUntilUnix :: int
  u_PasswordChangedUnix :: int
  u_FailCount :: int

record Role =
  r_ID :: string
  r_Name :: string
  r_Perms :: "string list"

record Binding =
  bi_UserID :: string
  bi_RoleID :: string
  bi_ScopeID :: string
  bi_Scope :: ScopeType

record Session =
  se_ID :: string
  se_UserID :: string
  se_CSRF :: string
  se_ExpiresUnix :: int

record APIToken =
  at_ID :: string
  at_UserID :: string
  at_Name :: string
  at_Hash :: string
  at_ExpiresUnix :: int
  at_Revoked :: bool

section \<open>Admission: join tokens, join attempts, members, capability\<close>

datatype MemberStatus =
  MemberUnset | MemberJoining | MemberAdmitted | MemberRemoved | MemberRevoked | MemberOther string

datatype JoinStatus = JoinPreparing | JoinCompleted

record JoinToken =
  jt_ID :: string
  jt_Hash :: string
  jt_ExpiresUnix :: int
  jt_Remaining :: int
  jt_Revoked :: bool

record JoinAttempt =
  ja_OperationID :: string
  ja_TokenID :: string
  ja_NodeID :: string
  ja_RaftAddr :: string
  ja_CSRHash :: string
  ja_CertPEM :: string
  ja_CertSerial :: string
  ja_Status :: JoinStatus
  ja_CreatedUnix :: int
  ja_UpdatedUnix :: int

record Member =
  m_NodeID :: string
  m_RaftAddr :: string
  m_CertSerial :: string
  m_Status :: MemberStatus

datatype CapabilityStatus = CapabilityPrepared | CapabilityReady

record AdmissionCapabilityNode =
  cn_Status :: CapabilityStatus
  cn_OperationID :: string
  cn_CertSerial :: string
  cn_LeaderTerm :: u64
  cn_Epoch :: u64
  cn_Nonce :: string
  cn_ExpiresUnix :: int
  cn_UpdatedUnix :: int

record AdmissionCapabilityState =
  cs_CAFingerprint :: string
  cs_Epoch :: u64
  cs_Nodes :: "(string, AdmissionCapabilityNode) gomap"

section \<open>Groups and alerts\<close>

record AgentGroup =
  g_GroupID :: string
  g_Name :: string
  g_Description :: string
  g_MemberIDs :: "string list"
  g_CreatedUnix :: int
  g_UpdatedUnix :: int

record AlertChannel =
  ac_ChannelID :: string
  ac_Type :: string
  ac_Name :: string
  ac_Enabled :: bool
  ac_ConfigJSON :: string
  ac_CreatedUnix :: int
  ac_UpdatedUnix :: int

record AlertPolicy =
  al_DedupWindowSec :: int
  al_NotifyOnResolve :: bool
  al_CPUHighPercent :: int
  al_MemoryHighPercent :: int
  al_DiskHighPercent :: int
  al_HighConsecutiveMins :: int
  al_SuspectTooLongSec :: int

definition DefaultAlertPolicy :: AlertPolicy where
  "DefaultAlertPolicy = \<lparr>
     al_DedupWindowSec = 600, al_NotifyOnResolve = True, al_CPUHighPercent = 90,
     al_MemoryHighPercent = 90, al_DiskHighPercent = 90, al_HighConsecutiveMins = 2,
     al_SuspectTooLongSec = 120\<rparr>"

section \<open>Backup and replication policies\<close>

datatype Selector = ALL_ADMITTED | AGENT_GROUP | EXPLICIT_NODES | NoSelector | SelectorOther string

record BackupPolicy =
  bp_PolicyID :: string
  bp_Name :: string
  bp_Enabled :: bool
  bp_ScheduleCron :: string
  bp_Timezone :: string
  bp_TargetSelector :: Selector
  bp_TargetIDs :: "string list"
  bp_Sink :: string
  bp_DestinationProfile :: string
  bp_RetentionKeepLast :: int
  bp_RetentionKeepDays :: int
  bp_RetentionMaxBytes :: int
  bp_TimeoutSeconds :: int
  bp_MaxConcurrency :: int
  bp_UnavailablePolicy :: string
  bp_Revision :: int

record ReplicationRoute =
  rr_SourceNodeID :: string
  rr_TargetNodeIDs :: "string list"

record ReplicationPolicy =
  rp_PolicyID :: string
  rp_Name :: string
  rp_Enabled :: bool
  rp_SourceSelector :: Selector
  rp_SourceIDs :: "string list"
  rp_ReplicaFactor :: int
  rp_Routes :: "ReplicationRoute list"
  rp_Trigger :: string
  rp_PrimaryPolicyIDs :: "string list"
  rp_ScheduleCron :: string
  rp_Timezone :: string
  rp_RetentionKeepLast :: int
  rp_RetentionKeepDays :: int
  rp_RetentionMaxBytes :: int
  rp_MaxConcurrency :: int
  rp_VerifyAfterCopy :: bool
  rp_BandwidthLimit :: int
  rp_TopologyConstraints :: "(string, string) gomap"
  rp_Revision :: int
  rp_ScheduleEpochUnix :: int
  rp_RouteTopologyRevision :: int

section \<open>Fires, runs, tasks and delete intents\<close>

text \<open>The statuses that fires, runs, tasks and delete intents share as plain strings.\<close>

datatype Status =
    S_empty | S_PENDING | S_RUNNING | S_SUCCEEDED | S_SUCCESS | S_PARTIAL | S_FAILED | S_CANCELED
  | S_TIMEOUT | S_UNAVAILABLE | S_CONFIG_MISSING | S_RETENTION_FAILED | S_SKIPPED | S_CLAIMED
  | S_EXPIRED | S_other string

record FireRecord =
  f_FireKey :: string
  f_PolicyID :: string
  f_RunID :: string
  f_ScheduledUnix :: int
  f_ClaimedUnix :: int
  f_LeaseUntilUnix :: int
  f_LeaderTerm :: u64
  f_Status :: Status

record ClusterBackupRun =
  run_RunID :: string
  run_PolicyID :: string
  run_PolicyRevision :: int
  run_TargetNodeIDs :: "string slice"
  run_Status :: Status
  run_Success :: int
  run_Failed :: int
  run_Unavailable :: int
  run_Timeout :: int
  run_CreatedUnix :: int
  run_StartedUnix :: int
  run_FinishedUnix :: int
  run_Sink :: string
  run_DestinationProfile :: string
  run_MaxConcurrency :: int
  run_TimeoutSeconds :: int
  run_UnavailablePolicy :: string
  run_LeaseUntilUnix :: int

record ClusterBackupTask =
  t_RunID :: string
  t_TaskID :: string
  t_NodeID :: string
  t_SourceNodeID :: string
  t_SnapshotID :: string
  t_SHA256 :: string
  t_Status :: Status
  t_Bytes :: int
  t_ErrorCode :: string
  t_ErrorSummary :: string
  t_LeaderTerm :: u64
  t_UpdatedUnix :: int

record ReplicationDeleteIntent =
  di_IntentID :: string
  di_PolicyID :: string
  di_PolicyRevision :: int
  di_SourceNodeID :: string
  di_TargetNodeID :: string
  di_SnapshotID :: string
  di_LeaderTerm :: u64
  di_ExpiresUnix :: int
  di_Status :: Status

section \<open>The state\<close>

record State =
  ClusterID :: string
  Users :: "(string, User) gomap"
  UsersByID :: "(string, string) gomap"
  Roles :: "(string, Role) gomap"
  Bindings :: "Binding list"
  Sessions :: "(string, Session) gomap"
  APITokens :: "(string, APIToken) gomap"
  JoinTokens :: "(string, JoinToken) gomap"
  JoinAttempts :: "(string, JoinAttempt) gomap"
  AdmissionCapability :: AdmissionCapabilityState
  Members :: "(string, Member) gomap"
  CRL :: "(string, unit) gomap"
  AgentGroups :: "(string, AgentGroup) gomap"
  AlertChannels :: "(string, AlertChannel) gomap"
  StAlertPolicy :: AlertPolicy
  BackupPolicies :: "(string, BackupPolicy) gomap"
  ReplicationPolicies :: "(string, ReplicationPolicy) gomap"
  BackupFireLedger :: "(string, FireRecord) gomap"
  BackupRuns :: "(string, ClusterBackupRun) gomap"
  BackupTasks :: "(string, ClusterBackupTask) gomap"
  ReplicationRuns :: "(string, ClusterBackupRun) gomap"
  ReplicationTasks :: "(string, ClusterBackupTask) gomap"
  ReplicationDeleteIntents :: "(string, ReplicationDeleteIntent) gomap"
  BackupRunTerms :: "(string, u64) gomap"
  ReplicationRunTerms :: "(string, u64) gomap"
  RBACCacheTTL :: int

end
