(* ===== verification/Control_Rbac.thy ===== *)
theory Control_Rbac imports Control_State
begin

text \<open>
  Roles, bindings and permission checks (\<^verbatim>\<open>fsm.go\<close>): the built-in roles, \<^verbatim>\<open>ensure\<close>, the
  commands on roles and bindings, and \<^verbatim>\<open>Check\<close>, \<^verbatim>\<open>CheckTarget\<close> and \<^verbatim>\<open>CanAny\<close>. The lemmas state that
  no command of this component changes a built-in role, that a deleted role has no binding left,
  and what a granted check implies.
\<close>

section \<open>Built-in roles\<close>

definition roleSuperAdmin :: string where "roleSuperAdmin = ''super_admin''"
definition roleClusterAdmin :: string where "roleClusterAdmin = ''cluster_admin''"
definition roleOperator :: string where "roleOperator = ''operator''"
definition roleViewer :: string where "roleViewer = ''viewer''"

lemmas role_ids = roleSuperAdmin_def roleClusterAdmin_def roleOperator_def roleViewer_def

definition IsBuiltinRoleID :: "string \<Rightarrow> bool" where
  "IsBuiltinRoleID i \<longleftrightarrow> i \<in> set [roleSuperAdmin, roleClusterAdmin, roleOperator, roleViewer]"

definition allPermissions :: "string list" where
  "allPermissions =
    [''cluster.read'', ''cluster.manage'',
     ''node.read'', ''node.manage'', ''node.remove'',
     ''process.read'', ''process.create'', ''process.update'', ''process.delete'',
     ''process.start'', ''process.stop'', ''process.restart'',
     ''process.config.read'', ''process.config.update'',
     ''process.logs.read'', ''process.logs.download'',
     ''user.read'', ''user.create'', ''user.update'', ''user.delete'',
     ''role.read'', ''role.manage'',
     ''audit.read'',
     ''batch.execute'', ''alert.read'', ''alert.manage'', ''backup.read'', ''backup.manage'',
     ''replication.read'', ''replication.manage'',
     ''command.execute'', ''command.execute.batch'']"

definition operatorPermissions :: "string list" where
  "operatorPermissions =
    [''cluster.read'', ''node.read'', ''process.read'',
     ''process.start'', ''process.stop'', ''process.restart'',
     ''process.config.read'', ''process.logs.read'',
     ''batch.execute'', ''alert.read'']"

definition viewerPermissions :: "string list" where
  "viewerPermissions =
    [''cluster.read'', ''node.read'', ''process.read'',
     ''process.config.read'', ''process.logs.read'',
     ''alert.read'']"

definition clusterAdminPermissions :: "string list" where
  "clusterAdminPermissions =
     filter (\<lambda>p. p \<notin> set [''user.delete'', ''role.manage'', ''command.execute'', ''command.execute.batch''])
       allPermissions"

definition builtinRoles :: "Role list" where
  "builtinRoles =
    [\<lparr>r_ID = roleSuperAdmin, r_Name = ''Super Admin'', r_Perms = allPermissions\<rparr>,
     \<lparr>r_ID = roleClusterAdmin, r_Name = ''Cluster Admin'', r_Perms = clusterAdminPermissions\<rparr>,
     \<lparr>r_ID = roleOperator, r_Name = ''Operator'', r_Perms = operatorPermissions\<rparr>,
     \<lparr>r_ID = roleViewer, r_Name = ''Viewer'', r_Perms = viewerPermissions\<rparr>]"

definition put_roles :: "Role list \<Rightarrow> (string, Role) gomap \<Rightarrow> (string, Role) gomap" where
  "put_roles rs m = fold (\<lambda>r. mput (r_ID r) r) rs m"

text \<open>
  \<^verbatim>\<open>ensure\<close> allocates missing maps (an empty association list already is one), writes the
  default alert policy where none was set, and writes the built-in roles.
\<close>

definition ensure :: "State \<Rightarrow> State" where
  "ensure s = s\<lparr>
     StAlertPolicy := (if al_DedupWindowSec (StAlertPolicy s) = 0 then DefaultAlertPolicy else StAlertPolicy s),
     Roles := put_roles builtinRoles (Roles s)\<rparr>"

definition zero_alert_policy :: AlertPolicy where
  "zero_alert_policy = \<lparr>al_DedupWindowSec = 0, al_NotifyOnResolve = False, al_CPUHighPercent = 0,
     al_MemoryHighPercent = 0, al_DiskHighPercent = 0, al_HighConsecutiveMins = 0,
     al_SuspectTooLongSec = 0\<rparr>"

definition zero_state :: State where
  "zero_state = \<lparr>
     ClusterID = [], Users = [], UsersByID = [], Roles = [], Bindings = [], Sessions = [],
     APITokens = [], JoinTokens = [], JoinAttempts = [],
     AdmissionCapability = \<lparr>cs_CAFingerprint = [], cs_Epoch = 0, cs_Nodes = []\<rparr>,
     Members = [], CRL = [], AgentGroups = [], AlertChannels = [], StAlertPolicy = zero_alert_policy,
     BackupPolicies = [], ReplicationPolicies = [], BackupFireLedger = [], BackupRuns = [],
     BackupTasks = [], ReplicationRuns = [], ReplicationTasks = [], ReplicationDeleteIntents = [],
     BackupRunTerms = [], ReplicationRunTerms = [], RBACCacheTTL = 0\<rparr>"

definition NewState :: State where
  "NewState = ensure zero_state"

section \<open>Commands on roles and bindings\<close>

record RolePutBody =
  rpb_ID :: string
  rpb_Name :: string
  rpb_Perms :: "string list"
  rpb_ExistingOnly :: bool

record RoleDeleteBody =
  rdb_ID :: string

record BindPutBody =
  bpb_UserID :: string
  bpb_RoleID :: string
  bpb_ScopeID :: string
  bpb_Scope :: ScopeType

record BindDeleteBody =
  bdb_UserID :: string
  bdb_RoleID :: string
  bdb_ScopeID :: string
  bdb_Scope :: ScopeType

definition applyRolePut :: "RolePutBody \<Rightarrow> State \<Rightarrow> goerror + State" where
  "applyRolePut b s =
    (if rpb_ID b = [] then fail INVALID ''role id required''
     else if IsBuiltinRoleID (rpb_ID b) then fail DENIED ''built-in role cannot be changed''
     else if rpb_ExistingOnly b \<and> \<not> mhas (Roles s) (rpb_ID b) then fail NOT_FOUND ''role not found''
     else Inr (s\<lparr>Roles := mput (rpb_ID b)
            \<lparr>r_ID = rpb_ID b, r_Name = rpb_Name b, r_Perms = rpb_Perms b\<rparr> (Roles s)\<rparr>))"

definition applyRoleDelete :: "RoleDeleteBody \<Rightarrow> State \<Rightarrow> goerror + State" where
  "applyRoleDelete b s =
    (if rdb_ID b = [] then fail INVALID ''role id required''
     else if IsBuiltinRoleID (rdb_ID b) then fail DENIED ''built-in role cannot be deleted''
     else if \<not> mhas (Roles s) (rdb_ID b) then fail NOT_FOUND ''role not found''
     else if list_ex (\<lambda>binding. bi_RoleID binding = rdb_ID b) (Bindings s)
       then fail CONFLICT ''role still has bindings''
     else Inr (s\<lparr>Roles := mdel (rdb_ID b) (Roles s)\<rparr>))"

definition applyBindPut :: "BindPutBody \<Rightarrow> State \<Rightarrow> goerror + State" where
  "applyBindPut b s =
    (if bpb_UserID b = [] \<or> bpb_RoleID b = [] then fail INVALID ''binding user and role required''
     else let nb = \<lparr>bi_UserID = bpb_UserID b, bi_RoleID = bpb_RoleID b,
                    bi_ScopeID = bpb_ScopeID b, bi_Scope = bpb_Scope b\<rparr>
       in if nb \<in> set (Bindings s) then Inr s
          else Inr (s\<lparr>Bindings := Bindings s @ [nb]\<rparr>))"

definition applyBindDelete :: "BindDeleteBody \<Rightarrow> State \<Rightarrow> goerror + State" where
  "applyBindDelete b s =
    (if bdb_UserID b = [] \<or> bdb_RoleID b = [] then fail INVALID ''binding user and role required''
     else if IsBuiltinRoleID (bdb_RoleID b) then fail DENIED ''built-in role binding cannot be deleted''
     else let target = \<lparr>bi_UserID = bdb_UserID b, bi_RoleID = bdb_RoleID b,
                        bi_ScopeID = bdb_ScopeID b, bi_Scope = bdb_Scope b\<rparr>
       in if target \<in> set (Bindings s) then Inr (s\<lparr>Bindings := remove1 target (Bindings s)\<rparr>)
          else fail NOT_FOUND ''binding not found'')"

datatype RbacCommand =
    CmdRolePut RolePutBody
  | CmdRoleDelete RoleDeleteBody
  | CmdBindPut BindPutBody
  | CmdBindDelete BindDeleteBody

primrec apply_rbac :: "RbacCommand \<Rightarrow> State \<Rightarrow> goerror + State" where
  "apply_rbac (CmdRolePut b) = applyRolePut b"
| "apply_rbac (CmdRoleDelete b) = applyRoleDelete b"
| "apply_rbac (CmdBindPut b) = applyBindPut b"
| "apply_rbac (CmdBindDelete b) = applyBindDelete b"

lemmas rbac_defs [handler_defs] =
  applyRolePut_def applyRoleDelete_def applyBindPut_def applyBindDelete_def

section \<open>Checks\<close>

definition userByID :: "State \<Rightarrow> string \<Rightarrow> User option" where
  "userByID s i = (case mget (UsersByID s) i of None \<Rightarrow> None | Some uname \<Rightarrow> mget (Users s) uname)"

definition NodeInGroup :: "State \<Rightarrow> string \<Rightarrow> string \<Rightarrow> bool" where
  "NodeInGroup s nodeID groupID =
    (case mget (AgentGroups s) groupID of None \<Rightarrow> False | Some g \<Rightarrow> nodeID \<in> set (g_MemberIDs g))"

definition roleHasPerm :: "Role \<Rightarrow> string \<Rightarrow> bool" where
  "roleHasPerm role perm \<longleftrightarrow> list_ex (\<lambda>p. p = perm) (r_Perms role)"

record CheckTargetArg =
  ct_NodeID :: string
  ct_ProcessGroup :: string

definition scope_covers :: "State \<Rightarrow> Binding \<Rightarrow> CheckTargetArg \<Rightarrow> bool" where
  "scope_covers s b t =
    (case bi_Scope b of
       ScopeCluster \<Rightarrow> True
     | ScopeAgent \<Rightarrow> ct_NodeID t \<noteq> [] \<and> bi_ScopeID b = ct_NodeID t
     | ScopeAgentGroup \<Rightarrow> ct_NodeID t \<noteq> [] \<and> NodeInGroup s (ct_NodeID t) (bi_ScopeID b)
     | ScopeProcessGroup \<Rightarrow> ct_ProcessGroup t \<noteq> [] \<and> ct_ProcessGroup t = bi_ScopeID b
     | ScopeOther _ \<Rightarrow> False)"

definition CheckTarget :: "State \<Rightarrow> string \<Rightarrow> string \<Rightarrow> CheckTargetArg \<Rightarrow> bool" where
  "CheckTarget s userID perm t =
    (case userByID s userID of
       None \<Rightarrow> False
     | Some u \<Rightarrow>
         if u_Status u \<noteq> UserActive then False
         else list_ex (\<lambda>b.
            bi_UserID b = userID \<and>
            (case mget (Roles s) (bi_RoleID b) of
               None \<Rightarrow> False
             | Some role \<Rightarrow> roleHasPerm role perm \<and> scope_covers s b t)) (Bindings s))"

definition Check :: "State \<Rightarrow> string \<Rightarrow> string \<Rightarrow> string \<Rightarrow> bool" where
  "Check s userID perm targetNodeID =
     CheckTarget s userID perm \<lparr>ct_NodeID = targetNodeID, ct_ProcessGroup = []\<rparr>"

definition CanAny :: "State \<Rightarrow> string \<Rightarrow> string \<Rightarrow> bool" where
  "CanAny s userID perm =
    (case userByID s userID of
       None \<Rightarrow> False
     | Some u \<Rightarrow>
         if u_Status u \<noteq> UserActive then False
         else list_ex (\<lambda>b.
            bi_UserID b = userID \<and>
            (case mget (Roles s) (bi_RoleID b) of None \<Rightarrow> False | Some role \<Rightarrow> roleHasPerm role perm))
            (Bindings s))"

section \<open>Facts on the built-in roles\<close>

definition ensured :: "State \<Rightarrow> bool" where
  "ensured s \<longleftrightarrow> al_DedupWindowSec (StAlertPolicy s) \<noteq> 0
     \<and> list_all (\<lambda>r. mget (Roles s) (r_ID r) = Some r) builtinRoles"

lemma put_roles_same: "list_all (\<lambda>r. mget m (r_ID r) = Some r) rs \<Longrightarrow> put_roles rs m = m"
  unfolding put_roles_def by (induction rs) (simp_all add: mput_same)

lemma mget_put_roles_other: "i \<notin> r_ID ` set rs \<Longrightarrow> mget (put_roles rs m) i = mget m i"
  unfolding put_roles_def by (induction rs arbitrary: m) auto

lemma mget_put_roles:
  "distinct (map r_ID rs) \<Longrightarrow> r \<in> set rs \<Longrightarrow> mget (put_roles rs m) (r_ID r) = Some r"
proof (induction rs arbitrary: m)
  case (Cons x rs)
  show ?case
  proof (cases "r \<in> set rs")
    case True
    with Cons show ?thesis by (simp add: put_roles_def)
  next
    case False
    with Cons.prems have "r = x" and "r_ID x \<notin> r_ID ` set rs" by auto
    with mget_put_roles_other [of "r_ID x" rs "mput (r_ID x) x m"] show ?thesis
      by (simp add: put_roles_def)
  qed
qed simp

lemma wfmap_put_roles [simp]: "wfmap m \<Longrightarrow> wfmap (put_roles rs m)"
  unfolding put_roles_def by (induction rs arbitrary: m) auto

lemma distinct_builtin: "distinct (map r_ID builtinRoles)"
  by (simp add: builtinRoles_def role_ids)

lemma builtin_role_ids: "r \<in> set builtinRoles \<Longrightarrow> IsBuiltinRoleID (r_ID r)"
  by (auto simp: builtinRoles_def IsBuiltinRoleID_def)

lemma builtin_role_found:
  "r \<in> set builtinRoles \<Longrightarrow> mget (put_roles builtinRoles m) (r_ID r) = Some r"
  by (rule mget_put_roles [OF distinct_builtin])

lemma ensure_ensured: "ensured (ensure s)"
  by (auto simp: ensured_def ensure_def list_all_iff DefaultAlertPolicy_def builtin_role_found)

lemma ensured_ensure: "ensured s \<Longrightarrow> ensure s = s"
  by (simp add: ensured_def ensure_def put_roles_same)

lemma ensure_iff: "ensure s = s \<longleftrightarrow> ensured s"
  by (metis ensure_ensured ensured_ensure)

lemma ensure_idem [simp]: "ensure (ensure s) = ensure s"
  by (rule ensured_ensure [OF ensure_ensured])

lemma ensured_fields:
  "ensured s \<Longrightarrow> StAlertPolicy s' = StAlertPolicy s \<Longrightarrow> Roles s' = Roles s \<Longrightarrow> ensured s'"
  by (simp add: ensured_def)

lemma ensured_role: "ensured s \<Longrightarrow> r \<in> set builtinRoles \<Longrightarrow> mget (Roles s) (r_ID r) = Some r"
  by (auto simp: ensured_def list_all_iff)

text \<open>What the commands of this component leave alone, and that they keep \<open>ensured\<close>.\<close>

lemma rbac_footprint [footprint]:
  assumes "apply_rbac c s = Inr s'"
  shows "\<exists>r b. s' = s\<lparr>Roles := r, Bindings := b\<rparr>"
proof -
  have "s' = s\<lparr>Roles := Roles s', Bindings := Bindings s'\<rparr>"
    using assms by (cases c) (auto simp: rbac_defs Let_def split: if_splits)
  then show ?thesis by blast
qed

lemma rbac_ensured [preserved]:
  assumes "apply_rbac c s = Inr s'" and "ensured s"
  shows "ensured s'"
proof -
  have "mget (Roles s') i = mget (Roles s) i" if "IsBuiltinRoleID i" for i
    using assms(1) that by (cases c) (auto simp: rbac_defs Let_def split: if_splits)
  moreover have "StAlertPolicy s' = StAlertPolicy s"
    using rbac_footprint [OF assms(1)] by auto
  ultimately show ?thesis
    using assms(2) builtin_role_ids by (auto simp: ensured_def list_all_iff)
qed

lemma super_admin_all:
  assumes "ensured s" and "userByID s i = Some u" and "u_Status u = UserActive"
    and "b \<in> set (Bindings s)" and "bi_UserID b = i" and "bi_RoleID b = roleSuperAdmin"
    and "bi_Scope b = ScopeCluster" and "perm \<in> set allPermissions"
  shows "CheckTarget s i perm t"
proof -
  define r where "r = \<lparr>r_ID = roleSuperAdmin, r_Name = ''Super Admin'', r_Perms = allPermissions\<rparr>"
  have "r \<in> set builtinRoles" by (simp add: builtinRoles_def r_def)
  from ensured_role [OF assms(1) this] have "mget (Roles s) roleSuperAdmin = Some r"
    by (simp add: r_def)
  moreover have "roleHasPerm r perm"
    using assms(8) by (simp add: roleHasPerm_def list_ex_iff r_def)
  ultimately have "case mget (Roles s) (bi_RoleID b) of None \<Rightarrow> False
      | Some role \<Rightarrow> roleHasPerm role perm \<and> scope_covers s b t"
    using assms(6,7) by (simp add: scope_covers_def)
  with assms(2-5) show ?thesis
    unfolding CheckTarget_def by (auto simp: list_ex_iff)
qed

lemma CheckTargetD:
  assumes "CheckTarget s i perm t"
  obtains u b role where "userByID s i = Some u" and "u_Status u = UserActive"
    and "b \<in> set (Bindings s)" and "bi_UserID b = i" and "mget (Roles s) (bi_RoleID b) = Some role"
    and "roleHasPerm role perm" and "scope_covers s b t"
  using assms unfolding CheckTarget_def
  by (auto simp: list_ex_iff split: option.splits if_splits)

end
