(* ===== verification/Control_Users.thy ===== *)
theory Control_Users imports Control_Rbac
begin

text \<open>
  Users, login lockout, sessions and API tokens (\<^verbatim>\<open>fsm.go\<close>, lines 466 to 711): one definition per
  command handler, with the branches in the order of the code.
\<close>

record BootstrapBody =
  bsb_ClusterID :: string
  bsb_AdminUser :: string
  bsb_PasswordHash :: string
  bsb_AdminUserID :: string
  bsb_NowUnix :: int

record UserPutBody =
  upb_ID :: string
  upb_Username :: string
  upb_PasswordHash :: string
  upb_DisplayName :: string
  upb_Email :: string

record UserDisableBody =
  udb_UserID :: string

record UserDisableGuardedBody =
  udg_UserID :: string
  udg_ActorUserID :: string

record UserEnableBody =
  ueb_UserID :: string

record UserPasswordSetBody =
  upw_UserID :: string
  upw_PasswordHash :: string

record LoginOKBody =
  lok_Username :: string

record LoginFailBody =
  lfl_Username :: string

record SessionPutBody =
  spb_ID :: string
  spb_UserID :: string
  spb_CSRF :: string
  spb_ExpiresUnix :: int

record SessionDelBody =
  sdb_ID :: string

record TokenPutBody =
  tpb_ID :: string
  tpb_UserID :: string
  tpb_Name :: string
  tpb_Hash :: string
  tpb_ExpiresUnix :: int

record TokenRevokeBody =
  trb_ID :: string

section \<open>Handlers\<close>

definition applyBootstrap :: "BootstrapBody \<Rightarrow> State \<Rightarrow> goerror + State" where
  "applyBootstrap b s =
    (if ClusterID s \<noteq> [] then fail CONFLICT ''cluster already bootstrapped''
     else if bsb_ClusterID b = [] \<or> bsb_AdminUser b = [] \<or> bsb_PasswordHash b = [] \<or> bsb_AdminUserID b = []
       then fail INVALID ''bootstrap fields required''
     else Inr (s\<lparr>
       ClusterID := bsb_ClusterID b,
       RBACCacheTTL := DefaultRBACCacheTTL,
       Roles := put_roles builtinRoles (Roles s),
       Users := mput (bsb_AdminUser b)
         \<lparr>u_ID = bsb_AdminUserID b, u_Username = bsb_AdminUser b, u_PasswordHash = bsb_PasswordHash b,
          u_DisplayName = [], u_Email = [], u_Status = UserActive, u_CreatedUnix = bsb_NowUnix b,
          u_LastLoginUnix = 0, u_LockedUntilUnix = 0, u_PasswordChangedUnix = 0, u_FailCount = 0\<rparr> (Users s),
       UsersByID := mput (bsb_AdminUserID b) (bsb_AdminUser b) (UsersByID s),
       Bindings := Bindings s @ [\<lparr>bi_UserID = bsb_AdminUserID b, bi_RoleID = roleSuperAdmin,
                                  bi_ScopeID = [], bi_Scope = ScopeCluster\<rparr>]\<rparr>))"

text \<open>\<^verbatim>\<open>id := b.ID; if id == "" { id, err = newUUID() }\<close>\<close>

definition id_or_new :: "env \<Rightarrow> string \<Rightarrow> goerror + string" where
  "id_or_new e i = (if i = [] then new_uuid e else Inr i)"

definition applyUserPut :: "env \<Rightarrow> UserPutBody \<Rightarrow> State \<Rightarrow> goerror + State" where
  "applyUserPut e b s =
    (if upb_Username b = [] \<or> upb_PasswordHash b = [] then fail INVALID ''username and password hash required''
     else if mhas (Users s) (upb_Username b) then fail CONFLICT ''username already exists''
     else case id_or_new e (upb_ID b) of
         Inl err \<Rightarrow> Inl err
       | Inr i \<Rightarrow>
           if (case mget (UsersByID s) i of Some existing \<Rightarrow> existing \<noteq> upb_Username b | None \<Rightarrow> False)
             then fail CONFLICT ''user id already exists''
           else Inr (s\<lparr>
             Users := mput (upb_Username b)
               \<lparr>u_ID = i, u_Username = upb_Username b, u_PasswordHash = upb_PasswordHash b,
                u_DisplayName = upb_DisplayName b, u_Email = upb_Email b, u_Status = UserActive,
                u_CreatedUnix = 0, u_LastLoginUnix = 0, u_LockedUntilUnix = 0,
                u_PasswordChangedUnix = 0, u_FailCount = 0\<rparr> (Users s),
             UsersByID := mput i (upb_Username b) (UsersByID s)\<rparr>))"

text \<open>\<^verbatim>\<open>s.Users[u.Username] = u\<close>\<close>

definition put_user :: "User \<Rightarrow> State \<Rightarrow> State" where
  "put_user u s = s\<lparr>Users := mput (u_Username u) u (Users s)\<rparr>"

definition applyUserDisable :: "UserDisableBody \<Rightarrow> State \<Rightarrow> goerror + State" where
  "applyUserDisable b s =
    (case userByID s (udb_UserID b) of
       None \<Rightarrow> fail NOT_FOUND ''user not found''
     | Some u \<Rightarrow> Inr (put_user (u\<lparr>u_Status := UserDisabled\<rparr>) s))"

definition is_super_binding :: "Binding \<Rightarrow> bool" where
  "is_super_binding bnd \<longleftrightarrow>
     bi_RoleID bnd = roleSuperAdmin \<and> bi_Scope bnd = ScopeCluster \<and> bi_ScopeID bnd = []"

definition hasClusterSuperAdminBinding :: "State \<Rightarrow> string \<Rightarrow> bool" where
  "hasClusterSuperAdminBinding s userID \<longleftrightarrow>
     list_ex (\<lambda>bnd. bi_UserID bnd = userID \<and> is_super_binding bnd) (Bindings s)"

text \<open>The keys of the \<^verbatim>\<open>seen\<close> map are the distinct users counted.\<close>

definition active_super_ids :: "State \<Rightarrow> string list" where
  "active_super_ids s =
     map bi_UserID (filter (\<lambda>bnd. is_super_binding bnd \<and>
        (case userByID s (bi_UserID bnd) of Some u \<Rightarrow> u_Status u = UserActive | None \<Rightarrow> False)) (Bindings s))"

definition activeClusterSuperAdminCount :: "State \<Rightarrow> nat" where
  "activeClusterSuperAdminCount s = length (remdups (active_super_ids s))"

definition applyUserDisableGuarded :: "UserDisableGuardedBody \<Rightarrow> State \<Rightarrow> goerror + State" where
  "applyUserDisableGuarded b s =
    (if udg_UserID b = [] \<or> udg_ActorUserID b = [] then fail INVALID ''user_id and actor_user_id required''
     else case userByID s (udg_UserID b) of
         None \<Rightarrow> fail NOT_FOUND ''user not found''
       | Some u \<Rightarrow>
           if udg_UserID b = udg_ActorUserID b then fail CONFLICT ''cannot disable current user''
           else if u_Status u = UserActive \<and> hasClusterSuperAdminBinding s (udg_UserID b)
                \<and> activeClusterSuperAdminCount s = 1
             then fail CONFLICT ''cannot disable last active super admin''
           else Inr (put_user (u\<lparr>u_Status := UserDisabled\<rparr>) s))"

definition applyUserEnable :: "UserEnableBody \<Rightarrow> State \<Rightarrow> goerror + State" where
  "applyUserEnable b s =
    (if ueb_UserID b = [] then fail INVALID ''user_id required''
     else case userByID s (ueb_UserID b) of
         None \<Rightarrow> fail NOT_FOUND ''user not found''
       | Some u \<Rightarrow>
           if u_Status u = UserActive then Inr s
           else
             let s1 = s\<lparr>Sessions := mfilter (\<lambda>_ session. se_UserID session \<noteq> ueb_UserID b) (Sessions s),
                        APITokens := mmap (\<lambda>_ token. if at_UserID token = ueb_UserID b
                           then token\<lparr>at_Revoked := True\<rparr> else token) (APITokens s)\<rparr>
             in Inr (put_user (u\<lparr>u_Status := UserActive, u_FailCount := 0, u_LockedUntilUnix := 0\<rparr>) s1))"

definition applyUserPasswordSet :: "UserPasswordSetBody \<Rightarrow> gtime \<Rightarrow> State \<Rightarrow> goerror + State" where
  "applyUserPasswordSet b now s =
    (if upw_UserID b = [] \<or> upw_PasswordHash b = [] then fail INVALID ''user id and password hash required''
     else case userByID s (upw_UserID b) of
         None \<Rightarrow> fail NOT_FOUND ''user not found''
       | Some u \<Rightarrow> Inr (put_user (u\<lparr>u_PasswordHash := upw_PasswordHash b,
                                     u_PasswordChangedUnix := Unix now\<rparr>) s))"

definition applyLoginOK :: "LoginOKBody \<Rightarrow> gtime \<Rightarrow> State \<Rightarrow> goerror + State" where
  "applyLoginOK b now s =
    (case mget (Users s) (lok_Username b) of
       None \<Rightarrow> fail NOT_FOUND ''user not found''
     | Some u0 \<Rightarrow>
         let u1 = u0\<lparr>u_FailCount := 0\<rparr>;
             u2 = (if u_Status u1 = UserLocked \<and> \<not> now < time_Unix (u_LockedUntilUnix u1)
                   then u1\<lparr>u_Status := UserActive, u_LockedUntilUnix := 0\<rparr> else u1);
             u3 = u2\<lparr>u_LastLoginUnix := Unix now\<rparr>
         in Inr (s\<lparr>Users := mput (lok_Username b) u3 (Users s)\<rparr>))"

definition applyLoginFail :: "LoginFailBody \<Rightarrow> gtime \<Rightarrow> State \<Rightarrow> goerror + State" where
  "applyLoginFail b now s =
    (case mget (Users s) (lfl_Username b) of
       None \<Rightarrow> fail NOT_FOUND ''user not found''
     | Some u0 \<Rightarrow>
         let u1 = u0\<lparr>u_FailCount := u_FailCount u0 + 1\<rparr>;
             u2 = (if LockAfter \<le> u_FailCount u1 \<and> u_Status u1 \<noteq> UserDisabled
                   then u1\<lparr>u_Status := UserLocked, u_LockedUntilUnix := Unix (now + LockFor)\<rparr> else u1)
         in Inr (s\<lparr>Users := mput (lfl_Username b) u2 (Users s)\<rparr>))"

definition applySessionPut :: "SessionPutBody \<Rightarrow> gtime \<Rightarrow> State \<Rightarrow> goerror + State" where
  "applySessionPut b now s =
    (if spb_ID b = [] then fail INVALID ''session id required''
     else let ex = (if spb_ExpiresUnix b = 0 then Unix (now + SessionTTL) else spb_ExpiresUnix b)
       in Inr (s\<lparr>Sessions := mput (spb_ID b)
            \<lparr>se_ID = spb_ID b, se_UserID = spb_UserID b, se_CSRF = spb_CSRF b, se_ExpiresUnix = ex\<rparr>
            (Sessions s)\<rparr>))"

definition applySessionDel :: "SessionDelBody \<Rightarrow> State \<Rightarrow> goerror + State" where
  "applySessionDel b s = Inr (s\<lparr>Sessions := mdel (sdb_ID b) (Sessions s)\<rparr>)"

definition applyTokenPut :: "env \<Rightarrow> TokenPutBody \<Rightarrow> State \<Rightarrow> goerror + State" where
  "applyTokenPut e b s =
    (if tpb_Hash b = [] then fail INVALID ''token hash required''
     else case id_or_new e (tpb_ID b) of
         Inl err \<Rightarrow> Inl err
       | Inr i \<Rightarrow> Inr (s\<lparr>APITokens := mput i
            \<lparr>at_ID = i, at_UserID = tpb_UserID b, at_Name = tpb_Name b, at_Hash = tpb_Hash b,
             at_ExpiresUnix = tpb_ExpiresUnix b, at_Revoked = False\<rparr> (APITokens s)\<rparr>))"

definition applyTokenRevoke :: "TokenRevokeBody \<Rightarrow> State \<Rightarrow> goerror + State" where
  "applyTokenRevoke b s =
    (case mget (APITokens s) (trb_ID b) of
       None \<Rightarrow> fail NOT_FOUND ''api token not found''
     | Some tok \<Rightarrow> Inr (s\<lparr>APITokens := mput (trb_ID b) (tok\<lparr>at_Revoked := True\<rparr>) (APITokens s)\<rparr>))"

definition SessionByID :: "State \<Rightarrow> string \<Rightarrow> Session option" where
  "SessionByID s i = mget (Sessions s) i"

definition TokenByPlain :: "env \<Rightarrow> State \<Rightarrow> string \<Rightarrow> APIToken option" where
  "TokenByPlain e s plain =
     (let want = sha256_hex e plain in find (\<lambda>tok. at_Hash tok = want) (mvals (APITokens s)))"

datatype UserCommand =
    CmdBootstrap BootstrapBody
  | CmdUserPut UserPutBody
  | CmdUserDisable UserDisableBody
  | CmdUserDisableGuarded UserDisableGuardedBody
  | CmdUserEnable UserEnableBody
  | CmdUserPasswordSet UserPasswordSetBody
  | CmdLoginOK LoginOKBody
  | CmdLoginFail LoginFailBody
  | CmdSessionPut SessionPutBody
  | CmdSessionDel SessionDelBody
  | CmdTokenPut TokenPutBody
  | CmdTokenRevoke TokenRevokeBody

primrec apply_user :: "env \<Rightarrow> gtime \<Rightarrow> UserCommand \<Rightarrow> State \<Rightarrow> goerror + State" where
  "apply_user e now (CmdBootstrap b) = applyBootstrap b"
| "apply_user e now (CmdUserPut b) = applyUserPut e b"
| "apply_user e now (CmdUserDisable b) = applyUserDisable b"
| "apply_user e now (CmdUserDisableGuarded b) = applyUserDisableGuarded b"
| "apply_user e now (CmdUserEnable b) = applyUserEnable b"
| "apply_user e now (CmdUserPasswordSet b) = applyUserPasswordSet b now"
| "apply_user e now (CmdLoginOK b) = applyLoginOK b now"
| "apply_user e now (CmdLoginFail b) = applyLoginFail b now"
| "apply_user e now (CmdSessionPut b) = applySessionPut b now"
| "apply_user e now (CmdSessionDel b) = applySessionDel b"
| "apply_user e now (CmdTokenPut b) = applyTokenPut e b"
| "apply_user e now (CmdTokenRevoke b) = applyTokenRevoke b"

lemmas user_defs [handler_defs] =
  applyBootstrap_def applyUserPut_def applyUserDisable_def applyUserDisableGuarded_def
  applyUserEnable_def applyUserPasswordSet_def applyLoginOK_def applyLoginFail_def
  applySessionPut_def applySessionDel_def applyTokenPut_def applyTokenRevoke_def

section \<open>What the commands change\<close>

lemma user_footprint [footprint]:
  assumes "apply_user e now c s = Inr s'"
  shows "\<exists>i us ub rs bs ss ats ttl. s' = s\<lparr>ClusterID := i, Users := us, UsersByID := ub, Roles := rs,
       Bindings := bs, Sessions := ss, APITokens := ats, RBACCacheTTL := ttl\<rparr>"
proof -
  have "s' = s\<lparr>ClusterID := ClusterID s', Users := Users s', UsersByID := UsersByID s',
      Roles := Roles s', Bindings := Bindings s', Sessions := Sessions s',
      APITokens := APITokens s', RBACCacheTTL := RBACCacheTTL s'\<rparr>"
    using assms by (cases c) (auto simp: user_defs put_user_def Let_def split: if_splits)
  then show ?thesis by blast
qed

lemma user_ensured [preserved]:
  assumes "apply_user e now c s = Inr s'" and "ensured s"
  shows "ensured s'"
proof -
  have "Roles s' = Roles s"
    using assms by (cases c) (auto simp: user_defs put_user_def Let_def ensured_def put_roles_same split: if_splits)
  moreover have "StAlertPolicy s' = StAlertPolicy s"
    using user_footprint [OF assms(1)] by auto
  ultimately show ?thesis using assms(2) by (auto intro: ensured_fields)
qed

section \<open>The index of users\<close>

text \<open>\<open>names_ok\<close> holds in every state; \<open>ids_ok\<close> adds that the index inverts the users' identifiers.\<close>

definition names_ok :: "State \<Rightarrow> bool" where
  "names_ok s \<longleftrightarrow> (\<forall>n u. mget (Users s) n = Some u \<longrightarrow> u_Username u = n)
     \<and> (\<forall>i n. mget (UsersByID s) i = Some n \<longrightarrow> mhas (Users s) n)"

definition ids_ok :: "State \<Rightarrow> bool" where
  "ids_ok s \<longleftrightarrow> (\<forall>i n u. mget (UsersByID s) i = Some n \<longrightarrow> mget (Users s) n = Some u \<longrightarrow> u_ID u = i)"

lemma ids_okD: "ids_ok s \<Longrightarrow> mget (UsersByID s) i = Some n \<Longrightarrow> mget (Users s) n = Some u \<Longrightarrow> u_ID u = i"
  by (simp add: ids_ok_def)

lemma names_okD: "names_ok s \<Longrightarrow> mget (Users s) n = Some u \<Longrightarrow> u_Username u = n"
  by (simp add: names_ok_def)

lemma index_hit: "names_ok s \<Longrightarrow> mget (UsersByID s) i = Some n \<Longrightarrow> \<exists>u. mget (Users s) n = Some u"
  by (auto simp: names_ok_def mhas_def)

lemma userByID_Some:
  "userByID s i = Some u \<longleftrightarrow> (\<exists>n. mget (UsersByID s) i = Some n \<and> mget (Users s) n = Some u)"
  by (auto simp: userByID_def split: option.splits)

lemma userByID_name: "names_ok s \<Longrightarrow> userByID s i = Some u \<Longrightarrow> mget (UsersByID s) i = Some (u_Username u)"
  by (auto simp: names_ok_def userByID_Some)

lemma userByID_id: "ids_ok s \<Longrightarrow> userByID s i = Some u \<Longrightarrow> u_ID u = i"
  by (auto simp: userByID_Some intro: ids_okD)

lemma userByID_put_user_same:
  assumes "names_ok s" and "userByID s i = Some u" and "u_Username v = u_Username u"
  shows "userByID (put_user v s) i = Some v"
  using userByID_name [OF assms(1,2)] assms(3) by (simp add: userByID_Some put_user_def)

lemma userByID_put_user_other:
  assumes "names_ok s" and "ids_ok s" and "userByID s i = Some u" and "u_Username v = u_Username u" and "j \<noteq> i"
  shows "userByID (put_user v s) j = userByID s j"
proof (cases "mget (UsersByID s) j")
  case (Some n)
  have "n \<noteq> u_Username u"
  proof
    assume "n = u_Username u"
    moreover from userByID_name [OF assms(1,3)] have "mget (UsersByID s) i = Some (u_Username u)" .
    ultimately show False
      using Some assms(5) index_hit [OF assms(1) Some] ids_okD [OF assms(2)] by metis
  qed
  with Some assms(4) show ?thesis by (simp add: userByID_def put_user_def)
qed (simp add: userByID_def put_user_def)

lemma put_user_names_ok:
  "names_ok s \<Longrightarrow> names_ok (put_user v s)"
  by (auto simp: names_ok_def put_user_def split: if_splits)

lemma put_user_ids_ok:
  assumes "names_ok s" and "ids_ok s" and "userByID s i = Some u" and "u_Username v = u_Username u"
    and "u_ID v = u_ID u"
  shows "ids_ok (put_user v s)"
  using assms
  by (auto simp: ids_ok_def put_user_def userByID_Some dest: names_okD split: if_splits)

text \<open>Every command but a bootstrap and a user_put rewrites at most one user, in place.\<close>

lemma userByID_at: "names_ok s \<Longrightarrow> userByID s i = Some u \<Longrightarrow> mget (Users s) (u_Username u) = Some u"
  by (auto simp: userByID_Some dest: names_okD)

definition keeps_active :: "UserCommand \<Rightarrow> bool" where
  "keeps_active c = (case c of CmdBootstrap _ \<Rightarrow> False | CmdUserDisable _ \<Rightarrow> False
     | CmdUserDisableGuarded _ \<Rightarrow> False | CmdLoginFail _ \<Rightarrow> False | _ \<Rightarrow> True)"

definition rewrites_one :: "UserCommand \<Rightarrow> State \<Rightarrow> State \<Rightarrow> bool" where
  "rewrites_one c s s' \<longleftrightarrow> UsersByID s' = UsersByID s \<and> Bindings s' = Bindings s \<and>
     (Users s' = Users s \<or>
      (\<exists>n u v. mget (Users s) n = Some u \<and> Users s' = mput n v (Users s) \<and> u_ID v = u_ID u
         \<and> u_Username v = u_Username u
         \<and> (keeps_active c \<longrightarrow> u_Status u = UserActive \<longrightarrow> u_Status v = UserActive)))"

lemma rewrites_oneI:
  "UsersByID s' = UsersByID s \<Longrightarrow> Bindings s' = Bindings s \<Longrightarrow> mget (Users s) n = Some u \<Longrightarrow>
   Users s' = mput n v (Users s) \<Longrightarrow> u_ID v = u_ID u \<Longrightarrow> u_Username v = u_Username u \<Longrightarrow>
   (keeps_active c \<Longrightarrow> u_Status u = UserActive \<Longrightarrow> u_Status v = UserActive) \<Longrightarrow> rewrites_one c s s'"
  unfolding rewrites_one_def by blast

lemma user_rewrites:
  assumes "apply_user e now c s = Inr s'" and "names_ok s"
    and "\<And>b. c \<noteq> CmdBootstrap b" and "\<And>b. c \<noteq> CmdUserPut b"
  shows "rewrites_one c s s'"
proof (cases c)
  case (CmdUserDisable b)
  with assms(1) obtain u where u: "userByID s (udb_UserID b) = Some u"
    and "s' = put_user (u\<lparr>u_Status := UserDisabled\<rparr>) s"
    by (auto simp: applyUserDisable_def)
  with userByID_at [OF assms(2) u] CmdUserDisable show ?thesis
    by (auto simp: put_user_def keeps_active_def intro!: rewrites_oneI)
next
  case (CmdUserDisableGuarded b)
  with assms(1) obtain u where u: "userByID s (udg_UserID b) = Some u"
    and "s' = put_user (u\<lparr>u_Status := UserDisabled\<rparr>) s"
    by (auto simp: applyUserDisableGuarded_def)
  with userByID_at [OF assms(2) u] CmdUserDisableGuarded show ?thesis
    by (auto simp: put_user_def keeps_active_def intro!: rewrites_oneI)
next
  case (CmdUserEnable b)
  with assms(1) obtain u where u: "userByID s (ueb_UserID b) = Some u"
    and d: "s' = s \<or> s' = put_user (u\<lparr>u_Status := UserActive, u_FailCount := 0, u_LockedUntilUnix := 0\<rparr>)
      (s\<lparr>Sessions := mfilter (\<lambda>_ session. se_UserID session \<noteq> ueb_UserID b) (Sessions s),
         APITokens := mmap (\<lambda>_ token. if at_UserID token = ueb_UserID b
           then token\<lparr>at_Revoked := True\<rparr> else token) (APITokens s)\<rparr>)"
    by (auto simp: applyUserEnable_def Let_def)
  from d show ?thesis
  proof
    assume "s' = s"
    then show ?thesis by (simp add: rewrites_one_def)
  qed (use userByID_at [OF assms(2) u] in \<open>auto simp: put_user_def intro!: rewrites_oneI\<close>)
next
  case (CmdUserPasswordSet b)
  with assms(1) obtain u where u: "userByID s (upw_UserID b) = Some u"
    and "s' = put_user (u\<lparr>u_PasswordHash := upw_PasswordHash b, u_PasswordChangedUnix := Unix now\<rparr>) s"
    by (auto simp: applyUserPasswordSet_def)
  with userByID_at [OF assms(2) u] show ?thesis
    by (auto simp: put_user_def intro!: rewrites_oneI)
next
  case (CmdLoginOK b)
  with assms(1) show ?thesis
    by (auto simp: applyLoginOK_def Let_def intro!: rewrites_oneI)
next
  case (CmdLoginFail b)
  with assms(1) show ?thesis
    by (auto simp: applyLoginFail_def Let_def keeps_active_def intro!: rewrites_oneI)
qed (use assms in \<open>auto simp: rewrites_one_def user_defs Let_def\<close>)

lemma rewrites_names_ok: "rewrites_one c s s' \<Longrightarrow> names_ok s \<Longrightarrow> names_ok s'"
  by (auto simp: rewrites_one_def names_ok_def split: if_splits)

lemma rewrites_ids_ok:
  assumes "rewrites_one c s s'" and "ids_ok s" and "names_ok s"
  shows "ids_ok s'"
  using assms unfolding rewrites_one_def ids_ok_def by (auto split: if_splits)

lemma user_names_ok [preserved]:
  assumes "apply_user e now c s = Inr s'" and "names_ok s"
  shows "names_ok s'"
proof (cases "\<exists>b d. c = CmdBootstrap b \<or> c = CmdUserPut d")
  case True
  with assms show ?thesis
    by (auto simp: applyBootstrap_def applyUserPut_def names_ok_def split: if_splits)
next
  case False
  with assms show ?thesis by (blast intro: rewrites_names_ok user_rewrites)
qed

lemma user_put_ids_ok:
  assumes "applyUserPut e b s = Inr s'" and "names_ok s" and "ids_ok s"
  shows "ids_ok s'"
proof -
  from assms(1) obtain i u where ub: "UsersByID s' = mput i (upb_Username b) (UsersByID s)"
    and us: "Users s' = mput (upb_Username b) u (Users s)" and "u_ID u = i"
    and new: "mget (Users s) (upb_Username b) = None"
    by (auto simp: applyUserPut_def mhas_def)
  moreover from new have "mget (UsersByID s) j \<noteq> Some (upb_Username b)" for j
    using index_hit [OF assms(2)] by force
  ultimately show ?thesis
    using ids_okD [OF assms(3)] unfolding ids_ok_def by (auto split: if_splits)
qed

lemma user_ids_ok [preserved]:
  assumes "apply_user e now c s = Inr s'" and "names_ok s" and "ids_ok s"
    and "\<And>b. c = CmdBootstrap b \<Longrightarrow> Users s = []"
  shows "ids_ok s'"
proof (cases "\<exists>b d. c = CmdBootstrap b \<or> c = CmdUserPut d")
  case True
  then obtain b d where "c = CmdBootstrap b \<or> c = CmdUserPut d" by blast
  then show ?thesis
  proof
    assume c: "c = CmdBootstrap b"
    have "mget (UsersByID s) j = None" for j
      using assms(2) assms(4) [OF c] by (auto simp: names_ok_def mhas_def)
    with c assms(1,4) show ?thesis by (auto simp: applyBootstrap_def ids_ok_def split: if_splits)
  next
    assume "c = CmdUserPut d"
    with assms(1) user_put_ids_ok [OF _ assms(2,3)] show ?thesis by simp
  qed
next
  case False
  with assms(1,2,3) show ?thesis by (blast intro: rewrites_ids_ok user_rewrites)
qed

section \<open>Active users\<close>

definition active_in :: "State \<Rightarrow> string \<Rightarrow> bool" where
  "active_in s i \<longleftrightarrow> (case userByID s i of Some u \<Rightarrow> u_Status u = UserActive | None \<Rightarrow> False)"

lemma active_in_iff:
  "active_in s i \<longleftrightarrow> (\<exists>n u. mget (UsersByID s) i = Some n \<and> mget (Users s) n = Some u \<and> u_Status u = UserActive)"
  by (auto simp: active_in_def userByID_def split: option.splits)

lemma set_active_super_ids:
  "i \<in> set (active_super_ids s) \<longleftrightarrow> hasClusterSuperAdminBinding s i \<and> active_in s i"
  by (auto simp: active_super_ids_def hasClusterSuperAdminBinding_def active_in_def list_ex_iff)

lemma super_count_pos: "1 \<le> activeClusterSuperAdminCount s \<longleftrightarrow> (\<exists>i. i \<in> set (active_super_ids s))"
  unfolding activeClusterSuperAdminCount_def
  by (metis One_nat_def Suc_leI length_greater_0_conv length_pos_if_in_set list.set_intros(1)
      neq_Nil_conv not_one_le_zero length_0_conv remdups_eq_nil_right_iff)

lemma super_count_other:
  assumes "i \<in> set (active_super_ids s)" and "activeClusterSuperAdminCount s \<noteq> 1"
  shows "\<exists>j. j \<noteq> i \<and> j \<in> set (active_super_ids s)"
proof (rule ccontr)
  assume "\<not> ?thesis"
  with assms(1) have "set (remdups (active_super_ids s)) = {i}" by auto
  then have "length (remdups (active_super_ids s)) = 1"
    using distinct_card [OF distinct_remdups, of "active_super_ids s"] by simp
  with assms(2) show False by (simp add: activeClusterSuperAdminCount_def)
qed

text \<open>No command but a disable, a failed login or a bootstrap makes an active user inactive.\<close>

lemma active_kept:
  assumes "apply_user e now c s = Inr s'" and "keeps_active c" and "names_ok s" and "active_in s i"
  shows "active_in s' i"
proof (cases "\<exists>b. c = CmdUserPut b")
  case True
  with assms(1,3,4) show ?thesis
    by (auto simp: applyUserPut_def active_in_iff mhas_def split: option.splits)
next
  case False
  with assms(2) have "\<And>b. c \<noteq> CmdBootstrap b" and "\<And>b. c \<noteq> CmdUserPut b"
    by (auto simp: keeps_active_def)
  from user_rewrites [OF assms(1,3) this] assms(2,4) show ?thesis
    by (auto simp: rewrites_one_def active_in_iff)
qed

lemma bindings_kept:
  assumes "apply_user e now c s = Inr s'" and "keeps_active c \<or> (\<exists>b. c = CmdUserDisableGuarded b)"
  shows "Bindings s' = Bindings s"
  using assms
  by (cases c) (auto simp: keeps_active_def user_defs Let_def put_user_def)

lemma guarded_disable_keeps_super:
  assumes "applyUserDisableGuarded b s = Inr s'" and "names_ok s" and "ids_ok s"
    and "1 \<le> activeClusterSuperAdminCount s"
  shows "1 \<le> activeClusterSuperAdminCount s'"
proof -
  define i where "i = udg_UserID b"
  from assms(1) obtain u where u: "userByID s i = Some u"
    and s': "s' = put_user (u\<lparr>u_Status := UserDisabled\<rparr>) s"
    and g: "\<not> (u_Status u = UserActive \<and> hasClusterSuperAdminBinding s i \<and> activeClusterSuperAdminCount s = 1)"
    by (auto simp: applyUserDisableGuarded_def i_def)
  obtain j where j: "j \<noteq> i" "j \<in> set (active_super_ids s)"
  proof (cases "i \<in> set (active_super_ids s)")
    case True
    with u g have "activeClusterSuperAdminCount s \<noteq> 1" by (simp add: set_active_super_ids active_in_def)
    from super_count_other [OF True this] that show ?thesis by blast
  next
    case False
    from assms(4) obtain j where "j \<in> set (active_super_ids s)" unfolding super_count_pos by blast
    with False that show ?thesis by metis
  qed
  from userByID_put_user_other [OF assms(2,3) u _ j(1)] j(2)
  have "j \<in> set (active_super_ids s')"
    by (simp add: set_active_super_ids active_in_def s' hasClusterSuperAdminBinding_def put_user_def)
  then show ?thesis unfolding super_count_pos by blast
qed

lemma rbac_super_kept:
  assumes "apply_rbac c s = Inr s'" and "hasClusterSuperAdminBinding s i"
  shows "hasClusterSuperAdminBinding s' i"
proof (cases c)
  case (CmdBindDelete b)
  with assms obtain t where s': "s' = s\<lparr>Bindings := remove1 t (Bindings s)\<rparr>" and "bi_RoleID t \<noteq> roleSuperAdmin"
    by (auto simp: applyBindDelete_def Let_def IsBuiltinRoleID_def)
  then have "bnd \<in> set (remove1 t (Bindings s))"
    if "bnd \<in> set (Bindings s)" and "is_super_binding bnd" for bnd
    using that by (metis in_set_remove1 is_super_binding_def)
  with s' assms(2) show ?thesis
    by (fastforce simp: hasClusterSuperAdminBinding_def list_ex_iff)
qed (use assms in \<open>auto simp: rbac_defs Let_def hasClusterSuperAdminBinding_def list_ex_iff\<close>)

section \<open>Disabling, locking and re-enabling\<close>

lemma disabled_denied:
  assumes "names_ok s" and "userByID s i = Some u"
  shows "\<not> CheckTarget (put_user (u\<lparr>u_Status := UserDisabled\<rparr>) s) i perm t"
  using userByID_put_user_same [OF assms, of "u\<lparr>u_Status := UserDisabled\<rparr>"]
  by (simp add: CheckTarget_def)

definition disabled_in :: "State \<Rightarrow> string \<Rightarrow> bool" where
  "disabled_in s i \<longleftrightarrow> (case userByID s i of Some u \<Rightarrow> u_Status u = UserDisabled | None \<Rightarrow> False)"

lemma disabled_in_iff:
  "disabled_in s i \<longleftrightarrow> (\<exists>n u. mget (UsersByID s) i = Some n \<and> mget (Users s) n = Some u \<and> u_Status u = UserDisabled)"
  by (auto simp: disabled_in_def userByID_def split: option.splits)

lemma disabled_no_access: "disabled_in s i \<Longrightarrow> \<not> CheckTarget s i perm t \<and> \<not> CanAny s i perm"
  by (auto simp: disabled_in_def CheckTarget_def CanAny_def split: option.splits)

text \<open>Only \<^verbatim>\<open>user_enable\<close> for the user (or a bootstrap) ends the state of being disabled.\<close>

definition reenables :: "string \<Rightarrow> UserCommand \<Rightarrow> bool" where
  "reenables i c = (case c of CmdBootstrap _ \<Rightarrow> True | CmdUserEnable b \<Rightarrow> ueb_UserID b = i | _ \<Rightarrow> False)"

lemma disabled_kept:
  assumes "apply_user e now c s = Inr s'" and "\<not> reenables i c" and "names_ok s" and "ids_ok s"
    and "disabled_in s i"
  shows "disabled_in s' i"
proof (cases c)
  case (CmdUserPut b)
  with assms(1,3,5) show ?thesis
    by (auto simp: applyUserPut_def disabled_in_iff mhas_def split: option.splits)
next
  case (CmdUserDisable b)
  with assms(1) obtain u where "userByID s (udb_UserID b) = Some u"
    and "s' = put_user (u\<lparr>u_Status := UserDisabled\<rparr>) s"
    by (auto simp: applyUserDisable_def)
  with assms(5) show ?thesis by (auto simp: disabled_in_iff put_user_def)
next
  case (CmdUserDisableGuarded b)
  with assms(1) obtain u where "userByID s (udg_UserID b) = Some u"
    and "s' = put_user (u\<lparr>u_Status := UserDisabled\<rparr>) s"
    by (auto simp: applyUserDisableGuarded_def)
  with assms(5) show ?thesis by (auto simp: disabled_in_iff put_user_def)
next
  case (CmdUserEnable b)
  with assms(1) obtain u where u: "userByID s (ueb_UserID b) = Some u"
    and d: "s' = s \<or> s' = put_user (u\<lparr>u_Status := UserActive, u_FailCount := 0, u_LockedUntilUnix := 0\<rparr>)
      (s\<lparr>Sessions := mfilter (\<lambda>_ session. se_UserID session \<noteq> ueb_UserID b) (Sessions s),
         APITokens := mmap (\<lambda>_ token. if at_UserID token = ueb_UserID b
           then token\<lparr>at_Revoked := True\<rparr> else token) (APITokens s)\<rparr>)"
    by (auto simp: applyUserEnable_def Let_def)
  from CmdUserEnable assms(2) have "i \<noteq> ueb_UserID b" by (auto simp: reenables_def)
  from userByID_put_user_other [OF assms(3,4) u _ this, of
      "u\<lparr>u_Status := UserActive, u_FailCount := 0, u_LockedUntilUnix := 0\<rparr>"] d
  have "userByID s' i = userByID s i"
    by (cases "mget (UsersByID s) i") (auto simp: userByID_def put_user_def)
  with assms(5) show ?thesis by (simp add: disabled_in_def)
next
  case (CmdUserPasswordSet b)
  with assms(1) obtain u where u: "userByID s (upw_UserID b) = Some u"
    and s': "s' = put_user (u\<lparr>u_PasswordHash := upw_PasswordHash b, u_PasswordChangedUnix := Unix now\<rparr>) s"
    by (auto simp: applyUserPasswordSet_def)
  have "UsersByID s' = UsersByID s"
    and "\<And>n v. mget (Users s) n = Some v \<Longrightarrow> \<exists>w. mget (Users s') n = Some w \<and> u_Status w = u_Status v"
    using userByID_at [OF assms(3) u] by (auto simp: s' put_user_def)
  with assms(5) show ?thesis unfolding disabled_in_iff by metis
next
  case (CmdLoginOK b)
  with assms(1,5) show ?thesis by (auto simp: applyLoginOK_def Let_def disabled_in_iff)
next
  case (CmdLoginFail b)
  with assms(1,5) show ?thesis by (auto simp: applyLoginFail_def Let_def disabled_in_iff)
next
  case (CmdSessionPut b)
  with assms(1,5) show ?thesis by (auto simp: applySessionPut_def Let_def disabled_in_iff)
next
  case (CmdTokenPut b)
  with assms(1,5) show ?thesis by (auto simp: applyTokenPut_def disabled_in_iff)
next
  case (CmdTokenRevoke b)
  with assms(1,5) show ?thesis by (auto simp: applyTokenRevoke_def disabled_in_iff)
next
  case (CmdSessionDel b)
  with assms(1,5) show ?thesis by (auto simp: applySessionDel_def disabled_in_iff)
qed (use assms(2) in \<open>simp add: reenables_def\<close>)

text \<open>Consecutive failed logins of one user.\<close>

definition fail_logins :: "string \<Rightarrow> gtime list \<Rightarrow> State \<Rightarrow> goerror + State" where
  "fail_logins name ts s =
     fold (\<lambda>t r. case r of Inl err \<Rightarrow> Inl err | Inr s \<Rightarrow> applyLoginFail \<lparr>lfl_Username = name\<rparr> t s) ts (Inr s)"

lemma fail_logins_snoc:
  "fail_logins name (ts @ [t]) s =
     (case fail_logins name ts s of Inl err \<Rightarrow> Inl err | Inr s \<Rightarrow> applyLoginFail \<lparr>lfl_Username = name\<rparr> t s)"
  by (simp add: fail_logins_def)

lemma fail_logins_user:
  assumes "mget (Users s) name = Some u" and "u_Status u \<noteq> UserDisabled"
  shows "\<exists>s' u'. fail_logins name ts s = Inr s' \<and> mget (Users s') name = Some u'
    \<and> u_FailCount u' = u_FailCount u + int (length ts)
    \<and> (if ts \<noteq> [] \<and> LockAfter \<le> u_FailCount u + int (length ts)
       then u_Status u' = UserLocked \<and> u_LockedUntilUnix u' = Unix (last ts + LockFor)
       else u_Status u' = u_Status u \<and> u_LockedUntilUnix u' = u_LockedUntilUnix u)"
proof (induction ts rule: rev_induct)
  case Nil
  with assms show ?case by (simp add: fail_logins_def)
next
  case (snoc t ts)
  then obtain s1 u1 where IH: "fail_logins name ts s = Inr s1" "mget (Users s1) name = Some u1"
    "u_FailCount u1 = u_FailCount u + int (length ts)"
    "if ts \<noteq> [] \<and> LockAfter \<le> u_FailCount u + int (length ts)
       then u_Status u1 = UserLocked \<and> u_LockedUntilUnix u1 = Unix (last ts + LockFor)
       else u_Status u1 = u_Status u \<and> u_LockedUntilUnix u1 = u_LockedUntilUnix u"
    by blast
  from IH(4) assms(2) have "u_Status u1 \<noteq> UserDisabled" by (auto split: if_splits)
  with IH show ?case
    by (auto simp: fail_logins_snoc applyLoginFail_def Let_def)
qed

lemma enable_clears:
  assumes "applyUserEnable b s = Inr s'" and "wfmap (Sessions s)" and "\<not> active_in s (ueb_UserID b)"
  shows "mall (\<lambda>_ ses. se_UserID ses \<noteq> ueb_UserID b) (Sessions s')"
    and "mall (\<lambda>_ tok. at_UserID tok = ueb_UserID b \<longrightarrow> at_Revoked tok) (APITokens s')"
    and "\<And>k. mget (Sessions s) k \<noteq> None \<Longrightarrow> se_UserID (the (mget (Sessions s) k)) \<noteq> ueb_UserID b
        \<Longrightarrow> mget (Sessions s') k = mget (Sessions s) k"
proof -
  from assms(1,3) have ses: "Sessions s' = mfilter (\<lambda>_ ses. se_UserID ses \<noteq> ueb_UserID b) (Sessions s)"
    and ats: "APITokens s' = mmap (\<lambda>_ tok. if at_UserID tok = ueb_UserID b
        then tok\<lparr>at_Revoked := True\<rparr> else tok) (APITokens s)"
    by (auto simp: applyUserEnable_def Let_def put_user_def active_in_def)
  show "mall (\<lambda>_ ses. se_UserID ses \<noteq> ueb_UserID b) (Sessions s')"
    using assms(2) by (auto simp: ses mall_def mget_mfilter split: option.splits if_splits)
  show "mall (\<lambda>_ tok. at_UserID tok = ueb_UserID b \<longrightarrow> at_Revoked tok) (APITokens s')"
    unfolding ats mall_mmap by (simp add: mall_def)
  show "mget (Sessions s') k = mget (Sessions s) k"
    if "mget (Sessions s) k \<noteq> None" and "se_UserID (the (mget (Sessions s) k)) \<noteq> ueb_UserID b" for k
    using assms(2) that by (auto simp: ses mget_mfilter)
qed

section \<open>Properties\<close>

text \<open>A state with one user, on which the properties of this theory are instantiated.\<close>

definition alice :: User where
  "alice = \<lparr>u_ID = ''u1'', u_Username = ''alice'', u_PasswordHash = ''h'', u_DisplayName = [],
     u_Email = [], u_Status = UserActive, u_CreatedUnix = 0, u_LastLoginUnix = 0,
     u_LockedUntilUnix = 0, u_PasswordChangedUnix = 0, u_FailCount = 0\<rparr>"

definition alice_state :: State where
  "alice_state = NewState\<lparr>Users := [(''alice'', alice)], UsersByID := [(''u1'', ''alice'')],
     Sessions := [(''s1'', \<lparr>se_ID = ''s1'', se_UserID = ''u1'', se_CSRF = [], se_ExpiresUnix = 5\<rparr>)],
     APITokens := [(''t1'', \<lparr>at_ID = ''t1'', at_UserID = ''u1'', at_Name = [], at_Hash = ''x'',
        at_ExpiresUnix = 0, at_Revoked = False\<rparr>)]\<rparr>"

text \<open>
  Login lockout. Consecutive failed logins of an active user with a clean counter lock the
  account exactly from the tenth failure on, until 15 minutes after the last failure, and a
  correct password before that second does not unlock it.
\<close>

theorem lockout_after_ten_failures:
  assumes "mget (Users s) name = Some u" and "u_Status u = UserActive" and "u_FailCount u = 0"
  shows "\<exists>s' u'. fail_logins name ts s = Inr s' \<and> mget (Users s') name = Some u'
    \<and> u_FailCount u' = int (length ts)
    \<and> (u_Status u' = UserLocked \<longleftrightarrow> 10 \<le> length ts)
    \<and> (\<forall>now. 10 \<le> length ts \<longrightarrow> Unix now < Unix (last ts) + 900 \<longrightarrow>
        (\<exists>s2 u2. applyLoginOK \<lparr>lok_Username = name\<rparr> now s' = Inr s2
          \<and> mget (Users s2) name = Some u2 \<and> u_Status u2 = UserLocked))"
proof -
  from assms(2) have "u_Status u \<noteq> UserDisabled" by simp
  from fail_logins_user [OF assms(1) this, of ts] obtain s' u' where s': "fail_logins name ts s = Inr s'"
    and u': "mget (Users s') name = Some u'" and n: "u_FailCount u' = int (length ts)"
    and st: "if ts \<noteq> [] \<and> LockAfter \<le> int (length ts)
       then u_Status u' = UserLocked \<and> u_LockedUntilUnix u' = Unix (last ts + LockFor)
       else u_Status u' = u_Status u \<and> u_LockedUntilUnix u' = u_LockedUntilUnix u"
    using assms(3) by auto
  have until: "Unix (t + LockFor) = Unix t + 900" for t
    using Unix_add_seconds [of t 900] by (simp add: LockFor_def)
  have ten: "ts \<noteq> [] \<and> LockAfter \<le> int (length ts) \<longleftrightarrow> 10 \<le> length ts"
    by (auto simp: LockAfter_def)
  from st assms(2) have locked: "u_Status u' = UserLocked \<longleftrightarrow> 10 \<le> length ts"
    unfolding ten by (auto split: if_splits)
  have "applyLoginOK \<lparr>lok_Username = name\<rparr> now s' =
      Inr (s'\<lparr>Users := mput name (u'\<lparr>u_FailCount := 0, u_LastLoginUnix := Unix now\<rparr>) (Users s')\<rparr>)"
    if "10 \<le> length ts" and "Unix now < Unix (last ts) + 900" for now
    using st u' that unfolding ten by (simp add: applyLoginOK_def before_time_Unix until)
  with s' u' n locked show ?thesis by auto
qed

theorem lockout_witness:
  "\<exists>s' u'. fail_logins ''alice'' (replicate 12 0) alice_state = Inr s' \<and> mget (Users s') ''alice'' = Some u'
    \<and> u_Status u' = UserLocked"
  using lockout_after_ten_failures [of alice_state "''alice''" alice "replicate 12 0"]
  by (simp add: alice_state_def alice_def) blast



end
