(* ===== verification/Control_Admission.thy ===== *)
theory Control_Admission imports Control_Rbac
begin

text \<open>
  Node admission: join tokens, the two-step join (\<^verbatim>\<open>applyJoinPrepare\<close>, \<^verbatim>\<open>applyJoinComplete\<close>), members,
  the revocation list (\<^verbatim>\<open>fsm.go\<close>, lines 769 to 1001) and the admission capability handlers of
  \<^verbatim>\<open>capability.go\<close>.
\<close>

record JoinTokenPutBody =
  jtp_ID :: string
  jtp_Hash :: string
  jtp_TTLSeconds :: int
  jtp_Remaining :: int

record JoinTokenConsumeBody =
  jtc_Plain :: string
  jtc_Hash :: string

record JoinTokenRevokeBody =
  jtr_ID :: string

record JoinPrepareBody =
  jpb_OperationID :: string
  jpb_TokenHash :: string
  jpb_NodeID :: string
  jpb_RaftAddr :: string
  jpb_CSRHash :: string
  jpb_CertPEM :: string
  jpb_CertSerial :: string

record JoinCompleteBody =
  jcb_OperationID :: string
  jcb_NodeID :: string

record MemberPutBody =
  mpb_NodeID :: string
  mpb_RaftAddr :: string
  mpb_CertSerial :: string
  mpb_Status :: MemberStatus

record MemberRemoveBody =
  mrb_NodeID :: string

record CapabilityInitBody =
  cib_CAFingerprint :: string
  cib_Epoch :: u64
  cib_NodeID :: string
  cib_CertSerial :: string

record CapabilityPrepareBody =
  cpb_OperationID :: string
  cpb_NodeID :: string
  cpb_CertSerial :: string
  cpb_CAFingerprint :: string
  cpb_Epoch :: u64
  cpb_LeaderTerm :: u64
  cpb_Nonce :: string
  cpb_ExpiresUnix :: int

type_synonym CapabilityReadyBody = CapabilityPrepareBody

record CRLAddBody =
  crl_Serial :: string

section \<open>Join tokens\<close>

definition hashToken :: "env \<Rightarrow> string \<Rightarrow> string" where
  "hashToken e plaintext = sha256_hex e plaintext"

definition joinTokenByHash :: "State \<Rightarrow> string \<Rightarrow> (string \<times> JoinToken) option" where
  "joinTokenByHash s h = find (\<lambda>(i, tok). jt_Hash tok = h) (JoinTokens s)"

definition joinTokenByPlain :: "env \<Rightarrow> State \<Rightarrow> string \<Rightarrow> (string \<times> JoinToken) option" where
  "joinTokenByPlain e s plain = joinTokenByHash s (hashToken e plain)"

definition JoinTokenByPlain :: "env \<Rightarrow> State \<Rightarrow> string \<Rightarrow> JoinToken option" where
  "JoinTokenByPlain e s plain =
     (let want = hashToken e plain in find (\<lambda>tok. jt_Hash tok = want) (mvals (JoinTokens s)))"

definition applyJoinTokenPut :: "env \<Rightarrow> JoinTokenPutBody \<Rightarrow> gtime \<Rightarrow> State \<Rightarrow> goerror + State" where
  "applyJoinTokenPut e b now s =
    (if jtp_Hash b = [] then fail INVALID ''join token hash required''
     else case (if jtp_ID b = [] then new_uuid e else Inr (jtp_ID b)) of
         Inl err \<Rightarrow> Inl err
       | Inr i \<Rightarrow>
           let d = wrap64 (jtp_TTLSeconds b * nanos);
               ttl = (if d \<le> 0 then DefaultTokenTTL else d)
           in Inr (s\<lparr>JoinTokens := mput i
                \<lparr>jt_ID = i, jt_Hash = jtp_Hash b, jt_ExpiresUnix = Unix (now + ttl),
                 jt_Remaining = jtp_Remaining b, jt_Revoked = False\<rparr> (JoinTokens s)\<rparr>))"

definition applyJoinTokenConsume :: "env \<Rightarrow> JoinTokenConsumeBody \<Rightarrow> gtime \<Rightarrow> State \<Rightarrow> goerror + State" where
  "applyJoinTokenConsume e b now s =
    (let wantHash = (if jtc_Hash b = [] \<and> jtc_Plain b \<noteq> [] then hashToken e (jtc_Plain b) else jtc_Hash b)
     in case joinTokenByHash s wantHash of
         None \<Rightarrow> fail INVALID ''invalid join token''
       | Some (i, rec) \<Rightarrow>
           if jt_Revoked rec then fail DENIED ''join token revoked''
           else if \<not> now < time_Unix (jt_ExpiresUnix rec) then fail DENIED ''join token expired''
           else if jt_Remaining rec \<le> 0 then fail DENIED ''join token exhausted''
           else Inr (s\<lparr>JoinTokens := mput i (rec\<lparr>jt_Remaining := jt_Remaining rec - 1\<rparr>) (JoinTokens s)\<rparr>))"

definition applyJoinTokenRevoke :: "JoinTokenRevokeBody \<Rightarrow> State \<Rightarrow> goerror + State" where
  "applyJoinTokenRevoke b s =
    (case mget (JoinTokens s) (jtr_ID b) of
       None \<Rightarrow> fail NOT_FOUND ''join token not found''
     | Some tok \<Rightarrow> Inr (s\<lparr>JoinTokens := mput (jtr_ID b) (tok\<lparr>jt_Revoked := True\<rparr>) (JoinTokens s)\<rparr>))"

section \<open>Joining\<close>

definition applyJoinPrepare :: "JoinPrepareBody \<Rightarrow> gtime \<Rightarrow> State \<Rightarrow> goerror + State" where
  "applyJoinPrepare b now s =
    (if jpb_OperationID b = [] \<or> jpb_NodeID b = [] \<or> jpb_RaftAddr b = [] \<or> jpb_CSRHash b = []
        \<or> jpb_CertPEM b = [] \<or> jpb_CertSerial b = []
       then fail INVALID ''join preparation fields required''
     else case joinTokenByHash s (jpb_TokenHash b) of
         None \<Rightarrow> fail INVALID ''invalid join token''
       | Some (tokenID, token) \<Rightarrow>
           if mex (\<lambda>nodeID attempt. nodeID \<noteq> jpb_NodeID b \<and> ja_OperationID attempt = jpb_OperationID b)
                (JoinAttempts s)
             then fail CONFLICT ''join operation_id already used for another node''
           else
           (let serial = ToUpper (jpb_CertSerial b); member = mget (Members s) (jpb_NodeID b) in
            if (case member of Some m \<Rightarrow> m_Status m = MemberRemoved \<or> m_Status m = MemberRevoked | None \<Rightarrow> False)
              then fail DENIED ''node removed''
            else case mget (JoinAttempts s) (jpb_NodeID b) of
                Some existing \<Rightarrow>
                  if ja_OperationID existing = jpb_OperationID b \<and> ja_TokenID existing = tokenID
                     \<and> ja_RaftAddr existing = jpb_RaftAddr b \<and> ja_CSRHash existing = jpb_CSRHash b
                  then Inr s
                  else fail CONFLICT ''different join already pending for node''
              | None \<Rightarrow>
                  if member \<noteq> None then fail DUPLICATE_NODE_ID ''node_id already admitted''
                  else if jt_Revoked token then fail DENIED ''join token revoked''
                  else if \<not> now < time_Unix (jt_ExpiresUnix token) then fail DENIED ''join token expired''
                  else if jt_Remaining token \<le> 0 then fail DENIED ''join token exhausted''
                  else Inr (s\<lparr>
                    JoinTokens := mput tokenID (token\<lparr>jt_Remaining := jt_Remaining token - 1\<rparr>) (JoinTokens s),
                    JoinAttempts := mput (jpb_NodeID b)
                      \<lparr>ja_OperationID = jpb_OperationID b, ja_TokenID = tokenID, ja_NodeID = jpb_NodeID b,
                       ja_RaftAddr = jpb_RaftAddr b, ja_CSRHash = jpb_CSRHash b, ja_CertPEM = jpb_CertPEM b,
                       ja_CertSerial = serial, ja_Status = JoinPreparing,
                       ja_CreatedUnix = Unix now, ja_UpdatedUnix = Unix now\<rparr> (JoinAttempts s),
                    Members := mput (jpb_NodeID b)
                      \<lparr>m_NodeID = jpb_NodeID b, m_RaftAddr = jpb_RaftAddr b, m_CertSerial = serial,
                       m_Status = MemberJoining\<rparr> (Members s)\<rparr>)))"

definition applyJoinComplete :: "JoinCompleteBody \<Rightarrow> gtime \<Rightarrow> State \<Rightarrow> goerror + State" where
  "applyJoinComplete b now s =
    (if jcb_OperationID b = [] \<or> jcb_NodeID b = [] then fail INVALID ''join completion fields required''
     else case mget (JoinAttempts s) (jcb_NodeID b) of
         None \<Rightarrow> fail NOT_FOUND ''join attempt not found''
       | Some attempt \<Rightarrow>
           if ja_OperationID attempt \<noteq> jcb_OperationID b then fail CONFLICT ''join operation does not match''
           else (case mget (Members s) (jcb_NodeID b) of
               None \<Rightarrow> fail NOT_FOUND ''joining member not found''
             | Some member \<Rightarrow>
                 if m_Status member = MemberRemoved \<or> m_Status member = MemberRevoked
                   then fail DENIED ''node removed''
                 else if m_RaftAddr member \<noteq> ja_RaftAddr attempt
                      \<or> \<not> EqualFold (m_CertSerial member) (ja_CertSerial attempt)
                   then fail CONFLICT ''joining member changed''
                 else if ja_Status attempt = JoinCompleted \<and> m_Status member = MemberAdmitted then Inr s
                 else if ja_Status attempt \<noteq> JoinPreparing \<or> m_Status member \<noteq> MemberJoining
                   then fail CONFLICT ''join attempt is not preparing''
                 else Inr (s\<lparr>
                   Members := mput (jcb_NodeID b) (member\<lparr>m_Status := MemberAdmitted\<rparr>) (Members s),
                   JoinAttempts := mput (jcb_NodeID b)
                     (attempt\<lparr>ja_Status := JoinCompleted, ja_UpdatedUnix := Unix now\<rparr>) (JoinAttempts s)\<rparr>)))"

section \<open>Members and the revocation list\<close>

definition SerialRevoked :: "State \<Rightarrow> string \<Rightarrow> bool" where
  "SerialRevoked s serial = mhas (CRL s) (ToUpper serial)"

definition MemberOf :: "State \<Rightarrow> string \<Rightarrow> Member option" where
  "MemberOf s nodeID = mget (Members s) nodeID"

definition applyMemberPut :: "MemberPutBody \<Rightarrow> State \<Rightarrow> goerror + State" where
  "applyMemberPut b s =
    (if mpb_NodeID b = [] then fail INVALID ''node id required''
     else let status = (if mpb_Status b = MemberUnset then MemberAdmitted else mpb_Status b)
       in Inr (s\<lparr>Members := mput (mpb_NodeID b)
            \<lparr>m_NodeID = mpb_NodeID b, m_RaftAddr = mpb_RaftAddr b,
             m_CertSerial = ToUpper (mpb_CertSerial b), m_Status = status\<rparr> (Members s)\<rparr>))"

text \<open>The loop over the groups drops the node from each group that lists it.\<close>

definition drop_from_group :: "string \<Rightarrow> AgentGroup \<Rightarrow> AgentGroup" where
  "drop_from_group nodeID g =
     (if nodeID \<in> set (g_MemberIDs g)
      then g\<lparr>g_MemberIDs := filter (\<lambda>n. n \<noteq> nodeID) (g_MemberIDs g)\<rparr> else g)"

definition applyMemberRemove :: "MemberRemoveBody \<Rightarrow> State \<Rightarrow> goerror + State" where
  "applyMemberRemove b s =
    (case mget (Members s) (mrb_NodeID b) of
       None \<Rightarrow> fail NOT_FOUND ''member not found''
     | Some m \<Rightarrow>
         let cap = AdmissionCapability s;
             nodes = (case mget (cs_Nodes cap) (mrb_NodeID b) of
                 Some node \<Rightarrow> if cn_Status node = CapabilityPrepared then mdel (mrb_NodeID b) (cs_Nodes cap)
                              else cs_Nodes cap
               | None \<Rightarrow> cs_Nodes cap)
         in Inr (s\<lparr>
           Members := mput (mrb_NodeID b) (m\<lparr>m_Status := MemberRevoked\<rparr>) (Members s),
           CRL := (if m_CertSerial m \<noteq> [] then mput (ToUpper (m_CertSerial m)) () (CRL s) else CRL s),
           AdmissionCapability := cap\<lparr>cs_Nodes := nodes\<rparr>,
           AgentGroups := mmap (\<lambda>_. drop_from_group (mrb_NodeID b)) (AgentGroups s)\<rparr>))"

definition applyCRLAdd :: "CRLAddBody \<Rightarrow> State \<Rightarrow> goerror + State" where
  "applyCRLAdd b s =
    (if crl_Serial b = [] then fail INVALID ''serial required''
     else Inr (s\<lparr>CRL := mput (ToUpper (crl_Serial b)) () (CRL s)\<rparr>))"

section \<open>The admission capability (capability.go)\<close>

definition validCAFingerprint :: "string \<Rightarrow> bool" where
  "validCAFingerprint v \<longleftrightarrow> length v = 64 \<and> list_all is_hex v"

definition requireAdmittedCapabilityNode :: "State \<Rightarrow> string \<Rightarrow> string \<Rightarrow> goerror option" where
  "requireAdmittedCapabilityNode s nodeID certSerial =
    (case mget (Members s) nodeID of
       None \<Rightarrow> Some (E INVALID ''capability node not admitted'')
     | Some member \<Rightarrow>
         if m_Status member \<noteq> MemberAdmitted then Some (E INVALID ''capability node not admitted'')
         else if ToUpper (m_CertSerial member) \<noteq> ToUpper certSerial
           then Some (E CONFLICT ''capability certificate changed'')
         else if SerialRevoked s certSerial then Some (E DENIED ''certificate revoked'')
         else None)"

definition capabilityNodeMatches :: "AdmissionCapabilityNode \<Rightarrow> CapabilityPrepareBody \<Rightarrow> bool" where
  "capabilityNodeMatches node body \<longleftrightarrow>
     cn_OperationID node = cpb_OperationID body \<and> cn_CertSerial node = cpb_CertSerial body
     \<and> cn_LeaderTerm node = cpb_LeaderTerm body \<and> cn_Epoch node = cpb_Epoch body
     \<and> cn_Nonce node = cpb_Nonce body \<and> cn_ExpiresUnix node = cpb_ExpiresUnix body"

definition applyCapabilityInit :: "CapabilityInitBody \<Rightarrow> gtime \<Rightarrow> State \<Rightarrow> goerror + State" where
  "applyCapabilityInit b now s =
    (let fingerprint = ToLower (cib_CAFingerprint b); serial = ToUpper (cib_CertSerial b) in
     if \<not> validCAFingerprint fingerprint \<or> cib_Epoch b = 0 \<or> cib_NodeID b = [] \<or> serial = []
       then fail INVALID ''capability init fields required''
     else check (requireAdmittedCapabilityNode s (cib_NodeID b) serial)
      (let capability = AdmissionCapability s in
       if cs_CAFingerprint capability \<noteq> [] then
         (if cs_CAFingerprint capability \<noteq> fingerprint \<or> cs_Epoch capability \<noteq> cib_Epoch b
            then fail CONFLICT ''capability already initialized''
          else case mget (cs_Nodes capability) (cib_NodeID b) of
              Some existing \<Rightarrow>
                if cn_Status existing = CapabilityReady \<and> cn_CertSerial existing = serial
                   \<and> cn_Epoch existing = cib_Epoch b
                then Inr s
                else fail CONFLICT ''capability node state conflict''
            | None \<Rightarrow> fail CONFLICT ''capability already initialized'')
       else Inr (s\<lparr>AdmissionCapability := capability\<lparr>
              cs_CAFingerprint := fingerprint, cs_Epoch := cib_Epoch b,
              cs_Nodes := mput (cib_NodeID b)
                \<lparr>cn_Status = CapabilityReady, cn_OperationID = [], cn_CertSerial = serial,
                 cn_LeaderTerm = 0, cn_Epoch = cib_Epoch b, cn_Nonce = [], cn_ExpiresUnix = 0,
                 cn_UpdatedUnix = Unix now\<rparr> (cs_Nodes capability)\<rparr>\<rparr>)))"

text \<open>\<^verbatim>\<open>body.CAFingerprint = strings.ToLower(...); body.CertSerial = strings.ToUpper(...)\<close>\<close>

definition norm_prepare :: "CapabilityPrepareBody \<Rightarrow> CapabilityPrepareBody" where
  "norm_prepare b = b\<lparr>cpb_CAFingerprint := ToLower (cpb_CAFingerprint b),
                      cpb_CertSerial := ToUpper (cpb_CertSerial b)\<rparr>"

definition applyCapabilityPrepare :: "CapabilityPrepareBody \<Rightarrow> gtime \<Rightarrow> State \<Rightarrow> goerror + State" where
  "applyCapabilityPrepare b0 now s =
    (let b = norm_prepare b0; capability = AdmissionCapability s in
     if cpb_OperationID b = [] \<or> cpb_NodeID b = [] \<or> cpb_CertSerial b = [] \<or> cpb_LeaderTerm b = 0
        \<or> cpb_Nonce b = [] \<or> cpb_ExpiresUnix b = 0
       then fail INVALID ''capability prepare fields required''
     else if cpb_ExpiresUnix b \<le> Unix now then fail INVALID ''capability prepare expired''
     else if cs_CAFingerprint capability = [] \<or> cs_Epoch capability = 0
       then fail CONFLICT ''capability not initialized''
     else if cpb_CAFingerprint b \<noteq> cs_CAFingerprint capability \<or> cpb_Epoch b \<noteq> cs_Epoch capability
       then fail CONFLICT ''capability epoch or fingerprint changed''
     else check (requireAdmittedCapabilityNode s (cpb_NodeID b) (cpb_CertSerial b))
      (if mex (\<lambda>nodeID existing. cn_OperationID existing = cpb_OperationID b \<and> nodeID \<noteq> cpb_NodeID b)
            (cs_Nodes capability)
         then fail CONFLICT ''capability operation already used''
       else
         (let same_op = (case mget (cs_Nodes capability) (cpb_NodeID b) of
               Some existing \<Rightarrow> if cn_OperationID existing = cpb_OperationID b then Some existing else None
             | None \<Rightarrow> None)
          in
          if (case same_op of Some existing \<Rightarrow> capabilityNodeMatches existing b | None \<Rightarrow> False) then Inr s
          else if (case same_op of
                Some existing \<Rightarrow> cn_Status existing \<noteq> CapabilityReady
                  \<or> cn_CertSerial existing \<noteq> cpb_CertSerial b \<or> cn_Epoch existing \<noteq> cpb_Epoch b
              | None \<Rightarrow> False)
            then fail CONFLICT ''capability operation parameters changed''
          else Inr (s\<lparr>AdmissionCapability := capability\<lparr>
              cs_Nodes := mput (cpb_NodeID b)
                \<lparr>cn_Status = CapabilityPrepared, cn_OperationID = cpb_OperationID b,
                 cn_CertSerial = cpb_CertSerial b, cn_LeaderTerm = cpb_LeaderTerm b,
                 cn_Epoch = cpb_Epoch b, cn_Nonce = cpb_Nonce b,
                 cn_ExpiresUnix = cpb_ExpiresUnix b, cn_UpdatedUnix = Unix now\<rparr>
                (cs_Nodes capability)\<rparr>\<rparr>))))"

definition applyCapabilityReady :: "CapabilityReadyBody \<Rightarrow> gtime \<Rightarrow> State \<Rightarrow> goerror + State" where
  "applyCapabilityReady b now s =
    (let prepare = norm_prepare b; capability = AdmissionCapability s in
     if cpb_OperationID prepare = [] \<or> cpb_NodeID prepare = []
       then fail INVALID ''capability ready fields required''
     else if cpb_CAFingerprint prepare \<noteq> cs_CAFingerprint capability \<or> cpb_Epoch prepare \<noteq> cs_Epoch capability
       then fail CONFLICT ''capability epoch or fingerprint changed''
     else check (requireAdmittedCapabilityNode s (cpb_NodeID prepare) (cpb_CertSerial prepare))
      (case mget (cs_Nodes capability) (cpb_NodeID prepare) of
         None \<Rightarrow> fail CONFLICT ''capability prepare changed''
       | Some existing \<Rightarrow>
           if \<not> capabilityNodeMatches existing prepare then fail CONFLICT ''capability prepare changed''
           else if cn_Status existing = CapabilityReady then Inr s
           else if cn_Status existing \<noteq> CapabilityPrepared then fail CONFLICT ''capability node not prepared''
           else if cpb_ExpiresUnix prepare \<le> Unix now then fail INVALID ''capability prepare expired''
           else Inr (s\<lparr>AdmissionCapability := capability\<lparr>
               cs_Nodes := mput (cpb_NodeID prepare)
                 (existing\<lparr>cn_Status := CapabilityReady, cn_UpdatedUnix := Unix now\<rparr>)
                 (cs_Nodes capability)\<rparr>\<rparr>)))"

datatype AdmissionCommand =
    CmdJoinTokenPut JoinTokenPutBody
  | CmdJoinTokenConsume JoinTokenConsumeBody
  | CmdJoinTokenRevoke JoinTokenRevokeBody
  | CmdJoinPrepare JoinPrepareBody
  | CmdJoinComplete JoinCompleteBody
  | CmdMemberPut MemberPutBody
  | CmdMemberRemove MemberRemoveBody
  | CmdCapabilityInit CapabilityInitBody
  | CmdCapabilityPrepare CapabilityPrepareBody
  | CmdCapabilityReady CapabilityReadyBody
  | CmdCRLAdd CRLAddBody

primrec apply_admission :: "env \<Rightarrow> gtime \<Rightarrow> AdmissionCommand \<Rightarrow> State \<Rightarrow> goerror + State" where
  "apply_admission e now (CmdJoinTokenPut b) = applyJoinTokenPut e b now"
| "apply_admission e now (CmdJoinTokenConsume b) = applyJoinTokenConsume e b now"
| "apply_admission e now (CmdJoinTokenRevoke b) = applyJoinTokenRevoke b"
| "apply_admission e now (CmdJoinPrepare b) = applyJoinPrepare b now"
| "apply_admission e now (CmdJoinComplete b) = applyJoinComplete b now"
| "apply_admission e now (CmdMemberPut b) = applyMemberPut b"
| "apply_admission e now (CmdMemberRemove b) = applyMemberRemove b"
| "apply_admission e now (CmdCapabilityInit b) = applyCapabilityInit b now"
| "apply_admission e now (CmdCapabilityPrepare b) = applyCapabilityPrepare b now"
| "apply_admission e now (CmdCapabilityReady b) = applyCapabilityReady b now"
| "apply_admission e now (CmdCRLAdd b) = applyCRLAdd b"

lemmas admission_defs [handler_defs] =
  applyJoinTokenPut_def applyJoinTokenConsume_def applyJoinTokenRevoke_def applyJoinPrepare_def
  applyJoinComplete_def applyMemberPut_def applyMemberRemove_def applyCapabilityInit_def
  applyCapabilityPrepare_def applyCapabilityReady_def applyCRLAdd_def

section \<open>What the commands change\<close>

lemma admission_footprint [footprint]:
  assumes "apply_admission e now c s = Inr s'"
  shows "\<exists>jt ja ms cap crl gs. s' = s\<lparr>JoinTokens := jt, JoinAttempts := ja, Members := ms,
     AdmissionCapability := cap, CRL := crl, AgentGroups := gs\<rparr>"
proof -
  have "s' = s\<lparr>JoinTokens := JoinTokens s', JoinAttempts := JoinAttempts s', Members := Members s',
     AdmissionCapability := AdmissionCapability s', CRL := CRL s', AgentGroups := AgentGroups s'\<rparr>"
    using assms by (cases c) (auto simp: admission_defs Let_def)
  then show ?thesis by blast
qed

section \<open>Join preparation\<close>

text \<open>What a join preparation requires and does.\<close>

definition prepared_attempt :: "JoinPrepareBody \<Rightarrow> string \<Rightarrow> gtime \<Rightarrow> JoinAttempt" where
  "prepared_attempt b tokenID now =
     \<lparr>ja_OperationID = jpb_OperationID b, ja_TokenID = tokenID, ja_NodeID = jpb_NodeID b,
      ja_RaftAddr = jpb_RaftAddr b, ja_CSRHash = jpb_CSRHash b, ja_CertPEM = jpb_CertPEM b,
      ja_CertSerial = ToUpper (jpb_CertSerial b), ja_Status = JoinPreparing,
      ja_CreatedUnix = Unix now, ja_UpdatedUnix = Unix now\<rparr>"

lemma join_prepare_new:
  assumes "applyJoinPrepare b now s = Inr s'" and "mget (JoinAttempts s) (jpb_NodeID b) = None"
  obtains i token where "joinTokenByHash s (jpb_TokenHash b) = Some (i, token)"
    and "0 < jt_Remaining token" and "\<not> jt_Revoked token" and "Unix now < jt_ExpiresUnix token"
    and "mget (Members s) (jpb_NodeID b) = None"
    and "JoinTokens s' = mput i (token\<lparr>jt_Remaining := jt_Remaining token - 1\<rparr>) (JoinTokens s)"
    and "JoinAttempts s' = mput (jpb_NodeID b) (prepared_attempt b i now) (JoinAttempts s)"
    and "Members s' = mput (jpb_NodeID b) \<lparr>m_NodeID = jpb_NodeID b, m_RaftAddr = jpb_RaftAddr b,
           m_CertSerial = ToUpper (jpb_CertSerial b), m_Status = MemberJoining\<rparr> (Members s)"
  using assms by (auto simp: applyJoinPrepare_def Let_def prepared_attempt_def before_time_Unix)

lemma join_prepare_retry:
  assumes "applyJoinPrepare b now s = Inr s'" and "wfmap (JoinTokens s)" and "wfmap (JoinAttempts s)"
  shows "applyJoinPrepare b later s' = Inr s'"
proof (cases "mget (JoinAttempts s) (jpb_NodeID b)")
  case (Some a)
  with assms(1) have "s' = s" by (auto simp: applyJoinPrepare_def Let_def)
  with assms(1) Some show ?thesis by (auto simp: applyJoinPrepare_def Let_def)
next
  case None
  from join_prepare_new [OF assms(1) None] obtain i token where
      f: "joinTokenByHash s (jpb_TokenHash b) = Some (i, token)"
    and t: "JoinTokens s' = mput i (token\<lparr>jt_Remaining := jt_Remaining token - 1\<rparr>) (JoinTokens s)"
    and a: "JoinAttempts s' = mput (jpb_NodeID b) (prepared_attempt b i now) (JoinAttempts s)"
    and m: "Members s' = mput (jpb_NodeID b) \<lparr>m_NodeID = jpb_NodeID b, m_RaftAddr = jpb_RaftAddr b,
           m_CertSerial = ToUpper (jpb_CertSerial b), m_Status = MemberJoining\<rparr> (Members s)" .
  have "jt_Hash token = jpb_TokenHash b"
    using f by (auto simp: joinTokenByHash_def find_Some_iff)
  with find_mput [OF assms(2), of _ i token "token\<lparr>jt_Remaining := jt_Remaining token - 1\<rparr>"] f
  have f': "joinTokenByHash s' (jpb_TokenHash b) = Some (i, token\<lparr>jt_Remaining := jt_Remaining token - 1\<rparr>)"
    by (simp add: joinTokenByHash_def t)
  have "mex (\<lambda>nodeID attempt. nodeID \<noteq> jpb_NodeID b \<and> ja_OperationID attempt = jpb_OperationID b) (JoinAttempts s')
     = mex (\<lambda>nodeID attempt. nodeID \<noteq> jpb_NodeID b \<and> ja_OperationID attempt = jpb_OperationID b) (JoinAttempts s)"
    using assms(3) by (auto simp: a mex_iff)
  with assms(1) f' show ?thesis
    by (auto simp: applyJoinPrepare_def Let_def a m prepared_attempt_def)
qed

section \<open>The invariant of the component\<close>

text \<open>No operation identifier is used for two nodes.\<close>

definition ops_unique :: "(string, AdmissionCapabilityNode) gomap \<Rightarrow> bool" where
  "ops_unique m \<longleftrightarrow> (\<forall>a b x y. mget m a = Some x \<longrightarrow> mget m b = Some y \<longrightarrow>
     cn_OperationID x = cn_OperationID y \<longrightarrow> cn_OperationID x \<noteq> [] \<longrightarrow> a = b)"

lemma ops_unique_put:
  assumes "ops_unique m"
    and "\<And>k y. mget m k = Some y \<Longrightarrow> cn_OperationID y = cn_OperationID x \<Longrightarrow> cn_OperationID x \<noteq> [] \<Longrightarrow> k = n"
  shows "ops_unique (mput n x m)"
  unfolding ops_unique_def
proof (intro allI impI)
  fix a b y z
  assume h: "mget (mput n x m) a = Some y" "mget (mput n x m) b = Some z"
    "cn_OperationID y = cn_OperationID z" "cn_OperationID y \<noteq> []"
  show "a = b"
  proof (cases "a = n"; cases "b = n")
    assume "a \<noteq> n" "b \<noteq> n"
    with h assms(1) show ?thesis by (simp add: ops_unique_def)
  qed (use h assms(2) in \<open>force+\<close>)
qed

lemma ops_unique_del: "ops_unique m \<Longrightarrow> ops_unique (mdel n m)"
  unfolding ops_unique_def by (simp only: gomap_simps fun_upd_apply) (metis option.distinct(1))

definition node_ok :: "AdmissionCapabilityState \<Rightarrow> AdmissionCapabilityNode \<Rightarrow> bool" where
  "node_ok c x \<longleftrightarrow> cn_Epoch x = cs_Epoch c \<and> ToUpper (cn_CertSerial x) = cn_CertSerial x"

definition cap_ok :: "AdmissionCapabilityState \<Rightarrow> bool" where
  "cap_ok c \<longleftrightarrow> wfmap (cs_Nodes c)
     \<and> (if cs_CAFingerprint c = [] then cs_Nodes c = [] else validCAFingerprint (cs_CAFingerprint c) \<and> cs_Epoch c \<noteq> 0)
     \<and> mall (\<lambda>_. node_ok c) (cs_Nodes c) \<and> ops_unique (cs_Nodes c)"

definition attempt_ok :: "(string, Member) gomap \<Rightarrow> string \<Rightarrow> JoinAttempt \<Rightarrow> bool" where
  "attempt_ok ms n a \<longleftrightarrow> ja_NodeID a = n \<and> ja_OperationID a \<noteq> [] \<and> mhas ms n"

definition joins_ok :: "State \<Rightarrow> bool" where
  "joins_ok s \<longleftrightarrow> wfmap (JoinTokens s) \<and> wfmap (JoinAttempts s) \<and> wfmap (Members s)
     \<and> unique_by ja_OperationID (JoinAttempts s)
     \<and> mall (attempt_ok (Members s)) (JoinAttempts s) \<and> mall (\<lambda>n m. m_NodeID m = n) (Members s)"

definition admission_ok :: "State \<Rightarrow> bool" where
  "admission_ok s \<longleftrightarrow> joins_ok s \<and> cap_ok (AdmissionCapability s)"

lemma node_ok_nodes [simp]: "node_ok (c\<lparr>cs_Nodes := ns\<rparr>) = node_ok c"
  by (simp add: node_ok_def fun_eq_iff)

lemma cap_ok_nodes:
  assumes "cap_ok c" and "wfmap ns" and "cs_CAFingerprint c = [] \<Longrightarrow> ns = []"
    and "mall (\<lambda>_. node_ok c) ns" and "ops_unique ns"
  shows "cap_ok (c\<lparr>cs_Nodes := ns\<rparr>)"
  using assms by (simp add: cap_ok_def)

lemma cap_ok_del:
  assumes "cap_ok c" shows "cap_ok (c\<lparr>cs_Nodes := mdel n (cs_Nodes c)\<rparr>)"
  using assms by (intro cap_ok_nodes mall_mdel ops_unique_del wfmap_mdel) (simp_all add: cap_ok_def)

lemma cap_ok_put:
  assumes "cap_ok c" and "cs_CAFingerprint c \<noteq> []" and "node_ok c x"
    and "\<And>m y. mget (cs_Nodes c) m = Some y \<Longrightarrow> cn_OperationID y = cn_OperationID x \<Longrightarrow> cn_OperationID x \<noteq> [] \<Longrightarrow> m = n"
  shows "cap_ok (c\<lparr>cs_Nodes := mput n x (cs_Nodes c)\<rparr>)"
proof (rule cap_ok_nodes [OF assms(1)])
  show "mall (\<lambda>_. node_ok c) (mput n x (cs_Nodes c))"
    using assms(1,3) by (intro mall_mput) (simp_all add: cap_ok_def)
  show "ops_unique (mput n x (cs_Nodes c))"
    by (rule ops_unique_put [OF _ assms(4)]) (use assms(1) in \<open>simp add: cap_ok_def\<close>)
qed (use assms in \<open>simp_all add: cap_ok_def\<close>)

lemma requireAdmitted_None:
  "requireAdmittedCapabilityNode s n serial = None \<longleftrightarrow>
     (\<exists>m. mget (Members s) n = Some m \<and> m_Status m = MemberAdmitted
        \<and> ToUpper (m_CertSerial m) = ToUpper serial \<and> \<not> SerialRevoked s serial)"
  by (auto simp: requireAdmittedCapabilityNode_def split: option.splits)

lemma capability_init_ok:
  assumes "applyCapabilityInit b now s = Inr s'" and "cap_ok (AdmissionCapability s)"
  shows "cap_ok (AdmissionCapability s')"
proof -
  define c where "c = AdmissionCapability s"
  define x where "x = \<lparr>cn_Status = CapabilityReady, cn_OperationID = [],
     cn_CertSerial = ToUpper (cib_CertSerial b), cn_LeaderTerm = 0, cn_Epoch = cib_Epoch b, cn_Nonce = [],
     cn_ExpiresUnix = 0, cn_UpdatedUnix = Unix now\<rparr>"
  from assms(1) have "s' = s \<or> (cs_CAFingerprint c = []
      \<and> validCAFingerprint (ToLower (cib_CAFingerprint b)) \<and> cib_Epoch b \<noteq> 0
      \<and> AdmissionCapability s' = c\<lparr>cs_CAFingerprint := ToLower (cib_CAFingerprint b), cs_Epoch := cib_Epoch b,
          cs_Nodes := mput (cib_NodeID b) x (cs_Nodes c)\<rparr>)"
    unfolding c_def x_def by (auto simp: applyCapabilityInit_def Let_def)
  then show ?thesis
  proof (elim disjE conjE)
    assume "cs_CAFingerprint c = []" and v: "validCAFingerprint (ToLower (cib_CAFingerprint b))" "cib_Epoch b \<noteq> 0"
      and s': "AdmissionCapability s' = c\<lparr>cs_CAFingerprint := ToLower (cib_CAFingerprint b),
          cs_Epoch := cib_Epoch b, cs_Nodes := mput (cib_NodeID b) x (cs_Nodes c)\<rparr>"
    with assms(2) have "mput (cib_NodeID b) x (cs_Nodes c) = [(cib_NodeID b, x)]"
      by (simp add: cap_ok_def c_def)
    moreover from v(1) have "ToLower (cib_CAFingerprint b) \<noteq> []" by (auto simp: validCAFingerprint_def)
    ultimately show ?thesis
      using v by (simp add: s' cap_ok_def wfmap_def mall_def node_ok_def ops_unique_def) (simp add: x_def)
  qed (use assms(2) in simp)
qed

lemma capability_prepare_ok:
  assumes "applyCapabilityPrepare b now s = Inr s'" and "cap_ok (AdmissionCapability s)"
  shows "cap_ok (AdmissionCapability s')"
proof -
  define c where "c = AdmissionCapability s"
  define x where "x = \<lparr>cn_Status = CapabilityPrepared, cn_OperationID = cpb_OperationID b,
     cn_CertSerial = ToUpper (cpb_CertSerial b), cn_LeaderTerm = cpb_LeaderTerm b, cn_Epoch = cpb_Epoch b,
     cn_Nonce = cpb_Nonce b, cn_ExpiresUnix = cpb_ExpiresUnix b, cn_UpdatedUnix = Unix now\<rparr>"
  from assms(1) have "s' = s \<or> (AdmissionCapability s' = c\<lparr>cs_Nodes := mput (cpb_NodeID b) x (cs_Nodes c)\<rparr>
      \<and> cs_CAFingerprint c \<noteq> [] \<and> cpb_Epoch b = cs_Epoch c
      \<and> \<not> mex (\<lambda>nodeID existing. cn_OperationID existing = cpb_OperationID b \<and> nodeID \<noteq> cpb_NodeID b) (cs_Nodes c))"
    unfolding c_def x_def by (auto simp: applyCapabilityPrepare_def Let_def norm_prepare_def)
  then show ?thesis
  proof
    assume h: "AdmissionCapability s' = c\<lparr>cs_Nodes := mput (cpb_NodeID b) x (cs_Nodes c)\<rparr>
      \<and> cs_CAFingerprint c \<noteq> [] \<and> cpb_Epoch b = cs_Epoch c
      \<and> \<not> mex (\<lambda>nodeID existing. cn_OperationID existing = cpb_OperationID b \<and> nodeID \<noteq> cpb_NodeID b) (cs_Nodes c)"
    have "cap_ok (c\<lparr>cs_Nodes := mput (cpb_NodeID b) x (cs_Nodes c)\<rparr>)"
    proof (rule cap_ok_put)
      fix m y assume "mget (cs_Nodes c) m = Some y" and "cn_OperationID y = cn_OperationID x"
      with h show "m = cpb_NodeID b" by (auto simp: x_def dest: not_mexD)
    qed (use assms(2) h in \<open>simp_all add: x_def c_def node_ok_def\<close>)
    with h show ?thesis by simp
  qed (use assms(2) in simp)
qed

lemma capability_ready_ok:
  assumes "applyCapabilityReady b now s = Inr s'" and "cap_ok (AdmissionCapability s)"
  shows "cap_ok (AdmissionCapability s')"
proof -
  define c where "c = AdmissionCapability s"
  from assms(1) have "s' = s \<or> (\<exists>x. mget (cs_Nodes c) (cpb_NodeID b) = Some x
      \<and> AdmissionCapability s' = c\<lparr>cs_Nodes := mput (cpb_NodeID b)
          (x\<lparr>cn_Status := CapabilityReady, cn_UpdatedUnix := Unix now\<rparr>) (cs_Nodes c)\<rparr>)"
    unfolding c_def by (auto simp: applyCapabilityReady_def Let_def norm_prepare_def)
  then show ?thesis
  proof (elim disjE exE conjE)
    fix x assume x: "mget (cs_Nodes c) (cpb_NodeID b) = Some x"
      and s': "AdmissionCapability s' = c\<lparr>cs_Nodes := mput (cpb_NodeID b)
          (x\<lparr>cn_Status := CapabilityReady, cn_UpdatedUnix := Unix now\<rparr>) (cs_Nodes c)\<rparr>"
    have ok: "mall (\<lambda>_. node_ok c) (cs_Nodes c)" "ops_unique (cs_Nodes c)" "cs_CAFingerprint c \<noteq> []"
      using assms(2) x by (auto simp: cap_ok_def c_def split: if_splits)
    have "cap_ok (c\<lparr>cs_Nodes := mput (cpb_NodeID b)
          (x\<lparr>cn_Status := CapabilityReady, cn_UpdatedUnix := Unix now\<rparr>) (cs_Nodes c)\<rparr>)"
    proof (rule cap_ok_put)
      show "node_ok c (x\<lparr>cn_Status := CapabilityReady, cn_UpdatedUnix := Unix now\<rparr>)"
        using mallD [OF ok(1) x] by (simp add: node_ok_def)
      fix m y assume "mget (cs_Nodes c) m = Some y"
        and "cn_OperationID y = cn_OperationID (x\<lparr>cn_Status := CapabilityReady, cn_UpdatedUnix := Unix now\<rparr>)"
        and "cn_OperationID (x\<lparr>cn_Status := CapabilityReady, cn_UpdatedUnix := Unix now\<rparr>) \<noteq> []"
      with ok(2) x show "m = cpb_NodeID b" unfolding ops_unique_def by auto
    qed (use assms(2) ok(3) c_def in simp_all)
    with s' show ?thesis by simp
  qed (use assms(2) in simp)
qed

lemma joins_frame:
  "JoinTokens s' = JoinTokens s \<Longrightarrow> JoinAttempts s' = JoinAttempts s \<Longrightarrow> Members s' = Members s
   \<Longrightarrow> joins_ok s \<Longrightarrow> joins_ok s'"
  by (simp add: joins_ok_def)

lemma joins_tokens:
  "joins_ok s \<Longrightarrow> wfmap (JoinTokens s') \<Longrightarrow> JoinAttempts s' = JoinAttempts s \<Longrightarrow> Members s' = Members s
   \<Longrightarrow> joins_ok s'"
  by (simp add: joins_ok_def)

lemma attempts_more: "mall (attempt_ok ms) m \<Longrightarrow> mall (attempt_ok (mput n x ms)) m"
  by (erule mall_mono) (simp add: attempt_ok_def)

lemma joins_members:
  assumes "joins_ok s" and "wfmap (JoinTokens s')" and "JoinAttempts s' = JoinAttempts s"
    and "Members s' = mput n m (Members s)" and "m_NodeID m = n"
  shows "joins_ok s'"
proof -
  have "mall (\<lambda>n m. m_NodeID m = n) (mput n m (Members s))"
    using assms(1,5) by (intro mall_mput) (simp_all add: joins_ok_def)
  with assms show ?thesis by (simp add: joins_ok_def attempts_more)
qed

lemma joins_attempt:
  assumes "joins_ok s" and "wfmap (JoinTokens s')" and "JoinAttempts s' = mput n a (JoinAttempts s)"
    and "Members s' = mput n m (Members s)" and "m_NodeID m = n" and "ja_NodeID a = n" and "ja_OperationID a \<noteq> []"
    and "\<And>k x. mget (JoinAttempts s) k = Some x \<Longrightarrow> ja_OperationID x = ja_OperationID a \<Longrightarrow> k = n"
  shows "joins_ok s'"
proof -
  have "mall (\<lambda>n m. m_NodeID m = n) (mput n m (Members s))"
    using assms(1,5) by (intro mall_mput) (simp_all add: joins_ok_def)
  moreover have "mall (attempt_ok (mput n m (Members s))) (mput n a (JoinAttempts s))"
    using assms(1,6,7) by (intro mall_mput attempts_more) (simp_all add: joins_ok_def attempt_ok_def)
  moreover have "unique_by ja_OperationID (mput n a (JoinAttempts s))"
    by (rule unique_by_mput [OF _ assms(8)]) (use assms(1) in \<open>simp add: joins_ok_def\<close>)
  ultimately show ?thesis using assms(1,2) by (simp add: joins_ok_def assms(3,4))
qed

lemma joins_prepare:
  assumes "applyJoinPrepare b now s = Inr s'" and "joins_ok s"
  shows "joins_ok s'"
proof (cases "mget (JoinAttempts s) (jpb_NodeID b)")
  case (Some a)
  with assms(1) have "s' = s" by (auto simp: applyJoinPrepare_def Let_def)
  with assms(2) show ?thesis by simp
next
  case None
  from assms(1) have ids: "jpb_OperationID b \<noteq> []"
    and u: "\<not> mex (\<lambda>n a. n \<noteq> jpb_NodeID b \<and> ja_OperationID a = jpb_OperationID b) (JoinAttempts s)"
    by (auto simp: applyJoinPrepare_def)
  from join_prepare_new [OF assms(1) None] obtain i t where
      ts: "JoinTokens s' = mput i t (JoinTokens s)"
    and a: "JoinAttempts s' = mput (jpb_NodeID b) (prepared_attempt b i now) (JoinAttempts s)"
    and m: "Members s' = mput (jpb_NodeID b) \<lparr>m_NodeID = jpb_NodeID b, m_RaftAddr = jpb_RaftAddr b,
           m_CertSerial = ToUpper (jpb_CertSerial b), m_Status = MemberJoining\<rparr> (Members s)" by metis
  show ?thesis
  proof (rule joins_attempt [OF assms(2) _ a m])
    show "wfmap (JoinTokens s')" using assms(2) by (simp add: ts joins_ok_def)
    fix k x assume "mget (JoinAttempts s) k = Some x"
      and "ja_OperationID x = ja_OperationID (prepared_attempt b i now)"
    with not_mexD [OF u] show "k = jpb_NodeID b" by (fastforce simp: prepared_attempt_def)
  qed (simp_all add: prepared_attempt_def ids)
qed

lemma joins_complete:
  assumes "applyJoinComplete b now s = Inr s'" and "joins_ok s"
  shows "joins_ok s'"
proof -
  from assms(1) obtain a where a: "mget (JoinAttempts s) (jcb_NodeID b) = Some a"
    by (auto simp: applyJoinComplete_def)
  from assms(1) a obtain m where m: "mget (Members s) (jcb_NodeID b) = Some m"
    by (auto simp: applyJoinComplete_def)
  from assms(1) have "s' = s \<or> s' = s\<lparr>
      Members := mput (jcb_NodeID b) (m\<lparr>m_Status := MemberAdmitted\<rparr>) (Members s),
      JoinAttempts := mput (jcb_NodeID b) (a\<lparr>ja_Status := JoinCompleted, ja_UpdatedUnix := Unix now\<rparr>) (JoinAttempts s)\<rparr>"
    by (auto simp: applyJoinComplete_def a m)
  then show ?thesis
  proof
    assume s': "s' = s\<lparr>
      Members := mput (jcb_NodeID b) (m\<lparr>m_Status := MemberAdmitted\<rparr>) (Members s),
      JoinAttempts := mput (jcb_NodeID b) (a\<lparr>ja_Status := JoinCompleted, ja_UpdatedUnix := Unix now\<rparr>) (JoinAttempts s)\<rparr>"
    then have t: "JoinTokens s' = JoinTokens s"
      and as: "JoinAttempts s' = mput (jcb_NodeID b) (a\<lparr>ja_Status := JoinCompleted, ja_UpdatedUnix := Unix now\<rparr>) (JoinAttempts s)"
      and ms: "Members s' = mput (jcb_NodeID b) (m\<lparr>m_Status := MemberAdmitted\<rparr>) (Members s)" by simp_all
    have ok: "mall (attempt_ok (Members s)) (JoinAttempts s)" "mall (\<lambda>n m. m_NodeID m = n) (Members s)"
      "unique_by ja_OperationID (JoinAttempts s)" "wfmap (JoinTokens s)"
      using assms(2) by (simp_all add: joins_ok_def)
    show ?thesis
    proof (rule joins_attempt [OF assms(2) _ as ms])
      fix k x assume "mget (JoinAttempts s) k = Some x"
        and "ja_OperationID x = ja_OperationID (a\<lparr>ja_Status := JoinCompleted, ja_UpdatedUnix := Unix now\<rparr>)"
      with ok(3) a show "k = jcb_NodeID b" unfolding unique_by_def by auto
    qed (use mallD [OF ok(1) a] mallD [OF ok(2) m] ok(4) in \<open>simp_all add: attempt_ok_def t\<close>)
  qed (use assms(2) in simp)
qed

lemma admission_ok_step [preserved]:
  assumes "apply_admission e now c s = Inr s'" and "admission_ok s"
  shows "admission_ok s'"
proof -
  from assms(2) have j: "joins_ok s" and k: "cap_ok (AdmissionCapability s)" by (simp_all add: admission_ok_def)
  from j have wt: "wfmap (JoinTokens s)" by (simp add: joins_ok_def)
  show ?thesis
  proof (cases c)
    case (CmdJoinTokenPut b)
    with assms(1) wt have "wfmap (JoinTokens s')" "JoinAttempts s' = JoinAttempts s" "Members s' = Members s"
      "AdmissionCapability s' = AdmissionCapability s"
      by (auto simp: applyJoinTokenPut_def Let_def)
    with joins_tokens [OF j] k show ?thesis by (simp add: admission_ok_def)
  next
    case (CmdJoinTokenConsume b)
    with assms(1) wt have "wfmap (JoinTokens s')" "JoinAttempts s' = JoinAttempts s" "Members s' = Members s"
      "AdmissionCapability s' = AdmissionCapability s"
      by (auto simp: applyJoinTokenConsume_def Let_def)
    with joins_tokens [OF j] k show ?thesis by (simp add: admission_ok_def)
  next
    case (CmdJoinTokenRevoke b)
    with assms(1) wt have "wfmap (JoinTokens s')" "JoinAttempts s' = JoinAttempts s" "Members s' = Members s"
      "AdmissionCapability s' = AdmissionCapability s"
      by (auto simp: applyJoinTokenRevoke_def)
    with joins_tokens [OF j] k show ?thesis by (simp add: admission_ok_def)
  next
    case (CmdJoinPrepare b)
    with assms(1) have p: "applyJoinPrepare b now s = Inr s'" by simp
    then have "AdmissionCapability s' = AdmissionCapability s" by (auto simp: applyJoinPrepare_def Let_def)
    with joins_prepare [OF p j] k show ?thesis by (simp add: admission_ok_def)
  next
    case (CmdJoinComplete b)
    with assms(1) have p: "applyJoinComplete b now s = Inr s'" by simp
    then have "AdmissionCapability s' = AdmissionCapability s" by (auto simp: applyJoinComplete_def)
    with joins_complete [OF p j] k show ?thesis by (simp add: admission_ok_def)
  next
    case (CmdMemberPut b)
    with assms(1) have "AdmissionCapability s' = AdmissionCapability s"
      and "JoinTokens s' = JoinTokens s" and "JoinAttempts s' = JoinAttempts s"
      and "\<exists>m. Members s' = mput (mpb_NodeID b) m (Members s) \<and> m_NodeID m = mpb_NodeID b"
      by (auto simp: applyMemberPut_def Let_def)
    with joins_members [OF j] wt k show ?thesis unfolding admission_ok_def by metis
  next
    case (CmdMemberRemove b)
    with assms(1) have p: "applyMemberRemove b s = Inr s'" by simp
    then obtain m where m: "mget (Members s) (mrb_NodeID b) = Some m"
      by (cases "mget (Members s) (mrb_NodeID b)") (simp_all add: applyMemberRemove_def)
    from p have ms: "Members s' = mput (mrb_NodeID b) (m\<lparr>m_Status := MemberRevoked\<rparr>) (Members s)"
      and js: "JoinTokens s' = JoinTokens s" "JoinAttempts s' = JoinAttempts s"
      and c: "AdmissionCapability s' = AdmissionCapability s \<or> AdmissionCapability s' =
          (AdmissionCapability s)\<lparr>cs_Nodes := mdel (mrb_NodeID b) (cs_Nodes (AdmissionCapability s))\<rparr>"
      by (auto simp: applyMemberRemove_def Let_def m split: option.splits if_splits)
    from j have "mall (\<lambda>n m. m_NodeID m = n) (Members s)" by (simp add: joins_ok_def)
    from mallD [OF this m] have "joins_ok s'" by (intro joins_members [OF j _ js(2) ms]) (simp_all add: js wt)
    with c k cap_ok_del [OF k] show ?thesis unfolding admission_ok_def by metis
  next
    case (CmdCapabilityInit b)
    with assms(1) have p: "applyCapabilityInit b now s = Inr s'" by simp
    then have "JoinTokens s' = JoinTokens s" "JoinAttempts s' = JoinAttempts s" "Members s' = Members s"
      by (auto simp: applyCapabilityInit_def Let_def)
    with joins_frame j capability_init_ok [OF p k] show ?thesis unfolding admission_ok_def by blast
  next
    case (CmdCapabilityPrepare b)
    with assms(1) have p: "applyCapabilityPrepare b now s = Inr s'" by simp
    then have "JoinTokens s' = JoinTokens s" "JoinAttempts s' = JoinAttempts s" "Members s' = Members s"
      by (auto simp: applyCapabilityPrepare_def Let_def)
    with joins_frame j capability_prepare_ok [OF p k] show ?thesis unfolding admission_ok_def by blast
  next
    case (CmdCapabilityReady b)
    with assms(1) have p: "applyCapabilityReady b now s = Inr s'" by simp
    then have "JoinTokens s' = JoinTokens s" "JoinAttempts s' = JoinAttempts s" "Members s' = Members s"
      by (auto simp: applyCapabilityReady_def Let_def)
    with joins_frame j capability_ready_ok [OF p k] show ?thesis unfolding admission_ok_def by blast
  next
    case (CmdCRLAdd b)
    with assms(1) have "JoinTokens s' = JoinTokens s" "JoinAttempts s' = JoinAttempts s"
      "Members s' = Members s" "AdmissionCapability s' = AdmissionCapability s"
      by (auto simp: applyCRLAdd_def)
    with joins_frame j k show ?thesis unfolding admission_ok_def by metis
  qed
qed


section \<open>Removed members\<close>

text \<open>A node that is out: revoked, in no group, its certificate serial revoked.\<close>

definition node_out :: "string \<Rightarrow> string \<Rightarrow> State \<Rightarrow> bool" where
  "node_out n serial s \<longleftrightarrow>
     (case mget (Members s) n of Some m \<Rightarrow> m_Status m = MemberRevoked | None \<Rightarrow> False)
     \<and> mall (\<lambda>_ g. n \<notin> set (g_MemberIDs g)) (AgentGroups s) \<and> SerialRevoked s serial"

lemma drop_from_group_mem [simp]:
  "n \<in> set (g_MemberIDs (drop_from_group k g)) \<longleftrightarrow> n \<in> set (g_MemberIDs g) \<and> n \<noteq> k"
  by (auto simp: drop_from_group_def)

lemma member_remove_out:
  assumes "applyMemberRemove b s = Inr s'" and "mget (Members s) (mrb_NodeID b) = Some m"
    and "m_CertSerial m \<noteq> []"
  shows "node_out (mrb_NodeID b) (m_CertSerial m) s'"
proof -
  from assms have "Members s' = mput (mrb_NodeID b) (m\<lparr>m_Status := MemberRevoked\<rparr>) (Members s)"
    and "AgentGroups s' = mmap (\<lambda>_. drop_from_group (mrb_NodeID b)) (AgentGroups s)"
    and "CRL s' = mput (ToUpper (m_CertSerial m)) () (CRL s)"
    by (auto simp: applyMemberRemove_def Let_def)
  then show ?thesis by (auto simp: node_out_def SerialRevoked_def mall_def)
qed

lemma node_out_keep:
  assumes "node_out n serial s"
    and "mget (Members s') n = mget (Members s) n"
    and "mall (\<lambda>_ g. n \<notin> set (g_MemberIDs g)) (AgentGroups s')"
    and "\<And>k. mhas (CRL s) k \<Longrightarrow> mhas (CRL s') k"
  shows "node_out n serial s'"
  using assms by (auto simp: node_out_def SerialRevoked_def)

lemma node_out_groups: "node_out n serial s \<Longrightarrow> mall (\<lambda>_ g. n \<notin> set (g_MemberIDs g)) (AgentGroups s)"
  by (simp add: node_out_def)

lemma node_out_revoked: "node_out n serial s \<Longrightarrow> \<exists>m. mget (Members s) n = Some m \<and> m_Status m = MemberRevoked"
  by (auto simp: node_out_def split: option.splits)

lemma admission_keeps_out [preserved]:
  assumes "apply_admission e now c s = Inr s'" and "node_out n serial s"
    and "\<And>b. c = CmdMemberPut b \<Longrightarrow> mpb_NodeID b \<noteq> n"
  shows "node_out n serial s'"
proof -
  from node_out_revoked [OF assms(2)] obtain m where m: "mget (Members s) n = Some m" "m_Status m = MemberRevoked" by blast
  have keep: "node_out n serial s'" if "mget (Members s') n = mget (Members s) n" "AgentGroups s' = AgentGroups s"
    "CRL s' = CRL s"
    using node_out_keep [OF assms(2)] node_out_groups [OF assms(2)] that by simp
  show ?thesis
  proof (cases c)
    case (CmdJoinPrepare b)
    with assms(1) have p: "applyJoinPrepare b now s = Inr s'" by simp
    then have "jpb_NodeID b \<noteq> n" using m by (auto simp: applyJoinPrepare_def Let_def)
    with p show ?thesis by (intro keep) (auto simp: applyJoinPrepare_def Let_def)
  next
    case (CmdJoinComplete b)
    with assms(1) have p: "applyJoinComplete b now s = Inr s'" by simp
    then have "jcb_NodeID b \<noteq> n" using m by (auto simp: applyJoinComplete_def)
    with p show ?thesis by (intro keep) (auto simp: applyJoinComplete_def)
  next
    case (CmdMemberPut b)
    with assms(1,3) show ?thesis by (intro keep) (auto simp: applyMemberPut_def Let_def)
  next
    case (CmdMemberRemove b)
    with assms(1) have p: "applyMemberRemove b s = Inr s'" by simp
    then obtain k where k: "mget (Members s) (mrb_NodeID b) = Some k"
      by (cases "mget (Members s) (mrb_NodeID b)") (simp_all add: applyMemberRemove_def)
    have g: "AgentGroups s' = mmap (\<lambda>_. drop_from_group (mrb_NodeID b)) (AgentGroups s)"
      and "\<And>x. mhas (CRL s) x \<Longrightarrow> mhas (CRL s') x"
      and ms: "Members s' = mput (mrb_NodeID b) (k\<lparr>m_Status := MemberRevoked\<rparr>) (Members s)"
      using p by (auto simp: applyMemberRemove_def Let_def k)
    moreover have "mget (Members s') n = mget (Members s) n"
      using m k by (auto simp: ms)
    moreover have "mall (\<lambda>_ x. n \<notin> set (g_MemberIDs x)) (AgentGroups s')"
      unfolding g mall_mmap using node_out_groups [OF assms(2)]
      by (rule mall_mono) simp
    ultimately show ?thesis by (intro node_out_keep [OF assms(2)])
  next
    case (CmdCRLAdd b)
    with assms(1) have "AgentGroups s' = AgentGroups s" "Members s' = Members s"
      "CRL s' = mput (ToUpper (crl_Serial b)) () (CRL s)"
      by (auto simp: applyCRLAdd_def)
    with node_out_groups [OF assms(2)] show ?thesis by (intro node_out_keep [OF assms(2)]) simp_all
  next
    case (CmdJoinTokenPut b)
    with assms(1) show ?thesis by (intro keep) (auto simp: applyJoinTokenPut_def Let_def)
  next
    case (CmdJoinTokenConsume b)
    with assms(1) show ?thesis by (intro keep) (auto simp: applyJoinTokenConsume_def Let_def)
  next
    case (CmdJoinTokenRevoke b)
    with assms(1) show ?thesis by (intro keep) (auto simp: applyJoinTokenRevoke_def Let_def)
  next
    case (CmdCapabilityInit b)
    with assms(1) show ?thesis by (intro keep) (auto simp: applyCapabilityInit_def Let_def)
  next
    case (CmdCapabilityPrepare b)
    with assms(1) show ?thesis by (intro keep) (auto simp: applyCapabilityPrepare_def Let_def)
  next
    case (CmdCapabilityReady b)
    with assms(1) show ?thesis by (intro keep) (auto simp: applyCapabilityReady_def Let_def)
  qed
qed

lemma fails_when_out:
  assumes "node_out n serial s"
  shows "jpb_NodeID b = n \<Longrightarrow> \<exists>err. applyJoinPrepare b now s = Inl err"
    and "jcb_NodeID c = n \<Longrightarrow> \<exists>err. applyJoinComplete c now s = Inl err"
proof -
  from node_out_revoked [OF assms] obtain m where m: "mget (Members s) n = Some m" "m_Status m = MemberRevoked" by blast
  show "\<exists>err. applyJoinPrepare b now s = Inl err" if "jpb_NodeID b = n"
    using m that by (cases "applyJoinPrepare b now s") (auto simp: applyJoinPrepare_def Let_def)
  show "\<exists>err. applyJoinComplete c now s = Inl err" if "jcb_NodeID c = n"
    using m that by (cases "applyJoinComplete c now s") (auto simp: applyJoinComplete_def)
qed

section \<open>Properties\<close>

text \<open>
  A join is paid for once. A successful join_prepare for a node without a pending attempt takes
  exactly one use from a live token, changes no other token and records the attempt; a retry of the
  same request, at any later time, succeeds without taking another use, even if the token has
  expired or is exhausted by then.
\<close>

theorem join_prepare_once:
  assumes "applyJoinPrepare b now s = Inr s'" and "wfmap (JoinTokens s)" and "wfmap (JoinAttempts s)"
    and "mget (JoinAttempts s) (jpb_NodeID b) = None"
  shows "(\<exists>i token. mget (JoinTokens s) i = Some token \<and> jt_Hash token = jpb_TokenHash b
      \<and> 0 < jt_Remaining token \<and> Unix now < jt_ExpiresUnix token
      \<and> mget (JoinTokens s') = (mget (JoinTokens s))(i \<mapsto> token\<lparr>jt_Remaining := jt_Remaining token - 1\<rparr>))
    \<and> applyJoinPrepare b later s' = Inr s'"
proof -
  from join_prepare_new [OF assms(1,4)] obtain i token where
      f: "joinTokenByHash s (jpb_TokenHash b) = Some (i, token)"
    and p: "0 < jt_Remaining token" "Unix now < jt_ExpiresUnix token"
    and t: "JoinTokens s' = mput i (token\<lparr>jt_Remaining := jt_Remaining token - 1\<rparr>) (JoinTokens s)" .
  from f have "mget (JoinTokens s) i = Some token"
    unfolding joinTokenByHash_def by (rule find_map_entry [OF assms(2)])
  moreover from f have "jt_Hash token = jpb_TokenHash b"
    by (auto simp: joinTokenByHash_def find_Some_iff)
  ultimately show ?thesis
    using p t join_prepare_retry [OF assms(1,2,3)] by (intro conjI exI [of _ i] exI [of _ token]) simp_all
qed

definition token_state :: State where
  "token_state = NewState\<lparr>JoinTokens := [(''t1'', \<lparr>jt_ID = ''t1'', jt_Hash = ''hash'', jt_ExpiresUnix = 100,
     jt_Remaining = 1, jt_Revoked = False\<rparr>)]\<rparr>"

definition join_n1 :: JoinPrepareBody where
  "join_n1 = \<lparr>jpb_OperationID = ''op'', jpb_TokenHash = ''hash'', jpb_NodeID = ''n1'',
     jpb_RaftAddr = ''a:1'', jpb_CSRHash = ''c'', jpb_CertPEM = ''p'', jpb_CertSerial = ''0a''\<rparr>"

theorem join_prepare_once_witness:
  "\<exists>s'. applyJoinPrepare join_n1 0 token_state = Inr s' \<and> applyJoinPrepare join_n1 (1000 * nanos) s' = Inr s'"
proof -
  obtain s' where s': "applyJoinPrepare join_n1 0 token_state = Inr s'"
    by (simp add: applyJoinPrepare_def join_n1_def token_state_def joinTokenByHash_def mex_def NewState_def
        ensure_def zero_state_def time_Unix_def Let_def)
  have "wfmap (JoinTokens token_state)" "JoinAttempts token_state = []"
    by (simp_all add: token_state_def wfmap_def NewState_def ensure_def zero_state_def)
  with join_prepare_once [OF s', of "1000 * nanos"] s' show ?thesis by simp
qed

end
