(* ===== verification/Control_Groups.thy ===== *)
theory Control_Groups imports Control_Rbac
begin

text \<open>
  Agent groups, alert channels and the alert policy (\<^verbatim>\<open>fsm.go\<close>, lines 1003 to 1160 and
  \<^verbatim>\<open>applyGroupMemberRemove\<close>).
\<close>

record GroupPutBody =
  gpb_GroupID :: string
  gpb_Name :: string
  gpb_Description :: string
  gpb_NowUnix :: int

record GroupDeleteBody =
  gdb_GroupID :: string

record GroupMemberBody =
  gmb_GroupID :: string
  gmb_NodeID :: string

record AlertChannelPutBody =
  acp_ChannelID :: string
  acp_Type :: string
  acp_Name :: string
  acp_ConfigJSON :: string
  acp_Enabled :: bool
  acp_NowUnix :: int

record AlertChannelDeleteBody =
  acd_ChannelID :: string

record AlertPolicyPutBody =
  app_DedupWindowSec :: int
  app_NotifyOnResolve :: bool
  app_CPUHighPercent :: int
  app_MemoryHighPercent :: int
  app_DiskHighPercent :: int
  app_HighConsecutiveMins :: int
  app_SuspectTooLongSec :: int

section \<open>Agent groups\<close>

definition zero_group :: AgentGroup where
  "zero_group = \<lparr>g_GroupID = [], g_Name = [], g_Description = [], g_MemberIDs = [],
                 g_CreatedUnix = 0, g_UpdatedUnix = 0\<rparr>"

definition applyGroupPut :: "GroupPutBody \<Rightarrow> State \<Rightarrow> goerror + State" where
  "applyGroupPut b s =
    (let name = TrimSpace (gpb_Name b) in
     if gpb_GroupID b = [] \<or> \<not> name64_match name then fail INVALID ''group name''
     else if 256 < length (gpb_Description b) then fail INVALID ''description''
     else if mex (\<lambda>i g. g_Name g = name \<and> i \<noteq> gpb_GroupID b) (AgentGroups s)
       then fail CONFLICT ''group name already exists''
     else
      (let cur0 = mget_or zero_group (AgentGroups s) (gpb_GroupID b);
           cur1 = (if g_GroupID cur0 = []
                   then cur0\<lparr>g_GroupID := gpb_GroupID b, g_CreatedUnix := gpb_NowUnix b\<rparr> else cur0);
           cur = cur1\<lparr>g_Name := name, g_Description := gpb_Description b, g_UpdatedUnix := gpb_NowUnix b\<rparr>
       in Inr (s\<lparr>AgentGroups := mput (gpb_GroupID b) cur (AgentGroups s)\<rparr>)))"

definition applyGroupDelete :: "GroupDeleteBody \<Rightarrow> State \<Rightarrow> goerror + State" where
  "applyGroupDelete b s =
    (if \<not> mhas (AgentGroups s) (gdb_GroupID b) then fail NOT_FOUND ''group not found''
     else if list_ex (\<lambda>bnd. bi_Scope bnd = ScopeAgentGroup \<and> bi_ScopeID bnd = gdb_GroupID b) (Bindings s)
       then fail CONFLICT ''group still has role bindings''
     else Inr (s\<lparr>AgentGroups := mdel (gdb_GroupID b) (AgentGroups s)\<rparr>))"

definition applyGroupMemberAdd :: "GroupMemberBody \<Rightarrow> State \<Rightarrow> goerror + State" where
  "applyGroupMemberAdd b s =
    (case mget (AgentGroups s) (gmb_GroupID b) of
       None \<Rightarrow> fail NOT_FOUND ''group not found''
     | Some g \<Rightarrow>
         if (case mget (Members s) (gmb_NodeID b) of None \<Rightarrow> True | Some m \<Rightarrow> m_Status m \<noteq> MemberAdmitted)
           then fail INVALID ''node is not an admitted member''
         else if gmb_NodeID b \<in> set (g_MemberIDs g) then Inr s
         else Inr (s\<lparr>AgentGroups := mput (gmb_GroupID b)
                (g\<lparr>g_MemberIDs := g_MemberIDs g @ [gmb_NodeID b]\<rparr>) (AgentGroups s)\<rparr>))"

definition applyGroupMemberRemove :: "GroupMemberBody \<Rightarrow> State \<Rightarrow> goerror + State" where
  "applyGroupMemberRemove b s =
    (case mget (AgentGroups s) (gmb_GroupID b) of
       None \<Rightarrow> fail NOT_FOUND ''group not found''
     | Some g \<Rightarrow> Inr (s\<lparr>AgentGroups := mput (gmb_GroupID b)
            (g\<lparr>g_MemberIDs := filter (\<lambda>i. i \<noteq> gmb_NodeID b) (g_MemberIDs g)\<rparr>) (AgentGroups s)\<rparr>))"

section \<open>Alert channels and policy\<close>

definition validAlertChannelType :: "string \<Rightarrow> bool" where
  "validAlertChannelType typ \<longleftrightarrow>
     typ \<in> set [''WEB'', ''WEBHOOK'', ''EMAIL'', ''WECOM'', ''DINGTALK'', ''SLACK'']"

definition normalizeAlertConfigJSON :: "env \<Rightarrow> string \<Rightarrow> goerror + string" where
  "normalizeAlertConfigJSON e raw0 =
    (let raw = TrimSpace raw0 in
     if raw = [] then Inr ''{}''
     else if \<not> json_object e raw then fail INVALID ''config_json''
     else Inr raw)"

definition validAlertPercent :: "int \<Rightarrow> bool" where
  "validAlertPercent n \<longleftrightarrow> n \<ge> 1 \<and> n \<le> 100"

definition zero_channel :: AlertChannel where
  "zero_channel = \<lparr>ac_ChannelID = [], ac_Type = [], ac_Name = [], ac_Enabled = False,
                   ac_ConfigJSON = [], ac_CreatedUnix = 0, ac_UpdatedUnix = 0\<rparr>"

definition applyAlertChannelPut :: "env \<Rightarrow> AlertChannelPutBody \<Rightarrow> State \<Rightarrow> goerror + State" where
  "applyAlertChannelPut e b s =
    (let name = TrimSpace (acp_Name b) in
     if acp_ChannelID b = [] \<or> \<not> name64_match name then fail INVALID ''channel name''
     else if \<not> validAlertChannelType (acp_Type b) then fail INVALID ''channel type''
     else case normalizeAlertConfigJSON e (acp_ConfigJSON b) of
         Inl err \<Rightarrow> Inl err
       | Inr cfg \<Rightarrow>
           let cur0 = mget_or zero_channel (AlertChannels s) (acp_ChannelID b);
               cur1 = (if ac_ChannelID cur0 = []
                       then cur0\<lparr>ac_ChannelID := acp_ChannelID b, ac_CreatedUnix := acp_NowUnix b\<rparr> else cur0);
               cur = cur1\<lparr>ac_Type := acp_Type b, ac_Name := name, ac_Enabled := acp_Enabled b,
                          ac_ConfigJSON := cfg, ac_UpdatedUnix := acp_NowUnix b\<rparr>
           in Inr (s\<lparr>AlertChannels := mput (acp_ChannelID b) cur (AlertChannels s)\<rparr>))"

definition applyAlertChannelDelete :: "AlertChannelDeleteBody \<Rightarrow> State \<Rightarrow> goerror + State" where
  "applyAlertChannelDelete b s =
    (if \<not> mhas (AlertChannels s) (acd_ChannelID b) then fail NOT_FOUND ''channel not found''
     else Inr (s\<lparr>AlertChannels := mdel (acd_ChannelID b) (AlertChannels s)\<rparr>))"

definition applyAlertPolicyPut :: "AlertPolicyPutBody \<Rightarrow> State \<Rightarrow> goerror + State" where
  "applyAlertPolicyPut b s =
    (if app_DedupWindowSec b < 1 then fail INVALID ''dedup_window_sec''
     else if \<not> validAlertPercent (app_CPUHighPercent b) \<or> \<not> validAlertPercent (app_MemoryHighPercent b)
          \<or> \<not> validAlertPercent (app_DiskHighPercent b)
       then fail INVALID ''threshold percent''
     else if app_HighConsecutiveMins b < 1 \<or> app_HighConsecutiveMins b > 60
       then fail INVALID ''high_consecutive_mins''
     else if app_SuspectTooLongSec b < 1 \<or> app_SuspectTooLongSec b > 86400
       then fail INVALID ''suspect_too_long_sec''
     else Inr (s\<lparr>StAlertPolicy := \<lparr>
        al_DedupWindowSec = app_DedupWindowSec b, al_NotifyOnResolve = app_NotifyOnResolve b,
        al_CPUHighPercent = app_CPUHighPercent b, al_MemoryHighPercent = app_MemoryHighPercent b,
        al_DiskHighPercent = app_DiskHighPercent b, al_HighConsecutiveMins = app_HighConsecutiveMins b,
        al_SuspectTooLongSec = app_SuspectTooLongSec b\<rparr>\<rparr>))"

datatype GroupCommand =
    CmdGroupPut GroupPutBody
  | CmdGroupDelete GroupDeleteBody
  | CmdGroupMemberAdd GroupMemberBody
  | CmdGroupMemberRemove GroupMemberBody
  | CmdAlertChannelPut AlertChannelPutBody
  | CmdAlertChannelDelete AlertChannelDeleteBody
  | CmdAlertPolicyPut AlertPolicyPutBody

primrec apply_group :: "env \<Rightarrow> GroupCommand \<Rightarrow> State \<Rightarrow> goerror + State" where
  "apply_group e (CmdGroupPut b) = applyGroupPut b"
| "apply_group e (CmdGroupDelete b) = applyGroupDelete b"
| "apply_group e (CmdGroupMemberAdd b) = applyGroupMemberAdd b"
| "apply_group e (CmdGroupMemberRemove b) = applyGroupMemberRemove b"
| "apply_group e (CmdAlertChannelPut b) = applyAlertChannelPut e b"
| "apply_group e (CmdAlertChannelDelete b) = applyAlertChannelDelete b"
| "apply_group e (CmdAlertPolicyPut b) = applyAlertPolicyPut b"

lemmas group_defs [handler_defs] =
  applyGroupPut_def applyGroupDelete_def applyGroupMemberAdd_def applyGroupMemberRemove_def
  applyAlertChannelPut_def applyAlertChannelDelete_def applyAlertPolicyPut_def

section \<open>What the commands change\<close>

lemma group_footprint [footprint]:
  assumes "apply_group e c s = Inr s'"
  shows "\<exists>gs cs p. s' = s\<lparr>AgentGroups := gs, AlertChannels := cs, StAlertPolicy := p\<rparr>"
proof -
  have "s' = s\<lparr>AgentGroups := AgentGroups s', AlertChannels := AlertChannels s',
     StAlertPolicy := StAlertPolicy s'\<rparr>"
    using assms by (cases c) (auto simp: group_defs Let_def)
  then show ?thesis by blast
qed

lemma group_ensured [preserved]:
  assumes "apply_group e c s = Inr s'" and "ensured s"
  shows "ensured s'"
proof -
  have "al_DedupWindowSec (StAlertPolicy s') \<noteq> 0"
    using assms by (cases c) (auto simp: group_defs Let_def ensured_def)
  moreover have "Roles s' = Roles s"
    using group_footprint [OF assms(1)] by auto
  ultimately show ?thesis using assms(2) by (simp add: ensured_def)
qed

section \<open>The invariant of the component\<close>

definition alert_ok :: "AlertPolicy \<Rightarrow> bool" where
  "alert_ok p \<longleftrightarrow> 1 \<le> al_DedupWindowSec p \<and> validAlertPercent (al_CPUHighPercent p)
     \<and> validAlertPercent (al_MemoryHighPercent p) \<and> validAlertPercent (al_DiskHighPercent p)
     \<and> 1 \<le> al_HighConsecutiveMins p \<and> al_HighConsecutiveMins p \<le> 60
     \<and> 1 \<le> al_SuspectTooLongSec p \<and> al_SuspectTooLongSec p \<le> 86400"

definition group_ok :: "string \<Rightarrow> AgentGroup \<Rightarrow> bool" where
  "group_ok k g \<longleftrightarrow> g_GroupID g = k \<and> k \<noteq> [] \<and> name64_match (g_Name g)
     \<and> length (g_Description g) \<le> 256 \<and> distinct (g_MemberIDs g)"

definition channel_ok :: "string \<Rightarrow> AlertChannel \<Rightarrow> bool" where
  "channel_ok k c \<longleftrightarrow> ac_ChannelID c = k \<and> name64_match (ac_Name c) \<and> validAlertChannelType (ac_Type c)"

definition groups_ok :: "State \<Rightarrow> bool" where
  "groups_ok s \<longleftrightarrow> unique_by g_Name (AgentGroups s) \<and> mall group_ok (AgentGroups s)
     \<and> mall channel_ok (AlertChannels s) \<and> alert_ok (StAlertPolicy s)"

lemma groups_ok_frame:
  "AgentGroups s' = AgentGroups s \<Longrightarrow> AlertChannels s' = AlertChannels s \<Longrightarrow> StAlertPolicy s' = StAlertPolicy s
   \<Longrightarrow> groups_ok s \<Longrightarrow> groups_ok s'"
  by (simp add: groups_ok_def)

lemma groups_ok_put:
  assumes "groups_ok s" and "AgentGroups s' = mput k g (AgentGroups s)"
    and "AlertChannels s' = AlertChannels s" and "StAlertPolicy s' = StAlertPolicy s" and "group_ok k g"
    and "\<And>a x. mget (AgentGroups s) a = Some x \<Longrightarrow> g_Name x = g_Name g \<Longrightarrow> a = k"
  shows "groups_ok s'"
proof -
  have "unique_by g_Name (mput k g (AgentGroups s))"
    by (rule unique_by_mput [OF _ assms(6)]) (use assms(1) in \<open>simp add: groups_ok_def\<close>)
  with assms(1,5) show ?thesis by (auto simp: groups_ok_def assms(2-4) intro: mall_mput)
qed

lemma same_group_name:
  assumes "groups_ok s" and "mget (AgentGroups s) k = Some g" and "g_Name g' = g_Name g"
    and "mget (AgentGroups s) a = Some x" and "g_Name x = g_Name g'"
  shows "a = k"
  using assms unfolding groups_ok_def unique_by_def by metis

lemma group_in_ok: "groups_ok s \<Longrightarrow> mget (AgentGroups s) k = Some g \<Longrightarrow> group_ok k g"
  by (simp add: groups_ok_def mall_def)

lemma groups_put_ok:
  assumes "applyGroupPut b s = Inr s'" and "groups_ok s"
  shows "groups_ok s'"
proof -
  define old where "old = mget_or zero_group (AgentGroups s) (gpb_GroupID b)"
  define g where "g = (if g_GroupID old = [] then old\<lparr>g_GroupID := gpb_GroupID b, g_CreatedUnix := gpb_NowUnix b\<rparr> else old)
     \<lparr>g_Name := TrimSpace (gpb_Name b), g_Description := gpb_Description b, g_UpdatedUnix := gpb_NowUnix b\<rparr>"
  from assms(1) have s': "s' = s\<lparr>AgentGroups := mput (gpb_GroupID b) g (AgentGroups s)\<rparr>"
    and ok: "gpb_GroupID b \<noteq> []" "name64_match (TrimSpace (gpb_Name b))" "length (gpb_Description b) \<le> 256"
    and free: "\<not> mex (\<lambda>i g. g_Name g = TrimSpace (gpb_Name b) \<and> i \<noteq> gpb_GroupID b) (AgentGroups s)"
    by (auto simp: applyGroupPut_def Let_def g_def old_def)
  show ?thesis
  proof (rule groups_ok_put [OF assms(2)])
    show "AgentGroups s' = mput (gpb_GroupID b) g (AgentGroups s)" by (simp add: s')
    have "old = zero_group \<or> group_ok (gpb_GroupID b) old"
      using group_in_ok [OF assms(2)] by (auto simp: old_def mget_or_def split: option.splits)
    with ok show "group_ok (gpb_GroupID b) g" by (auto simp: group_ok_def g_def zero_group_def)
    fix a x assume "mget (AgentGroups s) a = Some x" and "g_Name x = g_Name g"
    with not_mexD [OF free] show "a = gpb_GroupID b" by (fastforce simp: g_def)
  qed (simp_all add: s')
qed

lemma group_ok_step [preserved]:
  assumes "apply_group e c s = Inr s'" and "groups_ok s"
  shows "groups_ok s'"
proof (cases c)
  case (CmdGroupPut b)
  with assms groups_put_ok show ?thesis by simp
next
  case (CmdGroupDelete b)
  with assms show ?thesis
    by (auto simp: applyGroupDelete_def groups_ok_def unique_by_mdel mall_mdel)
next
  case (CmdGroupMemberAdd b)
  with assms(1) have p: "applyGroupMemberAdd b s = Inr s'" by simp
  then obtain g where g: "mget (AgentGroups s) (gmb_GroupID b) = Some g"
    by (cases "mget (AgentGroups s) (gmb_GroupID b)") (simp_all add: applyGroupMemberAdd_def)
  from p have "s' = s \<or> (gmb_NodeID b \<notin> set (g_MemberIDs g) \<and> s' = s\<lparr>AgentGroups := mput (gmb_GroupID b)
      (g\<lparr>g_MemberIDs := g_MemberIDs g @ [gmb_NodeID b]\<rparr>) (AgentGroups s)\<rparr>)"
    by (auto simp: applyGroupMemberAdd_def g)
  then show ?thesis
  proof (elim disjE conjE)
    assume s': "s' = s\<lparr>AgentGroups := mput (gmb_GroupID b)
      (g\<lparr>g_MemberIDs := g_MemberIDs g @ [gmb_NodeID b]\<rparr>) (AgentGroups s)\<rparr>" and n: "gmb_NodeID b \<notin> set (g_MemberIDs g)"
    with group_in_ok [OF assms(2) g] show ?thesis
      by (intro groups_ok_put [OF assms(2), where g = "g\<lparr>g_MemberIDs := g_MemberIDs g @ [gmb_NodeID b]\<rparr>"
            and k = "gmb_GroupID b"] same_group_name [OF assms(2) g])
        (simp_all add: group_ok_def)
  qed (use assms(2) in simp)
next
  case (CmdGroupMemberRemove b)
  with assms(1) obtain g where g: "mget (AgentGroups s) (gmb_GroupID b) = Some g"
    and s': "s' = s\<lparr>AgentGroups := mput (gmb_GroupID b)
            (g\<lparr>g_MemberIDs := filter (\<lambda>i. i \<noteq> gmb_NodeID b) (g_MemberIDs g)\<rparr>) (AgentGroups s)\<rparr>"
    by (auto simp: applyGroupMemberRemove_def)
  from group_in_ok [OF assms(2) g] show ?thesis
    by (intro groups_ok_put [OF assms(2), where g = "g\<lparr>g_MemberIDs := filter (\<lambda>i. i \<noteq> gmb_NodeID b) (g_MemberIDs g)\<rparr>"
          and k = "gmb_GroupID b"] same_group_name [OF assms(2) g])
      (simp_all add: s' group_ok_def)
next
  case (CmdAlertChannelPut b)
  define old where "old = mget_or zero_channel (AlertChannels s) (acp_ChannelID b)"
  from assms(1) CmdAlertChannelPut obtain cfg where
    s': "s' = s\<lparr>AlertChannels := mput (acp_ChannelID b)
        ((if ac_ChannelID old = [] then old\<lparr>ac_ChannelID := acp_ChannelID b, ac_CreatedUnix := acp_NowUnix b\<rparr> else old)
         \<lparr>ac_Type := acp_Type b, ac_Name := TrimSpace (acp_Name b), ac_Enabled := acp_Enabled b,
          ac_ConfigJSON := cfg, ac_UpdatedUnix := acp_NowUnix b\<rparr>) (AlertChannels s)\<rparr>"
    and ok: "name64_match (TrimSpace (acp_Name b))" "validAlertChannelType (acp_Type b)"
    by (auto simp: applyAlertChannelPut_def Let_def simp flip: old_def)
  have "old = zero_channel \<or> channel_ok (acp_ChannelID b) old"
    using assms(2) by (auto simp: old_def mget_or_def groups_ok_def mall_def split: option.splits)
  then have "channel_ok (acp_ChannelID b)
      ((if ac_ChannelID old = [] then old\<lparr>ac_ChannelID := acp_ChannelID b, ac_CreatedUnix := acp_NowUnix b\<rparr> else old)
         \<lparr>ac_Type := acp_Type b, ac_Name := TrimSpace (acp_Name b), ac_Enabled := acp_Enabled b,
          ac_ConfigJSON := cfg, ac_UpdatedUnix := acp_NowUnix b\<rparr>)"
    using ok by (auto simp: channel_ok_def zero_channel_def)
  then have "mall channel_ok (AlertChannels s')"
    unfolding s' using assms(2) by (auto simp: groups_ok_def intro: mall_mput)
  with assms(2) show ?thesis by (simp add: groups_ok_def s')
next
  case (CmdAlertChannelDelete b)
  with assms show ?thesis
    by (auto simp: applyAlertChannelDelete_def groups_ok_def mall_mdel)
next
  case (CmdAlertPolicyPut b)
  with assms show ?thesis
    by (auto simp: applyAlertPolicyPut_def groups_ok_def alert_ok_def)
qed

lemma groups_ok_drop:
  assumes "groups_ok s" and "AgentGroups s' = mmap (\<lambda>_ g. g\<lparr>g_MemberIDs := f g\<rparr>) (AgentGroups s)"
    and "AlertChannels s' = AlertChannels s" and "StAlertPolicy s' = StAlertPolicy s"
    and "\<And>g. distinct (g_MemberIDs g) \<Longrightarrow> distinct (f g)"
  shows "groups_ok s'"
  using assms by (auto simp: groups_ok_def intro!: unique_by_mmap elim!: mall_mono) (simp_all add: group_ok_def)

end
