(* ===== verification/Control_Policies.thy ===== *)
theory Control_Policies imports Control_Rbac
begin

text \<open>
  Backup policies, replication policies and replication delete intents (\<^verbatim>\<open>fsm.go\<close>), with the
  schedule checks of \<^verbatim>\<open>internal/schedule\<close>.
\<close>

record BackupPolicyPutBody =
  bpp_OperationID :: string
  bpp_PolicyID :: string
  bpp_Name :: string
  bpp_Enabled :: bool
  bpp_ScheduleCron :: string
  bpp_Timezone :: string
  bpp_TargetSelector :: Selector
  bpp_TargetIDs :: "string list"
  bpp_Sink :: string
  bpp_DestinationProfile :: string
  bpp_RetentionKeepLast :: int
  bpp_RetentionKeepDays :: int
  bpp_RetentionMaxBytes :: int
  bpp_TimeoutSeconds :: int
  bpp_MaxConcurrency :: int
  bpp_UnavailablePolicy :: string

record BackupPolicyDeleteBody =
  bpd_OperationID :: string
  bpd_PolicyID :: string

record ReplicationPolicyPutBody =
  rpp_OperationID :: string
  rpp_PolicyID :: string
  rpp_Name :: string
  rpp_Enabled :: bool
  rpp_SourceSelector :: Selector
  rpp_SourceIDs :: "string list"
  rpp_ReplicaFactor :: int
  rpp_Routes :: "ReplicationRoute list"
  rpp_Trigger :: string
  rpp_PrimaryPolicyIDs :: "string list"
  rpp_ScheduleCron :: string
  rpp_Timezone :: string
  rpp_RetentionKeepLast :: int
  rpp_RetentionKeepDays :: int
  rpp_RetentionMaxBytes :: int
  rpp_MaxConcurrency :: int
  rpp_VerifyAfterCopy :: bool
  rpp_BandwidthLimit :: int
  rpp_TopologyConstraints :: "(string, string) gomap"
  rpp_RouteTopologyRevision :: int
  rpp_ExpectedRevision :: int

record ReplicationPolicyDeleteBody =
  rpd_OperationID :: string
  rpd_PolicyID :: string

record ReplicationDeleteIntentPutBody =
  dip_OperationID :: string
  dip_Intent :: ReplicationDeleteIntent

section \<open>Schedules (internal/schedule)\<close>

definition cron_bounds :: "(int \<times> int) list" where
  "cron_bounds = [(0, 59), (0, 23), (1, 31), (1, 12), (0, 6)]"

definition cron_field_ok :: "string \<Rightarrow> int \<times> int \<Rightarrow> bool" where
  "cron_field_ok field bd =
    (field = ''*'' \<or>
     (case Atoi field of None \<Rightarrow> False | Some n \<Rightarrow> \<not> (n < fst bd) \<and> \<not> (n > snd bd)))"

definition ValidateCron :: "string \<Rightarrow> goerror option" where
  "ValidateCron expr =
    (let fields = Fields (TrimSpace expr) in
     if length fields = 0 then None
     else if length fields \<noteq> 5 then Some (E INVALID ''cron must have 5 fields'')
     else if list_all (\<lambda>(f, bd). cron_field_ok f bd) (zip fields cron_bounds) then None
     else Some (E INVALID ''invalid cron field''))"

definition ValidateTimezone :: "env \<Rightarrow> string \<Rightarrow> goerror option" where
  "ValidateTimezone e name =
    (if TrimSpace name = [] then Some (E INVALID ''timezone required'')
     else if \<not> timezone_known e name then Some (E INVALID ''invalid timezone'')
     else None)"

definition validatePolicySchedule :: "env \<Rightarrow> string \<Rightarrow> string \<Rightarrow> goerror option" where
  "validatePolicySchedule e cronExpr timezone =
    (case ValidateCron cronExpr of Some err \<Rightarrow> Some err | None \<Rightarrow> ValidateTimezone e timezone)"

section \<open>Targets\<close>

definition maxMetadataIDLen :: nat where "maxMetadataIDLen = 128"
definition maxSnapshotIDLen :: nat where "maxSnapshotIDLen = 512"

definition requireOperationID :: "string \<Rightarrow> goerror option" where
  "requireOperationID operationID =
    (if TrimSpace operationID = [] then Some (E INVALID ''operation_id required'') else None)"

definition validMetadataString :: "string \<Rightarrow> nat \<Rightarrow> bool" where
  "validMetadataString v mx \<longleftrightarrow> TrimSpace v \<noteq> [] \<and> length v \<le> mx"

definition isAdmittedMember :: "State \<Rightarrow> string \<Rightarrow> bool" where
  "isAdmittedMember s nodeID =
    (case mget (Members s) nodeID of None \<Rightarrow> False | Some m \<Rightarrow> m_Status m = MemberAdmitted)"

definition validPolicySelector :: "Selector \<Rightarrow> bool" where
  "validPolicySelector sel \<longleftrightarrow> sel \<in> set [ALL_ADMITTED, AGENT_GROUP, EXPLICIT_NODES]"

text \<open>The loop stops at the first blank, padded or repeated identifier.\<close>

fun check_ids :: "string list \<Rightarrow> string list \<Rightarrow> goerror option" where
  "check_ids seen [] = None"
| "check_ids seen (i # ids) =
    (let trimmed = TrimSpace i in
     if trimmed = [] \<or> trimmed \<noteq> i then Some (E INVALID ''target id'')
     else if trimmed \<in> set seen then Some (E INVALID ''duplicate target'')
     else check_ids (trimmed # seen) ids)"

definition validateTargetIDs :: "Selector \<Rightarrow> string list \<Rightarrow> goerror option" where
  "validateTargetIDs selector ids =
    (if \<not> validPolicySelector selector then Some (E INVALID ''target selector'')
     else if (selector = AGENT_GROUP \<or> selector = EXPLICIT_NODES) \<and> length ids = 0
       then Some (E INVALID ''target ids required'')
     else check_ids [] ids)"

definition validateExplicitTargets :: "State \<Rightarrow> Selector \<Rightarrow> string list \<Rightarrow> goerror option" where
  "validateExplicitTargets s selector ids =
    (if selector \<noteq> EXPLICIT_NODES then None
     else if list_all (isAdmittedMember s) ids then None
     else Some (E INVALID ''target node not admitted''))"

definition validateAgentGroups :: "State \<Rightarrow> Selector \<Rightarrow> string list \<Rightarrow> goerror option" where
  "validateAgentGroups s selector ids =
    (if selector \<noteq> AGENT_GROUP then None
     else if list_all (mhas (AgentGroups s)) ids then None
     else Some (E INVALID ''agent group not found''))"

definition validUnavailablePolicy :: "string \<Rightarrow> bool" where
  "validUnavailablePolicy policy \<longleftrightarrow> policy = ''RECORD_AND_CONTINUE'' \<or> policy = ''FAIL_FAST''"

section \<open>Backup policies\<close>

definition zero_backup_policy :: BackupPolicy where
  "zero_backup_policy = \<lparr>bp_PolicyID = [], bp_Name = [], bp_Enabled = False, bp_ScheduleCron = [],
     bp_Timezone = [], bp_TargetSelector = NoSelector, bp_TargetIDs = [], bp_Sink = [],
     bp_DestinationProfile = [], bp_RetentionKeepLast = 0, bp_RetentionKeepDays = 0,
     bp_RetentionMaxBytes = 0, bp_TimeoutSeconds = 0, bp_MaxConcurrency = 0,
     bp_UnavailablePolicy = [], bp_Revision = 0\<rparr>"

definition applyBackupPolicyPut :: "env \<Rightarrow> BackupPolicyPutBody \<Rightarrow> State \<Rightarrow> goerror + State" where
  "applyBackupPolicyPut e b s =
    check (requireOperationID (bpp_OperationID b))
    (let name = TrimSpace (bpp_Name b) in
     if bpp_PolicyID b = [] \<or> name = [] then fail INVALID ''policy id and name required''
     else if mex (\<lambda>i policy. i \<noteq> bpp_PolicyID b \<and> bp_Name policy = name) (BackupPolicies s)
       then fail CONFLICT ''backup policy name already exists''
     else check (validatePolicySchedule e (bpp_ScheduleCron b) (bpp_Timezone b))
     (check (validateTargetIDs (bpp_TargetSelector b) (bpp_TargetIDs b))
     (check (validateExplicitTargets s (bpp_TargetSelector b) (bpp_TargetIDs b))
     (check (validateAgentGroups s (bpp_TargetSelector b) (bpp_TargetIDs b))
     (if bpp_Sink b \<noteq> ''fs'' \<and> bpp_Sink b \<noteq> ''s3'' then fail INVALID ''sink''
      else if bpp_Sink b = ''s3'' \<and> TrimSpace (bpp_DestinationProfile b) = []
        then fail INVALID ''destination profile required''
      else if bpp_RetentionKeepLast b < 0 \<or> bpp_RetentionKeepDays b < 0 \<or> bpp_RetentionMaxBytes b < 0
           \<or> bpp_TimeoutSeconds b < 0 \<or> bpp_MaxConcurrency b < 0
        then fail INVALID ''invalid retention or limits''
      else
       (let unavailablePolicy = (if bpp_UnavailablePolicy b = [] then ''RECORD_AND_CONTINUE''
                                 else bpp_UnavailablePolicy b) in
        if \<not> validUnavailablePolicy unavailablePolicy then fail INVALID ''unavailable policy''
        else
         (let cur = mget_or zero_backup_policy (BackupPolicies s) (bpp_PolicyID b);
              new = cur\<lparr>
                bp_PolicyID := bpp_PolicyID b, bp_Name := name, bp_Enabled := bpp_Enabled b,
                bp_ScheduleCron := TrimSpace (bpp_ScheduleCron b), bp_Timezone := TrimSpace (bpp_Timezone b),
                bp_TargetSelector := bpp_TargetSelector b, bp_TargetIDs := bpp_TargetIDs b,
                bp_Sink := bpp_Sink b, bp_DestinationProfile := TrimSpace (bpp_DestinationProfile b),
                bp_RetentionKeepLast := bpp_RetentionKeepLast b,
                bp_RetentionKeepDays := bpp_RetentionKeepDays b,
                bp_RetentionMaxBytes := bpp_RetentionMaxBytes b,
                bp_TimeoutSeconds := bpp_TimeoutSeconds b, bp_MaxConcurrency := bpp_MaxConcurrency b,
                bp_UnavailablePolicy := unavailablePolicy, bp_Revision := bp_Revision cur + 1\<rparr>
          in Inr (s\<lparr>BackupPolicies := mput (bpp_PolicyID b) new (BackupPolicies s)\<rparr>))))))))"

definition applyBackupPolicyDelete :: "BackupPolicyDeleteBody \<Rightarrow> State \<Rightarrow> goerror + State" where
  "applyBackupPolicyDelete b s =
    check (requireOperationID (bpd_OperationID b))
    (if \<not> mhas (BackupPolicies s) (bpd_PolicyID b) then fail NOT_FOUND ''backup policy not found''
     else Inr (s\<lparr>BackupPolicies := mdel (bpd_PolicyID b) (BackupPolicies s)\<rparr>))"

section \<open>Replication policies\<close>

definition admitted_ids :: "State \<Rightarrow> string list" where
  "admitted_ids s = map fst (filter (\<lambda>(i, m). m_Status m = MemberAdmitted) (Members s))"

definition group_members :: "State \<Rightarrow> string \<Rightarrow> string list" where
  "group_members s groupID = (case mget (AgentGroups s) groupID of Some g \<Rightarrow> g_MemberIDs g | None \<Rightarrow> [])"

text \<open>The keys of the \<^verbatim>\<open>seen\<close> (or \<^verbatim>\<open>allowed\<close>) map: the admitted members of the listed groups.\<close>

definition admitted_in_groups :: "State \<Rightarrow> string list \<Rightarrow> string list" where
  "admitted_in_groups s groupIDs =
     remdups (filter (isAdmittedMember s) (concat (map (group_members s) groupIDs)))"

definition ResolveReplicationSources :: "State \<Rightarrow> Selector \<Rightarrow> string list \<Rightarrow> goerror + string list" where
  "ResolveReplicationSources s selector selectorIDs =
    (if validateTargetIDs selector selectorIDs \<noteq> None then fail INVALID ''source ids''
     else if validateExplicitTargets s selector selectorIDs \<noteq> None then fail INVALID ''source node not admitted''
     else if validateAgentGroups s selector selectorIDs \<noteq> None then fail INVALID ''source agent group''
     else Inr (sort (case selector of
         ALL_ADMITTED \<Rightarrow> admitted_ids s
       | EXPLICIT_NODES \<Rightarrow> selectorIDs
       | AGENT_GROUP \<Rightarrow> admitted_in_groups s selectorIDs
       | _ \<Rightarrow> [])))"

definition computeCandidateCount :: "State \<Rightarrow> Selector \<Rightarrow> string list \<Rightarrow> int" where
  "computeCandidateCount s selector selectorIDs =
    (case selector of
       ALL_ADMITTED \<Rightarrow> int (length (admitted_ids s))
     | EXPLICIT_NODES \<Rightarrow> int (length selectorIDs)
     | AGENT_GROUP \<Rightarrow> int (length (admitted_in_groups s selectorIDs))
     | _ \<Rightarrow> 0)"

definition admittedMemberCount :: "State \<Rightarrow> int" where
  "admittedMemberCount s = int (length (admitted_ids s))"

fun check_route_targets :: "State \<Rightarrow> string \<Rightarrow> string list \<Rightarrow> string list \<Rightarrow> goerror option" where
  "check_route_targets s source seen [] = None"
| "check_route_targets s source seen (rawTarget # ts) =
    (let target = TrimSpace rawTarget in
     if target = [] \<or> target \<noteq> rawTarget then Some (E INVALID ''route target'')
     else if target = source then Some (E INVALID ''self replication'')
     else if target \<in> set seen then Some (E INVALID ''duplicate target'')
     else if \<not> isAdmittedMember s target then Some (E INVALID ''route target not admitted'')
     else check_route_targets s source (target # seen) ts)"

text \<open>\<open>Inr seen\<close> is the final \<^verbatim>\<open>seenSources\<close>.\<close>

fun check_routes :: "State \<Rightarrow> string list \<Rightarrow> ReplicationRoute list \<Rightarrow> goerror + string list" where
  "check_routes s seen [] = Inr seen"
| "check_routes s seen (route # routes) =
    (let source = TrimSpace (rr_SourceNodeID route) in
     if source = [] \<or> source \<noteq> rr_SourceNodeID route then fail INVALID ''route source''
     else if source \<in> set seen then fail INVALID ''duplicate route source''
     else if \<not> isAdmittedMember s source then fail INVALID ''route source not admitted''
     else check (check_route_targets s source [] (rr_TargetNodeIDs route))
            (check_routes s (source # seen) routes))"

definition zero_replication_policy :: ReplicationPolicy where
  "zero_replication_policy = \<lparr>rp_PolicyID = [], rp_Name = [], rp_Enabled = False,
     rp_SourceSelector = NoSelector, rp_SourceIDs = [], rp_ReplicaFactor = 0, rp_Routes = [],
     rp_Trigger = [], rp_PrimaryPolicyIDs = [], rp_ScheduleCron = [], rp_Timezone = [],
     rp_RetentionKeepLast = 0, rp_RetentionKeepDays = 0, rp_RetentionMaxBytes = 0,
     rp_MaxConcurrency = 0, rp_VerifyAfterCopy = False, rp_BandwidthLimit = 0,
     rp_TopologyConstraints = [], rp_Revision = 0, rp_ScheduleEpochUnix = 0,
     rp_RouteTopologyRevision = 0\<rparr>"

text \<open>The record written at the end of \<^verbatim>\<open>applyReplicationPolicyPut\<close>.\<close>

definition new_replication_policy ::
    "ReplicationPolicyPutBody \<Rightarrow> string \<Rightarrow> gtime \<Rightarrow> ReplicationPolicy \<Rightarrow> ReplicationPolicy" where
  "new_replication_policy b name now cur = cur\<lparr>
     rp_PolicyID := rpp_PolicyID b, rp_Name := name, rp_Enabled := rpp_Enabled b,
     rp_SourceSelector := rpp_SourceSelector b, rp_SourceIDs := rpp_SourceIDs b,
     rp_ReplicaFactor := rpp_ReplicaFactor b, rp_Routes := rpp_Routes b,
     rp_Trigger := [], rp_PrimaryPolicyIDs := [],
     rp_ScheduleCron := rpp_ScheduleCron b, rp_Timezone := rpp_Timezone b,
     rp_RetentionKeepLast := rpp_RetentionKeepLast b, rp_RetentionKeepDays := rpp_RetentionKeepDays b,
     rp_RetentionMaxBytes := rpp_RetentionMaxBytes b, rp_MaxConcurrency := rpp_MaxConcurrency b,
     rp_VerifyAfterCopy := rpp_VerifyAfterCopy b, rp_BandwidthLimit := rpp_BandwidthLimit b,
     rp_TopologyConstraints := rpp_TopologyConstraints b,
     rp_RouteTopologyRevision := rpp_RouteTopologyRevision b,
     rp_ScheduleEpochUnix := Unix now, rp_Revision := rp_Revision cur + 1\<rparr>"

definition applyReplicationPolicyPut ::
    "env \<Rightarrow> ReplicationPolicyPutBody \<Rightarrow> gtime \<Rightarrow> State \<Rightarrow> goerror + State" where
  "applyReplicationPolicyPut e b now s =
    check (requireOperationID (rpp_OperationID b))
    (let name = TrimSpace (rpp_Name b) in
     if rpp_PolicyID b = [] \<or> name = [] then fail INVALID ''policy id and name required''
     else if mex (\<lambda>i policy. i \<noteq> rpp_PolicyID b \<and> rp_Name policy = name) (ReplicationPolicies s)
       then fail CONFLICT ''replication policy name already exists''
     else case ResolveReplicationSources s (rpp_SourceSelector b) (rpp_SourceIDs b) of
       Inl err \<Rightarrow> Inl err
     | Inr sources \<Rightarrow>
       if rpp_ReplicaFactor b \<le> 0 then fail INVALID ''replica factor''
       else if rpp_RetentionKeepLast b < 0 \<or> rpp_RetentionKeepDays b < 0 \<or> rpp_RetentionMaxBytes b < 0
            \<or> rpp_MaxConcurrency b < 0 \<or> rpp_BandwidthLimit b < 0
         then fail INVALID ''invalid retention or limits''
       else check (if TrimSpace (rpp_ScheduleCron b) \<noteq> []
                   then validatePolicySchedule e (rpp_ScheduleCron b) (rpp_Timezone b) else None)
       (case check_routes s [] (rpp_Routes b) of
          Inl err \<Rightarrow> Inl err
        | Inr seenSources \<Rightarrow>
          if sort seenSources \<noteq> sources then fail INVALID ''route sources do not match selector''
          else
           (let found = mget (ReplicationPolicies s) (rpp_PolicyID b);
                cur = mget_or zero_replication_policy (ReplicationPolicies s) (rpp_PolicyID b) in
            if rpp_ExpectedRevision b \<ge> 0 \<and> found = None
              then fail CONFLICT ''policy not found for expected revision''
            else if rpp_ExpectedRevision b \<ge> 0 \<and> rp_Revision cur \<noteq> rpp_ExpectedRevision b
              then fail CONFLICT ''revision mismatch''
            else if length (rpp_Routes b) > 0
                 \<and> (admittedMemberCount s - 1 < 0 \<or> rpp_ReplicaFactor b > admittedMemberCount s - 1)
              then fail INVALID ''replica factor exceeds candidate count''
            else if length (rpp_Routes b) > 0
                 \<and> list_ex (\<lambda>route. int (length (rr_TargetNodeIDs route)) \<noteq> rpp_ReplicaFactor b) (rpp_Routes b)
              then fail INVALID ''route target count does not match replica factor''
            else Inr (s\<lparr>ReplicationPolicies := mput (rpp_PolicyID b)
                   (new_replication_policy b name now cur) (ReplicationPolicies s)\<rparr>))))"

definition applyReplicationPolicyDelete :: "ReplicationPolicyDeleteBody \<Rightarrow> State \<Rightarrow> goerror + State" where
  "applyReplicationPolicyDelete b s =
    check (requireOperationID (rpd_OperationID b))
    (if \<not> mhas (ReplicationPolicies s) (rpd_PolicyID b) then fail NOT_FOUND ''replication policy not found''
     else Inr (s\<lparr>ReplicationPolicies := mdel (rpd_PolicyID b) (ReplicationPolicies s)\<rparr>))"

section \<open>Delete intents\<close>

definition validDeleteIntentStatus :: "Status \<Rightarrow> bool" where
  "validDeleteIntentStatus st \<longleftrightarrow> st \<in> set [S_PENDING, S_SUCCEEDED, S_FAILED, S_EXPIRED]"

definition sameDeleteIntentIdentity :: "ReplicationDeleteIntent \<Rightarrow> ReplicationDeleteIntent \<Rightarrow> bool" where
  "sameDeleteIntentIdentity x y \<longleftrightarrow>
     di_IntentID x = di_IntentID y \<and> di_PolicyID x = di_PolicyID y
     \<and> di_PolicyRevision x = di_PolicyRevision y \<and> di_SourceNodeID x = di_SourceNodeID y
     \<and> di_TargetNodeID x = di_TargetNodeID y \<and> di_SnapshotID x = di_SnapshotID y"

definition applyReplicationDeleteIntentPut ::
    "ReplicationDeleteIntentPutBody \<Rightarrow> gtime \<Rightarrow> State \<Rightarrow> goerror + State" where
  "applyReplicationDeleteIntentPut b now s =
    check (requireOperationID (dip_OperationID b))
    (let intent = dip_Intent b in
     if \<not> validMetadataString (di_IntentID intent) maxMetadataIDLen
        \<or> \<not> validMetadataString (di_PolicyID intent) maxMetadataIDLen
        \<or> \<not> validMetadataString (di_SourceNodeID intent) maxMetadataIDLen
        \<or> \<not> validMetadataString (di_TargetNodeID intent) maxMetadataIDLen
        \<or> \<not> validMetadataString (di_SnapshotID intent) maxSnapshotIDLen
        \<or> di_PolicyRevision intent \<le> 0 \<or> di_LeaderTerm intent = 0
        \<or> \<not> validDeleteIntentStatus (di_Status intent)
       then fail INVALID ''invalid replication delete intent''
     else case mget (ReplicationDeleteIntents s) (di_IntentID intent) of
         Some current \<Rightarrow>
           if \<not> sameDeleteIntentIdentity current intent then fail CONFLICT ''delete intent identity mismatch''
           else if di_Status current = di_Status intent \<and> di_LeaderTerm current = di_LeaderTerm intent
                \<and> di_ExpiresUnix current = di_ExpiresUnix intent then Inr s
           else if di_Status current = S_PENDING
                \<and> (di_Status intent = S_SUCCEEDED \<or> di_Status intent = S_FAILED \<or> di_Status intent = S_EXPIRED)
             then Inr (s\<lparr>ReplicationDeleteIntents := mput (di_IntentID intent)
                    (current\<lparr>di_Status := di_Status intent\<rparr>) (ReplicationDeleteIntents s)\<rparr>)
           else if di_Status current = di_Status intent then Inr s
           else fail CONFLICT ''delete intent status conflict''
       | None \<Rightarrow>
           if di_Status intent \<noteq> S_PENDING then fail INVALID ''new delete intent must be PENDING''
           else if now = time_zero \<or> di_ExpiresUnix intent \<le> Unix now
                \<or> di_ExpiresUnix intent > Unix (now + 24 * 3600 * nanos)
             then fail INVALID ''invalid delete intent expiry''
           else Inr (s\<lparr>ReplicationDeleteIntents := mput (di_IntentID intent) intent
                  (ReplicationDeleteIntents s)\<rparr>))"

datatype PolicyCommand =
    CmdBackupPolicyPut BackupPolicyPutBody
  | CmdBackupPolicyDelete BackupPolicyDeleteBody
  | CmdReplicationPolicyPut ReplicationPolicyPutBody
  | CmdReplicationPolicyDelete ReplicationPolicyDeleteBody
  | CmdReplicationDeleteIntentPut ReplicationDeleteIntentPutBody

primrec apply_policy :: "env \<Rightarrow> gtime \<Rightarrow> PolicyCommand \<Rightarrow> State \<Rightarrow> goerror + State" where
  "apply_policy e now (CmdBackupPolicyPut b) = applyBackupPolicyPut e b"
| "apply_policy e now (CmdBackupPolicyDelete b) = applyBackupPolicyDelete b"
| "apply_policy e now (CmdReplicationPolicyPut b) = applyReplicationPolicyPut e b now"
| "apply_policy e now (CmdReplicationPolicyDelete b) = applyReplicationPolicyDelete b"
| "apply_policy e now (CmdReplicationDeleteIntentPut b) = applyReplicationDeleteIntentPut b now"

lemmas policy_defs [handler_defs] =
  applyBackupPolicyPut_def applyBackupPolicyDelete_def applyReplicationPolicyPut_def
  applyReplicationPolicyDelete_def applyReplicationDeleteIntentPut_def

section \<open>What the commands change\<close>

lemma policy_footprint [footprint]:
  assumes "apply_policy e now c s = Inr s'"
  shows "\<exists>bp rp di. s' = s\<lparr>BackupPolicies := bp, ReplicationPolicies := rp, ReplicationDeleteIntents := di\<rparr>"
proof -
  have "s' = s\<lparr>BackupPolicies := BackupPolicies s', ReplicationPolicies := ReplicationPolicies s',
     ReplicationDeleteIntents := ReplicationDeleteIntents s'\<rparr>"
    using assms by (cases c) (auto simp: policy_defs Let_def)
  then show ?thesis by blast
qed

section \<open>What the checks establish\<close>

lemma check_ids_None:
  assumes "check_ids seen ids = None"
  shows "distinct ids \<and> set ids \<inter> set seen = {} \<and> [] \<notin> set ids"
  using assms
proof (induction seen ids rule: check_ids.induct)
  case (2 seen i ids)
  from "2.prems" have "TrimSpace i \<noteq> []" "TrimSpace i = i" "i \<notin> set seen" "check_ids (i # seen) ids = None"
    by (auto simp: Let_def split: if_splits)
  with "2.IH" [OF refl] show ?case by (auto simp: Let_def)
qed simp

lemma validateTargetIDs_None:
  assumes "validateTargetIDs selector ids = None"
  shows "validPolicySelector selector \<and> distinct ids \<and> [] \<notin> set ids
    \<and> (selector \<noteq> ALL_ADMITTED \<longrightarrow> ids \<noteq> [])"
  using assms check_ids_None
  by (auto simp: validateTargetIDs_def validPolicySelector_def split: if_splits)

text \<open>A route whose source and targets are admitted, without itself or a repeated target.\<close>

definition route_ok :: "State \<Rightarrow> ReplicationRoute \<Rightarrow> bool" where
  "route_ok s r \<longleftrightarrow> isAdmittedMember s (rr_SourceNodeID r) \<and> distinct (rr_TargetNodeIDs r)
     \<and> rr_SourceNodeID r \<notin> set (rr_TargetNodeIDs r) \<and> list_all (isAdmittedMember s) (rr_TargetNodeIDs r)"

lemma check_route_targets_None:
  assumes "check_route_targets s source seen ts = None"
  shows "distinct ts \<and> set ts \<inter> set seen = {} \<and> source \<notin> set ts \<and> list_all (isAdmittedMember s) ts"
  using assms
proof (induction s source seen ts rule: check_route_targets.induct)
  case (2 s source seen t ts)
  from "2.prems" have "TrimSpace t = t" "t \<noteq> source" "t \<notin> set seen" "isAdmittedMember s t"
    "check_route_targets s source (t # seen) ts = None"
    by (auto simp: Let_def split: if_splits)
  with "2.IH" [OF refl] "2.prems" show ?case by (auto simp: Let_def split: if_splits)
qed simp

lemma check_routes_Inr:
  assumes "check_routes s seen routes = Inr seen'"
  shows "seen' = rev (map rr_SourceNodeID routes) @ seen \<and> list_all (route_ok s) routes
    \<and> (distinct seen \<longrightarrow> distinct seen')"
  using assms
proof (induction s seen routes rule: check_routes.induct)
  case (2 s seen r routes)
  define k where "k = rr_SourceNodeID r"
  from "2.prems" have k: "TrimSpace k = k" "k \<noteq> []" "k \<notin> set seen" "isAdmittedMember s k"
    "check_route_targets s k [] (rr_TargetNodeIDs r) = None" and rest: "check_routes s (k # seen) routes = Inr seen'"
    by (auto simp: Let_def k_def)
  from k(5) check_route_targets_None have "route_ok s r"
    using k(4) by (fastforce simp: route_ok_def k_def)
  moreover have "seen' = rev (map rr_SourceNodeID routes) @ (k # seen) \<and> list_all (route_ok s) routes
    \<and> (distinct (k # seen) \<longrightarrow> distinct seen')"
    using "2.IH" [of k] k rest unfolding k_def by (metis check_None distinct.simps(2))
  ultimately show ?case using k(3) by (auto simp: k_def) blast
qed simp

lemma ResolveReplicationSources_Inr:
  assumes "ResolveReplicationSources s selector ids = Inr sources"
  shows "sources = sort (case selector of ALL_ADMITTED \<Rightarrow> admitted_ids s | EXPLICIT_NODES \<Rightarrow> ids
      | AGENT_GROUP \<Rightarrow> admitted_in_groups s ids | _ \<Rightarrow> [])"
    and "validPolicySelector selector" and "distinct ids"
  using assms validateTargetIDs_None by (auto simp: ResolveReplicationSources_def)

section \<open>The invariant of the component\<close>

definition backup_policy_ok :: "string \<Rightarrow> BackupPolicy \<Rightarrow> bool" where
  "backup_policy_ok k p \<longleftrightarrow> bp_PolicyID p = k \<and> bp_Revision p \<ge> 1 \<and> distinct (bp_TargetIDs p)
     \<and> validPolicySelector (bp_TargetSelector p) \<and> validUnavailablePolicy (bp_UnavailablePolicy p)
     \<and> (bp_Sink p = ''fs'' \<or> bp_Sink p = ''s3'' \<and> bp_DestinationProfile p \<noteq> [])
     \<and> 0 \<le> bp_RetentionKeepLast p \<and> 0 \<le> bp_RetentionKeepDays p \<and> 0 \<le> bp_RetentionMaxBytes p
     \<and> 0 \<le> bp_TimeoutSeconds p \<and> 0 \<le> bp_MaxConcurrency p"

definition routes_exact :: "int \<Rightarrow> ReplicationRoute list \<Rightarrow> bool" where
  "routes_exact factor routes \<longleftrightarrow> distinct (map rr_SourceNodeID routes)
     \<and> list_all (\<lambda>r. int (length (rr_TargetNodeIDs r)) = factor \<and> distinct (rr_TargetNodeIDs r)
         \<and> rr_SourceNodeID r \<notin> set (rr_TargetNodeIDs r)) routes"

definition replication_policy_ok :: "string \<Rightarrow> ReplicationPolicy \<Rightarrow> bool" where
  "replication_policy_ok k p \<longleftrightarrow> rp_PolicyID p = k \<and> rp_Revision p \<ge> 1 \<and> rp_ReplicaFactor p > 0
     \<and> routes_exact (rp_ReplicaFactor p) (rp_Routes p) \<and> 0 \<le> rp_MaxConcurrency p \<and> 0 \<le> rp_BandwidthLimit p"

definition policies_ok :: "State \<Rightarrow> bool" where
  "policies_ok s \<longleftrightarrow> unique_by bp_Name (BackupPolicies s) \<and> mall backup_policy_ok (BackupPolicies s)
     \<and> unique_by rp_Name (ReplicationPolicies s) \<and> mall replication_policy_ok (ReplicationPolicies s)"

lemma policies_frame:
  "BackupPolicies s' = BackupPolicies s \<Longrightarrow> ReplicationPolicies s' = ReplicationPolicies s \<Longrightarrow> policies_ok s \<Longrightarrow> policies_ok s'"
  by (simp add: policies_ok_def)

lemma backup_put_result:
  assumes "applyBackupPolicyPut e b s = Inr s'"
  obtains p where "BackupPolicies s' = mput (bpp_PolicyID b) p (BackupPolicies s)"
    and "ReplicationPolicies s' = ReplicationPolicies s"
    and "bp_PolicyID p = bpp_PolicyID b" and "bp_Name p = TrimSpace (bpp_Name b)"
    and "bp_Revision p = bp_Revision (mget_or zero_backup_policy (BackupPolicies s) (bpp_PolicyID b)) + 1"
    and "bp_Revision p \<ge> 1 \<Longrightarrow> backup_policy_ok (bpp_PolicyID b) p"
    and "\<not> mex (\<lambda>i policy. i \<noteq> bpp_PolicyID b \<and> bp_Name policy = TrimSpace (bpp_Name b)) (BackupPolicies s)"
proof -
  define cur where "cur = mget_or zero_backup_policy (BackupPolicies s) (bpp_PolicyID b)"
  define up where "up = (if bpp_UnavailablePolicy b = [] then ''RECORD_AND_CONTINUE'' else bpp_UnavailablePolicy b)"
  define p where "p = cur\<lparr>
                bp_PolicyID := bpp_PolicyID b, bp_Name := TrimSpace (bpp_Name b), bp_Enabled := bpp_Enabled b,
                bp_ScheduleCron := TrimSpace (bpp_ScheduleCron b), bp_Timezone := TrimSpace (bpp_Timezone b),
                bp_TargetSelector := bpp_TargetSelector b, bp_TargetIDs := bpp_TargetIDs b,
                bp_Sink := bpp_Sink b, bp_DestinationProfile := TrimSpace (bpp_DestinationProfile b),
                bp_RetentionKeepLast := bpp_RetentionKeepLast b,
                bp_RetentionKeepDays := bpp_RetentionKeepDays b,
                bp_RetentionMaxBytes := bpp_RetentionMaxBytes b,
                bp_TimeoutSeconds := bpp_TimeoutSeconds b, bp_MaxConcurrency := bpp_MaxConcurrency b,
                bp_UnavailablePolicy := up, bp_Revision := bp_Revision cur + 1\<rparr>"
  from assms have h: "s' = s\<lparr>BackupPolicies := mput (bpp_PolicyID b) p (BackupPolicies s)\<rparr>"
    "validateTargetIDs (bpp_TargetSelector b) (bpp_TargetIDs b) = None"
    "\<not> mex (\<lambda>i policy. i \<noteq> bpp_PolicyID b \<and> bp_Name policy = TrimSpace (bpp_Name b)) (BackupPolicies s)"
    "validUnavailablePolicy up" "bpp_Sink b = ''fs'' \<or> bpp_Sink b = ''s3'' \<and> TrimSpace (bpp_DestinationProfile b) \<noteq> []"
    "0 \<le> bpp_RetentionKeepLast b" "0 \<le> bpp_RetentionKeepDays b" "0 \<le> bpp_RetentionMaxBytes b"
    "0 \<le> bpp_TimeoutSeconds b" "0 \<le> bpp_MaxConcurrency b"
    by (simp_all add: applyBackupPolicyPut_def Let_def p_def up_def cur_def) blast+
  from validateTargetIDs_None [OF h(2)] h(4-) have "bp_Revision p \<ge> 1 \<Longrightarrow> backup_policy_ok (bpp_PolicyID b) p"
    by (auto simp: backup_policy_ok_def p_def)
  with h that [of p] show ?thesis by (simp add: p_def cur_def)
qed


lemma replication_put_result:
  assumes "applyReplicationPolicyPut e b now s = Inr s'"
  obtains sources cur where
    "ResolveReplicationSources s (rpp_SourceSelector b) (rpp_SourceIDs b) = Inr sources"
    and "cur = mget_or zero_replication_policy (ReplicationPolicies s) (rpp_PolicyID b)"
    and "s' = s\<lparr>ReplicationPolicies := mput (rpp_PolicyID b)
          (new_replication_policy b (TrimSpace (rpp_Name b)) now cur) (ReplicationPolicies s)\<rparr>"
    and "sort (map rr_SourceNodeID (rpp_Routes b)) = sources"
    and "distinct (map rr_SourceNodeID (rpp_Routes b))" and "list_all (route_ok s) (rpp_Routes b)"
    and "0 < rpp_ReplicaFactor b"
    and "list_all (\<lambda>r. int (length (rr_TargetNodeIDs r)) = rpp_ReplicaFactor b) (rpp_Routes b)"
    and "rpp_ExpectedRevision b \<ge> 0 \<Longrightarrow> mget (ReplicationPolicies s) (rpp_PolicyID b) = Some cur
           \<and> rp_Revision cur = rpp_ExpectedRevision b"
    and "\<not> mex (\<lambda>i policy. i \<noteq> rpp_PolicyID b \<and> rp_Name policy = TrimSpace (rpp_Name b)) (ReplicationPolicies s)"
    and "0 \<le> rpp_MaxConcurrency b" and "0 \<le> rpp_BandwidthLimit b"
proof -
  define cur where "cur = mget_or zero_replication_policy (ReplicationPolicies s) (rpp_PolicyID b)"
  define name where "name = TrimSpace (rpp_Name b)"
  from assms obtain sources seen where
    h: "ResolveReplicationSources s (rpp_SourceSelector b) (rpp_SourceIDs b) = Inr sources"
    "check_routes s [] (rpp_Routes b) = Inr seen" "sort seen = sources"
    "s' = s\<lparr>ReplicationPolicies := mput (rpp_PolicyID b) (new_replication_policy b name now cur) (ReplicationPolicies s)\<rparr>"
    "0 < rpp_ReplicaFactor b"
    "rpp_Routes b = [] \<or> \<not> list_ex (\<lambda>route. int (length (rr_TargetNodeIDs route)) \<noteq> rpp_ReplicaFactor b) (rpp_Routes b)"
    "rpp_ExpectedRevision b \<ge> 0 \<longrightarrow> mget (ReplicationPolicies s) (rpp_PolicyID b) \<noteq> None \<and> rp_Revision cur = rpp_ExpectedRevision b"
    "\<not> mex (\<lambda>i policy. i \<noteq> rpp_PolicyID b \<and> rp_Name policy = name) (ReplicationPolicies s)"
    "0 \<le> rpp_MaxConcurrency b" "0 \<le> rpp_BandwidthLimit b"
    by (auto simp: applyReplicationPolicyPut_def Let_def simp flip: cur_def name_def)
  from check_routes_Inr [OF h(2)] have seen: "seen = rev (map rr_SourceNodeID (rpp_Routes b))"
    "list_all (route_ok s) (rpp_Routes b)" "distinct seen" by auto
  have "mset seen = mset (map rr_SourceNodeID (rpp_Routes b))" by (simp add: seen(1))
  then have "sort (map rr_SourceNodeID (rpp_Routes b)) = sources"
    unfolding h(3) [symmetric] by (simp add: sort_eq_iff_mset)
  moreover have "distinct (map rr_SourceNodeID (rpp_Routes b))"
    using seen(3) unfolding seen(1) distinct_rev .
  moreover have "list_all (\<lambda>r. int (length (rr_TargetNodeIDs r)) = rpp_ReplicaFactor b) (rpp_Routes b)"
    using h(6) by (auto simp: list_all_iff list_ex_iff)
  moreover have "rpp_ExpectedRevision b \<ge> 0 \<Longrightarrow> mget (ReplicationPolicies s) (rpp_PolicyID b) = Some cur
           \<and> rp_Revision cur = rpp_ExpectedRevision b"
    using h(7) by (auto simp: cur_def mget_or_def split: option.splits)
  ultimately show ?thesis
    using that [of sources cur] h seen(2) cur_def unfolding name_def by blast
qed

lemma policy_ok_step [preserved]:
  assumes "apply_policy e now c s = Inr s'" and "policies_ok s"
  shows "policies_ok s'"
proof (cases c)
  case (CmdBackupPolicyPut b)
  with assms(1) have "applyBackupPolicyPut e b s = Inr s'" by simp
  then show ?thesis
  proof (rule backup_put_result)
    fix p
    assume p: "BackupPolicies s' = mput (bpp_PolicyID b) p (BackupPolicies s)"
      "ReplicationPolicies s' = ReplicationPolicies s" "bp_Name p = TrimSpace (bpp_Name b)"
      "bp_Revision p = bp_Revision (mget_or zero_backup_policy (BackupPolicies s) (bpp_PolicyID b)) + 1"
      "bp_Revision p \<ge> 1 \<Longrightarrow> backup_policy_ok (bpp_PolicyID b) p"
      and free: "\<not> mex (\<lambda>i policy. i \<noteq> bpp_PolicyID b \<and> bp_Name policy = TrimSpace (bpp_Name b)) (BackupPolicies s)"
    have ok: "mall backup_policy_ok (BackupPolicies s)" "unique_by bp_Name (BackupPolicies s)"
      using assms(2) by (simp_all add: policies_ok_def)
    have "bp_Revision p \<ge> 1"
      using mallD [OF ok(1)] p(4)
      by (cases "mget (BackupPolicies s) (bpp_PolicyID b)")
        (force simp: mget_or_def zero_backup_policy_def backup_policy_ok_def)+
    then have "mall backup_policy_ok (BackupPolicies s')"
      unfolding p(1) by (intro mall_mput ok p(5))
    moreover have "unique_by bp_Name (BackupPolicies s')"
      unfolding p(1) by (rule unique_by_mput [OF ok(2)]) (use not_mexD [OF free] p(3) in fastforce)
    ultimately show ?thesis using assms(2) p(2) by (simp add: policies_ok_def)
  qed
next
  case (CmdReplicationPolicyPut b)
  with assms(1) have "applyReplicationPolicyPut e b now s = Inr s'" by simp
  then show ?thesis
  proof (rule replication_put_result)
    fix cur
    define p where "p = new_replication_policy b (TrimSpace (rpp_Name b)) now cur"
    assume cur: "cur = mget_or zero_replication_policy (ReplicationPolicies s) (rpp_PolicyID b)"
      and s': "s' = s\<lparr>ReplicationPolicies := mput (rpp_PolicyID b)
          (new_replication_policy b (TrimSpace (rpp_Name b)) now cur) (ReplicationPolicies s)\<rparr>"
      and r: "distinct (map rr_SourceNodeID (rpp_Routes b))" "list_all (route_ok s) (rpp_Routes b)"
        "0 < rpp_ReplicaFactor b"
        "list_all (\<lambda>r. int (length (rr_TargetNodeIDs r)) = rpp_ReplicaFactor b) (rpp_Routes b)"
        "0 \<le> rpp_MaxConcurrency b" "0 \<le> rpp_BandwidthLimit b"
      and free: "\<not> mex (\<lambda>i policy. i \<noteq> rpp_PolicyID b \<and> rp_Name policy = TrimSpace (rpp_Name b)) (ReplicationPolicies s)"
    have ok: "mall replication_policy_ok (ReplicationPolicies s)" "unique_by rp_Name (ReplicationPolicies s)"
      using assms(2) by (simp_all add: policies_ok_def)
    have "rp_Revision cur \<ge> 0"
      using mallD [OF ok(1)] cur
      by (cases "mget (ReplicationPolicies s) (rpp_PolicyID b)")
        (force simp: mget_or_def zero_replication_policy_def replication_policy_ok_def)+
    then have "replication_policy_ok (rpp_PolicyID b) p"
      using r by (simp add: replication_policy_ok_def p_def new_replication_policy_def routes_exact_def
          list_all_iff route_ok_def)
    then have "mall replication_policy_ok (ReplicationPolicies s')"
      unfolding s' p_def [symmetric] by (simp add: mall_mput ok)
    moreover have "ReplicationPolicies s' = mput (rpp_PolicyID b) p (ReplicationPolicies s)"
      by (simp add: s' p_def)
    then have "unique_by rp_Name (ReplicationPolicies s')"
      by (simp only:) (rule unique_by_mput [OF ok(2)], use not_mexD [OF free] in \<open>fastforce simp: p_def new_replication_policy_def\<close>)
    ultimately show ?thesis using assms(2) by (simp add: policies_ok_def s')
  qed
next
  case (CmdBackupPolicyDelete b)
  with assms show ?thesis
    by (auto simp: applyBackupPolicyDelete_def policies_ok_def unique_by_mdel mall_mdel)
next
  case (CmdReplicationPolicyDelete b)
  with assms show ?thesis
    by (auto simp: applyReplicationPolicyDelete_def policies_ok_def unique_by_mdel mall_mdel)
next
  case (CmdReplicationDeleteIntentPut b)
  with assms(1) have "BackupPolicies s' = BackupPolicies s" "ReplicationPolicies s' = ReplicationPolicies s"
    by (auto simp: applyReplicationDeleteIntentPut_def Let_def)
  with assms(2) policies_frame show ?thesis by blast
qed


section \<open>Delete intents\<close>

text \<open>The life of an intent: it is created PENDING, may end once, and keeps everything else.\<close>

definition intent_le :: "(string, ReplicationDeleteIntent) gomap \<Rightarrow> (string, ReplicationDeleteIntent) gomap \<Rightarrow> bool" where
  "intent_le m m' \<longleftrightarrow> (\<forall>k d. mget m k = Some d \<longrightarrow>
     (\<exists>st. mget m' k = Some (d\<lparr>di_Status := st\<rparr>) \<and> (di_Status d \<noteq> S_PENDING \<longrightarrow> st = di_Status d)))"

lemma intent_le_refl [simp]: "intent_le m m"
  unfolding intent_le_def by (metis ReplicationDeleteIntent.surjective ReplicationDeleteIntent.update_convs(9))

lemma intent_le_trans:
  assumes "intent_le a b" and "intent_le b c"
  shows "intent_le a c"
  unfolding intent_le_def
proof (intro allI impI)
  fix k d assume "mget a k = Some d"
  with assms(1) obtain st where st: "mget b k = Some (d\<lparr>di_Status := st\<rparr>)" "di_Status d \<noteq> S_PENDING \<longrightarrow> st = di_Status d"
    unfolding intent_le_def by blast
  with assms(2) obtain st' where "mget c k = Some (d\<lparr>di_Status := st\<rparr>\<lparr>di_Status := st'\<rparr>)"
    "st \<noteq> S_PENDING \<longrightarrow> st' = st"
    unfolding intent_le_def by force
  with st(2) show "\<exists>st. mget c k = Some (d\<lparr>di_Status := st\<rparr>) \<and> (di_Status d \<noteq> S_PENDING \<longrightarrow> st = di_Status d)"
    by (intro exI [of _ st']) auto
qed

lemma intent_unchanged [simp]: "d\<lparr>di_Status := di_Status d\<rparr> = d"
  by (cases d) simp

lemma intent_le_mput:
  assumes "\<And>d. mget m k = Some d \<Longrightarrow> \<exists>st. e = d\<lparr>di_Status := st\<rparr> \<and> (di_Status d \<noteq> S_PENDING \<longrightarrow> st = di_Status d)"
  shows "intent_le m (mput k e m)"
  unfolding intent_le_def
proof (intro allI impI)
  fix a d assume a: "mget m a = Some d"
  show "\<exists>st. mget (mput k e m) a = Some (d\<lparr>di_Status := st\<rparr>) \<and> (di_Status d \<noteq> S_PENDING \<longrightarrow> st = di_Status d)"
  proof (cases "a = k")
    case True
    with assms a show ?thesis by auto
  next
    case False
    with a show ?thesis by (intro exI [of _ "di_Status d"]) simp
  qed
qed

lemma intent_put_le:
  assumes "applyReplicationDeleteIntentPut b now s = Inr s'"
  shows "intent_le (ReplicationDeleteIntents s) (ReplicationDeleteIntents s')"
proof -
  define i where "i = dip_Intent b"
  define m where "m = ReplicationDeleteIntents s"
  show ?thesis
  proof (cases "mget m (di_IntentID i)")
    case None
    with assms have "ReplicationDeleteIntents s' = mput (di_IntentID i) i m"
      by (auto simp: applyReplicationDeleteIntentPut_def Let_def i_def m_def)
    with None show ?thesis unfolding m_def [symmetric] by (auto intro!: intent_le_mput)
  next
    case (Some d)
    with assms have "s' = s \<or> (di_Status d = S_PENDING
        \<and> ReplicationDeleteIntents s' = mput (di_IntentID i) (d\<lparr>di_Status := di_Status i\<rparr>) m)"
      by (simp add: applyReplicationDeleteIntentPut_def Let_def i_def m_def) (elim disjE conjE; clarsimp)
    then show ?thesis
    proof (elim disjE conjE)
      assume "di_Status d = S_PENDING"
        and "ReplicationDeleteIntents s' = mput (di_IntentID i) (d\<lparr>di_Status := di_Status i\<rparr>) m"
      with Some show ?thesis unfolding m_def [symmetric] by (auto intro!: intent_le_mput)
    qed simp
  qed
qed

lemma policy_intents_le:
  assumes "apply_policy e now c s = Inr s'"
  shows "intent_le (ReplicationDeleteIntents s) (ReplicationDeleteIntents s')"
proof (cases c)
  case (CmdBackupPolicyPut b)
  with assms have "applyBackupPolicyPut e b s = Inr s'" by simp
  then have "ReplicationDeleteIntents s' = ReplicationDeleteIntents s"
    by (auto simp: applyBackupPolicyPut_def Let_def)
  then show ?thesis by simp
next
  case (CmdReplicationPolicyPut b)
  with assms have "applyReplicationPolicyPut e b now s = Inr s'" by simp
  then have "ReplicationDeleteIntents s' = ReplicationDeleteIntents s"
    by (rule replication_put_result) simp
  then show ?thesis by simp
next
  case (CmdReplicationDeleteIntentPut b)
  with assms intent_put_le show ?thesis by simp
qed (use assms in \<open>auto simp: applyBackupPolicyDelete_def applyReplicationPolicyDelete_def\<close>)

section \<open>Properties\<close>

text \<open>
  An accepted replication policy is exact. After a successful replication_policy_put the stored
  routes have one route per source the selector resolves to, each from an admitted node to as many
  distinct admitted nodes as the replica factor, never to itself; the revision goes up by one and no
  other policy changes.
\<close>

theorem replication_put_exact:
  assumes "applyReplicationPolicyPut e b now s = Inr s'"
  shows "\<exists>p. mget (ReplicationPolicies s') (rpp_PolicyID b) = Some p
    \<and> list_all (route_ok s) (rp_Routes p) \<and> routes_exact (rp_ReplicaFactor p) (rp_Routes p)
    \<and> ResolveReplicationSources s (rp_SourceSelector p) (rp_SourceIDs p) = Inr (sort (map rr_SourceNodeID (rp_Routes p)))
    \<and> rp_Revision p = (case mget (ReplicationPolicies s) (rpp_PolicyID b) of Some q \<Rightarrow> rp_Revision q + 1 | None \<Rightarrow> 1)
    \<and> (\<forall>k. k \<noteq> rpp_PolicyID b \<longrightarrow> mget (ReplicationPolicies s') k = mget (ReplicationPolicies s) k)"
  using assms
proof (rule replication_put_result)
  fix sources cur
  define p where "p = new_replication_policy b (TrimSpace (rpp_Name b)) now cur"
  assume h: "ResolveReplicationSources s (rpp_SourceSelector b) (rpp_SourceIDs b) = Inr sources"
    "cur = mget_or zero_replication_policy (ReplicationPolicies s) (rpp_PolicyID b)"
    "s' = s\<lparr>ReplicationPolicies := mput (rpp_PolicyID b)
          (new_replication_policy b (TrimSpace (rpp_Name b)) now cur) (ReplicationPolicies s)\<rparr>"
    "sort (map rr_SourceNodeID (rpp_Routes b)) = sources"
    "distinct (map rr_SourceNodeID (rpp_Routes b))" "list_all (route_ok s) (rpp_Routes b)"
    "list_all (\<lambda>r. int (length (rr_TargetNodeIDs r)) = rpp_ReplicaFactor b) (rpp_Routes b)"
  show ?thesis
  proof (intro exI [of _ p] conjI)
    show "mget (ReplicationPolicies s') (rpp_PolicyID b) = Some p" by (simp add: h(3) p_def)
    show "routes_exact (rp_ReplicaFactor p) (rp_Routes p)"
      using h(5-7) by (simp add: routes_exact_def p_def new_replication_policy_def list_all_iff route_ok_def)
    show "rp_Revision p = (case mget (ReplicationPolicies s) (rpp_PolicyID b) of Some q \<Rightarrow> rp_Revision q + 1 | None \<Rightarrow> 1)"
      by (simp add: p_def new_replication_policy_def h(2) mget_or_def zero_replication_policy_def split: option.split)
  qed (use h in \<open>simp_all add: p_def new_replication_policy_def\<close>)
qed

definition three_nodes :: State where
  "three_nodes = zero_state\<lparr>Members := map (\<lambda>n. (n, \<lparr>m_NodeID = n, m_RaftAddr = [], m_CertSerial = ''A'',
     m_Status = MemberAdmitted\<rparr>)) [''a'', ''b'', ''c'']\<rparr>"

definition ring_policy :: ReplicationPolicyPutBody where
  "ring_policy = \<lparr>rpp_OperationID = ''op'', rpp_PolicyID = ''p1'', rpp_Name = ''ring'', rpp_Enabled = True,
     rpp_SourceSelector = ALL_ADMITTED, rpp_SourceIDs = [], rpp_ReplicaFactor = 1,
     rpp_Routes = [\<lparr>rr_SourceNodeID = ''b'', rr_TargetNodeIDs = [''c'']\<rparr>,
       \<lparr>rr_SourceNodeID = ''a'', rr_TargetNodeIDs = [''b'']\<rparr>, \<lparr>rr_SourceNodeID = ''c'', rr_TargetNodeIDs = [''a'']\<rparr>],
     rpp_Trigger = [], rpp_PrimaryPolicyIDs = [], rpp_ScheduleCron = [], rpp_Timezone = ''UTC'',
     rpp_RetentionKeepLast = 0, rpp_RetentionKeepDays = 0, rpp_RetentionMaxBytes = 0,
     rpp_MaxConcurrency = 0, rpp_VerifyAfterCopy = False, rpp_BandwidthLimit = 0,
     rpp_TopologyConstraints = [], rpp_RouteTopologyRevision = 0, rpp_ExpectedRevision = -1\<rparr>"

definition quiet_env :: env where
  "quiet_env = \<lparr>sha256_hex = (\<lambda>x. x), new_uuid = Inr ''id'', json_object = (\<lambda>_. True), timezone_known = (\<lambda>_. True)\<rparr>"

lemma trims: "TrimSpace ''op'' = ''op''" "TrimSpace ''ring'' = ''ring''" "TrimSpace ''a'' = ''a''"
    "TrimSpace ''b'' = ''b''" "TrimSpace ''c'' = ''c''"
  by (simp_all add: TrimSpace_graphic)

lemma ring_sources: "sort [''b'', ''a'', ''c''] = sort [''c'', ''a'', ''b'']" "sort [''a'', ''b'', ''c''] = sort [''c'', ''a'', ''b'']"
  by (simp_all only: sort_eq_iff_mset) (simp_all add: add_mset_commute)

lemma ring_accepted:
  assumes "Members s = Members three_nodes" and "ReplicationPolicies s = [] \<or> (\<exists>p. ReplicationPolicies s = [(''p1'', p)])"
    and "rpp_ExpectedRevision b < 0 \<or> (\<exists>p. ReplicationPolicies s = [(''p1'', p)] \<and> rp_Revision p = rpp_ExpectedRevision b)"
    and "b = ring_policy\<lparr>rpp_ExpectedRevision := rpp_ExpectedRevision b\<rparr>"
  shows "\<exists>s'. applyReplicationPolicyPut quiet_env b now s = Inr s'"
proof -
  have adm: "isAdmittedMember s n \<longleftrightarrow> n \<in> {''a'', ''b'', ''c''}" for n
    by (simp add: isAdmittedMember_def assms(1) three_nodes_def)
  have ids: "admitted_ids s = [''a'', ''b'', ''c'']" by (simp add: admitted_ids_def assms(1) three_nodes_def)
  have src: "ResolveReplicationSources s ALL_ADMITTED [] = Inr (sort [''a'', ''b'', ''c''])"
    by (simp add: ResolveReplicationSources_def validateTargetIDs_def validPolicySelector_def
        validateExplicitTargets_def validateAgentGroups_def ids)
  have rts: "check_routes s [] (rpp_Routes ring_policy) = Inr [''c'', ''a'', ''b'']"
    by (simp add: ring_policy_def trims adm Let_def)
  obtain x where b: "b = ring_policy\<lparr>rpp_ExpectedRevision := x\<rparr>" using assms(4) by blast
  show ?thesis
    using assms(2,3) src rts ids unfolding b
    by (auto simp: applyReplicationPolicyPut_def ring_policy_def Let_def requireOperationID_def trims
        ring_sources admittedMemberCount_def mex_def mget_or_def)
qed

lemma ring_result: "\<exists>s'. applyReplicationPolicyPut quiet_env ring_policy 0 three_nodes = Inr s'"
  by (rule ring_accepted) (simp_all add: three_nodes_def zero_state_def ring_policy_def)

theorem replication_put_exact_witness:
  "\<exists>s' p. applyReplicationPolicyPut quiet_env ring_policy 0 three_nodes = Inr s'
     \<and> mget (ReplicationPolicies s') ''p1'' = Some p \<and> routes_exact (rp_ReplicaFactor p) (rp_Routes p)"
proof -
  obtain s' where s': "applyReplicationPolicyPut quiet_env ring_policy 0 three_nodes = Inr s'"
    using ring_result by blast
  from replication_put_exact [OF s'] s' show ?thesis by (auto simp: ring_policy_def)
qed

text \<open>
  Optimistic concurrency of replication policies. Of two replication_policy_put requests that
  expect the same revision of one policy, at most one succeeds: after the first, the second fails,
  whatever else it contains.
\<close>

theorem replication_put_once:
  assumes "applyReplicationPolicyPut e b now s = Inr s'" and "0 \<le> rpp_ExpectedRevision b"
    and "rpp_PolicyID b2 = rpp_PolicyID b" and "rpp_ExpectedRevision b2 = rpp_ExpectedRevision b"
  shows "\<exists>err. applyReplicationPolicyPut e2 b2 now2 s' = Inl err"
proof -
  from assms(1) obtain cur where cur: "rp_Revision cur = rpp_ExpectedRevision b"
    and s': "s' = s\<lparr>ReplicationPolicies := mput (rpp_PolicyID b)
          (new_replication_policy b (TrimSpace (rpp_Name b)) now cur) (ReplicationPolicies s)\<rparr>"
    by (rule replication_put_result) (use assms(2) in blast)
  show ?thesis
  proof (cases "applyReplicationPolicyPut e2 b2 now2 s'")
    case (Inr s2)
    then obtain cur2 where "mget (ReplicationPolicies s') (rpp_PolicyID b2) = Some cur2"
      and "rp_Revision cur2 = rpp_ExpectedRevision b2"
      by (rule replication_put_result) (use assms(2,4) in auto)
    then have "rp_Revision cur2 = rp_Revision cur + 1"
      using assms(3) by (auto simp: s' new_replication_policy_def)
    with cur \<open>rp_Revision cur2 = rpp_ExpectedRevision b2\<close> assms(4) show ?thesis by simp
  qed simp
qed

definition ring_update :: ReplicationPolicyPutBody where
  "ring_update = ring_policy\<lparr>rpp_ExpectedRevision := 1\<rparr>"

lemma ring_update_result:
  "\<exists>s s'. applyReplicationPolicyPut quiet_env ring_update 5 s = Inr s'"
proof -
  define s where "s = three_nodes\<lparr>ReplicationPolicies := [(''p1'', zero_replication_policy\<lparr>rp_Revision := 1\<rparr>)]\<rparr>"
  have "\<exists>s'. applyReplicationPolicyPut quiet_env ring_update 5 s = Inr s'"
    by (rule ring_accepted) (simp_all add: s_def ring_update_def zero_replication_policy_def)
  then show ?thesis by blast
qed

theorem replication_put_once_witness:
  "\<exists>s s' err. applyReplicationPolicyPut quiet_env ring_update 5 s = Inr s'
     \<and> applyReplicationPolicyPut quiet_env ring_update 6 s' = Inl err"
proof -
  obtain s s' where s': "applyReplicationPolicyPut quiet_env ring_update 5 s = Inr s'"
    using ring_update_result by blast
  have "0 \<le> rpp_ExpectedRevision ring_update" by (simp add: ring_update_def)
  from replication_put_once [OF s' this refl refl, of quiet_env 6] s' show ?thesis by blast
qed

end
