(* ===== verification/Control_Runs.thy ===== *)
theory Control_Runs imports Control_Policies
begin

text \<open>
  Scheduled fires, runs and tasks (\<^verbatim>\<open>fsm.go\<close>, lines 1286 to 2128): leases and leader terms, the
  frozen targets of a run, the aggregation of the tasks into the result of a run, and pruning.
  Backup and replication keep their runs, tasks and terms in separate maps; \<open>runs_of\<close>,
  \<open>tasks_of\<close> and \<open>terms_of\<close> select them (\<^verbatim>\<open>runMaps\<close>, \<^verbatim>\<open>runTerms\<close>) and \<open>put_run\<close>, \<open>set_tasks\<close> and
  \<open>put_term\<close> write through the selected map.
\<close>

record FireClaimBody =
  fcb_OperationID :: string
  fcb_FireKey :: string
  fcb_PolicyID :: string
  fcb_ScheduledUnix :: int
  fcb_LeaseUntilUnix :: int
  fcb_LeaderTerm :: u64
  fcb_Status :: Status
  fcb_RunID :: string
  fcb_Durable :: bool

record ScheduledRunClaimBody =
  src_Fire :: FireClaimBody
  src_Run :: ClusterBackupRun

record CreateRunBody =
  crb_OperationID :: string
  crb_Run :: ClusterBackupRun
  crb_Tasks :: "ClusterBackupTask list"
  crb_LeaderTerm :: u64
  crb_Replication :: bool

record RunClaimBody =
  rcb_OperationID :: string
  rcb_RunID :: string
  rcb_LeaderTerm :: u64
  rcb_UpdatedUnix :: int
  rcb_LeaseUntilUnix :: int
  rcb_Replication :: bool

record UpdateTaskBody =
  utb_OperationID :: string
  utb_Task :: ClusterBackupTask
  utb_LeaderTerm :: u64
  utb_Replication :: bool

record RetryFailedTasksBody =
  rtb_OperationID :: string
  rtb_RunID :: string
  rtb_LeaderTerm :: u64
  rtb_UpdatedUnix :: int
  rtb_LeaseUntilUnix :: int
  rtb_Replication :: bool

record FinishRunBody =
  frb_OperationID :: string
  frb_RunID :: string
  frb_Status :: Status
  frb_Success :: int
  frb_Failed :: int
  frb_Unavailable :: int
  frb_Timeout :: int
  frb_FinishedUnix :: int
  frb_LeaderTerm :: u64
  frb_Replication :: bool

record PruneRunMetadataBody =
  prb_OperationID :: string
  prb_BeforeUnix :: int

section \<open>Limits and statuses\<close>

definition defaultFireLease :: int where "defaultFireLease = 120 * nanos"
definition maxFireKeyLen :: nat where "maxFireKeyLen = 256"
definition maxErrorCodeLen :: nat where "maxErrorCodeLen = 128"
definition maxErrorSummaryLen :: nat where "maxErrorSummaryLen = 2048"
definition maxSHA256Len :: nat where "maxSHA256Len = 128"
definition maxTargetNodeIDs :: nat where "maxTargetNodeIDs = 1024"

definition terminalRunStatus :: "Status \<Rightarrow> bool" where
  "terminalRunStatus st \<longleftrightarrow> st \<in> set [S_SUCCEEDED, S_SUCCESS, S_PARTIAL, S_FAILED, S_CANCELED]"

definition terminalTaskStatus :: "Status \<Rightarrow> bool" where
  "terminalTaskStatus st \<longleftrightarrow> st \<in> set [S_SUCCEEDED, S_SUCCESS, S_FAILED, S_TIMEOUT, S_UNAVAILABLE,
     S_CONFIG_MISSING, S_RETENTION_FAILED, S_SKIPPED]"

definition validRunStatus :: "Status \<Rightarrow> bool" where
  "validRunStatus st \<longleftrightarrow> st = S_PENDING \<or> st = S_RUNNING \<or> terminalRunStatus st"

definition validTaskStatus :: "Status \<Rightarrow> bool" where
  "validTaskStatus st \<longleftrightarrow> st = S_PENDING \<or> st = S_RUNNING \<or> terminalTaskStatus st"

definition retryableTaskStatus :: "Status \<Rightarrow> bool" where
  "retryableTaskStatus st \<longleftrightarrow> st \<in> set [S_FAILED, S_TIMEOUT, S_UNAVAILABLE, S_CONFIG_MISSING,
     S_RETENTION_FAILED, S_SKIPPED]"

lemmas status_defs = terminalRunStatus_def terminalTaskStatus_def validRunStatus_def
  validTaskStatus_def retryableTaskStatus_def

section \<open>The maps of a kind of run\<close>

definition runs_of :: "State \<Rightarrow> bool \<Rightarrow> (string, ClusterBackupRun) gomap" where
  "runs_of s replication = (if replication then ReplicationRuns s else BackupRuns s)"

definition tasks_of :: "State \<Rightarrow> bool \<Rightarrow> (string, ClusterBackupTask) gomap" where
  "tasks_of s replication = (if replication then ReplicationTasks s else BackupTasks s)"

definition runMaps :: "State \<Rightarrow> bool
    \<Rightarrow> (string, ClusterBackupRun) gomap \<times> (string, ClusterBackupTask) gomap" where
  "runMaps s replication = (runs_of s replication, tasks_of s replication)"

definition runTerms :: "State \<Rightarrow> bool \<Rightarrow> (string, u64) gomap" where
  "runTerms s replication = (if replication then ReplicationRunTerms s else BackupRunTerms s)"

text \<open>\<^verbatim>\<open>terms[id]\<close>, 0 when the run has no term.\<close>

definition term_of :: "State \<Rightarrow> bool \<Rightarrow> string \<Rightarrow> u64" where
  "term_of s replication i = mget_or 0 (runTerms s replication) i"

definition set_runs :: "bool \<Rightarrow> (string, ClusterBackupRun) gomap \<Rightarrow> State \<Rightarrow> State" where
  "set_runs replication m s =
     (if replication then s\<lparr>ReplicationRuns := m\<rparr> else s\<lparr>BackupRuns := m\<rparr>)"

definition set_tasks :: "bool \<Rightarrow> (string, ClusterBackupTask) gomap \<Rightarrow> State \<Rightarrow> State" where
  "set_tasks replication m s =
     (if replication then s\<lparr>ReplicationTasks := m\<rparr> else s\<lparr>BackupTasks := m\<rparr>)"

definition set_terms :: "bool \<Rightarrow> (string, u64) gomap \<Rightarrow> State \<Rightarrow> State" where
  "set_terms replication m s =
     (if replication then s\<lparr>ReplicationRunTerms := m\<rparr> else s\<lparr>BackupRunTerms := m\<rparr>)"

definition put_run :: "bool \<Rightarrow> string \<Rightarrow> ClusterBackupRun \<Rightarrow> State \<Rightarrow> State" where
  "put_run replication i run s = set_runs replication (mput i run (runs_of s replication)) s"

definition put_term :: "bool \<Rightarrow> string \<Rightarrow> u64 \<Rightarrow> State \<Rightarrow> State" where
  "put_term replication i t s = set_terms replication (mput i t (runTerms s replication)) s"

text \<open>\<^verbatim>\<open>if b.LeaderTerm > terms[id] { terms[id] = b.LeaderTerm }\<close>\<close>

definition raise_term :: "bool \<Rightarrow> string \<Rightarrow> u64 \<Rightarrow> State \<Rightarrow> State" where
  "raise_term replication i t s =
     (if t > term_of s replication i then put_term replication i t s else s)"

lemma maps_frame [simp]:
  "runs_of (set_runs rep m s) rep' = (if rep = rep' then m else runs_of s rep')"
  "runs_of (set_tasks rep n s) rep' = runs_of s rep'"
  "runs_of (set_terms rep p s) rep' = runs_of s rep'"
  "tasks_of (set_runs rep m s) rep' = tasks_of s rep'"
  "tasks_of (set_tasks rep n s) rep' = (if rep = rep' then n else tasks_of s rep')"
  "tasks_of (set_terms rep p s) rep' = tasks_of s rep'"
  "runTerms (set_runs rep m s) rep' = runTerms s rep'"
  "runTerms (set_tasks rep n s) rep' = runTerms s rep'"
  "runTerms (set_terms rep p s) rep' = (if rep = rep' then p else runTerms s rep')"
  by (auto simp: runs_of_def tasks_of_def runTerms_def set_runs_def set_tasks_def set_terms_def)

lemma maps_put [simp]:
  "runs_of (put_run rep i r s) rep' = (if rep = rep' then mput i r (runs_of s rep) else runs_of s rep')"
  "runs_of (put_term rep i t s) rep' = runs_of s rep'"
  "runs_of (raise_term rep i t s) rep' = runs_of s rep'"
  "tasks_of (put_run rep i r s) rep' = tasks_of s rep'"
  "tasks_of (put_term rep i t s) rep' = tasks_of s rep'"
  "tasks_of (raise_term rep i t s) rep' = tasks_of s rep'"
  "runTerms (put_run rep i r s) rep' = runTerms s rep'"
  "runTerms (put_term rep i t s) rep' = (if rep = rep' then mput i t (runTerms s rep) else runTerms s rep')"
  by (auto simp: put_run_def put_term_def raise_term_def)

section \<open>Fires\<close>

definition zero_fire :: FireRecord where
  "zero_fire = \<lparr>f_FireKey = [], f_PolicyID = [], f_RunID = [], f_ScheduledUnix = 0,
     f_ClaimedUnix = 0, f_LeaseUntilUnix = 0, f_LeaderTerm = 0, f_Status = S_empty\<rparr>"

text \<open>\<^verbatim>\<open>sum[:12]\<close> in hexadecimal is the first 24 digits of the hash.\<close>

definition runIDForFire :: "env \<Rightarrow> string \<Rightarrow> string" where
  "runIDForFire e fireKey = ''run-'' @ take 24 (sha256_hex e fireKey)"

definition durableFireRecord :: "FireRecord \<Rightarrow> bool" where
  "durableFireRecord current \<longleftrightarrow>
     f_LeaseUntilUnix current = 0 \<and> (f_Status current = S_SKIPPED \<or> f_Status current = S_CLAIMED)"

definition put_fire :: "string \<Rightarrow> FireRecord \<Rightarrow> State \<Rightarrow> State" where
  "put_fire key f s = s\<lparr>BackupFireLedger := mput key f (BackupFireLedger s)\<rparr>"

definition lease_bad :: "gtime \<Rightarrow> int \<Rightarrow> bool" where
  "lease_bad now lease \<longleftrightarrow> lease \<le> Unix now \<or> lease > Unix (now + 24 * 3600 * nanos)"

text \<open>The result is the record, whether the claim acquired the fire, and the state.\<close>

definition ClaimFire :: "env \<Rightarrow> FireClaimBody \<Rightarrow> gtime \<Rightarrow> State \<Rightarrow> goerror + (FireRecord \<times> bool \<times> State)" where
  "ClaimFire e b now s0 =
    (let s = ensure s0 in
     check (requireOperationID (fcb_OperationID b))
     (if \<not> validMetadataString (fcb_FireKey b) maxFireKeyLen
         \<or> \<not> validMetadataString (fcb_PolicyID b) maxMetadataIDLen \<or> fcb_LeaderTerm b = 0
        then fail INVALID ''fire key, policy id, and leader term required''
      else
       (let status = (if fcb_Status b = S_empty then S_CLAIMED else fcb_Status b) in
        if status \<noteq> S_CLAIMED \<and> status \<noteq> S_SKIPPED then fail INVALID ''invalid fire status''
        else
         (let durable = (status = S_SKIPPED \<or> fcb_Durable b) in
          if \<not> durable \<and> fcb_LeaseUntilUnix b \<noteq> 0 \<and> lease_bad now (fcb_LeaseUntilUnix b)
            then fail INVALID ''invalid fire lease''
          else case mget (BackupFireLedger s) (fcb_FireKey b) of
            Some current \<Rightarrow>
              if f_PolicyID current \<noteq> fcb_PolicyID b then fail CONFLICT ''fire key belongs to another policy''
              else if durableFireRecord current then Inr (current, False, s)
              else if f_LeaseUntilUnix current > Unix now \<or> fcb_LeaderTerm b \<le> f_LeaderTerm current
                then Inr (current, False, s)
              else if durable then
                (let new = current\<lparr>f_Status := status, f_LeaseUntilUnix := 0,
                       f_LeaderTerm := fcb_LeaderTerm b, f_ClaimedUnix := Unix now,
                       f_RunID := (if fcb_RunID b \<noteq> [] then fcb_RunID b else f_RunID current)\<rparr>
                 in Inr (new, False, put_fire (fcb_FireKey b) new s))
              else
                (let new = current\<lparr>f_LeaderTerm := fcb_LeaderTerm b, f_ClaimedUnix := Unix now,
                       f_LeaseUntilUnix := (if fcb_LeaseUntilUnix b = 0 then Unix (now + defaultFireLease)
                                            else fcb_LeaseUntilUnix b),
                       f_Status := S_CLAIMED\<rparr>
                 in Inr (new, True, put_fire (fcb_FireKey b) new s))
          | None \<Rightarrow>
              (let scheduled = (if fcb_ScheduledUnix b = 0 then Unix now else fcb_ScheduledUnix b);
                   runID = (if fcb_RunID b = [] then runIDForFire e (fcb_FireKey b) else fcb_RunID b);
                   record0 = \<lparr>f_FireKey = fcb_FireKey b, f_PolicyID = fcb_PolicyID b, f_RunID = runID,
                     f_ScheduledUnix = scheduled, f_ClaimedUnix = Unix now, f_LeaseUntilUnix = 0,
                     f_LeaderTerm = fcb_LeaderTerm b, f_Status = status\<rparr> in
               if durable then Inr (record0, True, put_fire (fcb_FireKey b) record0 s)
               else
                (let leaseUntil = (if fcb_LeaseUntilUnix b = 0 then Unix (now + defaultFireLease)
                                   else fcb_LeaseUntilUnix b) in
                 if lease_bad now leaseUntil then fail INVALID ''invalid fire lease''
                 else
                  (let record1 = record0\<lparr>f_LeaseUntilUnix := leaseUntil, f_Status := S_CLAIMED\<rparr>
                   in Inr (record1, True, put_fire (fcb_FireKey b) record1 s))))))))"

text \<open>The loop over the ledger rewrites every fire of the run.\<close>

definition sync_fire :: "string \<Rightarrow> u64 \<Rightarrow> int \<Rightarrow> int \<Rightarrow> Status \<Rightarrow> FireRecord \<Rightarrow> FireRecord" where
  "sync_fire runID leaderTerm claimedUnix leaseUntilUnix status fire =
    (if f_RunID fire \<noteq> runID then fire
     else fire\<lparr>
       f_LeaderTerm := (if leaderTerm > f_LeaderTerm fire then leaderTerm else f_LeaderTerm fire),
       f_ClaimedUnix := (if claimedUnix \<noteq> 0 then claimedUnix else f_ClaimedUnix fire),
       f_LeaseUntilUnix := leaseUntilUnix, f_Status := status\<rparr>)"

definition syncBackupFire :: "string \<Rightarrow> u64 \<Rightarrow> int \<Rightarrow> int \<Rightarrow> Status \<Rightarrow> State \<Rightarrow> State" where
  "syncBackupFire runID leaderTerm claimedUnix leaseUntilUnix status s =
     s\<lparr>BackupFireLedger :=
       mmap (\<lambda>_. sync_fire runID leaderTerm claimedUnix leaseUntilUnix status) (BackupFireLedger s)\<rparr>"

section \<open>Checks on a run and its tasks\<close>

fun check_node_ids :: "string list \<Rightarrow> string list \<Rightarrow> goerror option" where
  "check_node_ids seen [] = None"
| "check_node_ids seen (i # ids) =
    (if \<not> validMetadataString i maxMetadataIDLen then Some (E INVALID ''invalid target node id'')
     else if i \<in> set seen then Some (E INVALID ''duplicate target node id'')
     else check_node_ids (i # seen) ids)"

definition validateTargetNodeIDs :: "string list \<Rightarrow> goerror option" where
  "validateTargetNodeIDs ids =
    (if length ids > maxTargetNodeIDs then Some (E INVALID ''too many target nodes'')
     else check_node_ids [] ids)"

definition validateRunTargets :: "State \<Rightarrow> Selector \<Rightarrow> string list \<Rightarrow> string list \<Rightarrow> goerror option" where
  "validateRunTargets s selector selectorIDs targets =
    (case validateTargetNodeIDs targets of Some err \<Rightarrow> Some err | None \<Rightarrow>
     (case selector of
        EXPLICIT_NODES \<Rightarrow>
          if targets \<noteq> selectorIDs then Some (E CONFLICT ''target nodes changed'') else None
      | ALL_ADMITTED \<Rightarrow>
          if sort targets \<noteq> sort (admitted_ids s) then Some (E CONFLICT ''target nodes changed'') else None
      | AGENT_GROUP \<Rightarrow>
          if \<not> list_all (mhas (AgentGroups s)) selectorIDs then Some (E INVALID ''agent group not found'')
          else
           (let allowed = admitted_in_groups s selectorIDs in
            if \<not> list_all (\<lambda>n. n \<in> set allowed) targets
              then Some (E INVALID ''target node not in agent group'')
            else if sort targets \<noteq> sort allowed then Some (E CONFLICT ''target nodes changed'')
            else None)
      | NoSelector \<Rightarrow> None
      | SelectorOther _ \<Rightarrow> Some (E INVALID ''target selector'')))"

definition validateReplicationRunSources :: "ReplicationPolicy \<Rightarrow> string list \<Rightarrow> goerror option" where
  "validateReplicationRunSources policy sources =
    (case validateTargetNodeIDs sources of Some err \<Rightarrow> Some err | None \<Rightarrow>
      if sort sources \<noteq> sort (map rr_SourceNodeID (rp_Routes policy))
      then Some (E CONFLICT ''replication policy routes changed'') else None)"

definition validateTaskMetadata :: "ClusterBackupTask \<Rightarrow> goerror option" where
  "validateTaskMetadata task =
    (if \<not> validMetadataString (t_RunID task) maxMetadataIDLen
        \<or> \<not> validMetadataString (t_TaskID task) maxMetadataIDLen
        \<or> \<not> validMetadataString (t_NodeID task) maxMetadataIDLen
       then Some (E INVALID ''invalid task id'')
     else if t_SourceNodeID task \<noteq> [] \<and> \<not> validMetadataString (t_SourceNodeID task) maxMetadataIDLen
       then Some (E INVALID ''invalid source node id'')
     else if length (t_SnapshotID task) > maxSnapshotIDLen \<or> length (t_SHA256 task) > maxSHA256Len
          \<or> length (t_ErrorCode task) > maxErrorCodeLen \<or> length (t_ErrorSummary task) > maxErrorSummaryLen
       then Some (E INVALID ''task metadata too long'')
     else if \<not> validTaskStatus (t_Status task) then Some (E INVALID ''invalid task status'')
     else None)"

definition taskMapKey :: "ClusterBackupTask \<Rightarrow> string" where
  "taskMapKey task = t_RunID task @ '':'' @ t_TaskID task"

text \<open>\<^verbatim>\<open>source + "\x00" + target\<close>\<close>

definition route_key :: "string \<Rightarrow> string \<Rightarrow> string" where
  "route_key source target = source @ [CHR 0x00] @ target"

definition expected_routes :: "ReplicationPolicy \<Rightarrow> string list" where
  "expected_routes policy = remdups (concat (map
     (\<lambda>route. map (route_key (rr_SourceNodeID route)) (rr_TargetNodeIDs route)) (rp_Routes policy)))"

fun check_initial_tasks :: "ClusterBackupRun \<Rightarrow> string list \<Rightarrow> string list \<Rightarrow> string list
    \<Rightarrow> ClusterBackupTask list \<Rightarrow> goerror option" where
  "check_initial_tasks run expected seenTaskIDs seenRoutes [] = None"
| "check_initial_tasks run expected seenTaskIDs seenRoutes (task # tasks) =
    (case validateTaskMetadata task of Some err \<Rightarrow> Some err | None \<Rightarrow>
     if t_RunID task \<noteq> run_RunID run \<or> t_SourceNodeID task = [] \<or> t_Status task \<noteq> S_PENDING
        \<or> (t_SnapshotID task = []) \<noteq> (t_SHA256 task = []) \<or> t_Bytes task \<noteq> 0
        \<or> t_ErrorCode task \<noteq> [] \<or> t_ErrorSummary task \<noteq> []
       then Some (E INVALID ''invalid initial replication task'')
     else if t_TaskID task \<in> set seenTaskIDs then Some (E INVALID ''duplicate initial task id'')
     else
      (let routeKey = route_key (t_SourceNodeID task) (t_NodeID task) in
       if routeKey \<notin> set expected then Some (E INVALID ''initial task route not in policy'')
       else if routeKey \<in> set seenRoutes then Some (E INVALID ''duplicate initial task route'')
       else check_initial_tasks run expected (t_TaskID task # seenTaskIDs) (routeKey # seenRoutes) tasks))"

definition validateInitialReplicationTasks ::
    "ClusterBackupRun \<Rightarrow> ClusterBackupTask list \<Rightarrow> ReplicationPolicy \<Rightarrow> goerror option" where
  "validateInitialReplicationTasks run tasks policy =
    (if length tasks > maxTargetNodeIDs then Some (E INVALID ''too many initial tasks'')
     else
      (let expected = expected_routes policy in
       if length tasks \<noteq> length expected then Some (E INVALID ''initial tasks do not match frozen routes'')
       else check_initial_tasks run expected [] [] tasks))"

definition sameFrozenRun :: "ClusterBackupRun \<Rightarrow> ClusterBackupRun \<Rightarrow> bool" where
  "sameFrozenRun current requested \<longleftrightarrow>
     run_RunID current = run_RunID requested \<and> run_PolicyID current = run_PolicyID requested
     \<and> run_PolicyRevision current = run_PolicyRevision requested
     \<and> elems (run_TargetNodeIDs current) = elems (run_TargetNodeIDs requested)
     \<and> run_MaxConcurrency current = run_MaxConcurrency requested"

definition sameInitialRouteTasks ::
    "(string, ClusterBackupTask) gomap \<Rightarrow> string \<Rightarrow> ClusterBackupTask list \<Rightarrow> bool" where
  "sameInitialRouteTasks tasks runID requested \<longleftrightarrow>
    (if length requested = 0 then True
     else if length (filter (\<lambda>task. t_RunID task = runID) (mvals tasks)) \<noteq> length requested then False
     else list_all (\<lambda>task. case mget tasks (taskMapKey task) of
         None \<Rightarrow> False
       | Some current \<Rightarrow> t_SourceNodeID current = t_SourceNodeID task \<and> t_NodeID current = t_NodeID task)
       requested)"

section \<open>Creating and claiming runs\<close>

text \<open>The policy checks of \<^verbatim>\<open>applyCreateRun\<close>, from the lookup of the policy to the initial tasks.\<close>

definition check_run_policy :: "State \<Rightarrow> CreateRunBody \<Rightarrow> goerror option" where
  "check_run_policy s b =
    (let run = crb_Run b; targets = elems (run_TargetNodeIDs run) in
     if crb_Replication b then
       (case mget (ReplicationPolicies s) (run_PolicyID run) of
          None \<Rightarrow> Some (E NOT_FOUND ''replication policy not found'')
        | Some policy \<Rightarrow>
           (case validateReplicationRunSources policy targets of Some err \<Rightarrow> Some err | None \<Rightarrow>
            if run_PolicyRevision run \<noteq> rp_Revision policy then Some (E CONFLICT ''policy revision changed'')
            else if length (crb_Tasks b) > 0
              then validateInitialReplicationTasks run (crb_Tasks b) policy
            else None))
     else
       (case mget (BackupPolicies s) (run_PolicyID run) of
          None \<Rightarrow> Some (E NOT_FOUND ''backup policy not found'')
        | Some policy \<Rightarrow>
           (case (if bp_TargetSelector policy \<noteq> NoSelector
                  then validateRunTargets s (bp_TargetSelector policy) (bp_TargetIDs policy) targets
                  else None) of Some err \<Rightarrow> Some err | None \<Rightarrow>
            if run_PolicyRevision run \<noteq> bp_Revision policy then Some (E CONFLICT ''policy revision changed'')
            else if length (crb_Tasks b) > 0 then Some (E INVALID ''initial tasks require replication run'')
            else None)))"

definition store_tasks :: "u64 \<Rightarrow> ClusterBackupTask list \<Rightarrow> (string, ClusterBackupTask) gomap
    \<Rightarrow> (string, ClusterBackupTask) gomap" where
  "store_tasks leaderTerm ts m =
     fold (\<lambda>task. mput (taskMapKey task) (task\<lparr>t_LeaderTerm := leaderTerm\<rparr>)) ts m"

definition applyCreateRun :: "CreateRunBody \<Rightarrow> State \<Rightarrow> goerror + State" where
  "applyCreateRun b s0 =
    (let s = ensure s0; run = crb_Run b; rep = crb_Replication b in
     check (requireOperationID (crb_OperationID b))
     (if crb_LeaderTerm b = 0 \<or> \<not> validMetadataString (run_RunID run) maxMetadataIDLen
         \<or> \<not> validMetadataString (run_PolicyID run) maxMetadataIDLen \<or> \<not> validRunStatus (run_Status run)
        then fail INVALID ''run id, status, and leader term required''
      else check (validateTargetNodeIDs (elems (run_TargetNodeIDs run)))
      (check (check_run_policy s b)
      (case mget (runs_of s rep) (run_RunID run) of
         Some current \<Rightarrow>
           if (\<not> rep \<and> current = run)
              \<or> (rep \<and> sameFrozenRun current run
                 \<and> sameInitialRouteTasks (tasks_of s rep) (run_RunID run) (crb_Tasks b))
           then Inr s else fail CONFLICT ''run already exists''
       | None \<Rightarrow>
           Inr (set_tasks rep (store_tasks (crb_LeaderTerm b) (crb_Tasks b) (tasks_of s rep))
                 (put_term rep (run_RunID run) (crb_LeaderTerm b)
                   (put_run rep (run_RunID run)
                     (run\<lparr>run_TargetNodeIDs := slice_copy (run_TargetNodeIDs run)\<rparr>) s)))))))"

text \<open>\<^verbatim>\<open>validateCreateRun\<close> applies the creation to a clone of the state, which it throws away.\<close>

definition validateCreateRun :: "State \<Rightarrow> ClusterBackupRun \<Rightarrow> u64 \<Rightarrow> bool \<Rightarrow> goerror option" where
  "validateCreateRun s run leaderTerm replication =
    (case applyCreateRun \<lparr>crb_OperationID = ''scheduled-validate'', crb_Run = run, crb_Tasks = [],
        crb_LeaderTerm = leaderTerm, crb_Replication = replication\<rparr> (ensure s) of
       Inl err \<Rightarrow> Some err | Inr _ \<Rightarrow> None)"

definition zero_run :: ClusterBackupRun where
  "zero_run = \<lparr>run_RunID = [], run_PolicyID = [], run_PolicyRevision = 0, run_TargetNodeIDs = NilSlice,
     run_Status = S_empty, run_Success = 0, run_Failed = 0, run_Unavailable = 0, run_Timeout = 0,
     run_CreatedUnix = 0, run_StartedUnix = 0, run_FinishedUnix = 0, run_Sink = [],
     run_DestinationProfile = [], run_MaxConcurrency = 0, run_TimeoutSeconds = 0,
     run_UnavailablePolicy = [], run_LeaseUntilUnix = 0\<rparr>"

definition ClaimScheduledRun :: "env \<Rightarrow> ScheduledRunClaimBody \<Rightarrow> gtime \<Rightarrow> State
    \<Rightarrow> goerror + (FireRecord \<times> ClusterBackupRun \<times> bool \<times> State)" where
  "ClaimScheduledRun e b now s0 =
    (let s = ensure s0; fire = src_Fire b in
     case mget (BackupFireLedger s) (fcb_FireKey fire) of
       Some current \<Rightarrow>
         (case mget (BackupRuns s) (f_RunID current) of
            None \<Rightarrow> fail CONFLICT ''scheduled fire has no run''
          | Some run \<Rightarrow>
              if f_PolicyID current \<noteq> fcb_PolicyID fire then fail CONFLICT ''fire key belongs to another policy''
              else if terminalRunStatus (run_Status run) then Inr (current, run, False, s)
              else if f_LeaseUntilUnix current > Unix now \<or> fcb_LeaderTerm fire \<le> f_LeaderTerm current
                then Inr (current, run, False, s)
              else (case ClaimFire e fire now s of
                  Inl err \<Rightarrow> Inl err
                | Inr (rec, acquired, s1) \<Rightarrow>
                    if acquired then
                      (let run1 = run\<lparr>run_LeaseUntilUnix := f_LeaseUntilUnix rec\<rparr>
                       in Inr (rec, run1, True,
                            put_term False (run_RunID run) (f_LeaderTerm rec) (put_run False (run_RunID run) run1 s1)))
                    else Inr (rec, run, False, s1)))
     | None \<Rightarrow>
         if run_RunID (src_Run b) \<noteq> runIDForFire e (fcb_FireKey fire)
            \<or> run_PolicyID (src_Run b) \<noteq> fcb_PolicyID fire
           then fail INVALID ''scheduled run does not match fire''
         else check (validateCreateRun s (src_Run b) (fcb_LeaderTerm fire) False)
          (case ClaimFire e fire now s of
             Inl err \<Rightarrow> Inl err
           | Inr (rec, acquired, s1) \<Rightarrow>
               if \<not> acquired then Inr (rec, zero_run, acquired, s1)
               else
                (let run1 = (src_Run b)\<lparr>run_TargetNodeIDs := slice_copy (run_TargetNodeIDs (src_Run b))\<rparr>;
                     run2 = (if run_LeaseUntilUnix run1 = 0
                             then run1\<lparr>run_LeaseUntilUnix := f_LeaseUntilUnix rec\<rparr> else run1)
                 in Inr (rec, run2, True,
                      put_term False (run_RunID run2) (fcb_LeaderTerm fire) (put_run False (run_RunID run2) run2 s1)))))"

text \<open>\<^verbatim>\<open>updated + int64((24*time.Hour)/time.Second)\<close>, an \<^verbatim>\<open>int64\<close> sum of a caller's value.\<close>

definition day_after :: "int \<Rightarrow> int" where
  "day_after t = wrap64 (t + 86400)"

definition ClaimRun :: "RunClaimBody \<Rightarrow> State \<Rightarrow> goerror + (bool \<times> State)" where
  "ClaimRun b s0 =
    (let s = ensure s0; rep = rcb_Replication b in
     check (requireOperationID (rcb_OperationID b))
     (if \<not> validMetadataString (rcb_RunID b) maxMetadataIDLen \<or> rcb_LeaderTerm b = 0
         \<or> rcb_UpdatedUnix b \<le> 0 \<or> rcb_LeaseUntilUnix b \<le> rcb_UpdatedUnix b
         \<or> rcb_LeaseUntilUnix b > day_after (rcb_UpdatedUnix b)
        then fail INVALID ''invalid run claim''
      else case mget (runs_of s rep) (rcb_RunID b) of
          None \<Rightarrow> fail NOT_FOUND ''run not found''
        | Some run \<Rightarrow>
            if terminalRunStatus (run_Status run) \<or> run_LeaseUntilUnix run > rcb_UpdatedUnix b
               \<or> (\<not> rep \<and> rcb_LeaderTerm b \<le> term_of s rep (rcb_RunID b))
               \<or> (rep \<and> rcb_LeaderTerm b < term_of s rep (rcb_RunID b))
              then Inr (False, s)
            else
             (let s1 = put_term rep (rcb_RunID b) (rcb_LeaderTerm b)
                        (put_run rep (rcb_RunID b) (run\<lparr>run_LeaseUntilUnix := rcb_LeaseUntilUnix b\<rparr>) s)
              in Inr (True, if \<not> rep then syncBackupFire (rcb_RunID b) (rcb_LeaderTerm b) (rcb_UpdatedUnix b)
                              (rcb_LeaseUntilUnix b) S_CLAIMED s1 else s1))))"

section \<open>Tasks\<close>

definition retry_task :: "RetryFailedTasksBody \<Rightarrow> ClusterBackupTask \<Rightarrow> ClusterBackupTask" where
  "retry_task b task =
    (if t_RunID task \<noteq> rtb_RunID b \<or> \<not> retryableTaskStatus (t_Status task) then task
     else task\<lparr>
       t_Status := S_PENDING,
       t_SnapshotID := (if \<not> rtb_Replication b then [] else t_SnapshotID task),
       t_SHA256 := (if \<not> rtb_Replication b then [] else t_SHA256 task),
       t_Bytes := 0, t_ErrorCode := [], t_ErrorSummary := [],
       t_LeaderTerm := rtb_LeaderTerm b, t_UpdatedUnix := rtb_UpdatedUnix b\<rparr>)"

definition applyRetryFailedTasks :: "RetryFailedTasksBody \<Rightarrow> State \<Rightarrow> goerror + State" where
  "applyRetryFailedTasks b s0 =
    (let s = ensure s0; rep = rtb_Replication b in
     check (requireOperationID (rtb_OperationID b))
     (if rtb_LeaderTerm b = 0 \<or> \<not> validMetadataString (rtb_RunID b) maxMetadataIDLen
        then fail INVALID ''run id and leader term required''
      else if rtb_LeaseUntilUnix b \<noteq> 0 \<and> (rtb_UpdatedUnix b \<le> 0 \<or> rtb_LeaseUntilUnix b \<le> rtb_UpdatedUnix b
           \<or> rtb_LeaseUntilUnix b > day_after (rtb_UpdatedUnix b))
        then fail INVALID ''invalid retry lease''
      else case mget (runs_of s rep) (rtb_RunID b) of
          None \<Rightarrow> fail NOT_FOUND ''run not found''
        | Some run \<Rightarrow>
            if term_of s rep (rtb_RunID b) > rtb_LeaderTerm b then fail CONFLICT ''stale leader term''
            else
             (let retried = mex (\<lambda>_ task. t_RunID task = rtb_RunID b \<and> retryableTaskStatus (t_Status task))
                              (tasks_of s rep);
                  s1 = set_tasks rep (mmap (\<lambda>_. retry_task b) (tasks_of s rep)) s;
                  run1 = run\<lparr>run_Status := S_RUNNING, run_Success := 0, run_Failed := 0, run_Unavailable := 0,
                    run_Timeout := 0, run_FinishedUnix := 0,
                    run_LeaseUntilUnix := (if rtb_LeaseUntilUnix b \<noteq> 0 then rtb_LeaseUntilUnix b
                                           else run_LeaseUntilUnix run)\<rparr>;
                  s2 = (if retried then
                         (let s3 = put_run rep (rtb_RunID b) run1 s1
                          in if \<not> rep then syncBackupFire (rtb_RunID b) (rtb_LeaderTerm b) (rtb_UpdatedUnix b)
                                  (run_LeaseUntilUnix run1) S_CLAIMED s3 else s3)
                        else s1)
              in Inr (raise_term rep (rtb_RunID b) (rtb_LeaderTerm b) s2))))"

definition applyBeginReplicationTask :: "UpdateTaskBody \<Rightarrow> gtime \<Rightarrow> State \<Rightarrow> goerror + State" where
  "applyBeginReplicationTask b now s =
    (let rep = utb_Replication b; task = utb_Task b in
     case mget (runs_of s rep) (t_RunID task) of
       None \<Rightarrow> fail NOT_FOUND ''run not found''
     | Some run \<Rightarrow>
         if term_of s rep (t_RunID task) \<noteq> utb_LeaderTerm b \<or> run_Status run \<noteq> S_RUNNING
            \<or> now = time_zero \<or> run_LeaseUntilUnix run \<le> Unix now
           then fail CONFLICT ''replication run changed''
         else
          (let key = taskMapKey task in
           case mget (tasks_of s rep) key of
             None \<Rightarrow> fail CONFLICT ''replication task changed''
           | Some current \<Rightarrow>
               if t_RunID current \<noteq> t_RunID task \<or> t_TaskID current \<noteq> t_TaskID task
                  \<or> t_SourceNodeID current \<noteq> t_SourceNodeID task \<or> t_NodeID current \<noteq> t_NodeID task
                 then fail CONFLICT ''replication task changed''
               else if (t_SnapshotID current \<noteq> t_SnapshotID task \<or> t_SHA256 current \<noteq> t_SHA256 task)
                  \<and> (t_SnapshotID current \<noteq> [] \<or> t_SHA256 current \<noteq> []
                     \<or> t_SnapshotID task = [] \<or> t_SHA256 task = [])
                 then fail CONFLICT ''replication task changed''
               else
                (let cur1 = (if t_SnapshotID current \<noteq> t_SnapshotID task \<or> t_SHA256 current \<noteq> t_SHA256 task
                             then current\<lparr>t_SnapshotID := t_SnapshotID task, t_SHA256 := t_SHA256 task\<rparr>
                             else current) in
                 if t_Status cur1 = S_RUNNING then Inr (set_tasks rep (mput key cur1 (tasks_of s rep)) s)
                 else if t_Status cur1 \<noteq> S_PENDING \<and> \<not> retryableTaskStatus (t_Status cur1)
                   then fail CONFLICT ''replication task changed''
                 else Inr (set_tasks rep (mput key
                     (cur1\<lparr>t_Status := S_RUNNING, t_Bytes := 0, t_ErrorCode := [], t_ErrorSummary := [],
                        t_LeaderTerm := utb_LeaderTerm b, t_UpdatedUnix := Unix now\<rparr>) (tasks_of s rep)) s))))"

section \<open>The result of a run\<close>

text \<open>The counters of one pass over terminal tasks.\<close>

record RunTally =
  ty_success :: int
  ty_failed :: int
  ty_unavailable :: int
  ty_timeout :: int
  ty_finished :: int

definition zero_tally :: RunTally where
  "zero_tally = \<lparr>ty_success = 0, ty_failed = 0, ty_unavailable = 0, ty_timeout = 0, ty_finished = 0\<rparr>"

definition tally_status :: "Status \<Rightarrow> RunTally \<Rightarrow> RunTally" where
  "tally_status st c =
    (case st of
       S_SUCCESS \<Rightarrow> c\<lparr>ty_success := ty_success c + 1\<rparr>
     | S_SUCCEEDED \<Rightarrow> c\<lparr>ty_success := ty_success c + 1\<rparr>
     | S_UNAVAILABLE \<Rightarrow> c\<lparr>ty_unavailable := ty_unavailable c + 1\<rparr>
     | S_TIMEOUT \<Rightarrow> c\<lparr>ty_timeout := ty_timeout c + 1\<rparr>
     | _ \<Rightarrow> c\<lparr>ty_failed := ty_failed c + 1\<rparr>)"

definition tally_task :: "ClusterBackupTask \<Rightarrow> RunTally \<Rightarrow> RunTally" where
  "tally_task task c =
    (let c1 = tally_status (t_Status task) c
     in if t_UpdatedUnix task > ty_finished c1 then c1\<lparr>ty_finished := t_UpdatedUnix task\<rparr> else c1)"

text \<open>\<open>None\<close> when a task is not terminal (the function returns without a change).\<close>

fun tally :: "ClusterBackupTask list \<Rightarrow> RunTally \<Rightarrow> RunTally option" where
  "tally [] c = Some c"
| "tally (task # tasks) c =
    (if \<not> terminalTaskStatus (t_Status task) then None else tally tasks (tally_task task c))"

definition close_run :: "int \<Rightarrow> RunTally \<Rightarrow> ClusterBackupRun \<Rightarrow> ClusterBackupRun" where
  "close_run n c run = run\<lparr>
     run_Status := (if ty_success c = n then S_SUCCEEDED
                    else if ty_success c > 0 then S_PARTIAL else S_FAILED),
     run_Success := ty_success c, run_Failed := ty_failed c, run_Unavailable := ty_unavailable c,
     run_Timeout := ty_timeout c, run_FinishedUnix := ty_finished c\<rparr>"

definition run_tasks :: "(string, ClusterBackupTask) gomap \<Rightarrow> string \<Rightarrow> ClusterBackupTask list" where
  "run_tasks tasks runID = filter (\<lambda>task. t_RunID task = runID) (mvals tasks)"

definition aggregateReplicationTerminalRun :: "(string, ClusterBackupRun) gomap
    \<Rightarrow> (string, ClusterBackupTask) gomap \<Rightarrow> string \<Rightarrow> (string, ClusterBackupRun) gomap" where
  "aggregateReplicationTerminalRun runs tasks runID =
    (let run = mget_or zero_run runs runID; routeTasks = run_tasks tasks runID in
     if length routeTasks = 0 then runs
     else case tally routeTasks zero_tally of
         None \<Rightarrow> runs
       | Some c \<Rightarrow> mput runID (close_run (int (length routeTasks)) c run) runs)"

text \<open>The newest task of each target; on equal times the task read last wins.\<close>

definition newer_task :: "ClusterBackupTask \<Rightarrow> (string, ClusterBackupTask) gomap
    \<Rightarrow> (string, ClusterBackupTask) gomap" where
  "newer_task task byNode =
    (case mget byNode (t_NodeID task) of
       None \<Rightarrow> mput (t_NodeID task) task byNode
     | Some current \<Rightarrow>
         if t_UpdatedUnix task \<ge> t_UpdatedUnix current then mput (t_NodeID task) task byNode else byNode)"

definition tasks_by_node :: "(string, ClusterBackupTask) gomap \<Rightarrow> string \<Rightarrow> string list
    \<Rightarrow> (string, ClusterBackupTask) gomap" where
  "tasks_by_node tasks runID targets =
     fold newer_task (filter (\<lambda>task. t_NodeID task \<in> set targets) (run_tasks tasks runID)) []"

definition aggregateTerminalRun :: "(string, ClusterBackupRun) gomap
    \<Rightarrow> (string, ClusterBackupTask) gomap \<Rightarrow> string \<Rightarrow> bool \<Rightarrow> (string, ClusterBackupRun) gomap" where
  "aggregateTerminalRun runs tasks runID replication =
    (case mget runs runID of
       None \<Rightarrow> runs
     | Some run \<Rightarrow>
         if terminalRunStatus (run_Status run) then runs
         else if replication then aggregateReplicationTerminalRun runs tasks runID
         else if length (elems (run_TargetNodeIDs run)) = 0 then runs
         else
          (let targets = remdups (elems (run_TargetNodeIDs run));
               byNode = tasks_by_node tasks runID targets in
           if length byNode \<noteq> length targets then runs
           else case tally (map (\<lambda>nodeID. the (mget byNode nodeID)) targets) zero_tally of
               None \<Rightarrow> runs
             | Some c \<Rightarrow> mput runID (close_run (int (length targets)) c run) runs))"

definition sync_if_terminal :: "string \<Rightarrow> u64 \<Rightarrow> State \<Rightarrow> State" where
  "sync_if_terminal runID leaderTerm s =
    (case mget (BackupRuns s) runID of
       None \<Rightarrow> s
     | Some run \<Rightarrow> if terminalRunStatus (run_Status run)
         then syncBackupFire (run_RunID run) leaderTerm 0 0 (run_Status run) s else s)"

definition applyUpdateTask :: "UpdateTaskBody \<Rightarrow> gtime \<Rightarrow> State \<Rightarrow> goerror + State" where
  "applyUpdateTask b now s0 =
    (let s = ensure s0; rep = utb_Replication b; task = utb_Task b; runID = t_RunID task in
     check (requireOperationID (utb_OperationID b))
     (if utb_LeaderTerm b = 0 then fail INVALID ''run id, task id, status, and leader term required''
      else check (validateTaskMetadata task)
      (if t_Bytes task < 0 then fail INVALID ''negative task bytes''
       else if rep \<and> t_Status task = S_RUNNING then applyBeginReplicationTask b now s
       else if term_of s rep runID > utb_LeaderTerm b then fail CONFLICT ''stale leader term''
       else if \<not> mhas (runs_of s rep) runID then fail NOT_FOUND ''run not found''
       else
        (let key = taskMapKey task; found = mget (tasks_of s rep) key in
         if (case found of Some current \<Rightarrow> utb_LeaderTerm b < t_LeaderTerm current | None \<Rightarrow> False)
           then fail CONFLICT ''stale leader term''
         else if (case found of Some current \<Rightarrow> terminalTaskStatus (t_Status current) | None \<Rightarrow> False)
           then Inr s
         else
          (let task1 = (case found of
                 Some current \<Rightarrow> if rep then task\<lparr>
                     t_SnapshotID := (if t_SnapshotID task = [] then t_SnapshotID current else t_SnapshotID task),
                     t_SHA256 := (if t_SHA256 task = [] then t_SHA256 current else t_SHA256 task)\<rparr>
                   else task
               | None \<Rightarrow> task);
               s1 = set_tasks rep (mput key (task1\<lparr>t_LeaderTerm := utb_LeaderTerm b\<rparr>) (tasks_of s rep)) s;
               s2 = raise_term rep runID (utb_LeaderTerm b) s1;
               s3 = set_runs rep (aggregateTerminalRun (runs_of s2 rep) (tasks_of s2 rep) runID rep) s2
           in Inr (if \<not> rep then sync_if_terminal runID (utb_LeaderTerm b) s3 else s3))))))"

definition UpdateTask :: "UpdateTaskBody \<Rightarrow> State \<Rightarrow> goerror + State" where
  "UpdateTask b s = applyUpdateTask b (time_Unix (t_UpdatedUnix (utb_Task b))) s"

definition applyFinishRun :: "FinishRunBody \<Rightarrow> State \<Rightarrow> goerror + State" where
  "applyFinishRun b s0 =
    (let s = ensure s0; rep = frb_Replication b in
     check (requireOperationID (frb_OperationID b))
     (if frb_LeaderTerm b = 0 \<or> \<not> validMetadataString (frb_RunID b) maxMetadataIDLen
         \<or> \<not> validRunStatus (frb_Status b)
        then fail INVALID ''run id, status, and leader term required''
      else if frb_Success b < 0 \<or> frb_Failed b < 0 \<or> frb_Unavailable b < 0 \<or> frb_Timeout b < 0
        then fail INVALID ''negative run counters''
      else case mget (runs_of s rep) (frb_RunID b) of
          None \<Rightarrow> fail NOT_FOUND ''run not found''
        | Some run \<Rightarrow>
            if term_of s rep (frb_RunID b) > frb_LeaderTerm b then fail CONFLICT ''stale leader term''
            else if mex (\<lambda>_ task. t_RunID task = frb_RunID b \<and> t_LeaderTerm task > frb_LeaderTerm b) (tasks_of s rep)
              then fail CONFLICT ''stale leader term''
            else if terminalRunStatus (run_Status run) then Inr s
            else
             (let run1 = run\<lparr>run_Status := frb_Status b, run_Success := frb_Success b,
                    run_Failed := frb_Failed b, run_Unavailable := frb_Unavailable b,
                    run_Timeout := frb_Timeout b, run_FinishedUnix := frb_FinishedUnix b\<rparr>;
                  s1 = put_run rep (frb_RunID b) run1 s;
                  s2 = (if \<not> rep \<and> terminalRunStatus (run_Status run1)
                        then syncBackupFire (run_RunID run1) (frb_LeaderTerm b) 0 0 (run_Status run1) s1 else s1)
              in Inr (raise_term rep (frb_RunID b) (frb_LeaderTerm b) s2))))"

section \<open>Pruning\<close>

definition prunable_run :: "int \<Rightarrow> ClusterBackupRun \<Rightarrow> bool" where
  "prunable_run beforeUnix run \<longleftrightarrow> terminalRunStatus (run_Status run) \<and> run_FinishedUnix run < beforeUnix"

definition prunable_fire :: "int \<Rightarrow> FireRecord \<Rightarrow> bool" where
  "prunable_fire beforeUnix fire \<longleftrightarrow>
     (f_LeaseUntilUnix fire > 0 \<and> f_LeaseUntilUnix fire \<le> beforeUnix)
     \<or> (terminalRunStatus (f_Status fire) \<and> f_ScheduledUnix fire < beforeUnix)"

text \<open>One pass over the runs; \<^verbatim>\<open>delete\<close> takes effect as the loop goes.\<close>

definition prune_one :: "int \<Rightarrow> string \<times> ClusterBackupRun
    \<Rightarrow> (string, ClusterBackupRun) gomap \<times> (string, ClusterBackupTask) gomap \<times> (string, u64) gomap
    \<Rightarrow> (string, ClusterBackupRun) gomap \<times> (string, ClusterBackupTask) gomap \<times> (string, u64) gomap" where
  "prune_one beforeUnix = (\<lambda>(i, run) (runs, tasks, terms).
     if prunable_run beforeUnix run
     then (mdel i runs, mfilter (\<lambda>_ task. t_RunID task \<noteq> i) tasks, mdel i terms)
     else (runs, tasks, terms))"

definition prune_kind :: "int \<Rightarrow> bool \<Rightarrow> State \<Rightarrow> State" where
  "prune_kind beforeUnix rep s =
    (let (runs, tasks, terms) =
        fold (prune_one beforeUnix) (runs_of s rep) (runs_of s rep, tasks_of s rep, runTerms s rep)
     in set_terms rep terms (set_tasks rep tasks (set_runs rep runs s)))"

definition PruneRunMetadata :: "int \<Rightarrow> State \<Rightarrow> State" where
  "PruneRunMetadata beforeUnix s0 =
    (let s1 = prune_kind beforeUnix True (prune_kind beforeUnix False (ensure s0))
     in s1\<lparr>BackupFireLedger := mfilter (\<lambda>_ fire. \<not> prunable_fire beforeUnix fire) (BackupFireLedger s1)\<rparr>)"

definition applyPruneRunMetadata :: "PruneRunMetadataBody \<Rightarrow> State \<Rightarrow> goerror + State" where
  "applyPruneRunMetadata b s =
    check (requireOperationID (prb_OperationID b))
    (if prb_BeforeUnix b \<le> 0 then fail INVALID ''before unix required''
     else Inr (PruneRunMetadata (prb_BeforeUnix b) s))"

datatype RunCommand =
    CmdBackupFireClaim FireClaimBody
  | CmdBackupScheduledRunClaim ScheduledRunClaimBody
  | CmdBackupRunCreate CreateRunBody
  | CmdBackupRunClaim RunClaimBody
  | CmdBackupTaskUpdate UpdateTaskBody
  | CmdBackupRetryFailedTasks RetryFailedTasksBody
  | CmdBackupRunFinish FinishRunBody
  | CmdRunMetadataPrune PruneRunMetadataBody

primrec apply_run :: "env \<Rightarrow> gtime \<Rightarrow> RunCommand \<Rightarrow> State \<Rightarrow> goerror + State" where
  "apply_run e now (CmdBackupFireClaim b) s = map_sum id (\<lambda>(_, _, s'). s') (ClaimFire e b now s)"
| "apply_run e now (CmdBackupScheduledRunClaim b) s =
     map_sum id (\<lambda>(_, _, _, s'). s') (ClaimScheduledRun e b now s)"
| "apply_run e now (CmdBackupRunCreate b) s = applyCreateRun b s"
| "apply_run e now (CmdBackupRunClaim b) s = map_sum id snd (ClaimRun b s)"
| "apply_run e now (CmdBackupTaskUpdate b) s = applyUpdateTask b now s"
| "apply_run e now (CmdBackupRetryFailedTasks b) s = applyRetryFailedTasks b s"
| "apply_run e now (CmdBackupRunFinish b) s = applyFinishRun b s"
| "apply_run e now (CmdRunMetadataPrune b) s = applyPruneRunMetadata b s"

lemmas run_defs [handler_defs] =
  ClaimFire_def ClaimScheduledRun_def applyCreateRun_def ClaimRun_def applyUpdateTask_def
  applyRetryFailedTasks_def applyFinishRun_def applyPruneRunMetadata_def

section \<open>What the commands change\<close>

definition run_fields :: "State \<Rightarrow> State \<Rightarrow> State" where
  "run_fields s' s = s\<lparr>BackupFireLedger := BackupFireLedger s', BackupRuns := BackupRuns s',
     BackupTasks := BackupTasks s', ReplicationRuns := ReplicationRuns s',
     ReplicationTasks := ReplicationTasks s', BackupRunTerms := BackupRunTerms s',
     ReplicationRunTerms := ReplicationRunTerms s'\<rparr>"

lemma run_fields_simps [simp]:
  "run_fields s s = s"
  "run_fields (run_fields s2 s1) s = run_fields s2 s"
  "run_fields s2 (run_fields s1 s) = run_fields s2 s"
  by (simp_all add: run_fields_def)

definition only_runs :: "State \<Rightarrow> State \<Rightarrow> bool" where
  "only_runs s s' \<longleftrightarrow> s' = run_fields s' s"

lemma only_runs_refl [simp, intro]: "only_runs s s"
  by (simp add: only_runs_def)

lemma only_runs_trans: "only_runs s t \<Longrightarrow> only_runs t u \<Longrightarrow> only_runs s u"
  unfolding only_runs_def by (metis run_fields_simps(3))

lemma only_runs_step [simp]:
  "only_runs s (set_runs rep m t) = only_runs s t"
  "only_runs s (set_tasks rep n t) = only_runs s t"
  "only_runs s (set_terms rep p t) = only_runs s t"
  "only_runs s (put_fire k f t) = only_runs s t"
  "only_runs s (syncBackupFire r l c u st t) = only_runs s t"
  "only_runs s (t\<lparr>BackupFireLedger := fl\<rparr>) = only_runs s t"
  by (cases s; cases t; auto simp: only_runs_def run_fields_def set_runs_def set_tasks_def set_terms_def
      put_fire_def syncBackupFire_def)+

lemma only_runs_step2 [simp]:
  "only_runs s (put_run rep i r t) = only_runs s t"
  "only_runs s (put_term rep i l t) = only_runs s t"
  "only_runs s (raise_term rep i l t) = only_runs s t"
  "only_runs s (sync_if_terminal i l t) = only_runs s t"
  "only_runs s (prune_kind u rep t) = only_runs s t"
  by (auto simp: put_run_def put_term_def raise_term_def sync_if_terminal_def prune_kind_def
      split: option.split prod.split)

lemma ClaimFire_only_runs: "ClaimFire e b now s = Inr (r, a, s') \<Longrightarrow> only_runs (ensure s) s'"
  by (auto simp: ClaimFire_def Let_def)

lemma run_footprint:
  assumes "apply_run e now c s = Inr s'" 
  shows "only_runs (ensure s) s'"
proof (cases c)
  case (CmdBackupFireClaim b)
  with assms show ?thesis by (auto dest: ClaimFire_only_runs)
next
  case (CmdBackupScheduledRunClaim b)
  with assms show ?thesis
    by (auto simp: ClaimScheduledRun_def Let_def dest!: ClaimFire_only_runs)
next
  case (CmdBackupRunCreate b)
  with assms show ?thesis
    by (auto simp: applyCreateRun_def Let_def)
next
  case (CmdBackupRunClaim b)
  with assms show ?thesis
    by (auto simp: ClaimRun_def Let_def)
next
  case (CmdBackupTaskUpdate b)
  with assms show ?thesis
    by (auto simp: applyUpdateTask_def applyBeginReplicationTask_def Let_def)
next
  case (CmdBackupRetryFailedTasks b)
  with assms show ?thesis
    by (auto simp: applyRetryFailedTasks_def Let_def)
next
  case (CmdBackupRunFinish b)
  with assms show ?thesis
    by (auto simp: applyFinishRun_def Let_def)
next
  case (CmdRunMetadataPrune b)
  with assms show ?thesis
    by (auto simp: applyPruneRunMetadata_def PruneRunMetadata_def Let_def)
qed

lemma run_frame [footprint]:
  assumes "apply_run e now c s = Inr s'" and "ensured s"
  shows "\<exists>fl br bt rr rt b1 b2. s' = s\<lparr>BackupFireLedger := fl, BackupRuns := br, BackupTasks := bt,
     ReplicationRuns := rr, ReplicationTasks := rt, BackupRunTerms := b1, ReplicationRunTerms := b2\<rparr>"
  using run_footprint [OF assms(1)] unfolding ensured_ensure [OF assms(2)] only_runs_def run_fields_def
  by blast

end
