(* ===== verification/Control_Run_Claims.thy ===== *)
theory Control_Run_Claims imports Control_Runs
begin

text \<open>
  Facts about the fires and runs of \<open>Control_Runs\<close>: the result of every claim, pruning as one filter,
  the invariant \<open>runs_ok\<close> of the run maps, and that creating and claiming runs keep it.
\<close>


section \<open>Claiming fires\<close>

lemma ensure_runs [simp]:
  "BackupFireLedger (ensure s) = BackupFireLedger s" "BackupRuns (ensure s) = BackupRuns s"
  "BackupTasks (ensure s) = BackupTasks s" "ReplicationRuns (ensure s) = ReplicationRuns s"
  "ReplicationTasks (ensure s) = ReplicationTasks s" "BackupRunTerms (ensure s) = BackupRunTerms s"
  "ReplicationRunTerms (ensure s) = ReplicationRunTerms s"
  "BackupPolicies (ensure s) = BackupPolicies s" "ReplicationPolicies (ensure s) = ReplicationPolicies s"
  "Members (ensure s) = Members s" "AgentGroups (ensure s) = AgentGroups s"
  by (simp_all add: ensure_def)

lemma ensured_put_fire: "ensured s \<Longrightarrow> ensured (put_fire k f s)"
  by (simp add: put_fire_def ensured_def)

text \<open>What a claim does with a known fire, and with a new one.\<close>

definition taken_over :: "FireClaimBody \<Rightarrow> gtime \<Rightarrow> FireRecord \<Rightarrow> FireRecord" where
  "taken_over b now c = c\<lparr>f_LeaderTerm := fcb_LeaderTerm b, f_ClaimedUnix := Unix now,
     f_LeaseUntilUnix := (if fcb_LeaseUntilUnix b = 0 then Unix (now + defaultFireLease) else fcb_LeaseUntilUnix b),
     f_Status := S_CLAIMED\<rparr>"

definition made_durable :: "FireClaimBody \<Rightarrow> gtime \<Rightarrow> FireRecord \<Rightarrow> FireRecord" where
  "made_durable b now c = c\<lparr>f_Status := (if fcb_Status b = S_empty then S_CLAIMED else fcb_Status b),
     f_LeaseUntilUnix := 0, f_LeaderTerm := fcb_LeaderTerm b, f_ClaimedUnix := Unix now,
     f_RunID := (if fcb_RunID b \<noteq> [] then fcb_RunID b else f_RunID c)\<rparr>"

definition claims_durably :: "FireClaimBody \<Rightarrow> bool" where
  "claims_durably b \<longleftrightarrow> fcb_Status b = S_SKIPPED \<or> fcb_Durable b"

lemma claim_fire_known_cases:
  assumes "ClaimFire e b now s = Inr (r, a, s')" and "mget (BackupFireLedger s) (fcb_FireKey b) = Some c"
  shows "f_PolicyID c = fcb_PolicyID b \<and>
    (if durableFireRecord c \<or> f_LeaseUntilUnix c > Unix now \<or> fcb_LeaderTerm b \<le> f_LeaderTerm c
     then r = c \<and> \<not> a \<and> s' = ensure s
     else if claims_durably b then r = made_durable b now c \<and> \<not> a \<and> s' = put_fire (fcb_FireKey b) r (ensure s)
     else r = taken_over b now c \<and> a \<and> s' = put_fire (fcb_FireKey b) r (ensure s)
        \<and> (fcb_LeaseUntilUnix b \<noteq> 0 \<longrightarrow> \<not> lease_bad now (fcb_LeaseUntilUnix b)))"
proof -
  have "claims_durably b \<longleftrightarrow> (if fcb_Status b = S_empty then S_CLAIMED else fcb_Status b) = S_SKIPPED \<or> fcb_Durable b"
    by (simp add: claims_durably_def)
  with assms show ?thesis
    unfolding ClaimFire_def Let_def ensure_runs assms(2) option.case check_Inr if_Inr_iff
      taken_over_def made_durable_def
    by (elim conjE disjE) auto
qed

definition new_fire :: "env \<Rightarrow> FireClaimBody \<Rightarrow> gtime \<Rightarrow> FireRecord" where
  "new_fire e b now = \<lparr>f_FireKey = fcb_FireKey b, f_PolicyID = fcb_PolicyID b,
     f_RunID = (if fcb_RunID b = [] then runIDForFire e (fcb_FireKey b) else fcb_RunID b),
     f_ScheduledUnix = (if fcb_ScheduledUnix b = 0 then Unix now else fcb_ScheduledUnix b),
     f_ClaimedUnix = Unix now,
     f_LeaseUntilUnix = (if claims_durably b then 0
        else if fcb_LeaseUntilUnix b = 0 then Unix (now + defaultFireLease) else fcb_LeaseUntilUnix b),
     f_LeaderTerm = fcb_LeaderTerm b,
     f_Status = (if claims_durably b \<and> fcb_Status b = S_SKIPPED then S_SKIPPED else S_CLAIMED)\<rparr>"

lemma claim_fire_new:
  assumes "ClaimFire e b now s = Inr (r, a, s')" and "mget (BackupFireLedger s) (fcb_FireKey b) = None"
  shows "r = new_fire e b now \<and> a \<and> s' = put_fire (fcb_FireKey b) r (ensure s)
    \<and> (\<not> claims_durably b \<longrightarrow> \<not> lease_bad now (f_LeaseUntilUnix r))"
proof -
  have "claims_durably b \<longleftrightarrow> (if fcb_Status b = S_empty then S_CLAIMED else fcb_Status b) = S_SKIPPED \<or> fcb_Durable b"
    by (simp add: claims_durably_def)
  with assms show ?thesis
    unfolding ClaimFire_def Let_def ensure_runs assms(2) option.case check_Inr if_Inr_iff new_fire_def
    by (elim conjE disjE) (auto simp: claims_durably_def split: if_splits)
qed

lemma claim_fire_result:
  assumes "ClaimFire e b now s = Inr (r, a, s')"
  shows "ensured s'" and "mget (BackupFireLedger s') (fcb_FireKey b) = Some r" and "f_PolicyID r = fcb_PolicyID b"
    and "f_LeaderTerm r \<noteq> 0 \<or> (\<exists>c. mget (BackupFireLedger s) (fcb_FireKey b) = Some c \<and> r = c)"
    and "fcb_LeaderTerm b \<noteq> 0"
proof -
  show "fcb_LeaderTerm b \<noteq> 0"
    using assms unfolding ClaimFire_def Let_def check_Inr if_Inr_iff by (elim conjE disjE) simp_all
  then show "ensured s'" "mget (BackupFireLedger s') (fcb_FireKey b) = Some r" "f_PolicyID r = fcb_PolicyID b"
    "f_LeaderTerm r \<noteq> 0 \<or> (\<exists>c. mget (BackupFireLedger s) (fcb_FireKey b) = Some c \<and> r = c)"
    using claim_fire_known_cases [OF assms] claim_fire_new [OF assms]
    by (cases "mget (BackupFireLedger s) (fcb_FireKey b)";
        auto simp: put_fire_def ensure_ensured new_fire_def taken_over_def made_durable_def
          intro: ensured_fields [OF ensure_ensured] split: if_splits)+
qed

lemma claim_fire_run_id:
  assumes "ClaimFire e b now s = Inr (r, a, s')" and "mget (BackupFireLedger s) (fcb_FireKey b) = Some c"
  shows "f_ScheduledUnix r = f_ScheduledUnix c \<and> f_LeaderTerm c \<le> f_LeaderTerm r
    \<and> (claims_durably b \<or> f_RunID r = f_RunID c)
    \<and> (a \<longrightarrow> f_LeaseUntilUnix c \<le> Unix now \<and> f_LeaderTerm c < f_LeaderTerm r \<and> Unix now < f_LeaseUntilUnix r)"
proof -
  have "Unix now < Unix (now + defaultFireLease)"
    using Unix_add_seconds [of now 120] by (simp add: defaultFireLease_def)
  with claim_fire_known_cases [OF assms] show ?thesis
    by (auto simp: taken_over_def made_durable_def lease_bad_def split: if_splits)
qed

section \<open>Pruning in one shot\<close>

definition old_run :: "int \<Rightarrow> (string, ClusterBackupRun) gomap \<Rightarrow> string \<Rightarrow> bool" where
  "old_run u runs k = (case mget runs k of Some r \<Rightarrow> prunable_run u r | None \<Rightarrow> False)"

lemma mfilter_mfilter: "mfilter P (mfilter Q m) = mfilter (\<lambda>k v. Q k v \<and> P k v) m"
  by (induction m) (auto simp: mfilter_def)

lemma mdel_mfilter: "mdel i m = mfilter (\<lambda>k _. k \<noteq> i) m"
  by (auto simp: mfilter_def AList.delete_eq intro!: filter_cong)

lemma mfilter_True [simp]: "mfilter (\<lambda>_ _. True) m = m"
  by (simp add: mfilter_def)

lemma fold_prune_one:
  "fold (prune_one u) es (R, T, M) =
    (mfilter (\<lambda>k _. \<forall>r. (k, r) \<in> set es \<longrightarrow> \<not> prunable_run u r) R,
     mfilter (\<lambda>_ t. \<forall>r. (t_RunID t, r) \<in> set es \<longrightarrow> \<not> prunable_run u r) T,
     mfilter (\<lambda>k _. \<forall>r. (k, r) \<in> set es \<longrightarrow> \<not> prunable_run u r) M)"
proof (induction es arbitrary: R T M)
  case (Cons e es)
  obtain i r where e: "e = (i, r)" by (cases e)
  show ?case
  proof (cases "prunable_run u r")
    case True
    then have one: "prune_one u e (R, T, M) = (mdel i R, mfilter (\<lambda>_ t. t_RunID t \<noteq> i) T, mdel i M)"
      by (simp add: prune_one_def e)
    have *: "k \<noteq> i \<and> (\<forall>x. (k, x) \<in> set es \<longrightarrow> \<not> prunable_run u x) \<longleftrightarrow>
        (\<forall>x. (k, x) \<in> set (e # es) \<longrightarrow> \<not> prunable_run u x)" for k
      using True e by auto
    show ?thesis
      unfolding fold_Cons comp_def one Cons.IH mdel_mfilter mfilter_mfilter * ..
  next
    case False
    then have one: "prune_one u e (R, T, M) = (R, T, M)" by (simp add: prune_one_def e)
    have *: "(\<forall>x. (k, x) \<in> set es \<longrightarrow> \<not> prunable_run u x) \<longleftrightarrow>
        (\<forall>x. (k, x) \<in> set (e # es) \<longrightarrow> \<not> prunable_run u x)" for k
      using False e by auto
    show ?thesis unfolding fold_Cons comp_def one Cons.IH * ..
  qed
qed simp

lemma not_old_run:
  "wfmap runs \<Longrightarrow> (\<forall>r. (k, r) \<in> set runs \<longrightarrow> \<not> prunable_run u r) \<longleftrightarrow> \<not> old_run u runs k"
  by (auto simp: old_run_def mget_in_set [symmetric] split: option.splits)

lemma prune_kind_filter:
  assumes "wfmap (runs_of s rep)"
  shows "prune_kind u rep s =
    set_terms rep (mfilter (\<lambda>k _. \<not> old_run u (runs_of s rep) k) (runTerms s rep))
     (set_tasks rep (mfilter (\<lambda>_ t. \<not> old_run u (runs_of s rep) (t_RunID t)) (tasks_of s rep))
      (set_runs rep (mfilter (\<lambda>k _. \<not> old_run u (runs_of s rep) k) (runs_of s rep)) s))"
  unfolding prune_kind_def fold_prune_one not_old_run [OF assms] by simp

section \<open>The invariant of runs, tasks and terms\<close>

definition task_ok :: "(string, ClusterBackupRun) gomap \<Rightarrow> string \<Rightarrow> ClusterBackupTask \<Rightarrow> bool" where
  "task_ok runs k t \<longleftrightarrow> k = taskMapKey t \<and> mhas runs (t_RunID t) \<and> validTaskStatus (t_Status t)"

definition run_ok :: "string \<Rightarrow> ClusterBackupRun \<Rightarrow> bool" where
  "run_ok k r \<longleftrightarrow> run_RunID r = k \<and> validRunStatus (run_Status r)"

definition kind_ok :: "(string, ClusterBackupRun) gomap \<Rightarrow> (string, ClusterBackupTask) gomap
    \<Rightarrow> (string, u64) gomap \<Rightarrow> bool" where
  "kind_ok runs tasks terms \<longleftrightarrow> wfmap runs \<and> wfmap tasks \<and> wfmap terms \<and> mall run_ok runs \<and> mall (task_ok runs) tasks
     \<and> (\<forall>k. mhas terms k \<longleftrightarrow> mhas runs k)"

definition runs_ok :: "State \<Rightarrow> bool" where
  "runs_ok s \<longleftrightarrow> (\<forall>rep. kind_ok (runs_of s rep) (tasks_of s rep) (runTerms s rep))"

lemma kind_of: "runs_ok s \<Longrightarrow> kind_ok (runs_of s rep) (tasks_of s rep) (runTerms s rep)"
  by (simp add: runs_ok_def)

lemma runs_ok_intro:
  assumes "runs_ok s" and "kind_ok (runs_of s' rep) (tasks_of s' rep) (runTerms s' rep)"
    and "\<And>r. r \<noteq> rep \<Longrightarrow> runs_of s' r = runs_of s r \<and> tasks_of s' r = tasks_of s r \<and> runTerms s' r = runTerms s r"
  shows "runs_ok s'"
  unfolding runs_ok_def
proof
  fix r
  show "kind_ok (runs_of s' r) (tasks_of s' r) (runTerms s' r)"
    using assms kind_of [OF assms(1), of r] by (cases "r = rep") auto
qed

lemma runs_ok_same:
  assumes "runs_ok s" and "\<And>r. runs_of s' r = runs_of s r \<and> tasks_of s' r = tasks_of s r \<and> runTerms s' r = runTerms s r"
  shows "runs_ok s'"
  using assms by (simp add: runs_ok_def)

lemma maps_other [simp]:
  "runs_of (ensure s) r = runs_of s r" "tasks_of (ensure s) r = tasks_of s r" "runTerms (ensure s) r = runTerms s r"
  "runs_of (put_fire k f s) r = runs_of s r" "tasks_of (put_fire k f s) r = tasks_of s r"
  "runTerms (put_fire k f s) r = runTerms s r"
  "runs_of (syncBackupFire i l c u st s) r = runs_of s r" "tasks_of (syncBackupFire i l c u st s) r = tasks_of s r"
  "runTerms (syncBackupFire i l c u st s) r = runTerms s r"
  "runs_of (s\<lparr>BackupFireLedger := fl\<rparr>) r = runs_of s r" "tasks_of (s\<lparr>BackupFireLedger := fl\<rparr>) r = tasks_of s r"
  "runTerms (s\<lparr>BackupFireLedger := fl\<rparr>) r = runTerms s r"
  by (simp_all add: runs_of_def tasks_of_def runTerms_def put_fire_def syncBackupFire_def)

lemma maps_sync [simp]:
  "runs_of (sync_if_terminal i l s) r = runs_of s r" "tasks_of (sync_if_terminal i l s) r = tasks_of s r"
  "runTerms (sync_if_terminal i l s) r = runTerms s r"
  by (simp_all add: sync_if_terminal_def split: option.split)

lemma terms_raise:
  "runTerms (raise_term rep i t s) r =
     (if r = rep \<and> t > term_of s rep i then mput i t (runTerms s rep) else runTerms s r)"
  by (simp add: raise_term_def)

lemma mhas_raise: "mhas (runTerms (raise_term rep i t s) rep) k \<Longrightarrow> k = i \<or> mhas (runTerms s rep) k"
  by (simp add: terms_raise split: if_splits)

lemma mhas_raise_old: "mhas (runTerms s rep) k \<Longrightarrow> mhas (runTerms (raise_term rep i t s) rep) k"
  by (simp add: terms_raise)

lemma kind_put_run:
  assumes "kind_ok runs tasks terms" and "run_ok i r" and "mhas runs i"
  shows "kind_ok (mput i r runs) tasks terms"
proof -
  have "mall (task_ok (mput i r runs)) tasks"
    using assms(1) unfolding kind_ok_def by (auto elim!: mall_mono simp: task_ok_def)
  with assms show ?thesis unfolding kind_ok_def by (auto intro: mall_mput)
qed

lemma kind_new_run:
  assumes "kind_ok runs tasks terms" and "run_ok i r"
  shows "kind_ok (mput i r runs) tasks (mput i t terms)"
proof -
  have "mall (task_ok (mput i r runs)) tasks"
    using assms(1) unfolding kind_ok_def by (auto elim!: mall_mono simp: task_ok_def)
  with assms show ?thesis unfolding kind_ok_def by (auto intro: mall_mput)
qed

lemma kind_put_task:
  assumes "kind_ok runs tasks terms" and "task_ok runs k t"
  shows "kind_ok runs (mput k t tasks) terms"
  using assms unfolding kind_ok_def by (auto intro: mall_mput)

lemma kind_put_term:
  assumes "kind_ok runs tasks terms" and "mhas runs i"
  shows "kind_ok runs tasks (mput i t terms)"
  using assms unfolding kind_ok_def by auto

lemma kind_raise:
  assumes "kind_ok runs tasks (runTerms s rep)" and "mhas runs i"
  shows "kind_ok runs tasks (runTerms (raise_term rep i t s) rep)"
  using assms kind_put_term by (auto simp: terms_raise)

lemma kind_map_tasks:
  assumes "kind_ok runs tasks terms"
    and "\<And>t. validTaskStatus (t_Status t) \<Longrightarrow> validTaskStatus (t_Status (f t))
        \<and> t_RunID (f t) = t_RunID t \<and> t_TaskID (f t) = t_TaskID t"
  shows "kind_ok runs (mmap (\<lambda>_. f) tasks) terms"
proof -
  have "mall (\<lambda>k t. task_ok runs k (f t)) tasks"
    using assms unfolding kind_ok_def by (auto elim!: mall_mono simp: task_ok_def taskMapKey_def)
  with assms(1) show ?thesis unfolding kind_ok_def by simp
qed

lemma kind_prune:
  assumes "kind_ok runs tasks terms"
  shows "kind_ok (mfilter (\<lambda>k _. P k) runs) (mfilter (\<lambda>_ t. P (t_RunID t)) tasks) (mfilter (\<lambda>k _. P k) terms)"
proof -
  have wf: "wfmap runs" "wfmap tasks" "wfmap terms" using assms(1) by (simp_all add: kind_ok_def)
  have "mall (task_ok (mfilter (\<lambda>k _. P k) runs)) (mfilter (\<lambda>_ t. P (t_RunID t)) tasks)"
    unfolding mall_def
  proof (intro allI impI)
    fix k t assume "mget (mfilter (\<lambda>_ t. P (t_RunID t)) tasks) k = Some t"
    then have t: "mget tasks k = Some t" "P (t_RunID t)"
      using wf by (simp_all add: mget_mfilter split: option.splits if_splits)
    from assms have "mall (task_ok runs) tasks" by (simp add: kind_ok_def)
    from mallD [OF this t(1)] t(2) wf show "task_ok (mfilter (\<lambda>k _. P k) runs) k t"
      by (auto simp: task_ok_def mhas_def mget_mfilter)
  qed
  moreover have "mhas (mfilter (\<lambda>k _. P k) terms) k \<longleftrightarrow> mhas (mfilter (\<lambda>k _. P k) runs) k" for k
  proof -
    from assms have "mhas terms k \<longleftrightarrow> mhas runs k" by (simp add: kind_ok_def)
    with wf show ?thesis by (auto simp: mget_mfilter mhas_def split: option.splits)
  qed
  ultimately show ?thesis using assms(1) wf by (auto simp: kind_ok_def mall_mfilter)
qed


text \<open>Each handler keeps the invariant.\<close>

lemma checks_ensure [simp]:
  "isAdmittedMember (ensure s) = isAdmittedMember s" "admitted_ids (ensure s) = admitted_ids s"
  "group_members (ensure s) = group_members s"
  by (simp_all add: isAdmittedMember_def admitted_ids_def group_members_def fun_eq_iff)

lemma admitted_in_groups_ensure [simp]: "admitted_in_groups (ensure s) = admitted_in_groups s"
  by (simp add: admitted_in_groups_def fun_eq_iff)

lemma validateRunTargets_ensure [simp]: "validateRunTargets (ensure s) = validateRunTargets s"
  by (intro ext) (simp only: validateRunTargets_def checks_ensure admitted_in_groups_ensure ensure_runs)

lemma check_run_policy_ensure [simp]: "check_run_policy (ensure s) = check_run_policy s"
  by (rule ext) (simp only: check_run_policy_def ensure_runs validateRunTargets_ensure)

lemma create_run_result:
  assumes "applyCreateRun b s = Inr s'"
  shows "check_run_policy s b = None" and "validRunStatus (run_Status (crb_Run b))" and "crb_LeaderTerm b \<noteq> 0"
    and "validateTargetNodeIDs (elems (run_TargetNodeIDs (crb_Run b))) = None"
    and "case mget (runs_of s (crb_Replication b)) (run_RunID (crb_Run b)) of
        Some current \<Rightarrow> s' = ensure s \<and> (if crb_Replication b then sameFrozenRun current (crb_Run b)
            \<and> sameInitialRouteTasks (tasks_of s True) (run_RunID (crb_Run b)) (crb_Tasks b) else current = crb_Run b)
      | None \<Rightarrow> s' = set_tasks (crb_Replication b)
            (store_tasks (crb_LeaderTerm b) (crb_Tasks b) (tasks_of s (crb_Replication b)))
            (put_term (crb_Replication b) (run_RunID (crb_Run b)) (crb_LeaderTerm b)
              (put_run (crb_Replication b) (run_RunID (crb_Run b))
                ((crb_Run b)\<lparr>run_TargetNodeIDs := slice_copy (run_TargetNodeIDs (crb_Run b))\<rparr>) (ensure s)))"
proof -
  from assms show "check_run_policy s b = None" "validRunStatus (run_Status (crb_Run b))" "crb_LeaderTerm b \<noteq> 0"
    "validateTargetNodeIDs (elems (run_TargetNodeIDs (crb_Run b))) = None"
    by (simp_all add: applyCreateRun_def Let_def)
  show "case mget (runs_of s (crb_Replication b)) (run_RunID (crb_Run b)) of
        Some current \<Rightarrow> s' = ensure s \<and> (if crb_Replication b then sameFrozenRun current (crb_Run b)
            \<and> sameInitialRouteTasks (tasks_of s True) (run_RunID (crb_Run b)) (crb_Tasks b) else current = crb_Run b)
      | None \<Rightarrow> s' = set_tasks (crb_Replication b)
            (store_tasks (crb_LeaderTerm b) (crb_Tasks b) (tasks_of s (crb_Replication b)))
            (put_term (crb_Replication b) (run_RunID (crb_Run b)) (crb_LeaderTerm b)
              (put_run (crb_Replication b) (run_RunID (crb_Run b))
                ((crb_Run b)\<lparr>run_TargetNodeIDs := slice_copy (run_TargetNodeIDs (crb_Run b))\<rparr>) (ensure s)))"
    using assms
    by (cases "mget (runs_of s (crb_Replication b)) (run_RunID (crb_Run b))")
      (auto simp: applyCreateRun_def Let_def)
qed

lemma check_initial_tasks_None:
  assumes "check_initial_tasks run expected ids routes ts = None" and "t \<in> set ts"
  shows "t_RunID t = run_RunID run \<and> t_Status t = S_PENDING \<and> t_SourceNodeID t \<noteq> []
    \<and> route_key (t_SourceNodeID t) (t_NodeID t) \<in> set expected"
  using assms
proof (induction run expected ids routes ts rule: check_initial_tasks.induct)
  case (2 run expected ids routes task ts)
  then show ?case by (auto simp: Let_def split: option.splits if_splits)
qed simp

lemma initial_tasks_ok:
  assumes "check_run_policy s b = None" and "t \<in> set (crb_Tasks b)"
  shows "t_RunID t = run_RunID (crb_Run b) \<and> t_Status t = S_PENDING"
  using assms check_initial_tasks_None
  by (auto simp: check_run_policy_def Let_def validateInitialReplicationTasks_def split: if_splits option.splits)

lemma kind_store_tasks:
  assumes "kind_ok runs tasks terms" and "\<And>t. t \<in> set ts \<Longrightarrow> mhas runs (t_RunID t) \<and> validTaskStatus (t_Status t)"
  shows "kind_ok runs (store_tasks l ts tasks) terms"
  using assms unfolding store_tasks_def
proof (induction ts arbitrary: tasks)
  case (Cons t ts)
  have "task_ok runs (taskMapKey t) (t\<lparr>t_LeaderTerm := l\<rparr>)"
    using Cons.prems(2) [of t] by (simp add: task_ok_def taskMapKey_def)
  from Cons.IH [OF kind_put_task [OF Cons.prems(1) this]] Cons.prems(2) show ?case by simp
qed simp

lemma create_run_ok:
  assumes "applyCreateRun b s = Inr s'" and "runs_ok s"
  shows "runs_ok s'"
proof (cases "mget (runs_of s (crb_Replication b)) (run_RunID (crb_Run b))")
  case (Some r)
  with create_run_result(5) [OF assms(1)] have "s' = ensure s" by simp
  then show ?thesis by (intro runs_ok_same [OF assms(2)]) simp
next
  case None
  define rep where "rep = crb_Replication b"
  define i where "i = run_RunID (crb_Run b)"
  define r where "r = (crb_Run b)\<lparr>run_TargetNodeIDs := slice_copy (run_TargetNodeIDs (crb_Run b))\<rparr>"
  from None create_run_result(5) [OF assms(1)]
  have s': "s' = set_tasks rep (store_tasks (crb_LeaderTerm b) (crb_Tasks b) (tasks_of s rep))
      (put_term rep i (crb_LeaderTerm b) (put_run rep i r (ensure s)))"
    by (simp add: rep_def i_def r_def)
  have "run_ok i r" using create_run_result(2) [OF assms(1)] by (simp add: run_ok_def i_def r_def)
  from kind_new_run [OF kind_of [OF assms(2), of rep] this]
  have "kind_ok (mput i r (runs_of s rep)) (tasks_of s rep) (mput i (crb_LeaderTerm b) (runTerms s rep))" .
  then have "kind_ok (mput i r (runs_of s rep)) (store_tasks (crb_LeaderTerm b) (crb_Tasks b) (tasks_of s rep))
      (mput i (crb_LeaderTerm b) (runTerms s rep))"
    by (rule kind_store_tasks)
      (use initial_tasks_ok [OF create_run_result(1) [OF assms(1)]] in \<open>simp add: i_def status_defs\<close>)
  then show ?thesis by (intro runs_ok_intro [OF assms(2), of _ rep]) (simp_all add: s')
qed

lemma claim_run_cases:
  assumes "ClaimRun b s = Inr (a, s')"
  obtains "\<not> a" and "s' = ensure s"
  | run where "a" and "mget (runs_of s (rcb_Replication b)) (rcb_RunID b) = Some run"
      and "\<not> terminalRunStatus (run_Status run)" and "run_LeaseUntilUnix run \<le> rcb_UpdatedUnix b"
      and "term_of s (rcb_Replication b) (rcb_RunID b) \<le> rcb_LeaderTerm b"
      and "\<And>r. runs_of s' r = (if r = rcb_Replication b
            then mput (rcb_RunID b) (run\<lparr>run_LeaseUntilUnix := rcb_LeaseUntilUnix b\<rparr>) (runs_of s r) else runs_of s r)"
      and "\<And>r. tasks_of s' r = tasks_of s r"
      and "\<And>r. runTerms s' r = (if r = rcb_Replication b
            then mput (rcb_RunID b) (rcb_LeaderTerm b) (runTerms s r) else runTerms s r)"
proof (cases a)
  case False
  with assms that(1) show ?thesis by (auto simp: ClaimRun_def Let_def)
next
  case True
  define rep where "rep = rcb_Replication b"
  define i where "i = rcb_RunID b"
  from assms True obtain run where run: "mget (runs_of s rep) i = Some run"
    by (cases "mget (runs_of s rep) i") (simp_all add: ClaimRun_def Let_def rep_def i_def)
  define s1 where "s1 = put_term rep i (rcb_LeaderTerm b)
      (put_run rep i (run\<lparr>run_LeaseUntilUnix := rcb_LeaseUntilUnix b\<rparr>) (ensure s))"
  have t: "term_of (ensure s) rep i = term_of s rep i" by (simp add: term_of_def)
  from assms True run t have "\<not> terminalRunStatus (run_Status run)" "run_LeaseUntilUnix run \<le> rcb_UpdatedUnix b"
    "term_of s rep i \<le> rcb_LeaderTerm b"
    and s': "s' = (if \<not> rep then syncBackupFire i (rcb_LeaderTerm b) (rcb_UpdatedUnix b) (rcb_LeaseUntilUnix b) S_CLAIMED s1 else s1)"
    unfolding s1_def rep_def i_def by (auto simp: ClaimRun_def Let_def not_less)
  moreover have "runs_of s' r = (if r = rep then mput i (run\<lparr>run_LeaseUntilUnix := rcb_LeaseUntilUnix b\<rparr>) (runs_of s r) else runs_of s r)"
    "tasks_of s' r = tasks_of s r"
    "runTerms s' r = (if r = rep then mput i (rcb_LeaderTerm b) (runTerms s r) else runTerms s r)" for r
    by (simp_all add: s' s1_def)
  ultimately show ?thesis using that(2) True run unfolding rep_def i_def by blast
qed

lemma claim_run_ok:
  assumes "ClaimRun b s = Inr (a, s')" and "runs_ok s"
  shows "runs_ok s'"
  using assms(1)
proof (cases rule: claim_run_cases)
  case 1
  then show ?thesis by (intro runs_ok_same [OF assms(2)]) simp
next
  case (2 run)
  note k = kind_of [OF assms(2), of "rcb_Replication b"]
  from 2(2) k have "run_ok (rcb_RunID b) run" unfolding kind_ok_def by (blast dest: mallD)
  then have "run_ok (rcb_RunID b) (run\<lparr>run_LeaseUntilUnix := rcb_LeaseUntilUnix b\<rparr>)" by (simp add: run_ok_def)
  from kind_put_term [OF kind_put_run [OF k this], of "rcb_RunID b" "rcb_LeaderTerm b"] 2(2)
  show ?thesis by (intro runs_ok_intro [OF assms(2), of _ "rcb_Replication b"]) (simp_all add: 2(6-8))
qed

text \<open>The scheduled claim: a new run, a takeover of its lease, or no change to the runs.\<close>

lemma validateCreateRun_None:
  assumes "validateCreateRun s run l rep = None"
  obtains s1 where "applyCreateRun \<lparr>crb_OperationID = ''scheduled-validate'', crb_Run = run, crb_Tasks = [],
        crb_LeaderTerm = l, crb_Replication = rep\<rparr> s = Inr s1"
proof -
  have "applyCreateRun b (ensure s) = applyCreateRun b s" for b
    by (simp only: applyCreateRun_def ensure_idem)
  with assms that show ?thesis by (auto simp: validateCreateRun_def split: sum.splits)
qed

lemma scheduled_cases:
  assumes "ClaimScheduledRun e b now s = Inr (rec, run, a, s')"
  obtains (none) "\<And>r. runs_of s' r = runs_of s r \<and> tasks_of s' r = tasks_of s r \<and> runTerms s' r = runTerms s r"
      and "\<not> a" and "mget (BackupFireLedger s) (fcb_FireKey (src_Fire b)) \<noteq> None"
  | (takeover) c old where "mget (BackupFireLedger s) (fcb_FireKey (src_Fire b)) = Some c"
      and "mget (BackupRuns s) (f_RunID c) = Some old" and "\<not> terminalRunStatus (run_Status old)"
      and "f_LeaseUntilUnix c \<le> Unix now" and "f_LeaderTerm c < fcb_LeaderTerm (src_Fire b)" and "a"
      and "rec = taken_over (src_Fire b) now c"
      and "run = old\<lparr>run_LeaseUntilUnix := f_LeaseUntilUnix rec\<rparr>"
      and "s' = put_term False (run_RunID old) (f_LeaderTerm rec) (put_run False (run_RunID old) run
            (put_fire (fcb_FireKey (src_Fire b)) rec (ensure s)))"
  | (fresh) s1 where "mget (BackupFireLedger s) (fcb_FireKey (src_Fire b)) = None" and "a"
      and "rec = new_fire e (src_Fire b) now"
      and "run_RunID (src_Run b) = runIDForFire e (fcb_FireKey (src_Fire b))"
      and "run_PolicyID (src_Run b) = fcb_PolicyID (src_Fire b)"
      and "applyCreateRun \<lparr>crb_OperationID = ''scheduled-validate'', crb_Run = src_Run b, crb_Tasks = [],
            crb_LeaderTerm = fcb_LeaderTerm (src_Fire b), crb_Replication = False\<rparr> s = Inr s1"
      and "run = (src_Run b)\<lparr>run_TargetNodeIDs := slice_copy (run_TargetNodeIDs (src_Run b)),
            run_LeaseUntilUnix := (if run_LeaseUntilUnix (src_Run b) = 0 then f_LeaseUntilUnix rec
              else run_LeaseUntilUnix (src_Run b))\<rparr>"
      and "s' = put_term False (run_RunID (src_Run b)) (fcb_LeaderTerm (src_Fire b))
            (put_run False (run_RunID (src_Run b)) run (put_fire (fcb_FireKey (src_Fire b)) rec (ensure s)))"
proof -
  define fire where "fire = src_Fire b"
  note d = assms [unfolded ClaimScheduledRun_def Let_def ensure_runs, folded fire_def]
  show ?thesis
  proof (cases "mget (BackupFireLedger s) (fcb_FireKey fire)")
    case None
    from d [unfolded None option.case] have ids: "run_RunID (src_Run b) = runIDForFire e (fcb_FireKey fire)"
        "run_PolicyID (src_Run b) = fcb_PolicyID fire"
      and v: "validateCreateRun (ensure s) (src_Run b) (fcb_LeaderTerm fire) False = None"
      by simp_all
    from d [unfolded None option.case] ids v obtain r1 a1 s1 where cf: "ClaimFire e fire now (ensure s) = Inr (r1, a1, s1)"
      by (cases "ClaimFire e fire now (ensure s)") auto
    have "mget (BackupFireLedger (ensure s)) (fcb_FireKey fire) = None" by (simp add: None)
    note new = claim_fire_new [OF cf this]
    from v have "validateCreateRun s (src_Run b) (fcb_LeaderTerm fire) False = None"
      by (simp add: validateCreateRun_def)
    from validateCreateRun_None [OF this] obtain s2 where s2: "applyCreateRun \<lparr>crb_OperationID = ''scheduled-validate'',
        crb_Run = src_Run b, crb_Tasks = [], crb_LeaderTerm = fcb_LeaderTerm fire, crb_Replication = False\<rparr> s = Inr s2" .
    show ?thesis
      using d [unfolded None option.case] ids v new cf None s2
      by (intro fresh [of s2]) (auto simp: fire_def split: if_splits)
  next
    case (Some c)
    from d [unfolded Some option.case] obtain old where old: "mget (BackupRuns s) (f_RunID c) = Some old"
      by (cases "mget (BackupRuns s) (f_RunID c)") simp_all
    note d2 = d [unfolded Some option.case old]
    show ?thesis
    proof (cases "terminalRunStatus (run_Status old) \<or> f_LeaseUntilUnix c > Unix now \<or> fcb_LeaderTerm fire \<le> f_LeaderTerm c")
      case True
      with d2 have "s' = ensure s \<and> \<not> a" by (auto split: if_splits)
      with Some show ?thesis by (intro none) (simp_all add: fire_def)
    next
      case False
      with d2 obtain r1 a1 s1 where cf: "ClaimFire e fire now (ensure s) = Inr (r1, a1, s1)"
        by (cases "ClaimFire e fire now (ensure s)") auto
      have "mget (BackupFireLedger (ensure s)) (fcb_FireKey fire) = Some c" by (simp add: Some)
      note known = claim_fire_known_cases [OF cf this]
      show ?thesis
      proof (cases a1)
        case True
        with known False have "\<not> durableFireRecord c" "r1 = taken_over fire now c"
          "s1 = put_fire (fcb_FireKey fire) r1 (ensure s)" by (auto split: if_splits)
        with d2 False cf True Some old show ?thesis
          by (intro takeover [of c old]) (auto simp: fire_def)
      next
        case ff: False
        with known have "s1 = ensure s \<or> s1 = put_fire (fcb_FireKey fire) r1 (ensure s)" by (auto split: if_splits)
        moreover from d2 False cf ff have "s' = s1 \<and> \<not> a" by auto
        ultimately show ?thesis using Some by (intro none) (auto simp: fire_def)
      qed
    qed
  qed
qed

lemma runs_of_False: "runs_of s False = BackupRuns s" by (simp add: runs_of_def)

lemma scheduled_ok:
  assumes "ClaimScheduledRun e b now s = Inr (rec, run, a, s')" and "runs_ok s"
  shows "runs_ok s'"
  using assms(1)
proof (cases rule: scheduled_cases)
  case none
  with runs_ok_same [OF assms(2)] show ?thesis by blast
next
  case (takeover c old)
  note k = kind_of [OF assms(2), of False]
  from takeover(2) k have o: "run_ok (f_RunID c) old" unfolding kind_ok_def runs_of_False by (blast dest: mallD)
  then have r: "run_ok (run_RunID old) run" and i: "run_RunID old = f_RunID c" by (simp_all add: run_ok_def takeover(8))
  from takeover(2) have "mhas (runs_of s False) (run_RunID old)" by (simp add: runs_of_False i)
  with kind_put_term [OF kind_put_run [OF k r], of "run_RunID old" "f_LeaderTerm rec"]
  show ?thesis by (intro runs_ok_intro [OF assms(2), of _ False]) (simp_all add: takeover(9))
next
  case (fresh s1)
  note k = kind_of [OF assms(2), of False]
  have "run_ok (run_RunID (src_Run b)) run"
    using create_run_result(2) [OF fresh(6)] by (simp add: run_ok_def fresh(7))
  from kind_new_run [OF k this, of "fcb_LeaderTerm (src_Fire b)"]
  show ?thesis by (intro runs_ok_intro [OF assms(2), of _ False]) (simp_all add: fresh(8))
qed

end
