(* ===== verification/Control_Run_Steps.thy ===== *)
theory Control_Run_Steps imports Control_Run_Claims
begin

text \<open>
  Facts about the running of runs: the cases of a task update, of a retry and of a finish, what
  pruning leaves, and that every run command keeps \<open>runs_ok\<close>.
\<close>

section \<open>Task updates\<close>


text \<open>Updating a task: a replication task is begun, or the task is stored and the run aggregated.\<close>

lemma begin_task_cases:
  assumes "applyBeginReplicationTask b now s = Inr s'"
  obtains run cur new where "mget (runs_of s (utb_Replication b)) (t_RunID (utb_Task b)) = Some run"
    and "run_Status run = S_RUNNING" and "Unix now < run_LeaseUntilUnix run"
    and "term_of s (utb_Replication b) (t_RunID (utb_Task b)) = utb_LeaderTerm b"
    and "mget (tasks_of s (utb_Replication b)) (taskMapKey (utb_Task b)) = Some cur"
    and "t_RunID new = t_RunID cur" and "t_TaskID new = t_TaskID cur" and "t_Status new = S_RUNNING"
    and "t_RunID cur = t_RunID (utb_Task b)"
    and "s' = set_tasks (utb_Replication b) (mput (taskMapKey (utb_Task b)) new (tasks_of s (utb_Replication b))) s"
proof -
  define rep where "rep = utb_Replication b"
  define t where "t = utb_Task b"
  note d = assms [unfolded applyBeginReplicationTask_def Let_def, folded rep_def t_def]
  from d obtain run where run: "mget (runs_of s rep) (t_RunID t) = Some run"
    by (cases "mget (runs_of s rep) (t_RunID t)") simp_all
  from d run obtain cur where cur: "mget (tasks_of s rep) (taskMapKey t) = Some cur"
    by (cases "mget (tasks_of s rep) (taskMapKey t)") simp_all
  note d2 = d [unfolded run cur option.case]
  have st: "run_Status run = S_RUNNING" "Unix now < run_LeaseUntilUnix run" "term_of s rep (t_RunID t) = utb_LeaderTerm b"
    "t_RunID cur = t_RunID t"
    using d2 by simp_all
  have "\<exists>new. t_RunID new = t_RunID cur \<and> t_TaskID new = t_TaskID cur \<and> t_Status new = S_RUNNING
      \<and> s' = set_tasks rep (mput (taskMapKey t) new (tasks_of s rep)) s"
  proof -
    define c1 where "c1 = (if t_SnapshotID cur \<noteq> t_SnapshotID t \<or> t_SHA256 cur \<noteq> t_SHA256 t
        then cur\<lparr>t_SnapshotID := t_SnapshotID t, t_SHA256 := t_SHA256 t\<rparr> else cur)"
    define c2 where "c2 = c1\<lparr>t_Status := S_RUNNING, t_Bytes := 0, t_ErrorCode := [], t_ErrorSummary := [],
        t_LeaderTerm := utb_LeaderTerm b, t_UpdatedUnix := Unix now\<rparr>"
    have "(t_Status c1 = S_RUNNING \<and> s' = set_tasks rep (mput (taskMapKey t) c1 (tasks_of s rep)) s)
        \<or> s' = set_tasks rep (mput (taskMapKey t) c2 (tasks_of s rep)) s"
      using d2 [folded c1_def] unfolding c2_def by simp blast
    moreover have "t_RunID c1 = t_RunID cur" "t_TaskID c1 = t_TaskID cur" by (simp_all add: c1_def)
    moreover from this have "t_RunID c2 = t_RunID cur" "t_TaskID c2 = t_TaskID cur" "t_Status c2 = S_RUNNING"
      by (simp_all add: c2_def)
    ultimately show ?thesis by blast
  qed
  with that run st cur show ?thesis unfolding rep_def t_def by blast
qed

definition stored_task :: "UpdateTaskBody \<Rightarrow> State \<Rightarrow> ClusterBackupTask" where
  "stored_task b s = (let task = utb_Task b in
     (case mget (tasks_of s (utb_Replication b)) (taskMapKey task) of
        Some current \<Rightarrow> if utb_Replication b then task\<lparr>
            t_SnapshotID := (if t_SnapshotID task = [] then t_SnapshotID current else t_SnapshotID task),
            t_SHA256 := (if t_SHA256 task = [] then t_SHA256 current else t_SHA256 task)\<rparr>
          else task
      | None \<Rightarrow> task)\<lparr>t_LeaderTerm := utb_LeaderTerm b\<rparr>)"

lemma stored_task_simps [simp]:
  "t_RunID (stored_task b s) = t_RunID (utb_Task b)" "t_TaskID (stored_task b s) = t_TaskID (utb_Task b)"
  "t_Status (stored_task b s) = t_Status (utb_Task b)" "t_NodeID (stored_task b s) = t_NodeID (utb_Task b)"
  "t_UpdatedUnix (stored_task b s) = t_UpdatedUnix (utb_Task b)"
  "t_LeaderTerm (stored_task b s) = utb_LeaderTerm b"
  by (simp_all add: stored_task_def Let_def split: option.split)

lemma update_task_cases:
  assumes "applyUpdateTask b now s = Inr s'"
  obtains (begin_task) "applyBeginReplicationTask b now (ensure s) = Inr s'"
  | (closed) cur where "s' = ensure s" and "mget (tasks_of s (utb_Replication b)) (taskMapKey (utb_Task b)) = Some cur"
      and "terminalTaskStatus (t_Status cur)"
  | (stored) tasks' where "mhas (runs_of s (utb_Replication b)) (t_RunID (utb_Task b))"
      and "validTaskStatus (t_Status (utb_Task b))"
      and "term_of s (utb_Replication b) (t_RunID (utb_Task b)) \<le> utb_LeaderTerm b"
      and "tasks' = mput (taskMapKey (utb_Task b)) (stored_task b s) (tasks_of s (utb_Replication b))"
      and "\<And>r. tasks_of s' r = (if r = utb_Replication b then tasks' else tasks_of s r)"
      and "\<And>r. runs_of s' r = (if r = utb_Replication b
             then aggregateTerminalRun (runs_of s r) tasks' (t_RunID (utb_Task b)) r else runs_of s r)"
      and "\<And>r. runTerms s' r = (if r = utb_Replication b
             then runTerms (raise_term r (t_RunID (utb_Task b)) (utb_LeaderTerm b) s) r else runTerms s r)"
proof -
  define rep where "rep = utb_Replication b"
  define t where "t = utb_Task b"
  have tm: "term_of (ensure s) rep i = term_of s rep i" for i by (simp add: term_of_def)
  note d = assms [unfolded applyUpdateTask_def Let_def maps_other, folded rep_def t_def, unfolded maps_other tm]
  consider "applyBeginReplicationTask b now (ensure s) = Inr s'"
    | cur where "mget (tasks_of s rep) (taskMapKey t) = Some cur" "terminalTaskStatus (t_Status cur)" "s' = ensure s"
    | "\<not> (\<exists>cur. mget (tasks_of s rep) (taskMapKey t) = Some cur \<and> terminalTaskStatus (t_Status cur))"
      "\<not> (rep \<and> t_Status t = S_RUNNING)"
  proof (cases "rep \<and> t_Status t = S_RUNNING")
    case True
    with d that(1) show ?thesis by simp
  next
    case False
    show ?thesis
    proof (cases "\<exists>cur. mget (tasks_of s rep) (taskMapKey t) = Some cur \<and> terminalTaskStatus (t_Status cur)")
      case True
      then obtain cur where "mget (tasks_of s rep) (taskMapKey t) = Some cur" "terminalTaskStatus (t_Status cur)" by blast
      with d False that(2) show ?thesis by (auto split: if_splits)
    qed (use that(3) False in blast)
  qed
  then show ?thesis
  proof cases
    case 1
    then show ?thesis by (rule begin_task)
  next
    case (2 cur)
    then show ?thesis by (intro closed) (simp_all add: rep_def t_def)
  next
    case 3
    define s1 where "s1 = set_tasks rep (mput (taskMapKey t) (stored_task b s) (tasks_of s rep)) (ensure s)"
    define s2 where "s2 = raise_term rep (t_RunID t) (utb_LeaderTerm b) s1"
    define s3 where "s3 = set_runs rep (aggregateTerminalRun (runs_of s2 rep) (tasks_of s2 rep) (t_RunID t) rep) s2"
    from 3 d have m: "mhas (runs_of s rep) (t_RunID t)" "term_of s rep (t_RunID t) \<le> utb_LeaderTerm b"
      "validateTaskMetadata t = None"
      by (simp_all add: not_less) (use 3(2) in blast)+
    from 3 d have "s' = (if \<not> rep then sync_if_terminal (t_RunID t) (utb_LeaderTerm b) s3 else s3)"
      unfolding s3_def s2_def s1_def stored_task_def Let_def rep_def [symmetric] t_def [symmetric]
      by (cases "mget (tasks_of s rep) (taskMapKey t)") (auto split: if_splits)
    then have s3: "runs_of s' r = runs_of s3 r" "tasks_of s' r = tasks_of s3 r" "runTerms s' r = runTerms s3 r" for r
      by simp_all
    have s2: "runs_of s2 r = runs_of s r" "tasks_of s2 r = (if r = rep then mput (taskMapKey t) (stored_task b s) (tasks_of s rep) else tasks_of s r)"
      "runTerms s2 r = (if r = rep then runTerms (raise_term r (t_RunID t) (utb_LeaderTerm b) s) r else runTerms s r)" for r
      by (auto simp: s2_def s1_def terms_raise term_of_def)
    from m(3) have "validTaskStatus (t_Status t)"
      by (simp add: validateTaskMetadata_def split: if_splits)
    with m show ?thesis
      by (intro stored [of "mput (taskMapKey t) (stored_task b s) (tasks_of s rep)"])
        (auto simp: s3 s3_def s2 rep_def t_def)
  qed
qed

lemma aggregate_cases:
  "aggregateTerminalRun runs tasks i rep = runs
    \<or> (\<exists>run n c. mget runs i = Some run \<and> \<not> terminalRunStatus (run_Status run)
        \<and> aggregateTerminalRun runs tasks i rep = mput i (close_run n c run) runs)"
  by (auto simp: aggregateTerminalRun_def aggregateReplicationTerminalRun_def Let_def mget_or_def
      split: option.split)

lemma close_run_ok: "run_ok i run \<Longrightarrow> run_ok i (close_run n c run)"
  by (simp add: run_ok_def close_run_def status_defs)

lemma kind_aggregate:
  assumes "kind_ok runs tasks terms"
  shows "kind_ok (aggregateTerminalRun runs tasks' i rep) tasks terms"
  using aggregate_cases [of runs tasks' i rep]
proof (elim disjE exE conjE)
  fix run n c
  assume run: "mget runs i = Some run" and "aggregateTerminalRun runs tasks' i rep = mput i (close_run n c run) runs"
  moreover from assms run have "run_ok i (close_run n c run)"
    unfolding kind_ok_def by (intro close_run_ok) (blast dest: mallD)
  ultimately show ?thesis using kind_put_run [OF assms] by auto
qed (use assms in simp)

lemma update_task_ok:
  assumes "applyUpdateTask b now s = Inr s'" and "runs_ok s"
  shows "runs_ok s'"
  using assms(1)
proof (cases rule: update_task_cases)
  case begin_task
  then show ?thesis
  proof (rule begin_task_cases)
    fix cur new
    assume h: "mget (tasks_of (ensure s) (utb_Replication b)) (taskMapKey (utb_Task b)) = Some cur"
      "t_RunID new = t_RunID cur" "t_TaskID new = t_TaskID cur" "t_Status new = S_RUNNING"
      "s' = set_tasks (utb_Replication b) (mput (taskMapKey (utb_Task b)) new (tasks_of (ensure s) (utb_Replication b))) (ensure s)"
    note k = kind_of [OF assms(2), of "utb_Replication b"]
    from h(1) k have "task_ok (runs_of s (utb_Replication b)) (taskMapKey (utb_Task b)) cur"
      unfolding kind_ok_def by (auto dest: mallD)
    then have "task_ok (runs_of s (utb_Replication b)) (taskMapKey (utb_Task b)) new"
      using h(2-4) by (simp add: task_ok_def taskMapKey_def status_defs)
    from kind_put_task [OF k this] show ?thesis
      by (intro runs_ok_intro [OF assms(2), of _ "utb_Replication b"]) (simp_all add: h(5))
  qed
next
  case (closed cur)
  then show ?thesis by (intro runs_ok_same [OF assms(2)]) simp
next
  case (stored tasks')
  note k = kind_of [OF assms(2), of "utb_Replication b"]
  have "task_ok (runs_of s (utb_Replication b)) (taskMapKey (utb_Task b)) (stored_task b s)"
    using stored(1,2) by (simp add: task_ok_def taskMapKey_def)
  from kind_aggregate [OF kind_raise [OF kind_put_task [OF k this] stored(1)]]
  show ?thesis
    by (intro runs_ok_intro [OF assms(2), of _ "utb_Replication b"]) (simp_all add: stored(4-7))
qed

definition reopened :: "RetryFailedTasksBody \<Rightarrow> ClusterBackupRun \<Rightarrow> ClusterBackupRun" where
  "reopened b run = run\<lparr>run_Status := S_RUNNING, run_Success := 0, run_Failed := 0, run_Unavailable := 0,
     run_Timeout := 0, run_FinishedUnix := 0,
     run_LeaseUntilUnix := (if rtb_LeaseUntilUnix b \<noteq> 0 then rtb_LeaseUntilUnix b else run_LeaseUntilUnix run)\<rparr>"

definition has_retryable :: "RetryFailedTasksBody \<Rightarrow> State \<Rightarrow> bool" where
  "has_retryable b s \<longleftrightarrow> mex (\<lambda>_ task. t_RunID task = rtb_RunID b \<and> retryableTaskStatus (t_Status task))
     (tasks_of s (rtb_Replication b))"

lemma term_of_ensure [simp]: "term_of (ensure s) rep i = term_of s rep i"
  by (simp add: term_of_def)

lemma term_of_frame [simp]:
  "term_of (set_tasks rep' n s) rep i = term_of s rep i" "term_of (put_run rep' k r s) rep i = term_of s rep i"
  "term_of (syncBackupFire k l c u st s) rep i = term_of s rep i"
  by (simp_all add: term_of_def)

lemma retry_cases:
  assumes "applyRetryFailedTasks b s = Inr s'"
  obtains run where "mget (runs_of s (rtb_Replication b)) (rtb_RunID b) = Some run"
    and "term_of s (rtb_Replication b) (rtb_RunID b) \<le> rtb_LeaderTerm b"
    and "\<And>r. tasks_of s' r = (if r = rtb_Replication b then mmap (\<lambda>_. retry_task b) (tasks_of s r) else tasks_of s r)"
    and "\<And>r. runs_of s' r = (if r = rtb_Replication b \<and> has_retryable b s
           then mput (rtb_RunID b) (reopened b run) (runs_of s r) else runs_of s r)"
    and "\<And>r. runTerms s' r = (if r = rtb_Replication b
           then runTerms (raise_term r (rtb_RunID b) (rtb_LeaderTerm b) s) r else runTerms s r)"
proof -
  define rep where "rep = rtb_Replication b"
  define i where "i = rtb_RunID b"
  note d = assms [unfolded applyRetryFailedTasks_def Let_def maps_other term_of_ensure, folded rep_def i_def,
      unfolded maps_other term_of_ensure]
  from d obtain run where run: "mget (runs_of s rep) i = Some run" by (cases "mget (runs_of s rep) i") simp_all
  note d2 = d [unfolded run option.case]
  define s1 where "s1 = set_tasks rep (mmap (\<lambda>_. retry_task b) (tasks_of s rep)) (ensure s)"
  define s2 where "s2 = (if has_retryable b s then
      (if \<not> rep then syncBackupFire i (rtb_LeaderTerm b) (rtb_UpdatedUnix b) (run_LeaseUntilUnix (reopened b run)) S_CLAIMED
         (put_run rep i (reopened b run) s1) else put_run rep i (reopened b run) s1) else s1)"
  from d2 have t: "term_of s rep i \<le> rtb_LeaderTerm b" by (simp add: not_less)
  from d2 have s': "s' = raise_term rep i (rtb_LeaderTerm b) s2"
    unfolding s2_def s1_def has_retryable_def rep_def [symmetric] i_def [symmetric] reopened_def by simp
  show ?thesis
    using run t
    by (intro that [of run]) (auto simp: s' s2_def s1_def terms_raise term_of_def rep_def i_def)
qed

lemma retry_ok:
  assumes "applyRetryFailedTasks b s = Inr s'" and "runs_ok s"
  shows "runs_ok s'"
  using assms(1)
proof (rule retry_cases)
  fix run
  define rep where "rep = rtb_Replication b"
  assume run: "mget (runs_of s (rtb_Replication b)) (rtb_RunID b) = Some run"
    and ts: "\<And>r. tasks_of s' r = (if r = rtb_Replication b then mmap (\<lambda>_. retry_task b) (tasks_of s r) else tasks_of s r)"
    and rs: "\<And>r. runs_of s' r = (if r = rtb_Replication b \<and> has_retryable b s
           then mput (rtb_RunID b) (reopened b run) (runs_of s r) else runs_of s r)"
    and ls: "\<And>r. runTerms s' r = (if r = rtb_Replication b
           then runTerms (raise_term r (rtb_RunID b) (rtb_LeaderTerm b) s) r else runTerms s r)"
  note k = kind_of [OF assms(2), of "rtb_Replication b"]
  from run k have "run_ok (rtb_RunID b) run" unfolding kind_ok_def by (blast dest: mallD)
  then have ro: "run_ok (rtb_RunID b) (reopened b run)" by (simp add: run_ok_def reopened_def status_defs)
  from run have h: "mhas (runs_of s (rtb_Replication b)) (rtb_RunID b)" by simp
  have "kind_ok (runs_of s (rtb_Replication b)) (mmap (\<lambda>_. retry_task b) (tasks_of s (rtb_Replication b)))
      (runTerms s (rtb_Replication b))"
    by (rule kind_map_tasks [OF k]) (auto simp: retry_task_def status_defs)
  note k2 = kind_raise [OF this h]
  from k2 kind_put_run [OF k2 ro h] show ?thesis
    by (intro runs_ok_intro [OF assms(2), of _ "rtb_Replication b"]) (simp_all add: ts rs ls)
qed

definition finished :: "FinishRunBody \<Rightarrow> ClusterBackupRun \<Rightarrow> ClusterBackupRun" where
  "finished b run = run\<lparr>run_Status := frb_Status b, run_Success := frb_Success b,
     run_Failed := frb_Failed b, run_Unavailable := frb_Unavailable b,
     run_Timeout := frb_Timeout b, run_FinishedUnix := frb_FinishedUnix b\<rparr>"

lemma finish_cases:
  assumes "applyFinishRun b s = Inr s'"
  obtains (closed) run where "s' = ensure s" and "mget (runs_of s (frb_Replication b)) (frb_RunID b) = Some run"
      and "terminalRunStatus (run_Status run)"
  | (finish) run where "mget (runs_of s (frb_Replication b)) (frb_RunID b) = Some run"
      and "\<not> terminalRunStatus (run_Status run)" and "validRunStatus (frb_Status b)"
      and "term_of s (frb_Replication b) (frb_RunID b) \<le> frb_LeaderTerm b"
      and "\<not> mex (\<lambda>_ task. t_RunID task = frb_RunID b \<and> t_LeaderTerm task > frb_LeaderTerm b) (tasks_of s (frb_Replication b))"
      and "\<And>r. tasks_of s' r = tasks_of s r"
      and "\<And>r. runs_of s' r = (if r = frb_Replication b then mput (frb_RunID b) (finished b run) (runs_of s r) else runs_of s r)"
      and "\<And>r. runTerms s' r = (if r = frb_Replication b
           then runTerms (raise_term r (frb_RunID b) (frb_LeaderTerm b) s) r else runTerms s r)"
proof -
  define rep where "rep = frb_Replication b"
  define i where "i = frb_RunID b"
  note d = assms [unfolded applyFinishRun_def Let_def maps_other term_of_ensure, folded rep_def i_def,
      unfolded maps_other term_of_ensure]
  from d obtain run where run: "mget (runs_of s rep) i = Some run" by (cases "mget (runs_of s rep) i") simp_all
  note d2 = d [unfolded run option.case]
  show ?thesis
  proof (cases "terminalRunStatus (run_Status run)")
    case True
    with d2 run show ?thesis by (intro closed [of run]) (simp_all add: rep_def i_def)
  next
    case False
    define s1 where "s1 = put_run rep i (finished b run) (ensure s)"
    define s2 where "s2 = (if \<not> rep \<and> terminalRunStatus (frb_Status b)
        then syncBackupFire (run_RunID run) (frb_LeaderTerm b) 0 0 (frb_Status b) s1 else s1)"
    from d2 False have s': "s' = raise_term rep i (frb_LeaderTerm b) s2"
      unfolding s2_def s1_def finished_def
      by (cases "\<not> rep \<and> terminalRunStatus (frb_Status b)") auto
    from d2 have "validRunStatus (frb_Status b)" "term_of s rep i \<le> frb_LeaderTerm b"
      "\<not> mex (\<lambda>_ task. t_RunID task = i \<and> t_LeaderTerm task > frb_LeaderTerm b) (tasks_of s rep)"
      by (simp_all add: not_less)
    with run False show ?thesis
      by (intro finish [of run]) (auto simp: s' s2_def s1_def terms_raise term_of_def rep_def i_def)
  qed
qed

lemma finish_ok:
  assumes "applyFinishRun b s = Inr s'" and "runs_ok s"
  shows "runs_ok s'"
  using assms(1)
proof (cases rule: finish_cases)
  case (closed run)
  then show ?thesis by (intro runs_ok_same [OF assms(2)]) simp
next
  case (finish run)
  note k = kind_of [OF assms(2), of "frb_Replication b"]
  from finish(1) k have "run_ok (frb_RunID b) run" unfolding kind_ok_def by (blast dest: mallD)
  then have "run_ok (frb_RunID b) (finished b run)" using finish(3) by (simp add: run_ok_def finished_def)
  from kind_raise [OF kind_put_run [OF k this], of "frb_RunID b"] finish(1)
  show ?thesis by (intro runs_ok_intro [OF assms(2), of _ "frb_Replication b"]) (simp_all add: finish(6-8))
qed

lemma prune_maps:
  assumes "runs_ok s"
  shows "runs_of (PruneRunMetadata u s) r = mfilter (\<lambda>k _. \<not> old_run u (runs_of s r) k) (runs_of s r)"
    and "tasks_of (PruneRunMetadata u s) r = mfilter (\<lambda>_ t. \<not> old_run u (runs_of s r) (t_RunID t)) (tasks_of s r)"
    and "runTerms (PruneRunMetadata u s) r = mfilter (\<lambda>k _. \<not> old_run u (runs_of s r) k) (runTerms s r)"
proof -
  have wf: "wfmap (runs_of s r)" for r using kind_of [OF assms, of r] by (simp add: kind_ok_def)
  define s1 where "s1 = prune_kind u False (ensure s)"
  have s1: "runs_of s1 True = runs_of s True" "tasks_of s1 True = tasks_of s True" "runTerms s1 True = runTerms s True"
    "runs_of s1 False = mfilter (\<lambda>k _. \<not> old_run u (runs_of s False) k) (runs_of s False)"
    "tasks_of s1 False = mfilter (\<lambda>_ t. \<not> old_run u (runs_of s False) (t_RunID t)) (tasks_of s False)"
    "runTerms s1 False = mfilter (\<lambda>k _. \<not> old_run u (runs_of s False) k) (runTerms s False)"
    using prune_kind_filter [of "ensure s" False u] wf by (simp_all add: s1_def)
  have wf1: "wfmap (runs_of s1 True)" by (simp add: s1 wf)
  have p: "PruneRunMetadata u s = (prune_kind u True s1)\<lparr>BackupFireLedger :=
      mfilter (\<lambda>_ fire. \<not> prunable_fire u fire) (BackupFireLedger (prune_kind u True s1))\<rparr>"
    by (simp add: PruneRunMetadata_def Let_def s1_def)
  show "runs_of (PruneRunMetadata u s) r = mfilter (\<lambda>k _. \<not> old_run u (runs_of s r) k) (runs_of s r)"
    "tasks_of (PruneRunMetadata u s) r = mfilter (\<lambda>_ t. \<not> old_run u (runs_of s r) (t_RunID t)) (tasks_of s r)"
    "runTerms (PruneRunMetadata u s) r = mfilter (\<lambda>k _. \<not> old_run u (runs_of s r) k) (runTerms s r)"
    unfolding p prune_kind_filter [OF wf1] by (cases r; simp add: s1)+
qed

lemma prune_ok:
  assumes "runs_ok s"
  shows "runs_ok (PruneRunMetadata u s)"
  unfolding runs_ok_def
proof
  fix r
  show "kind_ok (runs_of (PruneRunMetadata u s) r) (tasks_of (PruneRunMetadata u s) r) (runTerms (PruneRunMetadata u s) r)"
    unfolding prune_maps [OF assms] by (rule kind_prune [OF kind_of [OF assms], of "\<lambda>k. \<not> old_run u (runs_of s r) k"])
qed

lemma run_ok_step [preserved]:
  assumes "apply_run e now c s = Inr s'" and "runs_ok s"
  shows "runs_ok s'"
proof (cases c)
  case (CmdBackupFireClaim b)
  with assms(1) obtain r a where cf: "ClaimFire e b now s = Inr (r, a, s')" by auto
  have "s' = ensure s \<or> s' = put_fire (fcb_FireKey b) r (ensure s)"
    using claim_fire_known_cases [OF cf] claim_fire_new [OF cf]
    by (cases "mget (BackupFireLedger s) (fcb_FireKey b)") (auto split: if_splits)
  then show ?thesis by (intro runs_ok_same [OF assms(2)]) auto
next
  case (CmdBackupScheduledRunClaim b)
  with assms(1) obtain r run a where "ClaimScheduledRun e b now s = Inr (r, run, a, s')" by auto
  then show ?thesis by (rule scheduled_ok [OF _ assms(2)])
next
  case (CmdBackupRunCreate b)
  with assms create_run_ok show ?thesis by simp
next
  case (CmdBackupRunClaim b)
  with assms(1) obtain a where "ClaimRun b s = Inr (a, s')" by auto
  then show ?thesis by (rule claim_run_ok [OF _ assms(2)])
next
  case (CmdBackupTaskUpdate b)
  with assms update_task_ok show ?thesis by simp
next
  case (CmdBackupRetryFailedTasks b)
  with assms retry_ok show ?thesis by simp
next
  case (CmdBackupRunFinish b)
  with assms finish_ok show ?thesis by simp
next
  case (CmdRunMetadataPrune b)
  with assms(1) have "s' = PruneRunMetadata (prb_BeforeUnix b) s" by (auto simp: applyPruneRunMetadata_def)
  with prune_ok [OF assms(2)] show ?thesis by simp
qed

end
