(* ===== verification/Control_Fsm.thy ===== *)
theory Control_Fsm imports Machine Control_Users Control_Admission Control_Groups Control_Run_Steps
begin

text \<open>
  The replicated state machine of \<^verbatim>\<open>fsm.go\<close>: \<^verbatim>\<open>State.Apply\<close>, which dispatches a command to its
  handler, and the Raft interface \<^verbatim>\<open>FSM.Apply\<close>, \<^verbatim>\<open>Snapshot\<close> and \<^verbatim>\<open>Restore\<close>. A command is grouped by
  the component that handles it; a body that is not JSON of the handler's type is
  \<open>MalformedBody\<close>, and a log entry that is not a command has no \<open>le_Data\<close>. JSON itself is not
  modelled: a snapshot holds the state, and restoring it applies \<^verbatim>\<open>ensure\<close>.
\<close>

datatype Command =
    UserCmd UserCommand
  | RbacCmd RbacCommand
  | AdmissionCmd AdmissionCommand
  | GroupCmd GroupCommand
  | PolicyCmd PolicyCommand
  | RunCmd RunCommand
  | MalformedBody
  | UnknownType

primrec dispatch :: "env \<Rightarrow> gtime \<Rightarrow> Command \<Rightarrow> State \<Rightarrow> goerror + State" where
  "dispatch e now (UserCmd c) s = apply_user e now c s"
| "dispatch e now (RbacCmd c) s = apply_rbac c s"
| "dispatch e now (AdmissionCmd c) s = apply_admission e now c s"
| "dispatch e now (GroupCmd c) s = apply_group e c s"
| "dispatch e now (PolicyCmd c) s = apply_policy e now c s"
| "dispatch e now (RunCmd c) s = apply_run e now c s"
| "dispatch e now MalformedBody s = fail INVALID ''invalid command body''"
| "dispatch e now UnknownType s = fail INVALID ''unknown command type''"

text \<open>Every handler makes its checks before its first assignment, so an error leaves the
  state that \<^verbatim>\<open>ensure\<close> produced.\<close>

definition Apply :: "env \<Rightarrow> gtime \<Rightarrow> Command \<Rightarrow> State \<Rightarrow> State \<times> goerror option" where
  "Apply e now c s =
    (let s1 = ensure s in
     case dispatch e now c s1 of Inl err \<Rightarrow> (s1, Some err) | Inr s2 \<Rightarrow> (s2, None))"

text \<open>
  A log entry as a replica sees it: what the environment returns during the application, the
  leader's clock at append time, this replica's clock, and the command.
\<close>

record LogEntry =
  le_env :: env
  le_AppendedAt :: gtime
  le_Clock :: gtime
  le_Data :: "Command option"

definition entry_time :: "LogEntry \<Rightarrow> gtime" where
  "entry_time l = (if le_AppendedAt l = time_zero then le_Clock l else le_AppendedAt l)"

definition FSM_Apply :: "LogEntry \<Rightarrow> State \<Rightarrow> State \<times> goerror option" where
  "FSM_Apply l s =
    (case le_Data l of
       None \<Rightarrow> (s, Some (E INVALID ''invalid command''))
     | Some cmd \<Rightarrow> Apply (le_env l) (entry_time l) cmd s)"

definition NewFSM :: State where
  "NewFSM = NewState"

definition Snapshot :: "State \<Rightarrow> State" where
  "Snapshot s = s"

definition Restore :: "State \<Rightarrow> State" where
  "Restore snap = ensure snap"

definition replay :: "LogEntry list \<Rightarrow> State \<Rightarrow> State" where
  "replay ls s = fold (\<lambda>l s. fst (FSM_Apply l s)) ls s"

text \<open>The states a replica can be in: a log applied to a new machine.\<close>

definition reachable :: "State \<Rightarrow> bool" where
  "reachable s \<longleftrightarrow> (\<exists>ls. s = replay ls NewFSM)"

section \<open>The machine is an instance of the replicated machine\<close>

lemma dispatch_ensured:
  assumes "dispatch e now c s = Inr s'" and "ensured s"
  shows "ensured s'"
proof (cases c)
  case (UserCmd x)
  with assms show ?thesis by (auto intro: user_ensured)
next
  case (RbacCmd x)
  with assms show ?thesis by (auto intro: rbac_ensured)
next
  case (AdmissionCmd x)
  with assms show ?thesis by (auto dest!: admission_footprint intro: ensured_fields)
next
  case (GroupCmd x)
  with assms show ?thesis by (auto intro: group_ensured)
next
  case (PolicyCmd x)
  with assms show ?thesis by (auto dest!: policy_footprint intro: ensured_fields)
next
  case (RunCmd x)
  with assms show ?thesis by (auto dest!: run_frame intro: ensured_fields)
qed (use assms in simp_all)


lemma Apply_ensured: "ensured (fst (Apply e now c s))"
  by (auto simp: Apply_def Let_def ensure_ensured split: sum.split intro: dispatch_ensured)

lemma FSM_Apply_ensured: "ensured s \<Longrightarrow> ensured (fst (FSM_Apply l s))"
  by (auto simp: FSM_Apply_def Apply_ensured split: option.split)

interpretation control: replicated_machine "\<lambda>l s. fst (FSM_Apply l s)" Restore
  by unfold_locales (simp_all add: Restore_def ensure_iff FSM_Apply_ensured)

text \<open>The relation between a command and its handler, seen from an ensured state.\<close>

lemma FSM_Apply_step:
  assumes "ensured s"
  shows "fst (FSM_Apply l s) = s
    \<or> (\<exists>c. le_Data l = Some c \<and> dispatch (le_env l) (entry_time l) c s = Inr (fst (FSM_Apply l s)))"
  using assms
  by (cases "le_Data l")
    (auto simp: FSM_Apply_def Apply_def Let_def ensured_ensure split: sum.split)

text \<open>What each component keeps, the machine keeps.\<close>

lemma FSM_Apply_keeps:
  assumes "ensured s" and "P s"
    and user: "\<And>e now c s'. apply_user e now c s = Inr s' \<Longrightarrow> P s'"
    and rbac: "\<And>c s'. apply_rbac c s = Inr s' \<Longrightarrow> P s'"
    and admission: "\<And>e now c s'. apply_admission e now c s = Inr s' \<Longrightarrow> P s'"
    and group: "\<And>e c s'. apply_group e c s = Inr s' \<Longrightarrow> P s'"
    and policy: "\<And>e now c s'. apply_policy e now c s = Inr s' \<Longrightarrow> P s'"
    and run: "\<And>e now c s'. apply_run e now c s = Inr s' \<Longrightarrow> P s'"
  shows "P (fst (FSM_Apply l s))"
  using FSM_Apply_step [OF assms(1), of l]
proof (elim disjE exE conjE)
  assume "fst (FSM_Apply l s) = s"
  with assms(2) show ?thesis by simp
next
  fix c
  assume "dispatch (le_env l) (entry_time l) c s = Inr (fst (FSM_Apply l s))"
  then show ?thesis
    by (cases c) (auto intro: user rbac admission group policy run)
qed

lemma NewFSM_ensured: "ensured NewFSM"
  by (simp add: NewFSM_def NewState_def ensure_ensured)

lemma Restore_id: "ensured s \<Longrightarrow> Restore s = s"
  by (simp add: Restore_def ensured_ensure)

end
