(* ===== verification/Control_Log.thy ===== *)
theory Control_Log imports Control_Fsm
begin

text \<open>
  Properties of whole logs: what every sequence of commands keeps, obtained from the handlers'
  lemmas through the interfaces of \<open>Machine\<close>. \<open>replay ls s\<close> is the state of a replica that applied
  the log \<open>ls\<close> to \<open>s\<close>.
\<close>

lemma replay_Nil [simp]: "replay [] s = s"
  by (simp add: replay_def)

lemma replay_Cons [simp]: "replay (l # ls) s = replay ls (fst (FSM_Apply l s))"
  by (simp add: replay_def)

lemma replay_append: "replay (xs @ ys) s = replay ys (replay xs s)"
  by (simp add: replay_def)

section \<open>Users over a whole log\<close>

text \<open>What holds from the bootstrap on.\<close>

definition bootstrapped :: "State \<Rightarrow> bool" where
  "bootstrapped s \<longleftrightarrow> ClusterID s \<noteq> [] \<and> names_ok s \<and> ids_ok s"

lemma frame_users:
  "Users s' = Users s \<Longrightarrow> UsersByID s' = UsersByID s \<Longrightarrow> ClusterID s' = ClusterID s \<Longrightarrow> bootstrapped s \<Longrightarrow> bootstrapped s'"
  by (simp add: bootstrapped_def names_ok_def ids_ok_def)

lemma user_ClusterID: "apply_user e now c s = Inr s' \<Longrightarrow> ClusterID s \<noteq> [] \<Longrightarrow> ClusterID s' = ClusterID s"
  by (cases c) (auto simp: user_defs Let_def put_user_def)

lemma bootstrapped_step:
  assumes "ensured s" and "bootstrapped s"
  shows "bootstrapped (fst (FSM_Apply l s))"
proof (rule FSM_Apply_keeps [where P = bootstrapped, OF assms])
  fix e now c s' assume u: "apply_user e now c s = Inr s'"
  have nb: "c \<noteq> CmdBootstrap b" for b
    using u assms(2) by (auto simp: applyBootstrap_def bootstrapped_def)
  from user_ClusterID [OF u] user_names_ok [OF u] user_ids_ok [OF u] nb assms(2)
  show "bootstrapped s'" by (auto simp: bootstrapped_def)
next
  fix c s' assume "apply_rbac c s = Inr s'"
  with assms(2) show "bootstrapped s'" by (auto dest!: rbac_footprint elim: frame_users [rotated -1])
next
  fix e now c s' assume "apply_admission e now c s = Inr s'"
  with assms(2) show "bootstrapped s'" by (auto dest!: admission_footprint elim: frame_users [rotated -1])
next
  fix e c s' assume "apply_group e c s = Inr s'"
  with assms(2) show "bootstrapped s'" by (auto dest!: group_footprint elim: frame_users [rotated -1])
next
  fix e now c s' assume "apply_policy e now c s = Inr s'"
  with assms(2) show "bootstrapped s'" by (auto dest!: policy_footprint elim: frame_users [rotated -1])
next
  fix e now c s' assume "apply_run e now c s = Inr s'"
  with assms(2) show "bootstrapped s'" by (auto dest!: run_frame [OF _ assms(1)] elim: frame_users [rotated -1])
qed

interpretation control_users: machine_invariant "\<lambda>l s. fst (FSM_Apply l s)" Restore bootstrapped
  by unfold_locales (simp add: Restore_def ensure_iff bootstrapped_step)

text \<open>Commands that can make the last active super administrator inactive.\<close>

definition admin_safe :: "LogEntry \<Rightarrow> bool" where
  "admin_safe l \<longleftrightarrow> (case le_Data l of
      Some (UserCmd c) \<Rightarrow> (case c of CmdUserDisable _ \<Rightarrow> False | CmdLoginFail _ \<Rightarrow> False | _ \<Rightarrow> True)
    | _ \<Rightarrow> True)"

definition super_alive :: "State \<Rightarrow> bool" where
  "super_alive s \<longleftrightarrow> (\<exists>i. hasClusterSuperAdminBinding s i \<and> active_in s i)"

lemma super_alive_count: "super_alive s \<longleftrightarrow> 1 \<le> activeClusterSuperAdminCount s"
  unfolding super_count_pos super_alive_def set_active_super_ids ..

lemma super_alive_frame:
  "Users s' = Users s \<Longrightarrow> UsersByID s' = UsersByID s \<Longrightarrow> Bindings s' = Bindings s \<Longrightarrow> super_alive s \<Longrightarrow> super_alive s'"
  by (simp add: super_alive_def active_in_iff hasClusterSuperAdminBinding_def)

lemma super_alive_user:
  assumes "apply_user e now c s = Inr s'" and "bootstrapped s" and "super_alive s"
    and "\<And>b. c \<noteq> CmdUserDisable b" and "\<And>b. c \<noteq> CmdLoginFail b"
  shows "super_alive s'"
proof (cases "\<exists>b. c = CmdUserDisableGuarded b")
  case True
  with assms(1-3) guarded_disable_keeps_super show ?thesis
    by (auto simp: super_alive_count bootstrapped_def)
next
  case False
  with assms(1,2,4,5) have "keeps_active c"
    by (cases c) (auto simp: keeps_active_def applyBootstrap_def bootstrapped_def)
  with active_kept [OF assms(1)] bindings_kept [OF assms(1)] assms(2,3) show ?thesis
    by (auto simp: super_alive_def bootstrapped_def hasClusterSuperAdminBinding_def)
qed

lemma super_alive_step:
  assumes "ensured s" and "bootstrapped s" and "super_alive s" and "admin_safe l"
  shows "super_alive (fst (FSM_Apply l s))"
  using FSM_Apply_step [OF assms(1), of l]
proof (elim disjE exE conjE)
  assume "fst (FSM_Apply l s) = s"
  with assms(3) show ?thesis by simp
next
  fix c
  define s' where "s' = fst (FSM_Apply l s)"
  assume c: "le_Data l = Some c" and "dispatch (le_env l) (entry_time l) c s = Inr (fst (FSM_Apply l s))"
  then have d: "dispatch (le_env l) (entry_time l) c s = Inr s'" by (simp add: s'_def)
  have "super_alive s'"
  proof (cases c)
    case (UserCmd x)
    with c assms(4) have "\<And>b. x \<noteq> CmdUserDisable b" and "\<And>b. x \<noteq> CmdLoginFail b"
      by (auto simp: admin_safe_def)
    with super_alive_user [OF _ assms(2,3)] d UserCmd show ?thesis by auto
  next
    case (RbacCmd x)
    with d have x: "apply_rbac x s = Inr s'" by simp
    have "active_in s' i = active_in s i" for i
      using rbac_footprint [OF x] by (auto simp: active_in_iff)
    with rbac_super_kept [OF x] assms(3) show ?thesis unfolding super_alive_def by blast
  next
    case (RunCmd x)
    with d assms(3) show ?thesis
      by (auto dest!: run_frame [OF _ assms(1)] elim: super_alive_frame [rotated -1])
  qed (use d assms(3) in \<open>auto dest!: admission_footprint group_footprint policy_footprint
        elim: super_alive_frame [rotated -1]\<close>)
  then show ?thesis by (simp add: s'_def)
qed

lemma super_alive_replay:
  assumes "ensured s" and "bootstrapped s" and "super_alive s" and "list_all admin_safe ls"
  shows "super_alive (replay ls s)"
  using assms
proof (induction ls arbitrary: s)
  case (Cons l ls)
  from Cons.prems(4) have "admin_safe l" and "list_all admin_safe ls" by simp_all
  with Cons.IH [OF FSM_Apply_ensured bootstrapped_step super_alive_step] Cons.prems(1-3)
  show ?case by simp
qed simp

lemma bootstrap_state:
  assumes "applyBootstrap b NewFSM = Inr s"
  shows "ensured s" and "bootstrapped s" and "super_alive s"
proof -
  have u: "apply_user e 0 (CmdBootstrap b) NewFSM = Inr s" for e using assms by simp
  from user_ensured [OF u NewFSM_ensured] show "ensured s" .
  have n: "names_ok NewFSM" "ids_ok NewFSM" "Users NewFSM = []"
    by (simp_all add: NewFSM_def NewState_def ensure_def zero_state_def names_ok_def ids_ok_def)
  have "ClusterID s \<noteq> []" using assms by (auto simp: applyBootstrap_def)
  with user_names_ok [OF u n(1)] user_ids_ok [OF u n(1,2)] n(3) show "bootstrapped s"
    by (simp add: bootstrapped_def)
  show "super_alive s"
    using assms unfolding super_alive_def
    by (intro exI [of _ "bsb_AdminUserID b"])
      (auto simp: applyBootstrap_def hasClusterSuperAdminBinding_def is_super_binding_def active_in_iff)
qed

lemma replay_ensured: "ensured s \<Longrightarrow> ensured (replay ls s)"
  using control.norm_fold [of s ls] by (simp add: replay_def Restore_def ensure_iff)

lemma super_alive_access:
  assumes "ensured s" and "super_alive s"
  shows "\<exists>i. \<forall>perm t. perm \<in> set allPermissions \<longrightarrow> CheckTarget s i perm t"
proof -
  from assms(2) obtain i u bnd where "userByID s i = Some u" "u_Status u = UserActive"
    "bnd \<in> set (Bindings s)" "bi_UserID bnd = i" "is_super_binding bnd"
    by (auto simp: super_alive_def hasClusterSuperAdminBinding_def list_ex_iff active_in_def split: option.splits)
  with super_admin_all [OF assms(1)] show ?thesis unfolding is_super_binding_def by blast
qed

text \<open>A user who is disabled stays so until a user_enable for that user.\<close>

definition no_enable :: "string \<Rightarrow> LogEntry \<Rightarrow> bool" where
  "no_enable i l \<longleftrightarrow> (case le_Data l of Some (UserCmd (CmdUserEnable b)) \<Rightarrow> ueb_UserID b \<noteq> i | _ \<Rightarrow> True)"

lemma disabled_frame:
  "Users s' = Users s \<Longrightarrow> UsersByID s' = UsersByID s \<Longrightarrow> disabled_in s i \<Longrightarrow> disabled_in s' i"
  by (simp add: disabled_in_iff)

lemma disabled_step:
  assumes "ensured s" and "bootstrapped s" and "disabled_in s i" and "no_enable i l"
  shows "disabled_in (fst (FSM_Apply l s)) i"
  using FSM_Apply_step [OF assms(1), of l]
proof (elim disjE exE conjE)
  assume "fst (FSM_Apply l s) = s"
  with assms(3) show ?thesis by simp
next
  fix c
  define s' where "s' = fst (FSM_Apply l s)"
  assume c: "le_Data l = Some c" and "dispatch (le_env l) (entry_time l) c s = Inr (fst (FSM_Apply l s))"
  then have d: "dispatch (le_env l) (entry_time l) c s = Inr s'" by (simp add: s'_def)
  have "disabled_in s' i"
  proof (cases c)
    case (UserCmd x)
    with d have x: "apply_user (le_env l) (entry_time l) x s = Inr s'" by simp
    from x assms(2) have "x \<noteq> CmdBootstrap b" for b by (auto simp: applyBootstrap_def bootstrapped_def)
    with UserCmd c assms(4) have "\<not> reenables i x" by (cases x) (auto simp: reenables_def no_enable_def)
    from disabled_kept [OF x this] assms(2,3) show ?thesis by (simp add: bootstrapped_def)
  next
    case (RunCmd x)
    with d assms(3) show ?thesis
      by (auto dest!: run_frame [OF _ assms(1)] elim: disabled_frame [rotated -1])
  qed (use d assms(3) in \<open>auto dest!: rbac_footprint admission_footprint group_footprint policy_footprint
        elim: disabled_frame [rotated -1]\<close>)
  then show ?thesis by (simp add: s'_def)
qed

lemma disabled_replay:
  assumes "ensured s" and "bootstrapped s" and "disabled_in s i" and "list_all (no_enable i) ls"
  shows "disabled_in (replay ls s) i"
  using assms
proof (induction ls arbitrary: s)
  case (Cons l ls)
  from Cons.prems(4) have "no_enable i l" and "list_all (no_enable i) ls" by simp_all
  with Cons.IH [OF FSM_Apply_ensured bootstrapped_step disabled_step] Cons.prems(1-3)
  show ?case by simp
qed simp

section \<open>Properties\<close>

text \<open>
  C10: A cluster never loses its last super administrator. From a successful bootstrap on, whatever
  commands are replicated (guarded disables, password changes, role and binding deletions, joins,
  runs, malformed entries), except an unguarded user_disable or a failed login, some user passes
  every permission check on every target.
\<close>

theorem super_admin_survives:
  assumes "applyBootstrap b NewFSM = Inr s0" and "list_all admin_safe ls"
  shows "\<exists>i. \<forall>perm t. perm \<in> set allPermissions \<longrightarrow> CheckTarget (replay ls s0) i perm t"
  using super_alive_access [OF replay_ensured super_alive_replay]
    bootstrap_state [OF assms(1)] assms(2) by blast

text \<open>
  C11: A disabled user has no access. After user_disable_guarded succeeds for a user, no later log
  without a user_enable for that user gives the user any permission, on any target: neither a login,
  nor a password reset, a role change or a new binding brings the access back.
\<close>

theorem disabled_user_stays_denied:
  assumes "ensured s" and "bootstrapped s" and "applyUserDisableGuarded b s = Inr s'"
    and "list_all (no_enable (udg_UserID b)) ls"
  shows "\<not> CheckTarget (replay ls s') (udg_UserID b) perm t \<and> \<not> CanAny (replay ls s') (udg_UserID b) perm"
proof -
  from assms(3) obtain u where u: "userByID s (udg_UserID b) = Some u"
    and s': "s' = put_user (u\<lparr>u_Status := UserDisabled\<rparr>) s"
    by (auto simp: applyUserDisableGuarded_def)
  from assms(2) have "names_ok s" by (simp add: bootstrapped_def)
  from userByID_put_user_same [OF this u, of "u\<lparr>u_Status := UserDisabled\<rparr>"]
  have d: "disabled_in s' (udg_UserID b)" by (simp add: disabled_in_def s')
  have x: "apply_user e now (CmdUserDisableGuarded b) s = Inr s'" for e now using assms(3) by simp
  have "ensured s'" by (rule user_ensured [OF x assms(1)])
  moreover have "bootstrapped s'"
    using user_names_ok [OF x] user_ids_ok [OF x] user_ClusterID [OF x] assms(2)
    by (simp add: bootstrapped_def)
  ultimately show ?thesis
    using disabled_no_access [OF disabled_replay [OF _ _ d assms(4)]] by blast
qed


definition boot :: BootstrapBody where
  "boot = \<lparr>bsb_ClusterID = ''c1'', bsb_AdminUser = ''root'', bsb_PasswordHash = ''h'',
           bsb_AdminUserID = ''u0'', bsb_NowUnix = 1\<rparr>"

definition no_env :: env where
  "no_env = \<lparr>sha256_hex = (\<lambda>x. x), new_uuid = Inr ''id'', json_object = (\<lambda>_. True), timezone_known = (\<lambda>_. True)\<rparr>"

definition at_zero :: "Command \<Rightarrow> LogEntry" where
  "at_zero c = \<lparr>le_env = no_env, le_AppendedAt = nanos, le_Clock = 0, le_Data = Some c\<rparr>"

theorem super_admin_survives_witness:
  "\<exists>s0 i. applyBootstrap boot NewFSM = Inr s0
     \<and> CheckTarget (replay
         [at_zero (UserCmd (CmdUserDisableGuarded \<lparr>udg_UserID = ''u0'', udg_ActorUserID = ''u1''\<rparr>)),
          at_zero (RbacCmd (CmdBindDelete \<lparr>bdb_UserID = ''u0'', bdb_RoleID = roleSuperAdmin,
             bdb_ScopeID = [], bdb_Scope = ScopeCluster\<rparr>))] s0)
         i ''node.remove'' \<lparr>ct_NodeID = ''n1'', ct_ProcessGroup = []\<rparr>"
proof -
  obtain s0 where s0: "applyBootstrap boot NewFSM = Inr s0"
    by (simp add: applyBootstrap_def boot_def NewFSM_def NewState_def ensure_def zero_state_def)
  have "''node.remove'' \<in> set allPermissions" by (simp add: allPermissions_def)
  with super_admin_survives [OF s0, of "[at_zero (UserCmd (CmdUserDisableGuarded
        \<lparr>udg_UserID = ''u0'', udg_ActorUserID = ''u1''\<rparr>)),
      at_zero (RbacCmd (CmdBindDelete \<lparr>bdb_UserID = ''u0'', bdb_RoleID = roleSuperAdmin,
        bdb_ScopeID = [], bdb_Scope = ScopeCluster\<rparr>))]"] s0
  show ?thesis by (simp add: admin_safe_def at_zero_def) blast
qed

definition alice_cluster :: State where
  "alice_cluster = alice_state\<lparr>ClusterID := ''c1''\<rparr>"

lemma alice_cluster_ok: "ensured alice_cluster" "bootstrapped alice_cluster"
proof -
  have "ensured NewState" by (simp add: NewState_def ensure_ensured)
  then show "ensured alice_cluster"
    by (rule ensured_fields) (simp_all add: alice_cluster_def alice_state_def)
  show "bootstrapped alice_cluster"
    by (auto simp: bootstrapped_def names_ok_def ids_ok_def alice_cluster_def alice_state_def alice_def
        mhas_def split: if_splits)
qed

theorem disabled_user_witness:
  "\<exists>s'. applyUserDisableGuarded \<lparr>udg_UserID = ''u1'', udg_ActorUserID = ''u2''\<rparr> alice_cluster = Inr s'
     \<and> \<not> CheckTarget (replay [at_zero (UserCmd (CmdLoginOK \<lparr>lok_Username = ''alice''\<rparr>)),
          at_zero (RbacCmd (CmdBindPut \<lparr>bpb_UserID = ''u1'', bpb_RoleID = roleSuperAdmin,
             bpb_ScopeID = [], bpb_Scope = ScopeCluster\<rparr>))] s') ''u1'' ''cluster.read''
         \<lparr>ct_NodeID = ''n1'', ct_ProcessGroup = []\<rparr>"
proof -
  obtain s' where s': "applyUserDisableGuarded \<lparr>udg_UserID = ''u1'', udg_ActorUserID = ''u2''\<rparr> alice_cluster = Inr s'"
    by (simp add: applyUserDisableGuarded_def alice_cluster_def alice_state_def alice_def userByID_def
        hasClusterSuperAdminBinding_def NewState_def ensure_def zero_state_def)
  have "list_all (no_enable ''u1'') [at_zero (UserCmd (CmdLoginOK \<lparr>lok_Username = ''alice''\<rparr>)),
      at_zero (RbacCmd (CmdBindPut \<lparr>bpb_UserID = ''u1'', bpb_RoleID = roleSuperAdmin,
        bpb_ScopeID = [], bpb_Scope = ScopeCluster\<rparr>))]"
    by (simp add: no_enable_def at_zero_def)
  with disabled_user_stays_denied [OF alice_cluster_ok s', unfolded UserDisableGuardedBody.simps]
  show ?thesis using s' by (intro exI [of _ s'] conjI) (assumption, blast)
qed

section \<open>The invariant of the control state\<close>

definition control_ok :: "State \<Rightarrow> bool" where
  "control_ok s \<longleftrightarrow> names_ok s \<and> admission_ok s \<and> groups_ok s \<and> policies_ok s"

lemma names_frame: "Users s' = Users s \<Longrightarrow> UsersByID s' = UsersByID s \<Longrightarrow> names_ok s \<Longrightarrow> names_ok s'"
  by (simp add: names_ok_def)

lemma admission_frame:
  "JoinTokens s' = JoinTokens s \<Longrightarrow> JoinAttempts s' = JoinAttempts s \<Longrightarrow> Members s' = Members s \<Longrightarrow>
   AdmissionCapability s' = AdmissionCapability s \<Longrightarrow> admission_ok s \<Longrightarrow> admission_ok s'"
  by (simp add: admission_ok_def joins_ok_def)

lemma admission_keeps_groups:
  assumes "apply_admission e now c s = Inr s'" and "groups_ok s"
  shows "groups_ok s'"
proof (cases "\<exists>b. c = CmdMemberRemove b")
  case True
  then obtain b where "c = CmdMemberRemove b" by blast
  with assms(1) have p: "applyMemberRemove b s = Inr s'" by simp
  then have "AgentGroups s' = mmap (\<lambda>_. drop_from_group (mrb_NodeID b)) (AgentGroups s)"
    "AlertChannels s' = AlertChannels s" "StAlertPolicy s' = StAlertPolicy s"
    by (auto simp: applyMemberRemove_def Let_def)
  moreover have "drop_from_group n = (\<lambda>g. g\<lparr>g_MemberIDs := filter (\<lambda>i. i \<noteq> n) (g_MemberIDs g)\<rparr>)" for n
  proof
    fix g :: AgentGroup
    have "filter (\<lambda>i. i \<noteq> n) (g_MemberIDs g) = g_MemberIDs g" if "n \<notin> set (g_MemberIDs g)"
      using that by (auto simp: filter_id_conv)
    then show "drop_from_group n g = g\<lparr>g_MemberIDs := filter (\<lambda>i. i \<noteq> n) (g_MemberIDs g)\<rparr>"
      by (simp add: drop_from_group_def)
  qed
  ultimately show ?thesis
    by (intro groups_ok_drop [OF assms(2), where f = "\<lambda>g. filter (\<lambda>i. i \<noteq> mrb_NodeID b) (g_MemberIDs g)"])
      simp_all
next
  case False
  with assms(1) have "AgentGroups s' = AgentGroups s"
    by (cases c) (auto simp: admission_defs Let_def)
  moreover from admission_footprint [OF assms(1)]
  have "AlertChannels s' = AlertChannels s" "StAlertPolicy s' = StAlertPolicy s" by auto
  ultimately show ?thesis using assms(2) by (rule groups_ok_frame)
qed

lemma control_ok_step:
  assumes "ensured s" and "control_ok s"
  shows "control_ok (fst (FSM_Apply l s))"
proof (rule FSM_Apply_keeps [where P = control_ok, OF assms])
  note ok = assms(2) [unfolded control_ok_def]
  { fix e now c s' assume a: "apply_user e now c s = Inr s'"
    from user_names_ok [OF a] user_footprint [OF a] ok show "control_ok s'"
      by (auto simp: control_ok_def intro: admission_frame groups_ok_frame policies_frame) }
  { fix c s' assume "apply_rbac c s = Inr s'"
    from rbac_footprint [OF this] ok show "control_ok s'"
      by (auto simp: control_ok_def intro: names_frame admission_frame groups_ok_frame policies_frame) }
  { fix e now c s' assume a: "apply_admission e now c s = Inr s'"
    from admission_footprint [OF a] admission_ok_step [OF a] admission_keeps_groups [OF a] ok show "control_ok s'"
      by (auto simp: control_ok_def intro: names_frame policies_frame) }
  { fix e c s' assume a: "apply_group e c s = Inr s'"
    from group_footprint [OF a] group_ok_step [OF a] ok show "control_ok s'"
      by (auto simp: control_ok_def intro: names_frame admission_frame policies_frame) }
  { fix e now c s' assume a: "apply_policy e now c s = Inr s'"
    from policy_footprint [OF a] policy_ok_step [OF a] ok show "control_ok s'"
      by (auto simp: control_ok_def intro: names_frame admission_frame groups_ok_frame) }
  { fix e now c s' assume a: "apply_run e now c s = Inr s'"
    from run_frame [OF a assms(1)] ok show "control_ok s'"
      by (auto simp: control_ok_def intro: names_frame admission_frame groups_ok_frame policies_frame) }
qed

lemma NewFSM_ok: "control_ok NewFSM"
  by (simp add: control_ok_def names_ok_def admission_ok_def joins_ok_def cap_ok_def groups_ok_def
      policies_ok_def NewFSM_def NewState_def ensure_def zero_state_def zero_alert_policy_def
      DefaultAlertPolicy_def alert_ok_def validAlertPercent_def ops_unique_def)

interpretation control_inv: machine_invariant "\<lambda>l s. fst (FSM_Apply l s)" Restore control_ok
  by unfold_locales (simp add: Restore_def ensure_iff control_ok_step)

section \<open>What only grows\<close>

definition cap_le :: "AdmissionCapabilityState \<Rightarrow> AdmissionCapabilityState \<Rightarrow> bool" where
  "cap_le c c' \<longleftrightarrow> (cs_CAFingerprint c \<noteq> [] \<longrightarrow>
     cs_CAFingerprint c' = cs_CAFingerprint c \<and> cs_Epoch c' = cs_Epoch c)"

definition crl_le :: "State \<Rightarrow> State \<Rightarrow> bool" where
  "crl_le s s' \<longleftrightarrow> (\<forall>k. mhas (CRL s) k \<longrightarrow> mhas (CRL s') k)"

definition control_le :: "State \<Rightarrow> State \<Rightarrow> bool" where
  "control_le s s' \<longleftrightarrow> cap_le (AdmissionCapability s) (AdmissionCapability s') \<and> crl_le s s'
     \<and> intent_le (ReplicationDeleteIntents s) (ReplicationDeleteIntents s')"

lemma admission_cap_le:
  assumes "apply_admission e now c s = Inr s'"
  shows "cap_le (AdmissionCapability s) (AdmissionCapability s') \<and> crl_le s s'"
proof (cases c)
  case (CmdCapabilityInit b)
  with assms show ?thesis by (auto simp: applyCapabilityInit_def Let_def cap_le_def crl_le_def)
next
  case (CmdMemberRemove b)
  with assms show ?thesis
    by (auto simp: applyMemberRemove_def Let_def cap_le_def crl_le_def)
qed (use assms in \<open>auto simp: admission_defs Let_def cap_le_def crl_le_def\<close>)

lemma cap_le_refl [simp]: "cap_le c c" by (simp add: cap_le_def)

lemma crl_le_eq: "CRL s' = CRL s \<Longrightarrow> crl_le s s'" by (simp add: crl_le_def)

lemma control_le_step: "ensured s \<Longrightarrow> control_le s (fst (FSM_Apply l s))"
proof (rule FSM_Apply_keeps [where P = "control_le s"])
  assume en: "ensured s"
  { fix e now c s' assume "apply_user e now c s = Inr s'"
    from user_footprint [OF this] show "control_le s s'" by (auto simp: control_le_def intro: crl_le_eq) }
  { fix c s' assume "apply_rbac c s = Inr s'"
    from rbac_footprint [OF this] show "control_le s s'" by (auto simp: control_le_def intro: crl_le_eq) }
  { fix e now c s' assume "apply_admission e now c s = Inr s'"
    from admission_footprint [OF this] admission_cap_le [OF this] show "control_le s s'"
      by (auto simp: control_le_def) }
  { fix e c s' assume "apply_group e c s = Inr s'"
    from group_footprint [OF this] show "control_le s s'" by (auto simp: control_le_def intro: crl_le_eq) }
  { fix e now c s' assume "apply_policy e now c s = Inr s'"
    from policy_footprint [OF this] policy_intents_le [OF this] show "control_le s s'"
      by (auto simp: control_le_def intro: crl_le_eq) }
  { fix e now c s' assume "apply_run e now c s = Inr s'"
    from run_frame [OF this en] show "control_le s s'" by (auto simp: control_le_def intro: crl_le_eq) }
  show "control_le s s" by (simp add: control_le_def crl_le_def)
qed

interpretation control_order: machine_order "\<lambda>l s. fst (FSM_Apply l s)" Restore control_le
proof unfold_locales
  show "control_le s s" for s by (simp add: control_le_def crl_le_def)
  show "control_le s u" if "control_le s t" "control_le t u" for s t u
    using that intent_le_trans unfolding control_le_def cap_le_def crl_le_def by metis
  show "control_le s (fst (FSM_Apply l s))" if "Restore s = s" for s l
    using that control_le_step by (simp add: Restore_def ensure_iff)
qed

section \<open>Removed nodes\<close>

definition no_member_put :: "string \<Rightarrow> LogEntry \<Rightarrow> bool" where
  "no_member_put n l \<longleftrightarrow> (case le_Data l of Some (AdmissionCmd (CmdMemberPut b)) \<Rightarrow> mpb_NodeID b \<noteq> n | _ \<Rightarrow> True)"

lemma group_keeps_out:
  assumes "apply_group e c s = Inr s'" and "node_out n serial s"
  shows "node_out n serial s'"
proof -
  from node_out_revoked [OF assms(2)] obtain m where m: "mget (Members s) n = Some m" "m_Status m = MemberRevoked" by blast
  note out = node_out_groups [OF assms(2)]
  have "mall (\<lambda>_ g. n \<notin> set (g_MemberIDs g)) (AgentGroups s')"
  proof (cases c)
    case (CmdGroupPut b)
    with assms(1) obtain g where "AgentGroups s' = mput (gpb_GroupID b) g (AgentGroups s)"
      and "g_MemberIDs g = g_MemberIDs (mget_or zero_group (AgentGroups s) (gpb_GroupID b))"
      by (auto simp: applyGroupPut_def Let_def)
    moreover have "n \<notin> set (g_MemberIDs (mget_or zero_group (AgentGroups s) (gpb_GroupID b)))"
      using out by (auto simp: mget_or_def zero_group_def mall_def split: option.splits)
    ultimately show ?thesis using out by (auto intro: mall_mput)
  next
    case (CmdGroupMemberAdd b)
    with assms(1) have p: "applyGroupMemberAdd b s = Inr s'" by simp
    then obtain g where g: "mget (AgentGroups s) (gmb_GroupID b) = Some g"
      by (cases "mget (AgentGroups s) (gmb_GroupID b)") (simp_all add: applyGroupMemberAdd_def)
    have "gmb_NodeID b \<noteq> n" using p m by (auto simp: applyGroupMemberAdd_def)
    moreover have "s' = s \<or> AgentGroups s' = mput (gmb_GroupID b)
        (g\<lparr>g_MemberIDs := g_MemberIDs g @ [gmb_NodeID b]\<rparr>) (AgentGroups s)"
      using p by (auto simp: applyGroupMemberAdd_def g)
    moreover have "n \<notin> set (g_MemberIDs (g\<lparr>g_MemberIDs := g_MemberIDs g @ [gmb_NodeID b]\<rparr>))"
      using mallD [OF out g] \<open>gmb_NodeID b \<noteq> n\<close> by auto
    ultimately show ?thesis using out mall_mput [OF out] by auto
  next
    case (CmdGroupMemberRemove b)
    with assms(1) obtain g where g: "mget (AgentGroups s) (gmb_GroupID b) = Some g"
      and "s' = s\<lparr>AgentGroups := mput (gmb_GroupID b)
            (g\<lparr>g_MemberIDs := filter (\<lambda>i. i \<noteq> gmb_NodeID b) (g_MemberIDs g)\<rparr>) (AgentGroups s)\<rparr>"
      by (auto simp: applyGroupMemberRemove_def)
    with out mallD [OF out g] show ?thesis by (auto intro: mall_mput)
  qed (use assms(1) out in \<open>auto simp: group_defs Let_def intro: mall_mdel\<close>)
  moreover from group_footprint [OF assms(1)] have "Members s' = Members s" "CRL s' = CRL s" by auto
  ultimately show ?thesis using node_out_keep [OF assms(2)] by simp
qed

lemma out_frame:
  "Members s' = Members s \<Longrightarrow> AgentGroups s' = AgentGroups s \<Longrightarrow> CRL s' = CRL s \<Longrightarrow> node_out n serial s \<Longrightarrow> node_out n serial s'"
  by (simp add: node_out_def SerialRevoked_def)

lemma out_step:
  assumes "ensured s" and "node_out n serial s" and "no_member_put n l"
  shows "node_out n serial (fst (FSM_Apply l s))"
  using FSM_Apply_step [OF assms(1), of l]
proof (elim disjE exE conjE)
  assume "fst (FSM_Apply l s) = s"
  with assms(2) show ?thesis by simp
next
  fix c
  define s' where "s' = fst (FSM_Apply l s)"
  assume c: "le_Data l = Some c" and "dispatch (le_env l) (entry_time l) c s = Inr (fst (FSM_Apply l s))"
  then have d: "dispatch (le_env l) (entry_time l) c s = Inr s'" by (simp add: s'_def)
  have "node_out n serial s'"
  proof (cases c)
    case (AdmissionCmd x)
    with d c assms(3) show ?thesis
      by (auto intro: admission_keeps_out [OF _ assms(2)] simp: no_member_put_def)
  next
    case (GroupCmd x)
    with d group_keeps_out [OF _ assms(2)] show ?thesis by simp
  next
    case (RunCmd x)
    with d assms(2) show ?thesis
      by (auto dest!: run_frame [OF _ assms(1)] elim: out_frame [rotated -1])
  qed (use d assms(2) in \<open>auto dest!: user_footprint rbac_footprint policy_footprint elim: out_frame [rotated -1]\<close>)
  then show ?thesis by (simp add: s'_def)
qed

lemma out_replay:
  assumes "ensured s" and "node_out n serial s" and "list_all (no_member_put n) ls"
  shows "node_out n serial (replay ls s)"
  using assms
proof (induction ls arbitrary: s)
  case (Cons l ls)
  from Cons.prems(3) have "no_member_put n l" and "list_all (no_member_put n) ls" by simp_all
  with Cons.IH [OF FSM_Apply_ensured out_step] Cons.prems(1,2) show ?case by simp
qed simp

lemma out_no_scope: "node_out n serial s \<Longrightarrow> \<not> NodeInGroup s n g"
  using node_out_groups [of n serial s] by (auto simp: NodeInGroup_def mall_def split: option.splits)

text \<open>
  C8: The control state is well formed in every state a replica can reach, through any log and
  across a snapshot and restore at any point: the user index finds users under their own names, every
  join attempt belongs to a known member and no operation identifier serves two nodes, the
  capability nodes carry the cluster's epoch and unique operations, group and policy names are
  unique, group members are listed once, the alert thresholds are in range, and the routes of every
  replication policy match its replica factor.
\<close>

theorem reachable_state_well_formed:
  "control_ok (replay ys (Restore (Snapshot (replay xs NewFSM))))"
  using control_inv.inv_restored [of NewFSM ys xs] NewFSM_ok NewFSM_ensured
  by (simp add: replay_def Snapshot_def Restore_id)


text \<open>
  What only grows. Whatever is replicated later, an initialised CA fingerprint and its epoch never
  change, a revoked certificate serial stays revoked, and a replication delete intent keeps its
  identity and, once it has ended, its outcome.
\<close>

theorem control_history_is_kept:
  "control_le (replay xs NewFSM) (replay (xs @ ys) NewFSM)"
  using control_order.le_fold [of "replay xs NewFSM" ys] replay_ensured [OF NewFSM_ensured, of xs]
  unfolding replay_append by (simp add: replay_def Restore_id)

text \<open>
  The built-in roles are fixed. After any log, each of the four built-in roles is present with
  exactly the permissions it was shipped with.
\<close>

theorem builtin_roles_fixed:
  "list_all (\<lambda>r. mget (Roles (replay ls NewFSM)) (r_ID r) = Some r) builtinRoles"
  using replay_ensured [OF NewFSM_ensured, of ls] by (simp add: ensured_def)


definition two_node_state :: State where
  "two_node_state = alice_cluster\<lparr>
     Members := [(''n1'', \<lparr>m_NodeID = ''n1'', m_RaftAddr = ''a'', m_CertSerial = ''0A'', m_Status = MemberAdmitted\<rparr>)],
     AgentGroups := [(''g1'', \<lparr>g_GroupID = ''g1'', g_Name = ''web'', g_Description = [], g_MemberIDs = [''n1''],
        g_CreatedUnix = 0, g_UpdatedUnix = 0\<rparr>)]\<rparr>"


end
