(* ===== verification/Control_Run_Order.thy ===== *)
theory Control_Run_Order imports Control_Run_Steps
begin

text \<open>
  What run commands never undo: the leader term of a run never falls (except through a prune or
  a scheduled claim), commands of a leader with a lower term are refused, and the outcome of a
  terminal run stays until a retry or a prune.
\<close>


section \<open>Fires\<close>

lemma claim_fire_fresh_lease:
  assumes "ClaimFire e b now s = Inr (r, True, s')"
  shows "mget (BackupFireLedger s') (fcb_FireKey b) = Some r" and "f_LeaseUntilUnix r = 0 \<Longrightarrow> durableFireRecord r"
proof -
  show "mget (BackupFireLedger s') (fcb_FireKey b) = Some r" by (rule claim_fire_result(2) [OF assms])
  assume z: "f_LeaseUntilUnix r = 0"
  show "durableFireRecord r"
  proof (cases "mget (BackupFireLedger s) (fcb_FireKey b)")
    case None
    from claim_fire_new [OF assms None] have "r = new_fire e b now" by simp
    with z show ?thesis by (simp add: durableFireRecord_def new_fire_def)
  next
    case (Some c)
    from claim_fire_known_cases [OF assms Some] have "r = taken_over b now c" by (auto split: if_splits)
    with z show ?thesis by (simp add: durableFireRecord_def taken_over_def)
  qed
qed

lemma claim_fire_held:
  assumes "ClaimFire e b now s = Inr (r, a, s')" and "mget (BackupFireLedger s) (fcb_FireKey b) = Some c"
    and "durableFireRecord c \<or> Unix now < f_LeaseUntilUnix c \<or> fcb_LeaderTerm b \<le> f_LeaderTerm c"
  shows "r = c \<and> \<not> a \<and> s' = ensure s"
  using claim_fire_known_cases [OF assms(1,2)] assms(3) by auto

section \<open>Leader terms\<close>

definition term_le :: "State \<Rightarrow> State \<Rightarrow> bool" where
  "term_le s s' \<longleftrightarrow> (\<forall>rep i. term_of s rep i \<le> term_of s' rep i)"

lemma term_leD: "term_le s s' \<Longrightarrow> term_of s rep i \<le> term_of s' rep i"
  by (simp add: term_le_def)

lemma term_le_same: "(\<And>r. runTerms s' r = runTerms s r) \<Longrightarrow> term_le s s'"
  by (simp add: term_le_def term_of_def)

lemma term_le_raise:
  assumes "\<And>r. runTerms s' r = (if r = rep then runTerms (raise_term r i t s) r else runTerms s r)"
  shows "term_le s s'"
  unfolding term_le_def term_of_def assms
  by (auto simp: terms_raise mget_or_def term_of_def split: option.split)

text \<open>The commands that can forget or lower a term.\<close>

definition keeps_terms :: "RunCommand \<Rightarrow> bool" where
  "keeps_terms c \<longleftrightarrow> (case c of CmdBackupScheduledRunClaim _ \<Rightarrow> False | CmdRunMetadataPrune _ \<Rightarrow> False | _ \<Rightarrow> True)"

lemma begin_terms:
  assumes "applyBeginReplicationTask b now s = Inr s'"
  shows "runTerms s' r = runTerms s r"
  using assms by (rule begin_task_cases) simp

lemma create_terms:
  assumes "applyCreateRun b s = Inr s'" and "runs_ok s"
  shows "term_le s s'"
proof (cases "mget (runs_of s (crb_Replication b)) (run_RunID (crb_Run b))")
  case (Some r)
  with create_run_result(5) [OF assms(1)] have "s' = ensure s" by simp
  then show ?thesis by (intro term_le_same) simp
next
  case None
  with create_run_result(5) [OF assms(1)] have ts: "runTerms s' r = (if crb_Replication b = r
      then mput (run_RunID (crb_Run b)) (crb_LeaderTerm b) (runTerms s r) else runTerms s r)" for r by simp
  from None kind_of [OF assms(2), of "crb_Replication b"]
  have "\<not> mhas (runTerms s (crb_Replication b)) (run_RunID (crb_Run b))" by (simp add: kind_ok_def mhas_def)
  then have "mget (runTerms s (crb_Replication b)) (run_RunID (crb_Run b)) = None" by (simp add: mhas_def)
  then show ?thesis unfolding term_le_def term_of_def ts by (auto simp: mget_or_def)
qed

lemma claim_run_terms:
  assumes "ClaimRun b s = Inr (a, s')"
  shows "term_le s s'"
  using assms
proof (cases rule: claim_run_cases)
  case 1
  then show ?thesis by (intro term_le_same) simp
next
  case (2 run)
  then show ?thesis unfolding term_le_def term_of_def by (auto simp: mget_or_def term_of_def)
qed

lemma update_terms:
  assumes "applyUpdateTask b now s = Inr s'"
  shows "term_le s s'"
  using assms
proof (cases rule: update_task_cases)
  case begin_task
  from begin_terms [OF this] show ?thesis by (intro term_le_same) simp
next
  case (closed cur)
  then show ?thesis by (intro term_le_same) simp
next
  case (stored tasks')
  from stored(7) show ?thesis by (rule term_le_raise)
qed

lemma finish_terms:
  assumes "applyFinishRun b s = Inr s'"
  shows "term_le s s'"
  using assms
proof (cases rule: finish_cases)
  case (closed run)
  then show ?thesis by (intro term_le_same) simp
next
  case (finish run)
  from finish(8) show ?thesis by (rule term_le_raise)
qed

lemma terms_step:
  assumes "apply_run e now c s = Inr s'" and "runs_ok s" and "keeps_terms c"
  shows "term_le s s'"
proof (cases c)
  case (CmdBackupFireClaim b)
  with assms(1) obtain r a where cf: "ClaimFire e b now s = Inr (r, a, s')" by auto
  have "s' = ensure s \<or> s' = put_fire (fcb_FireKey b) r (ensure s)"
    using claim_fire_known_cases [OF cf] claim_fire_new [OF cf]
    by (cases "mget (BackupFireLedger s) (fcb_FireKey b)") (auto split: if_splits)
  then show ?thesis by (intro term_le_same) auto
next
  case (CmdBackupRunCreate b)
  with assms create_terms show ?thesis by simp
next
  case (CmdBackupRunClaim b)
  with assms(1) obtain a where "ClaimRun b s = Inr (a, s')" by auto
  then show ?thesis by (rule claim_run_terms)
next
  case (CmdBackupTaskUpdate b)
  with assms update_terms show ?thesis by simp
next
  case (CmdBackupRetryFailedTasks b)
  with assms(1) have "applyRetryFailedTasks b s = Inr s'" by simp
  then show ?thesis by (rule retry_cases) (rule term_le_raise)
next
  case (CmdBackupRunFinish b)
  with assms finish_terms show ?thesis by simp
qed (use assms(3) in \<open>simp_all add: keeps_terms_def\<close>)

text \<open>A command of a leader whose term is lower than the run's is refused.\<close>

lemma stale_update:
  assumes "utb_LeaderTerm b < term_of s (utb_Replication b) (t_RunID (utb_Task b))"
  shows "\<not> (\<exists>s'. applyUpdateTask b now s = Inr s' \<and> s' \<noteq> ensure s)"
proof (clarify)
  fix s' assume "applyUpdateTask b now s = Inr s'" and ne: "s' \<noteq> ensure s"
  then show False
  proof (cases rule: update_task_cases)
    case begin_task
    from begin_task_cases [OF begin_task] assms show False by fastforce
  qed (use assms ne in auto)
qed

lemma stale_finish:
  assumes "frb_LeaderTerm b < term_of s (frb_Replication b) (frb_RunID b)"
  shows "\<not> (\<exists>s'. applyFinishRun b s = Inr s')"
  using assms by (auto simp: applyFinishRun_def Let_def split: option.splits)

lemma stale_retry:
  assumes "rtb_LeaderTerm b < term_of s (rtb_Replication b) (rtb_RunID b)"
  shows "\<not> (\<exists>s'. applyRetryFailedTasks b s = Inr s')"
  using assms by (auto elim: retry_cases)

lemma stale_claim:
  assumes "rcb_LeaderTerm b < term_of s (rcb_Replication b) (rcb_RunID b)" and "ClaimRun b s = Inr (a, s')"
  shows "\<not> a \<and> s' = ensure s"
  using assms(2) by (cases rule: claim_run_cases) (use assms(1) in auto)

section \<open>The outcome of a run\<close>

record Outcome =
  oc_status :: Status
  oc_success :: int
  oc_failed :: int
  oc_unavailable :: int
  oc_timeout :: int
  oc_finished :: int

definition outcome :: "ClusterBackupRun \<Rightarrow> Outcome" where
  "outcome r = \<lparr>oc_status = run_Status r, oc_success = run_Success r, oc_failed = run_Failed r,
     oc_unavailable = run_Unavailable r, oc_timeout = run_Timeout r, oc_finished = run_FinishedUnix r\<rparr>"

definition settled :: "State \<Rightarrow> bool \<Rightarrow> string \<Rightarrow> Outcome \<Rightarrow> bool" where
  "settled s rep i v \<longleftrightarrow>
     (\<exists>r. mget (runs_of s rep) i = Some r \<and> terminalRunStatus (run_Status r) \<and> outcome r = v)"

text \<open>The commands that reopen or drop the run.\<close>

definition keeps_outcome :: "bool \<Rightarrow> string \<Rightarrow> RunCommand \<Rightarrow> bool" where
  "keeps_outcome rep i c \<longleftrightarrow> (case c of
       CmdBackupRetryFailedTasks b \<Rightarrow> \<not> (rtb_Replication b = rep \<and> rtb_RunID b = i)
     | CmdRunMetadataPrune _ \<Rightarrow> False
     | _ \<Rightarrow> True)"

lemma settled_same: "settled s rep i v \<Longrightarrow> runs_of s' rep = runs_of s rep \<Longrightarrow> settled s' rep i v"
  by (simp add: settled_def)

lemma settled_put:
  assumes "settled s rep i v"
    and "runs_of s' rep = (if P then mput k r (runs_of s rep) else runs_of s rep)"
    and "\<And>r0. P \<Longrightarrow> k = i \<Longrightarrow> mget (runs_of s rep) i = Some r0 \<Longrightarrow> terminalRunStatus (run_Status r0) \<Longrightarrow>
        outcome r = outcome r0"
  shows "settled s' rep i v"
proof -
  from assms(1) obtain r0 where r0: "mget (runs_of s rep) i = Some r0" "terminalRunStatus (run_Status r0)"
    "outcome r0 = v" by (auto simp: settled_def)
  show ?thesis
  proof (cases "P \<and> k = i")
    case True
    with assms(3) r0 have "outcome r = outcome r0" by blast
    then have "run_Status r = run_Status r0" by (simp add: outcome_def)
    with True r0 assms(2) \<open>outcome r = outcome r0\<close> show ?thesis by (simp add: settled_def)
  next
    case False
    with assms(2) r0 show ?thesis by (auto simp: settled_def)
  qed
qed

lemma settled_aggregate:
  assumes "settled s rep i v" and "runs_of s' rep = aggregateTerminalRun (runs_of s rep) tasks k rep"
  shows "settled s' rep i v"
  using aggregate_cases [of "runs_of s rep" tasks k rep]
proof (elim disjE exE conjE)
  assume "aggregateTerminalRun (runs_of s rep) tasks k rep = runs_of s rep"
  with assms show ?thesis by (simp add: settled_def)
next
  fix run n c
  assume h: "mget (runs_of s rep) k = Some run" "\<not> terminalRunStatus (run_Status run)"
    "aggregateTerminalRun (runs_of s rep) tasks k rep = mput k (close_run n c run) (runs_of s rep)"
  show ?thesis
    by (rule settled_put [OF assms(1), where P = True and k = k and r = "close_run n c run"])
      (use assms(2) h in auto)
qed

lemma create_settled:
  assumes "applyCreateRun b s = Inr s'" and "settled s rep i v"
  shows "settled s' rep i v"
proof (cases "mget (runs_of s (crb_Replication b)) (run_RunID (crb_Run b))")
  case (Some r)
  with create_run_result(5) [OF assms(1)] have "s' = ensure s" by simp
  with assms(2) show ?thesis by (simp add: settled_def)
next
  case None
  with create_run_result(5) [OF assms(1)] have r: "runs_of s' rep = (if crb_Replication b = rep
      then mput (run_RunID (crb_Run b)) ((crb_Run b)\<lparr>run_TargetNodeIDs := slice_copy (run_TargetNodeIDs (crb_Run b))\<rparr>)
        (runs_of s rep) else runs_of s rep)" by simp
  show ?thesis by (rule settled_put [OF assms(2) r]) (use None in auto)
qed

lemma scheduled_settled:
  assumes "ClaimScheduledRun e b now s = Inr (rec, run, a, s')" and "settled s rep i v" and "runs_ok s"
  shows "settled s' rep i v"
  using assms(1)
proof (cases rule: scheduled_cases)
  case none
  with assms(2) settled_same show ?thesis by blast
next
  case (takeover c old)
  have "run_RunID old = f_RunID c"
    using kind_of [OF assms(3), of False] takeover(2) by (auto simp: kind_ok_def runs_of_False run_ok_def dest: mallD)
  moreover from takeover(9) have r: "runs_of s' rep = (if rep = False then mput (run_RunID old) run (runs_of s rep) else runs_of s rep)"
    by (simp add: runs_of_False put_fire_def)
  ultimately show ?thesis
    by (intro settled_put [OF assms(2) r]) (use takeover in \<open>auto simp: runs_of_False\<close>)
next
  case (fresh s1)
  from fresh(8) have r: "runs_of s' rep = (if rep = False then mput (run_RunID (src_Run b)) run (runs_of s rep) else runs_of s rep)"
    by (simp add: runs_of_False put_fire_def)
  show ?thesis
  proof (rule settled_put [OF assms(2) r])
    fix r0 assume h: "rep = False" "run_RunID (src_Run b) = i" "mget (runs_of s rep) i = Some r0"
    with create_run_result(5) [OF fresh(6)] have "r0 = src_Run b" by simp
    with fresh(7) show "outcome run = outcome r0" by (simp add: outcome_def)
  qed
qed

lemma settled_step:
  assumes "apply_run e now c s = Inr s'" and "runs_ok s" and "keeps_outcome rep i c" and "settled s rep i v"
  shows "settled s' rep i v"
proof (cases c)
  case (CmdBackupFireClaim b)
  with assms(1) obtain r a where cf: "ClaimFire e b now s = Inr (r, a, s')" by auto
  have "s' = ensure s \<or> s' = put_fire (fcb_FireKey b) r (ensure s)"
    using claim_fire_known_cases [OF cf] claim_fire_new [OF cf]
    by (cases "mget (BackupFireLedger s) (fcb_FireKey b)") (auto split: if_splits)
  then show ?thesis by (intro settled_same [OF assms(4)]) auto
next
  case (CmdBackupScheduledRunClaim b)
  with assms(1) obtain r run a where "ClaimScheduledRun e b now s = Inr (r, run, a, s')" by auto
  then show ?thesis by (rule scheduled_settled [OF _ assms(4,2)])
next
  case (CmdBackupRunCreate b)
  with assms create_settled show ?thesis by simp
next
  case (CmdBackupRunClaim b)
  with assms(1) obtain a where "ClaimRun b s = Inr (a, s')" by auto
  then show ?thesis
  proof (cases rule: claim_run_cases)
    case 1
    with assms(4) show ?thesis by (simp add: settled_def)
  next
    case (2 run)
    then show ?thesis by (intro settled_put [OF assms(4) 2(6) [of rep]]) auto
  qed
next
  case (CmdBackupTaskUpdate b)
  with assms(1) have "applyUpdateTask b now s = Inr s'" by simp
  then show ?thesis
  proof (cases rule: update_task_cases)
    case begin_task
    then have "runs_of s' rep = runs_of s rep" by (rule begin_task_cases) simp
    then show ?thesis by (rule settled_same [OF assms(4)])
  next
    case (closed cur)
    with assms(4) show ?thesis by (simp add: settled_def)
  next
    case (stored tasks')
    show ?thesis
    proof (cases "rep = utb_Replication b")
      case True
      with stored(6) [of rep] show ?thesis by (intro settled_aggregate [OF assms(4)]) simp
    next
      case False
      with stored(6) [of rep] show ?thesis by (intro settled_same [OF assms(4)]) simp
    qed
  qed
next
  case (CmdBackupRetryFailedTasks b)
  with assms(1) have "applyRetryFailedTasks b s = Inr s'" by simp
  then show ?thesis
  proof (rule retry_cases)
    fix run
    assume "\<And>r. runs_of s' r = (if r = rtb_Replication b \<and> has_retryable b s
           then mput (rtb_RunID b) (reopened b run) (runs_of s r) else runs_of s r)"
    from this [of rep] show ?thesis
      by (rule settled_put [OF assms(4)]) (use assms(3) CmdBackupRetryFailedTasks in \<open>auto simp: keeps_outcome_def\<close>)
  qed
next
  case (CmdBackupRunFinish b)
  with assms(1) have "applyFinishRun b s = Inr s'" by simp
  then show ?thesis
  proof (cases rule: finish_cases)
    case (closed run)
    with assms(4) show ?thesis by (simp add: settled_def)
  next
    case (finish run)
    then show ?thesis by (intro settled_put [OF assms(4) finish(7) [of rep]]) auto
  qed
qed (use assms(3) in \<open>simp_all add: keeps_outcome_def\<close>)

end
