(* ===== verification/Control_Run_Results.thy ===== *)
theory Control_Run_Results imports Control_Run_Order
begin

text \<open>
  The properties of the run commands: what closes a run and with which result, exclusive fires,
  idempotent creation, exact pruning and retry.
\<close>


section \<open>The result of a run\<close>

definition succeeded :: "ClusterBackupTask \<Rightarrow> bool" where
  "succeeded t \<longleftrightarrow> t_Status t = S_SUCCESS \<or> t_Status t = S_SUCCEEDED"

definition count :: "('a \<Rightarrow> bool) \<Rightarrow> 'a list \<Rightarrow> int" where
  "count P xs = int (length (filter P xs))"

lemma count_simps [simp]:
  "count P [] = 0" "count P (x # xs) = (if P x then 1 else 0) + count P xs"
  by (simp_all add: count_def)

lemma count_nonneg: "0 \<le> count P xs" by (simp add: count_def)

lemma count_all: "count P xs = int (length xs) \<longleftrightarrow> list_all P xs"
proof (induction xs)
  case (Cons x xs)
  have "count P xs \<le> int (length xs)" by (simp add: count_def)
  with Cons show ?case by auto
qed simp

lemma count_some: "0 < count P xs \<longleftrightarrow> list_ex P xs"
  by (auto simp: count_def list_ex_iff filter_empty_conv)

definition plain_failure :: "ClusterBackupTask \<Rightarrow> bool" where
  "plain_failure t \<longleftrightarrow> \<not> succeeded t \<and> t_Status t \<noteq> S_UNAVAILABLE \<and> t_Status t \<noteq> S_TIMEOUT"

text \<open>The result a list of terminal tasks stands for.\<close>

definition tallied :: "ClusterBackupTask list \<Rightarrow> RunTally" where
  "tallied ts = \<lparr>ty_success = count succeeded ts, ty_failed = count plain_failure ts,
     ty_unavailable = count (\<lambda>t. t_Status t = S_UNAVAILABLE) ts,
     ty_timeout = count (\<lambda>t. t_Status t = S_TIMEOUT) ts,
     ty_finished = foldr (\<lambda>t. max (t_UpdatedUnix t)) ts 0\<rparr>"

lemma tally_None: "tally ts c = None \<longleftrightarrow> \<not> list_all (\<lambda>t. terminalTaskStatus (t_Status t)) ts"
  by (induction ts arbitrary: c) auto

definition tally_add :: "RunTally \<Rightarrow> RunTally \<Rightarrow> RunTally" where
  "tally_add c d = \<lparr>ty_success = ty_success c + ty_success d, ty_failed = ty_failed c + ty_failed d,
     ty_unavailable = ty_unavailable c + ty_unavailable d, ty_timeout = ty_timeout c + ty_timeout d,
     ty_finished = max (ty_finished c) (ty_finished d)\<rparr>"

lemma foldr_max_nonneg: "0 \<le> foldr (\<lambda>t. max (f t)) ts (0 :: int)"
  by (induction ts) auto

lemma tally_add_task: "tally_add (tally_task t c) (tallied ts) = tally_add c (tallied (t # ts))"
  by (auto simp: tally_add_def tally_task_def tallied_def tally_status_def succeeded_def plain_failure_def Let_def
      max_def split: Status.splits)

lemma tally_adds: "tally ts c = Some c' \<Longrightarrow> 0 \<le> ty_finished c \<Longrightarrow> c' = tally_add c (tallied ts)"
proof (induction ts arbitrary: c)
  case Nil
  then show ?case by (simp add: tally_add_def tallied_def)
next
  case (Cons t ts)
  have "0 \<le> ty_finished (tally_task t c)"
    using Cons.prems(2) by (auto simp: tally_task_def Let_def tally_status_def split: Status.splits)
  with Cons.IH [of "tally_task t c"] Cons.prems(1) have "c' = tally_add (tally_task t c) (tallied ts)"
    by (simp split: if_splits)
  then show ?case by (simp add: tally_add_task)
qed

lemma tally_zero: "tally ts zero_tally =
    (if list_all (\<lambda>t. terminalTaskStatus (t_Status t)) ts then Some (tallied ts) else None)"
proof (cases "tally ts zero_tally")
  case None
  with tally_None [of ts zero_tally] show ?thesis by simp
next
  case (Some c)
  from tally_adds [OF this] have "c = tally_add zero_tally (tallied ts)" by (simp add: zero_tally_def)
  also have "\<dots> = tallied ts"
    by (simp add: tally_add_def zero_tally_def tallied_def foldr_max_nonneg)
  finally show ?thesis using Some tally_None [of ts zero_tally] by auto
qed

lemma tallied_sum:
  "ty_success (tallied ts) + ty_failed (tallied ts) + ty_unavailable (tallied ts) + ty_timeout (tallied ts) = int (length ts)"
  by (induction ts) (auto simp: tallied_def succeeded_def plain_failure_def)

lemma tallied_perm: "mset ts = mset us \<Longrightarrow> tallied ts = tallied us"
proof -
  assume m: "mset ts = mset us"
  then have "count P ts = count P us" for P
    unfolding count_def by (metis mset_filter size_mset)
  moreover have "foldr (\<lambda>t. max (t_UpdatedUnix t)) ts 0 = foldr (\<lambda>t. max (t_UpdatedUnix t)) us 0"
  proof -
    have "foldr (\<lambda>t. max (t_UpdatedUnix t)) xs 0 = Max (insert 0 (t_UpdatedUnix ` set xs))" for xs :: "ClusterBackupTask list"
    proof (induction xs)
      case (Cons x xs)
      have "Max (insert (t_UpdatedUnix x) (insert 0 (t_UpdatedUnix ` set xs))) =
          max (t_UpdatedUnix x) (Max (insert 0 (t_UpdatedUnix ` set xs)))" by (rule Max_insert) auto
      with Cons show ?case by (simp add: insert_commute del: Max_insert)
    qed simp
    with m show ?thesis by (metis set_mset_mset)
  qed
  ultimately show ?thesis by (simp add: tallied_def)
qed

text \<open>The newest task of every target.\<close>

definition newest_in :: "ClusterBackupTask list \<Rightarrow> ClusterBackupTask \<Rightarrow> bool" where
  "newest_in ts t \<longleftrightarrow> t \<in> set ts \<and> (\<forall>u\<in>set ts. t_NodeID u = t_NodeID t \<longrightarrow> t_UpdatedUnix u \<le> t_UpdatedUnix t)"

lemma mget_newer_task: "mget (newer_task t m) n =
    (if t_NodeID t = n \<and> (case mget m n of None \<Rightarrow> True | Some u \<Rightarrow> t_UpdatedUnix u \<le> t_UpdatedUnix t) then Some t
     else mget m n)"
  by (simp add: newer_task_def split: option.split)

lemma fold_newer:
  "case mget (fold newer_task ts []) n of
     None \<Rightarrow> \<forall>t\<in>set ts. t_NodeID t \<noteq> n
   | Some t \<Rightarrow> newest_in ts t \<and> t_NodeID t = n"
proof (induction ts rule: rev_induct)
  case (snoc t ts)
  show ?case
    by (cases "mget (fold newer_task ts []) n"; use snoc in \<open>simp add: mget_newer_task\<close>) (auto simp: newest_in_def)
qed simp

lemma fold_newer_wf: "wfmap m \<Longrightarrow> wfmap (fold newer_task ts m)"
  by (induction ts arbitrary: m) (auto simp: newer_task_def split: option.split)

lemma wf_length_keys:
  assumes "wfmap m" and "distinct ks" and "\<And>k. mhas m k \<Longrightarrow> k \<in> set ks"
  shows "length m = length ks \<longleftrightarrow> (\<forall>k\<in>set ks. mhas m k)"
proof -
  have d: "distinct (map fst m)" using assms(1) by (simp add: wfmap_def)
  have keys: "k \<in> set (map fst m) \<longleftrightarrow> mhas m k" for k
    by (simp add: mhas_def map_of_eq_None_iff)
  have sub: "set (map fst m) \<subseteq> set ks" using assms(3) keys by blast
  have "length m = card (set (map fst m))" using distinct_card [OF d] by simp
  moreover have "length ks = card (set ks)" using distinct_card [OF assms(2)] by simp
  ultimately have "length m = length ks \<longleftrightarrow> set (map fst m) = set ks"
    using card_subset_eq [OF _ sub] by auto
  with sub keys show ?thesis by blast
qed

lemma tasks_by_node_length:
  "length (tasks_by_node tasks i targets) = length (remdups targets) \<longleftrightarrow>
    (\<forall>n\<in>set targets. \<exists>t\<in>set (run_tasks tasks i). t_NodeID t = n)"
proof -
  define ts where "ts = filter (\<lambda>t. t_NodeID t \<in> set targets) (run_tasks tasks i)"
  have has: "mhas (tasks_by_node tasks i targets) n \<longleftrightarrow> (\<exists>t\<in>set ts. t_NodeID t = n)" for n
    using fold_newer [of ts n] by (auto simp: mhas_def tasks_by_node_def ts_def newest_in_def split: option.splits)
  have "length (tasks_by_node tasks i targets) = length (remdups targets) \<longleftrightarrow>
      (\<forall>n\<in>set (remdups targets). mhas (tasks_by_node tasks i targets) n)"
    by (rule wf_length_keys) (use has in \<open>auto simp: tasks_by_node_def ts_def intro: fold_newer_wf\<close>)
  with has show ?thesis by (auto simp: ts_def)
qed

text \<open>
  The tasks a run is judged by: all its tasks for a replication run, the newest task of every
  target for a backup run. \<open>None\<close> while a target (or any task) is missing.
\<close>

definition judged :: "(string, ClusterBackupTask) gomap \<Rightarrow> ClusterBackupRun \<Rightarrow> string \<Rightarrow> bool \<Rightarrow> ClusterBackupTask list" where
  "judged tasks run i rep =
    (if rep then run_tasks tasks i
     else map (\<lambda>n. the (mget (tasks_by_node tasks i (remdups (elems (run_TargetNodeIDs run)))) n))
       (remdups (elems (run_TargetNodeIDs run))))"

definition has_all_tasks :: "(string, ClusterBackupTask) gomap \<Rightarrow> ClusterBackupRun \<Rightarrow> string \<Rightarrow> bool \<Rightarrow> bool" where
  "has_all_tasks tasks run i rep \<longleftrightarrow>
    (if rep then run_tasks tasks i \<noteq> []
     else elems (run_TargetNodeIDs run) \<noteq> []
       \<and> (\<forall>n\<in>set (elems (run_TargetNodeIDs run)). \<exists>t\<in>set (run_tasks tasks i). t_NodeID t = n))"

lemma aggregate_result:
  assumes "mget runs i = Some run" and "\<not> terminalRunStatus (run_Status run)"
  shows "aggregateTerminalRun runs tasks i rep =
    (if has_all_tasks tasks run i rep \<and> list_all (\<lambda>t. terminalTaskStatus (t_Status t)) (judged tasks run i rep)
     then mput i (close_run (int (length (judged tasks run i rep))) (tallied (judged tasks run i rep)) run) runs
     else runs)"
proof (cases rep)
  case True
  with assms show ?thesis
    by (auto simp: aggregateTerminalRun_def aggregateReplicationTerminalRun_def judged_def has_all_tasks_def
        Let_def tally_zero mget_or_def)
next
  case False
  have len: "length (tasks_by_node tasks i (remdups (elems (run_TargetNodeIDs run)))) = length (remdups (elems (run_TargetNodeIDs run)))
      \<longleftrightarrow> (\<forall>n\<in>set (elems (run_TargetNodeIDs run)). \<exists>t\<in>set (run_tasks tasks i). t_NodeID t = n)"
    using tasks_by_node_length [of tasks i "remdups (elems (run_TargetNodeIDs run))"] by (simp only: remdups_remdups set_remdups)
  from False assms show ?thesis
    by (simp add: aggregateTerminalRun_def judged_def has_all_tasks_def Let_def tally_zero len)
qed

lemma judged_newest:
  assumes "has_all_tasks tasks run i False" and "t \<in> set (judged tasks run i False)"
  shows "newest_in (run_tasks tasks i) t \<and> t_NodeID t \<in> set (elems (run_TargetNodeIDs run))"
proof -
  define targets where "targets = elems (run_TargetNodeIDs run)"
  define ts where "ts = filter (\<lambda>t. t_NodeID t \<in> set (remdups targets)) (run_tasks tasks i)"
  from assms(2) obtain n where n: "n \<in> set targets" and t: "t = the (mget (fold newer_task ts []) n)"
    by (auto simp: judged_def tasks_by_node_def targets_def ts_def)
  from assms(1) n have "\<exists>u\<in>set ts. t_NodeID u = n" by (auto simp: has_all_tasks_def ts_def targets_def)
  with fold_newer [of ts n] t have "newest_in ts t \<and> t_NodeID t = n"
    by (cases "mget (fold newer_task ts []) n") auto
  with n show ?thesis by (auto simp: newest_in_def ts_def targets_def)
qed

lemma judged_nodes:
  assumes "has_all_tasks tasks run i False"
  shows "map t_NodeID (judged tasks run i False) = remdups (elems (run_TargetNodeIDs run))"
proof -
  define targets where "targets = elems (run_TargetNodeIDs run)"
  define ts where "ts = filter (\<lambda>t. t_NodeID t \<in> set (remdups targets)) (run_tasks tasks i)"
  have "t_NodeID (the (mget (fold newer_task ts []) n)) = n" if "n \<in> set targets" for n
  proof -
    from assms that have "\<exists>u\<in>set ts. t_NodeID u = n" by (auto simp: has_all_tasks_def ts_def targets_def)
    with fold_newer [of ts n] show ?thesis by (cases "mget (fold newer_task ts []) n") auto
  qed
  then have "map (\<lambda>n. t_NodeID (the (mget (fold newer_task ts []) n))) (remdups targets) = map (\<lambda>n. n) (remdups targets)"
    by (intro map_cong) auto
  then show ?thesis by (simp add: judged_def tasks_by_node_def targets_def ts_def comp_def)
qed

section \<open>Properties of fires\<close>

text \<open>
  C13: A scheduled fire has one owner. Once a claim has acquired a fire, every other claim of its key
  that is accepted while the lease runs, or comes from a leader whose term is not higher, or
  comes after a claim that was made durable, is told that it did not acquire the fire, gets the
  same record (so the same run identifier) and changes nothing.
\<close>

theorem fire_claim_exclusive:
  assumes "ClaimFire e b now s = Inr (r, True, s')"
    and "fcb_FireKey b' = fcb_FireKey b"
    and "Unix now' < f_LeaseUntilUnix r \<or> fcb_LeaderTerm b' \<le> f_LeaderTerm r \<or> f_LeaseUntilUnix r = 0"
    and "ClaimFire e' b' now' s' = Inr (r', a', s'')"
  shows "r' = r \<and> \<not> a' \<and> s'' = s'"
proof -
  have "r' = r \<and> \<not> a' \<and> s'' = ensure s'"
    by (rule claim_fire_held [OF assms(4)])
      (use claim_fire_fresh_lease [OF assms(1)] assms(2,3) in auto)
  moreover have "ensure s' = s'" using claim_fire_result(1) [OF assms(1)] by (simp add: ensure_iff)
  ultimately show ?thesis by simp
qed

definition fire_one :: FireClaimBody where
  "fire_one = \<lparr>fcb_OperationID = ''op1'', fcb_FireKey = ''daily@100'', fcb_PolicyID = ''p1'', fcb_ScheduledUnix = 100,
     fcb_LeaseUntilUnix = 160, fcb_LeaderTerm = 3, fcb_Status = S_empty, fcb_RunID = [], fcb_Durable = False\<rparr>"

definition fired :: FireRecord where
  "fired = \<lparr>f_FireKey = ''daily@100'', f_PolicyID = ''p1'', f_RunID = ''run-daily@100'', f_ScheduledUnix = 100,
     f_ClaimedUnix = 100, f_LeaseUntilUnix = 160, f_LeaderTerm = 3, f_Status = S_CLAIMED\<rparr>"

definition hash_env :: env where
  "hash_env = \<lparr>sha256_hex = (\<lambda>x. x), new_uuid = Inr ''id'', json_object = (\<lambda>_. True), timezone_known = (\<lambda>_. True)\<rparr>"

lemma fire_trims: "TrimSpace ''op1'' = ''op1''" "TrimSpace ''daily@100'' = ''daily@100''" "TrimSpace ''p1'' = ''p1''"
  by (simp_all add: TrimSpace_graphic)

lemma fire_one_claimed:
  assumes "mget (BackupFireLedger s) ''daily@100'' = None"
  shows "ClaimFire hash_env fire_one (100 * nanos) s = Inr (fired, True, put_fire ''daily@100'' fired (ensure s))"
  using assms
  by (simp add: ClaimFire_def fire_one_def hash_env_def fired_def Let_def requireOperationID_def fire_trims
      validMetadataString_def maxFireKeyLen_def maxMetadataIDLen_def lease_bad_def Unix_def runIDForFire_def)

theorem fire_claim_exclusive_witness:
  "\<exists>s1. ClaimFire hash_env fire_one (100 * nanos) zero_state = Inr (fired, True, s1)
     \<and> ClaimFire hash_env (fire_one\<lparr>fcb_OperationID := ''p1'', fcb_LeaseUntilUnix := 170, fcb_LeaderTerm := 9\<rparr>) (159 * nanos) s1
         = Inr (fired, False, s1)"
proof -
  let ?b' = "fire_one\<lparr>fcb_OperationID := ''p1'', fcb_LeaseUntilUnix := 170, fcb_LeaderTerm := 9\<rparr>"
  define s1 where "s1 = put_fire ''daily@100'' fired (ensure zero_state)"
  have one: "ClaimFire hash_env fire_one (100 * nanos) zero_state = Inr (fired, True, s1)"
    unfolding s1_def by (rule fire_one_claimed) (simp add: zero_state_def)
  have "\<exists>x. ClaimFire hash_env ?b' (159 * nanos) s1 = Inr x"
    by (simp add: ClaimFire_def fire_one_def fired_def Let_def requireOperationID_def fire_trims s1_def put_fire_def durableFireRecord_def
      validMetadataString_def maxFireKeyLen_def maxMetadataIDLen_def lease_bad_def Unix_def) (rule exI [of _ False], simp)
  then obtain r' a' s2 where two: "ClaimFire hash_env ?b' (159 * nanos) s1 = Inr (r', a', s2)" by auto
  from fire_claim_exclusive [OF one _ _ two] have "r' = fired \<and> \<not> a' \<and> s2 = s1"
    by (simp add: fire_one_def fired_def Unix_def)
  with one two show ?thesis by simp
qed

text \<open>
  A fire is taken over only when it may be. If a claim acquires a fire that is already in the
  ledger, the old lease had run out and the old record was not durable, the new leader's term
  is strictly higher, the new lease lies in the future, and the policy, the scheduled time and the
  run identifier are those of the first claim, so the new leader resumes the same run.
\<close>

theorem fire_takeover_resumes:
  assumes "ClaimFire e b now s = Inr (r, True, s')" and "mget (BackupFireLedger s) (fcb_FireKey b) = Some c"
  shows "\<not> durableFireRecord c \<and> f_LeaseUntilUnix c \<le> Unix now \<and> f_LeaderTerm c < f_LeaderTerm r
    \<and> Unix now < f_LeaseUntilUnix r \<and> f_PolicyID r = f_PolicyID c \<and> f_ScheduledUnix r = f_ScheduledUnix c
    \<and> f_RunID r = f_RunID c \<and> mget (BackupFireLedger s') (fcb_FireKey b) = Some r"
proof -
  from claim_fire_known_cases [OF assms] have "\<not> durableFireRecord c" "r = taken_over b now c" by (auto split: if_splits)
  with claim_fire_run_id [OF assms] claim_fire_result(2) [OF assms(1)] show ?thesis by (simp add: taken_over_def)
qed


theorem fire_takeover_witness:
  "\<exists>r s1. ClaimFire hash_env (fire_one\<lparr>fcb_LeaderTerm := 9, fcb_LeaseUntilUnix := 300\<rparr>) (200 * nanos)
        (put_fire ''daily@100'' fired zero_state) = Inr (r, True, s1) \<and> f_RunID r = ''run-daily@100''"
proof -
  let ?b = "fire_one\<lparr>fcb_LeaderTerm := 9, fcb_LeaseUntilUnix := 300\<rparr>"
  let ?s = "put_fire ''daily@100'' fired zero_state"
  have "\<exists>r s1. ClaimFire hash_env ?b (200 * nanos) ?s = Inr (r, True, s1)"
    by (simp add: ClaimFire_def fire_one_def fired_def Let_def requireOperationID_def fire_trims put_fire_def
      validMetadataString_def maxFireKeyLen_def maxMetadataIDLen_def lease_bad_def Unix_def durableFireRecord_def)
  then obtain r s1 where c: "ClaimFire hash_env ?b (200 * nanos) ?s = Inr (r, True, s1)" by auto
  have m: "mget (BackupFireLedger ?s) (fcb_FireKey ?b) = Some fired" by (simp add: put_fire_def fire_one_def)
  from fire_takeover_resumes [OF c m] c show ?thesis by (auto simp: fired_def)
qed

section \<open>Properties of runs\<close>


lemma judged_unique:
  assumes h1: "has_all_tasks tasks run i False" and h2: "has_all_tasks tasks' run i False"
    and "set (run_tasks tasks i) = set (run_tasks tasks' i)"
    and "\<forall>t\<in>set (run_tasks tasks i). \<forall>u\<in>set (run_tasks tasks i).
        t_NodeID t = t_NodeID u \<longrightarrow> t_UpdatedUnix t = t_UpdatedUnix u \<longrightarrow> t = u"
  shows "judged tasks run i False = judged tasks' run i False"
proof (rule nth_equalityI)
  show "length (judged tasks run i False) = length (judged tasks' run i False)" by (simp add: judged_def)
  fix k assume k: "k < length (judged tasks run i False)"
  let ?t = "judged tasks run i False ! k" and ?u = "judged tasks' run i False ! k"
  have k': "k < length (judged tasks' run i False)" using k by (simp add: judged_def)
  have "t_NodeID ?t = t_NodeID ?u"
    using judged_nodes [OF h1] judged_nodes [OF h2] k k' by (metis nth_map)
  moreover have "newest_in (run_tasks tasks i) ?t" "newest_in (run_tasks tasks' i) ?u"
    using judged_newest [OF h1 nth_mem [OF k]] judged_newest [OF h2 nth_mem [OF k']] by simp_all
  ultimately show "?t = ?u" using assms(3,4) unfolding newest_in_def by (metis order_antisym)
qed

text \<open>
  The result of a run does not depend on the order in which a Go map is ranged over, as long as
  no two tasks of the run that name the same node carry the same update time: two orders of the
  same tasks close the run in the same way.
\<close>

theorem run_outcome_order_free:
  assumes "mset tasks = mset tasks'"
    and "rep \<or> (\<forall>t\<in>set (run_tasks tasks i). \<forall>u\<in>set (run_tasks tasks i).
        t_NodeID t = t_NodeID u \<longrightarrow> t_UpdatedUnix t = t_UpdatedUnix u \<longrightarrow> t = u)"
  shows "aggregateTerminalRun runs tasks i rep = aggregateTerminalRun runs tasks' i rep"
proof -
  have ms: "mset (run_tasks tasks i) = mset (run_tasks tasks' i)"
    unfolding run_tasks_def using assms(1) by (metis mset_filter mset_map)
  then have st: "set (run_tasks tasks i) = set (run_tasks tasks' i)" by (metis set_mset_mset)
  have le: "length (run_tasks tasks i) = length (run_tasks tasks' i)" using ms by (metis size_mset)
  show ?thesis
  proof (cases "\<exists>run. mget runs i = Some run \<and> \<not> terminalRunStatus (run_Status run)")
    case False
    then show ?thesis by (auto simp: aggregateTerminalRun_def split: option.split)
  next
    case True
    then obtain run where run: "mget runs i = Some run" "\<not> terminalRunStatus (run_Status run)" by blast
    have has: "has_all_tasks tasks run i rep = has_all_tasks tasks' run i rep"
      using st by (cases rep) (auto simp: has_all_tasks_def)
    have jd: "mset (judged tasks run i rep) = mset (judged tasks' run i rep)" if h: "has_all_tasks tasks run i rep"
    proof (cases rep)
      case True
      with ms show ?thesis by (simp add: judged_def)
    next
      case False
      with judged_unique [of tasks run i tasks'] h has st assms(2) show ?thesis by simp
    qed
    have "set (judged tasks run i rep) = set (judged tasks' run i rep)"
      "tallied (judged tasks run i rep) = tallied (judged tasks' run i rep)"
      "length (judged tasks run i rep) = length (judged tasks' run i rep)" if "has_all_tasks tasks run i rep"
      using jd [OF that] tallied_perm by (metis set_mset_mset, blast, metis size_mset)
    then show ?thesis unfolding aggregate_result [OF run] using has by (simp add: list_all_iff)
  qed
qed

text \<open>
  Pruning is exact and leaves no orphans. From a well-formed state, run_metadata_prune removes
  precisely the terminal runs that finished before the cut, together with precisely their tasks and
  terms, for backup and replication alike; the fires it removes are those whose lease ended by the
  cut or whose run is over and was scheduled before it. Every task that stays belongs to a run that
  stays.
\<close>

theorem prune_is_exact:
  assumes "runs_ok s" and "applyPruneRunMetadata b s = Inr s'" and "u = prb_BeforeUnix b" and "wfmap (BackupFireLedger s)"
  shows "runs_ok s'
    \<and> (\<forall>rep k. mget (runs_of s' rep) k = (case mget (runs_of s rep) k of
          Some r \<Rightarrow> if terminalRunStatus (run_Status r) \<and> run_FinishedUnix r < u then None else Some r | None \<Rightarrow> None))
    \<and> (\<forall>rep k t. mget (tasks_of s' rep) k = Some t \<longleftrightarrow> mget (tasks_of s rep) k = Some t \<and> mhas (runs_of s' rep) (t_RunID t))
    \<and> (\<forall>rep k. mhas (runTerms s' rep) k \<longleftrightarrow> mhas (runs_of s' rep) k)
    \<and> (\<forall>k. mget (BackupFireLedger s') k = (case mget (BackupFireLedger s) k of
          Some f \<Rightarrow> if prunable_fire u f then None else Some f | None \<Rightarrow> None))"
proof -
  from assms(2,3) have s': "s' = PruneRunMetadata u s" by (simp add: applyPruneRunMetadata_def)
  have ok: "runs_ok s'" unfolding s' by (rule prune_ok [OF assms(1)])
  have wf: "wfmap (runs_of s r)" "wfmap (tasks_of s r)" for r
    using kind_of [OF assms(1), of r] by (simp_all add: kind_ok_def)
  have runs: "mget (runs_of s' rep) k = (case mget (runs_of s rep) k of
          Some r \<Rightarrow> if terminalRunStatus (run_Status r) \<and> run_FinishedUnix r < u then None else Some r | None \<Rightarrow> None)" for rep k
    unfolding s' prune_maps [OF assms(1)] mget_mfilter [OF wf(1)]
    by (simp add: old_run_def prunable_run_def split: option.split)
  have keep: "mhas (runs_of s' rep) k \<longleftrightarrow> mhas (runs_of s rep) k \<and> \<not> old_run u (runs_of s rep) k" for rep k
    using runs [of rep k] by (auto simp: mhas_def old_run_def prunable_run_def split: option.splits if_splits)
  have tasks: "mget (tasks_of s' rep) k = Some t \<longleftrightarrow> mget (tasks_of s rep) k = Some t \<and> mhas (runs_of s' rep) (t_RunID t)"
    for rep k t
  proof -
    have "mhas (runs_of s rep) (t_RunID t)" if "mget (tasks_of s rep) k = Some t"
      using kind_of [OF assms(1), of rep] mallD that by (fastforce simp: kind_ok_def task_ok_def)
    then show ?thesis
      unfolding keep unfolding s' prune_maps [OF assms(1)] mget_mfilter [OF wf(2)]
      by (auto split: option.split)
  qed
  have "BackupFireLedger (prune_kind u r x) = BackupFireLedger x" for r x
    by (simp add: prune_kind_def set_terms_def set_tasks_def set_runs_def split: prod.split)
  then have "BackupFireLedger s' = mfilter (\<lambda>_ f. \<not> prunable_fire u f) (BackupFireLedger s)"
    by (simp add: s' PruneRunMetadata_def Let_def)
  then have fires: "mget (BackupFireLedger s') k = (case mget (BackupFireLedger s) k of
          Some f \<Rightarrow> if prunable_fire u f then None else Some f | None \<Rightarrow> None)" for k
    by (simp add: mget_mfilter [OF assms(4)] split: option.split)
  have "mhas (runTerms s' rep) k \<longleftrightarrow> mhas (runs_of s' rep) k" for rep k
    using kind_of [OF ok, of rep] by (simp add: kind_ok_def)
  with ok runs tasks fires show ?thesis by blast
qed

definition backup_run :: ClusterBackupRun where
  "backup_run = zero_run\<lparr>run_RunID := ''r1'', run_PolicyID := ''p1'', run_Status := S_RUNNING,
     run_TargetNodeIDs := Slice [''n1'', ''n2'']\<rparr>"

definition node_task :: "string \<Rightarrow> string \<Rightarrow> Status \<Rightarrow> int \<Rightarrow> ClusterBackupTask" where
  "node_task i n st u = \<lparr>t_RunID = ''r1'', t_TaskID = i, t_NodeID = n, t_SourceNodeID = [], t_SnapshotID = [],
     t_SHA256 = [], t_Status = st, t_Bytes = 0, t_ErrorCode = [], t_ErrorSummary = [], t_LeaderTerm = 1, t_UpdatedUnix = u\<rparr>"

definition two_tasks :: "(string, ClusterBackupTask) gomap" where
  "two_tasks = [(''r1:a'', node_task ''a'' ''n1'' S_SUCCEEDED 5), (''r1:b'', node_task ''b'' ''n2'' S_TIMEOUT 7)]"


theorem run_outcome_order_witness:
  "mset (rev two_tasks) = mset two_tasks
   \<and> aggregateTerminalRun [(''r1'', backup_run)] (rev two_tasks) ''r1'' False
     = aggregateTerminalRun [(''r1'', backup_run)] two_tasks ''r1'' False"
proof -
  have m: "mset (rev two_tasks) = mset two_tasks" by simp
  have "False \<or> (\<forall>t\<in>set (run_tasks (rev two_tasks) ''r1''). \<forall>u\<in>set (run_tasks (rev two_tasks) ''r1'').
        t_NodeID t = t_NodeID u \<longrightarrow> t_UpdatedUnix t = t_UpdatedUnix u \<longrightarrow> t = u)"
    by (simp add: two_tasks_def node_task_def run_tasks_def)
  from run_outcome_order_free [OF m this, of "[(''r1'', backup_run)]"] m show ?thesis by simp
qed

text \<open>
  Why C16 excludes ties: with two tasks of one node that carry the same update time, the result of
  the run depends on which of them the range over the task map yields last.
\<close>

definition tied_tasks :: "(string, ClusterBackupTask) gomap" where
  "tied_tasks = [(''r1:a'', node_task ''a'' ''n1'' S_SUCCEEDED 5), (''r1:b'', node_task ''b'' ''n1'' S_FAILED 5)]"

lemma tie_depends_on_order:
  "mset (rev tied_tasks) = mset tied_tasks
   \<and> aggregateTerminalRun [(''r1'', backup_run\<lparr>run_TargetNodeIDs := Slice [''n1'']\<rparr>)] (rev tied_tasks) ''r1'' False
     \<noteq> aggregateTerminalRun [(''r1'', backup_run\<lparr>run_TargetNodeIDs := Slice [''n1'']\<rparr>)] tied_tasks ''r1'' False"
  by (simp add: tied_tasks_def aggregateTerminalRun_def backup_run_def node_task_def run_tasks_def tasks_by_node_def
      newer_task_def Let_def status_defs close_run_def tally_task_def tally_status_def zero_tally_def zero_run_def)

definition closed_state :: State where
  "closed_state = zero_state\<lparr>
     BackupRuns := [(''r1'', backup_run\<lparr>run_Status := S_FAILED, run_FinishedUnix := 9\<rparr>)],
     BackupTasks := two_tasks, BackupRunTerms := [(''r1'', 1)]\<rparr>"

lemma closed_state_ok: "runs_ok closed_state"
  unfolding runs_ok_def
proof
  fix rep
  show "kind_ok (runs_of closed_state rep) (tasks_of closed_state rep) (runTerms closed_state rep)"
    by (cases rep) (simp_all add: closed_state_def zero_state_def runs_of_def tasks_of_def runTerms_def kind_ok_def
        two_tasks_def node_task_def wfmap_def mall_def run_ok_def task_ok_def taskMapKey_def backup_run_def zero_run_def
        status_defs mhas_def)
qed

theorem prune_is_exact_witness:
  "\<exists>s'. applyPruneRunMetadata \<lparr>prb_OperationID = ''op1'', prb_BeforeUnix = 10\<rparr> closed_state = Inr s'
     \<and> mget (runs_of s' False) ''r1'' = None \<and> mget (tasks_of s' False) ''r1:a'' = None"
proof -
  let ?b = "\<lparr>prb_OperationID = ''op1'', prb_BeforeUnix = 10\<rparr>"
  obtain s' where s': "applyPruneRunMetadata ?b closed_state = Inr s'"
    by (simp add: applyPruneRunMetadata_def requireOperationID_def fire_trims)
  have w: "wfmap (BackupFireLedger closed_state)" by (simp add: closed_state_def zero_state_def)
  have old: "mget (runs_of closed_state False) ''r1'' = Some (backup_run\<lparr>run_Status := S_FAILED, run_FinishedUnix := 9\<rparr>)"
    by (simp add: closed_state_def runs_of_def)
  have t: "mget (tasks_of closed_state False) ''r1:a'' = Some (node_task ''a'' ''n1'' S_SUCCEEDED 5)"
    by (simp add: closed_state_def tasks_of_def two_tasks_def)
  note p = prune_is_exact [OF closed_state_ok s' refl w]
  from p old have none: "mget (runs_of s' False) ''r1'' = None" by (simp add: backup_run_def status_defs)
  moreover from p t none have "mget (tasks_of s' False) ''r1:a'' \<noteq> Some t" for t
    by (auto simp: node_task_def mhas_def)
  ultimately show ?thesis using s' by (metis not_Some_eq)
qed

lemma check_run_policy_frame:
  assumes "ReplicationPolicies s' = ReplicationPolicies s" "BackupPolicies s' = BackupPolicies s"
    "Members s' = Members s" "AgentGroups s' = AgentGroups s"
  shows "check_run_policy s' b = check_run_policy s b"
proof -
  have "isAdmittedMember s' = isAdmittedMember s" "admitted_ids s' = admitted_ids s" "group_members s' = group_members s"
    using assms by (simp_all add: isAdmittedMember_def admitted_ids_def group_members_def fun_eq_iff)
  then have "admitted_in_groups s' = admitted_in_groups s" unfolding admitted_in_groups_def by simp
  with assms \<open>admitted_ids s' = admitted_ids s\<close> have "validateRunTargets s' = validateRunTargets s"
    by (intro ext) (simp only: validateRunTargets_def)
  with assms show ?thesis by (simp only: check_run_policy_def)
qed

lemma frame_writes [simp]:
  "ReplicationPolicies (put_run r i x s) = ReplicationPolicies s" "BackupPolicies (put_run r i x s) = BackupPolicies s"
  "Members (put_run r i x s) = Members s" "AgentGroups (put_run r i x s) = AgentGroups s"
  "ReplicationPolicies (put_term r i t s) = ReplicationPolicies s" "BackupPolicies (put_term r i t s) = BackupPolicies s"
  "Members (put_term r i t s) = Members s" "AgentGroups (put_term r i t s) = AgentGroups s"
  "ReplicationPolicies (set_tasks r m s) = ReplicationPolicies s" "BackupPolicies (set_tasks r m s) = BackupPolicies s"
  "Members (set_tasks r m s) = Members s" "AgentGroups (set_tasks r m s) = AgentGroups s"
  by (simp_all add: put_run_def put_term_def set_runs_def set_terms_def set_tasks_def)

lemma count_mput:
  assumes "\<And>w. mget m k = Some w \<Longrightarrow> \<not> P w" and "P v"
  shows "length (filter P (mvals (mput k v m))) = Suc (length (filter P (mvals m)))"
  using assms(1)
proof (induction m)
  case (Cons e m)
  then show ?case using assms(2) by (cases e) (auto split: if_splits)
qed (simp add: assms(2))

lemma store_tasks_count:
  assumes "\<And>t. t \<in> set ts \<Longrightarrow> P t \<and> P (t\<lparr>t_LeaderTerm := l\<rparr>)" and "distinct (map taskMapKey ts)"
    and "\<And>t w. t \<in> set ts \<Longrightarrow> mget m (taskMapKey t) = Some w \<Longrightarrow> \<not> P w"
  shows "length (filter P (mvals (store_tasks l ts m))) = length ts + length (filter P (mvals m))
    \<and> (\<forall>t\<in>set ts. mget (store_tasks l ts m) (taskMapKey t) = Some (t\<lparr>t_LeaderTerm := l\<rparr>))"
  using assms unfolding store_tasks_def
proof (induction ts arbitrary: m)
  case (Cons t ts)
  let ?m = "mput (taskMapKey t) (t\<lparr>t_LeaderTerm := l\<rparr>) m"
  let ?f = "fold (\<lambda>task. mput (taskMapKey task) (task\<lparr>t_LeaderTerm := l\<rparr>))"
  have nP: "\<not> P w" if "mget m (taskMapKey t) = Some w" for w using Cons.prems(3) [of t w] that by simp
  have "P (t\<lparr>t_LeaderTerm := l\<rparr>)" using Cons.prems(1) by simp
  note c = count_mput [of m _ P, OF nP this]
  have ih: "length (filter P (mvals (?f ts ?m))) = length ts + length (filter P (mvals ?m))
    \<and> (\<forall>u\<in>set ts. mget (?f ts ?m) (taskMapKey u) = Some (u\<lparr>t_LeaderTerm := l\<rparr>))"
  proof (rule Cons.IH)
    fix u w assume "u \<in> set ts" and h: "mget ?m (taskMapKey u) = Some w"
    moreover from Cons.prems(2) \<open>u \<in> set ts\<close> have "taskMapKey u \<noteq> taskMapKey t" by (metis distinct.simps(2) image_eqI list.map(2) list.set_map)
    ultimately show "\<not> P w" using Cons.prems(3) [of u w] by simp
  qed (use Cons.prems in auto)
  have "mget (?f us m') k = mget m' k" if "k \<notin> taskMapKey ` set us" for us m' k
    using that by (induction us arbitrary: m') auto
  moreover have "taskMapKey t \<notin> taskMapKey ` set ts" using Cons.prems(2) by simp
  ultimately have "mget (?f ts ?m) (taskMapKey t) = Some (t\<lparr>t_LeaderTerm := l\<rparr>)" by simp
  with ih c show ?case by simp
qed simp

lemma initial_task_ids:
  assumes "check_initial_tasks run expected ids routes ts = None"
  shows "distinct (map t_TaskID ts) \<and> set (map t_TaskID ts) \<inter> set ids = {}"
  using assms
proof (induction run expected ids routes ts rule: check_initial_tasks.induct)
  case (2 run expected ids routes task ts)
  then show ?case by (auto simp: Let_def split: option.splits if_splits)
qed simp

lemma initial_task_keys:
  assumes "check_run_policy s b = None"
  shows "distinct (map taskMapKey (crb_Tasks b))"
proof -
  have "distinct (map t_TaskID (crb_Tasks b))"
    using assms initial_task_ids
    by (fastforce simp: check_run_policy_def Let_def validateInitialReplicationTasks_def split: if_splits option.splits)
  moreover have "map t_TaskID (crb_Tasks b) = map (drop (Suc (length (run_RunID (crb_Run b))))) (map taskMapKey (crb_Tasks b))"
    using initial_tasks_ok [OF assms] by (simp add: taskMapKey_def)
  ultimately show ?thesis by (metis distinct_map)
qed

lemma no_task_of_new_run:
  assumes "runs_ok s" and "mget (runs_of s rep) i = None" and "w \<in> set (mvals (tasks_of s rep))"
  shows "t_RunID w \<noteq> i"
proof -
  have k: "wfmap (tasks_of s rep)" "mall (task_ok (runs_of s rep)) (tasks_of s rep)"
    using kind_of [OF assms(1), of rep] by (simp_all add: kind_ok_def)
  with assms(3) obtain k where "mget (tasks_of s rep) k = Some w" by (metis in_mvals_iff)
  from mallD [OF k(2) this] have "mhas (runs_of s rep) (t_RunID w)" by (simp add: task_ok_def)
  with assms(2) show ?thesis by (auto simp: mhas_def)
qed

lemma stored_tasks_same:
  assumes "check_run_policy s b = None"
    and "\<And>w. w \<in> set (mvals m) \<Longrightarrow> t_RunID w \<noteq> run_RunID (crb_Run b)"
  shows "sameInitialRouteTasks (store_tasks (crb_LeaderTerm b) (crb_Tasks b) m) (run_RunID (crb_Run b)) (crb_Tasks b)"
proof -
  let ?i = "run_RunID (crb_Run b)" and ?m = "store_tasks (crb_LeaderTerm b) (crb_Tasks b) m"
  have "length (filter (\<lambda>t. t_RunID t = ?i) (mvals ?m)) = length (crb_Tasks b) + length (filter (\<lambda>t. t_RunID t = ?i) (mvals m))
      \<and> (\<forall>t\<in>set (crb_Tasks b). mget ?m (taskMapKey t) = Some (t\<lparr>t_LeaderTerm := crb_LeaderTerm b\<rparr>))"
  proof (rule store_tasks_count)
    fix t w assume "mget m (taskMapKey t) = Some w"
    then have "w \<in> set (mvals m)" by (force dest: map_of_SomeD)
    then show "\<not> t_RunID w = ?i" by (rule assms(2))
  qed (use initial_tasks_ok [OF assms(1)] initial_task_keys [OF assms(1)] in auto)
  moreover have "filter (\<lambda>t. t_RunID t = ?i) (mvals m) = []" using assms(2) by (simp add: filter_empty_conv)
  ultimately show ?thesis by (simp add: sameInitialRouteTasks_def list_all_iff)
qed

text \<open>
  Creating a run is idempotent. If a backup_run_create succeeds in a well-formed state, sending
  the same request again to the state it left (a retry after a lost reply) succeeds and changes nothing:
  the run, its frozen targets and its initial tasks are stored once. (The targets are the ones of a
  decoded request: an empty list is nil.)
\<close>

theorem create_run_idempotent:
  assumes "applyCreateRun b s = Inr s'" and "runs_ok s"
    and "slice_copy (run_TargetNodeIDs (crb_Run b)) = run_TargetNodeIDs (crb_Run b)"
  shows "applyCreateRun b s' = Inr s'"
proof -
  define rep where "rep = crb_Replication b"
  define i where "i = run_RunID (crb_Run b)"
  have d: "applyCreateRun b s' = (case mget (runs_of s' rep) i of
         Some current \<Rightarrow>
           if (\<not> rep \<and> current = crb_Run b)
              \<or> (rep \<and> sameFrozenRun current (crb_Run b) \<and> sameInitialRouteTasks (tasks_of s' rep) i (crb_Tasks b))
           then Inr s' else fail CONFLICT ''run already exists''
       | None \<Rightarrow> applyCreateRun b s')" if "ensure s' = s'" and "check_run_policy s' b = None"
    using that assms(1) unfolding applyCreateRun_def Let_def rep_def i_def
    by (cases "crb_Replication b") (simp_all split: option.split)
  note res = create_run_result [OF assms(1), folded rep_def i_def]
  show ?thesis
  proof (cases "mget (runs_of s rep) i")
    case (Some cur)
    with res(5) have s': "s' = ensure s" and same: "if rep then sameFrozenRun cur (crb_Run b)
            \<and> sameInitialRouteTasks (tasks_of s True) i (crb_Tasks b) else cur = crb_Run b" by simp_all
    have "ensure s' = s'" "check_run_policy s' b = None" "mget (runs_of s' rep) i = Some cur"
      using Some res(1) by (simp_all add: s')
    with d same show ?thesis by (cases rep) (simp_all add: s')
  next
    case None
    define r where "r = (crb_Run b)\<lparr>run_TargetNodeIDs := slice_copy (run_TargetNodeIDs (crb_Run b))\<rparr>"
    from None res(5) have s': "s' = set_tasks rep (store_tasks (crb_LeaderTerm b) (crb_Tasks b) (tasks_of s rep))
            (put_term rep i (crb_LeaderTerm b) (put_run rep i r (ensure s)))" by (simp add: r_def)
    have en: "ensure s' = s'"
      unfolding ensure_iff s' by (rule ensured_fields [OF ensure_ensured [of s]])
        (simp_all add: put_run_def put_term_def set_runs_def set_terms_def set_tasks_def)
    have pol: "check_run_policy s' b = None"
      using res(1) check_run_policy_frame [of s' s b] by (simp add: s')
    have get: "mget (runs_of s' rep) i = Some r" by (simp add: s')
    have r: "r = crb_Run b" using assms(3) by (simp add: r_def)
    have tasks: "tasks_of s' rep = store_tasks (crb_LeaderTerm b) (crb_Tasks b) (tasks_of s rep)" by (simp add: s')
    have same: "sameInitialRouteTasks (tasks_of s' rep) i (crb_Tasks b)"
      unfolding tasks i_def
      by (rule stored_tasks_same [OF res(1)]) (use no_task_of_new_run [OF assms(2) None] in \<open>simp add: i_def\<close>)
    have "sameFrozenRun r (crb_Run b)" by (simp add: r_def sameFrozenRun_def)
    with d [OF en pol] get r same show ?thesis by (cases rep) simp_all
  qed
qed

definition nightly :: BackupPolicy where
  "nightly = \<lparr>bp_PolicyID = ''p1'', bp_Name = ''nightly'', bp_Enabled = True, bp_ScheduleCron = [], bp_Timezone = [],
     bp_TargetSelector = EXPLICIT_NODES, bp_TargetIDs = [''n1'', ''n2''], bp_Sink = [], bp_DestinationProfile = [],
     bp_RetentionKeepLast = 0, bp_RetentionKeepDays = 0, bp_RetentionMaxBytes = 0, bp_TimeoutSeconds = 0,
     bp_MaxConcurrency = 0, bp_UnavailablePolicy = [], bp_Revision = 0\<rparr>"

definition create_nightly :: CreateRunBody where
  "create_nightly = \<lparr>crb_OperationID = ''op1'', crb_Run = backup_run, crb_Tasks = [], crb_LeaderTerm = 2,
     crb_Replication = False\<rparr>"

lemma id_trims: "TrimSpace ''r1'' = ''r1''" "TrimSpace ''n1'' = ''n1''" "TrimSpace ''n2'' = ''n2''"
  "TrimSpace ''a'' = ''a''" "TrimSpace ''b'' = ''b''"
  by (simp_all add: TrimSpace_graphic)

lemma runs_ok_zero: "runs_ok (zero_state\<lparr>BackupPolicies := m\<rparr>)"
  by (simp add: runs_ok_def zero_state_def runs_of_def tasks_of_def runTerms_def kind_ok_def mhas_def)

theorem create_run_idempotent_witness:
  "\<exists>s'. applyCreateRun create_nightly (zero_state\<lparr>BackupPolicies := [(''p1'', nightly)]\<rparr>) = Inr s'
     \<and> applyCreateRun create_nightly s' = Inr s' \<and> s' \<noteq> ensure (zero_state\<lparr>BackupPolicies := [(''p1'', nightly)]\<rparr>)"
proof -
  let ?s = "zero_state\<lparr>BackupPolicies := [(''p1'', nightly)]\<rparr>"
  obtain s' where s': "applyCreateRun create_nightly ?s = Inr s'"
    by (simp add: applyCreateRun_def create_nightly_def backup_run_def nightly_def Let_def requireOperationID_def
        fire_trims id_trims validMetadataString_def maxMetadataIDLen_def validateTargetNodeIDs_def maxTargetNodeIDs_def
        check_run_policy_def validateRunTargets_def status_defs zero_run_def zero_state_def runs_of_def)
  have t: "slice_copy (run_TargetNodeIDs (crb_Run create_nightly)) = run_TargetNodeIDs (crb_Run create_nightly)"
    by (simp add: create_nightly_def backup_run_def slice_copy_def)
  have "mget (runs_of s' False) ''r1'' \<noteq> None"
    using create_run_result(5) [OF s'] by (auto simp: create_nightly_def backup_run_def zero_state_def runs_of_def set_tasks_def
        put_term_def put_run_def set_runs_def set_terms_def)
  then have "s' \<noteq> ensure ?s" by (auto simp: runs_of_def zero_state_def)
  with create_run_idempotent [OF s' runs_ok_zero t] s' show ?thesis by blast
qed

lemma retry_not_retryable:
  "t_RunID (retry_task b t) = rtb_RunID b \<Longrightarrow> \<not> retryableTaskStatus (t_Status (retry_task b t))"
  by (simp add: retry_task_def split: if_splits) (simp add: status_defs)

text \<open>
  Retrying a run reopens exactly its failed part. After an accepted retry no task of the run is
  retryable any more: the failed ones are PENDING under the retrying leader's term; every other task,
  succeeded ones and those of other runs included, is untouched. The run itself is RUNNING with its
  counters cleared if a task was reopened, and untouched otherwise.
\<close>

theorem retry_reopens_failed:
  assumes "applyRetryFailedTasks b s = Inr s'" and "rep = rtb_Replication b" and "i = rtb_RunID b"
  shows "(\<forall>k. mget (tasks_of s' rep) k = (case mget (tasks_of s rep) k of None \<Rightarrow> None
        | Some t \<Rightarrow> Some (if t_RunID t = i \<and> retryableTaskStatus (t_Status t) then retry_task b t else t)))
    \<and> (\<forall>k t. mget (tasks_of s' rep) k = Some t \<longrightarrow> t_RunID t = i \<longrightarrow> \<not> retryableTaskStatus (t_Status t))
    \<and> (\<forall>k. k \<noteq> i \<longrightarrow> mget (runs_of s' rep) k = mget (runs_of s rep) k)
    \<and> (if \<exists>t\<in>set (run_tasks (tasks_of s rep) i). retryableTaskStatus (t_Status t)
       then \<exists>r. mget (runs_of s' rep) i = Some r \<and> run_Status r = S_RUNNING \<and> run_Success r = 0 \<and> run_Failed r = 0
              \<and> run_Unavailable r = 0 \<and> run_Timeout r = 0 \<and> run_FinishedUnix r = 0
       else mget (runs_of s' rep) i = mget (runs_of s rep) i)"
  using assms(1)
proof (rule retry_cases)
  fix run
  assume run: "mget (runs_of s (rtb_Replication b)) (rtb_RunID b) = Some run"
    and ts: "\<And>r. tasks_of s' r = (if r = rtb_Replication b then mmap (\<lambda>_. retry_task b) (tasks_of s r) else tasks_of s r)"
    and rs: "\<And>r. runs_of s' r = (if r = rtb_Replication b \<and> has_retryable b s
           then mput (rtb_RunID b) (reopened b run) (runs_of s r) else runs_of s r)"
  have t: "tasks_of s' rep = mmap (\<lambda>_. retry_task b) (tasks_of s rep)" by (simp add: ts assms(2))
  have hr: "has_retryable b s \<longleftrightarrow> (\<exists>t\<in>set (run_tasks (tasks_of s rep) i). retryableTaskStatus (t_Status t))"
    by (auto simp: has_retryable_def mex_set run_tasks_def assms(2,3)) force
  have 1: "mget (tasks_of s' rep) k = (case mget (tasks_of s rep) k of None \<Rightarrow> None
        | Some t \<Rightarrow> Some (if t_RunID t = i \<and> retryableTaskStatus (t_Status t) then retry_task b t else t))" for k
    by (simp add: t retry_task_def assms(3) split: option.split)
  have 2: "\<not> retryableTaskStatus (t_Status t)" if "mget (tasks_of s' rep) k = Some t" "t_RunID t = i" for k t
    using that retry_not_retryable [of b] by (auto simp: t assms(3))
  have 3: "runs_of s' rep = (if has_retryable b s then mput i (reopened b run) (runs_of s rep) else runs_of s rep)"
    by (simp add: rs assms(2,3))
  show ?thesis
    by (intro conjI allI impI) (use 1 2 in \<open>auto simp: 3 hr reopened_def\<close>)
qed

theorem retry_reopens_witness:
  "\<exists>s'. applyRetryFailedTasks \<lparr>rtb_OperationID = ''op1'', rtb_RunID = ''r1'', rtb_LeaderTerm = 4, rtb_UpdatedUnix = 20,
       rtb_LeaseUntilUnix = 50, rtb_Replication = False\<rparr> closed_state = Inr s'
     \<and> mget (tasks_of s' False) ''r1:a'' = Some (node_task ''a'' ''n1'' S_SUCCEEDED 5)
     \<and> (\<exists>r. mget (runs_of s' False) ''r1'' = Some r \<and> run_Status r = S_RUNNING)"
proof -
  let ?b = "\<lparr>rtb_OperationID = ''op1'', rtb_RunID = ''r1'', rtb_LeaderTerm = 4, rtb_UpdatedUnix = 20,
       rtb_LeaseUntilUnix = 50, rtb_Replication = False\<rparr>"
  have "\<exists>s'. applyRetryFailedTasks ?b closed_state = Inr s'"
    by (simp add: applyRetryFailedTasks_def Let_def requireOperationID_def fire_trims id_trims validMetadataString_def
        maxMetadataIDLen_def closed_state_def runs_of_def runTerms_def term_of_def mget_or_def day_after_def wrap64_def)
  then obtain s' where s': "applyRetryFailedTasks ?b closed_state = Inr s'" by blast
  have a: "mget (tasks_of closed_state False) ''r1:a'' = Some (node_task ''a'' ''n1'' S_SUCCEEDED 5)"
    "node_task ''b'' ''n2'' S_TIMEOUT 7 \<in> set (run_tasks (tasks_of closed_state False) ''r1'')"
    by (simp_all add: closed_state_def tasks_of_def two_tasks_def run_tasks_def node_task_def)
  from retry_reopens_failed [OF s' refl refl] a s'
  show ?thesis by (auto simp: node_task_def status_defs split: if_splits)
qed

end
