(* ===== verification/Control_Run_Log.thy ===== *)
theory Control_Run_Log imports Control_Log Control_Run_Results
begin

text \<open>
  Runs over whole logs: the invariant of the run maps in every reachable state, leader terms as fences,
  and the outcome of a run as the last word on it.
\<close>

definition same_runs :: "State \<Rightarrow> State \<Rightarrow> bool" where
  "same_runs s s' \<longleftrightarrow> BackupFireLedger s' = BackupFireLedger s
     \<and> (\<forall>r. runs_of s' r = runs_of s r \<and> tasks_of s' r = tasks_of s r \<and> runTerms s' r = runTerms s r)"

lemma same_runsI:
  assumes "BackupFireLedger s' = BackupFireLedger s" "BackupRuns s' = BackupRuns s" "BackupTasks s' = BackupTasks s"
    "ReplicationRuns s' = ReplicationRuns s" "ReplicationTasks s' = ReplicationTasks s"
    "BackupRunTerms s' = BackupRunTerms s" "ReplicationRunTerms s' = ReplicationRunTerms s"
  shows "same_runs s s'"
  using assms by (simp add: same_runs_def runs_of_def tasks_of_def runTerms_def)

text \<open>Either the entry left the runs as they are, or it is a run command that succeeded.\<close>

lemma runs_step:
  assumes "ensured s"
  shows "same_runs s (fst (FSM_Apply l s))
    \<or> (\<exists>c. le_Data l = Some (RunCmd c) \<and> apply_run (le_env l) (entry_time l) c s = Inr (fst (FSM_Apply l s)))"
  using FSM_Apply_step [OF assms, of l]
proof (elim disjE exE conjE)
  assume "fst (FSM_Apply l s) = s"
  then show ?thesis by (simp add: same_runs_def)
next
  fix c
  define s' where "s' = fst (FSM_Apply l s)"
  assume c: "le_Data l = Some c" and "dispatch (le_env l) (entry_time l) c s = Inr (fst (FSM_Apply l s))"
  then have d: "dispatch (le_env l) (entry_time l) c s = Inr s'" by (simp add: s'_def)
  show ?thesis
  proof (cases c)
    case (RunCmd x)
    with c d show ?thesis by (simp add: s'_def)
  qed (use d in \<open>fold s'_def, auto dest!: user_footprint rbac_footprint admission_footprint group_footprint
        policy_footprint intro!: same_runsI\<close>)
qed

lemma same_runs_ok: "same_runs s s' \<Longrightarrow> runs_ok s \<Longrightarrow> runs_ok s'"
  by (rule runs_ok_same) (simp_all add: same_runs_def)

lemma runs_ok_FSM:
  assumes "ensured s" and "runs_ok s"
  shows "runs_ok (fst (FSM_Apply l s))"
  using runs_step [OF assms(1), of l] same_runs_ok [OF _ assms(2)] run_ok_step [OF _ assms(2)] by blast

lemma NewFSM_runs_ok: "runs_ok NewFSM"
  by (simp add: runs_ok_def NewFSM_def NewState_def zero_state_def runs_of_def tasks_of_def runTerms_def kind_ok_def mhas_def)

interpretation control_runs: machine_invariant "\<lambda>l s. fst (FSM_Apply l s)" Restore runs_ok
  by unfold_locales (simp add: Restore_def ensure_iff runs_ok_FSM)

text \<open>
  C31: The run maps are consistent in every state a replica can reach, through any log and across a
  snapshot and restore at any point: every task belongs to a run that exists and is stored under its
  own run and task identifier, every run is stored under its own identifier, a run has a leader term
  exactly as long as it exists, and every status is one the code knows.
\<close>

theorem reachable_runs_well_formed:
  "runs_ok (replay ys (Restore (Snapshot (replay xs NewFSM))))"
  using control_runs.inv_restored [of NewFSM ys xs] NewFSM_runs_ok NewFSM_ensured
  by (simp add: replay_def Snapshot_def Restore_id)

section \<open>Fencing\<close>

definition keeps_terms_entry :: "LogEntry \<Rightarrow> bool" where
  "keeps_terms_entry l \<longleftrightarrow> (case le_Data l of Some (RunCmd c) \<Rightarrow> keeps_terms c | _ \<Rightarrow> True)"

definition fenced :: "bool \<Rightarrow> string \<Rightarrow> u64 \<Rightarrow> State \<Rightarrow> bool" where
  "fenced rep i t s \<longleftrightarrow> runs_ok s \<and> t \<le> term_of s rep i"

lemma fenced_step:
  assumes "ensured s" and "keeps_terms_entry l" and "fenced rep i t s"
  shows "fenced rep i t (fst (FSM_Apply l s))"
  using runs_step [OF assms(1), of l]
proof (elim disjE exE conjE)
  assume "same_runs s (fst (FSM_Apply l s))"
  with assms(3) same_runs_ok show ?thesis by (simp add: fenced_def term_of_def same_runs_def runs_ok_def)
next
  fix c
  assume c: "le_Data l = Some (RunCmd c)" "apply_run (le_env l) (entry_time l) c s = Inr (fst (FSM_Apply l s))"
  from assms(2) c(1) have k: "keeps_terms c" by (simp add: keeps_terms_entry_def)
  from assms(3) have ok: "runs_ok s" and t: "t \<le> term_of s rep i" by (simp_all add: fenced_def)
  from term_leD [OF terms_step [OF c(2) ok k], of rep i] t run_ok_step [OF c(2) ok]
  show ?thesis by (simp add: fenced_def)
qed

interpretation fence: guarded_machine "\<lambda>l s. fst (FSM_Apply l s)" Restore "fenced rep i t" keeps_terms_entry
  for rep i t
  by unfold_locales (simp add: Restore_def ensure_iff fenced_step)


section \<open>The outcome of a run\<close>

definition keeps_outcome_entry :: "bool \<Rightarrow> string \<Rightarrow> LogEntry \<Rightarrow> bool" where
  "keeps_outcome_entry rep i l \<longleftrightarrow> (case le_Data l of Some (RunCmd c) \<Rightarrow> keeps_outcome rep i c | _ \<Rightarrow> True)"

lemma settled_FSM:
  assumes "ensured s" and "keeps_outcome_entry rep i l" and "runs_ok s \<and> settled s rep i v"
  shows "runs_ok (fst (FSM_Apply l s)) \<and> settled (fst (FSM_Apply l s)) rep i v"
  using runs_step [OF assms(1), of l]
proof (elim disjE exE conjE)
  assume "same_runs s (fst (FSM_Apply l s))"
  with assms(3) same_runs_ok show ?thesis by (auto simp: same_runs_def intro: settled_same)
next
  fix c
  assume c: "le_Data l = Some (RunCmd c)" "apply_run (le_env l) (entry_time l) c s = Inr (fst (FSM_Apply l s))"
  from assms(2) c(1) have k: "keeps_outcome rep i c" by (simp add: keeps_outcome_entry_def)
  from settled_step [OF c(2) _ k] run_ok_step [OF c(2)] assms(3) show ?thesis by blast
qed

interpretation outcomes: guarded_machine "\<lambda>l s. fst (FSM_Apply l s)" Restore
    "\<lambda>s. runs_ok s \<and> settled s rep i v" "keeps_outcome_entry rep i" for rep i v
  by unfold_locales (auto simp: Restore_def ensure_iff dest: settled_FSM)

text \<open>
  C4: The outcome of a run is final. Once a run is terminal in a reachable state, no later log
  changes its status, its counters or its finishing time, unless the log retries this very run or prunes: late
  task updates, finishes, claims and repeated creations are without effect on it.
\<close>

theorem outcome_is_final:
  assumes "list_all (keeps_outcome_entry rep i) ys" and "s = replay xs NewFSM"
    and "mget (runs_of s rep) i = Some r" and "terminalRunStatus (run_Status r)"
  shows "\<exists>r'. mget (runs_of (replay ys s) rep) i = Some r' \<and> outcome r' = outcome r"
proof -
  have en: "ensured s" unfolding assms(2) by (rule replay_ensured [OF NewFSM_ensured])
  have "runs_ok s"
    using control_runs.inv_fold [of NewFSM xs] NewFSM_runs_ok NewFSM_ensured
    by (simp add: replay_def Restore_id assms(2))
  with assms(3,4) have "runs_ok s \<and> settled s rep i (outcome r)" by (auto simp: settled_def)
  from outcomes.guarded_fold [OF _ assms(1) this] Restore_id [OF en]
  show ?thesis by (auto simp: replay_def settled_def)
qed

section \<open>A log that runs a backup\<close>

definition weekly_put :: BackupPolicyPutBody where
  "weekly_put = \<lparr>bpp_OperationID = ''op1'', bpp_PolicyID = ''p1'', bpp_Name = ''a'', bpp_Enabled = True,
     bpp_ScheduleCron = [], bpp_Timezone = ''b'', bpp_TargetSelector = ALL_ADMITTED, bpp_TargetIDs = [], bpp_Sink = ''fs'',
     bpp_DestinationProfile = [], bpp_RetentionKeepLast = 0, bpp_RetentionKeepDays = 0, bpp_RetentionMaxBytes = 0,
     bpp_TimeoutSeconds = 0, bpp_MaxConcurrency = 0, bpp_UnavailablePolicy = []\<rparr>"

definition weekly_run :: CreateRunBody where
  "weekly_run = \<lparr>crb_OperationID = ''op1'', crb_Run = zero_run\<lparr>run_RunID := ''r1'', run_PolicyID := ''p1'',
       run_PolicyRevision := 1, run_Status := S_FAILED\<rparr>, crb_Tasks = [], crb_LeaderTerm = 5, crb_Replication = False\<rparr>"

definition weekly_log :: "LogEntry list" where
  "weekly_log = [at_zero (PolicyCmd (CmdBackupPolicyPut weekly_put)), at_zero (RunCmd (CmdBackupRunCreate weekly_run))]"

lemma Fields_Nil: "Fields [] = []"
  by code_simp

lemma weekly_put_result:
  "\<exists>s1 p. applyBackupPolicyPut no_env weekly_put NewFSM = Inr s1 \<and> BackupPolicies s1 = [(''p1'', p)] \<and> bp_Revision p = 1
     \<and> bp_TargetSelector p = ALL_ADMITTED \<and> bp_TargetIDs p = [] \<and> Members s1 = [] \<and> BackupRuns s1 = [] \<and> BackupTasks s1 = []
     \<and> ensured s1"
proof -
  have "\<exists>s1. applyBackupPolicyPut no_env weekly_put NewFSM = Inr s1"
    by (simp add: applyBackupPolicyPut_def weekly_put_def Let_def requireOperationID_def fire_trims id_trims TrimSpace_Nil
        validatePolicySchedule_def ValidateCron_def Fields_Nil ValidateTimezone_def validateTargetIDs_def validPolicySelector_def
        validateExplicitTargets_def validateAgentGroups_def validUnavailablePolicy_def no_env_def mex_def NewFSM_def NewState_def
        zero_state_def)
  then obtain s1 where s1: "applyBackupPolicyPut no_env weekly_put NewFSM = Inr s1" by blast
  then have "\<exists>p. s1 = NewFSM\<lparr>BackupPolicies := [(''p1'', p)]\<rparr> \<and> bp_Revision p = 1 \<and> bp_TargetSelector p = ALL_ADMITTED \<and> bp_TargetIDs p = []"
    by (auto simp: applyBackupPolicyPut_def weekly_put_def Let_def NewFSM_def NewState_def zero_state_def mget_or_def
        zero_backup_policy_def)
  moreover have "ensured s1"
    using calculation NewFSM_ensured by (auto intro: ensured_fields)
  ultimately show ?thesis using s1 by (auto simp: NewFSM_def NewState_def zero_state_def)
qed

lemma weekly_result:
  "term_of (replay weekly_log NewFSM) False ''r1'' = 5
   \<and> (\<exists>r. mget (runs_of (replay weekly_log NewFSM) False) ''r1'' = Some r \<and> run_Status r = S_FAILED \<and> run_Success r = 0)"
proof -
  obtain s1 p where s1: "applyBackupPolicyPut no_env weekly_put NewFSM = Inr s1" "BackupPolicies s1 = [(''p1'', p)]"
    "bp_Revision p = 1" "bp_TargetSelector p = ALL_ADMITTED" "bp_TargetIDs p = []" "Members s1 = []" "BackupRuns s1 = []"
    "BackupTasks s1 = []" "ensured s1" using weekly_put_result by blast
  have "\<exists>s2. applyCreateRun weekly_run s1 = Inr s2"
    using s1 by (simp add: applyCreateRun_def weekly_run_def Let_def requireOperationID_def fire_trims id_trims
        validMetadataString_def maxMetadataIDLen_def validateTargetNodeIDs_def maxTargetNodeIDs_def
        check_run_policy_def validateRunTargets_def status_defs zero_run_def runs_of_def admitted_ids_def)
  then obtain s2 where s2: "applyCreateRun weekly_run s1 = Inr s2" by blast
  have two: "replay weekly_log NewFSM = s2"
    using s1 s2 NewFSM_ensured by (simp add: weekly_log_def replay_def at_zero_def FSM_Apply_def Apply_def ensured_ensure Let_def)
  from create_run_result(5) [OF s2] s1(7)
  show ?thesis unfolding two by (simp add: weekly_run_def runs_of_def runTerms_def term_of_def mget_or_def zero_run_def set_tasks_def
        put_term_def put_run_def set_runs_def set_terms_def)
qed


theorem outcome_is_final_witness:
  "\<exists>r'. mget (runs_of (replay [at_zero (RunCmd (CmdBackupRunFinish \<lparr>frb_OperationID = ''op1'', frb_RunID = ''r1'',
        frb_Status = S_SUCCEEDED, frb_Success = 7, frb_Failed = 0, frb_Unavailable = 0, frb_Timeout = 0, frb_FinishedUnix = 9,
        frb_LeaderTerm = 6, frb_Replication = False\<rparr>))] (replay weekly_log NewFSM)) False) ''r1'' = Some r'
     \<and> run_Success r' = 0"
proof -
  obtain r where r: "mget (runs_of (replay weekly_log NewFSM) False) ''r1'' = Some r" "run_Status r = S_FAILED" "run_Success r = 0"
    using weekly_result by blast
  then have t: "terminalRunStatus (run_Status r)" by (simp add: status_defs)
  have k: "list_all (keeps_outcome_entry False ''r1'') [at_zero (RunCmd (CmdBackupRunFinish b))]" for b
    by (simp add: keeps_outcome_entry_def keeps_outcome_def at_zero_def)
  from outcome_is_final [OF k refl r(1) t] r(3) show ?thesis by (fastforce simp: outcome_def)
qed

end
