(* ===== verification/Process_Types.thy ===== *)
theory Process_Types imports Complex_Main Go_Map
begin

text \<open>
  The data of the process supervisor (\<^verbatim>\<open>internal/process\<close>): specifications, instances, the table of
  observed states, the checks on a specification and the restart policy. Times and durations are
  integers in nanoseconds. A backoff multiplier is a finite \<^verbatim>\<open>float64\<close>, hence a rational; the
  product that computes a delay is a parameter that returns any \<^verbatim>\<open>float64\<close>.
\<close>

section \<open>States\<close>

datatype DesiredState = DesiredRunning | DesiredStopped | DesiredOther string

datatype ObservedState =
    ObservedStopped | ObservedStarting | ObservedRunning | ObservedStopping
  | ObservedExited | ObservedBackoff | ObservedFatal | ObservedUnknown | ObservedOther string

datatype HealthState = HealthHealthy | HealthUnhealthy | HealthUnknown | HealthOther string

datatype Event =
    EvStart | EvStartOK | EvStartFail | EvExit | EvStop | EvStopped | EvRetry | EvRetriesExhausted | EvLost

definition observedTransitions :: "((ObservedState \<times> Event) \<times> ObservedState) list" where
  "observedTransitions = [
     ((ObservedStopped, EvStart), ObservedStarting),
     ((ObservedStarting, EvStartOK), ObservedRunning),
     ((ObservedStarting, EvStartFail), ObservedBackoff),
     ((ObservedRunning, EvExit), ObservedExited),
     ((ObservedRunning, EvStop), ObservedStopping),
     ((ObservedStopping, EvStopped), ObservedStopped),
     ((ObservedExited, EvRetry), ObservedStarting),
     ((ObservedExited, EvRetriesExhausted), ObservedFatal),
     ((ObservedBackoff, EvRetry), ObservedStarting),
     ((ObservedBackoff, EvRetriesExhausted), ObservedFatal),
     ((ObservedFatal, EvStart), ObservedStarting),
     ((ObservedUnknown, EvStartOK), ObservedRunning),
     ((ObservedUnknown, EvStopped), ObservedStopped),
     ((ObservedStopped, EvLost), ObservedUnknown),
     ((ObservedStarting, EvLost), ObservedUnknown),
     ((ObservedRunning, EvLost), ObservedUnknown),
     ((ObservedStopping, EvLost), ObservedUnknown),
     ((ObservedExited, EvLost), ObservedUnknown),
     ((ObservedBackoff, EvLost), ObservedUnknown),
     ((ObservedFatal, EvLost), ObservedUnknown),
     ((ObservedUnknown, EvLost), ObservedUnknown)]"

definition ApplyObserved :: "ObservedState \<Rightarrow> Event \<Rightarrow> goerror + ObservedState" where
  "ApplyObserved cur ev =
    (case map_of observedTransitions (cur, ev) of
       None \<Rightarrow> fail INVALID ''illegal observed transition'' | Some nxt \<Rightarrow> Inr nxt)"

text \<open>\<^verbatim>\<open>if next, err := ApplyObserved(...); err == nil { x = next } else { x = d }\<close>\<close>

definition observe_or :: "ObservedState \<Rightarrow> ObservedState \<Rightarrow> Event \<Rightarrow> ObservedState" where
  "observe_or d cur ev = (case ApplyObserved cur ev of Inl _ \<Rightarrow> d | Inr nxt \<Rightarrow> nxt)"

section \<open>Specifications and instances\<close>

datatype RestartMode = RestartNever | RestartAlways | RestartOnFailure | RestartUnset | RestartOther string

record Backoff =
  bo_Initial :: int
  bo_Max :: int
  bo_Multiplier :: rat

record RestartPolicy =
  rs_Mode :: RestartMode
  rs_MaxRetries :: int
  rs_RetryWindow :: int
  rs_Backoff :: Backoff

record HealthCheckSpec =
  hc_Type :: string
  hc_URL :: string
  hc_Method :: string
  hc_ExpectedStatus :: int
  hc_Address :: string
  hc_Command :: string
  hc_Args :: "string list"
  hc_InitialDelay :: int
  hc_Interval :: int
  hc_Timeout :: int
  hc_FailureThreshold :: int
  hc_SuccessThreshold :: int
  hc_RestartOnFailure :: bool
  hc_RestartCooldown :: int

record LogPolicy =
  lp_MaxSize :: int
  lp_MaxFiles :: int
  lp_MaxAge :: int
  lp_Compress :: bool
  lp_Directory :: string
  lp_RedirectStderr :: bool

record ResourceLimit =
  rl_CPUQuotaMillis :: int
  rl_MemoryBytes :: int
  rl_OpenFiles :: int

datatype DepCondition = DepUnset | DepStarted | DepHealthy | DepOther string

record Dependency =
  dep_ProcessName :: string
  dep_Condition :: DepCondition

record ProcessSpec =
  ps_ProcessID :: string
  ps_Name :: string
  ps_OwnerAgentID :: string
  ps_Group :: string
  ps_Command :: string
  ps_Args :: "string list"
  ps_WorkingDirectory :: string
  ps_RunAsUser :: string
  ps_Environment :: "(string, string) gomap"
  ps_Instances :: int
  ps_Restart :: RestartPolicy
  ps_Health :: HealthCheckSpec
  ps_Log :: LogPolicy
  ps_Resources :: ResourceLimit
  ps_StartupPriority :: int
  ps_Dependencies :: "Dependency list"
  ps_Autostart :: bool
  ps_StopSignal :: string
  ps_StopTimeout :: int
  ps_KillSignal :: string
  ps_LatestRevision :: int
  ps_CreatedAt :: gtime
  ps_UpdatedAt :: gtime

record Instance =
  in_InstanceID :: string
  in_ProcessID :: string
  in_Ordinal :: int
  in_PID :: int
  in_ShimPID :: int
  in_Desired :: DesiredState
  in_Observed :: ObservedState
  in_Health :: HealthState
  in_StartedAt :: "gtime option"
  in_ExitAt :: "gtime option"
  in_ExitCode :: "int option"
  in_RestartCount :: int
  in_ActiveRevision :: int
  in_BootID :: string
  in_LastError :: string

definition zero_log_policy :: LogPolicy where
  "zero_log_policy = \<lparr>lp_MaxSize = 0, lp_MaxFiles = 0, lp_MaxAge = 0, lp_Compress = False, lp_Directory = [],
     lp_RedirectStderr = False\<rparr>"

definition WithDefaults :: "LogPolicy \<Rightarrow> LogPolicy" where
  "WithDefaults p = p\<lparr>
     lp_MaxSize := (if lp_MaxSize p = 0 then 100 * 2 ^ 20 else lp_MaxSize p),
     lp_MaxFiles := (if lp_MaxFiles p = 0 then 10 else lp_MaxFiles p),
     lp_MaxAge := (if lp_MaxAge p = 0 then 7 * 24 * 3600 * nanos else lp_MaxAge p),
     lp_Compress := (if p = zero_log_policy then True else lp_Compress p)\<rparr>"

definition ApplyDefaults :: "ProcessSpec \<Rightarrow> ProcessSpec" where
  "ApplyDefaults s = s\<lparr>
     ps_Instances := (if ps_Instances s = 0 then 1 else ps_Instances s),
     ps_StopSignal := (if ps_StopSignal s = [] then ''SIGTERM'' else ps_StopSignal s),
     ps_KillSignal := (if ps_KillSignal s = [] then ''SIGKILL'' else ps_KillSignal s),
     ps_StopTimeout := (if ps_StopTimeout s = 0 then 10 * nanos else ps_StopTimeout s),
     ps_Restart := (if rs_Mode (ps_Restart s) = RestartUnset then (ps_Restart s)\<lparr>rs_Mode := RestartOnFailure\<rparr>
                    else ps_Restart s),
     ps_Log := WithDefaults (ps_Log s)\<rparr>"

section \<open>The restart policy\<close>

record RestartDecision =
  rd_Restart :: bool
  rd_Fatal :: bool
  rd_Delay :: int

definition no_restart :: RestartDecision where
  "no_restart = \<lparr>rd_Restart = False, rd_Fatal = False, rd_Delay = 0\<rparr>"

definition countFailuresInWindow :: "gtime list \<Rightarrow> gtime \<Rightarrow> int \<Rightarrow> nat" where
  "countFailuresInWindow failures now window =
     length (filter (\<lambda>t. \<not> t > now \<and> (window \<le> 0 \<or> \<not> t < now - window)) failures)"

text \<open>A \<^verbatim>\<open>float64\<close> result. The parameters are \<^verbatim>\<open>float64(i) * math.Pow(m, float64(n))\<close>, \<^verbatim>\<open>float64(i)\<close> and the
  integer that a \<^verbatim>\<open>NaN\<close> converts to.\<close>

datatype f64 = Finite rat | PosInf | NegInf | NaN

record float_ops =
  fl_scaled :: "int \<Rightarrow> rat \<Rightarrow> nat \<Rightarrow> f64"
  fl_conv :: "int \<Rightarrow> rat"
  fl_nan :: int

definition backoffDelay :: "float_ops \<Rightarrow> Backoff \<Rightarrow> nat \<Rightarrow> int" where
  "backoffDelay fl b n =
    (let initial = (if bo_Initial b \<le> 0 then nanos else bo_Initial b);
         mx = (if bo_Max b \<le> 0 then 60 * nanos else bo_Max b);
         mult = (if bo_Multiplier b = 0 then 2 else bo_Multiplier b)
     in case fl_scaled fl initial mult n of
          PosInf \<Rightarrow> mx
        | NegInf \<Rightarrow> mx
        | NaN \<Rightarrow> fl_nan fl
        | Finite d \<Rightarrow> if d > fl_conv fl mx then mx else if d < 0 then mx else \<lfloor>d\<rfloor>)"

definition DecideRestart :: "float_ops \<Rightarrow> RestartPolicy \<Rightarrow> DesiredState \<Rightarrow> ObservedState \<Rightarrow> int \<Rightarrow> gtime list
    \<Rightarrow> gtime \<Rightarrow> RestartDecision" where
  "DecideRestart fl pol desired observed exitCode failures now =
    (if desired = DesiredStopped then no_restart
     else if observed \<noteq> ObservedExited \<and> observed \<noteq> ObservedBackoff then no_restart
     else if rs_Mode pol = RestartNever then no_restart
     else if rs_Mode pol = RestartOnFailure \<and> exitCode = 0 then no_restart
     else
      (let n = countFailuresInWindow failures now (rs_RetryWindow pol) in
       if rs_MaxRetries pol > 0 \<and> int n \<ge> rs_MaxRetries pol
       then \<lparr>rd_Restart = False, rd_Fatal = True, rd_Delay = 0\<rparr>
       else \<lparr>rd_Restart = True, rd_Fatal = False, rd_Delay = backoffDelay fl (rs_Backoff pol) n\<rparr>))"

section \<open>Observed states as a step relation\<close>

text \<open>The life of an instance, independent of the table: what each event may do.\<close>

inductive obs_step :: "ObservedState \<Rightarrow> Event \<Rightarrow> ObservedState \<Rightarrow> bool" where
  start: "s = ObservedStopped \<or> s = ObservedFatal \<Longrightarrow> obs_step s EvStart ObservedStarting"
| retry: "s = ObservedExited \<or> s = ObservedBackoff \<Longrightarrow> obs_step s EvRetry ObservedStarting"
| start_ok: "s = ObservedStarting \<or> s = ObservedUnknown \<Longrightarrow> obs_step s EvStartOK ObservedRunning"
| start_fail: "obs_step ObservedStarting EvStartFail ObservedBackoff"
| exited: "obs_step ObservedRunning EvExit ObservedExited"
| give_up: "s = ObservedExited \<or> s = ObservedBackoff \<Longrightarrow> obs_step s EvRetriesExhausted ObservedFatal"
| stop: "obs_step ObservedRunning EvStop ObservedStopping"
| stopped: "s = ObservedStopping \<or> s = ObservedUnknown \<Longrightarrow> obs_step s EvStopped ObservedStopped"
| lost: "(\<And>x. s \<noteq> ObservedOther x) \<Longrightarrow> obs_step s EvLost ObservedUnknown"

inductive_cases obs_startE: "obs_step s EvStart t"
inductive_cases obs_retryE: "obs_step s EvRetry t"
inductive_cases obs_okE: "obs_step s EvStartOK t"
inductive_cases obs_failE: "obs_step s EvStartFail t"
inductive_cases obs_exitE: "obs_step s EvExit t"
inductive_cases obs_stopE: "obs_step s EvStop t"
inductive_cases obs_stoppedE: "obs_step s EvStopped t"
inductive_cases obs_fatalE: "obs_step s EvRetriesExhausted t"
inductive_cases obs_lostE: "obs_step s EvLost t"

inductive_simps obs_to_running: "obs_step s ev ObservedRunning"
inductive_simps obs_from_fatal: "obs_step ObservedFatal ev t"
inductive_simps obs_from_unknown: "obs_step ObservedUnknown ev t"

lemmas obs_inversions = obs_startE obs_retryE obs_okE obs_failE obs_exitE obs_stopE obs_stoppedE obs_fatalE obs_lostE

lemma apply_observed_iff: "ApplyObserved s ev = Inr t \<longleftrightarrow> obs_step s ev t"
proof
  show "ApplyObserved s ev = Inr t \<Longrightarrow> obs_step s ev t"
    by (cases s; cases ev; simp add: ApplyObserved_def observedTransitions_def obs_step.simps)
  show "obs_step s ev t \<Longrightarrow> ApplyObserved s ev = Inr t"
    by (cases s; cases ev; simp add: ApplyObserved_def observedTransitions_def obs_step.simps)
qed

text \<open>Two events lead to one state from everywhere, when an illegal step is replaced by it.\<close>

lemma observe_running [simp]: "observe_or ObservedRunning s EvStartOK = ObservedRunning"
  by (cases s) (simp_all add: observe_or_def ApplyObserved_def observedTransitions_def)

lemma observe_lost [simp]: "observe_or ObservedUnknown s EvLost = ObservedUnknown"
  by (cases s) (simp_all add: observe_or_def ApplyObserved_def observedTransitions_def)

end
