(* ===== verification/Process_Deps.thy ===== *)
theory Process_Deps imports Process_Types
begin

text \<open>
  Start-up order and readiness of dependencies (\<^verbatim>\<open>process/deps.go\<close>). \<open>StartupOrder\<close> follows the code:
  the maps \<^verbatim>\<open>byName\<close>, \<^verbatim>\<open>indegree\<close> and \<^verbatim>\<open>dependents\<close> and the list of ready specifications. \<open>kahn\<close> is the
  reference it is compared with: repeatedly the least specification whose dependencies are done.
\<close>

section \<open>The order of specifications\<close>

text \<open>By \<^verbatim>\<open>StartupPriority\<close>, then by \<^verbatim>\<open>Name\<close>.\<close>

datatype rank = Rank int string

instantiation rank :: linorder
begin

definition less_eq_rank :: "rank \<Rightarrow> rank \<Rightarrow> bool" where
  "less_eq_rank a b = (case (a, b) of (Rank p m, Rank q n) \<Rightarrow> p < q \<or> (p = q \<and> m \<le> n))"

definition less_rank :: "rank \<Rightarrow> rank \<Rightarrow> bool" where
  "less_rank a b = (case (a, b) of (Rank p m, Rank q n) \<Rightarrow> p < q \<or> (p = q \<and> m < n))"

instance
  by standard (auto simp: less_eq_rank_def less_rank_def split: rank.splits)

end

definition rank_of :: "ProcessSpec \<Rightarrow> rank" where
  "rank_of s = Rank (ps_StartupPriority s) (ps_Name s)"

section \<open>The code\<close>

definition effectiveCondition :: "DepCondition \<Rightarrow> DepCondition" where
  "effectiveCondition c = (if c = DepUnset then DepHealthy else c)"

type_synonym names = "(string, string list) gomap"

text \<open>One dependency of the specification \<open>n\<close>; \<open>None\<close> is the return for an unknown name.\<close>

fun add_deps :: "(string, ProcessSpec) gomap \<Rightarrow> string \<Rightarrow> string list \<Rightarrow> Dependency list
    \<Rightarrow> names \<times> (string, int) gomap \<Rightarrow> (names \<times> (string, int) gomap) option" where
  "add_deps byName n seen [] st = Some st"
| "add_deps byName n seen (d # ds) (dependents, indegree) =
    (if \<not> mhas byName (dep_ProcessName d) then None
     else if dep_ProcessName d \<in> set seen then add_deps byName n seen ds (dependents, indegree)
     else add_deps byName n (dep_ProcessName d # seen) ds
       (mput (dep_ProcessName d) (mget_or [] dependents (dep_ProcessName d) @ [n]) dependents,
        mput n (mget_or 0 indegree n + 1) indegree))"

fun add_specs :: "(string, ProcessSpec) gomap \<Rightarrow> ProcessSpec list \<Rightarrow> names \<times> (string, int) gomap
    \<Rightarrow> (names \<times> (string, int) gomap) option" where
  "add_specs byName [] st = Some st"
| "add_specs byName (s # ss) st =
    (case add_deps byName (ps_Name s) [] (ps_Dependencies s) st of
       None \<Rightarrow> None | Some st' \<Rightarrow> add_specs byName ss st')"

text \<open>One name of \<^verbatim>\<open>dependents[next.Name]\<close>.\<close>

definition relax :: "(string, ProcessSpec) gomap \<Rightarrow> string
    \<Rightarrow> ProcessSpec list \<times> (string, int) gomap \<Rightarrow> ProcessSpec list \<times> (string, int) gomap" where
  "relax byName n = (\<lambda>(ready, indegree).
     let k = mget_or 0 indegree n - 1; indegree' = mput n k indegree
     in if k = 0 then
          (case mget byName n of Some s \<Rightarrow> (ready @ [s], indegree') | None \<Rightarrow> (ready, indegree'))
        else (ready, indegree'))"

definition pending :: "(string, int) gomap \<Rightarrow> nat" where
  "pending indegree = card {k. mget_or 0 indegree k > 0}"

lemma finite_pending: "finite {k. mget_or (0 :: int) m k > 0}"
proof (rule finite_subset)
  show "{k. mget_or (0 :: int) m k > 0} \<subseteq> dom (mget m)" by (auto simp: mget_or_def split: option.splits)
qed (rule finite_dom_map_of)

lemma pending_lower: "mget_or 0 m n > 0 \<Longrightarrow> pending (mput n 0 m) + 1 = pending m"
proof -
  assume n: "mget_or 0 m n > 0"
  have "{a. mget_or 0 (mput n 0 m) a > 0} = {a. mget_or 0 m a > 0} - {n}"
    by (auto simp: mget_or_def)
  moreover have "Suc (card ({a. mget_or 0 m a > 0} - {n})) = card {a. mget_or 0 m a > 0}"
    by (rule card_Suc_Diff1 [OF finite_pending]) (use n in simp)
  ultimately show ?thesis by (simp only: pending_def)
qed

lemma pending_keep: "pending (mput n (mget_or 0 m n - 1) m) \<le> pending m"
  unfolding pending_def
  by (rule card_mono [OF finite_pending]) (auto simp: mget_or_def split: option.splits)

lemma relax_measure:
  "length (fst (relax byName n st)) + pending (snd (relax byName n st)) \<le> length (fst st) + pending (snd st)"
proof -
  obtain ready m where st: "st = (ready, m)" by (cases st)
  show ?thesis using pending_lower [of m n] pending_keep [of n m]
    by (cases "mget_or 0 m n = 1") (auto simp: st relax_def Let_def split: option.split)
qed

lemma fold_relax_measure:
  "length (fst (fold (relax byName) ns st)) + pending (snd (fold (relax byName) ns st)) \<le> length (fst st) + pending (snd st)"
proof (induction ns arbitrary: st)
  case (Cons n ns)
  from Cons.IH [of "relax byName n st"] relax_measure [of byName n st] show ?case by simp
qed simp

text \<open>The loop: sort the ready specifications, start the first, relax what depends on it.\<close>

function kahn_loop :: "(string, ProcessSpec) gomap \<Rightarrow> names \<Rightarrow> ProcessSpec list \<Rightarrow> (string, int) gomap
    \<Rightarrow> ProcessSpec list" where
  "kahn_loop byName dependents ready indegree =
    (case sort_key rank_of ready of
       [] \<Rightarrow> []
     | nxt # rest \<Rightarrow>
        (let st = fold (relax byName) (mget_or [] dependents (ps_Name nxt)) (rest, indegree)
         in nxt # kahn_loop byName dependents (fst st) (snd st)))"
  by pat_completeness auto
termination
proof (relation "measure (\<lambda>(_, _, ready, indegree). length ready + pending indegree)", goal_cases)
  case (2 byName dependents ready indegree nxt rest st)
  have "length (sort_key rank_of ready) = length ready" by simp
  with 2(1) have "length ready = Suc (length rest)" by simp
  with fold_relax_measure [of byName "mget_or [] dependents (ps_Name nxt)" "(rest, indegree)"] 2(2)
  show ?case by (simp add: split_beta)
qed simp

declare kahn_loop.simps [simp del]

definition by_name :: "ProcessSpec list \<Rightarrow> (string, ProcessSpec) gomap" where
  "by_name specs = fold (\<lambda>s. mput (ps_Name s) s) specs []"

definition StartupOrder :: "ProcessSpec list \<Rightarrow> goerror + string list" where
  "StartupOrder specs =
    (let byName = by_name specs;
         zero = fold (\<lambda>s. mput (ps_Name s) 0) specs []
     in case add_specs byName specs ([], zero) of
          None \<Rightarrow> fail INVALID ''missing dependency''
        | Some (dependents, indegree) \<Rightarrow>
           (let ready = filter (\<lambda>s. mget_or 0 indegree (ps_Name s) = 0) specs;
                order = map ps_ProcessID (kahn_loop byName dependents ready indegree)
            in if length order \<noteq> length specs then fail INVALID ''circular dependency'' else Inr order))"

definition RejectCycle :: "ProcessSpec list \<Rightarrow> goerror option" where
  "RejectCycle specs =
    (let names = map ps_Name specs;
         filtered = map (\<lambda>s. s\<lparr>ps_Dependencies :=
           filter (\<lambda>d. dep_ProcessName d \<in> set names) (ps_Dependencies s)\<rparr>) specs
     in case StartupOrder filtered of Inl err \<Rightarrow> Some err | Inr _ \<Rightarrow> None)"

definition dep_ready :: "(string, Instance list) gomap \<Rightarrow> Dependency \<Rightarrow> bool" where
  "dep_ready byName d =
    (let insts = mget_or [] byName (dep_ProcessName d) in
     insts \<noteq> [] \<and> list_all (\<lambda>i. if effectiveCondition (dep_Condition d) = DepStarted
         then in_Observed i = ObservedRunning else in_Health i = HealthHealthy) insts)"

definition DepsReady :: "ProcessSpec \<Rightarrow> (string, Instance list) gomap \<Rightarrow> bool" where
  "DepsReady spec byName \<longleftrightarrow> list_all (dep_ready byName) (ps_Dependencies spec)"

section \<open>The reference: always start the least ready specification\<close>

definition dep_names :: "ProcessSpec \<Rightarrow> string set" where
  "dep_names s = dep_ProcessName ` set (ps_Dependencies s)"

definition ready_after :: "ProcessSpec list \<Rightarrow> string set \<Rightarrow> ProcessSpec list" where
  "ready_after specs started = filter (\<lambda>s. ps_Name s \<notin> started \<and> dep_names s \<subseteq> started) specs"

fun kahn :: "nat \<Rightarrow> ProcessSpec list \<Rightarrow> string set \<Rightarrow> ProcessSpec list" where
  "kahn 0 specs started = []"
| "kahn (Suc k) specs started =
    (case sort_key rank_of (ready_after specs started) of
       [] \<Rightarrow> []
     | nxt # _ \<Rightarrow> nxt # kahn k specs (insert (ps_Name nxt) started))"

text \<open>An order that starts everything after what it depends on.\<close>

definition deps_first :: "ProcessSpec list \<Rightarrow> bool" where
  "deps_first ss \<longleftrightarrow> (\<forall>i<length ss. dep_names (ss ! i) \<subseteq> ps_Name ` set (take i ss))"

lemma sort_key_mset:
  assumes "inj_on f (set xs)" and "mset xs = mset ys"
  shows "sort_key f xs = sort_key f ys"
proof -
  have *: "sort (map f zs) = map f (sort_key f zs)" for zs by (rule properties_for_sort) simp_all
  have "sort (map f xs) = sort (map f ys)" using assms(2) by (simp add: sort_eq_iff_mset)
  then have "map f (sort_key f xs) = map f (sort_key f ys)" by (simp only: *)
  moreover have "set (sort_key f xs) = set (sort_key f ys)" using assms(2) by (metis set_mset_mset set_sort)
  ultimately show ?thesis using assms(1) by (simp add: inj_on_map_eq_map)
qed


lemma rank_inj: "distinct (map ps_Name specs) \<Longrightarrow> inj_on rank_of (set specs)"
  by (rule inj_onI) (auto simp: rank_of_def distinct_map dest: inj_onD)

lemma sort_rank_set:
  assumes "distinct (map ps_Name specs)" and "set xs \<subseteq> set specs" and "distinct xs" and "distinct ys" and "set xs = set ys"
  shows "sort_key rank_of xs = sort_key rank_of ys"
proof (rule sort_key_mset)
  show "inj_on rank_of (set xs)" using rank_inj [OF assms(1)] assms(2) by (rule inj_on_subset)
  show "mset xs = mset ys" using assms(3-5) by (simp add: set_eq_iff_mset_eq_distinct)
qed

section \<open>The maps of the code\<close>

lemma by_name_get:
  assumes "distinct (map ps_Name specs)"
  shows "mget (by_name specs) n = find (\<lambda>s. ps_Name s = n) specs"
proof -
  have "mget (fold (\<lambda>s. mput (ps_Name s) s) ss m) n =
      (case find (\<lambda>s. ps_Name s = n) ss of Some s \<Rightarrow> Some s | None \<Rightarrow> mget m n)"
    if "distinct (map ps_Name ss)" for ss m
    using that
  proof (induction ss arbitrary: m)
    case (Cons s ss)
    have "find (\<lambda>s. ps_Name s = n) ss = None" if "ps_Name s = n"
      using Cons.prems that by (auto simp: find_None_iff image_iff)
    with Cons show ?case by (auto split: option.split)
  qed simp
  from this [OF assms, of "[]"] show ?thesis by (simp add: by_name_def split: option.split)
qed

lemma by_name_spec: "distinct (map ps_Name specs) \<Longrightarrow> s \<in> set specs \<Longrightarrow> mget (by_name specs) (ps_Name s) = Some s"
  by (auto simp: by_name_get find_Some_iff in_set_conv_nth distinct_conv_nth)

lemma by_name_has: "distinct (map ps_Name specs) \<Longrightarrow> mhas (by_name specs) n \<longleftrightarrow> n \<in> ps_Name ` set specs"
  by (auto simp: mhas_def by_name_get find_None_iff)

lemma zero_get: "mget_or 0 (fold (\<lambda>s. mput (ps_Name s) (0 :: int)) ss []) n = 0"
proof -
  have "mget_or 0 m n = 0 \<Longrightarrow> mget_or 0 (fold (\<lambda>s. mput (ps_Name s) (0 :: int)) ss m) n = 0" for m
    by (induction ss arbitrary: m) (auto simp: mget_or_def)
  then show ?thesis by (simp add: mget_or_def)
qed

text \<open>What building the maps of one specification, and of all of them, leaves.\<close>

lemma add_deps_None:
  "add_deps byName n seen ds st = None \<longleftrightarrow> (\<exists>d\<in>set ds. \<not> mhas byName (dep_ProcessName d))"
  by (induction byName n seen ds st rule: add_deps.induct) auto

lemma add_deps_Some:
  assumes "add_deps byName n seen ds (dependents, indegree) = Some (dependents', indegree')"
  shows "mget_or [] dependents' p = mget_or [] dependents p @ (if p \<in> dep_ProcessName ` set ds - set seen then [n] else [])
    \<and> mget_or 0 indegree' p = mget_or 0 indegree p + (if p = n then int (card (dep_ProcessName ` set ds - set seen)) else 0)"
  using assms
proof (induction byName n seen ds "(dependents, indegree)" arbitrary: dependents indegree rule: add_deps.induct)
  case (2 byName n seen d ds dependents indegree)
  show ?case
  proof (cases "dep_ProcessName d \<in> set seen")
    case True
    with 2 have "dep_ProcessName ` set (d # ds) - set seen = dep_ProcessName ` set ds - set seen" by auto
    with 2 True show ?thesis by (auto split: if_splits)
  next
    case False
    have s: "dep_ProcessName ` set (d # ds) - set seen = insert (dep_ProcessName d) (dep_ProcessName ` set ds - set (dep_ProcessName d # seen))"
      using False by auto
    have "card (dep_ProcessName ` set (d # ds) - set seen) = Suc (card (dep_ProcessName ` set ds - set (dep_ProcessName d # seen)))"
      unfolding s by (rule card_insert_disjoint) auto
    with 2(2) [OF _ False] 2(3) False show ?thesis unfolding s by (auto simp: mget_or_def split: if_splits)
  qed
qed simp

lemma add_specs_None:
  "add_specs byName ss st = None \<longleftrightarrow> (\<exists>s\<in>set ss. \<exists>n\<in>dep_names s. \<not> mhas byName n)"
proof (induction ss arbitrary: st)
  case (Cons s ss)
  show ?case
  proof (cases "add_deps byName (ps_Name s) [] (ps_Dependencies s) st")
    case None
    then have "\<exists>d\<in>set (ps_Dependencies s). \<not> mhas byName (dep_ProcessName d)"
      using add_deps_None [of byName "ps_Name s" "[]" "ps_Dependencies s" st] by simp
    with None show ?thesis by (auto simp: dep_names_def)
  next
    case (Some st')
    then have "\<not> (\<exists>d\<in>set (ps_Dependencies s). \<not> mhas byName (dep_ProcessName d))"
      using add_deps_None [of byName "ps_Name s" "[]" "ps_Dependencies s" st] by simp
    with Some Cons.IH [of st'] show ?thesis by (auto simp: dep_names_def)
  qed
qed simp

lemma add_specs_Some:
  assumes "add_specs byName ss (dependents, indegree) = Some (dependents', indegree')" and "distinct (map ps_Name ss)"
  shows "mget_or [] dependents' p = mget_or [] dependents p @ map ps_Name (filter (\<lambda>s. p \<in> dep_names s) ss)
    \<and> mget_or 0 indegree' p = mget_or 0 indegree p + (case find (\<lambda>s. ps_Name s = p) ss of Some s \<Rightarrow> int (card (dep_names s)) | None \<Rightarrow> 0)"
  using assms
proof (induction ss arbitrary: dependents indegree)
  case (Cons s ss)
  obtain d1 i1 where one: "add_deps byName (ps_Name s) [] (ps_Dependencies s) (dependents, indegree) = Some (d1, i1)"
    and rest: "add_specs byName ss (d1, i1) = Some (dependents', indegree')"
    using Cons.prems(1) by (auto split: option.splits)
  from Cons.IH [OF rest] Cons.prems(2) add_deps_Some [OF one, of p]
  have "find (\<lambda>t. ps_Name t = p) ss = None" if "p = ps_Name s" using Cons.prems(2) that by (auto simp: find_None_iff image_iff)
  with Cons.IH [OF rest] Cons.prems(2) add_deps_Some [OF one, of p] show ?case by (auto simp: dep_names_def)
qed simp

section \<open>The loop of the code is the reference\<close>

lemma fold_relax:
  assumes "distinct ns" and "\<And>n. n \<in> set ns \<Longrightarrow> \<exists>s. mget byName n = Some s"
  shows "fold (relax byName) ns (ready, m) =
    (ready @ map (\<lambda>n. the (mget byName n)) (filter (\<lambda>n. mget_or 0 m n = 1) ns), fold (\<lambda>n m. mput n (mget_or 0 m n - 1) m) ns m)"
  using assms
proof (induction ns arbitrary: ready m)
  case (Cons n ns)
  let ?m = "mput n (mget_or 0 m n - 1) m"
  have "filter (\<lambda>a. mget_or 0 ?m a = 1) ns = filter (\<lambda>a. mget_or 0 m a = 1) ns"
    by (rule filter_cong) (use Cons.prems(1) in \<open>auto simp: mget_or_def\<close>)
  moreover obtain s where "mget byName n = Some s" using Cons.prems(2) by auto
  ultimately show ?case using Cons.IH Cons.prems by (auto simp: relax_def Let_def)
qed simp

lemma fold_lower:
  "distinct ns \<Longrightarrow> mget_or 0 (fold (\<lambda>n m. mput n (mget_or 0 m n - 1 :: int) m) ns m) a =
     mget_or 0 m a - (if a \<in> set ns then 1 else 0)"
proof (induction ns arbitrary: m)
  case (Cons n ns)
  then show ?case by (auto simp: mget_or_def)
qed simp

text \<open>The state of the loop once the specifications named in \<open>started\<close> have been started.\<close>

definition kahn_inv :: "ProcessSpec list \<Rightarrow> names \<Rightarrow> string set \<Rightarrow> ProcessSpec list \<Rightarrow> (string, int) gomap \<Rightarrow> bool" where
  "kahn_inv specs dependents started ready m \<longleftrightarrow>
     distinct ready \<and> (\<forall>s\<in>set specs. ps_Name s \<in> started \<longrightarrow> dep_names s \<subseteq> started) \<and> set ready = set (ready_after specs started)
     \<and> (\<forall>s\<in>set specs. ps_Name s \<notin> started \<longrightarrow> mget_or 0 m (ps_Name s) = int (card (dep_names s - started)))
     \<and> (\<forall>p. mget_or [] dependents p = map ps_Name (filter (\<lambda>s. p \<in> dep_names s) specs))"

lemma finite_dep_names [simp]: "finite (dep_names s)" by (simp add: dep_names_def)

lemma ready_after_insert:
  "set (ready_after specs (insert n started)) =
     {s \<in> set (ready_after specs started). ps_Name s \<noteq> n}
     \<union> {s \<in> set specs. ps_Name s \<notin> insert n started \<and> n \<in> dep_names s - started \<and> dep_names s \<subseteq> insert n started}"
  by (auto simp: ready_after_def)

lemma card_one_left: "finite A \<Longrightarrow> n \<in> A - B \<Longrightarrow> card (A - B) = 1 \<longleftrightarrow> A \<subseteq> insert n B"
proof -
  assume n: "finite A" "n \<in> A - B"
  have "card (A - B) = 1 \<longleftrightarrow> A - B = {n}" 
    using n(2) by (metis One_nat_def card_1_singleton_iff singletonD)
  with n(2) show ?thesis by blast
qed

lemma kahn_inv_step:
  assumes "distinct (map ps_Name specs)" and inv: "kahn_inv specs dependents started ready m"
    and srt: "sort_key rank_of ready = nxt # rest" and n: "n = ps_Name nxt"
  shows "kahn_inv specs dependents (insert n started)
    (fst (fold (relax (by_name specs)) (mget_or [] dependents n) (rest, m)))
    (snd (fold (relax (by_name specs)) (mget_or [] dependents n) (rest, m)))"
proof -
  define ns where "ns = map ps_Name (filter (\<lambda>s. n \<in> dep_names s) specs)"
  have ns: "mget_or [] dependents n = ns" using inv by (simp add: kahn_inv_def ns_def)
  have dns: "distinct ns" using assms(1) by (simp add: ns_def distinct_map_filter)
  have known: "\<exists>s. mget (by_name specs) a = Some s" if "a \<in> set ns" for a
    using that by_name_spec [OF assms(1)] by (fastforce simp: ns_def)
  have f: "fold (relax (by_name specs)) ns (rest, m) =
      (rest @ map (\<lambda>n. the (mget (by_name specs) n)) (filter (\<lambda>n. mget_or 0 m n = 1) ns),
       fold (\<lambda>n m. mput n (mget_or 0 m n - 1) m) ns m)"
    by (rule fold_relax [OF dns]) (rule known)
  have rd: "set ready = insert nxt (set rest)" "distinct (nxt # rest)"
    using srt inv by (metis list.simps(15) set_sort, metis distinct_sort kahn_inv_def)
  have nxt: "nxt \<in> set specs" "n \<notin> started" "dep_names nxt \<subseteq> started"
    using rd(1) inv n by (auto simp: kahn_inv_def ready_after_def)
  have only: "s = nxt" if "s \<in> set specs" "ps_Name s = n" for s
    using assms(1) that nxt(1) n by (auto simp: distinct_map dest: inj_onD)
  have get: "the (mget (by_name specs) (ps_Name s)) = s" if "s \<in> set specs" for s
    using by_name_spec [OF assms(1) that] by simp
  have unstarted: "ps_Name s \<notin> started" if "s \<in> set specs" "n \<in> dep_names s" for s
    using that nxt(2) inv by (auto simp: kahn_inv_def)
  have deg: "mget_or 0 m (ps_Name s) = int (card (dep_names s - started))" if "s \<in> set specs" "ps_Name s \<notin> started" for s
    using that inv by (simp add: kahn_inv_def)
  have one: "mget_or 0 m (ps_Name s) = 1 \<longleftrightarrow> dep_names s \<subseteq> insert n started" if "s \<in> set specs" "n \<in> dep_names s" for s
    using deg [OF that(1) unstarted [OF that]] card_one_left [of "dep_names s" n started] nxt(2) that(2) by simp
  define new where "new = map (\<lambda>a. the (mget (by_name specs) a)) (filter (\<lambda>a. mget_or 0 m a = 1) ns)"
  have new: "new = filter (\<lambda>s. n \<in> dep_names s \<and> dep_names s \<subseteq> insert n started) specs"
  proof -
    have "new = map (\<lambda>s. the (mget (by_name specs) (ps_Name s)))
        (filter (\<lambda>s. n \<in> dep_names s \<and> mget_or 0 m (ps_Name s) = 1) specs)"
      by (simp add: new_def ns_def filter_map comp_def conj_commute)
    also have "\<dots> = filter (\<lambda>s. n \<in> dep_names s \<and> mget_or 0 m (ps_Name s) = 1) specs"
      by (rule map_idI) (simp add: get)
    also have "\<dots> = filter (\<lambda>s. n \<in> dep_names s \<and> dep_names s \<subseteq> insert n started) specs"
      by (rule filter_cong) (use one in auto)
    finally show ?thesis .
  qed
  have r: "set (rest @ new) = set (ready_after specs (insert n started))"
    unfolding ready_after_insert set_append new
  proof (rule arg_cong2 [where f = "(\<union>)"])
    have "set rest = set ready - {nxt}" using rd by auto
    also have "\<dots> = {s \<in> set (ready_after specs started). ps_Name s \<noteq> n}"
      using inv only n by (auto simp: kahn_inv_def ready_after_def)
    finally show "set rest = {s \<in> set (ready_after specs started). ps_Name s \<noteq> n}" .
    show "set (filter (\<lambda>s. n \<in> dep_names s \<and> dep_names s \<subseteq> insert n started) specs)
        = {s \<in> set specs. ps_Name s \<notin> insert n started \<and> n \<in> dep_names s - started \<and> dep_names s \<subseteq> insert n started}"
      using nxt unstarted only by auto
  qed
  have d: "distinct (rest @ new)"
  proof -
    have "distinct new" using assms(1) by (simp add: new distinct_map)
    moreover have "set rest \<inter> set new = {}"
      using rd inv nxt(2) by (auto simp: new kahn_inv_def ready_after_def)
    ultimately show ?thesis using rd(2) by simp
  qed
  have low: "mget_or 0 (fold (\<lambda>n m. mput n (mget_or 0 m n - 1) m) ns m) (ps_Name s) = int (card (dep_names s - insert n started))"
    if s: "s \<in> set specs" "ps_Name s \<notin> insert n started" for s
  proof -
    have mem: "ps_Name s \<in> set ns \<longleftrightarrow> n \<in> dep_names s"
      using s(1) assms(1) by (auto simp: ns_def distinct_map dest: inj_onD)
    have "int (card (dep_names s - insert n started)) = int (card (dep_names s - started)) - (if n \<in> dep_names s then 1 else 0)"
    proof (cases "n \<in> dep_names s")
      case True
      then have "Suc (card (dep_names s - started - {n})) = card (dep_names s - started)"
        using nxt(2) by (intro card_Suc_Diff1) auto
      moreover have "dep_names s - insert n started = dep_names s - started - {n}" by auto
      ultimately show ?thesis using True by simp
    next
      case False
      then have "dep_names s - insert n started = dep_names s - started" by auto
      with False show ?thesis by simp
    qed
    with s deg [of s] show ?thesis by (simp add: fold_lower [OF dns] mem)
  qed
  show ?thesis
    unfolding ns f new_def [symmetric] fst_conv snd_conv kahn_inv_def
    using d r low inv nxt only by (auto simp: kahn_inv_def)
qed

lemma kahn_loop_ref:
  assumes "distinct (map ps_Name specs)" and "kahn_inv specs dependents started ready m"
    and "card (ps_Name ` set specs - started) \<le> k"
  shows "kahn_loop (by_name specs) dependents ready m = kahn k specs started"
  using assms(2,3)
proof (induction k arbitrary: started ready m)
  case 0
  then have "set (ready_after specs started) = {}" by (auto simp: ready_after_def)
  with 0 have "ready = []" by (simp add: kahn_inv_def)
  then show ?case by (simp add: kahn_loop.simps)
next
  case (Suc k)
  have srt: "sort_key rank_of ready = sort_key rank_of (ready_after specs started)"
    using Suc.prems(1) assms(1)
    by (intro sort_rank_set [OF assms(1)]) (auto simp: kahn_inv_def ready_after_def distinct_map)
  show ?case
  proof (cases "sort_key rank_of ready")
    case Nil
    with srt show ?thesis by (simp add: kahn_loop.simps)
  next
    case (Cons nxt rest)
    have "nxt \<in> set ready" using Cons by (metis list.set_intros(1) set_sort)
    then have n: "nxt \<in> set specs" "ps_Name nxt \<notin> started"
      using Suc.prems(1) by (auto simp: kahn_inv_def ready_after_def)
    have "card (ps_Name ` set specs - insert (ps_Name nxt) started) \<le> k"
    proof -
      have "Suc (card (ps_Name ` set specs - started - {ps_Name nxt})) = card (ps_Name ` set specs - started)"
        using n by (intro card_Suc_Diff1) auto
      moreover have "ps_Name ` set specs - insert (ps_Name nxt) started = ps_Name ` set specs - started - {ps_Name nxt}" by auto
      ultimately show ?thesis using Suc.prems(2) by simp
    qed
    from Suc.IH [OF kahn_inv_step [OF assms(1) Suc.prems(1) Cons refl] this] Cons srt show ?thesis
      by (simp add: kahn_loop.simps [of _ _ ready] Let_def)
  qed
qed

lemma mget_or_Nil: "mget_or d [] k = d"
  by (simp add: mget_or_def)

lemma StartupOrder_ref:
  assumes "distinct (map ps_Name specs)"
  shows "StartupOrder specs =
    (if \<not> (\<Union>s\<in>set specs. dep_names s) \<subseteq> ps_Name ` set specs then fail INVALID ''missing dependency''
     else (let ss = kahn (length specs) specs {} in
       if length ss \<noteq> length specs then fail INVALID ''circular dependency'' else Inr (map ps_ProcessID ss)))"
proof (cases "(\<Union>s\<in>set specs. dep_names s) \<subseteq> ps_Name ` set specs")
  case False
  then have "add_specs (by_name specs) specs st = None" for st
    by (auto simp: add_specs_None by_name_has [OF assms])
  with False show ?thesis by (simp add: StartupOrder_def)
next
  case True
  let ?zero = "fold (\<lambda>s. mput (ps_Name s) (0 :: int)) specs []"
  have "add_specs (by_name specs) specs ([], ?zero) \<noteq> None"
    using True by (auto simp: add_specs_None by_name_has [OF assms])
  then obtain ds m where a: "add_specs (by_name specs) specs ([], ?zero) = Some (ds, m)" by auto
  note ps = add_specs_Some [OF a assms]
  have find: "find (\<lambda>t. ps_Name t = ps_Name s) specs = Some s" if "s \<in> set specs" for s
    using by_name_spec [OF assms that] by (simp add: by_name_get [OF assms])
  have deg: "mget_or 0 m (ps_Name s) = int (card (dep_names s))" if "s \<in> set specs" for s
    using ps [of "ps_Name s"] find [OF that] by (simp add: zero_get)
  let ?ready = "filter (\<lambda>s. mget_or 0 m (ps_Name s) = 0) specs"
  have "?ready = ready_after specs {}"
    unfolding ready_after_def by (rule filter_cong) (auto simp: deg)
  then have "kahn_inv specs ds {} ?ready m"
    using assms ps deg by (auto simp: kahn_inv_def distinct_map ready_after_def mget_or_Nil)
  from kahn_loop_ref [OF assms this, of "length specs"]
  have "kahn_loop (by_name specs) ds ?ready m = kahn (length specs) specs {}"
    by (simp add: card_image_le le_trans [OF card_image_le card_length])
  with a True show ?thesis by (simp add: StartupOrder_def Let_def)
qed

section \<open>Properties of the start-up order\<close>

lemma ready_after_cong:
  assumes "distinct (map ps_Name specs)" and "mset specs = mset specs'"
  shows "sort_key rank_of (ready_after specs started) = sort_key rank_of (ready_after specs' started)"
proof (rule sort_key_mset)
  show "inj_on rank_of (set (ready_after specs started))"
    using rank_inj [OF assms(1)] by (rule inj_on_subset) (auto simp: ready_after_def)
  show "mset (ready_after specs started) = mset (ready_after specs' started)"
    using assms(2) by (simp add: ready_after_def)
qed

lemma kahn_cong:
  assumes "distinct (map ps_Name specs)" and "mset specs = mset specs'"
  shows "kahn k specs started = kahn k specs' started"
proof (induction k arbitrary: started)
  case (Suc k)
  then show ?case using ready_after_cong [OF assms, of started] by (simp split: list.split)
qed simp

lemma kahn_head:
  assumes "sort_key rank_of (ready_after specs started) = nxt # rest"
  shows "nxt \<in> set specs" and "ps_Name nxt \<notin> started" and "dep_names nxt \<subseteq> started"
    and "\<And>s. s \<in> set (ready_after specs started) \<Longrightarrow> rank_of nxt \<le> rank_of s"
proof -
  have st: "set (nxt # rest) = set (ready_after specs started)" using assms by (metis set_sort)
  then have "nxt \<in> set (ready_after specs started)" by auto
  then show "nxt \<in> set specs" "ps_Name nxt \<notin> started" "dep_names nxt \<subseteq> started" by (simp_all add: ready_after_def)
  have "sorted (map rank_of (nxt # rest))" using assms by (metis sorted_sort_key)
  then show "rank_of nxt \<le> rank_of s" if "s \<in> set (ready_after specs started)" for s
    using that st by auto
qed

lemma kahn_sound:
  "set (kahn k specs started) \<subseteq> set specs \<and> distinct (map ps_Name (kahn k specs started))
   \<and> ps_Name ` set (kahn k specs started) \<inter> started = {}
   \<and> (\<forall>i<length (kahn k specs started).
        dep_names (kahn k specs started ! i) \<subseteq> started \<union> ps_Name ` set (take i (kahn k specs started)))"
proof (induction k arbitrary: started)
  case (Suc k)
  show ?case
  proof (cases "sort_key rank_of (ready_after specs started)")
    case (Cons nxt rest)
    let ?ss = "kahn k specs (insert (ps_Name nxt) started)"
    note h = kahn_head [OF Cons] and ih = Suc.IH [of "insert (ps_Name nxt) started"]
    have "dep_names ((nxt # ?ss) ! i) \<subseteq> started \<union> ps_Name ` set (take i (nxt # ?ss))" if "i < Suc (length ?ss)" for i
    proof (cases i)
      case 0
      with h(3) show ?thesis by simp
    next
      case (Suc j)
      with ih that have "dep_names (?ss ! j) \<subseteq> insert (ps_Name nxt) started \<union> ps_Name ` set (take j ?ss)" by simp
      with Suc show ?thesis by auto
    qed
    with Cons h ih show ?thesis by auto
  qed simp
qed simp

text \<open>Whatever is started first among two specifications that were both ready is the lesser one.\<close>

definition greedy :: "string set \<Rightarrow> ProcessSpec list \<Rightarrow> bool" where
  "greedy started ss \<longleftrightarrow> (\<forall>i j. i < j \<longrightarrow> j < length ss \<longrightarrow>
     dep_names (ss ! j) \<subseteq> started \<union> ps_Name ` set (take i ss) \<longrightarrow> rank_of (ss ! i) \<le> rank_of (ss ! j))"

lemma kahn_greedy: "greedy started (kahn k specs started)"
proof (induction k arbitrary: started)
  case 0
  show ?case by (simp add: greedy_def)
next
  case (Suc k)
  show ?case
  proof (cases "sort_key rank_of (ready_after specs started)")
    case Nil
    then show ?thesis by (simp add: greedy_def)
  next
    case (Cons nxt rest)
    let ?ss = "kahn k specs (insert (ps_Name nxt) started)"
    note h = kahn_head [OF Cons] and ih = Suc.IH [of "insert (ps_Name nxt) started"]
      and snd = kahn_sound [of k specs "insert (ps_Name nxt) started"]
    have "rank_of ((nxt # ?ss) ! i) \<le> rank_of ((nxt # ?ss) ! j)"
      if "i < j" "j < Suc (length ?ss)" "dep_names ((nxt # ?ss) ! j) \<subseteq> started \<union> ps_Name ` set (take i (nxt # ?ss))" for i j
    proof (cases i)
      case 0
      from that(1,2) obtain l where l: "j = Suc l" "l < length ?ss" by (cases j) auto
      have m: "?ss ! l \<in> set ?ss" using l(2) by simp
      with snd have "?ss ! l \<in> set specs" "ps_Name (?ss ! l) \<notin> started" by auto
      with that(3) 0 l have "?ss ! l \<in> set (ready_after specs started)" by (simp add: ready_after_def)
      with h(4) 0 l show ?thesis by simp
    next
      case (Suc i')
      from that(1,2) Suc obtain l where l: "j = Suc l" "l < length ?ss" "i' < l" by (cases j) auto
      from that(3) Suc l have "dep_names (?ss ! l) \<subseteq> insert (ps_Name nxt) started \<union> ps_Name ` set (take i' ?ss)" by auto
      with ih l Suc show ?thesis by (auto simp: greedy_def)
    qed
    with Cons show ?thesis by (simp add: greedy_def)
  qed
qed

lemma kahn_length: "length (kahn k specs started) \<le> k"
  by (induction k arbitrary: started) (auto split: list.split)

text \<open>The reference stops early only when nothing is ready.\<close>

lemma kahn_stuck:
  "length (kahn k specs started) < k \<Longrightarrow> ready_after specs (started \<union> ps_Name ` set (kahn k specs started)) = []"
proof (induction k arbitrary: started)
  case (Suc k)
  show ?case
  proof (cases "sort_key rank_of (ready_after specs started)")
    case Nil
    then have "set (ready_after specs started) = {}" by (metis list.set(1) set_sort)
    with Nil show ?thesis by simp
  next
    case (Cons nxt rest)
    with Suc.IH [of "insert (ps_Name nxt) started"] Suc.prems show ?thesis by simp
  qed
qed simp

lemma kahn_complete:
  assumes "distinct (map ps_Name specs)" and "mset ss = mset specs" and "deps_first ss"
  shows "length (kahn (length specs) specs {}) = length specs"
proof (rule ccontr)
  let ?os = "kahn (length specs) specs {}"
  assume "length ?os \<noteq> length specs"
  with kahn_length [of "length specs" specs "{}"] have lt: "length ?os < length specs" by simp
  from kahn_stuck [OF lt] have none: "ready_after specs (ps_Name ` set ?os) = []" by simp
  have st: "set ss = set specs" using assms(2) by (metis set_mset_mset)
  have "ps_Name (ss ! i) \<in> ps_Name ` set ?os" if "i < length ss" for i
    using that
  proof (induction i rule: less_induct)
    case (less i)
    have "dep_names (ss ! i) \<subseteq> ps_Name ` set (take i ss)" using assms(3) less.prems by (simp add: deps_first_def)
    also have "\<dots> \<subseteq> ps_Name ` set ?os"
    proof
      fix n assume "n \<in> ps_Name ` set (take i ss)"
      then obtain j where "j < i" "n = ps_Name (ss ! j)" using less.prems by (auto simp: in_set_conv_nth)
      with less.IH [OF \<open>j < i\<close>] less.prems show "n \<in> ps_Name ` set ?os" by (simp only: less_trans)
    qed
    finally have "dep_names (ss ! i) \<subseteq> ps_Name ` set ?os" .
    moreover have "ss ! i \<in> set specs" unfolding st [symmetric] using less.prems by (rule nth_mem)
    ultimately show ?case using none by (auto simp: ready_after_def filter_empty_conv)
  qed
  then have "ps_Name ` set specs \<subseteq> ps_Name ` set ?os" unfolding st [symmetric] by (auto simp: in_set_conv_nth)
  then have "card (ps_Name ` set specs) \<le> card (ps_Name ` set ?os)" by (intro card_mono) auto
  also have "\<dots> \<le> length ?os" by (rule le_trans [OF card_image_le card_length]) simp
  finally show False using lt distinct_card [OF assms(1)] by simp
qed

text \<open>
  C3: Processes start in a dependency order whenever there is one. For specifications with distinct
  names \<^verbatim>\<open>StartupOrder\<close> succeeds exactly when some order of them starts every process after all
  those it depends on, that is, when no dependency is missing or circular; the order it returns lists
  every process once, each after what it depends on, and among processes that were ready at the
  same time the one with the lower priority number (then name) comes first.
\<close>

theorem startup_order_exact:
  assumes "distinct (map ps_Name specs)"
  shows "((\<exists>order. StartupOrder specs = Inr order) \<longleftrightarrow> (\<exists>ss. mset ss = mset specs \<and> deps_first ss))
    \<and> (\<forall>order. StartupOrder specs = Inr order \<longrightarrow>
         (\<exists>ss. order = map ps_ProcessID ss \<and> mset ss = mset specs \<and> deps_first ss \<and> greedy {} ss))"
proof -
  let ?os = "kahn (length specs) specs {}"
  note snd = kahn_sound [of "length specs" specs "{}"]
  have perm: "mset ?os = mset specs" if "length ?os = length specs"
  proof -
    have "distinct ?os" using snd by (simp add: distinct_map)
    moreover have "distinct specs" using assms by (simp add: distinct_map)
    moreover have "set ?os = set specs"
    proof (rule card_subset_eq)
      show "card (set ?os) = card (set specs)" using calculation that by (simp add: distinct_card)
    qed (use snd in auto)
    ultimately show ?thesis by (simp add: set_eq_iff_mset_eq_distinct)
  qed
  have first: "deps_first ?os" using snd by (simp add: deps_first_def)
  have gr: "greedy {} ?os" by (rule kahn_greedy)
  have ok: "\<exists>order. StartupOrder specs = Inr order" if "mset ss = mset specs" "deps_first ss" for ss
  proof -
    have st: "set ss = set specs" using that(1) by (metis set_mset_mset)
    have "(\<Union>s\<in>set specs. dep_names s) \<subseteq> ps_Name ` set specs"
      using that(2) unfolding st [symmetric]
      by (auto simp: deps_first_def in_set_conv_nth [of _ ss]) (meson image_mono in_mono set_take_subset)
    with kahn_complete [OF assms that] show ?thesis by (simp add: StartupOrder_ref [OF assms])
  qed
  have res: "\<exists>ss. order = map ps_ProcessID ss \<and> mset ss = mset specs \<and> deps_first ss \<and> greedy {} ss"
    if "StartupOrder specs = Inr order" for order
    using that perm first gr unfolding StartupOrder_ref [OF assms] Let_def by (auto split: if_splits)
  from ok res show ?thesis by blast
qed

text \<open>
  C33: The start-up order is canonical: it depends on the specifications and not on the order in which
  they are listed, and so does a refusal.
\<close>

theorem startup_order_canonical:
  assumes "distinct (map ps_Name specs)" and "mset specs = mset specs'"
  shows "StartupOrder specs = StartupOrder specs'"
proof -
  have "distinct (map ps_Name specs')" using assms by (metis mset_eq_imp_distinct_iff mset_map)
  moreover have "set specs = set specs'" "length specs = length specs'" using assms(2) by (metis set_mset_mset, metis size_mset)
  ultimately show ?thesis
    unfolding StartupOrder_ref [OF assms(1)] using kahn_cong [OF assms] by (simp add: StartupOrder_ref)
qed

section \<open>Two services\<close>

definition plain_spec :: "string \<Rightarrow> int \<Rightarrow> string list \<Rightarrow> ProcessSpec" where
  "plain_spec n p ds = \<lparr>ps_ProcessID = n, ps_Name = n, ps_OwnerAgentID = [], ps_Group = [], ps_Command = ''x'', ps_Args = [],
     ps_WorkingDirectory = [], ps_RunAsUser = [], ps_Environment = [], ps_Instances = 1,
     ps_Restart = \<lparr>rs_Mode = RestartAlways, rs_MaxRetries = 3, rs_RetryWindow = 60 * nanos,
       rs_Backoff = \<lparr>bo_Initial = 0, bo_Max = 0, bo_Multiplier = 0\<rparr>\<rparr>,
     ps_Health = \<lparr>hc_Type = [], hc_URL = [], hc_Method = [], hc_ExpectedStatus = 0, hc_Address = [], hc_Command = [],
       hc_Args = [], hc_InitialDelay = 0, hc_Interval = 0, hc_Timeout = 0, hc_FailureThreshold = 0, hc_SuccessThreshold = 0,
       hc_RestartOnFailure = False, hc_RestartCooldown = 0\<rparr>,
     ps_Log = zero_log_policy, ps_Resources = \<lparr>rl_CPUQuotaMillis = 0, rl_MemoryBytes = 0, rl_OpenFiles = 0\<rparr>,
     ps_StartupPriority = p, ps_Dependencies = map (\<lambda>d. \<lparr>dep_ProcessName = d, dep_Condition = DepUnset\<rparr>) ds,
     ps_Autostart = True, ps_StopSignal = [], ps_StopTimeout = 0, ps_KillSignal = [], ps_LatestRevision = 1,
     ps_CreatedAt = 0, ps_UpdatedAt = 0\<rparr>"

definition two_services :: "ProcessSpec list" where
  "two_services = [plain_spec ''web'' 0 [''db''], plain_spec ''db'' 5 []]"

theorem startup_order_witness:
  "\<exists>ss. StartupOrder two_services = Inr (map ps_ProcessID ss) \<and> mset ss = mset two_services \<and> deps_first ss"
proof -
  have d: "distinct (map ps_Name two_services)" by (simp add: two_services_def plain_spec_def)
  have "mset [plain_spec ''db'' 5 [], plain_spec ''web'' 0 [''db'']] = mset two_services
      \<and> deps_first [plain_spec ''db'' 5 [], plain_spec ''web'' 0 [''db'']]"
    by (auto simp: two_services_def deps_first_def plain_spec_def dep_names_def less_Suc_eq)
  with startup_order_exact [OF d] show ?thesis by blast
qed

theorem startup_canonical_witness:
  "rev two_services \<noteq> two_services \<and> StartupOrder (rev two_services) = StartupOrder two_services"
proof -
  have d: "distinct (map ps_Name (rev two_services))" and m: "mset (rev two_services) = mset two_services"
    by (simp_all add: two_services_def plain_spec_def)
  from startup_order_canonical [OF d m] show ?thesis by (simp add: two_services_def plain_spec_def)
qed

end
