(* ===== verification/Process_Validate.thy ===== *)
theory Process_Validate imports Process_Types "HOL-Library.Sublist"
begin

text \<open>
  The checks on a specification (\<^verbatim>\<open>process/validate.go\<close>) and on a log directory
  (\<^verbatim>\<open>logmgr/paths.go\<close>), with the lexical path functions of \<^verbatim>\<open>path/filepath\<close> on Unix they use.
\<close>

section \<open>Paths\<close>

text \<open>\<^verbatim>\<open>strings.Split(p, "/")\<close>\<close>

fun split_slash :: "string \<Rightarrow> string list" where
  "split_slash [] = [[]]"
| "split_slash (c # cs) =
    (if c = CHR ''/'' then [] # split_slash cs
     else case split_slash cs of [] \<Rightarrow> [[c]] | w # ws \<Rightarrow> (c # w) # ws)"

fun join_slash :: "string list \<Rightarrow> string" where
  "join_slash [] = []"
| "join_slash [w] = w"
| "join_slash (w # ws) = w @ ''/'' @ join_slash ws"

definition IsAbs :: "string \<Rightarrow> bool" where
  "IsAbs p \<longleftrightarrow> p \<noteq> [] \<and> hd p = CHR ''/''"

text \<open>One element of the path; the stack holds the cleaned elements, the last one first.\<close>

definition clean_step :: "bool \<Rightarrow> string \<Rightarrow> string list \<Rightarrow> string list" where
  "clean_step rooted w stack =
    (if w = [] \<or> w = ''.'' then stack
     else if w = ''..'' then
       (if stack \<noteq> [] \<and> hd stack \<noteq> ''..'' then tl stack
        else if \<not> rooted then ''..'' # stack else stack)
     else w # stack)"

definition path_elems :: "string \<Rightarrow> string list" where
  "path_elems p = rev (fold (clean_step (IsAbs p)) (split_slash p) [])"

definition Clean :: "string \<Rightarrow> string" where
  "Clean p =
    (if IsAbs p then CHR ''/'' # join_slash (path_elems p)
     else if path_elems p = [] then ''.'' else join_slash (path_elems p))"

text \<open>\<^verbatim>\<open>filepath.Rel\<close> for two paths; \<open>None\<close> is its error.\<close>

fun drop_common :: "string list \<Rightarrow> string list \<Rightarrow> string list \<times> string list" where
  "drop_common (b # bs) (t # ts) = (if b = t then drop_common bs ts else (b # bs, t # ts))"
| "drop_common bs ts = (bs, ts)"

definition Rel :: "string \<Rightarrow> string \<Rightarrow> string option" where
  "Rel base targ =
    (if Clean targ = Clean base then Some ''.''
     else if IsAbs base \<noteq> IsAbs targ then None
     else case drop_common (path_elems base) (path_elems targ) of (bs, ts) \<Rightarrow>
       if bs \<noteq> [] \<and> hd bs = ''..'' then None
       else Some (join_slash (map (\<lambda>_. ''..'') bs @ ts)))"

definition HasPrefix :: "string \<Rightarrow> string \<Rightarrow> bool" where
  "HasPrefix s p \<longleftrightarrow> prefix p s"

text \<open>\<^verbatim>\<open>first, _, _ := strings.Cut(s, "/")\<close>\<close>

definition cut_slash :: "string \<Rightarrow> string" where
  "cut_slash s = takeWhile (\<lambda>c. c \<noteq> CHR ''/'') s"

section \<open>Log directories\<close>

definition systemLogDirPrefixes :: "string list" where
  "systemLogDirPrefixes = [''/etc'', ''/usr'', ''/bin'', ''/sbin'', ''/lib'', ''/lib64'',
     ''/boot'', ''/dev'', ''/proc'', ''/sys'', ''/root'']"

definition agentInternalNames :: "string list" where
  "agentInternalNames = [''store.db'', ''raft'', ''cluster'', ''runtime'', ''shim'']"

definition ValidateDirectory :: "string \<Rightarrow> string \<Rightarrow> goerror option" where
  "ValidateDirectory dir dataRoot =
    (if dir = [] then None
     else
      (let clean = Clean dir in
       if \<not> IsAbs clean \<or> clean = ''.''
         then Some (E INVALID ''log path: directory must be an absolute path'')
       else if clean = ''/'' then Some (E INVALID ''log path: directory must not be /'')
       else case find (\<lambda>p. clean = p \<or> HasPrefix clean (p @ ''/'')) systemLogDirPrefixes of
           Some p \<Rightarrow> Some (E INVALID (''log path: directory is not allowed under '' @ p))
         | None \<Rightarrow>
             if dataRoot = [] then None
             else case Rel (Clean dataRoot) clean of
                 None \<Rightarrow> None
               | Some rel \<Rightarrow>
                   if rel = ''..'' \<or> HasPrefix rel ''../'' then None
                   else if cut_slash rel \<in> set agentInternalNames
                     then Some (E INVALID
                       ''log path: directory must not point at Agent internal data (store.db, raft, cluster, runtime, shim)'')
                   else None))"

section \<open>Specifications\<close>

text \<open>\<^verbatim>\<open>^[a-zA-Z][a-zA-Z0-9_-]{0,62}$\<close>\<close>

definition nameRE_match :: "string \<Rightarrow> bool" where
  "nameRE_match s \<longleftrightarrow> (case s of [] \<Rightarrow> False
     | c # cs \<Rightarrow> is_alpha c \<and> length cs \<le> 62
         \<and> list_all (\<lambda>d. is_alpha d \<or> is_digit d \<or> d = CHR ''_'' \<or> d = CHR ''-'') cs)"

definition ValidateSpec :: "ProcessSpec \<Rightarrow> goerror option" where
  "ValidateSpec s =
    (if ps_Name s = [] \<or> \<not> nameRE_match (ps_Name s) then Some (E INVALID ''name'')
     else if ps_Command s = [] then Some (E INVALID ''command'')
     else if ps_Instances s < 1 then Some (E INVALID ''instances'')
     else if has_dup (map dep_ProcessName (ps_Dependencies s)) then Some (E INVALID ''duplicate dependency'')
     else if rs_MaxRetries (ps_Restart s) > 0 \<and> rs_RetryWindow (ps_Restart s) = 0
       then Some (E INVALID ''retry window'')
     else if bo_Multiplier (rs_Backoff (ps_Restart s)) \<noteq> 0 \<and> bo_Multiplier (rs_Backoff (ps_Restart s)) < 1
       then Some (E INVALID ''backoff multiplier'')
     else
      (let g = TrimSpace (ps_Group s) in
       if g \<noteq> [] \<and> \<not> name64_match g then Some (E INVALID ''group'')
       else ValidateDirectory (lp_Directory (ps_Log s)) []))"

section \<open>Cleaned paths\<close>

lemma split_slash_nonempty: "split_slash p \<noteq> []"
  by (induction p) (auto split: list.split)

lemma split_slash_elems: "w \<in> set (split_slash p) \<Longrightarrow> CHR ''/'' \<notin> set w"
proof (induction p arbitrary: w)
  case (Cons c cs)
  then show ?case by (cases "split_slash cs") (auto split: if_splits)
qed simp

definition plain_elem :: "string \<Rightarrow> bool" where
  "plain_elem w \<longleftrightarrow> w \<noteq> [] \<and> w \<noteq> ''.'' \<and> w \<noteq> ''..'' \<and> CHR ''/'' \<notin> set w"

lemma clean_step_plain:
  "list_all plain_elem stack \<Longrightarrow> CHR ''/'' \<notin> set w \<Longrightarrow> list_all plain_elem (clean_step True w stack)"
  by (cases stack) (auto simp: clean_step_def plain_elem_def)

lemma fold_clean_plain:
  "list_all plain_elem stack \<Longrightarrow> (\<And>w. w \<in> set ws \<Longrightarrow> CHR ''/'' \<notin> set w) \<Longrightarrow>
   list_all plain_elem (fold (clean_step True) ws stack)"
  by (induction ws arbitrary: stack) (simp_all add: clean_step_plain)

lemma path_elems_plain: "IsAbs p \<Longrightarrow> list_all plain_elem (path_elems p)"
  using fold_clean_plain [of "[]" "split_slash p"] split_slash_elems [of _ p]
  by (simp add: path_elems_def)

lemma IsAbs_Clean: "IsAbs (Clean p) \<longleftrightarrow> IsAbs p"
proof (cases "IsAbs p")
  case False
  have "list_all (\<lambda>w. w \<noteq> [] \<and> CHR ''/'' \<notin> set w) (fold (clean_step False) ws stack)"
    if "list_all (\<lambda>w. w \<noteq> [] \<and> CHR ''/'' \<notin> set w) stack" "\<And>w. w \<in> set ws \<Longrightarrow> CHR ''/'' \<notin> set w" for ws stack
    using that
  proof (induction ws arbitrary: stack)
    case (Cons w ws)
    have "list_all (\<lambda>w. w \<noteq> [] \<and> CHR ''/'' \<notin> set w) (clean_step False w stack)"
      using Cons.prems by (cases stack) (auto simp: clean_step_def)
    with Cons show ?case by simp
  qed simp
  from this [of "[]" "split_slash p"] split_slash_elems [of _ p] False
  have *: "list_all (\<lambda>w. w \<noteq> [] \<and> CHR ''/'' \<notin> set w) (path_elems p)" by (simp add: path_elems_def)
  have "\<not> IsAbs (join_slash ws)" if "list_all (\<lambda>w. w \<noteq> [] \<and> CHR ''/'' \<notin> set w) ws" for ws
    using that by (induction ws rule: join_slash.induct) (auto simp: IsAbs_def hd_append neq_Nil_conv)
  with * False show ?thesis by (auto simp: Clean_def IsAbs_def)
qed (simp add: Clean_def IsAbs_def)

lemma split_slash_word: "CHR ''/'' \<notin> set w \<Longrightarrow> split_slash w = [w]"
  by (induction w) auto

lemma split_slash_append: "CHR ''/'' \<notin> set w \<Longrightarrow> split_slash (w @ CHR ''/'' # s) = w # split_slash s"
  by (induction w) auto

lemma split_join: "ws \<noteq> [] \<Longrightarrow> list_all (\<lambda>w. CHR ''/'' \<notin> set w) ws \<Longrightarrow> split_slash (join_slash ws) = ws"
  by (induction ws rule: join_slash.induct) (simp_all add: split_slash_word split_slash_append)

lemma fold_clean_id: "list_all plain_elem ws \<Longrightarrow> fold (clean_step r) ws stack = rev ws @ stack"
  by (induction ws arbitrary: stack) (auto simp: clean_step_def plain_elem_def)

lemma path_elems_join:
  assumes "list_all plain_elem es"
  shows "path_elems (CHR ''/'' # join_slash es) = es"
proof -
  have s: "split_slash (join_slash es) = (if es = [] then [[]] else es)"
  proof (cases "es = []")
    case False
    have "list_all (\<lambda>w. CHR ''/'' \<notin> set w) es" using assms by (simp add: list_all_iff plain_elem_def)
    from split_join [OF False this] False show ?thesis by simp
  qed simp
  show ?thesis
  proof (cases "es = []")
    case True
    then show ?thesis by (simp add: path_elems_def IsAbs_def clean_step_def)
  next
    case False
    have "fold (clean_step True) ([] # es) [] = rev es"
      using fold_clean_id [OF assms, of True "[]"] by (simp add: clean_step_def)
    with False show ?thesis by (simp add: path_elems_def IsAbs_def s)
  qed
qed

lemma path_elems_Clean: "IsAbs p \<Longrightarrow> path_elems (Clean p) = path_elems p"
  by (simp add: Clean_def path_elems_join path_elems_plain)

lemma Clean_Clean: "IsAbs p \<Longrightarrow> Clean (Clean p) = Clean p"
  by (simp only: Clean_def [of "Clean p"] IsAbs_Clean path_elems_Clean) (simp add: Clean_def)

lemma join_slash_Cons: "join_slash (w # ws) = (if ws = [] then w else w @ ''/'' @ join_slash ws)"
  by (cases ws) auto

lemma under_system: "clean = CHR ''/'' # join_slash (w # ws) \<Longrightarrow> clean = CHR ''/'' # w \<or> HasPrefix clean ((CHR ''/'' # w) @ ''/'')"
  by (auto simp: join_slash_Cons HasPrefix_def)

lemma cut_join: "CHR ''/'' \<notin> set w \<Longrightarrow> cut_slash (join_slash (w # ws)) = w"
  unfolding cut_slash_def join_slash_Cons
  by (auto simp: takeWhile_append takeWhile_eq_all_conv)

lemma drop_common_append: "drop_common bs (bs @ ts) = ([], ts)"
  by (induction bs) (cases ts; simp)+

lemma rel_inside:
  assumes "IsAbs base" and "IsAbs targ" and "path_elems targ = path_elems base @ x # rest"
  shows "Rel base targ = Some (join_slash (x # rest))"
proof -
  have "path_elems (Clean targ) \<noteq> path_elems (Clean base)" using assms by (simp add: path_elems_Clean)
  then have "Clean targ \<noteq> Clean base" by metis
  with assms show ?thesis by (simp add: Rel_def drop_common_append)
qed

lemma join_not_up:
  assumes "plain_elem x"
  shows "join_slash (x # rest) \<noteq> ''..'' \<and> \<not> HasPrefix (join_slash (x # rest)) ''../''"
proof -
  have s: "CHR ''/'' \<notin> set x" and up: "x \<noteq> ''..''" using assms by (simp_all add: plain_elem_def)
  have c: "cut_slash (join_slash (x # rest)) = x" by (rule cut_join [OF s])
  have "cut_slash ''..'' = ''..''" by (simp add: cut_slash_def)
  moreover have "cut_slash p = ''..''" if "HasPrefix p ''../''" for p
    using that by (auto simp: HasPrefix_def prefix_def cut_slash_def)
  ultimately show ?thesis using c up by metis
qed

text \<open>
  A log directory cannot be smuggled into a protected place. If \<^verbatim>\<open>ValidateDirectory\<close> accepts a
  directory, its cleaned form is an absolute path below the root without empty, \<^verbatim>\<open>.\<close> or
  \<^verbatim>\<open>..\<close> elements, its first element is not one of the system directories, and if it lies below
  the data root (after resolving \<^verbatim>\<open>..\<close> and double slashes) the element that follows the root is
  none of the agent's internal names.
\<close>

theorem log_directory_safe:
  assumes "ValidateDirectory dir dataRoot = None" and "dir \<noteq> []"
  shows "\<exists>e es. Clean dir = CHR ''/'' # join_slash (e # es) \<and> path_elems dir = e # es \<and> list_all plain_elem (e # es)
    \<and> CHR ''/'' # e \<notin> set systemLogDirPrefixes
    \<and> (IsAbs dataRoot \<longrightarrow> (\<forall>x rest. path_elems dir = path_elems dataRoot @ x # rest \<longrightarrow> x \<notin> set agentInternalNames))"
proof -
  from assms have abs: "IsAbs dir" by (auto simp: ValidateDirectory_def Let_def IsAbs_Clean split: if_splits)
  note plain = path_elems_plain [OF abs]
  have "path_elems dir \<noteq> []"
  proof
    assume "path_elems dir = []"
    with abs have "Clean dir = ''/''" by (simp add: Clean_def)
    with assms show False by (simp add: ValidateDirectory_def IsAbs_def)
  qed
  then obtain e es where ees: "path_elems dir = e # es" by (cases "path_elems dir") auto
  have cl: "Clean dir = CHR ''/'' # join_slash (e # es)" using abs ees by (simp add: Clean_def)
  have "find (\<lambda>p. Clean dir = p \<or> HasPrefix (Clean dir) (p @ ''/'')) systemLogDirPrefixes = None"
    using assms abs IsAbs_Clean by (auto simp: ValidateDirectory_def Let_def split: if_splits option.splits)
  with under_system [OF cl] have sys: "CHR ''/'' # e \<notin> set systemLogDirPrefixes" by (auto simp: find_None_iff)
  have int: "x \<notin> set agentInternalNames"
    if r: "IsAbs dataRoot" and below: "path_elems dir = path_elems dataRoot @ x # rest" for x rest
  proof -
    from r have ne: "dataRoot \<noteq> []" by (auto simp: IsAbs_def)
    have "Rel (Clean dataRoot) (Clean dir) = Some (join_slash (x # rest))"
      by (rule rel_inside) (use r abs below in \<open>simp_all add: IsAbs_Clean path_elems_Clean\<close>)
    moreover have px: "plain_elem x" using plain below by simp
    ultimately have "cut_slash (join_slash (x # rest)) \<notin> set agentInternalNames"
      using assms abs ne join_not_up [OF px, of rest] IsAbs_Clean [of dir]
      by (auto simp: ValidateDirectory_def Let_def split: if_splits option.splits)
    with px show ?thesis by (simp add: cut_join plain_elem_def)
  qed
  from plain ees cl sys int show ?thesis by (intro exI [of _ e] exI [of _ es]) simp
qed

theorem log_directory_witness:
  "ValidateDirectory ''/data/logs//app/../web'' ''/data'' = None \<and> ''/etc'' \<in> set systemLogDirPrefixes
   \<and> (\<exists>e es. path_elems ''/data/logs//app/../web'' = e # es \<and> CHR ''/'' # e \<notin> set systemLogDirPrefixes)"
proof -
  have v: "ValidateDirectory ''/data/logs//app/../web'' ''/data'' = None"
    by (simp add: ValidateDirectory_def Clean_def IsAbs_def path_elems_def clean_step_def systemLogDirPrefixes_def
        HasPrefix_def Rel_def cut_slash_def agentInternalNames_def)
  from log_directory_safe [OF v] v show ?thesis by (auto simp: systemLogDirPrefixes_def)
qed

end
