(* ===== verification/Process_Store.thy ===== *)
theory Process_Store imports Process_Validate
begin

text \<open>
  The agent's local store (\<^verbatim>\<open>internal/store\<close>: \<^verbatim>\<open>spec.go\<close>, \<^verbatim>\<open>instance.go\<close>, \<^verbatim>\<open>journal.go\<close> over the
  tables of \<^verbatim>\<open>schema.sql\<close>). A table is a map from its primary key; a function of the store either
  commits or returns an error and leaves the tables as they are, as its transaction does. A row
  holds the decoded specification instead of its JSON text; errors of the database itself are
  added by the caller.
\<close>

record RevisionRow =
  rv_Operator :: string
  rv_Timestamp :: gtime
  rv_Diff :: string
  rv_Comment :: string
  rv_Spec :: ProcessSpec

datatype OpStatus = OpPending | OpRunning | OpSuccess | OpFailed | OpTimeout | OpUnknown | OpOther string

record Operation =
  op_OperationID :: string
  op_Operator :: string
  op_Target :: string
  op_Type :: string
  op_Status :: OpStatus
  op_Result :: "ProcessSpec option"
  op_Error :: string

record Store =
  st_specs :: "(string, ProcessSpec) gomap"
  st_revisions :: "(string \<times> int, RevisionRow) gomap"
  st_instances :: "(string, Instance) gomap"
  st_ops :: "(string, Operation) gomap"

definition empty_store :: Store where
  "empty_store = \<lparr>st_specs = [], st_revisions = [], st_instances = [], st_ops = []\<rparr>"

section \<open>Differences of specifications\<close>

fun join_sp :: "string list \<Rightarrow> string" where
  "join_sp [] = []"
| "join_sp [w] = w"
| "join_sp (w # ws) = w @ '' '' @ join_sp ws"

definition formatEnv :: "(string, string) gomap \<Rightarrow> string" where
  "formatEnv env = join_sp (map (\<lambda>k. k @ ''='' @ mget_or [] env k) (sort (map fst env)))"

definition diff_line :: "string \<Rightarrow> string \<Rightarrow> string \<Rightarrow> string" where
  "diff_line what old new =
    (if old = new then [] else ''-'' @ what @ '' '' @ old @ [CHR 0x0A] @ ''+'' @ what @ '' '' @ new @ [CHR 0x0A])"

definition SpecDiff :: "ProcessSpec \<Rightarrow> ProcessSpec \<Rightarrow> string" where
  "SpecDiff old new =
     diff_line ''command'' (ps_Command old) (ps_Command new)
     @ diff_line ''args'' (join_sp (ps_Args old)) (join_sp (ps_Args new))
     @ diff_line ''env'' (formatEnv (ps_Environment old)) (formatEnv (ps_Environment new))"

definition zero_spec :: ProcessSpec where
  "zero_spec = \<lparr>ps_ProcessID = [], ps_Name = [], ps_OwnerAgentID = [], ps_Group = [], ps_Command = [],
     ps_Args = [], ps_WorkingDirectory = [], ps_RunAsUser = [], ps_Environment = [], ps_Instances = 0,
     ps_Restart = \<lparr>rs_Mode = RestartUnset, rs_MaxRetries = 0, rs_RetryWindow = 0,
       rs_Backoff = \<lparr>bo_Initial = 0, bo_Max = 0, bo_Multiplier = 0\<rparr>\<rparr>,
     ps_Health = \<lparr>hc_Type = [], hc_URL = [], hc_Method = [], hc_ExpectedStatus = 0, hc_Address = [],
       hc_Command = [], hc_Args = [], hc_InitialDelay = 0, hc_Interval = 0, hc_Timeout = 0,
       hc_FailureThreshold = 0, hc_SuccessThreshold = 0, hc_RestartOnFailure = False, hc_RestartCooldown = 0\<rparr>,
     ps_Log = zero_log_policy, ps_Resources = \<lparr>rl_CPUQuotaMillis = 0, rl_MemoryBytes = 0, rl_OpenFiles = 0\<rparr>,
     ps_StartupPriority = 0, ps_Dependencies = [], ps_Autostart = False, ps_StopSignal = [],
     ps_StopTimeout = 0, ps_KillSignal = [], ps_LatestRevision = 0, ps_CreatedAt = time_zero,
     ps_UpdatedAt = time_zero\<rparr>"

section \<open>Specifications and their revisions\<close>

definition name_taken :: "string \<Rightarrow> string \<Rightarrow> Store \<Rightarrow> bool" where
  "name_taken processID name st \<longleftrightarrow> mex (\<lambda>p s. p \<noteq> processID \<and> ps_Name s = name) (st_specs st)"

text \<open>Writes the current row and inserts the revision row, which must not exist.\<close>

definition commit_spec :: "ProcessSpec \<Rightarrow> ProcessSpec \<Rightarrow> string \<Rightarrow> gtime \<Rightarrow> string \<Rightarrow> Store \<Rightarrow> goerror + Store" where
  "commit_spec old out operator now comment st =
    (let key = (ps_ProcessID out, ps_LatestRevision out) in
     if mhas (st_revisions st) key then Inl (Plain ''insert revision'')
     else Inr (st\<lparr>st_specs := mput (ps_ProcessID out) out (st_specs st),
            st_revisions := mput key \<lparr>rv_Operator = operator, rv_Timestamp = now, rv_Diff = SpecDiff old out,
              rv_Comment = comment, rv_Spec = out\<rparr> (st_revisions st)\<rparr>))"

definition PutSpec :: "gtime \<Rightarrow> ProcessSpec \<Rightarrow> int \<Rightarrow> string \<Rightarrow> string \<Rightarrow> Store \<Rightarrow> goerror + (ProcessSpec \<times> Store)" where
  "PutSpec now spec0 expectedRevision operator comment st =
    (let spec = ApplyDefaults spec0 in
     check (ValidateSpec spec)
     (if expectedRevision = 0 then
        (let out = spec\<lparr>ps_UpdatedAt := now, ps_LatestRevision := 1,
               ps_CreatedAt := (if ps_CreatedAt spec = time_zero then now else ps_CreatedAt spec)\<rparr> in
         if mhas (st_specs st) (ps_ProcessID out) \<or> name_taken (ps_ProcessID out) (ps_Name out) st
           then fail CONFLICT ''process already exists''
         else map_sum id (Pair out) (commit_spec zero_spec out operator now comment st))
      else
       (case mget (st_specs st) (ps_ProcessID spec) of
          None \<Rightarrow> fail NOT_FOUND ''process spec''
        | Some current \<Rightarrow>
            if ps_LatestRevision current \<noteq> expectedRevision then fail CONFLICT ''revision mismatch''
            else
             (let out = spec\<lparr>ps_UpdatedAt := now, ps_LatestRevision := ps_LatestRevision current + 1,
                    ps_CreatedAt := (if ps_CreatedAt spec = time_zero then ps_CreatedAt current
                                     else ps_CreatedAt spec)\<rparr> in
              if name_taken (ps_ProcessID out) (ps_Name out) st then fail CONFLICT ''name already exists''
              else map_sum id (Pair out) (commit_spec current out operator now comment st)))))"

definition GetSpec :: "string \<Rightarrow> Store \<Rightarrow> goerror + ProcessSpec" where
  "GetSpec processID st =
    (case mget (st_specs st) processID of None \<Rightarrow> fail NOT_FOUND ''process spec'' | Some s \<Rightarrow> Inr s)"

definition GetSpecByName :: "string \<Rightarrow> Store \<Rightarrow> goerror + ProcessSpec" where
  "GetSpecByName name st =
    (case find (\<lambda>s. ps_Name s = name) (mvals (st_specs st)) of
       None \<Rightarrow> fail NOT_FOUND ''process spec'' | Some s \<Rightarrow> Inr s)"

definition ListSpecs :: "Store \<Rightarrow> ProcessSpec list" where
  "ListSpecs st = sort_key ps_Name (mvals (st_specs st))"

definition DeleteSpec :: "string \<Rightarrow> int \<Rightarrow> Store \<Rightarrow> goerror + Store" where
  "DeleteSpec processID expectedRevision st =
    (case mget (st_specs st) processID of
       None \<Rightarrow> fail NOT_FOUND ''process spec''
     | Some s \<Rightarrow>
         if ps_LatestRevision s \<noteq> expectedRevision then fail CONFLICT ''revision mismatch''
         else Inr (st\<lparr>st_specs := mdel processID (st_specs st),
           st_revisions := mfilter (\<lambda>k _. fst k \<noteq> processID) (st_revisions st)\<rparr>))"

definition listRevisionRows :: "string \<Rightarrow> Store \<Rightarrow> (int \<times> RevisionRow) list" where
  "listRevisionRows processID st =
     sort_key fst (map (\<lambda>(k, r). (snd k, r)) (filter (\<lambda>(k, r). fst k = processID) (st_revisions st)))"

definition GetRevisionSpec :: "string \<Rightarrow> int \<Rightarrow> Store \<Rightarrow> goerror + ProcessSpec" where
  "GetRevisionSpec processID revn st =
    (case mget (st_revisions st) (processID, revn) of
       None \<Rightarrow> fail NOT_FOUND ''revision'' | Some r \<Rightarrow> Inr ((rv_Spec r)\<lparr>ps_LatestRevision := revn\<rparr>))"

text \<open>The payload keeps its process identifier: a revision row is written with that of its specification.\<close>

definition RollbackSpec :: "gtime \<Rightarrow> string \<Rightarrow> int \<Rightarrow> int \<Rightarrow> string \<Rightarrow> string \<Rightarrow> Store
    \<Rightarrow> goerror + (ProcessSpec \<times> Store)" where
  "RollbackSpec now processID toRevision expectedLatest operator comment st =
    (case mget (st_specs st) processID of
       None \<Rightarrow> fail NOT_FOUND ''process spec''
     | Some current \<Rightarrow>
         if ps_LatestRevision current \<noteq> expectedLatest then fail CONFLICT ''revision mismatch''
         else case mget (st_revisions st) (processID, toRevision) of
             None \<Rightarrow> fail NOT_FOUND ''revision''
           | Some r \<Rightarrow>
              (let out = (rv_Spec r)\<lparr>ps_LatestRevision := ps_LatestRevision current + 1, ps_UpdatedAt := now\<rparr> in
               if name_taken processID (ps_Name out) st then fail CONFLICT ''name already exists''
               else map_sum id (Pair out) (commit_spec current out operator now comment st)))"

section \<open>Instances\<close>

definition PutInstance :: "Instance \<Rightarrow> Store \<Rightarrow> goerror + Store" where
  "PutInstance inst st =
    (if in_InstanceID inst = [] then fail INVALID ''instance_id required''
     else Inr (st\<lparr>st_instances := mput (in_InstanceID inst) inst (st_instances st)\<rparr>))"

definition GetInstance :: "string \<Rightarrow> Store \<Rightarrow> goerror + Instance" where
  "GetInstance instanceID st =
    (case mget (st_instances st) instanceID of None \<Rightarrow> fail NOT_FOUND ''instance'' | Some i \<Rightarrow> Inr i)"

definition DeleteInstance :: "string \<Rightarrow> Store \<Rightarrow> goerror + Store" where
  "DeleteInstance instanceID st =
    (if instanceID = [] then fail INVALID ''instance_id required''
     else if \<not> mhas (st_instances st) instanceID then fail NOT_FOUND ''instance''
     else Inr (st\<lparr>st_instances := mdel instanceID (st_instances st)\<rparr>))"

definition ListInstances :: "string \<Rightarrow> Store \<Rightarrow> Instance list" where
  "ListInstances processID st =
     sort_key in_Ordinal (filter (\<lambda>i. in_ProcessID i = processID) (mvals (st_instances st)))"

section \<open>The operation journal\<close>

text \<open>\<^verbatim>\<open>BeginOperation\<close> with the fields \<^verbatim>\<open>StartOp\<close> sets: duplicate, status and error of the stored row.\<close>

definition StartOp :: "string \<Rightarrow> string \<Rightarrow> string \<Rightarrow> string \<Rightarrow> Store
    \<Rightarrow> goerror + (bool \<times> OpStatus \<times> string \<times> Store)" where
  "StartOp opID operator typ target st =
    (if opID = [] then fail INVALID ''operation_id required''
     else case mget (st_ops st) opID of
         Some op \<Rightarrow> Inr (True, op_Status op, op_Error op, st)
       | None \<Rightarrow>
          (let op = \<lparr>op_OperationID = opID, op_Operator = operator, op_Target = target, op_Type = typ,
                 op_Status = OpPending, op_Result = None, op_Error = []\<rparr>
           in Inr (False, op_Status op, op_Error op, st\<lparr>st_ops := mput opID op (st_ops st)\<rparr>)))"

definition validOpStatus :: "OpStatus \<Rightarrow> bool" where
  "validOpStatus status \<longleftrightarrow> status \<in> set [OpPending, OpRunning, OpSuccess, OpFailed, OpTimeout, OpUnknown]"

definition FinishOperation :: "string \<Rightarrow> OpStatus \<Rightarrow> ProcessSpec option \<Rightarrow> string \<Rightarrow> Store \<Rightarrow> goerror + Store" where
  "FinishOperation operationID status result errMsg st =
    (if \<not> validOpStatus status then fail INVALID ''invalid operation status''
     else case mget (st_ops st) operationID of
         None \<Rightarrow> fail NOT_FOUND ''operation''
       | Some op \<Rightarrow> Inr (st\<lparr>st_ops := mput operationID
             (op\<lparr>op_Status := status, op_Result := result, op_Error := errMsg\<rparr>) (st_ops st)\<rparr>))"

definition GetOp :: "string \<Rightarrow> Store \<Rightarrow> goerror + (OpStatus \<times> ProcessSpec option \<times> string)" where
  "GetOp operationID st =
    (case mget (st_ops st) operationID of
       None \<Rightarrow> fail NOT_FOUND ''operation'' | Some op \<Rightarrow> Inr (op_Status op, op_Result op, op_Error op))"

end
