(* ===== verification/Process_Health.thy ===== *)
theory Process_Health imports Process_Types
begin

text \<open>
  The thresholds of a health check (\<^verbatim>\<open>health.Tracker\<close> in \<^verbatim>\<open>internal/health/health.go\<close>). A probe is \<open>None\<close>
  when it succeeds. The probes themselves (HTTP, TCP, commands) are calls of the environment.
\<close>

record Tracker =
  tk_failNeed :: int
  tk_okNeed :: int
  tk_fails :: int
  tk_oks :: int
  tk_state :: HealthState

definition at_least_one :: "int \<Rightarrow> int" where
  "at_least_one n = (if n \<le> 0 then 1 else n)"

definition NewTracker :: "HealthCheckSpec \<Rightarrow> Tracker" where
  "NewTracker spec = \<lparr>tk_failNeed = at_least_one (hc_FailureThreshold spec),
     tk_okNeed = at_least_one (hc_SuccessThreshold spec), tk_fails = 0, tk_oks = 0, tk_state = HealthUnknown\<rparr>"

definition Observe :: "goerror option \<Rightarrow> Tracker \<Rightarrow> Tracker" where
  "Observe err t =
    (if err \<noteq> None then
       (let n = tk_fails t + 1 in t\<lparr>tk_fails := n, tk_oks := 0,
          tk_state := (if n \<ge> tk_failNeed t then HealthUnhealthy else tk_state t)\<rparr>)
     else
       (let n = tk_oks t + 1 in t\<lparr>tk_oks := n, tk_fails := 0,
          tk_state := (if n \<ge> tk_okNeed t then HealthHealthy else tk_state t)\<rparr>))"

definition SameThresholds :: "HealthCheckSpec \<Rightarrow> Tracker \<Rightarrow> bool" where
  "SameThresholds spec t \<longleftrightarrow> tk_failNeed t = at_least_one (hc_FailureThreshold spec)
     \<and> tk_okNeed t = at_least_one (hc_SuccessThreshold spec)"

section \<open>The state in terms of the probes\<close>

text \<open>How many of the latest probes in a row satisfy \<open>P\<close>; the probes are listed the latest first.\<close>

definition streak :: "('a \<Rightarrow> bool) \<Rightarrow> 'a list \<Rightarrow> nat" where
  "streak P ps = length (takeWhile P ps)"

abbreviation failed :: "goerror option \<Rightarrow> bool" where
  "failed p \<equiv> p \<noteq> None"

text \<open>The verdict after the probes: a run of enough failures or successes decides, a shorter one
  leaves the verdict before it.\<close>

fun verdict :: "nat \<Rightarrow> nat \<Rightarrow> goerror option list \<Rightarrow> HealthState" where
  "verdict f k [] = HealthUnknown"
| "verdict f k (p # ps) =
    (if f \<le> streak failed (p # ps) then HealthUnhealthy
     else if k \<le> streak (\<lambda>p. p = None) (p # ps) then HealthHealthy
     else verdict f k ps)"

definition observed_all :: "HealthCheckSpec \<Rightarrow> goerror option list \<Rightarrow> Tracker" where
  "observed_all spec ps = foldr Observe ps (NewTracker spec)"

definition fail_need :: "HealthCheckSpec \<Rightarrow> nat" where
  "fail_need spec = nat (at_least_one (hc_FailureThreshold spec))"

definition ok_need :: "HealthCheckSpec \<Rightarrow> nat" where
  "ok_need spec = nat (at_least_one (hc_SuccessThreshold spec))"

lemma need_pos: "0 < fail_need spec" "0 < ok_need spec"
  by (auto simp: fail_need_def ok_need_def at_least_one_def)

lemma tracker_counts:
  "observed_all spec ps = \<lparr>tk_failNeed = int (fail_need spec), tk_okNeed = int (ok_need spec),
     tk_fails = int (streak failed ps), tk_oks = int (streak (\<lambda>p. p = None) ps),
     tk_state = verdict (fail_need spec) (ok_need spec) ps\<rparr>"
proof (induction ps)
  case Nil
  show ?case by (simp add: observed_all_def NewTracker_def streak_def fail_need_def ok_need_def at_least_one_def)
next
  case (Cons p ps)
  with need_pos [of spec] show ?case by (cases p) (simp_all add: observed_all_def Observe_def streak_def)
qed

text \<open>
  A health verdict changes only on a full run of probes. After any sequence of probes the state
  of a tracker is UNHEALTHY if the latest probes hold at least \<^verbatim>\<open>FailureThreshold\<close> failures in a row,
  HEALTHY if they hold at least \<^verbatim>\<open>SuccessThreshold\<close> successes in a row, and otherwise what it was
  before the latest probe (thresholds below one count as one); a single stray probe changes
  nothing when its threshold is larger.
\<close>

theorem health_verdict_exact:
  "tk_state (foldr Observe ps (NewTracker spec)) = verdict (fail_need spec) (ok_need spec) ps
    \<and> SameThresholds spec (foldr Observe ps (NewTracker spec))"
  using tracker_counts [of spec ps]
  by (simp add: observed_all_def SameThresholds_def fail_need_def ok_need_def at_least_one_def)

end
