(* ===== verification/Effects.thy ===== *)
theory Effects imports Prelude "HOL-Library.State_Monad"
begin

text \<open>
  Operations with state and errors: a state monad whose results are an error or a value, the
  weakest precondition of a computation, and a locale that lifts an order on states that every
  primitive respects to whole computations.
\<close>

section \<open>Computations\<close>

type_synonym ('s, 'a) act = "('s, goerror + 'a) state"

abbreviation ret :: "'a \<Rightarrow> ('s, 'a) state" where
  "ret \<equiv> State_Monad.return"

abbreviation throw :: "goerror \<Rightarrow> ('s, 'a) act" where
  "throw e \<equiv> ret (Inl e)"

abbreviation ok :: "'a \<Rightarrow> ('s, 'a) act" where
  "ok v \<equiv> ret (Inr v)"

text \<open>\<^verbatim>\<open>v, err := c; if err != nil { return err }; f(v)\<close>\<close>

definition andthen :: "('s, 'a) act \<Rightarrow> ('a \<Rightarrow> ('s, 'b) act) \<Rightarrow> ('s, 'b) act" where
  "andthen c f = do { r \<leftarrow> c; case r of Inl e \<Rightarrow> throw e | Inr v \<Rightarrow> f v }"

text \<open>\<^verbatim>\<open>_ = c\<close>\<close>

definition ignoring :: "('s, 'a) state \<Rightarrow> ('s, 'b) state \<Rightarrow> ('s, 'b) state" where
  "ignoring c k = do { _ \<leftarrow> c; k }"

text \<open>A loop that returns at the first error.\<close>

fun each :: "('a \<Rightarrow> ('s, unit) act) \<Rightarrow> 'a list \<Rightarrow> ('s, unit) act" where
  "each f [] = ok ()"
| "each f (x # xs) = andthen (f x) (\<lambda>_. each f xs)"

text \<open>A loop that goes on after an error.\<close>

fun every :: "('a \<Rightarrow> ('s, 'b) act) \<Rightarrow> 'a list \<Rightarrow> ('s, unit) act" where
  "every f [] = ok ()"
| "every f (x # xs) = ignoring (f x) (every f xs)"

abbreviation gets :: "('s \<Rightarrow> 'a) \<Rightarrow> ('s, 'a) state" where
  "gets f \<equiv> State (\<lambda>s. (f s, s))"

abbreviation modify :: "('s \<Rightarrow> 's) \<Rightarrow> ('s, unit) state" where
  "modify f \<equiv> State (\<lambda>s. ((), f s))"

section \<open>Weakest preconditions\<close>

definition wp :: "('s, 'a) state \<Rightarrow> ('a \<Rightarrow> 's \<Rightarrow> bool) \<Rightarrow> 's \<Rightarrow> bool" where
  "wp c Q s = (case run_state c s of (r, t) \<Rightarrow> Q r t)"

lemma wp_State [simp]: "wp (State f) Q s = (case f s of (r, t) \<Rightarrow> Q r t)"
  by (simp add: wp_def)

lemma wp_ret [simp]: "wp (ret v) Q s = Q v s"
  by (simp add: wp_def)

lemma wp_bind [simp]: "wp (State_Monad.bind c f) Q s = wp c (\<lambda>v. wp (f v) Q) s"
  by (simp add: wp_def split: prod.split)

lemma wp_if [simp]: "wp (if b then c else d) Q s = (if b then wp c Q s else wp d Q s)"
  by simp

lemma wp_option [simp]:
  "wp (case x of None \<Rightarrow> c | Some v \<Rightarrow> f v) Q s = (case x of None \<Rightarrow> wp c Q s | Some v \<Rightarrow> wp (f v) Q s)"
  by (simp split: option.split)

lemma wp_sum [simp]:
  "wp (case x of Inl e \<Rightarrow> g e | Inr v \<Rightarrow> f v) Q s = (case x of Inl e \<Rightarrow> wp (g e) Q s | Inr v \<Rightarrow> wp (f v) Q s)"
  by (simp split: sum.split)

lemma wp_prod [simp]: "wp (case x of (a, b) \<Rightarrow> f a b) Q s = (case x of (a, b) \<Rightarrow> wp (f a b) Q s)"
  by (simp split: prod.split)

lemma wp_andthen [simp]:
  "wp (andthen c f) Q s = wp c (\<lambda>r t. case r of Inl e \<Rightarrow> Q (Inl e) t | Inr v \<Rightarrow> wp (f v) Q t) s"
  by (simp add: andthen_def wp_def split: prod.split sum.split)

lemma wp_ignoring [simp]: "wp (ignoring c k) Q s = wp c (\<lambda>_. wp k Q) s"
  by (simp add: ignoring_def)

lemma wp_mono: "wp c P s \<Longrightarrow> (\<And>v t. P v t \<Longrightarrow> Q v t) \<Longrightarrow> wp c Q s"
  by (auto simp: wp_def split: prod.splits)

lemma wp_conj: "wp c P s \<Longrightarrow> wp c R s \<Longrightarrow> (\<And>v t. P v t \<and> R v t \<Longrightarrow> Q v t) \<Longrightarrow> wp c Q s"
  by (auto simp: wp_def split: prod.splits)

lemma wp_True [simp]: "wp c (\<lambda>_ _. True) s"
  by (simp add: wp_def split: prod.split)

lemma wp_runI: "(\<And>v t. run_state c s = (v, t) \<Longrightarrow> Q v t) \<Longrightarrow> wp c Q s"
  by (simp add: wp_def split: prod.split)

lemma wp_runD: "wp c Q s \<Longrightarrow> run_state c s = (v, t) \<Longrightarrow> Q v t"
  by (simp add: wp_def)

lemma run_andthen [simp]:
  "run_state (andthen c f) s = (case run_state c s of (Inl e, t) \<Rightarrow> (Inl e, t) | (Inr v, t) \<Rightarrow> run_state (f v) t)"
  by (simp add: andthen_def split: prod.split sum.split)

lemma run_ignoring [simp]: "run_state (ignoring c k) s = run_state k (snd (run_state c s))"
  by (simp add: ignoring_def split: prod.split)

text \<open>Sequences of steps, with the fact \<open>R\<close> that one leaves for the next, or with an invariant \<open>I\<close>.\<close>

lemma wp_bindI: "wp c R s \<Longrightarrow> (\<And>v t. R v t \<Longrightarrow> wp (f v) Q t) \<Longrightarrow> wp (State_Monad.bind c f) Q s"
  unfolding wp_bind by (rule wp_mono)

lemma wp_andthenI:
  assumes "wp c R s" and "\<And>e t. R (Inl e) t \<Longrightarrow> Q (Inl e) t" and "\<And>v t. R (Inr v) t \<Longrightarrow> wp (f v) Q t"
  shows "wp (andthen c f) Q s"
  unfolding wp_andthen by (rule wp_mono [OF assms(1)]) (use assms(2,3) in \<open>auto split: sum.split\<close>)

lemma wp_bind_inv: "wp c (\<lambda>_. I) s \<Longrightarrow> (\<And>v t. I t \<Longrightarrow> wp (f v) (\<lambda>_. I) t) \<Longrightarrow> wp (State_Monad.bind c f) (\<lambda>_. I) s"
  by (rule wp_bindI)

lemma wp_andthen_inv: "wp c (\<lambda>_. I) s \<Longrightarrow> (\<And>v t. I t \<Longrightarrow> wp (f v) (\<lambda>_. I) t) \<Longrightarrow> wp (andthen c f) (\<lambda>_. I) s"
  by (rule wp_andthenI)

lemma wp_ignoring_inv: "wp c (\<lambda>_. I) s \<Longrightarrow> (\<And>t. I t \<Longrightarrow> wp k (\<lambda>_. I) t) \<Longrightarrow> wp (ignoring c k) (\<lambda>_. I) s"
  unfolding wp_ignoring by (rule wp_mono)

lemma wp_ifI: "(b \<Longrightarrow> wp c Q s) \<Longrightarrow> (\<not> b \<Longrightarrow> wp d Q s) \<Longrightarrow> wp (if b then c else d) Q s"
  by simp

lemma wp_optionI:
  "(x = None \<Longrightarrow> wp c Q s) \<Longrightarrow> (\<And>v. x = Some v \<Longrightarrow> wp (f v) Q s) \<Longrightarrow> wp (case x of None \<Rightarrow> c | Some v \<Rightarrow> f v) Q s"
  by (cases x) simp_all

lemma wp_sumI:
  "(\<And>e. x = Inl e \<Longrightarrow> wp (g e) Q s) \<Longrightarrow> (\<And>v. x = Inr v \<Longrightarrow> wp (f v) Q s) \<Longrightarrow>
   wp (case x of Inl e \<Rightarrow> g e | Inr v \<Rightarrow> f v) Q s"
  by (cases x) simp_all

lemma wp_retI: "Q v s \<Longrightarrow> wp (ret v) Q s"
  by simp

lemma wp_modifyI: "Q () (f s) \<Longrightarrow> wp (modify f) Q s"
  by simp

lemmas wp_branches = wp_ifI wp_optionI wp_sumI

lemmas wp_inv_rules = wp_branches wp_andthen_inv wp_bind_inv wp_ignoring_inv wp_retI wp_modifyI

text \<open>A loop whose invariant speaks of the elements that are left.\<close>

lemma wp_each_rest:
  assumes "\<And>x ys s. x \<in> set xs \<Longrightarrow> J (x # ys) s \<Longrightarrow> wp (f x) (\<lambda>r t. r = Inr () \<longrightarrow> J ys t) s" and "J xs s"
  shows "wp (each f xs) (\<lambda>r t. r = Inr () \<longrightarrow> J [] t) s"
  using assms
proof (induction xs arbitrary: s)
  case (Cons x xs)
  show ?case unfolding each.simps
  proof (rule wp_andthenI)
    show "wp (f x) (\<lambda>r t. r = Inr () \<longrightarrow> J xs t) s" by (rule Cons.prems(1)) (simp_all add: Cons.prems(2))
    show "wp (each f xs) (\<lambda>r t. r = Inr () \<longrightarrow> J [] t) t" if "Inr v = Inr () \<longrightarrow> J xs t" for v t
      by (rule Cons.IH) (use that Cons.prems in auto)
  qed simp
qed simp

text \<open>Loops, for a property of the states passed from one iteration to the next.\<close>

lemma wp_each:
  assumes "\<And>x s. x \<in> set xs \<Longrightarrow> I s \<Longrightarrow> wp (f x) (\<lambda>_. I) s" and "I s"
  shows "wp (each f xs) (\<lambda>_. I) s"
  using assms
proof (induction xs arbitrary: s)
  case (Cons x xs)
  have "wp (f x) (\<lambda>_. I) s" using Cons.prems by simp
  then have "wp (f x) (\<lambda>r t. case r of Inl e \<Rightarrow> I t | Inr v \<Rightarrow> wp (each f xs) (\<lambda>_. I) t) s"
    by (rule wp_mono) (use Cons in \<open>auto split: sum.split\<close>)
  then show ?case by simp
qed simp

lemma wp_every:
  assumes "\<And>x s. x \<in> set xs \<Longrightarrow> I s \<Longrightarrow> wp (f x) (\<lambda>_. I) s" and "I s"
  shows "wp (every f xs) (\<lambda>_. I) s"
  using assms
proof (induction xs arbitrary: s)
  case (Cons x xs)
  have "wp (f x) (\<lambda>_. I) s" using Cons.prems by simp
  then have "wp (f x) (\<lambda>_ t. wp (every f xs) (\<lambda>_. I) t) s"
    by (rule wp_mono) (use Cons in auto)
  then show ?case by simp
qed simp

section \<open>Relations between the states before and after\<close>

text \<open>A reflexive and transitive relation that every primitive respects is respected by every
  computation built from them.\<close>

locale effect_order =
  fixes le :: "'s \<Rightarrow> 's \<Rightarrow> bool"
  assumes le_refl: "le s s"
    and le_trans: "le s t \<Longrightarrow> le t u \<Longrightarrow> le s u"
begin

lemma io_ret: "state_io_rel le (ret v)"
  by (simp add: state_io_rel_def le_refl)

lemma io_bind: "state_io_rel le c \<Longrightarrow> (\<And>v. state_io_rel le (f v)) \<Longrightarrow> state_io_rel le (State_Monad.bind c f)"
  unfolding state_io_rel_def by (auto split: prod.split) (metis le_trans snd_conv)

lemma io_gets: "state_io_rel le (gets f)"
  by (simp add: state_io_rel_def le_refl)

lemma io_if: "state_io_rel le c \<Longrightarrow> state_io_rel le d \<Longrightarrow> state_io_rel le (if b then c else d)"
  by simp

lemma io_option: "state_io_rel le c \<Longrightarrow> (\<And>v. state_io_rel le (f v)) \<Longrightarrow>
    state_io_rel le (case x of None \<Rightarrow> c | Some v \<Rightarrow> f v)"
  by (cases x) simp_all

lemma io_sum: "(\<And>e. state_io_rel le (g e)) \<Longrightarrow> (\<And>v. state_io_rel le (f v)) \<Longrightarrow>
    state_io_rel le (case x of Inl e \<Rightarrow> g e | Inr v \<Rightarrow> f v)"
  by (cases x) simp_all

lemma io_prod: "(\<And>a b. state_io_rel le (f a b)) \<Longrightarrow> state_io_rel le (case x of (a, b) \<Rightarrow> f a b)"
  by (cases x) simp

lemma io_andthen: "state_io_rel le c \<Longrightarrow> (\<And>v. state_io_rel le (f v)) \<Longrightarrow> state_io_rel le (andthen c f)"
  unfolding andthen_def by (intro io_bind io_sum io_ret)

lemma io_ignoring: "state_io_rel le c \<Longrightarrow> state_io_rel le k \<Longrightarrow> state_io_rel le (ignoring c k)"
  unfolding ignoring_def by (intro io_bind)

lemma io_each: "(\<And>x. state_io_rel le (f x)) \<Longrightarrow> state_io_rel le (each f xs)"
  by (induction xs) (auto intro: io_ret io_andthen)

lemma io_every: "(\<And>x. state_io_rel le (f x)) \<Longrightarrow> state_io_rel le (every f xs)"
  by (induction xs) (auto intro: io_ret io_ignoring)

lemmas io_intros = io_ret io_bind io_gets io_if io_option io_sum io_prod io_andthen io_ignoring io_each io_every

end

end
