(* ===== verification/Process_Host.thy ===== *)
theory Process_Host imports Process_Store Process_Health Effects
begin

text \<open>
  What the process manager sees of the machine it runs on. The manager is sequential under its
  mutex; every system call, clock reading, call to a shim and database access is a question to the
  host, whose answer may depend on everything asked before. The questions and answers of a run are
  kept in the state, the latest first, so that a property can speak about them. The field
  \<^verbatim>\<open>clients\<close> of the manager is left out: nothing is ever stored in it.
\<close>

section \<open>Messages to a shim (proto/shim)\<close>

record ShimStatus =
  ss_Pid :: int
  ss_Alive :: bool
  ss_ExitCode :: int

record StartRequest =
  sr_Command :: string
  sr_Args :: "string list"
  sr_Env :: "(string, string) gomap"
  sr_Cwd :: string
  sr_RunAsUser :: string
  sr_StdoutPath :: string
  sr_StderrPath :: string

record StartResponse =
  sp_Pid :: int
  sp_Error :: string

record StopRequest =
  so_Signal :: string
  so_TimeoutMs :: int
  so_KillSignal :: string

record StopResponse =
  sx_ExitCode :: int
  sx_Error :: string

record RotatePolicy =
  rp_MaxSize :: int
  rp_MaxFiles :: int
  rp_MaxAge :: int
  rp_Compress :: bool

section \<open>Questions, the state of the manager and the host\<close>

datatype io =
    IoTime gtime
  | IoAlive int bool
  | IoSocket string bool
  | IoStatus string "goerror + ShimStatus"
  | IoLaunch string string "goerror + int"
  | IoStart string StartRequest "goerror + StartResponse"
  | IoStop string StopRequest "goerror + StopResponse"
  | IoCheck HealthCheckSpec int "goerror option"
  | IoOthers
  | IoUser string "goerror option"
  | IoLookPath "goerror + string"
  | IoPrepare "string list" "goerror option"
  | IoWrites bool
  | IoWriteRuntime string int int string "goerror option"
  | IoReadRuntime string "(int \<times> int) option"
  | IoLimit int ResourceLimit bool
  | IoAudit string string string string string
  | IoRotate string RotatePolicy gtime "goerror option"
  | IoDiscover "goerror + string list"
  | IoRandom "goerror + string"
  | IoDb "goerror option"

record Manager =
  mg_Store :: Store
  mg_failures :: "(string, gtime list) gomap"
  mg_nextTry :: "(string, gtime) gomap"
  mg_healthTrackers :: "(string, Tracker) gomap"
  mg_lastHealthCheck :: "(string, gtime) gomap"
  mg_lastHealthRestart :: "(string, gtime) gomap"
  mg_lastShimCheck :: "(string, gtime) gomap"
  mg_io :: "io list"

record Layout =
  ly_Root :: string
  ly_ShimDir :: string
  ly_LogDir :: string
  ly_RuntimeDir :: string

record Host =
  h_layout :: Layout
  h_shim_bin :: string
  h_has_lookup :: bool
  h_has_logs :: bool
  h_boot_id :: string
  h_float :: float_ops
  h_not_exist :: "goerror \<Rightarrow> bool"
  h_now :: "io list \<Rightarrow> gtime"
  h_log_now :: "io list \<Rightarrow> gtime option"
  h_alive :: "io list \<Rightarrow> int \<Rightarrow> bool"
  h_socket :: "io list \<Rightarrow> string \<Rightarrow> bool"
  h_reconnect :: "io list \<Rightarrow> string \<Rightarrow> goerror + ShimStatus"
  h_launch :: "io list \<Rightarrow> string \<Rightarrow> string \<Rightarrow> goerror + int"
  h_start :: "io list \<Rightarrow> string \<Rightarrow> StartRequest \<Rightarrow> goerror + StartResponse"
  h_stop :: "io list \<Rightarrow> string \<Rightarrow> StopRequest \<Rightarrow> goerror + StopResponse"
  h_check :: "io list \<Rightarrow> HealthCheckSpec \<Rightarrow> int \<Rightarrow> goerror option"
  h_others :: "Manager \<Rightarrow> Manager"
  h_user :: "io list \<Rightarrow> string \<Rightarrow> goerror option"
  h_look_path :: "io list \<Rightarrow> goerror + string"
  h_prepare :: "io list \<Rightarrow> string list \<Rightarrow> goerror option"
  h_writes :: "io list \<Rightarrow> bool"
  h_write_runtime :: "io list \<Rightarrow> string \<Rightarrow> goerror option"
  h_read_runtime :: "io list \<Rightarrow> string \<Rightarrow> (int \<times> int) option"
  h_limit :: "io list \<Rightarrow> int \<Rightarrow> ResourceLimit \<Rightarrow> bool"
  h_rotate :: "io list \<Rightarrow> string \<Rightarrow> RotatePolicy \<Rightarrow> gtime \<Rightarrow> goerror option"
  h_discover :: "io list \<Rightarrow> string \<Rightarrow> goerror + string list"
  h_random :: "io list \<Rightarrow> goerror + string"
  h_db :: "io list \<Rightarrow> goerror option"

type_synonym 'a run = "(Manager, 'a) state"
type_synonym 'a attempt = "(Manager, 'a) act"

section \<open>Asking the host\<close>

definition ask :: "(io list \<Rightarrow> 'r) \<Rightarrow> ('r \<Rightarrow> io) \<Rightarrow> 'r run" where
  "ask f ev = State (\<lambda>m. let r = f (mg_io m) in (r, m\<lparr>mg_io := ev r # mg_io m\<rparr>))"

lemma wp_ask [simp]:
  "wp (ask f ev) Q m = Q (f (mg_io m)) (m\<lparr>mg_io := ev (f (mg_io m)) # mg_io m\<rparr>)"
  by (simp add: ask_def Let_def)

lemma run_ask [simp]: "run_state (ask f ev) m = (f (mg_io m), m\<lparr>mg_io := ev (f (mg_io m)) # mg_io m\<rparr>)"
  by (simp add: ask_def Let_def)

text \<open>\<^verbatim>\<open>a && b\<close> with a call in \<open>b\<close>.\<close>

definition conj_io :: "bool run \<Rightarrow> bool run \<Rightarrow> bool run" where
  "conj_io a b = do { x \<leftarrow> a; if x then b else ret False }"

lemma wp_conj_io [simp]: "wp (conj_io a b) Q m = wp a (\<lambda>x m'. if x then wp b Q m' else Q False m') m"
  by (simp add: conj_io_def wp_def split: prod.split)

lemma run_conj_io [simp]:
  "run_state (conj_io a b) m = (case run_state a m of (x, m') \<Rightarrow> if x then run_state b m' else (False, m'))"
  by (simp add: conj_io_def split: prod.split)

definition no_error :: "goerror option \<Rightarrow> unit attempt" where
  "no_error e = (case e of None \<Rightarrow> ok () | Some x \<Rightarrow> throw x)"

lemma wp_no_error [simp]: "wp (no_error e) Q m = (case e of None \<Rightarrow> Q (Inr ()) m | Some x \<Rightarrow> Q (Inl x) m)"
  by (simp add: no_error_def split: option.split)

lemma run_no_error [simp]: "run_state (no_error e) m = (case e of None \<Rightarrow> (Inr (), m) | Some x \<Rightarrow> (Inl x, m))"
  by (simp add: no_error_def split: option.split)

definition now :: "Host \<Rightarrow> gtime run" where
  "now H = ask (h_now H) IoTime"

definition pidAlive :: "Host \<Rightarrow> int \<Rightarrow> bool run" where
  "pidAlive H pid = (if pid \<le> 0 then ret False else ask (\<lambda>l. h_alive H l pid) (IoAlive pid))"

definition socketExists :: "Host \<Rightarrow> string \<Rightarrow> bool run" where
  "socketExists H sock = ask (\<lambda>l. h_socket H l sock) (IoSocket sock)"

definition Reconnect :: "Host \<Rightarrow> string \<Rightarrow> ShimStatus attempt" where
  "Reconnect H sock = ask (\<lambda>l. h_reconnect H l sock) (IoStatus sock)"

definition Launch :: "Host \<Rightarrow> string \<Rightarrow> string \<Rightarrow> int attempt" where
  "Launch H sock instanceID = ask (\<lambda>l. h_launch H l sock instanceID) (IoLaunch sock instanceID)"

definition shim_Start :: "Host \<Rightarrow> string \<Rightarrow> StartRequest \<Rightarrow> (goerror + StartResponse) run" where
  "shim_Start H sock req = ask (\<lambda>l. h_start H l sock req) (IoStart sock req)"

definition shim_Stop :: "Host \<Rightarrow> string \<Rightarrow> StopRequest \<Rightarrow> StopResponse attempt" where
  "shim_Stop H sock req = ask (\<lambda>l. h_stop H l sock req) (IoStop sock req)"

text \<open>A probe runs without the mutex: other passes may change the manager meanwhile. The record of
  questions is that of the pass itself.\<close>

definition health_Check :: "Host \<Rightarrow> HealthCheckSpec \<Rightarrow> int \<Rightarrow> goerror option run" where
  "health_Check H spec pid = do {
     err \<leftarrow> ask (\<lambda>l. h_check H l spec pid) (IoCheck spec pid);
     State (\<lambda>m. (err, (h_others H m)\<lparr>mg_io := IoOthers # mg_io m\<rparr>)) }"

definition audit :: "Host \<Rightarrow> string \<Rightarrow> string \<Rightarrow> string \<Rightarrow> string \<Rightarrow> string \<Rightarrow> unit run" where
  "audit H resource action opID operator result = ask (\<lambda>_. ()) (\<lambda>_. IoAudit resource action opID operator result)"

section \<open>The store behind the manager\<close>

text \<open>Any access to the database may fail.\<close>

definition db :: "Host \<Rightarrow> 'a attempt \<Rightarrow> 'a attempt" where
  "db H c = do { e \<leftarrow> ask (h_db H) IoDb; case e of Some err \<Rightarrow> throw err | None \<Rightarrow> c }"

definition store_read :: "(Store \<Rightarrow> 'a) \<Rightarrow> 'a run" where
  "store_read f = State (\<lambda>m. (f (mg_Store m), m))"

definition store_write :: "(Store \<Rightarrow> goerror + ('a \<times> Store)) \<Rightarrow> 'a attempt" where
  "store_write f = State (\<lambda>m. case f (mg_Store m) of Inl e \<Rightarrow> (Inl e, m) | Inr (v, st) \<Rightarrow> (Inr v, m\<lparr>mg_Store := st\<rparr>))"

lemma wp_db [simp]:
  "wp (db H c) Q m = (case h_db H (mg_io m) of
      Some err \<Rightarrow> Q (Inl err) (m\<lparr>mg_io := IoDb (Some err) # mg_io m\<rparr>)
    | None \<Rightarrow> wp c Q (m\<lparr>mg_io := IoDb None # mg_io m\<rparr>))"
  by (simp add: db_def split: option.split)

lemma run_db [simp]:
  "run_state (db H c) m = (case h_db H (mg_io m) of
      Some err \<Rightarrow> (Inl err, m\<lparr>mg_io := IoDb (Some err) # mg_io m\<rparr>)
    | None \<Rightarrow> run_state c (m\<lparr>mg_io := IoDb None # mg_io m\<rparr>))"
  by (simp add: db_def split: option.split)

lemma wp_store_read [simp]: "wp (store_read f) Q m = Q (f (mg_Store m)) m"
  by (simp add: store_read_def)

lemma run_store_read [simp]: "run_state (store_read f) m = (f (mg_Store m), m)"
  by (simp add: store_read_def)

lemma wp_store_write [simp]:
  "wp (store_write f) Q m = (case f (mg_Store m) of Inl e \<Rightarrow> Q (Inl e) m | Inr (v, st) \<Rightarrow> Q (Inr v) (m\<lparr>mg_Store := st\<rparr>))"
  by (simp add: store_write_def split: sum.split prod.split)

lemma run_store_write [simp]:
  "run_state (store_write f) m = (case f (mg_Store m) of Inl e \<Rightarrow> (Inl e, m) | Inr (v, st) \<Rightarrow> (Inr v, m\<lparr>mg_Store := st\<rparr>))"
  by (simp add: store_write_def)

definition db_GetBootID :: "Host \<Rightarrow> string attempt" where
  "db_GetBootID H = db H (ok (h_boot_id H))"

text \<open>\<^verbatim>\<open>boot, _ := GetBootID(ctx)\<close>\<close>

definition bootID :: "Host \<Rightarrow> string run" where
  "bootID H = do { r \<leftarrow> db_GetBootID H; ret (case r of Inl _ \<Rightarrow> [] | Inr b \<Rightarrow> b) }"

definition db_ListSpecs :: "Host \<Rightarrow> ProcessSpec list attempt" where
  "db_ListSpecs H = db H (store_read (\<lambda>st. Inr (ListSpecs st)))"

definition db_GetSpec :: "Host \<Rightarrow> string \<Rightarrow> ProcessSpec attempt" where
  "db_GetSpec H processID = db H (store_read (GetSpec processID))"

definition db_GetSpecByName :: "Host \<Rightarrow> string \<Rightarrow> ProcessSpec attempt" where
  "db_GetSpecByName H name = db H (store_read (GetSpecByName name))"

definition db_GetRevisionSpec :: "Host \<Rightarrow> string \<Rightarrow> int \<Rightarrow> ProcessSpec attempt" where
  "db_GetRevisionSpec H processID revn = db H (store_read (GetRevisionSpec processID revn))"

definition db_ListInstances :: "Host \<Rightarrow> string \<Rightarrow> Instance list attempt" where
  "db_ListInstances H processID = db H (store_read (\<lambda>st. Inr (ListInstances processID st)))"

definition db_GetInstance :: "Host \<Rightarrow> string \<Rightarrow> Instance attempt" where
  "db_GetInstance H instanceID = db H (store_read (GetInstance instanceID))"

definition db_PutInstance :: "Host \<Rightarrow> Instance \<Rightarrow> unit attempt" where
  "db_PutInstance H inst = db H (store_write (\<lambda>st. map_sum id (Pair ()) (PutInstance inst st)))"

definition db_DeleteInstance :: "Host \<Rightarrow> string \<Rightarrow> unit attempt" where
  "db_DeleteInstance H instanceID = db H (store_write (\<lambda>st. map_sum id (Pair ()) (DeleteInstance instanceID st)))"

definition db_PutSpec :: "Host \<Rightarrow> ProcessSpec \<Rightarrow> int \<Rightarrow> string \<Rightarrow> string \<Rightarrow> ProcessSpec attempt" where
  "db_PutSpec H spec expectedRevision operator comment =
     do { t \<leftarrow> now H; db H (store_write (PutSpec t spec expectedRevision operator comment)) }"

definition db_RollbackSpec :: "Host \<Rightarrow> string \<Rightarrow> int \<Rightarrow> int \<Rightarrow> string \<Rightarrow> string \<Rightarrow> ProcessSpec attempt" where
  "db_RollbackSpec H processID toRevision expectedLatest operator comment =
     do { t \<leftarrow> now H; db H (store_write (RollbackSpec t processID toRevision expectedLatest operator comment)) }"

definition db_DeleteSpec :: "Host \<Rightarrow> string \<Rightarrow> int \<Rightarrow> unit attempt" where
  "db_DeleteSpec H processID expectedRevision =
     db H (store_write (\<lambda>st. map_sum id (Pair ()) (DeleteSpec processID expectedRevision st)))"

definition db_StartOp :: "Host \<Rightarrow> string \<Rightarrow> string \<Rightarrow> string \<Rightarrow> string \<Rightarrow> (bool \<times> OpStatus \<times> string) attempt" where
  "db_StartOp H opID operator typ target =
     db H (store_write (\<lambda>st. map_sum id (\<lambda>(dup, status, msg, st'). ((dup, status, msg), st')) (StartOp opID operator typ target st)))"

definition db_FinishOperation :: "Host \<Rightarrow> string \<Rightarrow> OpStatus \<Rightarrow> ProcessSpec option \<Rightarrow> string \<Rightarrow> unit attempt" where
  "db_FinishOperation H opID status result msg =
     db H (store_write (\<lambda>st. map_sum id (Pair ()) (FinishOperation opID status result msg st)))"

definition db_GetOp :: "Host \<Rightarrow> string \<Rightarrow> (OpStatus \<times> ProcessSpec option \<times> string) attempt" where
  "db_GetOp H opID = db H (store_read (GetOp opID))"

section \<open>Names and paths\<close>

definition MakeInstanceID :: "string \<Rightarrow> int \<Rightarrow> string" where
  "MakeInstanceID processID ordinal = processID @ '':'' @ Itoa ordinal"

definition sanitizedID :: "string \<Rightarrow> string" where
  "sanitizedID = map (\<lambda>c. if c = CHR '':'' then CHR ''_'' else c)"

text \<open>\<^verbatim>\<open>filepath.Join\<close>\<close>

definition Join :: "string list \<Rightarrow> string" where
  "Join ws = (let vs = filter (\<lambda>w. w \<noteq> []) ws in if vs = [] then [] else Clean (join_slash vs))"

definition ShimSocket :: "Layout \<Rightarrow> string \<Rightarrow> string" where
  "ShimSocket l instanceID = Join [ly_ShimDir l, sanitizedID instanceID @ ''.sock'']"

definition runtimePath :: "Layout \<Rightarrow> string \<Rightarrow> string" where
  "runtimePath l instanceID = Join [ly_RuntimeDir l, sanitizedID instanceID @ ''.json'']"

definition Resolve_log :: "Layout \<Rightarrow> string \<Rightarrow> string \<Rightarrow> string \<Rightarrow> int \<Rightarrow> string \<times> string" where
  "Resolve_log l directory processID instanceID ordinal =
    (let dir = (if directory = [] then Join [ly_LogDir l, processID, instanceID] else Join [directory, Itoa ordinal])
     in (Join [dir, ''stdout.log''], Join [dir, ''stderr.log'']))"

definition WritePaths :: "string \<Rightarrow> string \<Rightarrow> bool \<Rightarrow> string \<times> string" where
  "WritePaths stdout stderr redirect = (if redirect then (stdout, stdout) else (stdout, stderr))"

definition writeRuntime :: "Host \<Rightarrow> Instance \<Rightarrow> unit attempt" where
  "writeRuntime H inst = do {
     e \<leftarrow> ask (\<lambda>l. h_write_runtime H l (runtimePath (h_layout H) (in_InstanceID inst)))
       (IoWriteRuntime (runtimePath (h_layout H) (in_InstanceID inst)) (in_PID inst) (in_ShimPID inst) (in_BootID inst));
     no_error e }"

text \<open>The process and shim identifiers of a snapshot; \<open>None\<close> when it cannot be read.\<close>

definition readRuntime :: "Host \<Rightarrow> string \<Rightarrow> (int \<times> int) option run" where
  "readRuntime H instanceID = ask (\<lambda>l. h_read_runtime H l (runtimePath (h_layout H) instanceID))
     (IoReadRuntime (runtimePath (h_layout H) instanceID))"

section \<open>Texts\<close>

text \<open>\<^verbatim>\<open>strings.Contains\<close>\<close>

fun Contains :: "string \<Rightarrow> string \<Rightarrow> bool" where
  "Contains [] p \<longleftrightarrow> p = []"
| "Contains (c # cs) p \<longleftrightarrow> HasPrefix (c # cs) p \<or> Contains cs p"

end
