(* ===== verification/Process_Reconcile.thy ===== *)
theory Process_Reconcile imports Process_Host Process_Deps
begin

text \<open>
  The reconciliation of instances (\<^verbatim>\<open>process/reconcile.go\<close>, with \<^verbatim>\<open>markOrphan\<close> of \<^verbatim>\<open>recover.go\<close>). A function
  that changes \<^verbatim>\<open>*inst\<close> returns the changed instance; every caller drops it when there is an error.
\<close>

definition adoptRequiredMsg :: string where
  "adoptRequiredMsg = ''adopt required''"

definition shimVerifyEvery :: int where
  "shimVerifyEvery = 10 * nanos"

definition sameBoot :: "string \<Rightarrow> string \<Rightarrow> bool" where
  "sameBoot instBoot current \<longleftrightarrow> instBoot \<noteq> [] \<and> instBoot = current"

definition hostRebooted :: "string \<Rightarrow> string \<Rightarrow> bool" where
  "hostRebooted instBoot current \<longleftrightarrow> instBoot \<noteq> [] \<and> instBoot \<noteq> current"

definition isAdoptRequired :: "goerror \<Rightarrow> bool" where
  "isAdoptRequired e \<longleftrightarrow> err_is e INVALID \<and> Contains (err_text e) adoptRequiredMsg"

definition exitCode :: "Instance \<Rightarrow> int" where
  "exitCode inst = (case in_ExitCode inst of Some c \<Rightarrow> c | None \<Rightarrow> 0)"

section \<open>Bookkeeping of the manager\<close>

definition recordFailure :: "Host \<Rightarrow> string \<Rightarrow> unit run" where
  "recordFailure H iid = do {
     t \<leftarrow> now H;
     modify (\<lambda>m. m\<lparr>mg_failures := mput iid (mget_or [] (mg_failures m) iid @ [t]) (mg_failures m)\<rparr>) }"

definition resetHealth :: "string \<Rightarrow> Manager \<Rightarrow> Manager" where
  "resetHealth iid m = m\<lparr>mg_healthTrackers := mdel iid (mg_healthTrackers m),
     mg_lastHealthCheck := mdel iid (mg_lastHealthCheck m), mg_lastHealthRestart := mdel iid (mg_lastHealthRestart m)\<rparr>"

definition forgetInstance :: "string \<Rightarrow> Manager \<Rightarrow> Manager" where
  "forgetInstance iid m = resetHealth iid (m\<lparr>mg_failures := mdel iid (mg_failures m),
     mg_nextTry := mdel iid (mg_nextTry m), mg_lastShimCheck := mdel iid (mg_lastShimCheck m)\<rparr>)"

definition resetAllHealth :: "Manager \<Rightarrow> Manager" where
  "resetAllHealth m = m\<lparr>mg_healthTrackers := [], mg_lastHealthCheck := [], mg_lastHealthRestart := []\<rparr>"

definition set_shim_check :: "string \<Rightarrow> gtime \<Rightarrow> Manager \<Rightarrow> Manager" where
  "set_shim_check iid t m = m\<lparr>mg_lastShimCheck := mput iid t (mg_lastShimCheck m)\<rparr>"

definition drop_shim_check :: "string \<Rightarrow> Manager \<Rightarrow> Manager" where
  "drop_shim_check iid m = m\<lparr>mg_lastShimCheck := mdel iid (mg_lastShimCheck m)\<rparr>"

definition drop_next_try :: "string \<Rightarrow> Manager \<Rightarrow> Manager" where
  "drop_next_try iid m = m\<lparr>mg_nextTry := mdel iid (mg_nextTry m)\<rparr>"

definition noteStartError :: "Host \<Rightarrow> Instance \<Rightarrow> string \<Rightarrow> unit run" where
  "noteStartError H inst msg = ignoring (db_PutInstance H (inst\<lparr>in_LastError := msg\<rparr>)) (ret ())"

text \<open>\<^verbatim>\<open>m.noteStartError(..., err.Error()); return err\<close>\<close>

definition start_error :: "Host \<Rightarrow> Instance \<Rightarrow> goerror \<Rightarrow> string \<Rightarrow> 'a attempt" where
  "start_error H inst err msg = ignoring (noteStartError H inst msg) (throw err)"

section \<open>Refreshing an instance\<close>

definition markOrphan :: "Host \<Rightarrow> Instance \<Rightarrow> int \<Rightarrow> unit attempt" where
  "markOrphan H inst pid =
    (let inst' = inst\<lparr>in_PID := pid, in_Observed := observe_or ObservedUnknown (in_Observed inst) EvLost,
         in_Health := HealthUnknown\<rparr>
     in ignoring (audit H (in_ProcessID inst) ''ORPHAN_PROCESS'' [] [] ''SUCCESS'')
       (ignoring (writeRuntime H inst') (db_PutInstance H inst')))"

definition handleExit :: "Host \<Rightarrow> Instance \<Rightarrow> ShimStatus option \<Rightarrow> Instance run" where
  "handleExit H inst st =
    (let shouldCount = (in_Observed inst = ObservedRunning \<or> in_Observed inst = ObservedStarting
         \<or> in_Observed inst = ObservedStopping)
     in do {
       t \<leftarrow> now H;
       let inst' = inst\<lparr>in_ExitAt := Some t, in_PID := 0,
         in_ExitCode := (case st of Some s \<Rightarrow> Some (ss_ExitCode s) | None \<Rightarrow> in_ExitCode inst),
         in_Observed := observe_or ObservedExited (in_Observed inst) EvExit, in_Health := HealthUnknown\<rparr>;
       modify (drop_shim_check (in_InstanceID inst));
       (if shouldCount then do { recordFailure H (in_InstanceID inst); modify (drop_next_try (in_InstanceID inst)) }
        else ret ());
       ignoring (db_PutInstance H inst') (ret inst') })"

text \<open>The instance with the process of the same boot that is still alive: the stored one, or that of the
  runtime file.\<close>

definition live_instance :: "Host \<Rightarrow> Instance \<Rightarrow> string \<Rightarrow> Instance option run" where
  "live_instance H inst boot = do {
     alive \<leftarrow> (if sameBoot (in_BootID inst) boot then pidAlive H (in_PID inst) else ret False);
     if alive then ret (Some inst)
     else if sameBoot (in_BootID inst) boot then do {
       snap \<leftarrow> readRuntime H (in_InstanceID inst);
       case snap of
         None \<Rightarrow> ret None
       | Some (pid, shim) \<Rightarrow> do {
           live \<leftarrow> pidAlive H pid;
           ret (if live then Some (inst\<lparr>in_PID := pid, in_ShimPID := (if shim > 0 then shim else in_ShimPID inst)\<rparr>) else None) } }
     else ret None }"

definition refreshNoSocket :: "Host \<Rightarrow> Instance \<Rightarrow> string \<Rightarrow> Instance attempt" where
  "refreshNoSocket H inst boot = do {
     found \<leftarrow> live_instance H inst boot;
     case found of
       Some live \<Rightarrow> andthen (markOrphan H live (in_PID live)) (\<lambda>_. ok (live\<lparr>in_Observed := ObservedUnknown\<rparr>))
     | None \<Rightarrow>
        (let dead = inst\<lparr>in_PID := 0\<rparr> in
         if in_Observed inst = ObservedRunning \<or> in_Observed inst = ObservedStarting \<or> in_Observed inst = ObservedStopping
           then do { gone \<leftarrow> handleExit H dead None; ok gone }
         else if in_PID inst \<noteq> 0 then andthen (db_PutInstance H dead) (\<lambda>_. ok dead)
         else ok dead) }"

text \<open>Was the instance verified less than ten seconds ago, and does it still run?\<close>

definition verified_lately :: "Host \<Rightarrow> Instance \<Rightarrow> string \<Rightarrow> gtime \<Rightarrow> bool run" where
  "verified_lately H inst boot t =
    (if in_Desired inst = DesiredRunning \<and> in_Observed inst = ObservedRunning \<and> sameBoot (in_BootID inst) boot
     then conj_io (pidAlive H (in_PID inst)) (conj_io (pidAlive H (in_ShimPID inst))
       (gets (\<lambda>m. t < mget_or time_zero (mg_lastShimCheck m) (in_InstanceID inst) + shimVerifyEvery)))
     else ret False)"

text \<open>What the answer of the shim, or its silence, means for the instance.\<close>

definition refresh_answer :: "Host \<Rightarrow> Instance \<Rightarrow> string \<Rightarrow> goerror + ShimStatus \<Rightarrow> Instance attempt" where
  "refresh_answer H inst boot r =
    (case r of
       Inl _ \<Rightarrow> do {
         live \<leftarrow> conj_io (pidAlive H (in_PID inst)) (ret (sameBoot (in_BootID inst) boot));
         if live then andthen (markOrphan H inst (in_PID inst)) (\<lambda>_. ok (inst\<lparr>in_Observed := ObservedUnknown\<rparr>))
         else ok inst }
     | Inr st \<Rightarrow>
         if ss_Alive st then
           (if \<not> sameBoot (in_BootID inst) boot then refreshNoSocket H inst boot
            else
             (let inst' = inst\<lparr>in_PID := ss_Pid st, in_Observed := (if in_Observed inst \<noteq> ObservedRunning
                  then observe_or ObservedRunning (in_Observed inst) EvStartOK else in_Observed inst)\<rparr>
              in andthen (db_PutInstance H inst') (\<lambda>_. ok inst')))
         else if in_Observed inst = ObservedStopped then ok inst
         else do { gone \<leftarrow> handleExit H inst (Some st); ok gone })"

definition refresh :: "Host \<Rightarrow> Instance \<Rightarrow> string \<Rightarrow> Instance attempt" where
  "refresh H inst boot =
    (let sock = ShimSocket (h_layout H) (in_InstanceID inst) in do {
       t \<leftarrow> now H;
       fresh \<leftarrow> verified_lately H inst boot t;
       if fresh then ok inst
       else do {
         modify (set_shim_check (in_InstanceID inst) t);
         present \<leftarrow> socketExists H sock;
         if \<not> present then refreshNoSocket H inst boot
         else do { r \<leftarrow> Reconnect H sock; refresh_answer H inst boot r } } })"

section \<open>Starting\<close>

definition writeLogPaths :: "Host \<Rightarrow> ProcessSpec \<Rightarrow> Instance \<Rightarrow> string \<times> string" where
  "writeLogPaths H spec inst =
    (case Resolve_log (h_layout H) (lp_Directory (ps_Log spec)) (ps_ProcessID spec) (in_InstanceID inst) (in_Ordinal inst) of
       (out, err) \<Rightarrow> WritePaths out err (lp_RedirectStderr (ps_Log spec)))"

definition ResourceLimitSet :: "ResourceLimit \<Rightarrow> bool" where
  "ResourceLimitSet r \<longleftrightarrow> rl_CPUQuotaMillis r \<noteq> 0 \<or> rl_MemoryBytes r \<noteq> 0 \<or> rl_OpenFiles r \<noteq> 0"

definition applyRunning :: "Host \<Rightarrow> Instance \<Rightarrow> int \<Rightarrow> string \<Rightarrow> Instance attempt" where
  "applyRunning H inst pid boot = do {
     t \<leftarrow> now H;
     modify (set_shim_check (in_InstanceID inst) t);
     let inst' = inst\<lparr>in_PID := pid, in_Health := HealthUnknown, in_BootID := boot, in_LastError := [],
       in_Observed := (if in_Observed inst \<noteq> ObservedRunning then observe_or ObservedRunning (in_Observed inst) EvStartOK
         else in_Observed inst)\<rparr>;
     andthen (writeRuntime H inst') (\<lambda>_. andthen (db_PutInstance H inst') (\<lambda>_. ok inst')) }"

text \<open>The log files of the child, or the reason it cannot be started.\<close>

definition log_files :: "Host \<Rightarrow> ProcessSpec \<Rightarrow> Instance \<Rightarrow> (string \<times> string) attempt" where
  "log_files H spec inst = do {
     allowed \<leftarrow> (if h_has_logs H then ask (h_writes H) IoWrites else ret True);
     if \<not> allowed then
       ignoring (audit H (in_ProcessID inst) ''LOG_WRITES_DISABLED'' [] [] []) (ok (''/dev/null'', ''/dev/null''))
     else
      (let (out, err) = writeLogPaths H spec inst; files = (if out = err then [out] else [out, err]) in do {
         e \<leftarrow> ask (\<lambda>l. h_prepare H l files) (IoPrepare files);
         case e of Some x \<Rightarrow> start_error H inst x (err_text x) | None \<Rightarrow> ok (out, err) }) }"

definition started :: "Host \<Rightarrow> ProcessSpec \<Rightarrow> Instance \<Rightarrow> int \<Rightarrow> string \<Rightarrow> Instance attempt" where
  "started H spec inst pid boot = do {
     t \<leftarrow> now H;
     modify (set_shim_check (in_InstanceID inst) t);
     let inst' = inst\<lparr>in_PID := pid, in_StartedAt := Some t, in_ExitAt := None, in_ExitCode := None, in_LastError := [],
       in_ActiveRevision := ps_LatestRevision spec, in_BootID := boot, in_Health := HealthUnknown,
       in_Observed := observe_or ObservedRunning (in_Observed inst) EvStartOK\<rparr>;
     limited \<leftarrow> (if ResourceLimitSet (ps_Resources spec)
       then ask (\<lambda>l. h_limit H l pid (ps_Resources spec)) (IoLimit pid (ps_Resources spec)) else ret True);
     (if \<not> limited then audit H (in_ProcessID inst) ''RESOURCE_LIMIT_UNSUPPORTED'' [] [] [] else ret ());
     andthen (writeRuntime H inst') (\<lambda>_. andthen (db_PutInstance H inst') (\<lambda>_. ok inst')) }"

definition start_failed :: "Host \<Rightarrow> Instance \<Rightarrow> string \<Rightarrow> Instance attempt" where
  "start_failed H inst msg =
    (let inst' = inst\<lparr>in_Observed := observe_or ObservedBackoff (in_Observed inst) EvStartFail\<rparr> in do {
       recordFailure H (in_InstanceID inst);
       start_error H inst' (Plain (''start: '' @ msg)) msg })"

definition start_request :: "ProcessSpec \<Rightarrow> string \<times> string \<Rightarrow> StartRequest" where
  "start_request spec files = \<lparr>sr_Command = ps_Command spec, sr_Args = ps_Args spec, sr_Env = ps_Environment spec,
     sr_Cwd = ps_WorkingDirectory spec, sr_RunAsUser = ps_RunAsUser spec,
     sr_StdoutPath = fst files, sr_StderrPath = snd files\<rparr>"

text \<open>The rest of \<^verbatim>\<open>startInstance\<close> once a shim without a live child is connected.\<close>

definition start_child :: "Host \<Rightarrow> ProcessSpec \<Rightarrow> Instance \<Rightarrow> string \<Rightarrow> Instance attempt" where
  "start_child H spec inst boot =
    (let inst1 = inst\<lparr>in_Observed := observe_or ObservedStarting (in_Observed inst) EvStart\<rparr>;
         sock = ShimSocket (h_layout H) (in_InstanceID inst) in
     andthen (log_files H spec inst1) (\<lambda>files. do {
       r \<leftarrow> shim_Start H sock (start_request spec files);
       case r of
         Inl e \<Rightarrow> start_failed H inst1 (err_text e)
       | Inr resp \<Rightarrow>
           if sp_Error resp \<noteq> [] then start_failed H inst1 (sp_Error resp)
           else started H spec inst1 (sp_Pid resp) boot }))"

definition check_user :: "Host \<Rightarrow> ProcessSpec \<Rightarrow> Instance \<Rightarrow> unit attempt" where
  "check_user H spec inst =
    (if ps_RunAsUser spec = [] then ok ()
     else if \<not> h_has_lookup H then start_error H inst (E INVALID ''run_as_user'') (err_text (E INVALID ''run_as_user''))
     else do {
       e \<leftarrow> ask (\<lambda>l. h_user H l (ps_RunAsUser spec)) (IoUser (ps_RunAsUser spec));
       case e of None \<Rightarrow> ok () | Some x \<Rightarrow> start_error H inst x (err_text x) })"

definition launch_shim :: "Host \<Rightarrow> Instance \<Rightarrow> string \<Rightarrow> (Instance \<times> ShimStatus) attempt" where
  "launch_shim H inst sock = do {
     bin \<leftarrow> (if h_shim_bin H = [] then ask (h_look_path H) IoLookPath else ok (h_shim_bin H));
     case bin of
       Inl e \<Rightarrow> start_error H inst e (err_text e)
     | Inr _ \<Rightarrow> do {
         r \<leftarrow> Launch H sock (in_InstanceID inst);
         case r of
           Inl e \<Rightarrow> start_error H inst (Plain (''launch shim: '' @ err_text e)) (''launch shim: '' @ err_text e)
         | Inr pid \<Rightarrow> do {
             c \<leftarrow> Reconnect H sock;
             case c of
               Inl e \<Rightarrow> start_error H (inst\<lparr>in_ShimPID := pid\<rparr>) e (err_text e)
             | Inr st \<Rightarrow> ok (inst\<lparr>in_ShimPID := pid\<rparr>, st) } } }"

definition startInstance :: "Host \<Rightarrow> ProcessSpec \<Rightarrow> Instance \<Rightarrow> string \<Rightarrow> Instance attempt" where
  "startInstance H spec inst boot =
    (let sock = ShimSocket (h_layout H) (in_InstanceID inst) in
     andthen (check_user H spec inst) (\<lambda>_. do {
       present \<leftarrow> socketExists H sock;
       r \<leftarrow> (if present then Reconnect H sock else throw (Plain ''no shim''));
       case r of
         Inr st \<Rightarrow>
           if ss_Alive st then
             (if sameBoot (in_BootID inst) boot then applyRunning H inst (ss_Pid st) boot else ok inst)
           else start_child H spec inst boot
       | Inl _ \<Rightarrow> andthen (launch_shim H inst sock) (\<lambda>(inst', st).
           if ss_Alive st then applyRunning H inst' (ss_Pid st) boot else start_child H spec inst' boot) }))"

section \<open>Stopping\<close>

definition stopped_row :: "Instance \<Rightarrow> Instance" where
  "stopped_row inst = inst\<lparr>in_PID := 0, in_Observed := ObservedStopped\<rparr>"

definition put_stopped :: "Host \<Rightarrow> Instance \<Rightarrow> Instance attempt" where
  "put_stopped H inst = andthen (db_PutInstance H (stopped_row inst)) (\<lambda>_. ok (stopped_row inst))"

definition signalStop :: "Host \<Rightarrow> Instance \<Rightarrow> string \<Rightarrow> string \<Rightarrow> int \<Rightarrow> Instance attempt" where
  "signalStop H inst signal killSignal timeoutMs =
    (let sock = ShimSocket (h_layout H) (in_InstanceID inst) in do {
       orphan \<leftarrow> (if in_Observed inst = ObservedUnknown
         then conj_io (pidAlive H (in_PID inst)) (do { b \<leftarrow> bootID H; ret (sameBoot (in_BootID inst) b) }) else ret False);
       if orphan then throw (E INVALID adoptRequiredMsg)
       else do {
         present \<leftarrow> socketExists H sock;
         if \<not> present then do {
           keep \<leftarrow> conj_io (pidAlive H (in_PID inst)) (do { b \<leftarrow> bootID H; ret (sameBoot (in_BootID inst) b) });
           if \<not> keep then put_stopped H inst else ok inst }
         else do {
           r \<leftarrow> Reconnect H sock;
           case r of
             Inl _ \<Rightarrow> put_stopped H inst
           | Inr st \<Rightarrow>
               if \<not> ss_Alive st then put_stopped H inst
               else do {
                 inst1 \<leftarrow> (case ApplyObserved (in_Observed inst) EvStop of
                     Inr nxt \<Rightarrow> ignoring (db_PutInstance H (inst\<lparr>in_Observed := nxt\<rparr>)) (ret (inst\<lparr>in_Observed := nxt\<rparr>))
                   | Inl _ \<Rightarrow> ret inst);
                 andthen (shim_Stop H sock \<lparr>so_Signal = signal, so_TimeoutMs = timeoutMs, so_KillSignal = killSignal\<rparr>) (\<lambda>resp. do {
                   t \<leftarrow> now H;
                   modify (drop_shim_check (in_InstanceID inst));
                   let inst2 = inst1\<lparr>in_PID := 0, in_ExitAt := Some t, in_ExitCode := Some (sx_ExitCode resp),
                     in_Observed := observe_or ObservedStopped (in_Observed inst1) EvStopped, in_Health := HealthUnknown\<rparr>;
                   andthen (db_PutInstance H inst2) (\<lambda>_. ok inst2) }) } } } })"

text \<open>\<^verbatim>\<open>int32(x)\<close>\<close>

definition wrap32 :: "int \<Rightarrow> int" where
  "wrap32 x = (x + 2147483648) mod 4294967296 - 2147483648"

definition stopInstance :: "Host \<Rightarrow> ProcessSpec \<Rightarrow> Instance \<Rightarrow> Instance attempt" where
  "stopInstance H spec inst =
    (let timeout = (if ps_StopTimeout spec \<le> 0 then 10 * nanos else ps_StopTimeout spec)
     in signalStop H inst (ps_StopSignal spec) (ps_KillSignal spec) (wrap32 (timeout div 1000000)))"

definition killInstance :: "Host \<Rightarrow> ProcessSpec \<Rightarrow> Instance \<Rightarrow> Instance attempt" where
  "killInstance H spec inst =
    (let sig = (if ps_KillSignal spec = [] then ''SIGKILL'' else ps_KillSignal spec)
     in signalStop H inst sig sig 0)"

section \<open>Health checks\<close>

definition tracker :: "string \<Rightarrow> HealthCheckSpec \<Rightarrow> Manager \<Rightarrow> Tracker" where
  "tracker iid spec m =
    (case mget (mg_healthTrackers m) iid of
       Some tr \<Rightarrow> if SameThresholds spec tr then tr else NewTracker spec
     | None \<Rightarrow> NewTracker spec)"

text \<open>\<^verbatim>\<open>m.tracker(id, spec.Health).Observe(checkErr, now); m.lastHealthCheck[id] = now\<close>\<close>

definition note_probe :: "string \<Rightarrow> HealthCheckSpec \<Rightarrow> goerror option \<Rightarrow> gtime \<Rightarrow> HealthState run" where
  "note_probe iid spec err t = State (\<lambda>m.
     let tr = Observe err (tracker iid spec m) in
     (tk_state tr, m\<lparr>mg_healthTrackers := mput iid tr (mg_healthTrackers m),
        mg_lastHealthCheck := mput iid t (mg_lastHealthCheck m)\<rparr>))"

definition checked_lately :: "string \<Rightarrow> HealthCheckSpec \<Rightarrow> gtime \<Rightarrow> Manager \<Rightarrow> bool" where
  "checked_lately iid spec t m =
    (case mget (mg_lastHealthCheck m) iid of
       Some l \<Rightarrow> hc_Interval spec > 0 \<and> t < l + hc_Interval spec | None \<Rightarrow> False)"

definition restarted_lately :: "string \<Rightarrow> HealthCheckSpec \<Rightarrow> gtime \<Rightarrow> Manager \<Rightarrow> bool" where
  "restarted_lately iid spec t m =
    (case mget (mg_lastHealthRestart m) iid of
       Some l \<Rightarrow> hc_RestartCooldown spec > 0 \<and> t < l + hc_RestartCooldown spec | None \<Rightarrow> False)"

text \<open>The restart of an unhealthy instance, or its end when the retries are used up.\<close>

definition health_restart :: "Host \<Rightarrow> ProcessSpec \<Rightarrow> Instance \<Rightarrow> gtime \<Rightarrow> string \<Rightarrow> unit attempt" where
  "health_restart H spec inst t boot =
    (let iid = in_InstanceID inst in do {
       modify (\<lambda>m. m\<lparr>mg_failures := mput iid (mget_or [] (mg_failures m) iid @ [t]) (mg_failures m)\<rparr>);
       fails \<leftarrow> gets (\<lambda>m. mget_or [] (mg_failures m) iid);
       if rs_MaxRetries (ps_Restart spec) > 0
           \<and> int (countFailuresInWindow fails t (rs_RetryWindow (ps_Restart spec))) \<ge> rs_MaxRetries (ps_Restart spec)
       then andthen (stopInstance H spec inst) (\<lambda>i. db_PutInstance H
         (i\<lparr>in_Desired := in_Desired inst, in_Observed := ObservedFatal, in_Health := HealthUnhealthy\<rparr>))
       else do {
         modify (\<lambda>m. m\<lparr>mg_lastHealthRestart := mput iid t (mg_lastHealthRestart m),
           mg_healthTrackers := mdel iid (mg_healthTrackers m), mg_lastHealthCheck := mdel iid (mg_lastHealthCheck m)\<rparr>);
         andthen (stopInstance H spec (inst\<lparr>in_RestartCount := in_RestartCount inst + 1\<rparr>)) (\<lambda>i.
           andthen (startInstance H spec (i\<lparr>in_Desired := in_Desired inst\<rparr>) boot) (\<lambda>_. ok ())) } })"

definition applyHealth :: "Host \<Rightarrow> ProcessSpec \<Rightarrow> Instance \<Rightarrow> string \<Rightarrow> unit attempt" where
  "applyHealth H spec inst boot =
    (let h = ps_Health spec; iid = in_InstanceID inst in do {
       t \<leftarrow> now H;
       lately \<leftarrow> gets (checked_lately iid h t);
       if (case in_StartedAt inst of Some s \<Rightarrow> t < s + hc_InitialDelay h | None \<Rightarrow> False) \<or> lately then ok ()
       else do {
         err \<leftarrow> health_Check H h (in_PID inst);
         andthen (db_GetInstance H iid) (\<lambda>cur. do {
           again \<leftarrow> gets (checked_lately (in_InstanceID cur) h t);
           if in_Desired cur \<noteq> DesiredRunning \<or> in_Observed cur \<noteq> ObservedRunning \<or> in_PID cur \<noteq> in_PID inst \<or> again
           then ok ()
           else do {
             verdict \<leftarrow> note_probe (in_InstanceID cur) h err t;
             andthen (if in_Health cur \<noteq> verdict then db_PutInstance H (cur\<lparr>in_Health := verdict\<rparr>) else ok ()) (\<lambda>_. do {
               cooling \<leftarrow> gets (restarted_lately (in_InstanceID cur) h t);
               if verdict \<noteq> HealthUnhealthy \<or> \<not> hc_RestartOnFailure h \<or> cooling then ok ()
               else health_restart H spec (cur\<lparr>in_Health := verdict\<rparr>) t boot }) } }) } })"

section \<open>Reconciling an instance\<close>

text \<open>The branch for an instance that should run but has exited or failed to start.\<close>

definition reconcile_exited :: "Host \<Rightarrow> ProcessSpec \<Rightarrow> Instance \<Rightarrow> (string, Instance list) gomap \<Rightarrow> string \<Rightarrow> unit attempt" where
  "reconcile_exited H spec inst byName boot =
    (let iid = in_InstanceID inst in do {
       t \<leftarrow> now H;
       fails \<leftarrow> gets (\<lambda>m. mget_or [] (mg_failures m) iid);
       let dec = DecideRestart (h_float H) (ps_Restart spec) (in_Desired inst) (in_Observed inst) (exitCode inst) fails t;
       if rd_Fatal dec then do {
         modify (drop_next_try iid);
         db_PutInstance H (inst\<lparr>in_Observed := observe_or ObservedFatal (in_Observed inst) EvRetriesExhausted\<rparr>) }
       else if rd_Restart dec then do {
         modify (\<lambda>m. if mget_or time_zero (mg_nextTry m) iid = time_zero
           then m\<lparr>mg_nextTry := mput iid (t + rd_Delay dec) (mg_nextTry m)\<rparr> else m);
         due \<leftarrow> gets (\<lambda>m. mget_or time_zero (mg_nextTry m) iid);
         if t < due \<or> \<not> DepsReady spec byName then ok ()
         else do {
           modify (drop_next_try iid);
           andthen (startInstance H spec (inst\<lparr>in_Observed := observe_or ObservedStarting (in_Observed inst) EvRetry\<rparr>) boot)
             (\<lambda>_. ok ()) } }
       else ok () })"

definition reconcileInstance :: "Host \<Rightarrow> ProcessSpec \<Rightarrow> Instance \<Rightarrow> (string, Instance list) gomap \<Rightarrow> string \<Rightarrow> unit attempt" where
  "reconcileInstance H spec inst0 byName boot =
    andthen (refresh H inst0 boot) (\<lambda>inst.
      if in_Observed inst = ObservedUnknown then
        (if in_Desired inst = DesiredStopped then do {
           r \<leftarrow> stopInstance H spec inst;
           case r of Inl e \<Rightarrow> if isAdoptRequired e then ok () else throw e | Inr _ \<Rightarrow> ok () }
         else ok ())
      else if in_Observed inst = ObservedFatal then ok ()
      else if in_Desired inst = DesiredStopped then andthen (stopInstance H spec inst) (\<lambda>_. ok ())
      else if in_Desired inst = DesiredRunning \<and> in_Observed inst = ObservedRunning then applyHealth H spec inst boot
      else if in_Desired inst = DesiredRunning \<and> in_Observed inst = ObservedStarting then ok ()
      else if in_Desired inst = DesiredRunning \<and> (in_Observed inst = ObservedExited \<or> in_Observed inst = ObservedBackoff)
        then reconcile_exited H spec inst byName boot
      else if in_Desired inst = DesiredRunning \<and> in_Observed inst = ObservedStopped then
        (if \<not> DepsReady spec byName then ok ()
         else andthen (startInstance H spec inst boot) (\<lambda>_. ok ()))
      else if in_Observed inst \<noteq> ObservedStopped then db_PutInstance H (inst\<lparr>in_Observed := ObservedStopped\<rparr>)
      else ok ())"

section \<open>A pass over all processes\<close>

definition extraInstanceDeletable :: "Host \<Rightarrow> Instance \<Rightarrow> bool run" where
  "extraInstanceDeletable H inst =
    (if in_Observed inst = ObservedStopped \<or> in_Observed inst = ObservedFatal \<or> in_Observed inst = ObservedUnknown
     then do { a \<leftarrow> pidAlive H (in_PID inst); ret (\<not> a) } else ret False)"

definition stop_extra :: "Host \<Rightarrow> ProcessSpec \<Rightarrow> Instance \<Rightarrow> unit attempt" where
  "stop_extra H spec inst =
    andthen (stopInstance H spec inst) (\<lambda>i. do {
      gone \<leftarrow> extraInstanceDeletable H i;
      if gone then andthen (db_DeleteInstance H (in_InstanceID i))
        (\<lambda>_. do { modify (forgetInstance (in_InstanceID i)); ok () })
      else ok () })"

fun instanceSnapshots :: "Host \<Rightarrow> ProcessSpec list
    \<Rightarrow> ((string, Instance list) gomap \<times> (string, Instance list) gomap) attempt" where
  "instanceSnapshots H [] = ok ([], [])"
| "instanceSnapshots H (s # ss) =
    andthen (db_ListInstances H (ps_ProcessID s)) (\<lambda>insts.
      andthen (instanceSnapshots H ss) (\<lambda>(byProcess, byName).
        ok ((if mhas byProcess (ps_ProcessID s) then byProcess else mput (ps_ProcessID s) insts byProcess),
            (if mhas byName (ps_Name s) then byName else mput (ps_Name s) insts byName))))"

definition getSpecByID :: "ProcessSpec list \<Rightarrow> string \<Rightarrow> ProcessSpec option" where
  "getSpecByID specs pid = find (\<lambda>s. ps_ProcessID s = pid) specs"

definition reconcile_process :: "Host \<Rightarrow> ProcessSpec \<Rightarrow> Instance list \<Rightarrow> (string, Instance list) gomap \<Rightarrow> string
    \<Rightarrow> unit attempt" where
  "reconcile_process H spec insts byName boot =
    every (\<lambda>inst. if in_Ordinal inst \<ge> ps_Instances spec then stop_extra H spec inst
      else reconcileInstance H spec inst byName boot) insts"

definition reconcileLocked :: "Host \<Rightarrow> unit attempt" where
  "reconcileLocked H =
    andthen (db_GetBootID H) (\<lambda>boot.
    andthen (db_ListSpecs H) (\<lambda>specs.
      case StartupOrder specs of
        Inl e \<Rightarrow> throw e
      | Inr order \<Rightarrow>
          andthen (instanceSnapshots H specs) (\<lambda>(byProcess, byName).
            every (\<lambda>pid. case getSpecByID specs pid of
                None \<Rightarrow> ok ()
              | Some spec \<Rightarrow> reconcile_process H spec (mget_or [] byProcess pid) byName boot) order)))"

end
