(* ===== verification/Process_Manager.thy ===== *)
theory Process_Manager imports Process_Reconcile
begin

text \<open>
  The commands of the manager (\<^verbatim>\<open>process/manager.go\<close>, \<^verbatim>\<open>process/logpath.go\<close>) and the recovery of its
  instances when the agent starts (\<^verbatim>\<open>process/recover.go\<close>). Every command is journalled under an
  operation identifier: \<open>command\<close> is the frame they share, with the command's own steps as its body.
\<close>

section \<open>The operation frame\<close>

definition finishOp :: "Host \<Rightarrow> string \<Rightarrow> OpStatus \<Rightarrow> ProcessSpec option \<Rightarrow> string \<Rightarrow> unit attempt" where
  "finishOp H opID status result msg = db_FinishOperation H opID status result msg"

text \<open>Returns whether the operation is done already, with its status and error.\<close>

definition beginOp :: "Host \<Rightarrow> string \<Rightarrow> string \<Rightarrow> string \<Rightarrow> string \<Rightarrow> (bool \<times> OpStatus \<times> string) attempt" where
  "beginOp H opID operator typ target =
    (if opID = [] then throw (E INVALID ''operation_id required'')
     else andthen (db_StartOp H opID operator typ target) (\<lambda>(dup, status, msg).
       ok (dup \<and> (status = OpSuccess \<or> status = OpFailed), status, msg)))"

text \<open>\<^verbatim>\<open>_ = m.finishOp(ctx, opID, opFailed, nil, err.Error()); return err\<close>\<close>

definition op_failed :: "Host \<Rightarrow> string \<Rightarrow> goerror \<Rightarrow> 'a attempt" where
  "op_failed H opID e = ignoring (finishOp H opID OpFailed None (err_text e)) (throw e)"

definition command :: "Host \<Rightarrow> string \<Rightarrow> string \<Rightarrow> string \<Rightarrow> string \<Rightarrow> string \<Rightarrow> string attempt \<Rightarrow> unit attempt" where
  "command H opID operator typ target action body =
    andthen (beginOp H opID operator typ target) (\<lambda>(done, status, msg).
      if done then (if status = OpFailed then throw (E INVALID msg) else ok ())
      else do {
        r \<leftarrow> body;
        case r of
          Inl e \<Rightarrow> op_failed H opID e
        | Inr resource \<Rightarrow> ignoring (audit H resource action opID operator ''SUCCESS'') (finishOp H opID OpSuccess None []) })"

section \<open>Instances of a specification\<close>

definition inheritProcessDesired :: "Instance list \<Rightarrow> int \<Rightarrow> DesiredState" where
  "inheritProcessDesired insts n =
    (if list_ex (\<lambda>i. in_Ordinal i < n \<and> in_Desired i = DesiredRunning) insts then DesiredRunning else DesiredStopped)"

definition new_instance :: "string \<Rightarrow> int \<Rightarrow> DesiredState \<Rightarrow> Instance" where
  "new_instance processID i desired = \<lparr>in_InstanceID = MakeInstanceID processID i, in_ProcessID = processID,
     in_Ordinal = i, in_PID = 0, in_ShimPID = 0, in_Desired = desired, in_Observed = ObservedStopped,
     in_Health = HealthUnknown, in_StartedAt = None, in_ExitAt = None, in_ExitCode = None, in_RestartCount = 0,
     in_ActiveRevision = 0, in_BootID = [], in_LastError = []\<rparr>"

definition ensure_one :: "Host \<Rightarrow> string \<Rightarrow> DesiredState \<Rightarrow> int \<Rightarrow> unit attempt" where
  "ensure_one H processID desired i = do {
     r \<leftarrow> db_GetInstance H (MakeInstanceID processID i);
     case r of
       Inr _ \<Rightarrow> ok ()
     | Inl e \<Rightarrow> if \<not> err_is e NOT_FOUND then throw e else db_PutInstance H (new_instance processID i desired) }"

definition drop_extra :: "Host \<Rightarrow> int \<Rightarrow> Instance \<Rightarrow> unit attempt" where
  "drop_extra H n inst =
    (if in_Ordinal inst < n then ok ()
     else
      (let inst' = inst\<lparr>in_Desired := DesiredStopped\<rparr> in
       andthen (if in_Desired inst \<noteq> DesiredStopped then db_PutInstance H inst' else ok ()) (\<lambda>_. do {
         gone \<leftarrow> extraInstanceDeletable H inst';
         if gone then andthen (db_DeleteInstance H (in_InstanceID inst))
           (\<lambda>_. do { modify (forgetInstance (in_InstanceID inst)); ok () })
         else ok () })))"

definition ensureInstances :: "Host \<Rightarrow> ProcessSpec \<Rightarrow> unit attempt" where
  "ensureInstances H spec =
    andthen (db_ListInstances H (ps_ProcessID spec)) (\<lambda>insts.
    andthen (each (\<lambda>i. ensure_one H (ps_ProcessID spec) (inheritProcessDesired insts (ps_Instances spec)) i)
      (map int [0..<nat (ps_Instances spec)])) (\<lambda>_.
    andthen (db_ListInstances H (ps_ProcessID spec)) (\<lambda>all.
      each (drop_extra H (ps_Instances spec)) all)))"

section \<open>Writing specifications\<close>

definition rejectDependencyCycle :: "Host \<Rightarrow> ProcessSpec \<Rightarrow> unit attempt" where
  "rejectDependencyCycle H spec =
    andthen (db_ListSpecs H) (\<lambda>specs.
      let known = (\<lambda>s. ps_ProcessID spec \<noteq> [] \<and> ps_ProcessID s = ps_ProcessID spec);
          merged = (if list_ex known specs
            then takeWhile (\<lambda>s. \<not> known s) specs @ spec # tl (dropWhile (\<lambda>s. \<not> known s) specs)
            else specs @ [spec])
      in no_error (RejectCycle merged))"

definition replayApplySpec :: "Host \<Rightarrow> string \<Rightarrow> string \<Rightarrow> OpStatus \<Rightarrow> string \<Rightarrow> ProcessSpec attempt" where
  "replayApplySpec H processID opID status msg =
    (if status = OpFailed then throw (E INVALID msg)
     else do {
       r \<leftarrow> db_GetOp H opID;
       case r of
         Inr (_, Some out, _) \<Rightarrow>
           if ps_ProcessID out \<noteq> [] then ok out
           else if processID = [] then throw (E NOT_FOUND ''process'') else db_GetSpec H processID
       | _ \<Rightarrow> if processID = [] then throw (E NOT_FOUND ''process'') else db_GetSpec H processID })"

text \<open>The common end of \<^verbatim>\<open>ApplySpec\<close> and \<^verbatim>\<open>Rollback\<close>.\<close>

definition finish_spec :: "Host \<Rightarrow> string \<Rightarrow> string \<Rightarrow> string \<Rightarrow> ProcessSpec attempt \<Rightarrow> ProcessSpec attempt" where
  "finish_spec H opID operator action put = do {
     r \<leftarrow> andthen put (\<lambda>out. andthen (ensureInstances H out) (\<lambda>_. ok out));
     case r of
       Inl e \<Rightarrow> op_failed H opID e
     | Inr out \<Rightarrow> ignoring (audit H (ps_ProcessID out) action opID operator ''SUCCESS'')
         (ignoring (finishOp H opID OpSuccess (Some out) []) (ok out)) }"

definition ApplySpec :: "Host \<Rightarrow> ProcessSpec \<Rightarrow> int \<Rightarrow> string \<Rightarrow> string \<Rightarrow> string \<Rightarrow> ProcessSpec attempt" where
  "ApplySpec H spec0 expectedRevision opID operator comment =
    (let spec = (ApplyDefaults spec0)\<lparr>ps_Group := TrimSpace (ps_Group spec0)\<rparr> in
     andthen (no_error (ValidateSpec spec)) (\<lambda>_.
     andthen (no_error (ValidateDirectory (lp_Directory (ps_Log spec)) (ly_Root (h_layout H)))) (\<lambda>_.
     andthen (beginOp H opID operator ''apply_spec'' (ps_ProcessID spec)) (\<lambda>(done, status, msg).
       if done then replayApplySpec H (ps_ProcessID spec) opID status msg
       else finish_spec H opID operator
         (if expectedRevision = 0 then ''process.create'' else ''process.update'')
         (andthen (rejectDependencyCycle H spec) (\<lambda>_.
          andthen (if expectedRevision = 0 \<and> ps_ProcessID spec = [] then ask (h_random H) IoRandom
                   else ok (ps_ProcessID spec)) (\<lambda>pid.
            db_PutSpec H (spec\<lparr>ps_ProcessID := pid\<rparr>) expectedRevision operator comment)))))))"

definition Rollback :: "Host \<Rightarrow> string \<Rightarrow> int \<Rightarrow> int \<Rightarrow> string \<Rightarrow> string \<Rightarrow> string \<Rightarrow> ProcessSpec attempt" where
  "Rollback H processID toRevision expectedLatest opID operator comment =
    andthen (beginOp H opID operator ''rollback'' processID) (\<lambda>(done, status, msg).
      if done then replayApplySpec H processID opID status msg
      else finish_spec H opID operator ''process.rollback''
        (db_RollbackSpec H processID toRevision expectedLatest operator comment))"

definition check_deletable :: "Host \<Rightarrow> string \<Rightarrow> Instance \<Rightarrow> unit attempt" where
  "check_deletable H boot inst =
    (if in_Desired inst \<noteq> DesiredStopped then throw (E INVALID ''desired must be STOPPED'')
     else if \<not> (in_Observed inst = ObservedStopped \<or> in_Observed inst = ObservedFatal \<or> in_Observed inst = ObservedUnknown)
       then throw (E INVALID ''instance not terminal'')
     else do {
       live \<leftarrow> (if sameBoot (in_BootID inst) boot then pidAlive H (in_PID inst) else ret False);
       if live then throw (E INVALID ''live pid'') else ok () })"

definition delete_one :: "Host \<Rightarrow> Instance \<Rightarrow> unit attempt" where
  "delete_one H inst = do {
     r \<leftarrow> db_DeleteInstance H (in_InstanceID inst);
     case r of
       Inl e \<Rightarrow> if \<not> err_is e NOT_FOUND then throw e else do { modify (forgetInstance (in_InstanceID inst)); ok () }
     | Inr _ \<Rightarrow> do { modify (forgetInstance (in_InstanceID inst)); ok () } }"

definition DeleteSpec_cmd :: "Host \<Rightarrow> string \<Rightarrow> int \<Rightarrow> string \<Rightarrow> string \<Rightarrow> unit attempt" where
  "DeleteSpec_cmd H processID expectedRevision opID operator =
    command H opID operator ''delete_spec'' processID ''process.delete'' (do {
      boot \<leftarrow> bootID H;
      andthen (db_ListInstances H processID) (\<lambda>insts.
      andthen (each (check_deletable H boot) insts) (\<lambda>_.
      andthen (db_DeleteSpec H processID expectedRevision) (\<lambda>_.
      andthen (each (delete_one H) insts) (\<lambda>_. ok processID)))) })"

section \<open>Commands on instances\<close>

fun any_io :: "('a \<Rightarrow> bool run) \<Rightarrow> 'a list \<Rightarrow> bool run" where
  "any_io f [] = ret False"
| "any_io f (x # xs) = do { b \<leftarrow> f x; if b then ret True else any_io f xs }"

definition rejectLiveOrphanStop :: "Host \<Rightarrow> Instance list \<Rightarrow> unit attempt" where
  "rejectLiveOrphanStop H insts = do {
     boot \<leftarrow> bootID H;
     live \<leftarrow> any_io (\<lambda>i. if in_Observed i = ObservedUnknown
       then conj_io (pidAlive H (in_PID i)) (ret (sameBoot (in_BootID i) boot)) else ret False) insts;
     if live then throw (E INVALID adoptRequiredMsg) else ok () }"

definition put_desired :: "Host \<Rightarrow> DesiredState \<Rightarrow> Instance list \<Rightarrow> unit attempt" where
  "put_desired H desired insts = each (\<lambda>i. db_PutInstance H (i\<lparr>in_Desired := desired\<rparr>)) insts"

definition SetDesired :: "Host \<Rightarrow> string \<Rightarrow> DesiredState \<Rightarrow> string \<Rightarrow> string \<Rightarrow> unit attempt" where
  "SetDesired H processID desired opID operator =
    command H opID operator ''set_desired'' processID
      (if desired = DesiredRunning then ''process.start'' else ''process.stop'')
      (andthen (db_GetSpec H processID) (\<lambda>_.
       andthen (db_ListInstances H processID) (\<lambda>insts.
       andthen (if desired = DesiredStopped then rejectLiveOrphanStop H insts else ok ()) (\<lambda>_.
       andthen (put_desired H desired insts) (\<lambda>_. ok processID)))))"

definition Kill :: "Host \<Rightarrow> string \<Rightarrow> string \<Rightarrow> string \<Rightarrow> unit attempt" where
  "Kill H processID opID operator =
    command H opID operator ''kill'' processID ''process.kill''
      (andthen (db_GetSpec H processID) (\<lambda>spec.
       andthen (db_ListInstances H processID) (\<lambda>insts.
       andthen (rejectLiveOrphanStop H insts) (\<lambda>_.
       andthen (each (\<lambda>i. andthen (killInstance H spec i) (\<lambda>_. ok ())) insts) (\<lambda>_.
       andthen (db_ListInstances H processID) (\<lambda>after.
       andthen (put_desired H DesiredStopped after) (\<lambda>_.
       andthen (reconcileLocked H) (\<lambda>_. ok processID))))))))"

definition Restart :: "Host \<Rightarrow> string \<Rightarrow> string \<Rightarrow> string \<Rightarrow> unit attempt" where
  "Restart H processID opID operator =
    command H opID operator ''restart'' processID ''process.restart''
      (andthen (db_GetSpec H processID) (\<lambda>_.
       andthen (db_ListInstances H processID) (\<lambda>insts.
       andthen (rejectLiveOrphanStop H insts) (\<lambda>_.
       andthen (put_desired H DesiredStopped insts) (\<lambda>_.
       andthen (reconcileLocked H) (\<lambda>_.
       andthen (db_ListInstances H processID) (\<lambda>after.
       andthen (put_desired H DesiredRunning after) (\<lambda>_. ok processID))))))))"

definition reset_one :: "Host \<Rightarrow> Instance \<Rightarrow> unit attempt" where
  "reset_one H inst = do {
     modify (\<lambda>m. resetHealth (in_InstanceID inst) (m\<lparr>mg_failures := mdel (in_InstanceID inst) (mg_failures m),
       mg_nextTry := mdel (in_InstanceID inst) (mg_nextTry m)\<rparr>));
     if in_Observed inst = ObservedFatal
       then db_PutInstance H (inst\<lparr>in_Observed := ObservedStopped, in_RestartCount := 0\<rparr>) else ok () }"

definition ResetFailure :: "Host \<Rightarrow> string \<Rightarrow> string \<Rightarrow> string \<Rightarrow> unit attempt" where
  "ResetFailure H processID opID operator =
    command H opID operator ''reset_failure'' processID ''process.reset_failure''
      (andthen (db_ListInstances H processID) (\<lambda>insts.
       andthen (each (reset_one H) insts) (\<lambda>_. ok processID)))"

definition Adopt :: "Host \<Rightarrow> string \<Rightarrow> int \<Rightarrow> string \<Rightarrow> string \<Rightarrow> unit attempt" where
  "Adopt H instanceID pid opID operator =
    command H opID operator ''adopt'' instanceID ''process.adopt'' (do {
      live \<leftarrow> pidAlive H pid;
      if \<not> live then throw (E NOT_FOUND ''pid'')
      else andthen (db_GetInstance H instanceID) (\<lambda>inst. do {
        boot \<leftarrow> bootID H;
        since \<leftarrow> (case in_StartedAt inst of Some t \<Rightarrow> ret t | None \<Rightarrow> now H);
        let adopted = inst\<lparr>in_PID := pid, in_Observed := ObservedRunning, in_Health := HealthUnknown, in_BootID := boot,
          in_StartedAt := Some since\<rparr>;
        andthen (writeRuntime H adopted) (\<lambda>_. andthen (db_PutInstance H adopted) (\<lambda>_. ok (in_ProcessID inst))) }) })"

section \<open>Reading\<close>

definition Resolve_spec :: "Host \<Rightarrow> string \<Rightarrow> ProcessSpec attempt" where
  "Resolve_spec H idOrName =
    (if idOrName = [] then throw (E INVALID ''id or name required'')
     else do {
       r \<leftarrow> db_GetSpec H idOrName;
       case r of
         Inr spec \<Rightarrow> ok spec
       | Inl e \<Rightarrow> if \<not> err_is e NOT_FOUND then throw e else db_GetSpecByName H idOrName })"

definition LogPathPending :: "LogPolicy \<Rightarrow> LogPolicy \<Rightarrow> Instance \<Rightarrow> bool" where
  "LogPathPending latest active inst \<longleftrightarrow> in_ActiveRevision inst \<noteq> 0 \<and>
     (lp_Directory latest \<noteq> lp_Directory active \<or> lp_RedirectStderr latest \<noteq> lp_RedirectStderr active)"

definition EffectiveLog :: "Host \<Rightarrow> ProcessSpec \<Rightarrow> Instance \<Rightarrow> LogPolicy run" where
  "EffectiveLog H spec inst =
    (if in_ActiveRevision inst \<le> 0 \<or> in_ActiveRevision inst = ps_LatestRevision spec then ret (ps_Log spec)
     else do {
       r \<leftarrow> db_GetRevisionSpec H (ps_ProcessID spec) (in_ActiveRevision inst);
       ret (case r of Inl _ \<Rightarrow> ps_Log spec | Inr old \<Rightarrow> ps_Log old) })"

definition ReadLogPath :: "Host \<Rightarrow> ProcessSpec \<Rightarrow> Instance \<Rightarrow> string \<Rightarrow> string run" where
  "ReadLogPath H spec inst stream = do {
     pol \<leftarrow> EffectiveLog H spec inst;
     let (out, err) = Resolve_log (h_layout H) (lp_Directory pol) (ps_ProcessID spec) (in_InstanceID inst) (in_Ordinal inst);
     ret (if stream = ''stderr'' then err else out) }"

definition CustomLogDirs :: "Host \<Rightarrow> string list run" where
  "CustomLogDirs H = do {
     r \<leftarrow> db_ListSpecs H;
     ret (case r of Inl _ \<Rightarrow> []
       | Inr specs \<Rightarrow> rev (remdups (rev (filter (\<lambda>d. d \<noteq> []) (map (\<lambda>s. lp_Directory (ps_Log s)) specs))))) }"

text \<open>Rotation goes on after an error and returns the first one.\<close>

definition rotate_file :: "Host \<Rightarrow> RotatePolicy \<Rightarrow> gtime \<Rightarrow> string \<Rightarrow> goerror option \<Rightarrow> goerror option run" where
  "rotate_file H pol t path first = do {
     e \<leftarrow> ask (\<lambda>l. h_rotate H l path pol t) (IoRotate path pol t);
     ret (if first = None then e else first) }"

definition rotate_instance :: "Host \<Rightarrow> ProcessSpec \<Rightarrow> gtime \<Rightarrow> goerror option \<Rightarrow> Instance \<Rightarrow> goerror option run" where
  "rotate_instance H spec t first inst = do {
     pol \<leftarrow> EffectiveLog H spec inst;
     let lp = WithDefaults pol;
     let rp = \<lparr>rp_MaxSize = lp_MaxSize lp, rp_MaxFiles = lp_MaxFiles lp, rp_MaxAge = lp_MaxAge lp, rp_Compress = lp_Compress lp\<rparr>;
     let (out, err) = Resolve_log (h_layout H) (lp_Directory pol) (ps_ProcessID spec) (in_InstanceID inst) (in_Ordinal inst);
     first1 \<leftarrow> rotate_file H rp t out first;
     if err \<noteq> out then rotate_file H rp t err first1 else ret first1 }"

fun fold_io :: "('b \<Rightarrow> 'a \<Rightarrow> 'b run) \<Rightarrow> 'b \<Rightarrow> 'a list \<Rightarrow> 'b run" where
  "fold_io f acc [] = ret acc"
| "fold_io f acc (x # xs) = do { acc' \<leftarrow> f acc x; fold_io f acc' xs }"

definition RotateLogs :: "Host \<Rightarrow> unit attempt" where
  "RotateLogs H =
    andthen (db_ListSpecs H) (\<lambda>specs. do {
      t0 \<leftarrow> now H;
      t \<leftarrow> gets (\<lambda>m. case h_log_now H (mg_io m) of None \<Rightarrow> t0 | Some u \<Rightarrow> u);
      first \<leftarrow> fold_io (\<lambda>first spec. do {
        r \<leftarrow> db_ListInstances H (ps_ProcessID spec);
        case r of
          Inl e \<Rightarrow> ret (if first = None then Some e else first)
        | Inr insts \<Rightarrow> fold_io (rotate_instance H spec t) first insts }) None specs;
      no_error first })"

section \<open>Recovery\<close>

definition recoverInstance :: "Host \<Rightarrow> ProcessSpec \<Rightarrow> Instance \<Rightarrow> string \<Rightarrow> unit attempt" where
  "recoverInstance H spec inst boot =
    (let sock = ShimSocket (h_layout H) (in_InstanceID inst) in do {
       present \<leftarrow> socketExists H sock;
       r \<leftarrow> (if present then Reconnect H sock else throw (Plain ''no shim''));
       (if (case r of Inr st \<Rightarrow> ss_Alive st \<and> sameBoot (in_BootID inst) boot | Inl _ \<Rightarrow> False)
        then andthen (applyRunning H inst (case r of Inr st \<Rightarrow> ss_Pid st | Inl _ \<Rightarrow> 0) boot) (\<lambda>_. ok ())
        else do {
          found \<leftarrow> live_instance H inst boot;
          case found of
            Some live \<Rightarrow> markOrphan H live (in_PID live)
          | None \<Rightarrow> db_PutInstance H (inst\<lparr>in_PID := 0, in_ShimPID := 0,
              in_Desired := (if hostRebooted (in_BootID inst) boot \<and> \<not> ps_Autostart spec then DesiredStopped else in_Desired inst),
              in_Observed := (if in_Observed inst \<noteq> ObservedStopped \<and> in_Observed inst \<noteq> ObservedFatal then ObservedStopped
                else in_Observed inst),
              in_Health := HealthUnknown\<rparr>) }) })"

definition recover_process :: "Host \<Rightarrow> string \<Rightarrow> ProcessSpec \<Rightarrow> unit attempt" where
  "recover_process H boot spec =
    andthen (ensureInstances H spec) (\<lambda>_.
    andthen (db_ListInstances H (ps_ProcessID spec)) (\<lambda>insts.
      each (\<lambda>inst. recoverInstance H spec inst boot) insts))"

text \<open>Sockets of unknown shims are listed and left alone; a missing directory is not an error.\<close>

definition recoverLeftoverSockets :: "Host \<Rightarrow> unit attempt" where
  "recoverLeftoverSockets H = do {
     r \<leftarrow> ask (\<lambda>l. h_discover H l (ly_ShimDir (h_layout H))) IoDiscover;
     case r of
       Inl e \<Rightarrow> if h_not_exist H e then ok () else throw e
     | Inr _ \<Rightarrow> ok () }"

definition recoverLocked :: "Host \<Rightarrow> unit attempt" where
  "recoverLocked H = do {
     modify (\<lambda>m. (resetAllHealth m)\<lparr>mg_lastShimCheck := []\<rparr>);
     andthen (db_GetBootID H) (\<lambda>boot.
     andthen (db_ListSpecs H) (\<lambda>specs.
     andthen (each (recover_process H boot) specs) (\<lambda>_. recoverLeftoverSockets H))) }"

end
