(* ===== verification/Process_History.thy ===== *)
theory Process_History imports Process_Store
begin

text \<open>
  What the tables of specifications and revisions stand for: one history per process, the list of
  its specifications from the first revision on. A write appends to it, a rollback appends a copy
  of an earlier entry, a deletion clears it; a writer that expects another revision is refused.
\<close>

section \<open>The tables are consistent\<close>

definition spec_ok :: "Store \<Rightarrow> string \<Rightarrow> ProcessSpec \<Rightarrow> bool" where
  "spec_ok st p s \<longleftrightarrow> ps_ProcessID s = p \<and> 1 \<le> ps_LatestRevision s
     \<and> map_option rv_Spec (mget (st_revisions st) (p, ps_LatestRevision s)) = Some s"

text \<open>The latest revision of a process, 0 when it has no specification.\<close>

definition latest :: "Store \<Rightarrow> string \<Rightarrow> int" where
  "latest st p = (case mget (st_specs st) p of None \<Rightarrow> 0 | Some s \<Rightarrow> ps_LatestRevision s)"

definition rows_ok :: "Store \<Rightarrow> bool" where
  "rows_ok st \<longleftrightarrow> (\<forall>p i. mhas (st_revisions st) (p, i) \<longleftrightarrow> 1 \<le> i \<and> i \<le> latest st p)
     \<and> mall (\<lambda>(p, i) r. ps_ProcessID (rv_Spec r) = p \<and> ps_LatestRevision (rv_Spec r) = i) (st_revisions st)"

definition store_ok :: "Store \<Rightarrow> bool" where
  "store_ok st \<longleftrightarrow> wfmap (st_specs st) \<and> wfmap (st_revisions st) \<and> unique_by ps_Name (st_specs st)
     \<and> mall (spec_ok st) (st_specs st) \<and> rows_ok st"

definition history :: "Store \<Rightarrow> string \<Rightarrow> ProcessSpec list" where
  "history st p = map (\<lambda>i. rv_Spec (the (mget (st_revisions st) (p, int i)))) [1..<Suc (nat (latest st p))]"

lemma length_history: "length (history st p) = nat (latest st p)"
  by (simp add: history_def)

lemma latest_nonneg: "store_ok st \<Longrightarrow> 0 \<le> latest st p"
  by (auto simp: store_ok_def latest_def spec_ok_def mall_def split: option.split) (metis dual_order.trans zero_le_one)

lemma length_history_int: "store_ok st \<Longrightarrow> int (length (history st p)) = latest st p"
  by (simp add: length_history latest_nonneg)

text \<open>One committed revision.\<close>

definition appended :: "ProcessSpec \<Rightarrow> RevisionRow \<Rightarrow> Store \<Rightarrow> Store" where
  "appended out r st = st\<lparr>st_specs := mput (ps_ProcessID out) out (st_specs st),
     st_revisions := mput (ps_ProcessID out, ps_LatestRevision out) r (st_revisions st)\<rparr>"

lemma commit_spec_result:
  assumes "commit_spec old out operator now comment st = Inr st'"
  shows "\<exists>r. rv_Spec r = out \<and> st' = appended out r st"
proof (intro exI conjI)
  let ?r = "\<lparr>rv_Operator = operator, rv_Timestamp = now, rv_Diff = SpecDiff old out, rv_Comment = comment, rv_Spec = out\<rparr>"
  show "rv_Spec ?r = out" by simp
  show "st' = appended out ?r st"
    using assms by (simp add: commit_spec_def appended_def Let_def split: if_splits)
qed

lemma upt_snoc_nat: "0 \<le> n \<Longrightarrow> [1..<Suc (nat (n + 1))] = [1..<Suc (nat n)] @ [nat (n + 1)]"
  by (simp add: nat_add_distrib)

lemma appended_store:
  assumes ok: "store_ok st" and out: "ps_LatestRevision out = latest st (ps_ProcessID out) + 1"
    and name: "\<not> name_taken (ps_ProcessID out) (ps_Name out) st" and r: "rv_Spec r = out"
    and st'_def: "st' = appended out r st"
  shows "store_ok st'"
    and "history st' = (history st)(ps_ProcessID out := history st (ps_ProcessID out) @ [out])"
proof -
  let ?p = "ps_ProcessID out"
  note st' = st'_def [unfolded appended_def]
  have pos: "0 \<le> latest st ?p" using ok by (rule latest_nonneg)
  have spec': "mget (st_specs st') a = (if a = ?p then Some out else mget (st_specs st) a)" for a
    by (simp add: st')
  have rev': "mget (st_revisions st') k = (if k = (?p, latest st ?p + 1) then Some r else mget (st_revisions st) k)" for k
    by (simp add: st' out)
  have latest: "latest st' p = (if p = ?p then latest st ?p + 1 else latest st p)" for p
    by (simp add: latest_def spec') (simp add: latest_def out)
  have free: "a = ?p" if "mget (st_specs st) a = Some x" "ps_Name x = ps_Name out" for a x
    using not_mexD [OF name [unfolded name_taken_def] that(1)] that(2) by simp
  have rows: "rows_ok st" and specs: "mall (spec_ok st) (st_specs st)" using ok by (simp_all add: store_ok_def)
  have "rows_ok st'"
    unfolding rows_ok_def mhas_def rev' latest mall_def
    using rows pos by (auto simp: rows_ok_def mhas_def mall_def out r split: if_splits)
  moreover have "mall (spec_ok st') (st_specs st')"
    unfolding mall_def spec'
  proof (intro allI impI)
    fix a x
    assume x: "(if a = ?p then Some out else mget (st_specs st) a) = Some x"
    show "spec_ok st' a x"
    proof (cases "a = ?p")
      case True
      with x have "x = out" by simp
      with True pos show ?thesis by (simp add: spec_ok_def rev' out r)
    next
      case False
      with x mallD [OF specs, of a x] show ?thesis by (simp add: spec_ok_def rev')
    qed
  qed
  ultimately show "store_ok st'"
    using ok free by (auto simp: store_ok_def st' intro: unique_by_mput)
  show "history st' = (history st)(?p := history st ?p @ [out])"
  proof
    fix p
    show "history st' p = ((history st)(?p := history st ?p @ [out])) p"
    proof (cases "p = ?p")
      case True
      have old: "map (\<lambda>i. rv_Spec (the (mget (st_revisions st') (?p, int i)))) [1..<Suc (nat (latest st ?p))] = history st ?p"
        unfolding history_def by (rule map_cong) (use pos in \<open>auto simp: rev'\<close>)
      have "int (nat (latest st ?p + 1)) = latest st ?p + 1" using pos by simp
      then have new: "rv_Spec (the (mget (st_revisions st') (?p, int (nat (latest st ?p + 1))))) = out"
        by (simp only: rev' r option.sel simp_thms if_True)
      have "history st' p = map (\<lambda>i. rv_Spec (the (mget (st_revisions st') (?p, int i)))) [1..<Suc (nat (latest st ?p + 1))]"
        using True by (simp only: history_def latest if_True simp_thms)
      also have "\<dots> = history st ?p @ [out]"
        unfolding upt_snoc_nat [OF pos] map_append old using new by (simp only: list.map)
      finally show ?thesis using True by simp
    next
      case False
      then show ?thesis by (simp add: history_def latest rev')
    qed
  qed
qed

lemma deleted_store:
  assumes ok: "store_ok st" and st': "st' = st\<lparr>st_specs := mdel p (st_specs st),
      st_revisions := mfilter (\<lambda>k _. fst k \<noteq> p) (st_revisions st)\<rparr>"
  shows "store_ok st'" and "history st' = (history st)(p := [])"
proof -
  have wf: "wfmap (st_revisions st)" using ok by (simp add: store_ok_def)
  have rev: "mget (st_revisions st') (q, i) = (if q = p then None else mget (st_revisions st) (q, i))" for q i
    by (simp add: st' mget_mfilter [OF wf] split: option.split)
  have latest: "latest st' q = (if q = p then 0 else latest st q)" for q
    by (simp add: latest_def st')
  have rows: "rows_ok st" and specs: "mall (spec_ok st) (st_specs st)" using ok by (simp_all add: store_ok_def)
  have "rows_ok st'"
    using rows by (auto simp: rows_ok_def mhas_def rev latest mall_def split: if_splits)
  moreover have "mall (spec_ok st') (st_specs st')"
    using specs by (auto simp: mall_def spec_ok_def rev) (auto simp: st' split: if_splits)
  ultimately show "store_ok st'"
    using ok by (auto simp: store_ok_def st' intro: unique_by_mdel)
  show "history st' = (history st)(p := [])"
    by (rule ext) (auto simp: history_def rev latest)
qed

section \<open>The operations on histories\<close>

text \<open>The specification a write stores.\<close>

definition written :: "gtime \<Rightarrow> ProcessSpec \<Rightarrow> int \<Rightarrow> gtime \<Rightarrow> ProcessSpec" where
  "written t spec revn created =
    (ApplyDefaults spec)\<lparr>ps_UpdatedAt := t, ps_LatestRevision := revn, ps_CreatedAt := created\<rparr>"

lemma written_simps [simp]:
  "ps_ProcessID (written t spec revn created) = ps_ProcessID spec"
  "ps_LatestRevision (written t spec revn created) = revn"
  by (simp_all add: written_def ApplyDefaults_def)

lemma PutSpec_result:
  assumes "PutSpec t spec expectedRevision operator comment st = Inr (out, st')"
  shows "latest st (ps_ProcessID spec) = expectedRevision"
    and "\<exists>created. out = written t spec (expectedRevision + 1) created"
    and "\<not> name_taken (ps_ProcessID spec) (ps_Name out) st"
    and "\<exists>r. rv_Spec r = out \<and> st' = appended out r st"
proof -
  have pid: "ps_ProcessID (ApplyDefaults spec) = ps_ProcessID spec" by (simp add: ApplyDefaults_def)
  have "\<exists>created old. out = written t spec (expectedRevision + 1) created
    \<and> latest st (ps_ProcessID spec) = expectedRevision \<and> \<not> name_taken (ps_ProcessID spec) (ps_Name out) st
    \<and> commit_spec old out operator t comment st = Inr st'"
  proof (cases "expectedRevision = 0")
    case True
    let ?out = "written t spec 1 (if ps_CreatedAt (ApplyDefaults spec) = time_zero then t else ps_CreatedAt (ApplyDefaults spec))"
    from assms True have "commit_spec zero_spec ?out operator t comment st = Inr st'" "out = ?out"
      "\<not> mhas (st_specs st) (ps_ProcessID spec)" "\<not> name_taken (ps_ProcessID spec) (ps_Name ?out) st"
      by (auto simp: PutSpec_def Let_def written_def pid)
    with True show ?thesis
      by (intro exI [of _ "if ps_CreatedAt (ApplyDefaults spec) = time_zero then t else ps_CreatedAt (ApplyDefaults spec)"]
          exI [of _ zero_spec]) (simp add: latest_def mhas_def)
  next
    case False
    from assms False obtain cur where cur: "mget (st_specs st) (ps_ProcessID spec) = Some cur"
      by (cases "mget (st_specs st) (ps_ProcessID spec)") (simp_all add: PutSpec_def Let_def pid)
    let ?c = "if ps_CreatedAt (ApplyDefaults spec) = time_zero then ps_CreatedAt cur else ps_CreatedAt (ApplyDefaults spec)"
    let ?out = "written t spec (ps_LatestRevision cur + 1) ?c"
    from assms False cur have "commit_spec cur ?out operator t comment st = Inr st'" "out = ?out"
      "ps_LatestRevision cur = expectedRevision" "\<not> name_taken (ps_ProcessID spec) (ps_Name ?out) st"
      by (auto simp: PutSpec_def Let_def written_def pid)
    with cur show ?thesis
      by (intro exI [of _ ?c] exI [of _ cur]) (simp add: latest_def)
  qed
  then show "latest st (ps_ProcessID spec) = expectedRevision"
    and "\<exists>created. out = written t spec (expectedRevision + 1) created"
    and "\<not> name_taken (ps_ProcessID spec) (ps_Name out) st"
    and "\<exists>r. rv_Spec r = out \<and> st' = appended out r st"
    using commit_spec_result by blast+
qed

lemma RollbackSpec_result:
  assumes "RollbackSpec t p toRevision expectedLatest operator comment st = Inr (out, st')"
  shows "latest st p = expectedLatest"
    and "\<exists>row. mget (st_revisions st) (p, toRevision) = Some row
      \<and> out = (rv_Spec row)\<lparr>ps_LatestRevision := expectedLatest + 1, ps_UpdatedAt := t\<rparr>
      \<and> \<not> name_taken p (ps_Name out) st \<and> (\<exists>r. rv_Spec r = out \<and> st' = appended out r st)"
proof -
  from assms obtain cur where cur: "mget (st_specs st) p = Some cur"
    by (cases "mget (st_specs st) p") (simp_all add: RollbackSpec_def)
  from assms cur have e: "ps_LatestRevision cur = expectedLatest"
    by (simp add: RollbackSpec_def split: if_splits)
  from assms cur e obtain row where row: "mget (st_revisions st) (p, toRevision) = Some row"
    by (cases "mget (st_revisions st) (p, toRevision)") (simp_all add: RollbackSpec_def)
  let ?out = "(rv_Spec row)\<lparr>ps_LatestRevision := expectedLatest + 1, ps_UpdatedAt := t\<rparr>"
  from assms cur e row have "\<not> name_taken p (ps_Name ?out) st" "commit_spec cur ?out operator t comment st = Inr st'" "out = ?out"
    by (auto simp: RollbackSpec_def Let_def)
  with row commit_spec_result show "\<exists>row. mget (st_revisions st) (p, toRevision) = Some row
      \<and> out = (rv_Spec row)\<lparr>ps_LatestRevision := expectedLatest + 1, ps_UpdatedAt := t\<rparr>
      \<and> \<not> name_taken p (ps_Name out) st \<and> (\<exists>r. rv_Spec r = out \<and> st' = appended out r st)"
    by blast
  show "latest st p = expectedLatest" using cur e by (simp add: latest_def)
qed

lemma row_in_history:
  assumes "store_ok st"
  shows "(\<exists>row. mget (st_revisions st) (p, i) = Some row \<and> s = rv_Spec row)
    \<longleftrightarrow> 1 \<le> i \<and> i \<le> int (length (history st p)) \<and> s = history st p ! nat (i - 1)"
proof -
  have has: "mhas (st_revisions st) (p, i) \<longleftrightarrow> 1 \<le> i \<and> i \<le> latest st p"
    using assms by (simp add: store_ok_def rows_ok_def)
  have "history st p ! nat (i - 1) = rv_Spec (the (mget (st_revisions st) (p, i)))" if "1 \<le> i" "i \<le> latest st p"
    using that by (simp add: history_def nth_append del: upt_Suc)
  with has show ?thesis
    unfolding length_history_int [OF assms]
    by (cases "mget (st_revisions st) (p, i)") (simp_all add: mhas_def, blast)
qed

lemma last_history:
  assumes "store_ok st"
  shows "mget (st_specs st) p = Some s \<longleftrightarrow> history st p \<noteq> [] \<and> s = last (history st p)"
proof (cases "mget (st_specs st) p")
  case None
  then show ?thesis by (simp add: history_def latest_def)
next
  case (Some x)
  have "mall (spec_ok st) (st_specs st)" using assms by (simp add: store_ok_def)
  then have "spec_ok st p x" using Some by (rule mallD)
  then have "1 \<le> ps_LatestRevision x" "map_option rv_Spec (mget (st_revisions st) (p, ps_LatestRevision x)) = Some x"
    by (simp_all add: spec_ok_def)
  moreover have "latest st p = ps_LatestRevision x" by (simp add: latest_def Some)
  ultimately have "1 \<le> latest st p" "\<exists>row. mget (st_revisions st) (p, latest st p) = Some row \<and> x = rv_Spec row"
    unfolding map_option_eq_Some by (simp_all only:, blast)
  with row_in_history [OF assms, of p "latest st p" x] have "x = history st p ! nat (latest st p - 1)" "history st p \<noteq> []"
    by (simp_all add: length_history flip: length_greater_0_conv)
  moreover have "nat (latest st p - 1) = nat (latest st p) - 1" by simp
  ultimately have "x = last (history st p)" "history st p \<noteq> []" by (simp_all add: last_conv_nth length_history)
  then show ?thesis using Some by (simp add: eq_commute)
qed

lemma row_spec:
  assumes "store_ok st" and "mget (st_revisions st) (p, i) = Some row"
  shows "ps_ProcessID (rv_Spec row) = p" and "ps_LatestRevision (rv_Spec row) = i"
  using assms by (auto simp: store_ok_def rows_ok_def dest!: mallD)

text \<open>
  C17: The tables of the store implement one append-only history of specifications per process. A
  write that succeeds saw the whole history, appends exactly its specification with the defaults
  filled in and the next revision number, and leaves every other process alone; a rollback appends a copy of the
  revision it names; a deletion clears the history of its process only; the current specification
  is the last entry and revision \<^verbatim>\<open>i\<close> the entry at \<^verbatim>\<open>i\<close>. Every operation keeps the tables consistent.
\<close>

theorem spec_history_refined:
  assumes "store_ok st"
  shows "(\<forall>t spec e operator comment out st'. PutSpec t spec e operator comment st = Inr (out, st') \<longrightarrow>
        store_ok st' \<and> e = int (length (history st (ps_ProcessID spec)))
        \<and> (\<exists>created. out = written t spec (e + 1) created)
        \<and> history st' = (history st)(ps_ProcessID spec := history st (ps_ProcessID spec) @ [out]))
    \<and> (\<forall>t p i e operator comment out st'. RollbackSpec t p i e operator comment st = Inr (out, st') \<longrightarrow>
        store_ok st' \<and> e = int (length (history st p)) \<and> 1 \<le> i \<and> i \<le> e
        \<and> out = (history st p ! nat (i - 1))\<lparr>ps_LatestRevision := e + 1, ps_UpdatedAt := t\<rparr>
        \<and> history st' = (history st)(p := history st p @ [out]))
    \<and> (\<forall>p e st'. DeleteSpec p e st = Inr st' \<longrightarrow>
        store_ok st' \<and> e = int (length (history st p)) \<and> history st' = (history st)(p := []))
    \<and> (\<forall>p s. GetSpec p st = Inr s \<longleftrightarrow> history st p \<noteq> [] \<and> s = last (history st p))
    \<and> (\<forall>p i s. GetRevisionSpec p i st = Inr s \<longleftrightarrow>
        1 \<le> i \<and> i \<le> int (length (history st p)) \<and> s = history st p ! nat (i - 1))"
proof (intro conjI allI impI)
  note len = length_history_int [OF assms]
  fix t spec e operator comment out st'
  assume "PutSpec t spec e operator comment st = Inr (out, st')"
  note put = PutSpec_result [OF this]
  from put(4) obtain r where r: "rv_Spec r = out" "st' = appended out r st" by blast
  have out: "ps_LatestRevision out = latest st (ps_ProcessID out) + 1" "ps_ProcessID out = ps_ProcessID spec"
    using put(1,2) by auto
  have free: "\<not> name_taken (ps_ProcessID out) (ps_Name out) st" using put(3) out(2) by simp
  show "store_ok st'" by (rule appended_store(1) [OF assms out(1) free r])
  show "e = int (length (history st (ps_ProcessID spec)))" using put(1) len by simp
  show "\<exists>created. out = written t spec (e + 1) created" by (rule put(2))
  show "history st' = (history st)(ps_ProcessID spec := history st (ps_ProcessID spec) @ [out])"
    using appended_store(2) [OF assms out(1) free r] out(2) by simp
next
  note len = length_history_int [OF assms]
  fix t p i e operator comment out st'
  assume "RollbackSpec t p i e operator comment st = Inr (out, st')"
  note rb = RollbackSpec_result [OF this]
  from rb(2) obtain row r where row: "mget (st_revisions st) (p, i) = Some row"
    and out: "out = (rv_Spec row)\<lparr>ps_LatestRevision := e + 1, ps_UpdatedAt := t\<rparr>"
    and free: "\<not> name_taken p (ps_Name out) st" and r: "rv_Spec r = out" "st' = appended out r st" by blast
  have p: "ps_ProcessID out = p" using row_spec(1) [OF assms row] by (simp add: out)
  have n: "ps_LatestRevision out = latest st (ps_ProcessID out) + 1" using rb(1) unfolding p by (simp add: out)
  from row_in_history [OF assms, of p i "rv_Spec row"] row
  have i: "1 \<le> i" "i \<le> int (length (history st p))" "rv_Spec row = history st p ! nat (i - 1)" by auto
  show "store_ok st'" by (rule appended_store(1) [OF assms n _ r]) (simp add: p free)
  show e: "e = int (length (history st p))" using rb(1) len by simp
  show "1 \<le> i" "i \<le> e" using i e by simp_all
  show "out = (history st p ! nat (i - 1))\<lparr>ps_LatestRevision := e + 1, ps_UpdatedAt := t\<rparr>"
    unfolding out i(3) ..
  show "history st' = (history st)(p := history st p @ [out])"
    using appended_store(2) [OF assms n _ r] free p by simp
next
  fix p e st'
  assume "DeleteSpec p e st = Inr st'"
  then have e: "e = latest st p" and st': "st' = st\<lparr>st_specs := mdel p (st_specs st),
      st_revisions := mfilter (\<lambda>k _. fst k \<noteq> p) (st_revisions st)\<rparr>"
    by (auto simp: DeleteSpec_def latest_def split: option.splits if_splits)
  show "store_ok st'" "history st' = (history st)(p := [])" by (rule deleted_store [OF assms st'])+
  show "e = int (length (history st p))" using e length_history_int [OF assms] by simp
next
  fix p s
  show "GetSpec p st = Inr s \<longleftrightarrow> history st p \<noteq> [] \<and> s = last (history st p)"
    unfolding last_history [OF assms, symmetric] by (auto simp: GetSpec_def split: option.split)
next
  fix p i s
  have "(rv_Spec row)\<lparr>ps_LatestRevision := i\<rparr> = rv_Spec row" if "mget (st_revisions st) (p, i) = Some row" for row
    using row_spec(2) [OF assms that] by (cases "rv_Spec row") simp
  then have "GetRevisionSpec p i st = Inr s \<longleftrightarrow> (\<exists>row. mget (st_revisions st) (p, i) = Some row \<and> s = rv_Spec row)"
    by (cases "mget (st_revisions st) (p, i)") (auto simp: GetRevisionSpec_def)
  then show "GetRevisionSpec p i st = Inr s \<longleftrightarrow> 1 \<le> i \<and> i \<le> int (length (history st p)) \<and> s = history st p ! nat (i - 1)"
    unfolding row_in_history [OF assms] .
qed

section \<open>Writers that expect a revision\<close>

text \<open>The interface of a store with optimistic concurrency: an update names a key and the revision it
  expects there; it succeeds only then and leaves the next one, and no update lowers a revision.\<close>

locale optimistic_store =
  fixes update :: "'u \<Rightarrow> 's \<Rightarrow> goerror + 's"
    and key :: "'u \<Rightarrow> 'k"
    and expects :: "'u \<Rightarrow> int"
    and revn :: "'s \<Rightarrow> 'k \<Rightarrow> int"
    and inv :: "'s \<Rightarrow> bool"
  assumes update_expected: "inv s \<Longrightarrow> update u s = Inr t \<Longrightarrow> revn s (key u) = expects u"
    and update_next: "inv s \<Longrightarrow> update u s = Inr t \<Longrightarrow> revn t (key u) = expects u + 1"
    and update_frame: "inv s \<Longrightarrow> update u s = Inr t \<Longrightarrow> k \<noteq> key u \<Longrightarrow> revn t k = revn s k"
    and update_inv: "inv s \<Longrightarrow> update u s = Inr t \<Longrightarrow> inv t"
begin

text \<open>A refused update leaves the store as it is.\<close>

definition attempt_update :: "'u \<Rightarrow> 's \<Rightarrow> 's" where
  "attempt_update u s = (case update u s of Inl _ \<Rightarrow> s | Inr t \<Rightarrow> t)"

lemma attempt_inv: "inv s \<Longrightarrow> inv (attempt_update u s)"
  by (auto simp: attempt_update_def dest: update_inv split: sum.split)

lemma attempts_inv: "inv s \<Longrightarrow> inv (fold attempt_update us s)"
  by (induction us arbitrary: s) (simp_all add: attempt_inv)

lemma attempt_mono:
  assumes "inv s"
  shows "revn s k \<le> revn (attempt_update u s) k"
proof (cases "update u s")
  case (Inr t)
  then show ?thesis
    using update_expected [OF assms Inr] update_next [OF assms Inr] update_frame [OF assms Inr, of k]
    by (cases "k = key u") (simp_all add: attempt_update_def)
qed (simp add: attempt_update_def)

lemma attempts_mono: "inv s \<Longrightarrow> revn s k \<le> revn (fold attempt_update us s) k"
proof (induction us arbitrary: s)
  case (Cons u us)
  from attempt_mono [OF Cons.prems, of k u] Cons.IH [OF attempt_inv [OF Cons.prems], of u] show ?case by simp
qed simp

lemma lost_update:
  assumes "inv s" and "update u s = Inr t" and "key v = key u" and "expects v = expects u"
  shows "\<exists>e. update v (fold attempt_update us t) = Inl e"
proof (cases "update v (fold attempt_update us t)")
  case (Inr r)
  have t: "inv t" using update_inv [OF assms(1,2)] .
  have "revn (fold attempt_update us t) (key u) = expects u"
    using update_expected [OF attempts_inv [OF t] Inr] assms(3,4) by simp
  with attempts_mono [OF t, of "key u" us] update_next [OF assms(1,2)] show ?thesis by simp
qed simp

end

text \<open>The two ways to write a specification.\<close>

datatype spec_write =
    Write gtime ProcessSpec int string string
  | Revert gtime string int int string string

fun write_spec :: "spec_write \<Rightarrow> Store \<Rightarrow> goerror + Store" where
  "write_spec (Write t spec e operator comment) st = map_sum id snd (PutSpec t spec e operator comment st)"
| "write_spec (Revert t p i e operator comment) st = map_sum id snd (RollbackSpec t p i e operator comment st)"

fun write_process :: "spec_write \<Rightarrow> string" where
  "write_process (Write t spec e operator comment) = ps_ProcessID spec"
| "write_process (Revert t p i e operator comment) = p"

fun write_expects :: "spec_write \<Rightarrow> int" where
  "write_expects (Write t spec e operator comment) = e"
| "write_expects (Revert t p i e operator comment) = e"

lemma write_spec_cases:
  assumes "store_ok st" and "write_spec w st = Inr st'"
  obtains out r where "ps_ProcessID out = write_process w" "latest st (write_process w) = write_expects w"
    "ps_LatestRevision out = write_expects w + 1" "rv_Spec r = out" "st' = appended out r st" "store_ok st'"
proof (cases w)
  case (Write t spec e operator comment)
  with assms(2) obtain out where put: "PutSpec t spec e operator comment st = Inr (out, st')" by auto
  note res = PutSpec_result [OF put]
  from res(4) obtain r where r: "rv_Spec r = out" "st' = appended out r st" by blast
  have out: "ps_ProcessID out = ps_ProcessID spec" "ps_LatestRevision out = e + 1" using res(2) by auto
  have "store_ok st'" by (rule appended_store(1) [OF assms(1) _ _ r]) (simp_all add: out res(1,3))
  with that out res(1) r Write show ?thesis by simp
next
  case (Revert t p i e operator comment)
  with assms(2) obtain out where rb: "RollbackSpec t p i e operator comment st = Inr (out, st')" by auto
  note res = RollbackSpec_result [OF rb]
  from res(2) obtain row r where row: "mget (st_revisions st) (p, i) = Some row"
    and out: "out = (rv_Spec row)\<lparr>ps_LatestRevision := e + 1, ps_UpdatedAt := t\<rparr>"
    and free: "\<not> name_taken p (ps_Name out) st" and r: "rv_Spec r = out" "st' = appended out r st" by blast
  have p: "ps_ProcessID out = p" "ps_LatestRevision out = e + 1" using row_spec(1) [OF assms(1) row] by (simp_all add: out)
  have "store_ok st'" by (rule appended_store(1) [OF assms(1) _ _ r]) (simp_all add: p res(1) free)
  with that p res(1) r Revert show ?thesis by simp
qed

lemma latest_appended:
  "latest (appended out r st) p = (if p = ps_ProcessID out then ps_LatestRevision out else latest st p)"
  by (simp add: latest_def appended_def)

interpretation spec_cas: optimistic_store write_spec write_process write_expects latest store_ok
  by unfold_locales (erule (1) write_spec_cases; simp add: latest_appended)+

text \<open>
  No update of a specification is lost. When a write or a rollback has succeeded that expected some
  revision of a process, every other write or rollback of that process that expects the same revision
  is refused, whatever further writes and rollbacks happen in between, of that process or of others.
\<close>

theorem no_lost_update:
  assumes "store_ok st" and "write_spec w st = Inr st'"
    and "write_process w2 = write_process w" and "write_expects w2 = write_expects w"
  shows "\<exists>e. write_spec w2 (fold (\<lambda>u s. case write_spec u s of Inl _ \<Rightarrow> s | Inr t \<Rightarrow> t) ws st') = Inl e"
  using spec_cas.lost_update [OF assms, of ws] unfolding spec_cas.attempt_update_def .

section \<open>Examples\<close>

definition web_spec :: ProcessSpec where
  "web_spec = zero_spec\<lparr>ps_ProcessID := ''p1'', ps_Name := ''web'', ps_Command := ''/bin/web'', ps_Instances := 1\<rparr>"

lemma web_valid: "ValidateSpec (ApplyDefaults web_spec) = None"
  by (simp add: ValidateSpec_def ApplyDefaults_def web_spec_def zero_spec_def WithDefaults_def zero_log_policy_def
      nameRE_match_def is_alpha_def ValidateDirectory_def)

lemma empty_store_ok: "store_ok empty_store"
  by (simp add: store_ok_def empty_store_def rows_ok_def latest_def mhas_def)

lemma web_put: "\<exists>out st'. PutSpec 5 web_spec 0 operator comment empty_store = Inr (out, st')"
  using web_valid
  by (simp add: PutSpec_def Let_def empty_store_def mhas_def name_taken_def mex_def commit_spec_def)

theorem spec_history_witness:
  "\<exists>out st'. PutSpec 5 web_spec 0 ''alice'' [] empty_store = Inr (out, st') \<and> store_ok st'
     \<and> history st' = (history empty_store)(''p1'' := [out])"
proof -
  obtain out st' where put: "PutSpec 5 web_spec 0 ''alice'' [] empty_store = Inr (out, st')"
    using web_put by blast
  from spec_history_refined [OF empty_store_ok, THEN conjunct1, rule_format, OF put] put
  show ?thesis by (auto simp: web_spec_def history_def latest_def empty_store_def)
qed

theorem no_lost_update_witness:
  "\<exists>st' e. write_spec (Write 5 web_spec 0 ''alice'' []) empty_store = Inr st'
     \<and> write_spec (Write 7 web_spec 0 ''bob'' []) st' = Inl e"
proof -
  obtain out st' where put: "PutSpec 5 web_spec 0 ''alice'' [] empty_store = Inr (out, st')"
    using web_put by blast
  then have st': "write_spec (Write 5 web_spec 0 ''alice'' []) empty_store = Inr st'" by simp
  have "\<exists>e. write_spec (Write 7 web_spec 0 ''bob'' [])
      (fold (\<lambda>u s. case write_spec u s of Inl _ \<Rightarrow> s | Inr t \<Rightarrow> t) [] st') = Inl e"
    by (rule no_lost_update [OF empty_store_ok st']) simp_all
  then show ?thesis using st' by auto
qed

end
