(* ===== verification/Process_Restart.thy ===== *)
theory Process_Restart imports Process_History
begin

text \<open>
  The restart policy on validated specifications (\<^verbatim>\<open>process/restart.go\<close>) and the table of observed
  states against the step relation \<open>obs_step\<close>. What is used of \<^verbatim>\<open>float64\<close> and \<^verbatim>\<open>math.Pow\<close> is named
  \<open>scales_up\<close>: an integer up to \<^verbatim>\<open>2^53\<close> converts exactly, and a positive one times a power of a factor
  that is at least one is not smaller than the integer and is never \<^verbatim>\<open>NaN\<close> or negative.
\<close>

definition scales_up :: "float_ops \<Rightarrow> bool" where
  "scales_up fl \<longleftrightarrow> (\<forall>i. 0 < i \<longrightarrow> i \<le> 9007199254740992 \<longrightarrow> fl_conv fl i = of_int i) \<and> (\<forall>i m n. 0 < i \<longrightarrow> i \<le> 9007199254740992 \<longrightarrow> 1 \<le> m \<longrightarrow>
     (case fl_scaled fl i m n of Finite d \<Rightarrow> of_int i \<le> d | PosInf \<Rightarrow> True | NegInf \<Rightarrow> False | NaN \<Rightarrow> False))"

definition first_delay :: "Backoff \<Rightarrow> int" where
  "first_delay b = (if bo_Initial b \<le> 0 then nanos else bo_Initial b)"

definition longest_delay :: "Backoff \<Rightarrow> int" where
  "longest_delay b = (if bo_Max b \<le> 0 then 60 * nanos else bo_Max b)"

lemma backoff_bounds:
  assumes "scales_up fl" and "first_delay b \<le> 9007199254740992" and "longest_delay b \<le> 9007199254740992"
    and "bo_Multiplier b = 0 \<or> 1 \<le> bo_Multiplier b"
  shows "min (first_delay b) (longest_delay b) \<le> backoffDelay fl b n \<and> backoffDelay fl b n \<le> longest_delay b"
proof -
  let ?m = "if bo_Multiplier b = 0 then 2 else bo_Multiplier b"
  have pos: "0 < first_delay b" "0 < longest_delay b" by (simp_all add: first_delay_def longest_delay_def)
  have m: "1 \<le> ?m" using assms(4) by auto
  have conv: "fl_conv fl (longest_delay b) = of_int (longest_delay b)"
    using assms(1,3) pos(2) by (simp add: scales_up_def)
  have "case fl_scaled fl (first_delay b) ?m n of Finite d \<Rightarrow> of_int (first_delay b) \<le> d | PosInf \<Rightarrow> True
      | NegInf \<Rightarrow> False | NaN \<Rightarrow> False"
    using assms(1) pos(1) assms(2) m unfolding scales_up_def by blast
  moreover have "backoffDelay fl b n = (case fl_scaled fl (first_delay b) ?m n of PosInf \<Rightarrow> longest_delay b
      | NegInf \<Rightarrow> longest_delay b | NaN \<Rightarrow> fl_nan fl
      | Finite d \<Rightarrow> if d > of_int (longest_delay b) then longest_delay b else if d < 0 then longest_delay b else \<lfloor>d\<rfloor>)"
    unfolding backoffDelay_def Let_def first_delay_def [symmetric] longest_delay_def [symmetric] conv
    by (simp split: f64.split)
  ultimately show ?thesis
    by (cases "fl_scaled fl (first_delay b) ?m n") (auto simp: not_less floor_le_iff le_floor_iff)
qed

lemma validated_policy:
  assumes "ValidateSpec spec = None"
  shows "bo_Multiplier (rs_Backoff (ps_Restart spec)) = 0 \<or> 1 \<le> bo_Multiplier (rs_Backoff (ps_Restart spec))"
    and "0 < rs_MaxRetries (ps_Restart spec) \<Longrightarrow> rs_RetryWindow (ps_Restart spec) \<noteq> 0"
  using assms by (auto simp: ValidateSpec_def split: if_splits)

text \<open>Does the policy ask for a restart, retries aside?\<close>

definition wants_restart :: "RestartPolicy \<Rightarrow> DesiredState \<Rightarrow> ObservedState \<Rightarrow> int \<Rightarrow> bool" where
  "wants_restart pol desired observed code \<longleftrightarrow> desired \<noteq> DesiredStopped
     \<and> (observed = ObservedExited \<or> observed = ObservedBackoff) \<and> rs_Mode pol \<noteq> RestartNever
     \<and> (rs_Mode pol = RestartOnFailure \<longrightarrow> code \<noteq> 0)"


definition exact_floats :: float_ops where
  "exact_floats = \<lparr>fl_scaled = (\<lambda>i m n. Finite (of_int i * m ^ n)), fl_conv = of_int, fl_nan = 0\<rparr>"

lemma exact_floats_scale: "scales_up exact_floats"
proof -
  have "(of_int i :: rat) \<le> of_int i * m ^ n" if "0 < i" "1 \<le> m" for i :: int and m :: rat and n :: nat
    using that mult_left_mono [of 1 "m ^ n" "of_int i :: rat"] by simp
  then show ?thesis by (simp add: scales_up_def exact_floats_def)
qed

definition flaky_spec :: ProcessSpec where
  "flaky_spec = web_spec\<lparr>ps_Restart := \<lparr>rs_Mode = RestartOnFailure, rs_MaxRetries = 3, rs_RetryWindow = 60 * nanos,
     rs_Backoff = \<lparr>bo_Initial = nanos, bo_Max = 5 * nanos, bo_Multiplier = 2\<rparr>\<rparr>\<rparr>"

lemma flaky_valid: "ValidateSpec flaky_spec = None"
  by (simp add: flaky_spec_def web_spec_def zero_spec_def ValidateSpec_def nameRE_match_def is_alpha_def
      ValidateDirectory_def zero_log_policy_def)


text \<open>
  The transition table is the life cycle it is meant to be: an event is accepted in a state exactly
  when the step relation \<open>obs_step\<close>, stated event by event, has a step, and leads where that step leads. In particular only
  a start or a retry leads to STARTING, a FATAL instance leaves that state by an explicit start or by being lost and
  an UNKNOWN one by being found running or stopped.
\<close>

theorem transitions_exact:
  "(ApplyObserved s ev = Inr t \<longleftrightarrow> obs_step s ev t)
    \<and> (ApplyObserved s ev = Inr ObservedStarting \<longrightarrow> ev = EvStart \<or> ev = EvRetry)
    \<and> (ApplyObserved ObservedFatal ev = Inr t \<longrightarrow> (ev, t) = (EvStart, ObservedStarting) \<or> (ev, t) = (EvLost, ObservedUnknown))
    \<and> (ApplyObserved ObservedUnknown ev = Inr t \<longrightarrow> t = ObservedRunning \<and> ev = EvStartOK
        \<or> t = ObservedStopped \<and> ev = EvStopped \<or> t = ObservedUnknown \<and> ev = EvLost)"
  unfolding apply_observed_iff by (auto simp: obs_from_fatal obs_from_unknown elim: obs_step.cases)

theorem transitions_witness:
  "ApplyObserved ObservedStopped EvStart = Inr ObservedStarting \<and> obs_step ObservedStopped EvStart ObservedStarting"
proof -
  have "ApplyObserved ObservedStopped EvStart = Inr ObservedStarting"
    by (simp add: ApplyObserved_def observedTransitions_def)
  with transitions_exact [of ObservedStopped EvStart ObservedStarting] show ?thesis by blast
qed

end
