(* ===== verification/Process_Trace.thy ===== *)
theory Process_Trace imports Process_Manager Process_Restart
begin

text \<open>
  What a pass asks of the host. The record of questions only grows; a class of computations is
  characterised by the questions it may add to it.
\<close>

definition extends :: "(io \<Rightarrow> bool) \<Rightarrow> Manager \<Rightarrow> Manager \<Rightarrow> bool" where
  "extends P m m' \<longleftrightarrow> (\<exists>new. mg_io m' = new @ mg_io m \<and> list_all P new)"

lemma extends_refl: "extends P m m"
  by (simp add: extends_def)

lemma extends_trans: "extends P m m' \<Longrightarrow> extends P m' m'' \<Longrightarrow> extends P m m''"
  unfolding extends_def by (metis append_assoc list_all_append)

interpretation asked: effect_order "extends P" for P
  by unfold_locales (auto intro: extends_refl extends_trans)

text \<open>Questions that start, stop or launch nothing.\<close>

fun harmless :: "io \<Rightarrow> bool" where
  "harmless (IoLaunch sock iid r) = False"
| "harmless (IoStart sock req r) = False"
| "harmless (IoStop sock req r) = False"
| "harmless e = True"

lemma io_ask: "(\<And>r. P (ev r)) \<Longrightarrow> state_io_rel (extends P) (ask f ev)"
  by (simp add: state_io_rel_def extends_def)

lemma io_modify: "(\<And>m. mg_io (f m) = mg_io m) \<Longrightarrow> state_io_rel (extends P) (modify f)"
  by (simp add: state_io_rel_def extends_def)

lemma io_store: "state_io_rel (extends P) (store_read f)" "state_io_rel (extends P) (store_write g)"
  by (auto simp: state_io_rel_def extends_def store_read_def store_write_def split: sum.split)

lemma io_db: "(\<And>e. P (IoDb e)) \<Longrightarrow> state_io_rel (extends P) c \<Longrightarrow> state_io_rel (extends P) (db H c)"
  unfolding db_def by (intro asked.io_intros io_ask) simp_all

lemma io_conj: "state_io_rel (extends P) a \<Longrightarrow> state_io_rel (extends P) b \<Longrightarrow> state_io_rel (extends P) (conj_io a b)"
  unfolding conj_io_def by (intro asked.io_intros)

lemma keeps_io [simp]:
  "mg_io (resetHealth iid m) = mg_io m" "mg_io (forgetInstance iid m) = mg_io m" "mg_io (resetAllHealth m) = mg_io m"
  "mg_io (set_shim_check iid t m) = mg_io m" "mg_io (drop_shim_check iid m) = mg_io m" "mg_io (drop_next_try iid m) = mg_io m"
  by (simp_all add: resetHealth_def forgetInstance_def resetAllHealth_def set_shim_check_def drop_shim_check_def drop_next_try_def)

lemmas quiet_intros = asked.io_intros io_modify io_store io_db io_conj

lemma quiet_host:
  "state_io_rel (extends harmless) (now H)" "state_io_rel (extends harmless) (pidAlive H pid)"
  "state_io_rel (extends harmless) (socketExists H sock)" "state_io_rel (extends harmless) (Reconnect H sock)"
  "state_io_rel (extends harmless) (audit H a b c d e)" "state_io_rel (extends harmless) (writeRuntime H inst)"
  "state_io_rel (extends harmless) (readRuntime H iid)" "state_io_rel (extends harmless) (no_error err)"
  unfolding now_def pidAlive_def socketExists_def Reconnect_def audit_def writeRuntime_def readRuntime_def no_error_def
  by (intro quiet_intros io_ask; simp)+

lemma quiet_db:
  "state_io_rel (extends harmless) (db_GetBootID H)" "state_io_rel (extends harmless) (bootID H)"
  "state_io_rel (extends harmless) (db_ListSpecs H)" "state_io_rel (extends harmless) (db_GetSpec H p)"
  "state_io_rel (extends harmless) (db_ListInstances H p)" "state_io_rel (extends harmless) (db_GetInstance H iid)"
  "state_io_rel (extends harmless) (db_PutInstance H inst)" "state_io_rel (extends harmless) (db_DeleteInstance H iid)"
  unfolding db_GetBootID_def bootID_def db_ListSpecs_def db_GetSpec_def db_ListInstances_def db_GetInstance_def
    db_PutInstance_def db_DeleteInstance_def
  by (intro quiet_intros; simp)+

lemma quiet_steps:
  "state_io_rel (extends harmless) (markOrphan H inst pid)" "state_io_rel (extends harmless) (live_instance H inst boot)"
  "state_io_rel (extends harmless) (applyRunning H inst pid boot)" "state_io_rel (extends harmless) (recordFailure H iid)"
  "state_io_rel (extends harmless) (extraInstanceDeletable H inst)"
  unfolding markOrphan_def live_instance_def applyRunning_def recordFailure_def extraInstanceDeletable_def Let_def
  by (intro quiet_intros quiet_host quiet_db; simp)+

section \<open>A machine for examples\<close>

text \<open>Nothing runs on it, every call succeeds and the clock counts the questions.\<close>

definition calm_host :: Host where
  "calm_host = \<lparr>h_layout = \<lparr>ly_Root = ''/d'', ly_ShimDir = ''/d/shim'', ly_LogDir = ''/d/logs'', ly_RuntimeDir = ''/d/runtime''\<rparr>,
     h_shim_bin = ''procmesh-shim'', h_has_lookup = False, h_has_logs = False, h_boot_id = ''b1'', h_float = exact_floats,
     h_not_exist = (\<lambda>_. False), h_now = (\<lambda>l. int (length l)), h_log_now = (\<lambda>_. None),
     h_alive = (\<lambda>_ _. False), h_socket = (\<lambda>_ _. False), h_reconnect = (\<lambda>_ _. Inl (Plain ''refused'')),
     h_launch = (\<lambda>_ _ _. Inr 100), h_start = (\<lambda>_ _ _. Inr \<lparr>sp_Pid = 200, sp_Error = []\<rparr>),
     h_stop = (\<lambda>_ _ _. Inr \<lparr>sx_ExitCode = 0, sx_Error = []\<rparr>), h_check = (\<lambda>_ _ _. None), h_others = (\<lambda>m. m),
     h_user = (\<lambda>_ _. None), h_look_path = (\<lambda>_. Inr ''procmesh-shim''), h_prepare = (\<lambda>_ _. None), h_writes = (\<lambda>_. True),
     h_write_runtime = (\<lambda>_ _. None), h_read_runtime = (\<lambda>_ _. None), h_limit = (\<lambda>_ _ _. True),
     h_rotate = (\<lambda>_ _ _ _. None), h_discover = (\<lambda>_ _. Inr []), h_random = (\<lambda>_. Inr ''r1''), h_db = (\<lambda>_. None)\<rparr>"

definition no_manager :: Manager where
  "no_manager = \<lparr>mg_Store = empty_store, mg_failures = [], mg_nextTry = [], mg_healthTrackers = [], mg_lastHealthCheck = [],
     mg_lastHealthRestart = [], mg_lastShimCheck = [], mg_io = []\<rparr>"

text \<open>One process with one instance that should run.\<close>

definition web_row :: Instance where
  "web_row = (new_instance ''p1'' 0 DesiredRunning)\<lparr>in_PID := 42, in_ShimPID := 41, in_Observed := ObservedRunning, in_BootID := ''b1''\<rparr>"

definition web_manager :: Manager where
  "web_manager = no_manager\<lparr>mg_Store := empty_store\<lparr>st_specs := [(''p1'', web_spec\<lparr>ps_LatestRevision := 1\<rparr>)],
     st_instances := [(''p1:0'', web_row)]\<rparr>\<rparr>"

text \<open>Rules to run a concrete pass by simplification: a continuation is unfolded once its turn comes.\<close>

lemma bind_weak: "c = c' \<Longrightarrow> State_Monad.bind c f = State_Monad.bind c' f"
  by simp

lemma andthen_weak: "c = c' \<Longrightarrow> andthen c f = andthen c' f"
  by simp

lemma ignoring_weak: "c = c' \<Longrightarrow> ignoring c k = ignoring c' k"
  by simp

lemmas run_weak = bind_weak andthen_weak ignoring_weak if_weak_cong option.case_cong_weak sum.case_cong_weak prod.case_cong_weak

lemmas run_defs = Let_def split_beta now_def pidAlive_def socketExists_def Reconnect_def audit_def writeRuntime_def
  readRuntime_def Launch_def shim_Start_def shim_Stop_def health_Check_def bootID_def db_GetBootID_def db_GetSpec_def
  db_ListInstances_def db_GetInstance_def db_PutInstance_def db_DeleteInstance_def db_StartOp_def db_FinishOperation_def
  startInstance_def check_user_def launch_shim_def applyRunning_def start_child_def log_files_def started_def
  start_failed_def start_error_def handleExit_def markOrphan_def live_instance_def recordFailure_def set_shim_check_def
  drop_shim_check_def drop_next_try_def writeLogPaths_def start_request_def refresh_def verified_lately_def
  refresh_answer_def refreshNoSocket_def stopInstance_def signalStop_def put_stopped_def stopped_row_def applyHealth_def
  health_restart_def note_probe_def tracker_def checked_lately_def restarted_lately_def reconcileInstance_def
  reconcile_exited_def sameBoot_def observe_or_def ApplyObserved_def observedTransitions_def PutInstance_def
  GetInstance_def ResourceLimitSet_def

lemmas example_defs = calm_host_def web_manager_def no_manager_def empty_store_def web_spec_def zero_spec_def web_row_def
  new_instance_def MakeInstanceID_def

end
