(* ===== verification/Process_Recover.thy ===== *)
theory Process_Recover imports Process_Trace
begin

text \<open>
  The recovery of an agent that starts: it launches, starts and stops nothing, and what it records of
  an instance rests on what it saw.
\<close>

section \<open>Recovery only looks\<close>

lemma quiet_ensure: "state_io_rel (extends harmless) (ensureInstances H spec)"
  unfolding ensureInstances_def ensure_one_def drop_extra_def Let_def
  by (intro quiet_intros quiet_host quiet_db quiet_steps; simp)

lemma quiet_recover: "state_io_rel (extends harmless) (recoverInstance H spec inst boot)"
  unfolding recoverInstance_def Let_def
  by (intro quiet_intros quiet_host quiet_db quiet_steps)

lemma quiet_recovery: "state_io_rel (extends harmless) (recoverLocked H)"
  unfolding recoverLocked_def recover_process_def recoverLeftoverSockets_def
  by (intro quiet_intros io_ask quiet_host quiet_db quiet_ensure quiet_recover; simp)

section \<open>Recovery records what it saw\<close>

text \<open>The record holds what the state of an instance claims: a running one was reported alive by its
  shim under that process identifier, a lost one was seen alive, any other has no process.\<close>

definition evidence :: "Host \<Rightarrow> io list \<Rightarrow> Instance \<Rightarrow> bool" where
  "evidence H es inst \<longleftrightarrow>
     in_Observed inst = ObservedRunning \<and>
       (\<exists>st. IoStatus (ShimSocket (h_layout H) (in_InstanceID inst)) (Inr st) \<in> set es \<and> ss_Alive st \<and> ss_Pid st = in_PID inst)
   \<or> in_Observed inst = ObservedUnknown \<and> IoAlive (in_PID inst) True \<in> set es
   \<or> (in_Observed inst = ObservedStopped \<or> in_Observed inst = ObservedFatal) \<and> in_PID inst = 0"

lemma evidence_mono: "evidence H es inst \<Longrightarrow> set es \<subseteq> set es' \<Longrightarrow> evidence H es' inst"
  unfolding evidence_def by blast

lemma evidence_Cons: "evidence H es inst \<Longrightarrow> evidence H (e # es) inst"
  by (erule evidence_mono) auto

lemma evidence_desired [simp]: "evidence H es (inst\<lparr>in_Desired := d\<rparr>) = evidence H es inst"
  by (simp add: evidence_def)

text \<open>Every row that satisfies \<open>P\<close> has its evidence, and so has every row of \<open>S\<close>, read before.\<close>

definition recovered :: "Host \<Rightarrow> (Instance \<Rightarrow> bool) \<Rightarrow> Instance set \<Rightarrow> Manager \<Rightarrow> bool" where
  "recovered H P S m \<longleftrightarrow> wfmap (st_instances (mg_Store m)) \<and>
     mall (\<lambda>k i. in_InstanceID i = k \<and> (P i \<longrightarrow> evidence H (mg_io m) i)) (st_instances (mg_Store m))
     \<and> (\<forall>i\<in>S. P i \<longrightarrow> evidence H (mg_io m) i)"

lemma recovered_io: "recovered H P S m \<Longrightarrow> recovered H P S (m\<lparr>mg_io := e # mg_io m\<rparr>)"
  by (auto simp: recovered_def intro: evidence_Cons elim!: mall_mono)

lemma recovered_same:
  "recovered H P S m \<Longrightarrow> mg_Store m' = mg_Store m \<Longrightarrow> mg_io m' = mg_io m \<Longrightarrow> recovered H P S m'"
  by (simp add: recovered_def)

lemma recovered_put:
  assumes "recovered H P S m" and "P i \<Longrightarrow> evidence H (mg_io m) i"
  shows "recovered H P S (m\<lparr>mg_Store := (mg_Store m)\<lparr>st_instances := mput (in_InstanceID i) i (st_instances (mg_Store m))\<rparr>\<rparr>)"
  using assms by (auto simp: recovered_def)

lemma recovered_del:
  "recovered H P S m \<Longrightarrow> recovered H P S (m\<lparr>mg_Store := (mg_Store m)\<lparr>st_instances := mdel k (st_instances (mg_Store m))\<rparr>\<rparr>)"
  by (auto simp: recovered_def)

text \<open>Reading, putting and deleting rows.\<close>

lemma wp_rows_list:
  assumes "recovered H P {} m"
  shows "wp (db_ListInstances H p) (\<lambda>r m'. case r of Inl e \<Rightarrow> recovered H P {} m' | Inr rows \<Rightarrow>
      recovered H P (set rows) m' \<and> rows = ListInstances p (mg_Store m')) m"
proof -
  have "evidence H (mg_io m) i" if "i \<in> set (ListInstances p (mg_Store m))" "P i" for i
  proof -
    from that(1) have "i \<in> set (mvals (st_instances (mg_Store m)))" by (auto simp: ListInstances_def)
    moreover have wf: "wfmap (st_instances (mg_Store m))" using assms by (simp add: recovered_def)
    ultimately obtain k where "mget (st_instances (mg_Store m)) k = Some i" using in_mvals_iff [OF wf, of i] by blast
    with assms that(2) show ?thesis unfolding recovered_def by (blast dest: mallD)
  qed
  with assms have "recovered H P (set (ListInstances p (mg_Store m))) m" by (simp add: recovered_def)
  from recovered_io [OF this] recovered_io [OF assms]
  show ?thesis by (simp add: db_ListInstances_def split: option.split)
qed

lemma wp_put_row:
  assumes "recovered H P S m" and "P i \<Longrightarrow> evidence H (mg_io m) i"
  shows "wp (db_PutInstance H i) (\<lambda>_. recovered H P S) m"
proof -
  have "P i \<Longrightarrow> evidence H (IoDb None # mg_io m) i" using assms(2) by (simp add: evidence_Cons)
  from recovered_put [OF recovered_io [OF assms(1), of "IoDb None"], of i] this recovered_io [OF assms(1)]
  show ?thesis by (auto simp: db_PutInstance_def PutInstance_def split: option.split)
qed

text \<open>A row put with its evidence is covered from then on.\<close>

definition covering :: "(Instance \<Rightarrow> bool) \<Rightarrow> string \<Rightarrow> Instance \<Rightarrow> bool" where
  "covering P k i \<longleftrightarrow> P i \<or> in_InstanceID i = k"

lemma wp_cover_row:
  assumes "recovered H P S m" and "evidence H (mg_io m) i"
  shows "wp (db_PutInstance H i) (\<lambda>r. recovered H (if r = Inr () then covering P (in_InstanceID i) else P) {}) m"
proof -
  have "recovered H (covering P (in_InstanceID i)) {} (m\<lparr>mg_io := IoDb None # mg_io m,
      mg_Store := (mg_Store m)\<lparr>st_instances := mput (in_InstanceID i) i (st_instances (mg_Store m))\<rparr>\<rparr>)"
    using recovered_io [OF assms(1), of "IoDb None"] evidence_Cons [OF assms(2), of "IoDb None"]
    by (auto simp: recovered_def mall_def covering_def split: if_splits)
  moreover have "recovered H P {} (m\<lparr>mg_io := e # mg_io m\<rparr>)" for e
    using recovered_io [OF assms(1), of e] by (simp add: recovered_def)
  ultimately show ?thesis
    by (simp add: db_PutInstance_def PutInstance_def split: option.split)
qed

lemma wp_del_row: "recovered H P S m \<Longrightarrow> wp (db_DeleteInstance H k) (\<lambda>_. recovered H P S) m"
  using recovered_del [OF recovered_io [of H P S m "IoDb None"], of k]
  by (auto simp: db_DeleteInstance_def DeleteInstance_def recovered_io split: option.split)

section \<open>The steps of a recovery\<close>

lemma wp_get_row:
  assumes "recovered H P S m"
  shows "wp (db_GetInstance H k) (\<lambda>_. recovered H P S) m"
  using recovered_io [OF assms] by (simp add: db_GetInstance_def split: option.split)

lemma wp_ensure_one:
  assumes "recovered H P S m"
  shows "wp (ensure_one H p d i) (\<lambda>_. recovered H P S) m"
  unfolding ensure_one_def wp_bind
  by (rule wp_mono [OF wp_get_row [OF assms]])
     (auto simp: new_instance_def evidence_def intro: wp_put_row split: sum.split)

lemma wp_alive:
  assumes "recovered H P S m"
  shows "wp (pidAlive H pid) (\<lambda>b m'. recovered H P S m' \<and> (b \<longrightarrow> IoAlive pid True \<in> set (mg_io m'))) m"
  using recovered_io [OF assms] assms by (simp add: pidAlive_def)

lemma wp_deletable:
  assumes "recovered H P S m"
  shows "wp (extraInstanceDeletable H i) (\<lambda>_. recovered H P S) m"
  using wp_mono [OF wp_alive [OF assms]] assms by (simp add: extraInstanceDeletable_def)

lemma recovered_forget: "recovered H P S m \<Longrightarrow> recovered H P S (forgetInstance k m)"
  by (erule recovered_same) (simp_all add: forgetInstance_def resetHealth_def)

lemma wp_drop_extra:
  assumes "recovered H P S m" and "i \<in> S" and "\<And>i d. P (i\<lparr>in_Desired := d\<rparr>) = P i"
  shows "wp (drop_extra H n i) (\<lambda>_. recovered H P S) m"
proof -
  have put: "wp (if in_Desired i \<noteq> DesiredStopped then db_PutInstance H (i\<lparr>in_Desired := DesiredStopped\<rparr>) else ok ())
      (\<lambda>_. recovered H P S) m"
    using assms by (auto simp: recovered_def intro!: wp_put_row)
  show ?thesis
    unfolding drop_extra_def Let_def
    by (intro wp_ifI wp_retI wp_andthen_inv [OF put] wp_inv_rules wp_deletable wp_del_row recovered_forget assms(1))
qed

lemma recovered_fewer: "recovered H P S m \<Longrightarrow> T \<subseteq> S \<Longrightarrow> recovered H P T m"
  by (auto simp: recovered_def)

lemma wp_ensure:
  assumes "recovered H P {} m" and "\<And>i d. P (i\<lparr>in_Desired := d\<rparr>) = P i"
  shows "wp (ensureInstances H spec) (\<lambda>_. recovered H P {}) m"
proof -
  have rows: "wp (db_ListInstances H p) (\<lambda>r m'. recovered H P {} m' \<and> (\<forall>is. r = Inr is \<longrightarrow> recovered H P (set is) m')) m'"
    if "recovered H P {} m'" for p m'
    by (rule wp_mono [OF wp_rows_list [OF that]]) (auto split: sum.splits intro: recovered_fewer)
  have extras: "wp (each (drop_extra H n) is) (\<lambda>_. recovered H P {}) m'" if "recovered H P (set is) m'" for n "is" m'
    by (rule wp_mono [OF wp_each [where I = "recovered H P (set is)"]])
       (rule wp_drop_extra, assumption, assumption, rule assms(2), rule that, erule recovered_fewer, simp)
  show ?thesis
    unfolding ensureInstances_def
  proof (rule wp_andthenI [OF rows [OF assms(1)]], simp)
    fix "is" t
    assume "recovered H P {} t \<and> (\<forall>js. Inr is = Inr js \<longrightarrow> recovered H P (set js) t)"
    then have t: "recovered H P {} t" ..
    show "wp (andthen (each (\<lambda>i. ensure_one H (ps_ProcessID spec) (inheritProcessDesired is (ps_Instances spec)) i)
          (map int [0..<nat (ps_Instances spec)])) (\<lambda>_. andthen (db_ListInstances H (ps_ProcessID spec))
          (\<lambda>all. each (drop_extra H (ps_Instances spec)) all))) (\<lambda>_. recovered H P {}) t"
    proof (rule wp_andthen_inv)
      show "wp (each (\<lambda>i. ensure_one H (ps_ProcessID spec) (inheritProcessDesired is (ps_Instances spec)) i)
          (map int [0..<nat (ps_Instances spec)])) (\<lambda>_. recovered H P {}) t"
        by (rule wp_each [where I = "recovered H P {}"]) (rule wp_ensure_one, assumption, rule t)
      show "wp (andthen (db_ListInstances H (ps_ProcessID spec)) (\<lambda>all. each (drop_extra H (ps_Instances spec)) all))
          (\<lambda>_. recovered H P {}) u" if "recovered H P {} u" for u
        by (rule wp_andthenI [OF rows [OF that]]) (auto intro: extras)
    qed
  qed
qed

text \<open>Recovering an instance covers its row.\<close>

abbreviation covered :: "Host \<Rightarrow> (Instance \<Rightarrow> bool) \<Rightarrow> string \<Rightarrow> goerror + 'a \<Rightarrow> Manager \<Rightarrow> bool" where
  "covered H P k r \<equiv> recovered H (if isl r then P else covering P k) {}"

lemma cover_row:
  assumes "recovered H P {} m" and "evidence H (mg_io m) i" and "in_InstanceID i = k"
  shows "wp (db_PutInstance H i) (covered H P k) m"
proof (rule wp_mono [OF wp_cover_row [OF assms(1,2)]])
  fix r :: "goerror + unit" and t
  assume "recovered H (if r = Inr () then covering P (in_InstanceID i) else P) {} t"
  then show "covered H P k r t" by (cases r) (simp_all add: assms(3))
qed

lemma wp_runtime:
  assumes "recovered H P {} m"
  shows "wp (writeRuntime H i) (\<lambda>_ m'. recovered H P {} m' \<and> set (mg_io m) \<subseteq> set (mg_io m')) m"
  using recovered_io [OF assms] by (auto simp: writeRuntime_def split: option.split)

lemma wp_live:
  assumes "recovered H P {} m"
  shows "wp (live_instance H inst boot) (\<lambda>r m'. recovered H P {} m' \<and> (\<forall>live. r = Some live \<longrightarrow>
      IoAlive (in_PID live) True \<in> set (mg_io m') \<and> in_InstanceID live = in_InstanceID inst)) m"
  using assms recovered_io [OF assms] recovered_io [OF recovered_io [OF assms]]
    recovered_io [OF recovered_io [OF recovered_io [OF assms]]]
  by (simp add: live_instance_def pidAlive_def readRuntime_def split: option.split)

lemma wp_orphan:
  assumes "recovered H P {} m" and "IoAlive (in_PID i) True \<in> set (mg_io m)" and "in_InstanceID i = k"
  shows "wp (markOrphan H i (in_PID i)) (covered H P k) m"
  unfolding markOrphan_def Let_def
proof (simp only: wp_ignoring, simp add: audit_def, rule wp_mono [OF wp_runtime], rule recovered_io [OF assms(1)])
  let ?row = "i\<lparr>in_Observed := ObservedUnknown, in_Health := HealthUnknown\<rparr>"
  fix v t
  assume "recovered H P {} t \<and> set (mg_io (m\<lparr>mg_io := IoAudit (in_ProcessID i) ''ORPHAN_PROCESS'' [] [] ''SUCCESS'' # mg_io m\<rparr>)) \<subseteq> set (mg_io t)"
  then have t: "recovered H P {} t" "IoAlive (in_PID i) True \<in> set (mg_io t)" using assms(2) by auto
  show "wp (db_PutInstance H (i\<lparr>in_Observed := ObservedUnknown, in_Health := HealthUnknown\<rparr>)) (covered H P k) t"
    by (rule cover_row [OF t(1)]) (simp_all add: evidence_def t(2) assms(3))
qed

lemma recovered_shim: "recovered H P S m \<Longrightarrow> recovered H P S (set_shim_check k t m)"
  by (erule recovered_same) (simp_all add: set_shim_check_def)

lemma covered_Inl: "recovered H P {} t \<Longrightarrow> covered H P k (Inl e) t"
  by simp

lemma wp_running:
  assumes "recovered H P {} m" and "IoStatus (ShimSocket (h_layout H) (in_InstanceID i)) (Inr st) \<in> set (mg_io m)"
    and "ss_Alive st" and "in_InstanceID i = k"
  shows "wp (applyRunning H i (ss_Pid st) boot) (covered H P k) m"
proof -
  let ?row = "i\<lparr>in_PID := ss_Pid st, in_Health := HealthUnknown, in_BootID := boot, in_LastError := [],
    in_Observed := (if in_Observed i \<noteq> ObservedRunning then observe_or ObservedRunning (in_Observed i) EvStartOK else in_Observed i)\<rparr>"
  have "wp (andthen (writeRuntime H ?row) (\<lambda>_. andthen (db_PutInstance H ?row) (\<lambda>_. ok ?row))) (covered H P k) m'"
    if m': "recovered H P {} m'" "set (mg_io m) \<subseteq> set (mg_io m')" for m'
  proof (rule wp_andthenI [OF wp_runtime [OF m'(1)]], simp)
    fix v t
    assume t: "recovered H P {} t \<and> set (mg_io m') \<subseteq> set (mg_io t)"
    then have "evidence H (mg_io t) ?row" using assms(2,3) m'(2) by (auto simp: evidence_def)
    then have "wp (db_PutInstance H ?row) (covered H P k) t" using t assms(4) by (intro cover_row) simp_all
    then show "wp (andthen (db_PutInstance H ?row) (\<lambda>_. ok ?row)) (covered H P k) t"
      by (rule wp_andthenI) simp_all
  qed
  from this [OF recovered_shim [OF recovered_io [OF assms(1)]]] show ?thesis
    by (simp add: applyRunning_def now_def Let_def subset_insertI)
qed

lemma wp_recover_row:
  assumes "recovered H P {} m"
  shows "wp (recoverInstance H spec i boot) (covered H P (in_InstanceID i)) m"
proof -
  let ?sock = "ShimSocket (h_layout H) (in_InstanceID i)"
  let ?rest = "do { found \<leftarrow> live_instance H i boot; case found of
      Some live \<Rightarrow> markOrphan H live (in_PID live)
    | None \<Rightarrow> db_PutInstance H (i\<lparr>in_PID := 0, in_ShimPID := 0,
        in_Desired := (if hostRebooted (in_BootID i) boot \<and> \<not> ps_Autostart spec then DesiredStopped else in_Desired i),
        in_Observed := (if in_Observed i \<noteq> ObservedStopped \<and> in_Observed i \<noteq> ObservedFatal then ObservedStopped else in_Observed i),
        in_Health := HealthUnknown\<rparr>) }"
  have rest: "wp ?rest (covered H P (in_InstanceID i)) m'" if "recovered H P {} m'" for m'
    by (rule wp_bindI [OF wp_live [OF that]]; rule wp_optionI)
       (auto intro!: cover_row wp_orphan simp: evidence_def)
  let ?dial = "do { present \<leftarrow> socketExists H ?sock; if present then Reconnect H ?sock else throw (Plain ''no shim'') }"
  have dial: "wp ?dial (\<lambda>r m'. recovered H P {} m' \<and> (\<forall>st. r = Inr st \<longrightarrow> IoStatus ?sock (Inr st) \<in> set (mg_io m'))) m"
    using recovered_io [OF assms] recovered_io [OF recovered_io [OF assms]]
    by (simp add: socketExists_def Reconnect_def)
  have eq: "recoverInstance H spec i boot = do { r \<leftarrow> ?dial;
      if (case r of Inr st \<Rightarrow> ss_Alive st \<and> sameBoot (in_BootID i) boot | Inl _ \<Rightarrow> False)
      then andthen (applyRunning H i (case r of Inr st \<Rightarrow> ss_Pid st | Inl _ \<Rightarrow> 0) boot) (\<lambda>_. ok ()) else ?rest }"
    by (simp add: recoverInstance_def Let_def)
  show ?thesis unfolding eq
  proof (rule wp_bindI [OF dial], rule wp_ifI)
    fix r t
    assume t: "recovered H P {} t \<and> (\<forall>st. r = Inr st \<longrightarrow> IoStatus ?sock (Inr st) \<in> set (mg_io t))"
      and "case r of Inr st \<Rightarrow> ss_Alive st \<and> sameBoot (in_BootID i) boot | Inl _ \<Rightarrow> False"
    then obtain st where r: "r = Inr st" "ss_Alive st" "IoStatus ?sock (Inr st) \<in> set (mg_io t)"
      by (auto split: sum.splits)
    have "wp (applyRunning H i (ss_Pid st) boot) (covered H P (in_InstanceID i)) t"
      by (rule wp_running) (use t r in simp_all)
    then show "wp (andthen (applyRunning H i (case r of Inr st \<Rightarrow> ss_Pid st | Inl _ \<Rightarrow> 0) boot) (\<lambda>_. ok ()))
        (covered H P (in_InstanceID i)) t"
      unfolding r(1) sum.case by (rule wp_andthenI) simp_all
  next
    fix r t
    assume "recovered H P {} t \<and> (\<forall>st. r = Inr st \<longrightarrow> IoStatus ?sock (Inr st) \<in> set (mg_io t))"
    then show "wp ?rest (covered H P (in_InstanceID i)) t" by (intro rest) simp
  qed
qed

section \<open>The whole recovery\<close>

lemma recovered_weaken:
  "recovered H P {} m \<Longrightarrow> (\<And>k i. mget (st_instances (mg_Store m)) k = Some i \<Longrightarrow> Q i \<Longrightarrow> P i) \<Longrightarrow> recovered H Q {} m"
  unfolding recovered_def by (auto elim!: mall_mono)

lemma listed_rows:
  assumes "wfmap (st_instances st)" and "mget (st_instances st) k = Some i"
  shows "i \<in> set (ListInstances (in_ProcessID i) st)"
proof -
  have "i \<in> set (mvals (st_instances st))" using in_mvals_iff [OF assms(1), of i] assms(2) by blast
  then show ?thesis by (simp add: ListInstances_def)
qed

lemma wp_recover_process:
  assumes "recovered H P {} m" and "\<And>i d. P (i\<lparr>in_Desired := d\<rparr>) = P i"
  shows "wp (recover_process H boot spec)
    (\<lambda>r m'. r = Inr () \<longrightarrow> recovered H (\<lambda>i. P i \<or> in_ProcessID i = ps_ProcessID spec) {} m') m"
proof -
  let ?p = "ps_ProcessID spec"
  let ?J = "\<lambda>ys :: Instance list. recovered H (\<lambda>i. P i \<or> in_ProcessID i = ?p \<and> in_InstanceID i \<notin> in_InstanceID ` set ys) {}"
  have loop: "wp (each (\<lambda>i. recoverInstance H spec i boot) rows) (\<lambda>r m'. r = Inr () \<longrightarrow> ?J [] m') m1"
    if "?J rows m1" for rows m1
  proof (rule wp_each_rest [where J = ?J and xs = rows])
    show "?J rows m1" by (rule that)
    fix x ys s
    assume "?J (x # ys) s"
    from wp_recover_row [OF this, of spec x boot]
    show "wp (recoverInstance H spec x boot) (\<lambda>r m'. r = Inr () \<longrightarrow> ?J ys m') s"
      by (rule wp_mono) (auto simp: covering_def elim!: recovered_weaken)
  qed
  show ?thesis
    unfolding recover_process_def
  proof (rule wp_andthenI [OF wp_ensure [OF assms]], simp)
    fix t
    assume t: "recovered H P {} t"
    show "wp (andthen (db_ListInstances H ?p) (each (\<lambda>i. recoverInstance H spec i boot)))
        (\<lambda>r m'. r = Inr () \<longrightarrow> recovered H (\<lambda>i. P i \<or> in_ProcessID i = ?p) {} m') t"
    proof (rule wp_andthenI [where R = "\<lambda>r m'. \<forall>rows. r = Inr rows \<longrightarrow> ?J rows m'"])
      show "wp (db_ListInstances H ?p) (\<lambda>r m'. \<forall>rows. r = Inr rows \<longrightarrow> ?J rows m') t"
        using recovered_io [OF t, of "IoDb None"]
        by (auto simp: db_ListInstances_def recovered_def dest: listed_rows elim!: mall_mono split: option.split)
      show "wp (each (\<lambda>i. recoverInstance H spec i boot) rows)
          (\<lambda>r m'. r = Inr () \<longrightarrow> recovered H (\<lambda>i. P i \<or> in_ProcessID i = ?p) {} m') u"
        if "\<forall>rows'. Inr rows = Inr rows' \<longrightarrow> ?J rows' u" for rows u
        using wp_mono [OF loop, of rows u] that by simp
    qed simp
  qed
qed

lemma wp_recover_all:
  assumes "recovered H (\<lambda>i. in_ProcessID i \<in> D) {} m"
  shows "wp (each (recover_process H boot) specs)
    (\<lambda>r m'. r = Inr () \<longrightarrow> recovered H (\<lambda>i. in_ProcessID i \<in> D \<union> ps_ProcessID ` set specs) {} m') m"
  using assms
proof (induction specs arbitrary: D m)
  case (Cons s ss)
  show ?case unfolding each.simps
  proof (rule wp_andthenI [OF wp_recover_process [OF Cons.prems]])
    fix v t
    assume "Inr v = Inr () \<longrightarrow> recovered H (\<lambda>i. in_ProcessID i \<in> D \<or> in_ProcessID i = ps_ProcessID s) {} t"
    then have "recovered H (\<lambda>i. in_ProcessID i \<in> insert (ps_ProcessID s) D) {} t"
      by (auto elim!: recovered_weaken)
    from wp_mono [OF Cons.IH [OF this]]
    show "wp (each (recover_process H boot) ss)
        (\<lambda>r m'. r = Inr () \<longrightarrow> recovered H (\<lambda>i. in_ProcessID i \<in> D \<union> ps_ProcessID ` set (s # ss)) {} m') t"
      by auto
  qed simp_all
qed simp

text \<open>
  C6: Recovery observes and never acts. Whatever the machine answers, recovering the instances when the agent
  starts launches no shim and starts or stops no process. When it succeeds, every instance of every
  process with a specification is recorded as the machine was seen: RUNNING only with the process its own shim
  reported alive, UNKNOWN only with a process that was seen alive, and otherwise STOPPED or FATAL
  with no process at all.
\<close>

theorem recovery_only_observes:
  assumes "wfmap (st_instances (mg_Store m))" and "mall (\<lambda>k i. in_InstanceID i = k) (st_instances (mg_Store m))"
    and "mg_io m = []" and "run_state (recoverLocked H) m = (r, m')"
  shows "list_all harmless (mg_io m')
    \<and> (r = Inr () \<longrightarrow> (\<forall>k i. mget (st_instances (mg_Store m')) k = Some i \<longrightarrow>
        in_ProcessID i \<in> ps_ProcessID ` set (ListSpecs (mg_Store m)) \<longrightarrow> evidence H (mg_io m') i))"
proof
  show "list_all harmless (mg_io m')"
    using quiet_recovery [of H] assms(3,4) unfolding state_io_rel_def extends_def by (metis append_Nil2 snd_conv)
  let ?m = "(resetAllHealth m)\<lparr>mg_lastShimCheck := []\<rparr>"
  let ?specs = "ListSpecs (mg_Store m)"
  have start: "recovered H (\<lambda>i. in_ProcessID i \<in> {}) {} (?m\<lparr>mg_io := [IoDb None, IoDb None]\<rparr>)"
    using assms(1,2) by (simp add: recovered_def resetAllHealth_def)
  have left: "wp (recoverLeftoverSockets H) (\<lambda>_. recovered H P {}) u" if "recovered H P {} u" for P u
    using that by (simp add: recoverLeftoverSockets_def recovered_io split: sum.split)
  have "wp (recoverLocked H) (\<lambda>r m'. r = Inr () \<longrightarrow> recovered H (\<lambda>i. in_ProcessID i \<in> ps_ProcessID ` set ?specs) {} m') m"
    using wp_andthenI [OF wp_recover_all [OF start], where f = "\<lambda>_. recoverLeftoverSockets H"
        and Q = "\<lambda>r m'. r = Inr () \<longrightarrow> recovered H (\<lambda>i. in_ProcessID i \<in> ps_ProcessID ` set ?specs) {} m'"]
      wp_mono [OF left] assms(3)
    by (auto simp: recoverLocked_def db_GetBootID_def db_ListSpecs_def resetAllHealth_def split: option.split sum.split)
  from wp_runD [OF this assms(4)]
  show "r = Inr () \<longrightarrow> (\<forall>k i. mget (st_instances (mg_Store m')) k = Some i \<longrightarrow>
      in_ProcessID i \<in> ps_ProcessID ` set ?specs \<longrightarrow> evidence H (mg_io m') i)"
    by (auto simp: recovered_def dest: mallD)
qed

text \<open>An agent that restarts while the shim of its only instance reports the child alive.\<close>

definition shim_alive_host :: Host where
  "shim_alive_host = calm_host\<lparr>h_socket := (\<lambda>_ _. True), h_reconnect := (\<lambda>_ _. Inr \<lparr>ss_Pid = 43, ss_Alive = True, ss_ExitCode = 0\<rparr>)\<rparr>"

lemma recovery_example:
  "fst (run_state (recoverLocked shim_alive_host) web_manager) = Inr ()
    \<and> map_option in_PID (mget (st_instances (mg_Store (snd (run_state (recoverLocked shim_alive_host) web_manager)))) ''p1:0'') = Some 43"
  by code_simp

theorem recovery_witness:
  "\<exists>m' i. run_state (recoverLocked shim_alive_host) web_manager = (Inr (), m') \<and> list_all harmless (mg_io m')
     \<and> mget (st_instances (mg_Store m')) ''p1:0'' = Some i \<and> in_PID i = 43
     \<and> (in_ProcessID i = ''p1'' \<longrightarrow> evidence shim_alive_host (mg_io m') i)"
proof -
  obtain r m' where run: "run_state (recoverLocked shim_alive_host) web_manager = (r, m')"
    by (cases "run_state (recoverLocked shim_alive_host) web_manager")
  with recovery_example obtain i where i: "r = Inr ()" "mget (st_instances (mg_Store m')) ''p1:0'' = Some i" "in_PID i = 43"
    by auto
  have ids: "ps_ProcessID ` set (ListSpecs (mg_Store web_manager)) = {''p1''}"
    by (simp add: ListSpecs_def web_manager_def no_manager_def empty_store_def web_spec_def)
  have "in_InstanceID web_row = ''p1:0''" by code_simp
  then have "wfmap (st_instances (mg_Store web_manager))" "mall (\<lambda>k i. in_InstanceID i = k) (st_instances (mg_Store web_manager))"
    "mg_io web_manager = []"
    by (simp_all add: web_manager_def no_manager_def empty_store_def wfmap_def mall_def)
  from recovery_only_observes [OF this run] i run ids show ?thesis by auto
qed

end
