(* ===== verification/Process_Safety.thy ===== *)
theory Process_Safety imports Process_Trace
begin

text \<open>
  What a pass over an instance may start. A pass starts something only after the shim of the instance
  reported its child dead, provided the process it has on record is alive.
\<close>

section \<open>Which questions a step may ask\<close>

fun starts :: "io \<Rightarrow> bool" where
  "starts (IoLaunch sock iid r) = True"
| "starts (IoStart sock req r) = True"
| "starts e = False"

abbreviation still :: "io \<Rightarrow> bool" where
  "still e \<equiv> \<not> starts e"

text \<open>Every computation extends the record; the ones of the second group start nothing.\<close>

lemma any_host:
  assumes "\<And>e. still e \<Longrightarrow> P e"
  shows "state_io_rel (extends P) (now H)" "state_io_rel (extends P) (pidAlive H pid)"
    "state_io_rel (extends P) (socketExists H sock)" "state_io_rel (extends P) (Reconnect H sock)"
    "state_io_rel (extends P) (audit H a b c d e)" "state_io_rel (extends P) (writeRuntime H inst)"
    "state_io_rel (extends P) (readRuntime H iid)" "state_io_rel (extends P) (shim_Stop H sock req)"
  unfolding now_def pidAlive_def socketExists_def Reconnect_def audit_def writeRuntime_def readRuntime_def no_error_def
    shim_Stop_def
  by (intro quiet_intros io_ask; simp add: assms)+

lemma any_check:
  assumes "\<And>e. still e \<Longrightarrow> P e"
  shows "state_io_rel (extends P) (health_Check H spec pid)"
  unfolding health_Check_def
  by (intro asked.io_bind io_ask) (auto simp: assms state_io_rel_def extends_def)

lemma any_db:
  assumes "\<And>e. still e \<Longrightarrow> P e"
  shows "state_io_rel (extends P) (bootID H)" "state_io_rel (extends P) (db_GetInstance H iid)"
    "state_io_rel (extends P) (db_PutInstance H inst)" "state_io_rel (extends P) (db_DeleteInstance H iid)"
  unfolding db_GetBootID_def bootID_def db_GetInstance_def db_PutInstance_def db_DeleteInstance_def
  by (intro quiet_intros; simp add: assms)+

lemma any_step:
  assumes "\<And>e. still e \<Longrightarrow> P e"
  shows "state_io_rel (extends P) (markOrphan H inst pid)" "state_io_rel (extends P) (live_instance H inst boot)"
    "state_io_rel (extends P) (recordFailure H iid)" "state_io_rel (extends P) (put_stopped H inst)"
    "state_io_rel (extends P) (noteStartError H inst msg)"
  unfolding markOrphan_def live_instance_def recordFailure_def put_stopped_def noteStartError_def Let_def
  by (intro quiet_intros any_host any_db assms; simp)+

lemma any_exit:
  assumes "\<And>e. still e \<Longrightarrow> P e"
  shows "state_io_rel (extends P) (handleExit H inst st)"
  unfolding handleExit_def Let_def
  by (intro quiet_intros any_host any_db any_step assms; simp)

lemma any_refresh:
  assumes "\<And>e. still e \<Longrightarrow> P e"
  shows "state_io_rel (extends P) (refresh H inst boot)"
  unfolding refresh_def verified_lately_def refresh_answer_def refreshNoSocket_def Let_def
  by (intro quiet_intros any_host any_db any_step any_exit assms; simp)

lemma any_stop:
  assumes "\<And>e. still e \<Longrightarrow> P e"
  shows "state_io_rel (extends P) (stopInstance H spec inst)"
  unfolding stopInstance_def signalStop_def Let_def
  by (intro quiet_intros any_host any_db any_step assms; simp)

lemma any_start: "state_io_rel (extends (\<lambda>_. True)) (startInstance H spec inst boot)"
  unfolding startInstance_def check_user_def launch_shim_def applyRunning_def start_child_def log_files_def started_def
    start_failed_def start_error_def Launch_def shim_Start_def Let_def
  by (intro quiet_intros io_ask any_host any_db any_step; simp)

lemma any_restart: "state_io_rel (extends (\<lambda>_. True)) (health_restart H spec inst t boot)"
  unfolding health_restart_def Let_def
  by (intro quiet_intros any_db any_stop any_start; simp)

lemma any_probe: "state_io_rel (extends P) (note_probe iid spec err t)"
  by (simp add: note_probe_def state_io_rel_def extends_def Let_def)

lemma any_health: "state_io_rel (extends (\<lambda>_. True)) (applyHealth H spec inst boot)"
  unfolding applyHealth_def Let_def
  by (intro quiet_intros any_host any_check any_db any_probe any_restart; simp)

lemma still_health:
  assumes "\<not> hc_RestartOnFailure (ps_Health spec)"
  shows "state_io_rel (extends still) (applyHealth H spec inst boot)"
  unfolding applyHealth_def Let_def
  by (simp only: assms not_False_eq_True simp_thms if_True, intro quiet_intros any_host any_check any_db any_probe; simp)

section \<open>Refreshing a live instance\<close>

text \<open>The shim reported its child dead.\<close>

definition reported_dead :: "string \<Rightarrow> io list \<Rightarrow> bool" where
  "reported_dead sock es \<longleftrightarrow> (\<exists>st. IoStatus sock (Inr st) \<in> set es \<and> \<not> ss_Alive st)"

text \<open>Everything started was started after such a report (the record lists the latest question first).\<close>

fun starts_after_death :: "string \<Rightarrow> io list \<Rightarrow> bool" where
  "starts_after_death sock [] \<longleftrightarrow> True"
| "starts_after_death sock (e # es) \<longleftrightarrow> starts_after_death sock es \<and> (starts e \<longrightarrow> reported_dead sock es)"

lemma reported_append: "reported_dead sock es \<Longrightarrow> reported_dead sock (new @ es)"
  by (auto simp: reported_dead_def)

lemma starts_extend:
  assumes "starts_after_death sock es" and "reported_dead sock es \<or> list_all still new"
  shows "starts_after_death sock (new @ es)"
  using assms
proof (induction new)
  case (Cons e new)
  then have "starts_after_death sock (new @ es)" by auto
  with Cons.prems reported_append show ?case by auto
qed simp

lemma starts_extends:
  assumes "state_io_rel (extends P) c" and "starts_after_death sock (mg_io m)"
    and "reported_dead sock (mg_io m) \<or> P = still"
  shows "wp c (\<lambda>_ m'. starts_after_death sock (mg_io m')) m"
proof (rule wp_runI)
  fix r m'
  assume "run_state c m = (r, m')"
  with assms(1) obtain new where "mg_io m' = new @ mg_io m" "list_all P new"
    unfolding state_io_rel_def extends_def by (metis snd_conv)
  with starts_extend [OF assms(2), of new] assms(3) show "starts_after_death sock (mg_io m')" by auto
qed

lemma keeps_report:
  assumes "state_io_rel (extends P) c" and "reported_dead sock (mg_io m)"
  shows "wp c (\<lambda>_ m'. reported_dead sock (mg_io m')) m"
proof (rule wp_runI)
  fix r m'
  assume "run_state c m = (r, m')"
  with assms(1) obtain new where "mg_io m' = new @ mg_io m"
    unfolding state_io_rel_def extends_def by (metis snd_conv)
  with assms(2) show "reported_dead sock (mg_io m')" by (simp add: reported_append)
qed

lemma exit_id: "wp (handleExit H inst st) (\<lambda>gone _. in_InstanceID gone = in_InstanceID inst) m"
  by (simp add: handleExit_def recordFailure_def now_def db_PutInstance_def PutInstance_def Let_def split: option.split)

definition refreshed :: "Host \<Rightarrow> Instance \<Rightarrow> goerror + Instance \<Rightarrow> Manager \<Rightarrow> bool" where
  "refreshed H inst r m' \<longleftrightarrow> (\<forall>i. r = Inr i \<longrightarrow> in_InstanceID i = in_InstanceID inst \<and>
     (in_Observed i = ObservedRunning \<or> in_Observed i = ObservedUnknown
      \<or> reported_dead (ShimSocket (h_layout H) (in_InstanceID inst)) (mg_io m')))"

lemma refreshed_orphan:
  "in_InstanceID i = in_InstanceID inst \<Longrightarrow>
   wp (andthen (markOrphan H i pid) (\<lambda>_. ok (i\<lparr>in_Observed := ObservedUnknown\<rparr>))) (refreshed H inst) m"
  by (rule wp_andthenI [where R = "\<lambda>_ _. True"]) (simp_all add: refreshed_def)

lemma refresh_live:
  assumes "sameBoot (in_BootID inst) boot" and "0 < in_PID inst" and "\<And>l. h_alive H l (in_PID inst)"
  shows "wp (refresh H inst boot) (refreshed H inst) m"
proof -
  let ?sock = "ShimSocket (h_layout H) (in_InstanceID inst)"
  have pid: "\<not> in_PID inst \<le> 0" using assms(2) by simp
  have dead: "wp (do { gone \<leftarrow> handleExit H inst (Some st); ok gone }) (refreshed H inst) m'"
    if "reported_dead ?sock (mg_io m')" for st m'
  proof -
    have "wp (handleExit H inst (Some st))
        (\<lambda>gone m''. in_InstanceID gone = in_InstanceID inst \<and> reported_dead ?sock (mg_io m'')) m'"
      using exit_id keeps_report [OF any_exit [of "\<lambda>_. True"] that] by (rule wp_conj) simp
    then show ?thesis by (rule wp_bindI) (simp add: refreshed_def)
  qed
  have orphan: "wp (refreshNoSocket H inst boot) (refreshed H inst) m'" for m'
    using refreshed_orphan [of inst inst H "in_PID inst"]
    by (simp add: refreshNoSocket_def live_instance_def pidAlive_def assms(1,3) pid del: wp_andthen)
  have fresh: "wp (verified_lately H inst boot t) (\<lambda>b _. b \<longrightarrow> in_Observed inst = ObservedRunning) m'" for t m'
    by (simp add: verified_lately_def pidAlive_def)
  have silent: "wp (refresh_answer H inst boot (Inl e)) (refreshed H inst) m'" for e m'
    using refreshed_orphan [of inst inst H "in_PID inst"]
    by (simp add: refresh_answer_def pidAlive_def assms(1,3) pid del: wp_andthen)
  have running: "wp (andthen (db_PutInstance H i) (\<lambda>_. ok i)) (refreshed H inst) m'"
    if "in_InstanceID i = in_InstanceID inst" "in_Observed i = ObservedRunning" for i m'
    by (rule wp_andthenI [where R = "\<lambda>_ _. True"]) (simp_all add: refreshed_def that)
  have answer: "wp (refresh_answer H inst boot r) (refreshed H inst) m'"
    if "\<forall>st. r = Inr st \<longrightarrow> IoStatus ?sock (Inr st) \<in> set (mg_io m')" for r m'
  proof (cases r)
    case (Inl e)
    then show ?thesis by (simp only: silent)
  next
    case (Inr st)
    then have rep: "\<not> ss_Alive st \<Longrightarrow> reported_dead ?sock (mg_io m')" using that by (auto simp: reported_dead_def)
    show ?thesis
      unfolding Inr refresh_answer_def sum.case
      using rep by (intro wp_ifI dead; simp add: Let_def assms(1) running refreshed_def del: wp_andthen)
  qed
  have rest: "wp (do { r \<leftarrow> Reconnect H ?sock; refresh_answer H inst boot r }) (refreshed H inst) m'" for m'
    by (simp add: Reconnect_def answer)
  show ?thesis
    unfolding refresh_def Let_def
  proof (rule wp_bindI [where R = "\<lambda>_ _. True"], simp)
    show "wp (do { fresh \<leftarrow> verified_lately H inst boot t; if fresh then ok inst else do {
        modify (set_shim_check (in_InstanceID inst) t); present \<leftarrow> socketExists H ?sock;
        if \<not> present then refreshNoSocket H inst boot else do { r \<leftarrow> Reconnect H ?sock; refresh_answer H inst boot r } } })
        (refreshed H inst) m'" for t m'
      by (rule wp_bindI [OF fresh], rule wp_ifI, simp add: refreshed_def,
          rule wp_bindI [where R = "\<lambda>_ _. True"], simp, rule wp_bindI [where R = "\<lambda>_ _. True"], simp,
          rule wp_ifI, rule orphan, rule rest)
  qed
qed

section \<open>A live process is left alone\<close>

text \<open>What a pass does with a refreshed instance.\<close>

definition reconcile_refreshed :: "Host \<Rightarrow> ProcessSpec \<Rightarrow> Instance \<Rightarrow> (string, Instance list) gomap \<Rightarrow> string \<Rightarrow> unit attempt" where
  "reconcile_refreshed H spec inst byName boot =
     (if in_Observed inst = ObservedUnknown then
        (if in_Desired inst = DesiredStopped then do {
           r \<leftarrow> stopInstance H spec inst;
           case r of Inl e \<Rightarrow> if isAdoptRequired e then ok () else throw e | Inr _ \<Rightarrow> ok () }
         else ok ())
      else if in_Observed inst = ObservedFatal then ok ()
      else if in_Desired inst = DesiredStopped then andthen (stopInstance H spec inst) (\<lambda>_. ok ())
      else if in_Desired inst = DesiredRunning \<and> in_Observed inst = ObservedRunning then applyHealth H spec inst boot
      else if in_Desired inst = DesiredRunning \<and> in_Observed inst = ObservedStarting then ok ()
      else if in_Desired inst = DesiredRunning \<and> (in_Observed inst = ObservedExited \<or> in_Observed inst = ObservedBackoff)
        then reconcile_exited H spec inst byName boot
      else if in_Desired inst = DesiredRunning \<and> in_Observed inst = ObservedStopped then
        (if \<not> DepsReady spec byName then ok ()
         else andthen (startInstance H spec inst boot) (\<lambda>_. ok ()))
      else if in_Observed inst \<noteq> ObservedStopped then db_PutInstance H (inst\<lparr>in_Observed := ObservedStopped\<rparr>)
      else ok ())"

lemma reconcile_in_two:
  "reconcileInstance H spec inst byName boot = andthen (refresh H inst boot) (\<lambda>i. reconcile_refreshed H spec i byName boot)"
  by (simp only: reconcileInstance_def reconcile_refreshed_def)

lemma any_refreshed: "state_io_rel (extends (\<lambda>_. True)) (reconcile_refreshed H spec inst byName boot)"
  unfolding reconcile_refreshed_def reconcile_exited_def Let_def
  by (intro quiet_intros any_host any_db any_stop any_start any_health; simp)

lemma still_refreshed:
  assumes "in_Observed inst = ObservedRunning \<or> in_Observed inst = ObservedUnknown"
    and "\<not> hc_RestartOnFailure (ps_Health spec)"
  shows "state_io_rel (extends still) (reconcile_refreshed H spec inst byName boot)"
  using assms(1) unfolding reconcile_refreshed_def
  by (elim disjE; simp; intro conjI impI quiet_intros any_db any_stop still_health assms(2); simp)

text \<open>
  C1: A process that is alive is never started a second time by a reconciliation pass. If the process on
  record of an instance belongs to this boot and is alive whenever it is probed, and health checks
  do not restart it, then a pass over the instance launches a shim or starts a child only after the shim
  of the instance answered, in that pass, that its child is dead. This holds whatever the other
  answers of the machine are: a missing socket, an unreachable shim, failing writes.
\<close>

theorem live_process_not_restarted:
  assumes "sameBoot (in_BootID inst) boot" and "0 < in_PID inst" and "\<And>l. h_alive H l (in_PID inst)"
    and "\<not> hc_RestartOnFailure (ps_Health spec)"
    and "mg_io m = []" and "run_state (reconcileInstance H spec inst byName boot) m = (r, m')"
  shows "starts_after_death (ShimSocket (h_layout H) (in_InstanceID inst)) (mg_io m')"
proof -
  let ?sock = "ShimSocket (h_layout H) (in_InstanceID inst)"
  have looks: "state_io_rel (extends still) (refresh H inst boot)" by (rule any_refresh)
  have saw: "wp (refresh H inst boot) (refreshed H inst) m" by (rule refresh_live [OF assms(1-3)])
  have kept: "wp (refresh H inst boot) (\<lambda>_ m'. starts_after_death ?sock (mg_io m')) m"
    by (rule starts_extends [OF looks]) (simp_all add: assms(5))
  have "wp (refresh H inst boot) (\<lambda>r m'. refreshed H inst r m' \<and> starts_after_death ?sock (mg_io m')) m"
    by (rule wp_conj [OF saw kept])
  then have "wp (reconcileInstance H spec inst byName boot) (\<lambda>_ m'. starts_after_death ?sock (mg_io m')) m"
    unfolding reconcile_in_two
  proof (rule wp_andthenI, simp)
    fix i t
    assume i: "refreshed H inst (Inr i) t \<and> starts_after_death ?sock (mg_io t)"
    show "wp (reconcile_refreshed H spec i byName boot) (\<lambda>_ m'. starts_after_death ?sock (mg_io m')) t"
    proof (cases "reported_dead ?sock (mg_io t)")
      case True
      then show ?thesis using i by (intro starts_extends [OF any_refreshed]) simp_all
    next
      case False
      with i have "in_Observed i = ObservedRunning \<or> in_Observed i = ObservedUnknown"
        by (simp add: refreshed_def)
      then show ?thesis using i by (intro starts_extends [OF still_refreshed [OF _ assms(4)]]) simp_all
    qed
  qed
  from wp_runD [OF this assms(6)] show ?thesis .
qed

text \<open>The shim reports its child dead while the process on record can still be probed: the pass starts it anew.\<close>

definition dead_child_host :: Host where
  "dead_child_host = calm_host\<lparr>h_alive := (\<lambda>_ _. True), h_socket := (\<lambda>_ _. True),
     h_reconnect := (\<lambda>_ _. Inr \<lparr>ss_Pid = 42, ss_Alive = False, ss_ExitCode = 1\<rparr>)\<rparr>"

definition stopped_web :: Instance where
  "stopped_web = web_row\<lparr>in_Observed := ObservedStopped\<rparr>"

theorem live_process_witness:
  "\<exists>r m'. run_state (reconcileInstance dead_child_host web_spec stopped_web [] ''b1'') web_manager = (r, m')
     \<and> list_ex starts (mg_io m')
     \<and> starts_after_death (ShimSocket (h_layout dead_child_host) (in_InstanceID stopped_web)) (mg_io m')"
proof -
  obtain r m' where run: "run_state (reconcileInstance dead_child_host web_spec stopped_web [] ''b1'') web_manager = (r, m')"
    by (cases "run_state (reconcileInstance dead_child_host web_spec stopped_web [] ''b1'') web_manager")
  have "list_ex starts (mg_io (snd (run_state (reconcileInstance dead_child_host web_spec stopped_web [] ''b1'') web_manager)))"
    by (simp add: dead_child_host_def stopped_web_def example_defs run_defs DepsReady_def cong: run_weak)
  moreover have "starts_after_death (ShimSocket (h_layout dead_child_host) (in_InstanceID stopped_web)) (mg_io m')"
    by (rule live_process_not_restarted [OF _ _ _ _ _ run])
       (simp_all add: sameBoot_def stopped_web_def web_row_def new_instance_def dead_child_host_def web_spec_def zero_spec_def
         web_manager_def no_manager_def)
  ultimately show ?thesis using run by auto
qed

section \<open>Where the guard is missing\<close>

text \<open>With restarts on failed health checks the property fails: the socket is gone, the instance was
  verified lately, its probe fails, the stop does nothing and the start launches a second copy.\<close>

definition lost_socket_host :: Host where
  "lost_socket_host = calm_host\<lparr>h_alive := (\<lambda>_ _. True), h_check := (\<lambda>_ _ _. Some (Plain ''probe'')),
     h_reconnect := (\<lambda>_ _. Inr \<lparr>ss_Pid = 0, ss_Alive = False, ss_ExitCode = 0\<rparr>)\<rparr>"

definition probed_spec :: ProcessSpec where
  "probed_spec = web_spec\<lparr>ps_Health := (ps_Health web_spec)\<lparr>hc_RestartOnFailure := True\<rparr>\<rparr>"

lemma second_copy_after_failed_probe:
  "let m' = snd (run_state (reconcileInstance lost_socket_host probed_spec web_row [] ''b1'')
        (web_manager\<lparr>mg_lastShimCheck := [(in_InstanceID web_row, 0)],
           mg_Store := (mg_Store web_manager)\<lparr>st_instances := [(in_InstanceID web_row, web_row)]\<rparr>\<rparr>))
   in map_option in_PID (mget (st_instances (mg_Store m')) (in_InstanceID web_row)) = Some 200
     \<and> list_ex (\<lambda>e. case e of IoLaunch _ _ _ \<Rightarrow> True | _ \<Rightarrow> False) (mg_io m')
     \<and> list_all (\<lambda>e. case e of IoStop _ _ _ \<Rightarrow> False | _ \<Rightarrow> True) (mg_io m')"
  by (simp add: lost_socket_host_def probed_spec_def example_defs run_defs shimVerifyEvery_def Observe_def NewTracker_def
      at_least_one_def mget_or_def cong: run_weak)

text \<open>A stop whose shim answers with an error (an unknown signal, say) is recorded as done.\<close>

definition deaf_shim_host :: Host where
  "deaf_shim_host = calm_host\<lparr>h_alive := (\<lambda>_ _. True), h_socket := (\<lambda>_ _. True),
     h_reconnect := (\<lambda>_ _. Inr \<lparr>ss_Pid = 42, ss_Alive = True, ss_ExitCode = 0\<rparr>),
     h_stop := (\<lambda>_ _ _. Inr \<lparr>sx_ExitCode = 0, sx_Error = ''unknown signal''\<rparr>)\<rparr>"

lemma refused_stop_recorded_as_stopped:
  "map_option (\<lambda>i. (in_Observed i, in_PID i)) (mget (st_instances (mg_Store
      (snd (run_state (stopInstance deaf_shim_host web_spec web_row) web_manager)))) (in_InstanceID web_row))
    = Some (ObservedStopped, 0)"
  by (simp add: deaf_shim_host_def example_defs run_defs cong: run_weak)

text \<open>A FATAL instance whose shim still answers is taken for one that just exited: once its failures are
  out of the window it is due for another start.\<close>

definition crashing_spec :: ProcessSpec where
  "crashing_spec = web_spec\<lparr>ps_Restart := \<lparr>rs_Mode = RestartAlways, rs_MaxRetries = 1, rs_RetryWindow = 10,
     rs_Backoff = \<lparr>bo_Initial = 1, bo_Max = 1, bo_Multiplier = 1\<rparr>\<rparr>\<rparr>"

lemma fatal_instance_restarts:
  "let m' = snd (run_state (reconcileInstance (dead_child_host\<lparr>h_now := (\<lambda>_. 100)\<rparr>) crashing_spec
        (web_row\<lparr>in_Observed := ObservedFatal, in_PID := 0\<rparr>) [] ''b1'') (web_manager\<lparr>mg_failures := [(in_InstanceID web_row, [5])]\<rparr>))
   in map_option in_Observed (mget (st_instances (mg_Store m')) (in_InstanceID web_row)) = Some ObservedExited
     \<and> mget (mg_nextTry m') (in_InstanceID web_row) = Some 101"
  by (simp add: dead_child_host_def crashing_spec_def example_defs run_defs DecideRestart_def exitCode_def
      countFailuresInWindow_def backoffDelay_def exact_floats_def time_zero_def mget_or_def cong: run_weak)

text \<open>An adopted process has no shim: the next pass takes it for lost again.\<close>

lemma adoption_is_undone:
  "let m' = snd (run_state (reconcileInstance (calm_host\<lparr>h_alive := (\<lambda>_ _. True)\<rparr>) web_spec
        (web_row\<lparr>in_PID := 77, in_ShimPID := 0\<rparr>) [] ''b1'') web_manager)
   in map_option (\<lambda>i. (in_Observed i, in_PID i)) (mget (st_instances (mg_Store m')) (in_InstanceID web_row))
     = Some (ObservedUnknown, 77)"
  by (simp add: example_defs run_defs cong: run_weak)

text \<open>A clean exit is not to be followed by another start (\<^verbatim>\<open>RestartOnFailure\<close>), and no pass starts the
  instance; but a restart of the agent turns the exited row into a stopped one, which the next pass starts.\<close>

definition once_spec :: ProcessSpec where
  "once_spec = web_spec\<lparr>ps_Restart := (ps_Restart web_spec)\<lparr>rs_Mode := RestartOnFailure\<rparr>\<rparr>"

definition done_row :: Instance where
  "done_row = web_row\<lparr>in_PID := 0, in_Observed := ObservedExited, in_ExitCode := Some 0\<rparr>"

lemma clean_exit_is_final_within_a_run:
  "\<not> list_ex starts (mg_io (snd (run_state (reconcileInstance calm_host once_spec done_row [] ''b1'') web_manager)))"
  by (simp add: once_spec_def done_row_def example_defs run_defs DecideRestart_def no_restart_def exitCode_def mget_or_def cong: run_weak)

lemma Itoa_0: "Itoa 0 = ''0''"
  by code_simp

lemma clean_exit_restarts_after_recovery:
  "let m' = snd (run_state (recoverInstance calm_host once_spec done_row ''b1'') web_manager);
       row = the (mget (st_instances (mg_Store m')) (in_InstanceID done_row))
   in in_Observed row = ObservedStopped \<and> in_Desired row = DesiredRunning
      \<and> list_ex starts (mg_io (snd (run_state (reconcileInstance calm_host once_spec row [] ''b1'') m')))"
  by (simp add: once_spec_def done_row_def example_defs run_defs recoverInstance_def DepsReady_def
      hostRebooted_def noteStartError_def Itoa_0 cong: run_weak)

text \<open>Instances of different processes can share the socket of a shim.\<close>

lemma sockets_collide:
  "MakeInstanceID ''p:0'' 1 \<noteq> MakeInstanceID ''p_0'' 1"
  "ShimSocket l (MakeInstanceID ''p:0'' 1) = ShimSocket l (MakeInstanceID ''p_0'' 1)"
  by (simp_all add: MakeInstanceID_def ShimSocket_def sanitizedID_def)

end
