(* ===== verification/Process_Commands.thy ===== *)
theory Process_Commands imports Process_Trace
begin

text \<open>
  The commands and the tables of the store. \<open>instance_view\<close> is the interface of a part of the store
  that the work on instances does not touch; its lemmas carry that through every step of a pass. It
  is interpreted for the journal and for the tables of specifications.
\<close>

locale instance_view =
  fixes view :: "Store \<Rightarrow> 'v"
  assumes view_instances: "view (st\<lparr>st_instances := x\<rparr>) = view st"
begin

definition same :: "Manager \<Rightarrow> Manager \<Rightarrow> bool" where
  "same m m' \<longleftrightarrow> view (mg_Store m') = view (mg_Store m)"

lemma same_order: "effect_order same"
  by unfold_locales (simp_all add: same_def)

lemmas same_intros = effect_order.io_intros [OF same_order]

lemma same_ask: "state_io_rel same (ask f ev)"
  by (simp add: state_io_rel_def same_def)

lemma same_modify: "(\<And>m. mg_Store (f m) = mg_Store m) \<Longrightarrow> state_io_rel same (modify f)"
  by (simp add: state_io_rel_def same_def)

lemma same_read: "state_io_rel same (store_read f)"
  by (simp add: state_io_rel_def same_def)

lemma same_put: "state_io_rel same (db_PutInstance H inst)"
  unfolding state_io_rel_def same_def
  by (auto simp: db_PutInstance_def PutInstance_def view_instances split: option.split)

lemma same_delete: "state_io_rel same (db_DeleteInstance H iid)"
  unfolding state_io_rel_def same_def
  by (auto simp: db_DeleteInstance_def DeleteInstance_def view_instances split: option.split)

lemma same_db: "state_io_rel same c \<Longrightarrow> state_io_rel same (db H c)"
  unfolding db_def by (intro same_intros same_ask)

lemma same_conj: "state_io_rel same a \<Longrightarrow> state_io_rel same b \<Longrightarrow> state_io_rel same (conj_io a b)"
  unfolding conj_io_def by (intro same_intros)

lemma same_host:
  "state_io_rel same (now H)" "state_io_rel same (pidAlive H pid)" "state_io_rel same (socketExists H sock)"
  "state_io_rel same (Reconnect H sock)" "state_io_rel same (audit H a b c d e)" "state_io_rel same (writeRuntime H inst)"
  "state_io_rel same (readRuntime H iid)" "state_io_rel same (shim_Stop H sock stop)" "state_io_rel same (no_error err)"
  "state_io_rel same (shim_Start H sock req)" "state_io_rel same (Launch H sock iid)"
  unfolding now_def pidAlive_def socketExists_def Reconnect_def audit_def writeRuntime_def readRuntime_def no_error_def
    shim_Stop_def shim_Start_def Launch_def
  by (intro same_intros same_ask)+

lemma same_tables:
  "state_io_rel same (db_GetBootID H)" "state_io_rel same (bootID H)" "state_io_rel same (db_ListSpecs H)"
  "state_io_rel same (db_GetSpec H p)" "state_io_rel same (db_ListInstances H p)" "state_io_rel same (db_GetInstance H iid)"
  unfolding db_GetBootID_def bootID_def db_ListSpecs_def db_GetSpec_def db_ListInstances_def db_GetInstance_def
  by (intro same_intros same_db same_read)+

lemma same_bookkeeping:
  "mg_Store (resetHealth iid m) = mg_Store m" "mg_Store (forgetInstance iid m) = mg_Store m"
  "mg_Store (set_shim_check iid t m) = mg_Store m" "mg_Store (drop_shim_check iid m) = mg_Store m"
  "mg_Store (drop_next_try iid m) = mg_Store m"
  by (simp_all add: resetHealth_def forgetInstance_def set_shim_check_def drop_shim_check_def drop_next_try_def)

lemmas same_rules = same_intros same_ask same_modify same_put same_delete same_conj same_host same_tables

lemma same_exit: "state_io_rel same (handleExit H inst st)"
  unfolding handleExit_def recordFailure_def Let_def by (intro same_rules; simp add: same_bookkeeping)

lemma same_orphan: "state_io_rel same (markOrphan H inst pid)"
  unfolding markOrphan_def Let_def by (intro same_rules)

lemma same_refresh: "state_io_rel same (refresh H inst boot)"
  unfolding refresh_def verified_lately_def refresh_answer_def refreshNoSocket_def live_instance_def Let_def
  by (intro same_rules same_exit same_orphan; simp add: same_bookkeeping)

lemma same_stop: "state_io_rel same (stopInstance H spec inst)" "state_io_rel same (killInstance H spec inst)"
  unfolding stopInstance_def killInstance_def signalStop_def put_stopped_def Let_def
  by (intro same_rules; simp add: same_bookkeeping)+

lemma same_start: "state_io_rel same (startInstance H spec inst boot)"
  unfolding startInstance_def check_user_def launch_shim_def applyRunning_def start_child_def log_files_def started_def
    start_failed_def start_error_def noteStartError_def recordFailure_def Let_def
  by (intro same_rules; simp add: same_bookkeeping)

lemma same_health:
  assumes "\<And>m. view (mg_Store (h_others H m)) = view (mg_Store m)"
  shows "state_io_rel same (applyHealth H spec inst boot)"
proof -
  have check: "state_io_rel same (health_Check H h pid)" for h pid
    using assms by (simp add: health_Check_def state_io_rel_def same_def)
  have probe: "state_io_rel same (note_probe iid h err t)" for iid h err t
    by (simp add: note_probe_def state_io_rel_def same_def Let_def)
  show ?thesis
    unfolding applyHealth_def health_restart_def Let_def
    by (intro same_rules check probe same_stop same_start; simp)
qed

lemma same_reconcile:
  assumes "\<And>m. view (mg_Store (h_others H m)) = view (mg_Store m)"
  shows "state_io_rel same (reconcileInstance H spec inst byName boot)"
  unfolding reconcileInstance_def reconcile_exited_def Let_def
  by (intro same_rules same_refresh same_stop same_start same_health assms; simp add: same_bookkeeping)

lemma same_extra: "state_io_rel same (stop_extra H spec inst)"
  unfolding stop_extra_def extraInstanceDeletable_def
  by (intro same_rules same_stop; simp add: same_bookkeeping)

lemma same_snapshots: "state_io_rel same (instanceSnapshots H specs)"
  by (induction specs) (simp_all, (intro same_rules; assumption?)+)

lemma same_pass:
  assumes "\<And>m. view (mg_Store (h_others H m)) = view (mg_Store m)"
  shows "state_io_rel same (reconcileLocked H)"
  unfolding reconcileLocked_def reconcile_process_def
  by (intro same_rules same_snapshots same_extra same_reconcile assms)

end

interpretation journal_row: instance_view "\<lambda>st. mget (st_ops st) k" for k
  by unfold_locales simp

interpretation spec_tables: instance_view "\<lambda>st. (st_specs st, st_revisions st)"
  by unfold_locales simp

section \<open>The commands under an operation identifier\<close>

datatype op_command =
    CmdSetDesired string DesiredState
  | CmdKill string
  | CmdRestart string
  | CmdResetFailure string
  | CmdAdopt string int
  | CmdDeleteSpec string int

fun run_command :: "Host \<Rightarrow> op_command \<Rightarrow> string \<Rightarrow> string \<Rightarrow> unit attempt" where
  "run_command H (CmdSetDesired p d) opID operator = SetDesired H p d opID operator"
| "run_command H (CmdKill p) opID operator = Kill H p opID operator"
| "run_command H (CmdRestart p) opID operator = Restart H p opID operator"
| "run_command H (CmdResetFailure p) opID operator = ResetFailure H p opID operator"
| "run_command H (CmdAdopt iid pid) opID operator = Adopt H iid pid opID operator"
| "run_command H (CmdDeleteSpec p e) opID operator = DeleteSpec_cmd H p e opID operator"

text \<open>A body of a command leaves the journal row of the operation alone.\<close>

lemma same_orphan_check: "state_io_rel (journal_row.same k) (rejectLiveOrphanStop H insts)"
proof -
  have "state_io_rel (journal_row.same k) (any_io f xs)" if "\<And>x. state_io_rel (journal_row.same k) (f x)"
    for f :: "Instance \<Rightarrow> bool run" and xs
    by (induction xs) (simp_all, (intro journal_row.same_rules that; assumption?)+)
  note any = this
  show ?thesis
    unfolding rejectLiveOrphanStop_def by (intro journal_row.same_rules any)
qed

lemma same_put_desired: "state_io_rel (journal_row.same k) (put_desired H d insts)"
  unfolding put_desired_def by (intro journal_row.same_rules)

lemma same_delete_spec: "state_io_rel (journal_row.same k) (db_DeleteSpec H p e)"
  unfolding state_io_rel_def journal_row.same_def
  by (auto simp: db_DeleteSpec_def DeleteSpec_def split: option.split)

lemma command_frame:
  assumes "\<And>m. mget (st_ops (mg_Store (h_others H m))) opID = mget (st_ops (mg_Store m)) opID"
  shows "\<exists>typ target action body. run_command H c opID operator = command H opID operator typ target action body
    \<and> state_io_rel (journal_row.same opID) body"
proof (cases c)
  case (CmdSetDesired p d)
  show ?thesis unfolding CmdSetDesired run_command.simps SetDesired_def
    by (intro exI conjI, rule refl) (intro journal_row.same_rules same_orphan_check same_put_desired)
next
  case (CmdKill p)
  show ?thesis unfolding CmdKill run_command.simps Kill_def
    by (intro exI conjI, rule refl)
       (intro journal_row.same_rules same_orphan_check same_put_desired journal_row.same_stop journal_row.same_pass assms)
next
  case (CmdRestart p)
  show ?thesis unfolding CmdRestart run_command.simps Restart_def
    by (intro exI conjI, rule refl)
       (intro journal_row.same_rules same_orphan_check same_put_desired journal_row.same_pass assms)
next
  case (CmdResetFailure p)
  show ?thesis unfolding CmdResetFailure run_command.simps ResetFailure_def
    by (intro exI conjI, rule refl)
       (unfold reset_one_def, intro journal_row.same_rules; simp add: journal_row.same_bookkeeping)
next
  case (CmdAdopt iid pid)
  show ?thesis unfolding CmdAdopt run_command.simps Adopt_def Let_def
    by (intro exI conjI, rule refl) (intro journal_row.same_rules)
next
  case (CmdDeleteSpec p e)
  show ?thesis unfolding CmdDeleteSpec run_command.simps DeleteSpec_cmd_def
    by (intro exI conjI, rule refl)
       (unfold check_deletable_def delete_one_def,
        intro journal_row.same_rules same_delete_spec; simp add: journal_row.same_bookkeeping)
qed

text \<open>The row a command leaves, and what a command does that finds one.\<close>

definition outcome_row :: "(goerror + unit) \<Rightarrow> OpStatus \<times> string" where
  "outcome_row r = (case r of Inr _ \<Rightarrow> (OpSuccess, []) | Inl e \<Rightarrow> (OpFailed, err_text e))"

lemma command_records:
  assumes "\<And>l. h_db H l = None" and "opID \<noteq> []" and "mget (st_ops (mg_Store m)) opID = None"
    and body: "state_io_rel (journal_row.same opID) body"
    and run: "run_state (command H opID operator typ target action body) m = (r, m')"
  shows "map_option (\<lambda>j. (op_Status j, op_Error j)) (mget (st_ops (mg_Store m')) opID) = Some (outcome_row r)"
proof -
  let ?op = "\<lparr>op_OperationID = opID, op_Operator = operator, op_Target = target, op_Type = typ,
      op_Status = OpPending, op_Result = None, op_Error = []\<rparr>"
  let ?m = "m\<lparr>mg_io := IoDb None # mg_io m, mg_Store := (mg_Store m)\<lparr>st_ops := mput opID ?op (st_ops (mg_Store m))\<rparr>\<rparr>"
  obtain q t where q: "run_state body ?m = (q, t)" by (cases "run_state body ?m")
  from state_io_relD [OF body q] have row: "mget (st_ops (mg_Store t)) opID = Some ?op"
    by (simp add: journal_row.same_def)
  show ?thesis
    using run q row
    by (cases q) (auto simp: command_def beginOp_def db_StartOp_def StartOp_def Let_def assms(1-3) op_failed_def finishOp_def
        db_FinishOperation_def FinishOperation_def validOpStatus_def audit_def outcome_row_def)
qed

lemma command_replays:
  assumes "\<And>l. h_db H l = None" and "opID \<noteq> []"
    and "map_option (\<lambda>j. (op_Status j, op_Error j)) (mget (st_ops (mg_Store m)) opID) = Some (outcome_row r)"
  shows "run_state (command H opID operator typ target action body) m
    = ((case r of Inr _ \<Rightarrow> Inr () | Inl e \<Rightarrow> Inl (E INVALID (err_text e))), m\<lparr>mg_io := IoDb None # mg_io m\<rparr>)"
  using assms
  by (cases r) (auto simp: command_def beginOp_def db_StartOp_def StartOp_def outcome_row_def)

text \<open>
  C7: An operation identifier is carried out once. Let a command be given an identifier the journal does not know, on a
  database that does not fail, and let it end with a result. Then any later command under the same
  identifier does nothing at all: whatever happened in between, as long as the journal row is still there,
  it changes neither the store nor the manager, asks nothing of the machine beyond reading the journal, and
  answers as the first did: with success, or with the text of its error.
\<close>

theorem operation_runs_once:
  assumes "\<And>l. h_db H l = None" and "opID \<noteq> []" and "mget (st_ops (mg_Store m)) opID = None"
    and "\<And>m. mget (st_ops (mg_Store (h_others H m))) opID = mget (st_ops (mg_Store m)) opID"
    and "run_state (run_command H c opID operator) m = (r, m1)"
    and "mget (st_ops (mg_Store m2)) opID = mget (st_ops (mg_Store m1)) opID"
  shows "run_state (run_command H c2 opID operator2) m2
    = ((case r of Inr _ \<Rightarrow> Inr () | Inl e \<Rightarrow> Inl (E INVALID (err_text e))), m2\<lparr>mg_io := IoDb None # mg_io m2\<rparr>)"
proof -
  obtain kind target action body where frame: "run_command H c opID operator = command H opID operator kind target action body"
    and body: "state_io_rel (journal_row.same opID) body"
    using command_frame [OF assms(4), of c operator] by blast
  obtain kind2 target2 action2 body2 where "run_command H c2 opID operator2 = command H opID operator2 kind2 target2 action2 body2"
    using command_frame [OF assms(4), of c2 operator2] by blast
  with command_replays [OF assms(1,2), of m2 r]
    command_records [OF assms(1-3) body, of operator kind target action r m1] assms(5,6) frame
  show ?thesis by simp
qed

theorem operation_runs_once_witness:
  "\<exists>r m1. run_state (run_command calm_host (CmdKill ''none'') ''op1'' ''alice'') no_manager = (r, m1)
     \<and> run_state (run_command calm_host (CmdRestart ''p1'') ''op1'' ''bob'') m1
         = (Inl (E INVALID ''NOT_FOUND: process spec''), m1\<lparr>mg_io := IoDb None # mg_io m1\<rparr>)"
proof -
  obtain r m1 where run: "run_state (run_command calm_host (CmdKill ''none'') ''op1'' ''alice'') no_manager = (r, m1)"
    by (cases "run_state (run_command calm_host (CmdKill ''none'') ''op1'' ''alice'') no_manager")
  have "fst (run_state (run_command calm_host (CmdKill ''none'') ''op1'' ''alice'') no_manager) = Inl (E NOT_FOUND ''process spec'')"
    by (simp add: Kill_def command_def beginOp_def StartOp_def GetSpec_def op_failed_def finishOp_def example_defs run_defs
        cong: run_weak)
  with run have r: "r = Inl (E NOT_FOUND ''process spec'')" by simp
  have "run_state (run_command calm_host (CmdRestart ''p1'') ''op1'' ''bob'') m1
      = ((case r of Inr _ \<Rightarrow> Inr () | Inl e \<Rightarrow> Inl (E INVALID (err_text e))), m1\<lparr>mg_io := IoDb None # mg_io m1\<rparr>)"
    by (rule operation_runs_once [OF _ _ _ _ run refl]) (simp_all add: calm_host_def no_manager_def empty_store_def)
  with run r show ?thesis by (simp add: code_text_def)
qed

end
