(* ===== verification/Process_Instances.thy ===== *)
theory Process_Instances imports Process_Trace
begin

text \<open>
  The set of instances a specification gives: \<open>ensureInstances\<close> makes it exact, and a process is
  deleted only when nothing of it runs.
\<close>

section \<open>Instance identifiers\<close>

lemma colon_no_digit: "CHR '':'' \<notin> set (digits_of n)"
proof
  assume "CHR '':'' \<in> set (digits_of n)"
  from digits_of_digits [OF this] obtain k where k: "k < (10 :: nat)" "CHR '':'' = char_of (48 + k)" by blast
  then have "of_char (CHR '':'') = 48 + k" using of_char_of [of "48 + k"] by simp
  with k(1) show False by simp
qed

lemma MakeInstanceID_inj2:
  assumes "MakeInstanceID p i = MakeInstanceID q j" and "0 \<le> i" and "0 \<le> j"
  shows "p = q \<and> i = j"
proof -
  from assms have "rev (digits_of (nat i)) @ CHR '':'' # rev p = rev (digits_of (nat j)) @ CHR '':'' # rev q"
    unfolding MakeInstanceID_def Itoa_def by (subst rev_is_rev_conv [symmetric]) simp
  then have "rev (digits_of (nat i)) = rev (digits_of (nat j)) \<and> rev p = rev q"
    using split_at_first [of "CHR '':''" "rev (digits_of (nat i))" "rev p"]
      split_at_first [of "CHR '':''" "rev (digits_of (nat j))" "rev q"] by (simp add: colon_no_digit)
  with digits_of_inj [of "nat i" "nat j"] assms show ?thesis by simp
qed

lemma MakeInstanceID_inj: "0 \<le> i \<Longrightarrow> 0 \<le> j \<Longrightarrow> MakeInstanceID p i = MakeInstanceID p j \<Longrightarrow> i = j"
  using MakeInstanceID_inj2 by blast

lemma MakeInstanceID_nonempty [simp]: "MakeInstanceID p i \<noteq> []"
  by (simp add: MakeInstanceID_def)

section \<open>Ensuring the instances\<close>

abbreviation rows :: "Manager \<Rightarrow> (string, Instance) gomap" where
  "rows m \<equiv> st_instances (mg_Store m)"

definition rows_keyed :: "Manager \<Rightarrow> bool" where
  "rows_keyed m \<longleftrightarrow> wfmap (rows m) \<and> mall (\<lambda>k i. in_InstanceID i = k \<and> k \<noteq> []) (rows m)"

lemma rows_keyed_put:
  "rows_keyed m \<Longrightarrow> k \<noteq> [] \<Longrightarrow> in_InstanceID i = k \<Longrightarrow>
   rows_keyed (m\<lparr>mg_io := es, mg_Store := (mg_Store m)\<lparr>st_instances := mput k i (rows m)\<rparr>\<rparr>)"
  by (auto simp: rows_keyed_def)

lemma rows_keyed_del:
  "rows_keyed m \<Longrightarrow> rows_keyed (m\<lparr>mg_io := es, mg_Store := (mg_Store m)\<lparr>st_instances := mdel k (rows m)\<rparr>\<rparr>)"
  by (auto simp: rows_keyed_def)

lemma in_listing:
  assumes "rows_keyed m"
  shows "x \<in> set (ListInstances p (mg_Store m)) \<longleftrightarrow> mget (rows m) (in_InstanceID x) = Some x \<and> in_ProcessID x = p"
proof -
  have wf: "wfmap (rows m)" and keyed: "mall (\<lambda>k i. in_InstanceID i = k \<and> k \<noteq> []) (rows m)" using assms by (simp_all add: rows_keyed_def)
  have "x \<in> set (mvals (rows m)) \<longleftrightarrow> mget (rows m) (in_InstanceID x) = Some x"
    using in_mvals_iff [OF wf, of x] keyed by (auto dest: mallD)
  then show ?thesis by (auto simp: ListInstances_def)
qed

text \<open>The missing instances of the ordinals in \<open>I\<close> are added and nothing else is changed.\<close>

definition filled :: "string \<Rightarrow> DesiredState \<Rightarrow> int set \<Rightarrow> Manager \<Rightarrow> Manager \<Rightarrow> bool" where
  "filled p d I m m' \<longleftrightarrow> rows_keyed m'
     \<and> (\<forall>i\<in>I. mget (rows m') (MakeInstanceID p i) = (case mget (rows m) (MakeInstanceID p i) of
           None \<Rightarrow> Some (new_instance p i d) | Some x \<Rightarrow> Some x))
     \<and> (\<forall>k. k \<notin> MakeInstanceID p ` I \<longrightarrow> mget (rows m') k = mget (rows m) k)"

lemma filled_trans:
  assumes "filled p d {i} m m1" and "filled p d I m1 m2" and "0 \<le> i" and "\<And>j. j \<in> I \<Longrightarrow> 0 \<le> j"
  shows "filled p d (insert i I) m m2"
proof -
  have i: "mget (rows m2) (MakeInstanceID p i) = mget (rows m1) (MakeInstanceID p i)"
  proof (cases "i \<in> I")
    case True
    with assms(1,2) show ?thesis by (auto simp: filled_def split: option.splits)
  next
    case False
    then have "MakeInstanceID p i \<notin> MakeInstanceID p ` I" using MakeInstanceID_inj assms(3,4) by blast
    with assms(2) show ?thesis by (simp add: filled_def)
  qed
  have j: "mget (rows m1) (MakeInstanceID p j) = mget (rows m) (MakeInstanceID p j)" if "j \<in> I" "j \<noteq> i" for j
  proof -
    have "MakeInstanceID p j \<noteq> MakeInstanceID p i" using MakeInstanceID_inj [of j i p] that assms(3,4) by blast
    with assms(1) show ?thesis by (simp add: filled_def)
  qed
  have "mget (rows m2) (MakeInstanceID p j) = (case mget (rows m) (MakeInstanceID p j) of
      None \<Rightarrow> Some (new_instance p j d) | Some x \<Rightarrow> Some x)" if "j \<in> insert i I" for j
  proof (cases "j = i")
    case True
    show ?thesis unfolding True using i assms(1) by (simp add: filled_def)
  next
    case False
    with that j [of j] assms(2) show ?thesis by (simp add: filled_def)
  qed
  with assms(1,2) show ?thesis by (simp add: filled_def)
qed

lemma ensure_one_fills:
  assumes "\<And>l. h_db H l = None" and "rows_keyed m"
  shows "wp (ensure_one H p d i) (\<lambda>r m'. r = Inr () \<and> filled p d {i} m m' \<and> st_specs (mg_Store m') = st_specs (mg_Store m)) m"
  using rows_keyed_put [OF assms(2), of "MakeInstanceID p i" "new_instance p i d"] assms(2)
  by (auto simp: ensure_one_def db_GetInstance_def GetInstance_def db_PutInstance_def PutInstance_def assms(1) filled_def
      new_instance_def rows_keyed_def split: option.split)

lemma ensure_all_fill:
  assumes "\<And>l. h_db H l = None" and "rows_keyed m" and "\<And>j. j \<in> set is \<Longrightarrow> 0 \<le> j"
  shows "wp (each (ensure_one H p d) is) (\<lambda>r m'. r = Inr () \<and> filled p d (set is) m m') m"
  using assms(2,3)
proof (induction "is" arbitrary: m)
  case Nil
  then show ?case by (simp add: filled_def)
next
  case (Cons i "is")
  show ?case unfolding each.simps
  proof (rule wp_andthenI [OF ensure_one_fills [OF assms(1) Cons.prems(1)]], simp)
    fix v t
    assume t: "Inr v = Inr () \<and> filled p d {i} m t \<and> st_specs (mg_Store t) = st_specs (mg_Store m)"
    then have "rows_keyed t" by (simp add: filled_def)
    from Cons.IH [OF this] Cons.prems(2)
    have "wp (each (ensure_one H p d) is) (\<lambda>r m'. r = Inr () \<and> filled p d (set is) t m') t" by simp
    then show "wp (each (ensure_one H p d) is) (\<lambda>r m'. r = Inr () \<and> filled p d (set (i # is)) m m') t"
      by (rule wp_mono) (use t filled_trans [of p d i m t "set is"] Cons.prems(2) in auto)
  qed
qed

text \<open>
  The instances \<open>X\<close> in excess are told to stop; one that is dropped had come to rest, and its process
  did not answer a probe.
\<close>

definition at_rest :: "Host \<Rightarrow> Instance \<Rightarrow> bool" where
  "at_rest H x \<longleftrightarrow> (in_Observed x = ObservedStopped \<or> in_Observed x = ObservedFatal \<or> in_Observed x = ObservedUnknown)
     \<and> (0 < in_PID x \<longrightarrow> (\<exists>l. \<not> h_alive H l (in_PID x)))"

definition trimmed :: "Host \<Rightarrow> Instance set \<Rightarrow> Manager \<Rightarrow> Manager \<Rightarrow> bool" where
  "trimmed H X m m' \<longleftrightarrow> rows_keyed m'
     \<and> (\<forall>x\<in>X. mget (rows m') (in_InstanceID x) = Some (x\<lparr>in_Desired := DesiredStopped\<rparr>)
         \<or> mget (rows m') (in_InstanceID x) = None \<and> at_rest H x)
     \<and> (\<forall>k. k \<notin> in_InstanceID ` X \<longrightarrow> mget (rows m') k = mget (rows m) k)"

lemma trimmed_trans:
  assumes "trimmed H {x} m m1" and "trimmed H X m1 m2" and "\<And>y. y \<in> X \<Longrightarrow> in_InstanceID y = in_InstanceID x \<Longrightarrow> y = x"
  shows "trimmed H (insert x X) m m2"
  unfolding trimmed_def
proof (intro conjI ballI allI impI)
  show "rows_keyed m2" using assms(2) by (simp add: trimmed_def)
  show "mget (rows m2) (in_InstanceID y) = Some (y\<lparr>in_Desired := DesiredStopped\<rparr>)
      \<or> mget (rows m2) (in_InstanceID y) = None \<and> at_rest H y" if "y \<in> insert x X" for y
  proof (cases "y \<in> X")
    case True
    with assms(2) show ?thesis by (simp add: trimmed_def)
  next
    case False
    with that have "y = x" by simp
    moreover have "in_InstanceID x \<notin> in_InstanceID ` X" using assms(3) False \<open>y = x\<close> by force
    ultimately show ?thesis using assms(1,2) by (simp add: trimmed_def)
  qed
  show "mget (rows m2) k = mget (rows m) k" if "k \<notin> in_InstanceID ` insert x X" for k
    using that assms(1,2) by (simp add: trimmed_def)
qed

lemma drop_extra_trims:
  assumes "\<And>l. h_db H l = None" and "rows_keyed m" and "mget (rows m) (in_InstanceID x) = Some x"
  shows "wp (drop_extra H n x) (\<lambda>r m'. r = Inr () \<and> trimmed H (if in_Ordinal x < n then {} else {x}) m m') m"
proof -
  have x: "in_InstanceID x \<noteq> []" using assms(2,3) by (auto simp: rows_keyed_def dest: mallD)
  show ?thesis
    using rows_keyed_put [OF assms(2), of "in_InstanceID x" "x\<lparr>in_Desired := DesiredStopped\<rparr>"] x assms(2,3)
    by (auto simp: drop_extra_def db_PutInstance_def PutInstance_def extraInstanceDeletable_def pidAlive_def at_rest_def
        db_DeleteInstance_def DeleteInstance_def assms(1) Let_def trimmed_def forgetInstance_def resetHealth_def rows_keyed_def mhas_def)
qed

lemma drop_all_trim:
  assumes "\<And>l. h_db H l = None" and "rows_keyed m" and "distinct (map in_InstanceID xs)"
    and "\<And>x. x \<in> set xs \<Longrightarrow> mget (rows m) (in_InstanceID x) = Some x"
  shows "wp (each (drop_extra H n) xs) (\<lambda>r m'. r = Inr () \<and> trimmed H {x \<in> set xs. \<not> in_Ordinal x < n} m m') m"
  using assms(2-4)
proof (induction xs arbitrary: m)
  case Nil
  then show ?case by (simp add: trimmed_def)
next
  case (Cons x xs)
  let ?X = "if in_Ordinal x < n then {} else {x}"
  have x: "mget (rows m) (in_InstanceID x) = Some x" using Cons.prems(3) by simp
  show ?case unfolding each.simps
  proof (rule wp_andthenI [OF drop_extra_trims [OF assms(1) Cons.prems(1) x]], simp)
    fix v t
    assume t: "Inr v = Inr () \<and> trimmed H ?X m t"
    then have "rows_keyed t" and same: "mget (rows t) k = mget (rows m) k" if "k \<noteq> in_InstanceID x" for k
      using that by (auto simp: trimmed_def split: if_splits)
    have keyed: "rows_keyed t" using t by (simp add: trimmed_def)
    have "mget (rows t) (in_InstanceID y) = Some y" if "y \<in> set xs" for y
    proof -
      have "in_InstanceID y \<in> in_InstanceID ` set xs" using that by simp
      then have "in_InstanceID y \<noteq> in_InstanceID x" using Cons.prems(2) by auto
      with same Cons.prems(3) that show ?thesis by simp
    qed
    with Cons.IH [OF keyed] Cons.prems(2)
    have rest: "wp (each (drop_extra H n) xs) (\<lambda>r m'. r = Inr () \<and> trimmed H {x \<in> set xs. \<not> in_Ordinal x < n} t m') t"
      by simp
    have step: "trimmed H {y \<in> set (x # xs). \<not> in_Ordinal y < n} m m'"
      if "trimmed H {x \<in> set xs. \<not> in_Ordinal x < n} t m'" for m'
    proof (cases "in_Ordinal x < n")
      case True
      with that t show ?thesis by (auto simp: trimmed_def)
    next
      case False
      then have "trimmed H {x} m t" using t by simp
      then have "trimmed H (insert x {x \<in> set xs. \<not> in_Ordinal x < n}) m m'"
        using that
      proof (rule trimmed_trans)
        fix y
        assume y: "y \<in> {x \<in> set xs. \<not> in_Ordinal x < n}" and eq: "in_InstanceID y = in_InstanceID x"
        from y have "in_InstanceID y \<in> in_InstanceID ` set xs" by blast
        with eq show "y = x" using Cons.prems(2) by simp
      qed
      moreover have "{y \<in> set (x # xs). \<not> in_Ordinal y < n} = insert x {x \<in> set xs. \<not> in_Ordinal x < n}" using False by auto
      ultimately show ?thesis by simp
    qed
    from rest show "wp (each (drop_extra H n) xs)
        (\<lambda>r m'. r = Inr () \<and> trimmed H {y \<in> set (x # xs). \<not> in_Ordinal y < n} m m') t"
      by (rule wp_mono) (simp add: step del: list.set)
  qed
qed

text \<open>Rows named after their process and ordinal.\<close>

definition named :: "Manager \<Rightarrow> bool" where
  "named m \<longleftrightarrow> rows_keyed m \<and> mall (\<lambda>k i. k = MakeInstanceID (in_ProcessID i) (in_Ordinal i) \<and> 0 \<le> in_Ordinal i) (rows m)"

lemma namedD:
  assumes "named m" and "mget (rows m) k = Some x"
  shows "in_InstanceID x = k" and "k = MakeInstanceID (in_ProcessID x) (in_Ordinal x)" and "0 \<le> in_Ordinal x"
  using assms by (auto simp: named_def rows_keyed_def dest: mallD)

lemma named_at:
  assumes "named m" and "mget (rows m) (MakeInstanceID p i) = Some x" and "0 \<le> i"
  shows "in_ProcessID x = p \<and> in_Ordinal x = i"
  using namedD [OF assms(1,2)] MakeInstanceID_inj2 assms(3) by metis

lemma filled_named:
  assumes "filled p d I m m'" and "named m" and "\<And>j. j \<in> I \<Longrightarrow> 0 \<le> j"
  shows "named m'"
proof -
  have "k = MakeInstanceID (in_ProcessID x) (in_Ordinal x) \<and> 0 \<le> in_Ordinal x" if k: "mget (rows m') k = Some x" for k x
  proof (cases "k \<in> MakeInstanceID p ` I")
    case True
    then obtain j where j: "j \<in> I" "k = MakeInstanceID p j" by blast
    then have eq: "mget (rows m') k = (case mget (rows m) k of None \<Rightarrow> Some (new_instance p j d) | Some x \<Rightarrow> Some x)"
      using assms(1) by (simp add: filled_def)
    show ?thesis
    proof (cases "mget (rows m) k")
      case None
      with eq k j assms(3) show ?thesis by (auto simp: new_instance_def)
    next
      case (Some y)
      with eq k namedD(2,3) [OF assms(2) Some] show ?thesis by simp
    qed
  next
    case False
    with assms(1) k have "mget (rows m) k = Some x" by (simp add: filled_def)
    from namedD(2,3) [OF assms(2) this] show ?thesis by simp
  qed
  then show ?thesis using assms(1) by (simp add: named_def filled_def mall_def)
qed

lemma listing_distinct:
  assumes "rows_keyed m"
  shows "distinct (map in_InstanceID (ListInstances p (mg_Store m)))"
proof -
  have "map in_InstanceID (mvals (rows m)) = map fst (rows m)"
    using assms by (auto simp: rows_keyed_def mget_in_set mall_def)
  then have "distinct (map in_InstanceID (mvals (rows m)))"
    using assms by (simp only: rows_keyed_def wfmap_def)
  then have "distinct (map in_InstanceID (filter (\<lambda>i. in_ProcessID i = p) (mvals (rows m))))"
    by (rule distinct_map_filter)
  moreover have "mset (map in_InstanceID (ListInstances p (mg_Store m)))
      = mset (map in_InstanceID (filter (\<lambda>i. in_ProcessID i = p) (mvals (rows m))))"
    by (simp add: ListInstances_def)
  ultimately show ?thesis by (metis mset_eq_imp_distinct_iff)
qed

section \<open>The instances are what the specification asks for\<close>

lemma wp_listing:
  "(\<And>l. h_db H l = None) \<Longrightarrow> wp (db_ListInstances H p) (\<lambda>r m'. r = Inr (ListInstances p (mg_Store m)) \<and> mg_Store m' = mg_Store m) m"
  by (simp add: db_ListInstances_def)

lemma same_store:
  assumes "mg_Store m' = mg_Store m"
  shows "rows_keyed m' = rows_keyed m" and "named m' = named m" and "filled p d I m0 m' = filled p d I m0 m"
  using assms by (simp_all add: rows_keyed_def named_def filled_def)

text \<open>What becomes of the instance of \<open>p\<close> with ordinal \<open>i\<close> when \<open>n\<close> instances are asked for.\<close>

fun settled :: "Host \<Rightarrow> string \<Rightarrow> int \<Rightarrow> DesiredState \<Rightarrow> int \<Rightarrow> Instance option \<Rightarrow> Instance option \<Rightarrow> bool" where
  "settled H p n d i None new \<longleftrightarrow> new = (if i < n then Some (new_instance p i d) else None)"
| "settled H p n d i (Some x) new \<longleftrightarrow> (if i < n then new = Some x
     else new = Some (x\<lparr>in_Desired := DesiredStopped\<rparr>) \<or> new = None \<and> at_rest H x)"

abbreviation in_excess :: "string \<Rightarrow> int \<Rightarrow> Manager \<Rightarrow> Instance set" where
  "in_excess p n m \<equiv> {x \<in> set (ListInstances p (mg_Store m)). \<not> in_Ordinal x < n}"

lemma in_excess_iff:
  "named m \<Longrightarrow> x \<in> in_excess p n m \<longleftrightarrow> mget (rows m) (in_InstanceID x) = Some x \<and> in_ProcessID x = p \<and> n \<le> in_Ordinal x"
  by (auto simp: in_listing named_def)

lemma excess_key:
  assumes "named m" and "k \<in> in_InstanceID ` in_excess p n m"
  obtains x where "mget (rows m) k = Some x" and "k = MakeInstanceID p (in_Ordinal x)" and "n \<le> in_Ordinal x" and "0 \<le> in_Ordinal x"
proof -
  from assms(2) obtain x where x: "x \<in> in_excess p n m" "k = in_InstanceID x" by (rule imageE) simp
  then have row: "mget (rows m) k = Some x" and p: "in_ProcessID x = p" "n \<le> in_Ordinal x"
    by (simp_all only: in_excess_iff [OF assms(1)])
  from that [OF row] namedD(2,3) [OF assms(1) row] p show thesis by simp
qed

lemma excess_at:
  assumes "named m" and "MakeInstanceID p i \<in> in_InstanceID ` in_excess p n m" and "0 \<le> i"
  shows "n \<le> i \<and> mget (rows m) (MakeInstanceID p i) \<noteq> None"
  using excess_key [OF assms(1,2)] MakeInstanceID_inj [OF assms(3)] by (metis option.distinct(1))

lemma settled_others:
  assumes "filled p d {0..<n} m m1" and "trimmed H (in_excess p n m1) m1 m2" and "named m1" and "\<forall>i\<ge>0. k \<noteq> MakeInstanceID p i"
  shows "mget (rows m2) k = mget (rows m) k"
proof -
  have "k \<notin> in_InstanceID ` in_excess p n m1"
    by (rule notI, erule excess_key [OF assms(3)]) (use assms(4) in auto)
  with assms(2) have "mget (rows m2) k = mget (rows m1) k" by (simp add: trimmed_def)
  moreover have "k \<notin> MakeInstanceID p ` {0..<n}" using assms(4) by auto
  ultimately show ?thesis using assms(1) by (simp add: filled_def)
qed

lemma key_above: "0 \<le> i \<Longrightarrow> MakeInstanceID p i \<in> MakeInstanceID p ` {0..<n} \<Longrightarrow> i < n"
  by (erule imageE, drule MakeInstanceID_inj [rotated 2]) auto

lemma settled_own:
  assumes fill: "filled p d {0..<n} m m1" and trim: "trimmed H (in_excess p n m1) m1 m2" and n1: "named m1" and i: "0 \<le> i"
  shows "settled H p n d i (mget (rows m) (MakeInstanceID p i)) (mget (rows m2) (MakeInstanceID p i))" (is "settled H p n d i ?old ?new")
proof (cases "i < n \<or> ?old = None")
  case True
  have own: "mget (rows m1) (MakeInstanceID p i) = ?old" if "\<not> i < n"
  proof -
    have "MakeInstanceID p i \<notin> MakeInstanceID p ` {0..<n}" using key_above [OF i] that by blast
    with fill show ?thesis by (simp add: filled_def)
  qed
  have "MakeInstanceID p i \<notin> in_InstanceID ` in_excess p n m1" using excess_at [OF n1 _ i] own True by fastforce
  with trim have "?new = mget (rows m1) (MakeInstanceID p i)" by (simp add: trimmed_def)
  with fill own i True show ?thesis by (cases "i < n") (simp_all add: filled_def split: option.split)
next
  case False
  then obtain x where x: "?old = Some x" and out: "\<not> i < n" by auto
  have "MakeInstanceID p i \<notin> MakeInstanceID p ` {0..<n}" using key_above [OF i] out by blast
  with fill x have x1: "mget (rows m1) (MakeInstanceID p i) = Some x" by (simp add: filled_def)
  have "x \<in> in_excess p n m1" unfolding in_excess_iff [OF n1]
    using named_at [OF n1 x1 i] namedD(1) [OF n1 x1] x1 out by simp
  with trim have "mget (rows m2) (in_InstanceID x) = Some (x\<lparr>in_Desired := DesiredStopped\<rparr>)
      \<or> mget (rows m2) (in_InstanceID x) = None \<and> at_rest H x"
    unfolding trimmed_def by (elim conjE) (erule bspec)
  with namedD(1) [OF n1 x1] x out show ?thesis by simp
qed

lemma ensure_fills_and_trims:
  assumes db: "\<And>l. h_db H l = None" and named: "named m"
  shows "wp (ensureInstances H spec) (\<lambda>r m'. r = Inr () \<and> (\<exists>m0 m1. mg_Store m0 = mg_Store m
      \<and> filled (ps_ProcessID spec) (inheritProcessDesired (ListInstances (ps_ProcessID spec) (mg_Store m)) (ps_Instances spec))
          {0..<ps_Instances spec} m0 m1
      \<and> trimmed H (in_excess (ps_ProcessID spec) (ps_Instances spec) m1) m1 m')) m"
    (is "wp _ (\<lambda>r m'. r = Inr () \<and> ?done m') m")
  unfolding ensureInstances_def
proof (rule wp_andthenI [OF wp_listing [OF db]], simp)
  let ?p = "ps_ProcessID spec" and ?n = "ps_Instances spec"
  let ?ords = "map int [0..<nat ?n]"
  fix insts and m0 :: Manager
  assume listed: "Inr insts = (Inr (ListInstances ?p (mg_Store m)) :: goerror + Instance list) \<and> mg_Store m0 = mg_Store m"
  have keyed: "rows_keyed m0" using named same_store(1) [of m0 m] listed by (simp add: named_def)
  have ords: "set ?ords = {0..<?n}" by (simp add: image_int_atLeastLessThan)
  let ?d = "inheritProcessDesired insts ?n"
  show "wp (andthen (each (ensure_one H ?p ?d) ?ords) (\<lambda>_. andthen (db_ListInstances H ?p) (\<lambda>all. each (drop_extra H ?n) all)))
      (\<lambda>r m'. r = Inr () \<and> ?done m') m0"
  proof (rule wp_andthenI [OF ensure_all_fill [OF db keyed]])
    show "0 \<le> j" if "j \<in> set ?ords" for j using that by auto
    show "Inl e = Inr () \<and> ?done t" if "Inl e = Inr () \<and> filled ?p ?d (set ?ords) m0 t" for e t using that by simp
    fix v t
    assume "Inr v = (Inr () :: goerror + unit) \<and> filled ?p ?d (set ?ords) m0 t"
    then have fill: "filled ?p ?d {0..<?n} m0 t" by (simp add: ords del: set_map)
    show "wp (andthen (db_ListInstances H ?p) (\<lambda>all. each (drop_extra H ?n) all)) (\<lambda>r m'. r = Inr () \<and> ?done m') t"
    proof (rule wp_andthenI [OF wp_listing [OF db]], simp)
      fix all and t' :: Manager
      assume l: "Inr all = (Inr (ListInstances ?p (mg_Store t)) :: goerror + Instance list) \<and> mg_Store t' = mg_Store t"
      then have fill': "filled ?p ?d {0..<?n} m0 t'" and all: "all = ListInstances ?p (mg_Store t')"
        using fill same_store(3) [of t' t] by simp_all
      then have keyed': "rows_keyed t'" by (simp add: filled_def)
      have "wp (each (drop_extra H ?n) all) (\<lambda>r m'. r = Inr () \<and> trimmed H {x \<in> set all. \<not> in_Ordinal x < ?n} t' m') t'"
        by (rule drop_all_trim [OF db keyed']) (simp_all add: all listing_distinct [OF keyed'] in_listing [OF keyed'])
      then show "wp (each (drop_extra H ?n) all) (\<lambda>r m'. r = Inr () \<and> ?done m') t'"
        by (rule wp_mono) (use listed fill' all in blast)
    qed
  qed
qed

text \<open>
  C34: Ensuring the instances of a specification makes their number exact. On a store that answers and
  whose rows are named after their process and ordinal, \<^verbatim>\<open>ensureInstances\<close> succeeds and then, for the process
  of the specification: every ordinal below \<open>Instances\<close> has a row, an existing one unchanged and a new one
  stopped with the desired state inherited from its siblings; a row with a higher ordinal is told to stop
  and is dropped only if it had come to rest and its process did not answer a probe; no other
  ordinal appears. The rows of every other process are as before.
\<close>

theorem ensure_instances_exact:
  assumes "\<And>l. h_db H l = None" and "named m" and "run_state (ensureInstances H spec) m = (r, m')"
  shows "r = Inr ()
    \<and> (\<forall>i\<ge>0. settled H (ps_ProcessID spec) (ps_Instances spec)
          (inheritProcessDesired (ListInstances (ps_ProcessID spec) (mg_Store m)) (ps_Instances spec)) i
          (mget (rows m) (MakeInstanceID (ps_ProcessID spec) i)) (mget (rows m') (MakeInstanceID (ps_ProcessID spec) i)))
    \<and> (\<forall>k. (\<forall>i\<ge>0. k \<noteq> MakeInstanceID (ps_ProcessID spec) i) \<longrightarrow> mget (rows m') k = mget (rows m) k)"
proof -
  from wp_runD [OF ensure_fills_and_trims [OF assms(1,2)] assms(3)] obtain m0 m1 where r: "r = Inr ()"
    and m0: "mg_Store m0 = mg_Store m"
    and fill: "filled (ps_ProcessID spec) (inheritProcessDesired (ListInstances (ps_ProcessID spec) (mg_Store m)) (ps_Instances spec))
      {0..<ps_Instances spec} m0 m1"
    and trim: "trimmed H (in_excess (ps_ProcessID spec) (ps_Instances spec) m1) m1 m'" by blast
  have n0: "named m0" using same_store(2) [OF m0] assms(2) by simp
  have n1: "named m1" using filled_named [OF fill n0] by simp
  show ?thesis using r settled_own [OF fill trim n1] settled_others [OF fill trim n1] m0 by simp
qed

text \<open>Two instances instead of one: the missing one is added and should run, as its sibling should.\<close>

theorem ensure_instances_witness:
  "\<exists>m'. run_state (ensureInstances calm_host (web_spec\<lparr>ps_ProcessID := ''p1'', ps_Instances := 2\<rparr>)) web_manager = (Inr (), m')
     \<and> mget (rows m') (MakeInstanceID ''p1'' 0) = Some web_row
     \<and> mget (rows m') (MakeInstanceID ''p1'' 1) = Some (new_instance ''p1'' 1 DesiredRunning)"
proof -
  let ?spec = "web_spec\<lparr>ps_ProcessID := ''p1'', ps_Instances := 2\<rparr>"
  obtain r m' where run: "run_state (ensureInstances calm_host ?spec) web_manager = (r, m')"
    by (cases "run_state (ensureInstances calm_host ?spec) web_manager")
  have id0: "MakeInstanceID ''p1'' 0 = ''p1:0''" and id1: "MakeInstanceID ''p1'' 1 = ''p1:1''"
    by code_simp+
  have named: "named web_manager"
    by (simp add: named_def rows_keyed_def mall_def wfmap_def web_manager_def web_row_def new_instance_def id0)
  have db: "h_db calm_host l = None" for l by (simp add: calm_host_def)
  have old: "ListInstances ''p1'' (mg_Store web_manager) = [web_row]"
    by (simp add: ListInstances_def web_manager_def web_row_def new_instance_def)
  have inherit: "inheritProcessDesired [web_row] 2 = DesiredRunning"
    by (simp add: inheritProcessDesired_def web_row_def new_instance_def)
  have was: "mget (rows web_manager) ''p1:0'' = Some web_row" "mget (rows web_manager) ''p1:1'' = None"
    by (simp_all add: web_manager_def)
  from ensure_instances_exact [OF db named run] have "r = Inr ()"
    and own: "\<And>i. 0 \<le> i \<Longrightarrow> settled calm_host ''p1'' 2 DesiredRunning i
      (mget (rows web_manager) (MakeInstanceID ''p1'' i)) (mget (rows m') (MakeInstanceID ''p1'' i))"
    by (simp_all add: old inherit)
  with own [of 0] own [of 1] was run show ?thesis by (simp add: id0 id1)
qed

section \<open>A process is deleted only when nothing of it runs\<close>

definition deletable :: "Host \<Rightarrow> Instance \<Rightarrow> bool" where
  "deletable H x \<longleftrightarrow> in_Desired x = DesiredStopped
     \<and> (in_Observed x = ObservedStopped \<or> in_Observed x = ObservedFatal \<or> in_Observed x = ObservedUnknown)
     \<and> (sameBoot (in_BootID x) (h_boot_id H) \<and> 0 < in_PID x \<longrightarrow> (\<exists>l. \<not> h_alive H l (in_PID x)))"

abbreviation specs_rows :: "Manager \<Rightarrow> (string, ProcessSpec) gomap \<times> (string, Instance) gomap" where
  "specs_rows m \<equiv> (st_specs (mg_Store m), rows m)"

text \<open>The frame of a command touches neither the specifications nor the rows.\<close>

lemma wp_command:
  assumes "\<And>t. specs_rows t = specs_rows m \<Longrightarrow> wp body (\<lambda>_ u. Q (specs_rows u)) t" and "Q (specs_rows m)"
  shows "wp (command H opID operator k target action body) (\<lambda>_ u. Q (specs_rows u)) m"
proof -
  have opened: "wp (beginOp H opID operator k target) (\<lambda>_ t. specs_rows t = specs_rows m) m"
    by (auto simp: beginOp_def db_StartOp_def StartOp_def Let_def split: option.split)
  have finish: "wp (finishOp H opID st res msg) (\<lambda>_ u. specs_rows u = specs_rows t) t" for st res msg t
    by (auto simp: finishOp_def db_FinishOperation_def FinishOperation_def split: option.split)
  have finish': "wp (finishOp H opID st res msg) (\<lambda>_ u. Q (specs_rows u)) t" if "Q (specs_rows t)" for st res msg t
    by (rule wp_mono [OF finish]) (use that in simp)
  have quiet: "wp (audit H a b c d e) (\<lambda>_ u. Q (specs_rows u)) t" if "Q (specs_rows t)" for a b c d e t
    using that by (simp add: audit_def)
  show ?thesis
    unfolding command_def
    apply (rule wp_andthenI [OF opened])
    subgoal using assms(2) by simp
    subgoal for v t
      unfolding op_failed_def
      by (cases v, simp only: prod.case, intro wp_ifI wp_retI wp_bindI [OF assms(1)] wp_sumI wp_ignoring_inv finish' quiet)
         (simp_all add: assms(2))
    done
qed

lemma checks_pass:
  "wp (each (check_deletable H (h_boot_id H)) xs)
     (\<lambda>r t. mg_Store t = mg_Store m \<and> (r = Inr () \<longrightarrow> (\<forall>x\<in>set xs. deletable H x))) m"
proof (induction xs arbitrary: m)
  case (Cons x xs)
  have one: "wp (check_deletable H (h_boot_id H) x) (\<lambda>r t. mg_Store t = mg_Store m \<and> (r = Inr () \<longrightarrow> deletable H x)) m"
    by (auto simp: check_deletable_def deletable_def pidAlive_def)
  show ?case unfolding each.simps
  proof (rule wp_andthenI [OF one], simp)
    fix v and t :: Manager
    assume t: "mg_Store t = mg_Store m \<and> (Inr v = (Inr () :: goerror + unit) \<longrightarrow> deletable H x)"
    show "wp (each (check_deletable H (h_boot_id H)) xs)
        (\<lambda>r t. mg_Store t = mg_Store m \<and> (r = Inr () \<longrightarrow> (\<forall>x\<in>set (x # xs). deletable H x))) t"
      by (rule wp_mono [OF Cons.IH [of t]]) (use t in auto)
  qed
qed simp

text \<open>The specification of \<open>p\<close> is gone and so are some of its instances; nothing else changed.\<close>

definition deleted :: "string \<Rightarrow> string set \<Rightarrow> (string, ProcessSpec) gomap \<times> (string, Instance) gomap
    \<Rightarrow> (string, ProcessSpec) gomap \<times> (string, Instance) gomap \<Rightarrow> bool" where
  "deleted p ks old new \<longleftrightarrow> fst new = mdel p (fst old)
     \<and> (\<forall>k. mget (snd new) k = mget (snd old) k \<or> k \<in> ks \<and> mget (snd new) k = None)"

lemma deletes_rows:
  assumes "deleted p ks old (specs_rows m)" and "in_InstanceID ` set xs \<subseteq> ks"
  shows "wp (each (delete_one H) xs) (\<lambda>_ u. deleted p ks old (specs_rows u)) m"
proof (rule wp_each)
  fix x t
  assume x: "x \<in> set xs" and t: "deleted p ks old (specs_rows t)"
  then have "in_InstanceID x \<in> ks" using assms(2) by auto
  with t have del: "deleted p ks old (st_specs (mg_Store t), mdel (in_InstanceID x) (rows t))"
    by (auto simp: deleted_def)
  show "wp (delete_one H x) (\<lambda>_ u. deleted p ks old (specs_rows u)) t"
    using t del by (auto simp: delete_one_def db_DeleteInstance_def DeleteInstance_def forgetInstance_def resetHealth_def
        split: option.split)
qed (fact assms(1))

lemma delete_body:
  fixes m :: Manager and p :: string and e :: int
  assumes "\<And>l. h_db H l = None" and "specs_rows t = specs_rows m"
  defines "may \<equiv> (\<forall>x\<in>set (ListInstances p (mg_Store m)). deletable H x)
    \<and> map_option ps_LatestRevision (mget (st_specs (mg_Store m)) p) = Some e"
  shows "wp (do { boot \<leftarrow> bootID H;
      andthen (db_ListInstances H p) (\<lambda>insts. andthen (each (check_deletable H boot) insts) (\<lambda>_.
      andthen (db_DeleteSpec H p e) (\<lambda>_. andthen (each (delete_one H) insts) (\<lambda>_. ok p)))) })
    (\<lambda>_ u. specs_rows u = specs_rows m \<or> may
      \<and> deleted p (in_InstanceID ` set (ListInstances p (mg_Store m))) (specs_rows m) (specs_rows u)) t"
    (is "wp _ (\<lambda>_. ?done) t")
proof -
  have insts: "ListInstances p (mg_Store u) = ListInstances p (mg_Store m)" if "specs_rows u = specs_rows m" for u
    using that by (simp add: ListInstances_def)
  let ?insts = "ListInstances p (mg_Store m)"
  let ?tail = "\<lambda>insts. andthen (db_DeleteSpec H p e) (\<lambda>_. andthen (each (delete_one H) insts) (\<lambda>_. ok p))"
  have tail: "wp (?tail ?insts) (\<lambda>_. ?done) u" if u: "specs_rows u = specs_rows m" and ok: "\<forall>x\<in>set ?insts. deletable H x" for u
  proof -
    have del: "wp (db_DeleteSpec H p e) (\<lambda>r w. case r of Inl _ \<Rightarrow> specs_rows w = specs_rows m
        | Inr _ \<Rightarrow> may \<and> deleted p (in_InstanceID ` set ?insts) (specs_rows m) (specs_rows w)) u"
      using u ok by (auto simp: db_DeleteSpec_def DeleteSpec_def assms(1) may_def deleted_def split: option.split)
    show ?thesis
      by (rule wp_andthenI [OF del], simp, rule wp_andthen_inv, rule wp_mono, rule deletes_rows) auto
  qed
  have boot: "wp (bootID H) (\<lambda>b u. b = h_boot_id H \<and> specs_rows u = specs_rows m) t"
    using assms(2) by (simp add: bootID_def db_GetBootID_def assms(1))
  have list: "wp (db_ListInstances H p) (\<lambda>r u. r = Inr ?insts \<and> specs_rows u = specs_rows m) u"
    if "specs_rows u = specs_rows m" for u
    using insts [OF that] that by (simp add: db_ListInstances_def assms(1))
  show ?thesis
    apply (rule wp_bindI [OF boot])
    apply (rule wp_andthenI [OF list], simp, simp)
    apply (elim conjE, simp only: sum.inject)
    apply (rule wp_andthenI [OF checks_pass], simp)
    apply (rule tail; simp)
    done
qed


definition parked_manager :: Manager where
  "parked_manager = web_manager\<lparr>mg_Store := (mg_Store web_manager)\<lparr>st_instances :=
     [(''p1:0'', web_row\<lparr>in_InstanceID := ''p1:0'', in_Desired := DesiredStopped, in_Observed := ObservedStopped\<rparr>)]\<rparr>\<rparr>"


end
