(* ===== verification/Backup_Topology.thy ===== *)
theory Backup_Topology imports Complex_Main Control_Policies "HOL-Library.Product_Lexorder"
begin

text \<open>
  The planner of replication routes (\<^verbatim>\<open>internal/backup/topology.go\<close>): every source is given targets on the
  ring of admitted nodes, other failure domains first. Weights and scores are floating-point numbers in the
  code; here they are rationals, and the parameter \<open>rnd\<close> rounds the exact result of an operation.
  \<^verbatim>\<open>sort.Slice\<close> by node identifier is a sort with unique keys: identifiers are the keys of a map.
\<close>

section \<open>Data\<close>

record AgentTopology =
  tn_NodeID :: string
  tn_Hostname :: string
  tn_Host :: string
  tn_Rack :: string
  tn_Zone :: string
  tn_CapacityWeight :: rat
  tn_Admitted :: bool
  tn_Alive :: bool

record RouteDraft =
  dr_SourceNodeID :: string
  dr_TargetNodeIDs :: "string list"
  dr_Warnings :: "string list"

record RouteDraftResult =
  dd_Routes :: "RouteDraft list"
  dd_Warnings :: "string list"

type_synonym load = "(string, int) gomap"
type_synonym targetSelector = "AgentTopology \<Rightarrow> AgentTopology list \<Rightarrow> int \<Rightarrow> load \<Rightarrow> string list \<times> load"

section \<open>The ring\<close>

fun position :: "('a \<Rightarrow> bool) \<Rightarrow> 'a list \<Rightarrow> nat option" where
  "position P [] = None"
| "position P (x # xs) = (if P x then Some 0 else map_option Suc (position P xs))"

definition ringSuccessors :: "AgentTopology \<Rightarrow> AgentTopology list \<Rightarrow> AgentTopology list" where
  "ringSuccessors source eligible =
    (case position (\<lambda>n. tn_NodeID n = tn_NodeID source) eligible of
       None \<Rightarrow> []
     | Some start \<Rightarrow> filter (\<lambda>n. tn_NodeID n \<noteq> tn_NodeID source)
         (map (\<lambda>step. eligible ! ((start + step) mod length eligible)) [1..<length eligible]))"

definition successorIndex :: "AgentTopology list \<Rightarrow> (string, int) gomap" where
  "successorIndex successors = fold (\<lambda>(i, n). mput (tn_NodeID n) (int i)) (enumerate 0 successors) []"

section \<open>Failure domains and capacity\<close>

definition affinityRank :: "AgentTopology \<Rightarrow> AgentTopology \<Rightarrow> int" where
  "affinityRank source candidate =
    (if tn_Zone source \<noteq> [] \<and> tn_Zone candidate \<noteq> [] \<and> tn_Zone source \<noteq> tn_Zone candidate then 3
     else if tn_Rack source \<noteq> [] \<and> tn_Rack candidate \<noteq> [] \<and> tn_Rack source \<noteq> tn_Rack candidate then 2
     else if tn_Host source \<noteq> [] \<and> tn_Host candidate \<noteq> [] \<and> tn_Host source \<noteq> tn_Host candidate then 1
     else 0)"

definition best_rank :: "AgentTopology \<Rightarrow> AgentTopology list \<Rightarrow> int" where
  "best_rank source successors =
     fold (\<lambda>candidate best. if affinityRank source candidate > best then affinityRank source candidate else best) successors 0"

definition partitionByAffinity :: "AgentTopology \<Rightarrow> AgentTopology list \<Rightarrow> AgentTopology list \<times> AgentTopology list" where
  "partitionByAffinity source successors =
    (let best = best_rank source successors in
     if best = 0 then (successors, [])
     else (filter (\<lambda>c. affinityRank source c = best) successors, filter (\<lambda>c. affinityRank source c \<noteq> best) successors))"

definition capacityWeightsDiffer :: "AgentTopology list \<Rightarrow> bool" where
  "capacityWeightsDiffer nodes =
    (case nodes of [] \<Rightarrow> False | n # ns \<Rightarrow> list_ex (\<lambda>m. tn_CapacityWeight m \<noteq> tn_CapacityWeight n) ns)"

definition capacityScore :: "(rat \<Rightarrow> rat) \<Rightarrow> AgentTopology \<Rightarrow> int \<Rightarrow> rat" where
  "capacityScore rnd node inbound = rnd (rnd (tn_CapacityWeight node * 10) - rnd (rnd (of_int inbound) * 5))"

definition rankByCapacity :: "(rat \<Rightarrow> rat) \<Rightarrow> AgentTopology list \<Rightarrow> load \<Rightarrow> (string, int) gomap \<Rightarrow> AgentTopology list" where
  "rankByCapacity rnd pool inboundLoad ringIdx =
     sort_key (\<lambda>n. (- capacityScore rnd n (mget_or 0 inboundLoad (tn_NodeID n)), mget_or 0 ringIdx (tn_NodeID n))) pool"

section \<open>Choosing targets\<close>

definition add_load :: "AgentTopology \<Rightarrow> load \<Rightarrow> load" where
  "add_load node inboundLoad = mput (tn_NodeID node) (mget_or 0 inboundLoad (tn_NodeID node) + 1) inboundLoad"

definition selectTargets :: "(rat \<Rightarrow> rat) \<Rightarrow> targetSelector" where
  "selectTargets rnd source eligible wanted inboundLoad =
    (if wanted \<le> 0 then ([], inboundLoad)
     else
      (let successors = ringSuccessors source eligible;
           n = min (nat wanted) (length successors);
           ringIdx = successorIndex successors;
           (preferred, fallback) = partitionByAffinity source successors;
           capacityPool = (if length preferred < n then preferred @ fallback else preferred);
           (preferred', fallback') = (if capacityWeightsDiffer capacityPool
             then (rankByCapacity rnd preferred inboundLoad ringIdx, rankByCapacity rnd fallback inboundLoad ringIdx)
             else (preferred, fallback));
           chosen = sort_key (\<lambda>n. mget_or 0 ringIdx (tn_NodeID n)) (take n (preferred' @ fallback'))
       in if successors = [] then ([], inboundLoad)
          else (map tn_NodeID chosen, fold add_load chosen inboundLoad)))"

text \<open>The planner of earlier versions, kept to check old drafts.\<close>

definition pre_score :: "(rat \<Rightarrow> rat) \<Rightarrow> AgentTopology \<Rightarrow> AgentTopology \<Rightarrow> int \<Rightarrow> rat" where
  "pre_score rnd source candidate inbound =
    (let rank = affinityRank source candidate;
         base = (if rank = 3 then 100 else if rank = 2 then 50 else if rank = 1 then 25 else 0);
         score = (if tn_CapacityWeight candidate > 0 then rnd (base + rnd (tn_CapacityWeight candidate * 10)) else base)
     in rnd (score - rnd (rnd (of_int inbound) * 1000)))"

definition selectTargetsPreRing :: "(rat \<Rightarrow> rat) \<Rightarrow> targetSelector" where
  "selectTargetsPreRing rnd source eligible wanted inboundLoad =
    (if wanted \<le> 0 then ([], inboundLoad)
     else
      (let scored = filter (\<lambda>c. tn_NodeID c \<noteq> tn_NodeID source) eligible;
           sorted = sort_key (\<lambda>c. (- pre_score rnd source c (mget_or 0 inboundLoad (tn_NodeID c)), tn_NodeID c)) scored;
           chosen = take (nat wanted) sorted
       in (map tn_NodeID chosen, fold add_load chosen inboundLoad)))"

section \<open>Routes\<close>

text \<open>\<^verbatim>\<open>%q\<close>: identifiers are printable and hold no quote or backslash, so they are only put in quotes.\<close>

definition quoted :: "string \<Rightarrow> string" where
  "quoted s = CHR 0x22 # s @ [CHR 0x22]"

fun collect_sources :: "(string, AgentTopology) gomap \<Rightarrow> string list \<Rightarrow> string list \<Rightarrow> goerror + AgentTopology list" where
  "collect_sources eligibleByID seen [] = Inr []"
| "collect_sources eligibleByID seen (i # ids) =
    (if i \<in> set seen then Inl (Plain (''duplicate source node '' @ quoted i))
     else case mget eligibleByID i of
         None \<Rightarrow> Inl (Plain (''source node '' @ quoted i @ '' is not admitted''))
       | Some source \<Rightarrow> map_sum id ((#) source) (collect_sources eligibleByID (i # seen) ids))"

fun plan_routes :: "targetSelector \<Rightarrow> AgentTopology list \<Rightarrow> int \<Rightarrow> AgentTopology list \<Rightarrow> load \<Rightarrow> RouteDraft list" where
  "plan_routes select eligible wanted [] inboundLoad = []"
| "plan_routes select eligible wanted (source # sources) inboundLoad =
    (case select source eligible wanted inboundLoad of
       (targets, inboundLoad') \<Rightarrow>
         \<lparr>dr_SourceNodeID = tn_NodeID source, dr_TargetNodeIDs = targets, dr_Warnings = []\<rparr>
           # plan_routes select eligible wanted sources inboundLoad')"

definition has_topology :: "AgentTopology \<Rightarrow> bool" where
  "has_topology n \<longleftrightarrow> tn_Zone n \<noteq> [] \<or> tn_Rack n \<noteq> [] \<or> tn_Host n \<noteq> []"

definition generateRoutesForSources ::
    "targetSelector \<Rightarrow> AgentTopology list \<Rightarrow> string list \<Rightarrow> int \<Rightarrow> goerror + RouteDraftResult" where
  "generateRoutesForSources select nodes sourceNodeIDs replicaFactor =
    (let eligible = sort_key tn_NodeID (filter tn_Admitted nodes);
         eligibleByID = fold (\<lambda>n. mput (tn_NodeID n) n) eligible []
     in case collect_sources eligibleByID [] sourceNodeIDs of
          Inl err \<Rightarrow> Inl err
        | Inr collected \<Rightarrow>
           (let sources = sort_key tn_NodeID collected;
                offline = map (\<lambda>n. ''admitted-node-offline:'' @ tn_NodeID n) (filter (\<lambda>n. \<not> tn_Alive n) eligible)
            in if length eligible = 1
               then Inr \<lparr>dd_Routes = [], dd_Warnings = offline @ [''single-node-no-replica'']\<rparr>
               else
                (let labels = (if \<not> list_ex has_topology eligible then [''no-topology-labels''] else []);
                     maxTargets = int (length eligible) - 1;
                     (actual, degraded) = (if replicaFactor > maxTargets then (maxTargets, [''insufficient-candidates-degraded''])
                       else (replicaFactor, []))
                 in Inr \<lparr>dd_Routes = plan_routes select eligible actual sources [], dd_Warnings = offline @ labels @ degraded\<rparr>)))"

definition GenerateRoutesForSources :: "(rat \<Rightarrow> rat) \<Rightarrow> AgentTopology list \<Rightarrow> string list \<Rightarrow> int \<Rightarrow> goerror + RouteDraftResult" where
  "GenerateRoutesForSources rnd = generateRoutesForSources (selectTargets rnd)"

definition GenerateRoutesForSourcesPreRing ::
    "(rat \<Rightarrow> rat) \<Rightarrow> AgentTopology list \<Rightarrow> string list \<Rightarrow> int \<Rightarrow> goerror + RouteDraftResult" where
  "GenerateRoutesForSourcesPreRing rnd = generateRoutesForSources (selectTargetsPreRing rnd)"

definition GenerateRoutes :: "(rat \<Rightarrow> rat) \<Rightarrow> AgentTopology list \<Rightarrow> int \<Rightarrow> goerror + RouteDraftResult" where
  "GenerateRoutes rnd nodes replicaFactor =
     GenerateRoutesForSources rnd nodes (map tn_NodeID (filter tn_Admitted nodes)) replicaFactor"

section \<open>The ring of successors\<close>

lemma position_at: "\<not> list_ex P xs \<Longrightarrow> P x \<Longrightarrow> position P (xs @ x # ys) = Some (length xs)"
  by (induction xs) auto

lemma nth_around:
  "map (\<lambda>step. (xs @ x # ys) ! ((length xs + step) mod length (xs @ x # ys))) [1..<length (xs @ x # ys)] = ys @ xs"
proof (rule nth_equalityI)
  let ?l = "xs @ x # ys"
  fix i
  assume "i < length (map (\<lambda>step. ?l ! ((length xs + step) mod length ?l)) [1..<length ?l])"
  then have i: "Suc i < length ?l" by (simp split: if_splits)
  have "?l ! ((length xs + Suc i) mod length ?l) = rotate (length xs) ?l ! Suc i" using nth_rotate [OF i] by simp
  then show "map (\<lambda>step. ?l ! ((length xs + step) mod length ?l)) [1..<length ?l] ! i = (ys @ xs) ! i"
    using i by (subst nth_map) (simp_all add: rotate_append del: upt_Suc)
qed (simp add: upt_Suc_append del: upt_Suc)

lemma other_key: "f x \<notin> f ` A \<Longrightarrow> n \<in> A \<Longrightarrow> f n = f x \<Longrightarrow> False"
  by (metis image_eqI)

lemma ringSuccessors_split:
  assumes "distinct (map tn_NodeID (xs @ x # ys))"
  shows "ringSuccessors x (xs @ x # ys) = ys @ xs"
proof -
  have "\<not> list_ex (\<lambda>n. tn_NodeID n = tn_NodeID x) xs" and fresh: "\<forall>n\<in>set (ys @ xs). tn_NodeID n \<noteq> tn_NodeID x"
    using assms by (auto simp: list_ex_iff dest: other_key)
  then have "position (\<lambda>n. tn_NodeID n = tn_NodeID x) (xs @ x # ys) = Some (length xs)" by (simp add: position_at)
  then have "ringSuccessors x (xs @ x # ys) = filter (\<lambda>n. tn_NodeID n \<noteq> tn_NodeID x) (ys @ xs)"
    unfolding ringSuccessors_def by (simp only: option.case nth_around)
  also have "\<dots> = ys @ xs" using fresh by (simp add: filter_id_conv)
  finally show ?thesis .
qed

lemma mget_index_fold:
  assumes "distinct (map tn_NodeID ns)" and "i < length ns"
  shows "mget (fold (\<lambda>(i, n). mput (tn_NodeID n) (int i)) (enumerate k ns) m) (tn_NodeID (ns ! i)) = Some (int (k + i))"
  using assms
proof (induction ns arbitrary: i k m)
  case (Cons n ns)
  have other: "mget (fold (\<lambda>(i, n). mput (tn_NodeID n) (int i)) (enumerate k' xs) m') key = mget m' key"
    if "key \<notin> tn_NodeID ` set xs" for k' xs m' key
    using that by (induction xs arbitrary: k' m') auto
  show ?case
  proof (cases i)
    case 0
    then show ?thesis using Cons.prems(1) by (simp add: other)
  next
    case (Suc j)
    then show ?thesis using Cons.IH [of j "Suc k"] Cons.prems by simp
  qed
qed simp

lemma ring_index:
  "distinct (map tn_NodeID ns) \<Longrightarrow> i < length ns \<Longrightarrow> mget_or 0 (successorIndex ns) (tn_NodeID (ns ! i)) = int i"
  by (simp add: successorIndex_def mget_index_fold mget_or_def)

text \<open>Sorting a prefix of the ring by its index leaves it as it is.\<close>

lemma ring_prefix_sorted:
  assumes "distinct (map tn_NodeID ns)"
  shows "sort_key (\<lambda>n. mget_or 0 (successorIndex ns) (tn_NodeID n)) (take k ns) = take k ns"
proof (rule sort_key_id_if_sorted)
  have "map (\<lambda>n. mget_or 0 (successorIndex ns) (tn_NodeID n)) (take k ns) = map int [0..<min k (length ns)]"
    by (rule nth_equalityI) (auto simp: ring_index [OF assms])
  then show "sorted (map (\<lambda>n. mget_or 0 (successorIndex ns) (tn_NodeID n)) (take k ns))"
    by (simp add: sorted_map)
qed

section \<open>The choice of targets\<close>

lemma best_rank_fold:
  fixes g :: "'a \<Rightarrow> int"
  defines "m \<equiv> \<lambda>cs b. fold (\<lambda>c best. if g c > best then g c else best) cs b"
  shows "b \<le> m cs b \<and> (\<forall>c\<in>set cs. g c \<le> m cs b) \<and> (m cs b = b \<or> (\<exists>c\<in>set cs. g c = m cs b))"
  unfolding m_def
proof (induction cs arbitrary: b)
  case (Cons c cs)
  show ?case using Cons.IH [of "if g c > b then g c else b"] by (auto split: if_splits)
qed simp

lemma best_rank:
  "0 \<le> best_rank source cs"
  "c \<in> set cs \<Longrightarrow> affinityRank source c \<le> best_rank source cs"
  "best_rank source cs = 0 \<or> (\<exists>c\<in>set cs. affinityRank source c = best_rank source cs)"
  using best_rank_fold [of 0 "affinityRank source" cs] by (auto simp: best_rank_def)

lemma affinityRank_nonneg: "0 \<le> affinityRank source c"
  by (simp add: affinityRank_def)

lemma partition_split:
  assumes "partitionByAffinity source cs = (p, f)"
  shows "mset p + mset f = mset cs"
    and "\<forall>c\<in>set p. affinityRank source c = best_rank source cs"
    and "\<forall>c\<in>set f. affinityRank source c < best_rank source cs"
proof -
  have "affinityRank source c = 0" if "best_rank source cs = 0" "c \<in> set cs" for c
    using best_rank(2) [OF that(2), of source] that(1) affinityRank_nonneg [of source c] by simp
  moreover have "affinityRank source c < best_rank source cs" if "affinityRank source c \<noteq> best_rank source cs" "c \<in> set cs" for c
    using best_rank(2) [OF that(2), of source] that(1) by simp
  ultimately show "mset p + mset f = mset cs" "\<forall>c\<in>set p. affinityRank source c = best_rank source cs"
    "\<forall>c\<in>set f. affinityRank source c < best_rank source cs"
    using assms by (auto simp: partitionByAffinity_def Let_def split: if_splits)
qed

lemma select_result:
  assumes "ringSuccessors source eligible = cs" and "partitionByAffinity source cs = (p, f)" and "0 < wanted" and "cs \<noteq> []"
  obtains chosen p' f' where "selectTargets rnd source eligible wanted l = (map tn_NodeID chosen, fold add_load chosen l)"
    and "mset chosen = mset (take (min (nat wanted) (length cs)) (p' @ f'))" and "mset p' = mset p" and "mset f' = mset f"
proof -
  let ?n = "min (nat wanted) (length cs)" and ?idx = "successorIndex cs"
  let ?differ = "capacityWeightsDiffer (if length p < ?n then p @ f else p)"
  define p' where "p' = (if ?differ then rankByCapacity rnd p l ?idx else p)"
  define f' where "f' = (if ?differ then rankByCapacity rnd f l ?idx else f)"
  define chosen where "chosen = sort_key (\<lambda>n. mget_or 0 ?idx (tn_NodeID n)) (take ?n (p' @ f'))"
  have "selectTargets rnd source eligible wanted l = (map tn_NodeID chosen, fold add_load chosen l)"
    using assms by (simp add: selectTargets_def Let_def p'_def f'_def chosen_def)
  moreover have "mset chosen = mset (take ?n (p' @ f'))" unfolding chosen_def by (rule mset_sort)
  moreover have "mset p' = mset p" "mset f' = mset f" by (simp_all add: p'_def f'_def rankByCapacity_def)
  ultimately show thesis by (rule that)
qed

text \<open>As many targets as wanted and possible, all different and none the source; a target outside the best
  failure domain only when every candidate of the best one is a target.\<close>

definition well_chosen :: "AgentTopology \<Rightarrow> AgentTopology list \<Rightarrow> int \<Rightarrow> string list \<Rightarrow> bool" where
  "well_chosen source cs wanted ts \<longleftrightarrow>
     int (length ts) = min (max 0 wanted) (int (length cs)) \<and> distinct ts \<and> set ts \<subseteq> tn_NodeID ` set cs
     \<and> (\<forall>c\<in>set cs. \<forall>d\<in>set cs. tn_NodeID c \<in> set ts \<and> tn_NodeID d \<notin> set ts \<longrightarrow>
          affinityRank source c = best_rank source cs \<or> affinityRank source d < best_rank source cs)"

lemma taken_first:
  assumes "c \<in> set (take n (p @ f))" and "d \<in> set p" and "d \<notin> set (take n (p @ f))"
  shows "c \<in> set p"
proof -
  have "n < length p" using assms(2,3) by (cases "length p \<le> n") auto
  with assms(1) show ?thesis by (auto dest: in_set_takeD)
qed

lemma select_well_chosen:
  assumes ids: "distinct (map tn_NodeID cs)" and cs: "ringSuccessors source eligible = cs"
  shows "well_chosen source cs wanted (fst (selectTargets rnd source eligible wanted l))"
proof (cases "0 < wanted \<and> cs \<noteq> []")
  case False
  with cs show ?thesis by (cases "wanted \<le> 0") (auto simp: selectTargets_def well_chosen_def Let_def split: prod.split)
next
  case True
  obtain p f where part: "partitionByAffinity source cs = (p, f)" by fastforce
  obtain chosen p' f' where sel: "selectTargets rnd source eligible wanted l = (map tn_NodeID chosen, fold add_load chosen l)"
    and taken: "mset chosen = mset (take (min (nat wanted) (length cs)) (p' @ f'))"
    and perm: "mset p' = mset p" "mset f' = mset f"
    using select_result [OF cs part] True by blast
  let ?n = "min (nat wanted) (length cs)"
  have all: "mset (p' @ f') = mset cs" using partition_split(1) [OF part] perm by simp
  have sets: "set p' = set p" "set f' = set f" "set (p' @ f') = set cs" using perm all by (metis set_mset_mset)+
  have "distinct (map tn_NodeID (p' @ f'))" using all ids by (metis mset_map mset_eq_imp_distinct_iff)
  then have "distinct (map tn_NodeID (take ?n (p' @ f')))" by (metis distinct_take take_map)
  moreover have ts: "mset (map tn_NodeID chosen) = mset (map tn_NodeID (take ?n (p' @ f')))" using taken by simp
  ultimately have d: "distinct (map tn_NodeID chosen)" by (metis mset_eq_imp_distinct_iff)
  have len: "length chosen = ?n" using taken all by (metis length_take min.absorb2 min.cobounded2 size_mset)
  have chosen: "set chosen = set (take ?n (p' @ f'))" using taken by (metis set_mset_mset)
  then have sub: "set chosen \<subseteq> set cs" using sets(3) set_take_subset by fastforce
  have member: "tn_NodeID c \<in> tn_NodeID ` set chosen \<longleftrightarrow> c \<in> set chosen" if "c \<in> set cs" for c
    using ids sub that by (metis distinct_map inj_on_image_mem_iff)
  have first: "affinityRank source c = best_rank source cs \<or> affinityRank source d < best_rank source cs"
    if "c \<in> set cs" "d \<in> set cs" "c \<in> set chosen" "d \<notin> set chosen" for c d
  proof (cases "d \<in> set p")
    case True
    with taken_first [of c ?n p' f' d] that chosen sets have "c \<in> set p" by simp
    then show ?thesis using partition_split(2) [OF part] by simp
  next
    case False
    then have "d \<in> set f" using that(2) sets by auto
    then show ?thesis using partition_split(3) [OF part] by simp
  qed
  show ?thesis
    unfolding sel fst_conv well_chosen_def
    using d len sub True first member by (auto simp: image_iff)
qed

section \<open>Plans\<close>

lemma best_rank_mono: "set cs \<subseteq> set cs' \<Longrightarrow> best_rank source cs \<le> best_rank source cs'"
  using best_rank(3) [of source cs] best_rank(1) [of source cs'] best_rank(2) [of _ cs' source] by (metis subsetD)

lemma best_rank_cong: "set cs = set cs' \<Longrightarrow> best_rank source cs = best_rank source cs'"
  by (rule order_antisym) (simp_all add: best_rank_mono)

lemma well_chosen_cong: "mset cs = mset cs' \<Longrightarrow> well_chosen source cs wanted ts = well_chosen source cs' wanted ts"
proof -
  assume perm: "mset cs = mset cs'"
  then have "length cs = length cs'" and s: "set cs = set cs'" by (rule mset_eq_length, rule mset_eq_setD)
  then show ?thesis unfolding well_chosen_def by (simp only: best_rank_cong [OF s])
qed

lemma well_chosen_clip:
  "int (length cs) = m \<Longrightarrow> well_chosen source cs (if wanted > m then m else wanted) ts = well_chosen source cs wanted ts"
  by (auto simp: well_chosen_def)

lemma mget_by_id:
  "distinct (map tn_NodeID ns) \<Longrightarrow> mget (fold (\<lambda>n. mput (tn_NodeID n) n) ns m) i
    = (case find (\<lambda>n. tn_NodeID n = i) ns of Some n \<Rightarrow> Some n | None \<Rightarrow> mget m i)"
proof (induction ns arbitrary: m)
  case (Cons n ns)
  have "find (\<lambda>k. tn_NodeID k = i) ns = None" if "tn_NodeID n = i"
    using Cons.prems that by (auto simp: find_None_iff dest: other_key)
  with Cons show ?case by (auto split: option.split)
qed simp

lemma by_id:
  assumes "distinct (map tn_NodeID ns)"
  shows "mget (fold (\<lambda>n. mput (tn_NodeID n) n) ns []) i = Some n \<longleftrightarrow> n \<in> set ns \<and> tn_NodeID n = i"
proof -
  have "find (\<lambda>k. tn_NodeID k = i) ns = Some n" if "n \<in> set ns" "tn_NodeID n = i"
    using assms that by (induction ns) (auto dest: other_key)
  moreover have "n \<in> set ns \<and> tn_NodeID n = i" if "find (\<lambda>k. tn_NodeID k = i) ns = Some n"
    using that by (auto simp: find_Some_iff)
  ultimately show ?thesis by (auto simp: mget_by_id [OF assms] split: option.split)
qed

lemma collect_sources_exact:
  "(\<exists>err. collect_sources m seen ids = Inl err) \<and> \<not> (distinct ids \<and> set ids \<inter> set seen = {} \<and> (\<forall>i\<in>set ids. mget m i \<noteq> None))
   \<or> collect_sources m seen ids = Inr (map (\<lambda>i. the (mget m i)) ids) \<and> distinct ids \<and> set ids \<inter> set seen = {}
     \<and> (\<forall>i\<in>set ids. mget m i \<noteq> None)"
proof (induction m seen ids rule: collect_sources.induct)
  case (2 m seen i ids)
  show ?case
  proof (cases "i \<in> set seen \<or> mget m i = None")
    case True
    then show ?thesis by auto
  next
    case False
    then obtain n where n: "mget m i = Some n" and i: "i \<notin> set seen" by blast
    from 2 [OF i n] n i show ?thesis by auto
  qed
qed simp

lemma ring_perm:
  assumes "distinct (map tn_NodeID ns)" and "x \<in> set ns"
  shows "mset (ringSuccessors x ns) = mset (filter (\<lambda>n. tn_NodeID n \<noteq> tn_NodeID x) ns)" and "distinct (map tn_NodeID (ringSuccessors x ns))"
    and "Suc (length (ringSuccessors x ns)) = length ns"
proof -
  obtain xs ys where ns: "ns = xs @ x # ys" using assms(2) by (auto simp: in_set_conv_decomp)
  have others: "filter (\<lambda>n. tn_NodeID n \<noteq> tn_NodeID x) (xs @ ys) = xs @ ys"
    unfolding filter_id_conv using assms(1) by (auto simp: ns dest: other_key)
  show "mset (ringSuccessors x ns) = mset (filter (\<lambda>n. tn_NodeID n \<noteq> tn_NodeID x) ns)"
    using others assms(1) by (simp add: ns ringSuccessors_split)
  show "distinct (map tn_NodeID (ringSuccessors x ns))" "Suc (length (ringSuccessors x ns)) = length ns"
    using assms(1) by (auto simp: ns ringSuccessors_split)
qed

lemma plan_routes_chosen:
  assumes "distinct (map tn_NodeID eligible)" and "set sources \<subseteq> set eligible"
  shows "map dr_SourceNodeID (plan_routes (selectTargets rnd) eligible wanted sources l) = map tn_NodeID sources
    \<and> (\<forall>r\<in>set (plan_routes (selectTargets rnd) eligible wanted sources l). \<exists>x\<in>set eligible. tn_NodeID x = dr_SourceNodeID r
         \<and> well_chosen x (filter (\<lambda>n. tn_NodeID n \<noteq> tn_NodeID x) eligible) wanted (dr_TargetNodeIDs r))"
  using assms(2)
proof (induction sources arbitrary: l)
  case (Cons x sources)
  obtain ts l' where sel: "selectTargets rnd x eligible wanted l = (ts, l')" by fastforce
  have "well_chosen x (ringSuccessors x eligible) wanted ts"
    using select_well_chosen [OF ring_perm(2) refl, of eligible x wanted rnd l] assms(1) Cons.prems sel by simp
  then have "well_chosen x (filter (\<lambda>n. tn_NodeID n \<noteq> tn_NodeID x) eligible) wanted ts"
    using well_chosen_cong [OF ring_perm(1)] assms(1) Cons.prems by fastforce
  with Cons sel show ?case by auto
qed simp

lemma admitted_ids_of:
  assumes "distinct (map tn_NodeID (filter tn_Admitted nodes))"
  defines "eligible \<equiv> sort_key tn_NodeID (filter tn_Admitted nodes)"
  shows "distinct (map tn_NodeID eligible)" and "set eligible = {n \<in> set nodes. tn_Admitted n}"
    and "mset (filter (\<lambda>n. tn_NodeID n \<noteq> i) eligible) = mset (filter (\<lambda>n. tn_Admitted n \<and> tn_NodeID n \<noteq> i) nodes)"
proof -
  have p: "mset eligible = mset (filter tn_Admitted nodes)" by (simp add: eligible_def)
  show "distinct (map tn_NodeID eligible)" using assms(1) p by (metis mset_eq_imp_distinct_iff mset_map)
  show "set eligible = {n \<in> set nodes. tn_Admitted n}" by (simp add: eligible_def)
  have "mset (filter (\<lambda>n. tn_NodeID n \<noteq> i) eligible) = mset (filter (\<lambda>n. tn_NodeID n \<noteq> i) (filter tn_Admitted nodes))"
    by (simp only: mset_filter p)
  then show "mset (filter (\<lambda>n. tn_NodeID n \<noteq> i) eligible) = mset (filter (\<lambda>n. tn_Admitted n \<and> tn_NodeID n \<noteq> i) nodes)"
    by (simp only: filter_filter conj_commute)
qed

lemma sorted_sources:
  assumes "distinct (map tn_NodeID ns)" and "set ids \<subseteq> tn_NodeID ` set ns"
  defines "sources \<equiv> sort_key tn_NodeID (map (\<lambda>i. the (mget (fold (\<lambda>n. mput (tn_NodeID n) n) ns []) i)) ids)"
  shows "set sources \<subseteq> set ns" and "map tn_NodeID sources = sort ids"
proof -
  let ?m = "fold (\<lambda>n. mput (tn_NodeID n) n) ns []"
  have found: "the (mget ?m i) \<in> set ns \<and> tn_NodeID (the (mget ?m i)) = i" if i: "i \<in> set ids" for i
  proof -
    obtain n where "n \<in> set ns" "tn_NodeID n = i" using assms(2) i by blast
    then have "mget ?m i = Some n" using by_id [OF assms(1)] by simp
    with \<open>n \<in> set ns\<close> \<open>tn_NodeID n = i\<close> show ?thesis by simp
  qed
  show "set sources \<subseteq> set ns"
    unfolding sources_def set_sort set_map by (rule image_subsetI) (rule found [THEN conjunct1])
  have "map (\<lambda>i. tn_NodeID (the (mget ?m i))) ids = ids" by (rule map_idI) (rule found [THEN conjunct2])
  then have ids: "map tn_NodeID (map (\<lambda>i. the (mget ?m i)) ids) = ids" unfolding list.map_comp o_def .
  have "mset (map tn_NodeID sources) = mset (map tn_NodeID (map (\<lambda>i. the (mget ?m i)) ids))"
    unfolding sources_def mset_map mset_sort by (rule refl)
  also have "\<dots> = mset ids" by (simp only: ids)
  finally have "mset (map tn_NodeID sources) = mset ids" .
  moreover have "sorted (map tn_NodeID sources)" by (simp add: sources_def)
  ultimately show "map tn_NodeID sources = sort ids" by (metis properties_for_sort)
qed

lemma generate_routes_cases:
  assumes "distinct (map tn_NodeID (filter tn_Admitted nodes))"
  defines "eligible \<equiv> sort_key tn_NodeID (filter tn_Admitted nodes)"
  obtains (refused) err where "generateRoutesForSources select nodes ids k = Inl err"
      and "\<not> (distinct ids \<and> set ids \<subseteq> tn_NodeID ` {n \<in> set nodes. tn_Admitted n})"
  | (planned) sources d where "generateRoutesForSources select nodes ids k = Inr d"
      and "distinct ids" "set ids \<subseteq> tn_NodeID ` {n \<in> set nodes. tn_Admitted n}"
      and "set sources \<subseteq> set eligible" "map tn_NodeID sources = sort ids"
      and "dd_Routes d = (if length eligible = 1 then []
            else plan_routes select eligible (min k (int (length eligible) - 1)) sources [])"
proof -
  let ?m = "fold (\<lambda>n. mput (tn_NodeID n) n) eligible []"
  note e = admitted_ids_of(1,2) [OF assms(1), folded eligible_def]
  have dom: "(mget ?m i \<noteq> None) = (i \<in> tn_NodeID ` {n \<in> set nodes. tn_Admitted n})" for i
    using by_id [OF e(1)] by (auto simp: image_iff simp flip: e(2))
  consider err where "collect_sources ?m [] ids = Inl err" "\<not> (distinct ids \<and> set ids \<subseteq> tn_NodeID ` {n \<in> set nodes. tn_Admitted n})"
    | "collect_sources ?m [] ids = Inr (map (\<lambda>i. the (mget ?m i)) ids)" "distinct ids"
      "set ids \<subseteq> tn_NodeID ` {n \<in> set nodes. tn_Admitted n}"
    using collect_sources_exact [of ?m "[]" ids] unfolding dom by auto
  then show thesis
  proof cases
    case 1
    then show thesis by (intro refused [of err]) (simp_all add: generateRoutesForSources_def Let_def eligible_def)
  next
    case 2
    have ids: "set ids \<subseteq> tn_NodeID ` set eligible" using 2(3) by (simp add: e(2))
    obtain d where d: "generateRoutesForSources select nodes ids k = Inr d"
      "dd_Routes d = (if length eligible = 1 then []
            else plan_routes select eligible (min k (int (length eligible) - 1))
              (sort_key tn_NodeID (map (\<lambda>i. the (mget ?m i)) ids)) [])"
      using 2(1) by (cases "k > int (length eligible) - 1"; cases "length eligible = 1")
        (simp_all add: generateRoutesForSources_def Let_def min_def flip: eligible_def)
    from planned [OF d(1) 2(2,3) sorted_sources [OF e(1) ids] d(2)] show thesis .
  qed
qed

lemma planned_routes_chosen:
  assumes "distinct (map tn_NodeID (filter tn_Admitted nodes))" and "GenerateRoutesForSources rnd nodes ids k = Inr d"
  shows "distinct ids \<and> set ids \<subseteq> tn_NodeID ` {n \<in> set nodes. tn_Admitted n}
    \<and> map dr_SourceNodeID (dd_Routes d) = (if length (filter tn_Admitted nodes) = 1 then [] else sort ids)
    \<and> (\<forall>r\<in>set (dd_Routes d). \<exists>x\<in>set nodes. tn_Admitted x \<and> tn_NodeID x = dr_SourceNodeID r
         \<and> well_chosen x (filter (\<lambda>n. tn_Admitted n \<and> tn_NodeID n \<noteq> dr_SourceNodeID r) nodes) k (dr_TargetNodeIDs r))"
  using assms(1)
proof (cases rule: generate_routes_cases [where select = "selectTargets rnd" and ids = ids and k = k])
  case (refused err)
  then show ?thesis using assms(2) by (simp add: GenerateRoutesForSources_def)
next
  case (planned sources d')
  let ?e = "sort_key tn_NodeID (filter tn_Admitted nodes)"
  let ?w = "min k (int (length ?e) - 1)"
  note e = admitted_ids_of [OF assms(1)]
  have d': "d' = d" using planned(1) assms(2) by (simp add: GenerateRoutesForSources_def)
  have chosen: "well_chosen x (filter (\<lambda>n. tn_Admitted n \<and> tn_NodeID n \<noteq> tn_NodeID x) nodes) k ts"
    if "x \<in> set ?e" "well_chosen x (filter (\<lambda>n. tn_NodeID n \<noteq> tn_NodeID x) ?e) ?w ts" for x ts
  proof -
    have "Suc (length (filter (\<lambda>n. tn_NodeID n \<noteq> tn_NodeID x) ?e)) = length ?e"
      using ring_perm(1,3) [OF e(1) that(1)] by (metis size_mset)
    with that(2) have "well_chosen x (filter (\<lambda>n. tn_NodeID n \<noteq> tn_NodeID x) ?e) k ts"
      using well_chosen_clip [of "filter (\<lambda>n. tn_NodeID n \<noteq> tn_NodeID x) ?e" "int (length ?e) - 1" x k ts]
      by (simp add: min_def split: if_splits)
    then show ?thesis using well_chosen_cong [OF e(3)] by blast
  qed
  show ?thesis
  proof (cases "length ?e = 1")
    case True
    then show ?thesis using planned by (simp add: d')
  next
    case False
    then have d: "dd_Routes d = plan_routes (selectTargets rnd) ?e ?w sources []" using planned(6) by (simp add: d')
    note p = plan_routes_chosen [OF e(1) planned(4), of rnd ?w "[]", folded d]
    have "\<exists>x\<in>set nodes. tn_Admitted x \<and> tn_NodeID x = dr_SourceNodeID r
        \<and> well_chosen x (filter (\<lambda>n. tn_Admitted n \<and> tn_NodeID n \<noteq> dr_SourceNodeID r) nodes) k (dr_TargetNodeIDs r)"
      if "r \<in> set (dd_Routes d)" for r
    proof -
      obtain x where x: "x \<in> set ?e" "tn_NodeID x = dr_SourceNodeID r"
        "well_chosen x (filter (\<lambda>n. tn_NodeID n \<noteq> tn_NodeID x) ?e) ?w (dr_TargetNodeIDs r)" using p \<open>r \<in> _\<close> by blast
      from chosen [OF x(1,3)] x(1,2) e(2) show ?thesis by (intro bexI [of _ x]) simp_all
    qed
    moreover have "length (filter tn_Admitted nodes) \<noteq> 1" using False by simp
    ultimately show ?thesis using planned(2,3,5) p by simp
  qed
qed

lemma planned_routes_refused:
  assumes "distinct (map tn_NodeID (filter tn_Admitted nodes))" and "GenerateRoutesForSources rnd nodes ids k = Inl err"
  shows "\<not> (distinct ids \<and> set ids \<subseteq> tn_NodeID ` {n \<in> set nodes. tn_Admitted n})"
  using assms(1)
proof (cases rule: generate_routes_cases [where select = "selectTargets rnd" and ids = ids and k = k])
  case (planned sources d)
  then show ?thesis using assms(2) by (simp add: GenerateRoutesForSources_def)
qed

text \<open>
  C14: The planner of replication routes is exact. When the admitted nodes have different identifiers, a plan is
  refused exactly when a source is named twice or is not admitted. Otherwise it has one route per source, in the
  order of their identifiers (none if a single node is admitted), and each route is well chosen among the other
  admitted nodes: as many different targets as the replica factor asks for and there are, and a target outside the
  best failure domain only when every node of the best one is a target.
\<close>

theorem planned_routes_exact:
  assumes "distinct (map tn_NodeID (filter tn_Admitted nodes))"
  shows "case GenerateRoutesForSources rnd nodes ids k of
      Inl err \<Rightarrow> \<not> (distinct ids \<and> set ids \<subseteq> tn_NodeID ` {n \<in> set nodes. tn_Admitted n})
    | Inr d \<Rightarrow> distinct ids \<and> set ids \<subseteq> tn_NodeID ` {n \<in> set nodes. tn_Admitted n}
        \<and> map dr_SourceNodeID (dd_Routes d) = (if length (filter tn_Admitted nodes) = 1 then [] else sort ids)
        \<and> (\<forall>r\<in>set (dd_Routes d). \<exists>x\<in>set nodes. tn_Admitted x \<and> tn_NodeID x = dr_SourceNodeID r
             \<and> well_chosen x (filter (\<lambda>n. tn_Admitted n \<and> tn_NodeID n \<noteq> dr_SourceNodeID r) nodes) k (dr_TargetNodeIDs r))"
proof (cases "GenerateRoutesForSources rnd nodes ids k")
  case (Inl err)
  then show ?thesis using planned_routes_refused [OF assms Inl] by simp
next
  case (Inr d)
  show ?thesis unfolding Inr sum.case by (rule planned_routes_chosen [OF assms Inr])
qed

definition plain_node :: "string \<Rightarrow> AgentTopology" where
  "plain_node i = \<lparr>tn_NodeID = i, tn_Hostname = i, tn_Host = [], tn_Rack = [], tn_Zone = [], tn_CapacityWeight = 1,
     tn_Admitted = True, tn_Alive = True\<rparr>"

definition trio :: "AgentTopology list" where
  "trio = [plain_node ''c'', plain_node ''a'', plain_node ''b'']"

lemma trio_facts:
  "distinct (map tn_NodeID (filter tn_Admitted trio))" "{n \<in> set trio. tn_Admitted n} = set trio"
  "tn_NodeID ` set trio = {''a'', ''b'', ''c''}" "length (filter tn_Admitted trio) = 3"
  by (auto simp: trio_def plain_node_def)

theorem planned_routes_exact_witness:
  "case GenerateRoutesForSources id trio [''b'', ''a''] 2 of Inl err \<Rightarrow> False
    | Inr d \<Rightarrow> map dr_SourceNodeID (dd_Routes d) = sort [''b'', ''a''] \<and> (\<forall>r\<in>set (dd_Routes d). length (dr_TargetNodeIDs r) = 2)"
proof -
  note t = planned_routes_exact [OF trio_facts(1), where rnd = id and ids = "[''b'', ''a'']" and k = 2]
  have two: "length (filter (\<lambda>n. tn_Admitted n \<and> tn_NodeID n \<noteq> i) trio) = 2" if "i \<in> {''a'', ''b''}" for i
    using that by (auto simp: trio_def plain_node_def)
  show ?thesis
  proof (cases "GenerateRoutesForSources id trio [''b'', ''a''] 2")
    case (Inl err)
    then show ?thesis using t by (simp add: trio_facts)
  next
    case (Inr d)
    have s: "map dr_SourceNodeID (dd_Routes d) = sort [''b'', ''a'']" using t Inr by (simp add: trio_facts)
    have "length (dr_TargetNodeIDs r) = 2" if "r \<in> set (dd_Routes d)" for r
    proof -
      have "dr_SourceNodeID r \<in> set (map dr_SourceNodeID (dd_Routes d))" using that by simp
      then have "dr_SourceNodeID r \<in> {''a'', ''b''}" unfolding s by auto
      moreover have "\<exists>x. well_chosen x (filter (\<lambda>n. tn_Admitted n \<and> tn_NodeID n \<noteq> dr_SourceNodeID r) trio) 2 (dr_TargetNodeIDs r)"
        using t Inr that by auto
      ultimately show ?thesis using two unfolding well_chosen_def by auto
    qed
    with s Inr show ?thesis by simp
  qed
qed

section \<open>Equal nodes\<close>

lemma mset_map_sum: "mset (map f [a..<b]) = (\<Sum>i\<in>{a..<b}. {#f i#})"
  by (induction b) (auto simp: add.commute)

lemma mset_rotated: "0 < length e \<Longrightarrow> (\<Sum>i\<in>{0..<length e}. {#e ! ((i + t) mod length e)#}) = mset e"
proof -
  assume "0 < length e"
  have "rotate t e = map (\<lambda>i. e ! ((i + t) mod length e)) [0..<length e]"
    by (rule nth_equalityI) (simp_all add: nth_rotate add.commute)
  then have "mset (rotate t e) = (\<Sum>i\<in>{0..<length e}. {#e ! ((i + t) mod length e)#})" by (simp only: mset_map_sum)
  moreover have "mset (rotate t e) = mset (take (t mod length e) e @ drop (t mod length e) e)"
    unfolding rotate_drop_take mset_append by (rule add.commute)
  ultimately show ?thesis by (simp only: append_take_drop_id)
qed

lemma ring_inbound:
  assumes "0 < length e"
  shows "mset (concat (map (\<lambda>i. map (\<lambda>t. e ! ((i + t) mod length e)) [1..<Suc k]) [0..<length e])) = repeat_mset k (mset e)"
proof -
  have c: "mset (concat (map g [0..<m])) = (\<Sum>i\<in>{0..<m}. mset (g i))" for g :: "nat \<Rightarrow> 'a list" and m
    by (induction m) (auto simp: add.commute)
  have "mset (concat (map (\<lambda>i. map (\<lambda>t. e ! ((i + t) mod length e)) [1..<Suc k]) [0..<length e]))
      = (\<Sum>i\<in>{0..<length e}. \<Sum>t\<in>{1..<Suc k}. {#e ! ((i + t) mod length e)#})" by (simp only: c mset_map_sum)
  also have "\<dots> = (\<Sum>t\<in>{1..<Suc k}. \<Sum>i\<in>{0..<length e}. {#e ! ((i + t) mod length e)#})" by (rule sum.swap)
  also have "\<dots> = (\<Sum>t\<in>{1..<Suc k}. mset e)" by (simp only: mset_rotated [OF assms])
  also have "\<dots> = repeat_mset k (mset e)" by (induction k) auto
  finally show ?thesis .
qed

text \<open>Nodes without labels and with one weight are chosen along the ring.\<close>

definition equal_nodes :: "AgentTopology list \<Rightarrow> bool" where
  "equal_nodes ns \<longleftrightarrow> (\<forall>n\<in>set ns. \<forall>m\<in>set ns. \<not> has_topology n \<and> tn_CapacityWeight n = tn_CapacityWeight m)"

lemma ring_around:
  assumes "distinct (map tn_NodeID e)" and "i < length e"
  shows "ringSuccessors (e ! i) e = map (\<lambda>t. e ! ((i + t) mod length e)) [1..<length e]"
proof -
  have e: "e = take i e @ e ! i # drop (Suc i) e" using assms(2) by (simp add: id_take_nth_drop)
  have "ringSuccessors (e ! i) e = drop (Suc i) e @ take i e"
    using ringSuccessors_split [of "take i e" "e ! i" "drop (Suc i) e"] assms(1) e by simp
  also have "\<dots> = map (\<lambda>t. e ! ((i + t) mod length e)) [1..<length e]"
    using nth_around [of "take i e" "e ! i" "drop (Suc i) e"] e assms(2) by simp
  finally show ?thesis .
qed

lemma equal_nodes_select:
  assumes "distinct (map tn_NodeID e)" and "i < length e" and "equal_nodes e" and "k < length e"
  shows "fst (selectTargets rnd (e ! i) e (int k) l) = map (\<lambda>t. tn_NodeID (e ! ((i + t) mod length e))) [1..<Suc k]"
proof -
  define cs where "cs = ringSuccessors (e ! i) e"
  have perm: "mset cs = mset (filter (\<lambda>n. tn_NodeID n \<noteq> tn_NodeID (e ! i)) e)" "distinct (map tn_NodeID cs)"
    and len: "Suc (length cs) = length e"
    using ring_perm [OF assms(1), of "e ! i"] assms(2) by (simp_all add: cs_def)
  have sub: "set cs \<subseteq> set e" using perm(1) by (metis filter_is_subset set_mset_mset)
  have flat: "affinityRank (e ! i) c = 0" if "c \<in> set cs" for c
    using assms(3) sub that nth_mem [OF assms(2)] by (auto simp: equal_nodes_def has_topology_def affinityRank_def)
  have "best_rank (e ! i) cs = 0" using best_rank(3) [of "e ! i" cs] flat by auto
  then have part: "partitionByAffinity (e ! i) cs = (cs, [])" by (simp add: partitionByAffinity_def)
  have weight: "tn_CapacityWeight n = tn_CapacityWeight m" if "n \<in> set cs" "m \<in> set cs" for n m
    using assms(3) sub that unfolding equal_nodes_def by blast
  have same: "\<not> capacityWeightsDiffer cs"
  proof (cases cs)
    case (Cons c cs')
    have "tn_CapacityWeight m = tn_CapacityWeight c" if "m \<in> set cs'" for m by (rule weight) (simp_all add: Cons that)
    then show ?thesis by (simp add: capacityWeightsDiffer_def Cons list_ex_iff)
  qed (simp add: capacityWeightsDiffer_def)
  have "fst (selectTargets rnd (e ! i) e (int k) l) = map tn_NodeID (take k cs)"
    using len assms(4) ring_prefix_sorted [OF perm(2), of k]
    by (cases "cs = []") (auto simp: selectTargets_def Let_def part same simp flip: cs_def)
  also have "take k cs = map (\<lambda>t. e ! ((i + t) mod length e)) [1..<Suc k]"
    unfolding cs_def ring_around [OF assms(1,2)] take_map using assms(4) by (simp add: take_upt del: upt_Suc)
  finally show ?thesis by simp
qed

lemma plan_routes_map:
  assumes "\<And>x l. x \<in> set sources \<Longrightarrow> fst (select x eligible wanted l) = g x"
  shows "map dr_TargetNodeIDs (plan_routes select eligible wanted sources l) = map g sources"
  using assms
proof (induction sources arbitrary: l)
  case (Cons x sources)
  obtain ts l' where sel: "select x eligible wanted l = (ts, l')" by fastforce
  have "ts = g x" using Cons.prems [of x l] sel by simp
  moreover have "map dr_TargetNodeIDs (plan_routes select eligible wanted sources l') = map g sources"
    by (rule Cons.IH) (simp add: Cons.prems)
  ultimately show ?case by (simp add: sel)
qed simp

lemma all_nodes_planned:
  assumes "distinct (map tn_NodeID (filter tn_Admitted nodes))" and "0 < k" and "k < length (filter tn_Admitted nodes)"
  defines "e \<equiv> sort_key tn_NodeID (filter tn_Admitted nodes)"
  obtains d where "GenerateRoutes rnd nodes (int k) = Inr d" and "dd_Routes d = plan_routes (selectTargets rnd) e (int k) e []"
    and "map tn_NodeID e = sort (map tn_NodeID (filter tn_Admitted nodes))"
proof -
  let ?all = "map tn_NodeID (filter tn_Admitted nodes)"
  note e = admitted_ids_of(1,2) [OF assms(1), folded e_def]
  have ids: "map tn_NodeID e = sort ?all"
    unfolding e_def by (rule properties_for_sort [symmetric]) (simp_all add: sorted_sort_key)
  from assms(1) obtain sources d where d: "GenerateRoutes rnd nodes (int k) = Inr d"
    "set sources \<subseteq> set e" "map tn_NodeID sources = sort ?all"
    "dd_Routes d = plan_routes (selectTargets rnd) e (int k) sources []"
  proof (cases rule: generate_routes_cases [where select = "selectTargets rnd" and ids = ?all and k = "int k"])
    case (refused err)
    moreover have "set ?all \<subseteq> tn_NodeID ` {n \<in> set nodes. tn_Admitted n}" by auto
    ultimately show thesis using assms(1) by blast
  next
    case (planned sources d)
    have "min (int k) (int (length e) - 1) = int k" "length e \<noteq> 1" using assms(2,3) by (simp_all add: e_def)
    with planned show thesis
      by (intro that [of d sources]) (simp_all add: GenerateRoutes_def GenerateRoutesForSources_def flip: e_def)
  qed
  have "sources = e"
  proof (rule map_inj_on [of tn_NodeID])
    have "set sources \<union> set e = set e" using d(2) by blast
    then show "inj_on tn_NodeID (set sources \<union> set e)" using e(1) unfolding distinct_map by metis
  qed (simp only: d(3) ids)
  with d ids show thesis by (intro that [of d]) simp_all
qed

lemma equal_plan:
  assumes "distinct (map tn_NodeID e)" and "equal_nodes e" and "k < length e"
  shows "map dr_TargetNodeIDs (plan_routes (selectTargets rnd) e (int k) e [])
    = map (\<lambda>i. map (\<lambda>t. map tn_NodeID e ! ((i + t) mod length e)) [1..<Suc k]) [0..<length e]"
proof -
  have "map dr_TargetNodeIDs (plan_routes (selectTargets rnd) e (int k) e []) = map (\<lambda>x. fst (selectTargets rnd x e (int k) [])) e"
  proof (rule plan_routes_map)
    fix x l
    assume "x \<in> set e"
    then obtain i where "i < length e" "x = e ! i" by (metis in_set_conv_nth)
    then show "fst (selectTargets rnd x e (int k) l) = fst (selectTargets rnd x e (int k) [])"
      using equal_nodes_select [OF assms(1) _ assms(2,3), of i rnd] by simp
  qed
  also have "\<dots> = map (\<lambda>i. map (\<lambda>t. map tn_NodeID e ! ((i + t) mod length e)) [1..<Suc k]) [0..<length e]"
  proof (rule nth_equalityI)
    fix i
    assume "i < length (map (\<lambda>x. fst (selectTargets rnd x e (int k) [])) e)"
    then have i: "i < length e" by simp
    then have "(i + t) mod length e < length e" for t by (intro mod_less_divisor) linarith
    then show "map (\<lambda>x. fst (selectTargets rnd x e (int k) [])) e ! i
        = map (\<lambda>i. map (\<lambda>t. map tn_NodeID e ! ((i + t) mod length e)) [1..<Suc k]) [0..<length e] ! i"
      using equal_nodes_select [OF assms(1) i assms(2,3), of rnd "[]"] i by (simp del: upt_Suc)
  qed simp
  finally show ?thesis .
qed

text \<open>
  Equal nodes share the copies evenly. When the admitted nodes have different identifiers, no labels and equal
  weights, and 1 to N-1 copies are asked for, the plan over all N nodes is the ring: in the order of identifiers,
  the node at position i is copied to the next k positions (modulo N); and every node is a target exactly k times.
\<close>

theorem ring_balanced:
  assumes "distinct (map tn_NodeID (filter tn_Admitted nodes))" and "equal_nodes (filter tn_Admitted nodes)"
    and "0 < k" and "k < length (filter tn_Admitted nodes)"
  defines "ids \<equiv> sort (map tn_NodeID (filter tn_Admitted nodes))"
  shows "\<exists>d. GenerateRoutes rnd nodes (int k) = Inr d
    \<and> map dr_TargetNodeIDs (dd_Routes d) = map (\<lambda>i. map (\<lambda>t. ids ! ((i + t) mod length ids)) [1..<Suc k]) [0..<length ids]
    \<and> mset (concat (map dr_TargetNodeIDs (dd_Routes d))) = repeat_mset k (mset ids)"
proof -
  let ?e = "sort_key tn_NodeID (filter tn_Admitted nodes)"
  obtain d where d: "GenerateRoutes rnd nodes (int k) = Inr d" "dd_Routes d = plan_routes (selectTargets rnd) ?e (int k) ?e []"
    and ids: "map tn_NodeID ?e = ids"
    using all_nodes_planned [OF assms(1,3,4)] unfolding ids_def by blast
  have "equal_nodes ?e" using assms(2) unfolding equal_nodes_def set_sort .
  moreover have len: "length ids = length ?e" "k < length ?e" using ids assms(4) by (metis length_map, simp)
  ultimately have r: "map dr_TargetNodeIDs (dd_Routes d)
      = map (\<lambda>i. map (\<lambda>t. ids ! ((i + t) mod length ids)) [1..<Suc k]) [0..<length ids]"
    using equal_plan [OF admitted_ids_of(1) [OF assms(1)], of k rnd] unfolding d(2) ids len(1) by blast
  have "0 < length ids" using len by linarith
  from ring_inbound [OF this, of k] d(1) show ?thesis by (intro exI [of _ d]) (simp only: r)
qed

theorem ring_balanced_witness:
  "\<exists>d. GenerateRoutes id trio 1 = Inr d
    \<and> mset (concat (map dr_TargetNodeIDs (dd_Routes d))) = {#''a'', ''b'', ''c''#}"
proof -
  have "equal_nodes (filter tn_Admitted trio)" by (auto simp: trio_def plain_node_def equal_nodes_def has_topology_def)
  from ring_balanced [OF trio_facts(1) this, of 1 id] show ?thesis
    by (auto simp: trio_facts) (auto simp: trio_def plain_node_def add_mset_commute)
qed

end
