(* ===== verification/Cluster_Types.thy ===== *)
theory Cluster_Types imports Go_Map
begin

text \<open>
  What the nodes of a cluster tell each other about themselves (\<^verbatim>\<open>internal/cluster/summary.go\<close>). JSON names are left
  out; a \<^verbatim>\<open>context.Context\<close> has no part in the model.
\<close>

datatype NodeState = StateJoining | StateAlive | StateSuspect | StateFailed | StateLeft | StateRemoved | StateRevoked
  | StateOther string

record ProcessSummary =
  ps_ProcessID :: string
  ps_Name :: string
  ps_Group :: string
  ps_Desired :: string
  ps_Observed :: string
  ps_Health :: string
  ps_LatestRevision :: int
  ps_ActiveRevision :: int
  ps_FreshnessUnixMs :: int

record WorkloadVersion =
  wv_Epoch :: string
  wv_Version :: u64

record WorkloadSnapshot =
  ws_NodeID :: string
  ws_Epoch :: string
  ws_Version :: u64
  ws_ObservationSeq :: u64
  ws_Processes :: "ProcessSummary list"

record ResourceSummary =
  rs_CPUPercent :: int
  rs_MemoryPercent :: int
  rs_DiskPercent :: int
  rs_HistoryWritesPaused :: bool
  rs_HistoryPausePercent :: int

record NodeSummary =
  ns_NodeID :: string
  ns_ClusterID :: string
  ns_Hostname :: string
  ns_BootID :: string
  ns_State :: NodeState
  ns_AgentVersion :: string
  ns_ProtocolVersion :: int
  ns_OS :: string
  ns_Arch :: string
  ns_WorkloadSyncVersion :: int
  ns_WorkloadEpoch :: string
  ns_WorkloadVersion :: u64
  ns_WorkloadObservationSeq :: u64
  ns_WorkloadFreshness :: string
  ns_WorkloadLastVerifiedUnixMs :: int
  ns_WorkloadFreshnessReason :: string
  ns_APIAddress :: string
  ns_RPCAddress :: string
  ns_GossipAddress :: string
  ns_Labels :: "(string, string) gomap"
  ns_Resources :: ResourceSummary
  ns_Processes :: "ProcessSummary list"
  ns_LastUpdatedUnixMs :: int
  ns_DisableRemoteCreate :: bool
  ns_DisableRemoteUpdate :: bool
  ns_DisableRemoteDelete :: bool

definition zero_summary :: NodeSummary where
  "zero_summary = \<lparr>ns_NodeID = [], ns_ClusterID = [], ns_Hostname = [], ns_BootID = [], ns_State = StateOther [],
     ns_AgentVersion = [], ns_ProtocolVersion = 0, ns_OS = [], ns_Arch = [], ns_WorkloadSyncVersion = 0,
     ns_WorkloadEpoch = [], ns_WorkloadVersion = 0, ns_WorkloadObservationSeq = 0, ns_WorkloadFreshness = [],
     ns_WorkloadLastVerifiedUnixMs = 0, ns_WorkloadFreshnessReason = [], ns_APIAddress = [], ns_RPCAddress = [],
     ns_GossipAddress = [], ns_Labels = [],
     ns_Resources = \<lparr>rs_CPUPercent = 0, rs_MemoryPercent = 0, rs_DiskPercent = 0, rs_HistoryWritesPaused = False,
       rs_HistoryPausePercent = 0\<rparr>,
     ns_Processes = [], ns_LastUpdatedUnixMs = 0, ns_DisableRemoteCreate = False, ns_DisableRemoteUpdate = False,
     ns_DisableRemoteDelete = False\<rparr>"

end
