(* ===== verification/Backup_Drafts.thy ===== *)
theory Backup_Drafts imports Backup_Topology Cluster_Types
begin

text \<open>
  Drafts of replication policies (\<^verbatim>\<open>internal/api/disaster_replication.go\<close>): a client asks the leader for a draft, sees
  the routes and warnings, may edit the routes, and applies it; the draft carries the revision of the topology it was
  made for and a hash of its fields. The handlers are modelled on the leader, after the permission check and the
  forwarding of the request. The hashes (SHA-256 of JSON) are the parameters of \<open>digests\<close>.

  The 16 fields that a request and the draft made from it share are the record \<open>DraftRequest\<close>. A route of the
  protocol (source, targets, warnings) has the fields of \<open>RouteDraft\<close>.
\<close>

section \<open>Data\<close>

record DraftRequest =
  dq_Name :: string
  dq_Enabled :: bool
  dq_SourceSelector :: Selector
  dq_SourceIds :: "string list"
  dq_ReplicaFactor :: int
  dq_Trigger :: string
  dq_PrimaryPolicyIds :: "string list"
  dq_ScheduleCron :: string
  dq_Timezone :: string
  dq_RetentionKeepLast :: int
  dq_RetentionKeepDays :: int
  dq_RetentionMaxBytes :: int
  dq_MaxConcurrency :: int
  dq_VerifyAfterCopy :: bool
  dq_BandwidthLimit :: int
  dq_TopologyConstraints :: "(string, string) gomap"

record PolicyDraft =
  pd_Request :: DraftRequest
  pd_Routes :: "RouteDraft list"
  pd_DraftRevision :: int
  pd_DraftHash :: string
  pd_GlobalWarnings :: "string list"
  pd_InboundLoad :: "(string, int) gomap"
  pd_TopologyHealth :: string

record ApplyDraftRequest =
  ad_PolicyId :: string
  ad_Draft :: PolicyDraft
  ad_DraftRevision :: int
  ad_DraftHash :: string
  ad_ExpectedRevision :: int
  ad_OperationId :: string

text \<open>What the revision of a topology covers.\<close>

record revisionNode =
  rn_NodeID :: string
  rn_Host :: string
  rn_Rack :: string
  rn_Zone :: string
  rn_CapacityWeight :: rat
  rn_Admitted :: bool

text \<open>
  \<open>node_digest\<close> is the first eight bytes (big endian) of the hash of the nodes, \<open>draft_digest\<close> the hash of version 2
  of the fields and the topology's revision, \<open>legacy_digest\<close> that of the fields, the routes and the revision.
\<close>

record digests =
  node_digest :: "revisionNode list \<Rightarrow> u64"
  draft_digest :: "DraftRequest \<Rightarrow> int \<Rightarrow> string"
  legacy_digest :: "DraftRequest \<Rightarrow> RouteDraft list \<Rightarrow> int \<Rightarrow> string"

section \<open>The topology\<close>

definition label :: "NodeSummary \<Rightarrow> string \<Rightarrow> string" where
  "label summary key = mget_or [] (ns_Labels summary) key"

definition topology_node :: "(string, NodeSummary) gomap \<Rightarrow> string \<Rightarrow> AgentTopology" where
  "topology_node summaries nodeID =
    (let summary = mget_or zero_summary summaries nodeID in
     \<lparr>tn_NodeID = nodeID, tn_Hostname = ns_Hostname summary, tn_Host = label summary ''host'',
      tn_Rack = label summary ''rack'', tn_Zone = label summary ''zone'', tn_CapacityWeight = 1,
      tn_Admitted = True, tn_Alive = (ns_State summary = StateAlive)\<rparr>)"

text \<open>\<open>None\<close> is the nil function \<^verbatim>\<open>d.Members\<close>.\<close>

definition replicationTopology :: "State \<Rightarrow> NodeSummary list option \<Rightarrow> AgentTopology list" where
  "replicationTopology s members =
    (let summaries = (case members of None \<Rightarrow> [] | Some ns \<Rightarrow> fold (\<lambda>n. mput (ns_NodeID n) n) ns [])
     in sort_key tn_NodeID (map (topology_node summaries) (admitted_ids s)))"

definition topologyDraftRevision :: "digests \<Rightarrow> AgentTopology list \<Rightarrow> int" where
  "topologyDraftRevision g nodes =
    (let revisionNodes = sort_key rn_NodeID (map (\<lambda>n. \<lparr>rn_NodeID = tn_NodeID n, rn_Host = tn_Host n, rn_Rack = tn_Rack n,
           rn_Zone = tn_Zone n, rn_CapacityWeight = tn_CapacityWeight n, rn_Admitted = tn_Admitted n\<rparr>) nodes);
         revision = uint (and (node_digest g revisionNodes) 0x7fffffffffffffff)
     in if revision = 0 then 1 else revision)"

section \<open>The hashes\<close>

text \<open>JSON writes the entries of a map in the order of their keys.\<close>

definition computePolicyDraftHashForTopology :: "digests \<Rightarrow> DraftRequest \<Rightarrow> int \<Rightarrow> string" where
  "computePolicyDraftHashForTopology g req topologyRevision =
     draft_digest g (req\<lparr>dq_SourceIds := sort (dq_SourceIds req), dq_PrimaryPolicyIds := sort (dq_PrimaryPolicyIds req),
       dq_TopologyConstraints := sort_key fst (dq_TopologyConstraints req)\<rparr>) topologyRevision"

definition computeLegacyDraftHashForTopology :: "digests \<Rightarrow> DraftRequest \<Rightarrow> RouteDraft list \<Rightarrow> int \<Rightarrow> string" where
  "computeLegacyDraftHashForTopology g req routes topologyRevision =
     legacy_digest g (req\<lparr>dq_TopologyConstraints := sort_key fst (dq_TopologyConstraints req)\<rparr>)
       (sort_key dr_SourceNodeID routes) topologyRevision"

section \<open>The handlers\<close>

definition GeneratePolicyDraft ::
    "digests \<Rightarrow> (rat \<Rightarrow> rat) \<Rightarrow> State \<Rightarrow> NodeSummary list option \<Rightarrow> DraftRequest \<Rightarrow> goerror + PolicyDraft" where
  "GeneratePolicyDraft g rnd s members req =
    (if members = None then fail UNAVAILABLE ''cluster membership unavailable''
     else
      (let topologyNodes = replicationTopology s members;
           draftRevision = topologyDraftRevision g topologyNodes
       in case ResolveReplicationSources s (dq_SourceSelector req) (dq_SourceIds req) of
            Inl err \<Rightarrow> Inl err
          | Inr sources \<Rightarrow>
            (case GenerateRoutesForSources rnd topologyNodes sources (dq_ReplicaFactor req) of
               Inl err \<Rightarrow> Inl err
             | Inr result \<Rightarrow> Inr
                \<lparr>pd_Request = req, pd_Routes = dd_Routes result, pd_DraftRevision = draftRevision,
                 pd_DraftHash = computePolicyDraftHashForTopology g req draftRevision,
                 pd_GlobalWarnings = dd_Warnings result,
                 pd_InboundLoad = fold (\<lambda>target load. mput target (mget_or 0 load target + 1) load)
                   (concat (map dr_TargetNodeIDs (dd_Routes result))) [],
                 pd_TopologyHealth = (if dd_Warnings result \<noteq> [] then ''DEGRADED'' else ''HEALTHY'')\<rparr>)))"

text \<open>Does the hash of the request fit the draft: version 2, the version before it, or that with the old planner?\<close>

definition hash_matches ::
    "digests \<Rightarrow> (rat \<Rightarrow> rat) \<Rightarrow> AgentTopology list \<Rightarrow> string list \<Rightarrow> RouteDraft list \<Rightarrow> DraftRequest \<Rightarrow> int \<Rightarrow> string \<Rightarrow> bool" where
  "hash_matches g rnd topologyNodes sources serverRoutes draftRequest currentRevision h \<longleftrightarrow>
     computePolicyDraftHashForTopology g draftRequest currentRevision = h
     \<or> computeLegacyDraftHashForTopology g draftRequest serverRoutes currentRevision = h
     \<or> (case GenerateRoutesForSourcesPreRing rnd topologyNodes sources (dq_ReplicaFactor draftRequest) of
          Inl err \<Rightarrow> False
        | Inr legacyGenerated \<Rightarrow>
            computeLegacyDraftHashForTopology g draftRequest (dd_Routes legacyGenerated) currentRevision = h)"

definition to_route :: "RouteDraft \<Rightarrow> ReplicationRoute" where
  "to_route r = \<lparr>rr_SourceNodeID = dr_SourceNodeID r, rr_TargetNodeIDs = dr_TargetNodeIDs r\<rparr>"

definition put_body :: "string \<Rightarrow> string \<Rightarrow> DraftRequest \<Rightarrow> RouteDraft list \<Rightarrow> int \<Rightarrow> int \<Rightarrow> ReplicationPolicyPutBody" where
  "put_body op policyID q routes revision expected =
    \<lparr>rpp_OperationID = op, rpp_PolicyID = policyID, rpp_Name = dq_Name q, rpp_Enabled = dq_Enabled q,
     rpp_SourceSelector = dq_SourceSelector q, rpp_SourceIDs = dq_SourceIds q, rpp_ReplicaFactor = dq_ReplicaFactor q,
     rpp_Routes = map to_route routes, rpp_Trigger = dq_Trigger q, rpp_PrimaryPolicyIDs = dq_PrimaryPolicyIds q,
     rpp_ScheduleCron = dq_ScheduleCron q, rpp_Timezone = dq_Timezone q,
     rpp_RetentionKeepLast = dq_RetentionKeepLast q, rpp_RetentionKeepDays = dq_RetentionKeepDays q,
     rpp_RetentionMaxBytes = dq_RetentionMaxBytes q, rpp_MaxConcurrency = dq_MaxConcurrency q,
     rpp_VerifyAfterCopy = dq_VerifyAfterCopy q, rpp_BandwidthLimit = dq_BandwidthLimit q,
     rpp_TopologyConstraints = dq_TopologyConstraints q, rpp_RouteTopologyRevision = revision,
     rpp_ExpectedRevision = expected\<rparr>"

text \<open>The checks of \<^verbatim>\<open>ApplyPolicyDraft\<close>, up to the command it hands to Raft.\<close>

definition draft_command ::
    "digests \<Rightarrow> (rat \<Rightarrow> rat) \<Rightarrow> State \<Rightarrow> NodeSummary list option \<Rightarrow> ApplyDraftRequest \<Rightarrow> goerror + ReplicationPolicyPutBody" where
  "draft_command g rnd s members a =
    (let draft = ad_Draft a in
     if ad_OperationId a = [] then fail INVALID ''operation_id required''
     else if ad_DraftRevision a = 0 \<or> ad_DraftRevision a \<noteq> pd_DraftRevision draft
        \<or> ad_DraftHash a = [] \<or> ad_DraftHash a \<noteq> pd_DraftHash draft
       then fail CONFLICT ''draft revision or hash mismatch''
     else
      (let topologyNodes = replicationTopology s members;
           currentRevision = topologyDraftRevision g topologyNodes
       in if ad_DraftRevision a \<noteq> currentRevision then fail CONFLICT ''topology changed since preview''
          else case ResolveReplicationSources s (dq_SourceSelector (pd_Request draft)) (dq_SourceIds (pd_Request draft)) of
            Inl err \<Rightarrow> Inl err
          | Inr sources \<Rightarrow>
            (case GenerateRoutesForSources rnd topologyNodes sources (dq_ReplicaFactor (pd_Request draft)) of
               Inl err \<Rightarrow> Inl err
             | Inr generated \<Rightarrow>
                if \<not> hash_matches g rnd topologyNodes sources (dd_Routes generated) (pd_Request draft) currentRevision (ad_DraftHash a)
                then fail CONFLICT ''draft hash mismatch''
                else Inr (put_body (ad_OperationId a) (ad_PolicyId a) (pd_Request draft) (pd_Routes draft)
                  currentRevision (ad_ExpectedRevision a)))))"

text \<open>
  The command is applied to the state \<open>s'\<close> that the log has reached by then; the answer is the revision read back.
\<close>

definition ApplyPolicyDraft ::
    "digests \<Rightarrow> (rat \<Rightarrow> rat) \<Rightarrow> env \<Rightarrow> gtime \<Rightarrow> State \<Rightarrow> NodeSummary list option \<Rightarrow> State \<Rightarrow> ApplyDraftRequest
      \<Rightarrow> goerror + int \<times> State" where
  "ApplyPolicyDraft g rnd e now s members s' a =
    (case draft_command g rnd s members a of
       Inl err \<Rightarrow> Inl err
     | Inr body \<Rightarrow>
       (case applyReplicationPolicyPut e body now s' of
          Inl err \<Rightarrow> Inl err
        | Inr s'' \<Rightarrow>
          (case mget (ReplicationPolicies s'') (ad_PolicyId a) of
             None \<Rightarrow> fail NOT_FOUND ''policy not found after apply''
           | Some policy \<Rightarrow> Inr (rp_Revision policy, s''))))"

section \<open>How a stored policy fits the topology of now\<close>

definition replicationDesiredSources :: "State \<Rightarrow> ReplicationPolicy \<Rightarrow> string list" where
  "replicationDesiredSources s p =
    (case rp_SourceSelector p of
       ALL_ADMITTED \<Rightarrow> admitted_ids s
     | EXPLICIT_NODES \<Rightarrow> remdups (rp_SourceIDs p)
     | AGENT_GROUP \<Rightarrow> admitted_in_groups s (rp_SourceIDs p)
     | _ \<Rightarrow> [])"

record TopologyView =
  tv_MissingSourceIds :: "string list"
  tv_ExtraSourceIds :: "string list"
  tv_InvalidRouteNodeIds :: "string list"
  tv_TopologyStatus :: string

definition topology_view :: "State \<Rightarrow> ReplicationPolicy \<Rightarrow> int \<Rightarrow> TopologyView" where
  "topology_view s p currentRevision =
    (let desired = replicationDesiredSources s p;
         routed = remdups (map rr_SourceNodeID (rp_Routes p));
         invalid = remdups (filter (\<lambda>n. \<not> isAdmittedMember s n)
           (concat (map (\<lambda>r. rr_SourceNodeID r # rr_TargetNodeIDs r) (rp_Routes p))));
         missing = filter (\<lambda>n. n \<notin> set routed) desired;
         extra = filter (\<lambda>n. n \<notin> set desired) routed
     in \<lparr>tv_MissingSourceIds = sort missing, tv_ExtraSourceIds = sort extra, tv_InvalidRouteNodeIds = sort invalid,
         tv_TopologyStatus =
          (if missing \<noteq> [] \<or> extra \<noteq> [] \<or> invalid \<noteq> [] then ''STALE''
           else if rp_RouteTopologyRevision p = 0 then ''UNKNOWN''
           else if rp_RouteTopologyRevision p \<noteq> currentRevision then ''STALE''
           else ''CURRENT'')\<rparr>)"

section \<open>The topology of the admitted members\<close>

lemma admitted_ids_iff: "wfmap (Members s) \<Longrightarrow> i \<in> set (admitted_ids s) \<longleftrightarrow> isAdmittedMember s i"
  by (auto simp: admitted_ids_def isAdmittedMember_def mget_in_set [symmetric] image_iff split: option.split)

lemma admitted_ids_distinct: "wfmap (Members s) \<Longrightarrow> distinct (admitted_ids s)"
  unfolding admitted_ids_def wfmap_def by (rule distinct_map_filter)

lemma topology_facts:
  "map tn_NodeID (replicationTopology s members) = sort (admitted_ids s)"
  "filter tn_Admitted (replicationTopology s members) = replicationTopology s members"
proof -
  define sm where "sm = (case members of None \<Rightarrow> [] | Some ns \<Rightarrow> fold (\<lambda>n. mput (ns_NodeID n) n) ns [])"
  have t: "replicationTopology s members = sort_key tn_NodeID (map (topology_node sm) (admitted_ids s))"
    by (simp add: replicationTopology_def sm_def)
  have "map (\<lambda>i. tn_NodeID (topology_node sm i)) (admitted_ids s) = admitted_ids s"
    by (rule map_idI) (simp add: topology_node_def Let_def)
  then have ids: "map tn_NodeID (map (topology_node sm) (admitted_ids s)) = admitted_ids s" unfolding list.map_comp o_def .
  have "mset (map tn_NodeID (replicationTopology s members)) = mset (admitted_ids s)"
    unfolding t mset_map mset_sort by (simp only: mset_map [symmetric] ids)
  then show "map tn_NodeID (replicationTopology s members) = sort (admitted_ids s)"
    by (intro properties_for_sort [symmetric]) (simp_all add: t sorted_sort_key)
  show "filter tn_Admitted (replicationTopology s members) = replicationTopology s members"
    by (rule filter_True) (auto simp: t topology_node_def Let_def)
qed

lemma resolved_sources:
  assumes "ResolveReplicationSources s selector ids = Inr sources" and "wfmap (Members s)"
  shows "distinct sources" and "set sources \<subseteq> set (admitted_ids s)" and "sort sources = sources"
proof -
  note r = ResolveReplicationSources_Inr [OF assms(1)]
  show "sort sources = sources" by (simp add: r(1) sort_key_id_if_sorted)
  have "selector = EXPLICIT_NODES \<Longrightarrow> list_all (isAdmittedMember s) ids"
    using assms(1) by (auto simp: ResolveReplicationSources_def validateExplicitTargets_def split: if_splits)
  then show "set sources \<subseteq> set (admitted_ids s)"
    unfolding r(1) set_sort using admitted_ids_iff [OF assms(2)]
    by (cases selector) (auto simp: admitted_in_groups_def list_all_iff)
  show "distinct sources"
    unfolding r(1) using r(3) admitted_ids_distinct [OF assms(2)]
    by (cases selector) (simp_all add: admitted_in_groups_def)
qed

section \<open>Accepted routes and policies\<close>

definition trimmed :: "string \<Rightarrow> bool" where
  "trimmed i \<longleftrightarrow> i \<noteq> [] \<and> TrimSpace i = i"

lemma check_route_targets_ok:
  assumes "distinct ts" and "source \<notin> set ts" and "set ts \<inter> set seen = {}" and "\<forall>t\<in>set ts. trimmed t \<and> isAdmittedMember s t"
  shows "check_route_targets s source seen ts = None"
  using assms by (induction ts arbitrary: seen) (auto simp: Let_def trimmed_def)

lemma check_routes_ok:
  assumes "list_all (route_ok s) routes" and "distinct (map rr_SourceNodeID routes)"
    and "set (map rr_SourceNodeID routes) \<inter> set seen = {}" and "\<And>i. isAdmittedMember s i \<Longrightarrow> trimmed i"
  shows "check_routes s seen routes = Inr (rev (map rr_SourceNodeID routes) @ seen)"
  using assms(1-3)
proof (induction routes arbitrary: seen)
  case (Cons r routes)
  have r: "route_ok s r" using Cons.prems(1) by simp
  then have targets: "check_route_targets s (rr_SourceNodeID r) [] (rr_TargetNodeIDs r) = None"
    using assms(4) by (intro check_route_targets_ok) (auto simp: route_ok_def list_all_iff)
  have "isAdmittedMember s (rr_SourceNodeID r)" "trimmed (rr_SourceNodeID r)"
    using r assms(4) by (simp_all add: route_ok_def)
  moreover have "check_routes s (rr_SourceNodeID r # seen) routes
      = Inr (rev (map rr_SourceNodeID routes) @ rr_SourceNodeID r # seen)"
    using Cons.prems by (intro Cons.IH) auto
  ultimately show ?case using targets Cons.prems(3) by (simp add: Let_def trimmed_def)
qed simp

text \<open>What a put asks of everything but its routes.\<close>

definition put_fields_ok :: "env \<Rightarrow> State \<Rightarrow> ReplicationPolicyPutBody \<Rightarrow> bool" where
  "put_fields_ok e s b \<longleftrightarrow> requireOperationID (rpp_OperationID b) = None \<and> rpp_PolicyID b \<noteq> [] \<and> TrimSpace (rpp_Name b) \<noteq> []
     \<and> \<not> mex (\<lambda>i policy. i \<noteq> rpp_PolicyID b \<and> rp_Name policy = TrimSpace (rpp_Name b)) (ReplicationPolicies s)
     \<and> 0 < rpp_ReplicaFactor b \<and> 0 \<le> rpp_RetentionKeepLast b \<and> 0 \<le> rpp_RetentionKeepDays b \<and> 0 \<le> rpp_RetentionMaxBytes b
     \<and> 0 \<le> rpp_MaxConcurrency b \<and> 0 \<le> rpp_BandwidthLimit b
     \<and> (TrimSpace (rpp_ScheduleCron b) \<noteq> [] \<longrightarrow> validatePolicySchedule e (rpp_ScheduleCron b) (rpp_Timezone b) = None)
     \<and> (rpp_ExpectedRevision b \<ge> 0 \<longrightarrow> map_option rp_Revision (mget (ReplicationPolicies s) (rpp_PolicyID b))
          = Some (rpp_ExpectedRevision b))"

lemma replication_put_accepted:
  assumes "put_fields_ok e s b" and "ResolveReplicationSources s (rpp_SourceSelector b) (rpp_SourceIDs b) = Inr sources"
    and "check_routes s [] (rpp_Routes b) = Inr seen" and "sort seen = sources"
    and "rpp_ReplicaFactor b \<le> admittedMemberCount s - 1"
    and "list_all (\<lambda>r. int (length (rr_TargetNodeIDs r)) = rpp_ReplicaFactor b) (rpp_Routes b)"
  shows "applyReplicationPolicyPut e b now s = Inr (s\<lparr>ReplicationPolicies := mput (rpp_PolicyID b)
    (new_replication_policy b (TrimSpace (rpp_Name b)) now
      (mget_or zero_replication_policy (ReplicationPolicies s) (rpp_PolicyID b))) (ReplicationPolicies s)\<rparr>)"
proof -
  have rev: "rpp_ExpectedRevision b \<ge> 0 \<Longrightarrow> mget (ReplicationPolicies s) (rpp_PolicyID b) \<noteq> None
      \<and> rp_Revision (mget_or zero_replication_policy (ReplicationPolicies s) (rpp_PolicyID b)) = rpp_ExpectedRevision b"
    using assms(1) by (auto simp: put_fields_ok_def mget_or_def)
  have len: "\<not> list_ex (\<lambda>r. int (length (rr_TargetNodeIDs r)) \<noteq> rpp_ReplicaFactor b) (rpp_Routes b)"
    using assms(6) by (simp add: list_ex_iff list_all_iff)
  have "check (if TrimSpace (rpp_ScheduleCron b) \<noteq> [] then validatePolicySchedule e (rpp_ScheduleCron b) (rpp_Timezone b) else None) k = k" for k :: "goerror + State"
    using assms(1) by (auto simp: put_fields_ok_def)
  then show ?thesis
    using assms(1,5) rev len unfolding applyReplicationPolicyPut_def Let_def assms(2) sum.case assms(3,4)
    by (simp add: put_fields_ok_def)
qed

section \<open>From a draft to a policy\<close>

lemma generated_draft:
  assumes "GeneratePolicyDraft g rnd s members req = Inr draft"
  obtains sources result where "ResolveReplicationSources s (dq_SourceSelector req) (dq_SourceIds req) = Inr sources"
    and "GenerateRoutesForSources rnd (replicationTopology s members) sources (dq_ReplicaFactor req) = Inr result"
    and "pd_Request draft = req" and "pd_Routes draft = dd_Routes result"
    and "pd_DraftRevision draft = topologyDraftRevision g (replicationTopology s members)"
    and "pd_DraftHash draft = computePolicyDraftHashForTopology g req (pd_DraftRevision draft)"
  using assms by (auto simp: GeneratePolicyDraft_def Let_def split: if_splits sum.splits)

lemma topologyDraftRevision_pos: "topologyDraftRevision g nodes \<noteq> 0"
  by (simp add: topologyDraftRevision_def Let_def)

lemma generated_routes_ok:
  assumes "wfmap (Members s)" and "ResolveReplicationSources s selector ids = Inr sources"
    and "GenerateRoutesForSources rnd (replicationTopology s members) sources k = Inr d"
    and "0 < k" and "k \<le> admittedMemberCount s - 1"
  shows "map dr_SourceNodeID (dd_Routes d) = sources"
    and "\<forall>r\<in>set (dd_Routes d). route_ok s (to_route r) \<and> int (length (dr_TargetNodeIDs r)) = k"
proof -
  let ?t = "replicationTopology s members"
  note t = topology_facts [of s members]
  have ids: "distinct (map tn_NodeID (filter tn_Admitted ?t))"
    unfolding t by (simp add: admitted_ids_distinct assms(1))
  have set_ids: "tn_NodeID ` set ?t = set (admitted_ids s)" using t(1) by (metis set_map set_sort)
  have len: "length ?t = length (admitted_ids s)" using t(1) by (metis length_map length_sort)
  note p = planned_routes_chosen [OF ids assms(3)]
  show "map dr_SourceNodeID (dd_Routes d) = sources"
    using p assms(4,5) len resolved_sources(3) [OF assms(2,1)] by (simp add: t(2) admittedMemberCount_def)
  show "\<forall>r\<in>set (dd_Routes d). route_ok s (to_route r) \<and> int (length (dr_TargetNodeIDs r)) = k"
  proof
    fix r
    assume "r \<in> set (dd_Routes d)"
    then obtain x where x: "x \<in> set ?t" "tn_NodeID x = dr_SourceNodeID r" and w:
      "well_chosen x (filter (\<lambda>n. tn_Admitted n \<and> tn_NodeID n \<noteq> dr_SourceNodeID r) ?t) k (dr_TargetNodeIDs r)"
      using p by blast
    let ?o = "filter (\<lambda>n. tn_NodeID n \<noteq> dr_SourceNodeID r) ?t"
    have o: "filter (\<lambda>n. tn_Admitted n \<and> tn_NodeID n \<noteq> dr_SourceNodeID r) ?t = ?o"
      using t(2) by (metis (no_types) filter_filter)
    have "distinct (map tn_NodeID ?t)" using ids by (simp only: t(2))
    from ring_perm(1,3) [OF this x(1)] have "Suc (length ?o) = length ?t" unfolding x(2) by (metis size_mset)
    with w assms(4,5) len have "int (length (dr_TargetNodeIDs r)) = k"
      unfolding o well_chosen_def admittedMemberCount_def by linarith
    moreover have "isAdmittedMember s (dr_SourceNodeID r)"
      using x set_ids admitted_ids_iff [OF assms(1)] by (metis imageI)
    moreover have "set (dr_TargetNodeIDs r) \<subseteq> set (admitted_ids s) - {dr_SourceNodeID r}"
      using w unfolding o well_chosen_def set_ids [symmetric] by auto
    ultimately show "route_ok s (to_route r) \<and> int (length (dr_TargetNodeIDs r)) = k"
      using w admitted_ids_iff [OF assms(1)] by (auto simp: route_ok_def to_route_def well_chosen_def list_all_iff)
  qed
qed

lemma draft_command_of_generated:
  assumes "GeneratePolicyDraft g rnd s members req = Inr draft" and "op \<noteq> []" and "\<And>q r. draft_digest g q r \<noteq> []"
  shows "draft_command g rnd s members \<lparr>ad_PolicyId = policyID, ad_Draft = draft, ad_DraftRevision = pd_DraftRevision draft,
      ad_DraftHash = pd_DraftHash draft, ad_ExpectedRevision = expected, ad_OperationId = op\<rparr>
    = Inr (put_body op policyID req (pd_Routes draft) (pd_DraftRevision draft) expected)"
  using assms(1)
proof (rule generated_draft)
  fix sources result
  assume d: "ResolveReplicationSources s (dq_SourceSelector req) (dq_SourceIds req) = Inr sources"
    "GenerateRoutesForSources rnd (replicationTopology s members) sources (dq_ReplicaFactor req) = Inr result"
    "pd_Request draft = req" "pd_DraftRevision draft = topologyDraftRevision g (replicationTopology s members)"
    "pd_DraftHash draft = computePolicyDraftHashForTopology g req (pd_DraftRevision draft)"
  have h: "pd_DraftHash draft \<noteq> []" using assms(3) by (simp add: d(5) computePolicyDraftHashForTopology_def)
  have m: "hash_matches g rnd t so ro req (topologyDraftRevision g (replicationTopology s members)) (pd_DraftHash draft)" for t so ro
    by (simp add: hash_matches_def d(4,5))
  show ?thesis
    using assms(2) h m by (simp add: draft_command_def Let_def d(1-4) topologyDraftRevision_pos)
qed

lemma view_current:
  assumes "set (replicationDesiredSources s p) = set (map rr_SourceNodeID (rp_Routes p))" and "list_all (route_ok s) (rp_Routes p)"
    and "rp_RouteTopologyRevision p = v" and "v \<noteq> 0"
  shows "tv_TopologyStatus (topology_view s p v) = ''CURRENT''"
proof -
  have "filter (\<lambda>n. \<not> isAdmittedMember s n) (concat (map (\<lambda>r. rr_SourceNodeID r # rr_TargetNodeIDs r) (rp_Routes p))) = []"
    using assms(2) by (auto simp: filter_empty_conv list_all_iff route_ok_def)
  moreover have "filter (\<lambda>n. n \<notin> set (remdups (map rr_SourceNodeID (rp_Routes p)))) (replicationDesiredSources s p) = []"
    "filter (\<lambda>n. n \<notin> set (replicationDesiredSources s p)) (remdups (map rr_SourceNodeID (rp_Routes p))) = []"
    using assms(1) by (auto simp: filter_empty_conv)
  ultimately show ?thesis using assms(3,4) by (simp add: topology_view_def Let_def)
qed

lemma same_members:
  assumes "Members s' = Members s" and "AgentGroups s' = AgentGroups s"
  shows "admitted_ids s' = admitted_ids s" and "replicationTopology s' = replicationTopology s"
    and "route_ok s' = route_ok s" and "admitted_in_groups s' = admitted_in_groups s"
proof -
  have a: "isAdmittedMember s' = isAdmittedMember s" by (rule ext) (simp add: isAdmittedMember_def assms(1))
  have g: "group_members s' = group_members s" by (rule ext) (simp add: group_members_def assms(2))
  show i: "admitted_ids s' = admitted_ids s" by (simp add: admitted_ids_def assms(1))
  show "replicationTopology s' = replicationTopology s" by (rule ext) (simp add: replicationTopology_def i)
  show "route_ok s' = route_ok s" by (rule ext) (simp add: route_ok_def a)
  show "admitted_in_groups s' = admitted_in_groups s" by (rule ext) (simp add: admitted_in_groups_def a g)
qed

lemma applied_policy_current:
  assumes "ResolveReplicationSources s (rp_SourceSelector p) (rp_SourceIDs p) = Inr sources"
    and "map rr_SourceNodeID (rp_Routes p) = sources" and "list_all (route_ok s) (rp_Routes p)"
    and "rp_RouteTopologyRevision p = topologyDraftRevision g (replicationTopology s members)"
    and "Members s' = Members s" and "AgentGroups s' = AgentGroups s"
  shows "tv_TopologyStatus (topology_view s' p (topologyDraftRevision g (replicationTopology s' members))) = ''CURRENT''"
proof (rule view_current)
  note same = same_members [OF assms(5,6)]
  show "set (replicationDesiredSources s' p) = set (map rr_SourceNodeID (rp_Routes p))"
    unfolding assms(2) ResolveReplicationSources_Inr(1) [OF assms(1)] set_sort
    by (cases "rp_SourceSelector p") (simp_all add: replicationDesiredSources_def same)
  show "list_all (route_ok s') (rp_Routes p)" using assms(3) by (simp only: same)
  show "rp_RouteTopologyRevision p = topologyDraftRevision g (replicationTopology s' members)"
    using assms(4) by (simp only: same)
qed (rule topologyDraftRevision_pos)


text \<open>Once the sources resolve, the planner cannot refuse them.\<close>

lemma draft_generated:
  assumes "wfmap (Members s)" and "members \<noteq> None"
    and "ResolveReplicationSources s (dq_SourceSelector req) (dq_SourceIds req) = Inr sources"
  shows "\<exists>draft. GeneratePolicyDraft g rnd s members req = Inr draft"
proof -
  let ?t = "replicationTopology s members"
  note t = topology_facts [of s members]
  have ids: "distinct (map tn_NodeID (filter tn_Admitted ?t))" unfolding t by (simp add: admitted_ids_distinct assms(1))
  have "{n \<in> set ?t. tn_Admitted n} = set ?t" using t(2) by (metis set_filter)
  moreover have "tn_NodeID ` set ?t = set (admitted_ids s)" using t(1) by (metis set_map set_sort)
  ultimately have ok: "distinct sources \<and> set sources \<subseteq> tn_NodeID ` {n \<in> set ?t. tn_Admitted n}"
    using resolved_sources(1,2) [OF assms(3,1)] by (simp only:)
  show ?thesis
  proof (cases "GenerateRoutesForSources rnd ?t sources (dq_ReplicaFactor req)")
    case (Inl err)
    from planned_routes_refused [OF ids Inl] ok show ?thesis by (rule notE)
  next
    case (Inr d)
    with assms(2,3) show ?thesis by (simp add: GeneratePolicyDraft_def Let_def)
  qed
qed

definition ring_request :: DraftRequest where
  "ring_request = \<lparr>dq_Name = ''ring'', dq_Enabled = True, dq_SourceSelector = ALL_ADMITTED, dq_SourceIds = [], dq_ReplicaFactor = 2,
     dq_Trigger = [], dq_PrimaryPolicyIds = [], dq_ScheduleCron = [], dq_Timezone = ''UTC'', dq_RetentionKeepLast = 3,
     dq_RetentionKeepDays = 0, dq_RetentionMaxBytes = 0, dq_MaxConcurrency = 1, dq_VerifyAfterCopy = True, dq_BandwidthLimit = 0,
     dq_TopologyConstraints = []\<rparr>"

definition flat_digests :: digests where
  "flat_digests = \<lparr>node_digest = (\<lambda>ns. of_nat (length ns)), draft_digest = (\<lambda>q r. ''h'' @ dq_Name q),
     legacy_digest = (\<lambda>q rs r. dq_Name q)\<rparr>"


end
