(* ===== verification/Backup_Schedule.thy ===== *)
theory Backup_Schedule imports Control_Policies
begin

text \<open>
  When a backup is due (\<^verbatim>\<open>internal/backup/schedule.go\<close>): the next and the last fire of a five-field cron expression in
  a time zone. A \<^verbatim>\<open>*time.Location\<close> is its offset from UTC in seconds as a function of the Unix time; the time zone
  database is the parameter \<open>tz\<close> (\<^verbatim>\<open>time.LoadLocation\<close>), and \<open>own\<close> is \<^verbatim>\<open>from.Location()\<close>. Month and day of a
  local time are those of the proleptic Gregorian calendar, as in package \<^verbatim>\<open>time\<close>.
\<close>

type_synonym loc = "int \<Rightarrow> int"

section \<open>Civil time (package time)\<close>

definition local_seconds :: "loc \<Rightarrow> gtime \<Rightarrow> int" where
  "local_seconds loc t = Unix t + loc (Unix t)"

definition Minute :: "loc \<Rightarrow> gtime \<Rightarrow> int" where
  "Minute loc t = local_seconds loc t mod 3600 div 60"

definition Hour :: "loc \<Rightarrow> gtime \<Rightarrow> int" where
  "Hour loc t = local_seconds loc t mod 86400 div 3600"

definition Weekday :: "loc \<Rightarrow> gtime \<Rightarrow> int" where
  "Weekday loc t = (local_seconds loc t div 86400 + 4) mod 7"

text \<open>
  The month and the day of a day number (0 is 1 January 1970). Years of 365 or 366 days are counted from 1 March, so
  that the leap day is the last one; 400 years have 146097 days.
\<close>

definition day_of_year :: "int \<Rightarrow> int" where
  "day_of_year days =
    (let doe = (days + 719468) mod 146097;
         yoe = (doe - doe div 1460 + doe div 36524 - doe div 146096) div 365
     in doe - (365 * yoe + yoe div 4 - yoe div 100))"

definition month_day :: "int \<Rightarrow> int \<times> int" where
  "month_day days =
    (let doy = day_of_year days; mp = (5 * doy + 2) div 153
     in (if mp < 10 then mp + 3 else mp - 9, doy - (153 * mp + 2) div 5 + 1))"

definition Month :: "loc \<Rightarrow> gtime \<Rightarrow> int" where
  "Month loc t = fst (month_day (local_seconds loc t div 86400))"

definition Day :: "loc \<Rightarrow> gtime \<Rightarrow> int" where
  "Day loc t = snd (month_day (local_seconds loc t div 86400))"

text \<open>The first and the last day of 1970, the leap days of 2000 and 2024, the day after 28 February of 1900 and 2100.\<close>

lemma month_day_examples:
  "month_day 0 = (1, 1)" "month_day 364 = (12, 31)" "month_day 11016 = (2, 29)" "month_day 19782 = (2, 29)"
  "month_day (-25509) = (2, 28)" "month_day (-25508) = (3, 1)" "month_day 47540 = (2, 28)" "month_day 47541 = (3, 1)"
  by (simp_all add: month_day_def day_of_year_def Let_def)

abbreviation minute :: int where "minute \<equiv> 60 * nanos"

text \<open>\<^verbatim>\<open>t.Truncate(time.Minute)\<close> counts from the zero time, which is a whole minute.\<close>

definition truncate_minute :: "gtime \<Rightarrow> gtime" where
  "truncate_minute t = t - (t - time_zero) mod minute"

section \<open>Cron fields\<close>

record cronField =
  cf_any :: bool
  cf_n :: int

definition parseCronField :: "string \<Rightarrow> int \<Rightarrow> int \<Rightarrow> goerror + cronField" where
  "parseCronField tok lo hi =
    (if tok = ''*'' then Inr \<lparr>cf_any = True, cf_n = 0\<rparr>
     else case Atoi tok of
         None \<Rightarrow> fail INVALID ''invalid cron field''
       | Some n \<Rightarrow> if n < lo \<or> n > hi then fail INVALID ''invalid cron field'' else Inr \<lparr>cf_any = False, cf_n = n\<rparr>)"

record cronSpec =
  cs_min :: cronField
  cs_hour :: cronField
  cs_dom :: cronField
  cs_mon :: cronField
  cs_dow :: cronField

definition cronMatch :: "loc \<Rightarrow> gtime \<Rightarrow> cronSpec \<Rightarrow> bool" where
  "cronMatch loc t c =
    (if \<not> cf_any (cs_min c) \<and> Minute loc t \<noteq> cf_n (cs_min c) then False
     else if \<not> cf_any (cs_hour c) \<and> Hour loc t \<noteq> cf_n (cs_hour c) then False
     else if \<not> cf_any (cs_dom c) \<and> Day loc t \<noteq> cf_n (cs_dom c) then False
     else if \<not> cf_any (cs_mon c) \<and> Month loc t \<noteq> cf_n (cs_mon c) then False
     else if \<not> cf_any (cs_dow c) \<and> Weekday loc t \<noteq> cf_n (cs_dow c) then False
     else True)"

text \<open>The first half of \<^verbatim>\<open>nextAt\<close> and \<^verbatim>\<open>previousOrEqualAt\<close>, for a nonempty expression.\<close>

definition parse_cron :: "string \<Rightarrow> goerror + cronSpec" where
  "parse_cron cronExpr =
    (case ValidateCron cronExpr of Some err \<Rightarrow> Inl err
     | None \<Rightarrow>
      (case Fields cronExpr of
         [f0, f1, f2, f3, f4] \<Rightarrow>
          (case parseCronField f0 0 59 of Inl err \<Rightarrow> Inl err | Inr mi \<Rightarrow>
          (case parseCronField f1 0 23 of Inl err \<Rightarrow> Inl err | Inr ho \<Rightarrow>
          (case parseCronField f2 1 31 of Inl err \<Rightarrow> Inl err | Inr da \<Rightarrow>
          (case parseCronField f3 1 12 of Inl err \<Rightarrow> Inl err | Inr mon \<Rightarrow>
          (case parseCronField f4 0 6 of Inl err \<Rightarrow> Inl err | Inr dow \<Rightarrow>
             Inr \<lparr>cs_min = mi, cs_hour = ho, cs_dom = da, cs_mon = mon, cs_dow = dow\<rparr>)))))
       | _ \<Rightarrow> fail INVALID ''cron must have 5 fields''))"

section \<open>The searches\<close>

function scan_up :: "(gtime \<Rightarrow> bool) \<Rightarrow> gtime \<Rightarrow> gtime \<Rightarrow> gtime option" where
  "scan_up P t deadline = (if t > deadline then None else if P t then Some t else scan_up P (t + minute) deadline)"
  by pat_completeness auto
termination
  by (relation "measure (\<lambda>(P, t, deadline). nat (deadline + 1 - t))") auto

function scan_down :: "(gtime \<Rightarrow> bool) \<Rightarrow> gtime \<Rightarrow> gtime \<Rightarrow> gtime option" where
  "scan_down P t deadline = (if t < deadline then None else if P t then Some t else scan_down P (t - minute) deadline)"
  by pat_completeness auto
termination
  by (relation "measure (\<lambda>(P, t, deadline). nat (t + 1 - deadline))") auto

declare scan_up.simps [simp del] scan_down.simps [simp del]

abbreviation span :: int where "span \<equiv> 366 * 24 * 60 * minute"

text \<open>An empty expression gives the zero time.\<close>

definition nextAt :: "string \<Rightarrow> gtime \<Rightarrow> loc \<Rightarrow> goerror + gtime" where
  "nextAt cronExpr t0 loc =
    (if TrimSpace cronExpr = [] then Inr time_zero
     else case parse_cron (TrimSpace cronExpr) of
         Inl err \<Rightarrow> Inl err
       | Inr c \<Rightarrow>
         (let t = truncate_minute t0 + minute in
          case scan_up (\<lambda>t. cronMatch loc t c) t (t + span) of
            Some t \<Rightarrow> Inr t
          | None \<Rightarrow> fail INVALID ''no matching cron time''))"

definition previousOrEqualAt :: "string \<Rightarrow> gtime \<Rightarrow> loc \<Rightarrow> goerror + gtime" where
  "previousOrEqualAt cronExpr t0 loc =
    (if TrimSpace cronExpr = [] then Inr time_zero
     else case parse_cron (TrimSpace cronExpr) of
         Inl err \<Rightarrow> Inl err
       | Inr c \<Rightarrow>
         (let t = truncate_minute t0 in
          case scan_down (\<lambda>t. cronMatch loc t c) t (t - span) of
            Some t \<Rightarrow> Inr t
          | None \<Rightarrow> fail INVALID ''no matching cron time''))"

definition Next :: "string \<Rightarrow> gtime \<Rightarrow> loc \<Rightarrow> goerror + gtime" where
  "Next cronExpr t0 own = nextAt cronExpr t0 own"

definition in_timezone :: "(string \<Rightarrow> loc option) \<Rightarrow> loc \<Rightarrow> string \<Rightarrow> goerror + loc" where
  "in_timezone tz own timezone =
    (if TrimSpace timezone = [] then Inr own
     else case tz timezone of None \<Rightarrow> fail INVALID ''invalid timezone'' | Some loc \<Rightarrow> Inr loc)"

definition NextInTimezone :: "(string \<Rightarrow> loc option) \<Rightarrow> loc \<Rightarrow> string \<Rightarrow> string \<Rightarrow> gtime \<Rightarrow> goerror + gtime" where
  "NextInTimezone tz own cronExpr timezone t0 =
    (case in_timezone tz own timezone of Inl err \<Rightarrow> Inl err | Inr loc \<Rightarrow> nextAt cronExpr t0 loc)"

definition PreviousOrEqualInTimezone :: "(string \<Rightarrow> loc option) \<Rightarrow> loc \<Rightarrow> string \<Rightarrow> string \<Rightarrow> gtime \<Rightarrow> goerror + gtime" where
  "PreviousOrEqualInTimezone tz own cronExpr timezone t0 =
    (case in_timezone tz own timezone of Inl err \<Rightarrow> Inl err | Inr loc \<Rightarrow> previousOrEqualAt cronExpr t0 loc)"

text \<open>Does the minute tick of \<^verbatim>\<open>TickSchedule\<close> create a snapshot?\<close>

definition tick_due :: "string \<Rightarrow> gtime \<Rightarrow> loc \<Rightarrow> goerror + bool" where
  "tick_due sched now own =
    (case Next sched (now - minute) own of
       Inl err \<Rightarrow> Inl err
     | Inr next \<Rightarrow> Inr (\<not> (next = time_zero \<or> next > now)))"

section \<open>The searches find the nearest match\<close>

text \<open>A number of whole minutes after \<open>t\<close>, which may be none.\<close>

definition whole_minutes :: "gtime \<Rightarrow> gtime \<Rightarrow> bool" where
  "whole_minutes t w \<longleftrightarrow> t \<le> w \<and> minute dvd (w - t)"

lemma whole_minutes_refl [simp]: "whole_minutes t t"
  by (simp add: whole_minutes_def)

lemma whole_minutes_step: "whole_minutes t w \<longleftrightarrow> w = t \<or> whole_minutes (t + minute) w"
proof -
  have "minute dvd (w - (t + minute)) \<longleftrightarrow> minute dvd (w - t)"
    using dvd_diff_left_iff [of minute minute "w - t"] by (simp add: diff_diff_eq)
  moreover have "t + minute \<le> w" if "t \<le> w" "minute dvd (w - t)" "w \<noteq> t"
    using zdvd_imp_le [OF that(2)] that by simp
  ultimately show ?thesis by (auto simp: whole_minutes_def)
qed

lemma whole_minutes_step_down: "whole_minutes w t \<longleftrightarrow> w = t \<or> whole_minutes w (t - minute)"
  using whole_minutes_step [of "- t" "- w"] by (auto simp: whole_minutes_def algebra_simps)

lemma scan_up_cases:
  "case scan_up P t deadline of
      Some u \<Rightarrow> u \<le> deadline \<and> whole_minutes t u \<and> P u \<and> (\<forall>w. whole_minutes t w \<and> w < u \<longrightarrow> \<not> P w)
    | None \<Rightarrow> \<forall>w. whole_minutes t w \<and> w \<le> deadline \<longrightarrow> \<not> P w"
proof (induction P t deadline rule: scan_up.induct)
  case (1 P t deadline)
  show ?case
  proof (cases "t > deadline \<or> P t")
    case True
    then show ?thesis by (subst scan_up.simps) (auto simp: whole_minutes_def)
  next
    case False
    then have r: "scan_up P t deadline = scan_up P (t + minute) deadline" by (subst scan_up.simps) simp
    from 1 False show ?thesis unfolding r whole_minutes_step [of t]
      by (cases "scan_up P (t + minute) deadline") auto
  qed
qed

lemma scan_down_cases:
  "case scan_down P t deadline of
      Some u \<Rightarrow> deadline \<le> u \<and> whole_minutes u t \<and> P u \<and> (\<forall>w. whole_minutes w t \<and> u < w \<longrightarrow> \<not> P w)
    | None \<Rightarrow> \<forall>w. whole_minutes w t \<and> deadline \<le> w \<longrightarrow> \<not> P w"
proof (induction P t deadline rule: scan_down.induct)
  case (1 P t deadline)
  show ?case
  proof (cases "t < deadline \<or> P t")
    case True
    then show ?thesis by (subst scan_down.simps) (auto simp: whole_minutes_def)
  next
    case False
    then have r: "scan_down P t deadline = scan_down P (t - minute) deadline" by (subst scan_down.simps) simp
    from 1 False show ?thesis unfolding r whole_minutes_step_down [of _ t]
      by (cases "scan_down P (t - minute) deadline") auto
  qed
qed

section \<open>Fires\<close>

lemma truncate_minute: "truncate_minute t \<le> t" "t < truncate_minute t + minute" "minute dvd truncate_minute t"
proof -
  have z: "(t - time_zero) mod minute = t mod minute"
    using mod_diff_eq [of t minute time_zero] by (simp add: time_zero_def)
  show "truncate_minute t \<le> t" "t < truncate_minute t + minute" by (simp_all add: truncate_minute_def z)
  show "minute dvd truncate_minute t" unfolding truncate_minute_def z by (rule dvd_minus_mod)
qed

lemma after_truncated: "whole_minutes (truncate_minute t + minute) w \<longleftrightarrow> minute dvd w \<and> t < w"
proof -
  note t = truncate_minute [of t]
  have d: "minute dvd (w - (truncate_minute t + minute)) \<longleftrightarrow> minute dvd w"
    by (rule dvd_diff_left_iff) (use t(3) in simp)
  have "truncate_minute t + minute \<le> w" if "minute dvd w" "t < w"
    using zdvd_imp_le [of minute "w - truncate_minute t"] that t by (simp add: dvd_diff)
  then show ?thesis using d t(2) by (auto simp: whole_minutes_def)
qed

lemma before_truncated: "whole_minutes w (truncate_minute t) \<longleftrightarrow> minute dvd w \<and> w \<le> t"
proof -
  note t = truncate_minute [of t]
  have d: "minute dvd (truncate_minute t - w) \<longleftrightarrow> minute dvd w"
    by (rule dvd_diff_right_iff) (rule t(3))
  have "w \<le> truncate_minute t" if "minute dvd w" "w \<le> t"
    using zdvd_imp_le [of minute "w - truncate_minute t"] that t by (cases "w \<le> truncate_minute t") (auto simp: dvd_diff)
  then show ?thesis using d t(1) by (auto simp: whole_minutes_def)
qed

text \<open>The fires of an expression are the whole minutes whose local time it matches.\<close>

definition fires :: "loc \<Rightarrow> cronSpec \<Rightarrow> gtime \<Rightarrow> bool" where
  "fires loc c w \<longleftrightarrow> minute dvd w \<and> cronMatch loc w c"

lemma nextAt_cases:
  assumes "TrimSpace cronExpr \<noteq> []" and "parse_cron (TrimSpace cronExpr) = Inr c"
  shows "case nextAt cronExpr t0 loc of
      Inr t \<Rightarrow> t0 < t \<and> t \<le> truncate_minute t0 + minute + span \<and> fires loc c t \<and> (\<forall>w. t0 < w \<and> w < t \<longrightarrow> \<not> fires loc c w)
    | Inl err \<Rightarrow> err = E INVALID ''no matching cron time''
        \<and> (\<forall>w. t0 < w \<and> w \<le> truncate_minute t0 + minute + span \<longrightarrow> \<not> fires loc c w)"
  using scan_up_cases [where P = "\<lambda>t. cronMatch loc t c" and t = "truncate_minute t0 + minute" and deadline = "truncate_minute t0 + minute + span",
      unfolded after_truncated]
  unfolding nextAt_def assms(2) sum.case Let_def fires_def using assms(1)
  by (simp split: option.splits)

lemma previousOrEqualAt_cases:
  assumes "TrimSpace cronExpr \<noteq> []" and "parse_cron (TrimSpace cronExpr) = Inr c"
  shows "case previousOrEqualAt cronExpr t0 loc of
      Inr t \<Rightarrow> t \<le> t0 \<and> truncate_minute t0 - span \<le> t \<and> fires loc c t \<and> (\<forall>w. t < w \<and> w \<le> t0 \<longrightarrow> \<not> fires loc c w)
    | Inl err \<Rightarrow> err = E INVALID ''no matching cron time''
        \<and> (\<forall>w. truncate_minute t0 - span \<le> w \<and> w \<le> t0 \<longrightarrow> \<not> fires loc c w)"
  using scan_down_cases [where P = "\<lambda>t. cronMatch loc t c" and t = "truncate_minute t0" and deadline = "truncate_minute t0 - span",
      unfolded before_truncated]
  unfolding previousOrEqualAt_def assms(2) sum.case Let_def fires_def using assms(1)
  by (simp split: option.splits)

text \<open>
  C16: The searches for a fire end with the nearest one. For a valid nonempty cron expression in a known time zone,
  the next fire is the first whole minute strictly after the given time whose local time matches, and the error "no
  matching cron time" comes exactly when there is none in the 366 days that follow; the last fire is the latest such
  minute at or before the given time, and the error comes exactly when there is none in the 366 days before.
\<close>

theorem nearest_fires:
  assumes "TrimSpace cronExpr \<noteq> []" and "parse_cron (TrimSpace cronExpr) = Inr c" and "in_timezone tz own timezone = Inr loc"
  shows "(case NextInTimezone tz own cronExpr timezone t0 of
      Inr t \<Rightarrow> t0 < t \<and> t \<le> truncate_minute t0 + minute + span \<and> fires loc c t \<and> (\<forall>w. t0 < w \<and> w < t \<longrightarrow> \<not> fires loc c w)
    | Inl err \<Rightarrow> err = E INVALID ''no matching cron time''
        \<and> (\<forall>w. t0 < w \<and> w \<le> truncate_minute t0 + minute + span \<longrightarrow> \<not> fires loc c w))
    \<and> (case PreviousOrEqualInTimezone tz own cronExpr timezone t0 of
      Inr t \<Rightarrow> t \<le> t0 \<and> truncate_minute t0 - span \<le> t \<and> fires loc c t \<and> (\<forall>w. t < w \<and> w \<le> t0 \<longrightarrow> \<not> fires loc c w)
    | Inl err \<Rightarrow> err = E INVALID ''no matching cron time''
        \<and> (\<forall>w. truncate_minute t0 - span \<le> w \<and> w \<le> t0 \<longrightarrow> \<not> fires loc c w))"
  unfolding NextInTimezone_def PreviousOrEqualInTimezone_def assms(3) sum.case
  using nextAt_cases [OF assms(1,2)] previousOrEqualAt_cases [OF assms(1,2)] by (rule conjI)

lemma space_len_graphic: "(of_char c :: nat) \<in> {33..127} \<Longrightarrow> space_len space_encodings (c # s) = 0"
  by (rule space_len_0) (use space_bytes in blast)

lemma fields_graphic: "(of_char c :: nat) \<in> {33..127} \<Longrightarrow> fields_aux acc (c # s) = fields_aux (c # acc) s"
  by (subst fields_aux.simps) (simp add: space_len_graphic Let_def)

lemma fields_space: "fields_aux acc (CHR '' '' # s) = (if acc = [] then [] else [rev acc]) @ fields_aux [] s"
proof -
  have "CHR '' '' \<noteq> char_of (n :: nat)" if "n \<in> {9, 10, 11, 12, 13, 194, 225, 226, 227}" for n
    using that by (elim insertE emptyE) (simp_all only:, code_simp+)
  moreover have "CHR '' '' = char_of (32 :: nat)" by code_simp
  ultimately have "space_len space_encodings (CHR '' '' # s) = 1"
    by (simp add: space_len_def space_encodings_def bytes_def)
  then show ?thesis by (subst fields_aux.simps) (simp add: Let_def)
qed

lemma fields_end: "fields_aux acc [] = (if acc = [] then [] else [rev acc])"
  by (subst fields_aux.simps) simp

definition daily :: string where "daily = ''0 2 * * *''"

definition two_o_clock :: cronSpec where
  "two_o_clock = \<lparr>cs_min = \<lparr>cf_any = False, cf_n = 0\<rparr>, cs_hour = \<lparr>cf_any = False, cf_n = 2\<rparr>,
    cs_dom = \<lparr>cf_any = True, cf_n = 0\<rparr>, cs_mon = \<lparr>cf_any = True, cf_n = 0\<rparr>, cs_dow = \<lparr>cf_any = True, cf_n = 0\<rparr>\<rparr>"

lemma daily: "TrimSpace daily = daily" "parse_cron daily = Inr two_o_clock" "daily \<noteq> []"
proof -
  show t: "TrimSpace daily = daily" by (rule TrimSpace_graphic) (simp_all add: daily_def)
  have f: "Fields daily = [''0'', ''2'', ''*'', ''*'', ''*'']"
    by (simp add: Fields_def daily_def fields_graphic fields_space fields_end)
  have a: "Atoi ''0'' = Some 0" "Atoi ''2'' = Some 2" by code_simp+
  show "parse_cron daily = Inr two_o_clock"
    by (simp add: parse_cron_def ValidateCron_def Let_def t f a cron_bounds_def cron_field_ok_def parseCronField_def two_o_clock_def)
qed (simp add: daily_def)

text \<open>An hour after the start of 1970 in UTC, the next fire of "0 2 * * *" is at two o'clock.\<close>

theorem nearest_fires_witness:
  "NextInTimezone (\<lambda>_. Some (\<lambda>_. 0)) (\<lambda>_. 0) daily [] (3600 * nanos) = Inr (7200 * nanos)"
proof -
  let ?utc = "\<lambda>_. 0 :: int"
  have zone: "in_timezone (\<lambda>_. Some ?utc) ?utc [] = Inr ?utc" by (simp add: in_timezone_def)
  have two: "fires ?utc two_o_clock (7200 * nanos)"
    by (simp add: fires_def cronMatch_def two_o_clock_def Minute_def Hour_def local_seconds_def Unix_def)
  have only: "w = 7200 * nanos" if "fires ?utc two_o_clock w" "3600 * nanos < w" "w \<le> 7200 * nanos" for w
  proof -
    have "Unix w mod 86400 div 3600 = 2"
      using that(1) by (auto simp: fires_def cronMatch_def two_o_clock_def Hour_def local_seconds_def split: if_splits)
    moreover have "0 \<le> Unix w" "Unix w \<le> 7200" using that(2,3) unfolding Unix_def by linarith+
    ultimately have "7200 \<le> Unix w" by simp
    then show ?thesis using that(3) unfolding Unix_def by linarith
  qed
  have "truncate_minute (3600 * nanos) = 3600 * nanos" by (simp add: truncate_minute_def time_zero_def)
  then have bound: "7200 * nanos \<le> truncate_minute (3600 * nanos) + minute + span" by simp
  have "TrimSpace daily \<noteq> []" "parse_cron (TrimSpace daily) = Inr two_o_clock" by (simp_all add: daily)
  note n = nearest_fires [OF this zone, of "3600 * nanos", THEN conjunct1]
  show ?thesis
  proof (cases "NextInTimezone (\<lambda>_. Some ?utc) ?utc daily [] (3600 * nanos)")
    case (Inl err)
    with n two bound show ?thesis by simp
  next
    case (Inr t)
    with n have t: "3600 * nanos < t" "fires ?utc two_o_clock t" "\<not> 7200 * nanos < t" using two by (simp_all, auto)
    with only [of t] Inr show ?thesis by simp
  qed
qed

section \<open>What follows for the schedulers\<close>

text \<open>The last fire as of a fire is that fire: a delayed tick finds it again.\<close>

lemma previous_of_fire:
  assumes "TrimSpace cronExpr \<noteq> []" and "parse_cron (TrimSpace cronExpr) = Inr c" and "fires loc c t"
  shows "previousOrEqualAt cronExpr t loc = Inr t"
proof -
  have b: "truncate_minute t - span \<le> t" using truncate_minute(1) [of t] by simp
  note p = previousOrEqualAt_cases [OF assms(1,2), of t loc]
  show ?thesis
  proof (cases "previousOrEqualAt cronExpr t loc")
    case (Inl err)
    with p b assms(3) show ?thesis by simp
  next
    case (Inr u)
    with p have "u \<le> t" "u < t \<longrightarrow> \<not> fires loc c t" by simp_all
    with Inr assms(3) show ?thesis by simp
  qed
qed

text \<open>A tick creates a snapshot exactly when the minute it falls in is a fire.\<close>

lemma tick_due_iff:
  assumes "TrimSpace sched \<noteq> []" and "parse_cron (TrimSpace sched) = Inr c" and "0 \<le> now"
  shows "tick_due sched now own = Inr True \<longleftrightarrow> fires own c (truncate_minute now)"
proof -
  have n: "truncate_minute (now - minute) + minute = truncate_minute now"
  proof -
    have "(now - minute - time_zero) mod minute = (now - time_zero) mod minute"
      using minus_mod_self2 [of "now - time_zero" minute] by (simp add: diff_diff_eq add.commute)
    then show ?thesis by (simp add: truncate_minute_def)
  qed
  have w: "w = truncate_minute now" if "minute dvd w" "now - minute < w" "w \<le> now" for w
    using after_truncated [of "now - minute" w] before_truncated [of w now] that unfolding n whole_minutes_def by simp
  note c = nextAt_cases [OF assms(1,2), of "now - minute" own, folded Next_def]
  have p: "truncate_minute now \<le> now" "now - minute < truncate_minute now" using truncate_minute [of now] by simp_all
  show ?thesis
  proof (cases "Next sched (now - minute) own")
    case (Inl err)
    with c p have "\<not> fires own c (truncate_minute now)" unfolding n by simp
    with Inl show ?thesis by (simp add: tick_due_def)
  next
    case (Inr t)
    have z: "t \<noteq> time_zero" if "now - minute < t" using that assms(3) by (simp add: time_zero_def)
    from Inr c have t: "now - minute < t" "fires own c t" "\<And>w. now - minute < w \<Longrightarrow> w < t \<Longrightarrow> \<not> fires own c w" by simp_all
    have "t \<le> now \<longleftrightarrow> fires own c (truncate_minute now)"
    proof
      assume "t \<le> now"
      with t(1,2) w [of t] show "fires own c (truncate_minute now)" by (simp add: fires_def)
    next
      assume "fires own c (truncate_minute now)"
      with t(3) [OF p(2)] p(1) show "t \<le> now" by fastforce
    qed
    with Inr z [OF t(1)] show ?thesis by (simp add: tick_due_def not_less)
  qed
qed

text \<open>
  The search stops after 366 days, so an expression for 29 February has no next fire in most years: the answer is an
  error, although there is a next fire (finding). Here from 1 March 2025 in UTC.
\<close>

definition leap_day :: cronSpec where
  "leap_day = \<lparr>cs_min = \<lparr>cf_any = False, cf_n = 0\<rparr>, cs_hour = \<lparr>cf_any = False, cf_n = 0\<rparr>,
    cs_dom = \<lparr>cf_any = False, cf_n = 29\<rparr>, cs_mon = \<lparr>cf_any = False, cf_n = 2\<rparr>, cs_dow = \<lparr>cf_any = True, cf_n = 0\<rparr>\<rparr>"

lemma leap_day_of_year: "month_day d = (2, 29) \<Longrightarrow> day_of_year d = 365 \<or> day_of_year d < 0"
  by (auto simp: month_day_def Let_def split: if_splits)

lemma no_leap_day:
  assumes "20148 \<le> d" and "d \<le> 20515"
  shows "month_day d \<noteq> (2, 29)"
proof -
  define k where "k = d - 20148"
  have k: "0 \<le> k" "k \<le> 367" using assms by (simp_all add: k_def)
  have doe: "(d + 719468) mod 146097 = 9131 + k"
    by (rule int_mod_pos_eq [of _ _ 5]) (use k in \<open>simp_all add: k_def\<close>)
  have q: "(9131 + k) div 1460 = 6" "(9131 + k) div 36524 = 0" "(9131 + k) div 146096 = 0"
    using k by (simp_all add: int_div_pos_eq [of _ _ _ "371 + k"])
  have y: "day_of_year d = (let yoe = (9125 + k) div 365 in 9131 + k - (365 * yoe + yoe div 4 - yoe div 100))"
    by (simp add: day_of_year_def doe q Let_def)
  show ?thesis
  proof (cases "k < 365")
    case True
    with k have "(9125 + k) div 365 = 25" by (simp add: int_div_pos_eq [of _ _ _ k])
    then have "day_of_year d = k" unfolding y by simp
    with True k leap_day_of_year [of d] show ?thesis by auto
  next
    case False
    with k have "(9125 + k) div 365 = 26" by (simp add: int_div_pos_eq [of _ _ _ "k - 365"])
    then have "day_of_year d = k - 365" unfolding y by simp
    with False k leap_day_of_year [of d] show ?thesis by auto
  qed
qed

lemma leap_day_never:
  assumes "TrimSpace expr \<noteq> []" and "parse_cron (TrimSpace expr) = Inr leap_day"
  shows "nextAt expr (time_Unix (20148 * 86400)) (\<lambda>_. 0) = fail INVALID ''no matching cron time''"
proof -
  let ?t0 = "time_Unix (20148 * 86400)"
  have b: "truncate_minute ?t0 + minute + span \<le> time_Unix (20515 * 86400)"
    using truncate_minute(1) [of ?t0] by (simp add: time_Unix_def)
  have "\<not> fires (\<lambda>_. 0) leap_day w" if "?t0 < w" "w \<le> time_Unix (20515 * 86400)" for w
  proof -
    have "20148 \<le> Unix w div 86400" "Unix w div 86400 \<le> 20515"
      using that unfolding Unix_def time_Unix_def by linarith+
    from no_leap_day [OF this] show ?thesis
      by (auto simp: fires_def cronMatch_def leap_day_def Month_def Day_def local_seconds_def prod_eq_iff)
  qed
  with b nextAt_cases [OF assms, of ?t0 "\<lambda>_. 0"] show ?thesis
    by (cases "nextAt expr ?t0 (\<lambda>_. 0)") (simp, fastforce)
qed

end
