(* ===== verification/Backup_Retention.thy ===== *)
theory Backup_Retention imports Backup_Schedule "HOL-Library.Product_Lexorder"
begin

text \<open>
  Which snapshots a policy lets go (\<^verbatim>\<open>internal/backup/retention.go\<close>): the limits by number, by days and by size, and
  what protects a snapshot from all of them. A byte count is an \<^verbatim>\<open>int64\<close>. The loops over the groups of a map only touch
  the keys of their own group; they are taken in the order of the groups' first snapshots. \<^verbatim>\<open>sort.Slice\<close> is a sort: no two
  snapshots have the same time, source and identifier.
\<close>

section \<open>Data\<close>

record Policy =
  py_PolicyID :: string
  py_Name :: string
  py_Enabled :: bool
  py_ScheduleCron :: string
  py_Timezone :: string
  py_TargetSelector :: string
  py_TargetIDs :: "string list"
  py_Sink :: string
  py_DestinationProfile :: string
  py_RetentionKeepLast :: int
  py_RetentionKeepDays :: int
  py_RetentionMaxBytes :: int
  py_TimeoutSeconds :: int
  py_MaxConcurrency :: int
  py_UnavailablePolicy :: string
  py_Revision :: int

record RetentionSnapshot =
  rt_SnapshotID :: string
  rt_PolicyID :: string
  rt_SourceNodeID :: string
  rt_NodeID :: string
  rt_CreatedAt :: gtime
  rt_Bytes :: int
  rt_Status :: string
  rt_Active :: bool
  rt_LastUsableReplica :: bool

definition completedRetentionStatus :: "string \<Rightarrow> bool" where
  "completedRetentionStatus status \<longleftrightarrow> status = [] \<or> status = ''SUCCESS'' \<or> status = ''SUCCEEDED''"

definition retentionSource :: "RetentionSnapshot \<Rightarrow> string" where
  "retentionSource snapshot = (if rt_SourceNodeID snapshot \<noteq> [] then rt_SourceNodeID snapshot else rt_NodeID snapshot)"

definition retentionSnapshotKey :: "RetentionSnapshot \<Rightarrow> string" where
  "retentionSnapshotKey snapshot = retentionSource snapshot @ CHR 0x00 # rt_SnapshotID snapshot"

definition sortRetentionSnapshots :: "RetentionSnapshot list \<Rightarrow> RetentionSnapshot list" where
  "sortRetentionSnapshots = sort_key (\<lambda>s. (rt_CreatedAt s, retentionSource s, rt_SnapshotID s))"

definition protected :: "RetentionSnapshot \<Rightarrow> bool" where
  "protected snapshot \<longleftrightarrow> rt_Active snapshot \<or> rt_LastUsableReplica snapshot"

section \<open>Days (package time)\<close>

text \<open>\<^verbatim>\<open>time.Date\<close> for a local time in seconds: the offset is looked up twice, as the package does.\<close>

definition time_Date :: "loc \<Rightarrow> int \<Rightarrow> gtime" where
  "time_Date loc local_secs =
    (let offset = loc local_secs
     in time_Unix (if offset = 0 then local_secs else local_secs - loc (local_secs - offset)))"

text \<open>Midnight of today, and \<^verbatim>\<open>AddDate(0, 0, -(keepDays - 1))\<close> from there.\<close>

definition day_cutoff :: "loc \<Rightarrow> gtime \<Rightarrow> int \<Rightarrow> gtime" where
  "day_cutoff loc now keepDays =
    (let startToday = time_Date loc (local_seconds loc now div 86400 * 86400)
     in time_Date loc (local_seconds loc startToday - (keepDays - 1) * 86400))"

section \<open>The plan\<close>

type_synonym keyset = "(string, bool) gomap"

definition has :: "keyset \<Rightarrow> RetentionSnapshot \<Rightarrow> bool" where
  "has keys snapshot = mget_or False keys (retentionSnapshotKey snapshot)"

definition group :: "RetentionSnapshot list \<Rightarrow> string \<Rightarrow> RetentionSnapshot list" where
  "group eligible source = filter (\<lambda>s. retentionSource s = source) eligible"

definition groups :: "RetentionSnapshot list \<Rightarrow> string list" where
  "groups eligible = remdups (map retentionSource eligible)"

definition mark :: "(RetentionSnapshot \<Rightarrow> bool) \<Rightarrow> RetentionSnapshot list \<Rightarrow> keyset \<Rightarrow> keyset" where
  "mark P snapshots keys = fold (\<lambda>s keys. if P s then mput (retentionSnapshotKey s) True keys else keys) snapshots keys"

definition count_expired :: "int \<Rightarrow> RetentionSnapshot list \<Rightarrow> keyset" where
  "count_expired keepLast eligible =
    (if keepLast > 0
     then fold (\<lambda>source. mark (\<lambda>_. True) (take (nat (int (length (group eligible source)) - keepLast)) (group eligible source)))
       (groups eligible) []
     else [])"

definition day_expired :: "loc \<Rightarrow> gtime \<Rightarrow> int \<Rightarrow> RetentionSnapshot list \<Rightarrow> keyset" where
  "day_expired loc now keepDays eligible =
    (if keepDays > 0 then mark (\<lambda>s. rt_CreatedAt s < day_cutoff loc now keepDays) eligible [] else [])"

definition expired :: "Policy \<Rightarrow> keyset \<Rightarrow> keyset \<Rightarrow> RetentionSnapshot \<Rightarrow> bool" where
  "expired policy byCount byDay snapshot =
    (if py_RetentionKeepLast policy > 0 \<and> py_RetentionKeepDays policy > 0 then has byCount snapshot \<and> has byDay snapshot
     else if py_RetentionKeepLast policy > 0 then has byCount snapshot
     else if py_RetentionKeepDays policy > 0 then has byDay snapshot
     else False)"

definition retained_bytes :: "keyset \<Rightarrow> RetentionSnapshot list \<Rightarrow> int" where
  "retained_bytes selected eligible =
     fold (\<lambda>s n. if \<not> has selected s \<and> rt_Bytes s > 0 then wrap64 (n + rt_Bytes s) else n) eligible 0"

fun trim_bytes :: "int \<Rightarrow> RetentionSnapshot list \<Rightarrow> int \<Rightarrow> keyset \<Rightarrow> keyset" where
  "trim_bytes maxBytes [] retainedBytes selected = selected"
| "trim_bytes maxBytes (s # ss) retainedBytes selected =
    (if retainedBytes \<le> maxBytes then selected
     else if has selected s \<or> protected s then trim_bytes maxBytes ss retainedBytes selected
     else trim_bytes maxBytes ss (if rt_Bytes s > 0 then wrap64 (retainedBytes - rt_Bytes s) else retainedBytes)
       (mput (retentionSnapshotKey s) True selected))"

definition protectLastRemainingPerSource :: "RetentionSnapshot list \<Rightarrow> keyset \<Rightarrow> keyset" where
  "protectLastRemainingPerSource eligible selected =
     fold (\<lambda>source selected.
         if list_ex (\<lambda>s. \<not> has selected s) (group eligible source) \<or> group eligible source = [] then selected
         else mdel (retentionSnapshotKey (last (group eligible source))) selected)
       (groups eligible) selected"

definition no_limit :: "Policy \<Rightarrow> bool" where
  "no_limit policy \<longleftrightarrow> py_RetentionKeepLast policy \<le> 0 \<and> py_RetentionKeepDays policy \<le> 0 \<and> py_RetentionMaxBytes policy \<le> 0"

definition candidates :: "Policy \<Rightarrow> RetentionSnapshot list \<Rightarrow> RetentionSnapshot list" where
  "candidates policy snapshots = sortRetentionSnapshots
     (filter (\<lambda>s. rt_PolicyID s = py_PolicyID policy \<and> completedRetentionStatus (rt_Status s)) snapshots)"

definition plan_in :: "loc \<Rightarrow> gtime \<Rightarrow> Policy \<Rightarrow> RetentionSnapshot list \<Rightarrow> RetentionSnapshot list" where
  "plan_in loc now policy eligible =
    (let byCount = count_expired (py_RetentionKeepLast policy) eligible;
         byDay = day_expired loc now (py_RetentionKeepDays policy) eligible;
         selected = mark (\<lambda>s. expired policy byCount byDay s \<and> \<not> protected s) eligible [];
         selected = (if py_RetentionMaxBytes policy > 0
           then trim_bytes (py_RetentionMaxBytes policy) eligible (retained_bytes selected eligible) selected else selected);
         selected = protectLastRemainingPerSource eligible selected
     in filter (has selected) eligible)"

definition PlanRetention ::
    "(string \<Rightarrow> loc option) \<Rightarrow> loc \<Rightarrow> gtime \<Rightarrow> Policy \<Rightarrow> RetentionSnapshot list \<Rightarrow> goerror + RetentionSnapshot list" where
  "PlanRetention tz own now policy snapshots =
    (if no_limit policy then Inr []
     else case (if py_Timezone policy \<noteq> [] then tz (py_Timezone policy) else Some own) of
         None \<Rightarrow> fail INVALID ''invalid retention timezone''
       | Some loc \<Rightarrow> Inr (plan_in loc now policy (candidates policy snapshots)))"

section \<open>Sets of keys\<close>

lemma has_mput [simp]: "has (mput (retentionSnapshotKey x) True keys) s \<longleftrightarrow> retentionSnapshotKey s = retentionSnapshotKey x \<or> has keys s"
  by (simp add: has_def mget_or_def)

lemma has_mdel [simp]: "has (mdel (retentionSnapshotKey x) keys) s \<longleftrightarrow> retentionSnapshotKey s \<noteq> retentionSnapshotKey x \<and> has keys s"
  by (simp add: has_def mget_or_def)

lemma has_Nil [simp]: "\<not> has [] s"
  by (simp add: has_def mget_or_def)

lemma has_mark:
  "has (mark P snapshots keys) s \<longleftrightarrow> has keys s \<or> (\<exists>x\<in>set snapshots. P x \<and> retentionSnapshotKey x = retentionSnapshotKey s)"
  unfolding mark_def by (induction snapshots arbitrary: keys) auto

lemma has_trim:
  "has (trim_bytes m ss n keys) s \<Longrightarrow> has keys s \<or> (\<exists>x\<in>set ss. \<not> protected x \<and> retentionSnapshotKey x = retentionSnapshotKey s)"
  by (induction m ss n keys rule: trim_bytes.induct) (auto split: if_splits)

text \<open>The last step only deletes keys, and leaves a snapshot in every group.\<close>

lemma protect_last_fold:
  defines "step \<equiv> \<lambda>eligible source selected.
     if list_ex (\<lambda>s. \<not> has selected s) (group eligible source) \<or> group eligible source = [] then selected
     else mdel (retentionSnapshotKey (last (group eligible source))) selected"
  shows "has (fold (step eligible) sources selected) s \<Longrightarrow> has selected s"
    and "source \<in> set sources \<Longrightarrow> group eligible source \<noteq> [] \<Longrightarrow>
      \<exists>s\<in>set (group eligible source). \<not> has (fold (step eligible) sources selected) s"
proof -
  have less: "has (step eligible source selected) s \<Longrightarrow> has selected s" for source selected s
    by (auto simp: step_def split: if_splits)
  have mono: "has (fold (step eligible) sources selected) s \<Longrightarrow> has selected s" for sources selected s
    by (induction sources arbitrary: selected) (auto dest: less)
  then show "has (fold (step eligible) sources selected) s \<Longrightarrow> has selected s" .
  have one: "\<exists>s\<in>set (group eligible source). \<not> has (step eligible source selected) s" if "group eligible source \<noteq> []" for selected
  proof (cases "list_ex (\<lambda>s. \<not> has selected s) (group eligible source)")
    case True
    then show ?thesis by (auto simp: step_def list_ex_iff)
  next
    case False
    with that have "last (group eligible source) \<in> set (group eligible source)
        \<and> \<not> has (step eligible source selected) (last (group eligible source))"
      unfolding step_def by simp
    then show ?thesis by blast
  qed
  show "\<exists>s\<in>set (group eligible source). \<not> has (fold (step eligible) sources selected) s"
    if "source \<in> set sources" "group eligible source \<noteq> []"
    using that
  proof (induction sources arbitrary: selected)
    case (Cons x sources)
    show ?case
    proof (cases "source \<in> set sources")
      case True
      then show ?thesis using Cons by simp
    next
      case False
      then have "x = source" using Cons.prems by simp
      with one [OF Cons.prems(2)] mono show ?thesis by (metis fold_Cons comp_apply)
    qed
  qed simp
qed

lemma protect_last:
  "has (protectLastRemainingPerSource eligible selected) s \<Longrightarrow> has selected s"
  "x \<in> set eligible \<Longrightarrow> \<exists>y\<in>set eligible. retentionSource y = retentionSource x \<and> \<not> has (protectLastRemainingPerSource eligible selected) y"
proof -
  show "has (protectLastRemainingPerSource eligible selected) s \<Longrightarrow> has selected s"
    unfolding protectLastRemainingPerSource_def by (rule protect_last_fold(1))
  assume x: "x \<in> set eligible"
  then have "retentionSource x \<in> set (groups eligible)" "x \<in> set (group eligible (retentionSource x))"
    by (simp_all add: groups_def group_def)
  then have "\<exists>y\<in>set (group eligible (retentionSource x)). \<not> has (protectLastRemainingPerSource eligible selected) y"
    unfolding protectLastRemainingPerSource_def by (intro protect_last_fold(2)) auto
  then show "\<exists>y\<in>set eligible. retentionSource y = retentionSource x \<and> \<not> has (protectLastRemainingPerSource eligible selected) y"
    by (auto simp: group_def)
qed

section \<open>The limits\<close>

lemma has_count_expired:
  assumes "has (count_expired keep eligible) s" and "distinct (map retentionSnapshotKey eligible)" and "s \<in> set eligible"
  shows "0 < keep" and "s \<in> set (take (nat (int (length (group eligible (retentionSource s))) - keep)) (group eligible (retentionSource s)))"
proof -
  let ?expired = "\<lambda>source. take (nat (int (length (group eligible source)) - keep)) (group eligible source)"
  have f: "has (fold (\<lambda>source. mark (\<lambda>_. True) (?expired source)) sources keys) s \<longleftrightarrow>
      has keys s \<or> (\<exists>source\<in>set sources. \<exists>x\<in>set (?expired source). retentionSnapshotKey x = retentionSnapshotKey s)" for sources keys
    by (induction sources arbitrary: keys) (auto simp: has_mark)
  show "0 < keep" using assms(1) by (simp add: count_expired_def split: if_splits)
  with assms(1) obtain source x where x: "x \<in> set (?expired source)" "retentionSnapshotKey x = retentionSnapshotKey s"
    by (auto simp: count_expired_def f)
  have "x \<in> set (group eligible source)" using x(1) by (rule in_set_takeD)
  then have "x \<in> set eligible" "retentionSource x = source" by (simp_all add: group_def)
  with x(2) assms(2,3) have "x = s" by (metis distinct_map inj_onD)
  with x(1) \<open>retentionSource x = source\<close> show "s \<in> set (?expired (retentionSource s))" by simp
qed

lemma has_day_expired:
  assumes "has (day_expired loc now keep eligible) s" and "distinct (map retentionSnapshotKey eligible)" and "s \<in> set eligible"
  shows "rt_CreatedAt s < day_cutoff loc now keep"
proof -
  from assms(1) obtain x where "x \<in> set eligible" "rt_CreatedAt x < day_cutoff loc now keep"
    "retentionSnapshotKey x = retentionSnapshotKey s"
    by (auto simp: day_expired_def has_mark split: if_splits)
  with assms(2,3) show ?thesis by (metis distinct_map inj_onD)
qed

lemma sorted_group: "sorted (map rt_CreatedAt (candidates policy snapshots))"
    "sorted (map rt_CreatedAt (group (candidates policy snapshots) source))"
proof -
  let ?key = "\<lambda>s. (rt_CreatedAt s, retentionSource s, rt_SnapshotID s)"
  have "sorted (map ?key (candidates policy snapshots))" by (simp add: candidates_def sortRetentionSnapshots_def)
  then show s: "sorted (map rt_CreatedAt (candidates policy snapshots))"
    unfolding sorted_map by (rule sorted_wrt_mono_rel [rotated]) (auto simp: less_eq_prod_def)
  show "sorted (map rt_CreatedAt (group (candidates policy snapshots) source))"
    unfolding group_def by (rule sorted_filter [OF s])
qed

text \<open>What the limit by number leaves: the newest snapshots of the source.\<close>

lemma newest_kept:
  assumes "distinct (map retentionSnapshotKey eligible)" and "sorted (map rt_CreatedAt (group eligible (retentionSource s)))"
    and "s \<in> set eligible" and "has (count_expired keep eligible) s"
  shows "keep \<le> int (card {y \<in> set eligible. retentionSource y = retentionSource s \<and> rt_CreatedAt s \<le> rt_CreatedAt y
    \<and> \<not> has (count_expired keep eligible) y})"
proof -
  let ?g = "group eligible (retentionSource s)"
  let ?n = "nat (int (length ?g) - keep)"
  note s = has_count_expired [OF assms(4,1,3)]
  have g: "distinct (map retentionSnapshotKey ?g)" using assms(1) by (simp add: group_def distinct_map_filter)
  have d: "distinct ?g" using g by (simp add: distinct_map)
  have "y \<in> {y \<in> set eligible. retentionSource y = retentionSource s \<and> rt_CreatedAt s \<le> rt_CreatedAt y
    \<and> \<not> has (count_expired keep eligible) y}" if y: "y \<in> set (drop ?n ?g)" for y
  proof -
    have "y \<in> set ?g" using y by (rule in_set_dropD)
    then have e: "y \<in> set eligible" "retentionSource y = retentionSource s" by (simp_all add: group_def)
    have "sorted_wrt (\<lambda>a b. rt_CreatedAt a \<le> rt_CreatedAt b) (take ?n ?g @ drop ?n ?g)"
      using assms(2) by (simp add: sorted_map)
    then have "rt_CreatedAt s \<le> rt_CreatedAt y" using s(2) y unfolding sorted_wrt_append by blast
    moreover have "y \<notin> set (take ?n ?g)" using y set_take_disj_set_drop_if_distinct [OF d, of ?n ?n] by blast
    then have "\<not> has (count_expired keep eligible) y" using has_count_expired(2) [OF _ assms(1) e(1)] e(2) by metis
    ultimately show ?thesis using e by simp
  qed
  then have "set (drop ?n ?g) \<subseteq> {y \<in> set eligible. retentionSource y = retentionSource s \<and> rt_CreatedAt s \<le> rt_CreatedAt y
    \<and> \<not> has (count_expired keep eligible) y}" by blast
  from card_mono [OF _ this] have "length (drop ?n ?g) \<le> card {y \<in> set eligible. retentionSource y = retentionSource s
    \<and> rt_CreatedAt s \<le> rt_CreatedAt y \<and> \<not> has (count_expired keep eligible) y}"
    using d by (simp add: distinct_card)
  moreover have "keep \<le> int (length (drop ?n ?g))"
  proof -
    have "length ?g \<noteq> 0" "?n \<noteq> 0" using s(2) by auto
    then show ?thesis using s(1) by simp
  qed
  ultimately show ?thesis by linarith
qed

section \<open>What a plan may delete\<close>

lemma plan_selected:
  assumes "s \<in> set (plan_in loc now policy eligible)" and "distinct (map retentionSnapshotKey eligible)"
  shows "s \<in> set eligible" and "\<not> protected s"
    and "py_RetentionMaxBytes policy \<le> 0 \<Longrightarrow> expired policy (count_expired (py_RetentionKeepLast policy) eligible)
      (day_expired loc now (py_RetentionKeepDays policy) eligible) s"
proof -
  define sel where "sel = mark (\<lambda>s. expired policy (count_expired (py_RetentionKeepLast policy) eligible)
      (day_expired loc now (py_RetentionKeepDays policy) eligible) s \<and> \<not> protected s) eligible []"
  define trimmed where "trimmed = (if py_RetentionMaxBytes policy > 0
           then trim_bytes (py_RetentionMaxBytes policy) eligible (retained_bytes sel eligible) sel else sel)"
  have p: "plan_in loc now policy eligible = filter (has (protectLastRemainingPerSource eligible trimmed)) eligible"
    by (simp add: plan_in_def Let_def sel_def trimmed_def)
  show s: "s \<in> set eligible" using assms(1) by (simp add: p)
  have same: "x = s" if "x \<in> set eligible" "retentionSnapshotKey x = retentionSnapshotKey s" for x
    using that assms(2) s by (metis distinct_map inj_onD)
  have t: "has trimmed s" using assms(1) protect_last(1) unfolding p by fastforce
  then show "\<not> protected s"
    using has_trim same by (fastforce simp: trimmed_def sel_def has_mark split: if_splits)
  show "expired policy (count_expired (py_RetentionKeepLast policy) eligible)
      (day_expired loc now (py_RetentionKeepDays policy) eligible) s" if "py_RetentionMaxBytes policy \<le> 0"
    using t that same by (auto simp: trimmed_def sel_def has_mark)
qed

lemma plan_keeps_one:
  assumes "x \<in> set eligible"
  shows "\<exists>y\<in>set eligible. retentionSource y = retentionSource x \<and> y \<notin> set (plan_in loc now policy eligible)"
  using protect_last(2) [OF assms] by (auto simp: plan_in_def Let_def)

lemma candidates_set:
  "set (candidates policy snapshots) = {s \<in> set snapshots. rt_PolicyID s = py_PolicyID policy \<and> completedRetentionStatus (rt_Status s)}"
  by (simp add: candidates_def sortRetentionSnapshots_def)

lemma candidates_keys:
  assumes "distinct (map retentionSnapshotKey (filter (\<lambda>s. rt_PolicyID s = py_PolicyID policy) snapshots))"
  shows "distinct (map retentionSnapshotKey (candidates policy snapshots))"
proof -
  have "distinct (map retentionSnapshotKey (filter (\<lambda>s. completedRetentionStatus (rt_Status s))
      (filter (\<lambda>s. rt_PolicyID s = py_PolicyID policy) snapshots)))" using assms by (rule distinct_map_filter)
  moreover have "mset (map retentionSnapshotKey (candidates policy snapshots)) = mset (map retentionSnapshotKey
      (filter (\<lambda>s. completedRetentionStatus (rt_Status s)) (filter (\<lambda>s. rt_PolicyID s = py_PolicyID policy) snapshots)))"
    by (simp only: candidates_def sortRetentionSnapshots_def mset_map mset_sort filter_filter conj_commute)
  ultimately show ?thesis by (metis mset_eq_imp_distinct_iff)
qed

lemma planned:
  assumes "PlanRetention tz own now policy snapshots = Inr out" and "\<not> no_limit policy"
  obtains loc where "out = plan_in loc now policy (candidates policy snapshots)"
    and "(if py_Timezone policy \<noteq> [] then tz (py_Timezone policy) else Some own) = Some loc"
  using assms by (auto simp: PlanRetention_def)


definition kept_copy :: "string \<Rightarrow> int \<Rightarrow> bool \<Rightarrow> RetentionSnapshot" where
  "kept_copy i day active = \<lparr>rt_SnapshotID = i, rt_PolicyID = ''p'', rt_SourceNodeID = ''n'', rt_NodeID = ''n'',
     rt_CreatedAt = time_Unix (day * 86400), rt_Bytes = 10, rt_Status = ''SUCCEEDED'', rt_Active = active, rt_LastUsableReplica = False\<rparr>"

definition keep_one :: Policy where
  "keep_one = \<lparr>py_PolicyID = ''p'', py_Name = ''p'', py_Enabled = True, py_ScheduleCron = [], py_Timezone = [],
     py_TargetSelector = ''ALL_ADMITTED'', py_TargetIDs = [], py_Sink = ''fs'', py_DestinationProfile = [],
     py_RetentionKeepLast = 1, py_RetentionKeepDays = 2, py_RetentionMaxBytes = 0, py_TimeoutSeconds = 0,
     py_MaxConcurrency = 0, py_UnavailablePolicy = [], py_Revision = 1\<rparr>"

definition four_copies :: "RetentionSnapshot list" where
  "four_copies = [kept_copy ''d'' 9 False, kept_copy ''a'' 1 False, kept_copy ''b'' 2 True, kept_copy ''c'' 3 False]"


end
