(* ===== verification/Auth_Service.thy ===== *)
theory Auth_Service imports Control_Log
begin

text \<open>
  Authentication and permission checks of an agent (\<^verbatim>\<open>internal/auth\<close>), over the agent's view of the control state.
  A command goes to the store through the parameter \<open>submit\<close> (\<^verbatim>\<open>Store.Apply\<close>): it gives the state afterwards and
  the error. Passwords are checked and hashed by the parameters of \<open>crypto\<close> (package argon2); random identifiers and
  the clock are arguments. The compiled-in \<^verbatim>\<open>EncodeCommand\<close> cannot fail on these bodies.
\<close>

section \<open>Data\<close>

record Principal =
  pr_UserID :: string
  pr_Username :: string
  pr_SessionID :: string
  pr_TokenID :: string
  pr_CSRF :: string

type_synonym submit = "Command \<Rightarrow> State \<Rightarrow> State \<times> goerror option"

text \<open>What the service reads of its store.\<close>

record AuthStore =
  as_View :: State
  as_HasQuorum :: bool
  as_CacheFresh :: "int \<Rightarrow> bool"

record AuthService =
  sv_store :: "AuthStore option"
  sv_hits :: "(string, gtime list) gomap"

record crypto =
  cr_VerifyPassword :: "string \<Rightarrow> string \<Rightarrow> bool"
  cr_HashPassword :: "string \<Rightarrow> goerror + string"

definition sessionPrefix :: string where "sessionPrefix = ''pms_''"
definition tokenPrefix :: string where "tokenPrefix = ''pmt_''"

definition has_prefix :: "string \<Rightarrow> string \<Rightarrow> bool" where
  "has_prefix s p \<longleftrightarrow> take (length p) s = p"

section \<open>The login limiter (ratelimit.go)\<close>

definition loginRateLimit :: nat where "loginRateLimit = 5"
definition loginRateWindow :: int where "loginRateWindow = 60 * nanos"

definition allow_login :: "(string, gtime list) gomap \<Rightarrow> string \<Rightarrow> gtime \<Rightarrow> bool \<times> (string, gtime list) gomap" where
  "allow_login hits user now =
    (let cutoff = now - loginRateWindow;
         kept = filter (\<lambda>t. t > cutoff) (mget_or [] hits user)
     in if length kept \<ge> loginRateLimit then (False, mput user kept hits)
        else (True, mput user (kept @ [now]) hits))"

section \<open>Sessions and tokens\<close>

definition MaxSessionTTL :: int where "MaxSessionTTL = 30 * 24 * 3600 * nanos"
definition MinPasswordLen :: nat where "MinPasswordLen = 10"

definition ValidPassword :: "string \<Rightarrow> goerror option" where
  "ValidPassword pw = (if length pw < MinPasswordLen then Some (E INVALID ''password too short'') else None)"

definition ResolveSessionTTL :: "int \<Rightarrow> goerror + int" where
  "ResolveSessionTTL ttlSeconds =
    (if ttlSeconds = 0 then Inr SessionTTL
     else if ttlSeconds < 0 then fail INVALID ''ttl must be positive''
     else if ttlSeconds > MaxSessionTTL div nanos then fail INVALID ''ttl exceeds maximum''
     else Inr (ttlSeconds * nanos))"

definition resolveTTL :: "int \<Rightarrow> goerror + int" where
  "resolveTTL ttl =
    (if ttl < 0 then fail INVALID ''ttl must be positive''
     else if ttl = 0 then Inr SessionTTL
     else if ttl > MaxSessionTTL then fail INVALID ''ttl exceeds maximum''
     else Inr ttl)"

text \<open>Zero means never.\<close>

definition expired_at :: "int \<Rightarrow> gtime \<Rightarrow> bool" where
  "expired_at expiresUnix now \<longleftrightarrow> expiresUnix \<noteq> 0 \<and> \<not> now < time_Unix expiresUnix"

definition set_view :: "State \<Rightarrow> AuthService \<Rightarrow> AuthService" where
  "set_view st sv = sv\<lparr>sv_store := map_option (\<lambda>s. s\<lparr>as_View := st\<rparr>) (sv_store sv)\<rparr>"

text \<open>\<^verbatim>\<open>s.apply\<close>: the command goes to the store.\<close>

definition apply_cmd :: "submit \<Rightarrow> Command \<Rightarrow> AuthService \<Rightarrow> goerror option \<times> AuthService" where
  "apply_cmd submit c sv =
    (case sv_store sv of
       None \<Rightarrow> (Some (E UNAVAILABLE ''auth store not ready''), sv)
     | Some st \<Rightarrow> (case submit c (as_View st) of (s', err) \<Rightarrow> (err, set_view s' sv)))"

text \<open>
  \<open>random_sid\<close> and \<open>random_csrf\<close> are the hexadecimal random numbers of one login, or the error of the source. The
  result is the session, its CSRF token, the user and the expiry.
\<close>

definition LoginWithTTL ::
    "crypto \<Rightarrow> submit \<Rightarrow> gtime \<Rightarrow> goerror + string \<Rightarrow> goerror + string \<Rightarrow> string \<Rightarrow> string \<Rightarrow> int \<Rightarrow> AuthService
      \<Rightarrow> (goerror + string \<times> string \<times> string \<times> gtime) \<times> AuthService" where
  "LoginWithTTL cr submit now random_sid random_csrf username password ttl0 sv =
    (if username = [] \<or> password = [] then (fail INVALID ''username and password required'', sv)
     else case resolveTTL ttl0 of Inl err \<Rightarrow> (Inl err, sv) | Inr ttl \<Rightarrow>
      (case allow_login (sv_hits sv) username now of (allowed, hits) \<Rightarrow>
        (let sv1 = sv\<lparr>sv_hits := hits\<rparr> in
         if \<not> allowed then (fail RATE_LIMITED ''login rate limited'', sv1)
         else case sv_store sv1 of None \<Rightarrow> (fail UNAVAILABLE ''auth store not ready'', sv1) | Some st \<Rightarrow>
          (case mget (Users (as_View st)) username of
             None \<Rightarrow> (fail INVALID_CREDENTIALS ''invalid credentials'', sv1)
           | Some u \<Rightarrow>
              if \<not> cr_VerifyPassword cr (u_PasswordHash u) password
              then (fail INVALID_CREDENTIALS ''invalid credentials'',
                snd (apply_cmd submit (UserCmd (CmdLoginFail \<lparr>lfl_Username = username\<rparr>)) sv1))
              else if u_Status u = UserDisabled then (fail DENIED ''user disabled'', sv1)
              else if u_Status u = UserLocked \<and> now < time_Unix (u_LockedUntilUnix u)
                then (fail ACCOUNT_LOCKED ''user locked'', sv1)
              else case random_sid of Inl err \<Rightarrow> (Inl err, sv1) | Inr sid_hex \<Rightarrow>
               (case random_csrf of Inl err \<Rightarrow> (Inl err, sv1) | Inr csrf \<Rightarrow>
                 (let sid = sessionPrefix @ sid_hex; ex = now + ttl in
                  case apply_cmd submit (UserCmd (CmdLoginOK \<lparr>lok_Username = username\<rparr>)) sv1 of
                    (Some err, sv2) \<Rightarrow> (Inl err, sv2)
                  | (None, sv2) \<Rightarrow>
                     (case apply_cmd submit (UserCmd (CmdSessionPut \<lparr>spb_ID = sid, spb_UserID = u_ID u,
                             spb_CSRF = csrf, spb_ExpiresUnix = Unix ex\<rparr>)) sv2 of
                        (Some err, sv3) \<Rightarrow> (Inl err, sv3)
                      | (None, sv3) \<Rightarrow> (Inr (sid, csrf, u_ID u, ex), sv3))))))))"

definition Login ::
    "crypto \<Rightarrow> submit \<Rightarrow> gtime \<Rightarrow> goerror + string \<Rightarrow> goerror + string \<Rightarrow> string \<Rightarrow> string \<Rightarrow> AuthService
      \<Rightarrow> (goerror + string \<times> string \<times> string \<times> gtime) \<times> AuthService" where
  "Login cr submit now random_sid random_csrf username password sv =
     LoginWithTTL cr submit now random_sid random_csrf username password 0 sv"

definition Logout :: "submit \<Rightarrow> string \<Rightarrow> AuthService \<Rightarrow> goerror option \<times> AuthService" where
  "Logout submit sessionID sv = apply_cmd submit (UserCmd (CmdSessionDel \<lparr>sdb_ID = sessionID\<rparr>)) sv"

definition ChangePassword ::
    "crypto \<Rightarrow> submit \<Rightarrow> string \<Rightarrow> string \<Rightarrow> string \<Rightarrow> AuthService \<Rightarrow> goerror option \<times> AuthService" where
  "ChangePassword cr submit userID currentPassword newPassword sv =
    (case sv_store sv of None \<Rightarrow> (Some (E UNAVAILABLE ''auth store not ready''), sv) | Some st \<Rightarrow>
      (case userByID (as_View st) userID of
         None \<Rightarrow> (Some (E NOT_FOUND ''user not found''), sv)
       | Some u \<Rightarrow>
          if \<not> cr_VerifyPassword cr (u_PasswordHash u) currentPassword
            then (Some (E INVALID_CREDENTIALS ''invalid credentials''), sv)
          else case ValidPassword newPassword of Some err \<Rightarrow> (Some err, sv) | None \<Rightarrow>
            if cr_VerifyPassword cr (u_PasswordHash u) newPassword
              then (Some (E INVALID ''new password must differ from current password''), sv)
            else case cr_HashPassword cr newPassword of
                Inl err \<Rightarrow> (Some (Plain (''hash password: '' @ err_text err)), sv)
              | Inr hash \<Rightarrow> apply_cmd submit (UserCmd (CmdUserPasswordSet \<lparr>upw_UserID = userID, upw_PasswordHash = hash\<rparr>)) sv))"

definition CreateAPIToken ::
    "env \<Rightarrow> submit \<Rightarrow> gtime \<Rightarrow> goerror + string \<Rightarrow> goerror + string \<Rightarrow> string \<Rightarrow> string \<Rightarrow> int \<Rightarrow> AuthService
      \<Rightarrow> (goerror + string \<times> string \<times> gtime) \<times> AuthService" where
  "CreateAPIToken e submit now random_plain random_id userID name ttl sv =
    (case random_plain of Inl err \<Rightarrow> (Inl err, sv) | Inr plain_hex \<Rightarrow>
      (case random_id of Inl err \<Rightarrow> (Inl err, sv) | Inr i \<Rightarrow>
        (let plain = tokenPrefix @ plain_hex;
             (ex, expUnix) = (if ttl > 0 then (now + ttl, Unix (now + ttl)) else (time_zero, 0))
         in case apply_cmd submit (UserCmd (CmdTokenPut \<lparr>tpb_ID = i, tpb_UserID = userID, tpb_Name = name,
                tpb_Hash = hashToken e plain, tpb_ExpiresUnix = expUnix\<rparr>)) sv of
              (Some err, sv') \<Rightarrow> (Inl err, sv')
            | (None, sv') \<Rightarrow> (Inr (plain, i, ex), sv'))))"

definition RevokeAPIToken :: "submit \<Rightarrow> string \<Rightarrow> AuthService \<Rightarrow> goerror option \<times> AuthService" where
  "RevokeAPIToken submit tokenID sv = apply_cmd submit (UserCmd (CmdTokenRevoke \<lparr>trb_ID = tokenID\<rparr>)) sv"

section \<open>Who is calling?\<close>

definition active_user :: "State \<Rightarrow> string \<Rightarrow> User option" where
  "active_user st i =
    (case userByID st i of None \<Rightarrow> None | Some u \<Rightarrow> if u_Status u \<noteq> UserActive then None else Some u)"

definition sessionPrincipal :: "gtime \<Rightarrow> AuthService \<Rightarrow> string \<Rightarrow> goerror + Principal" where
  "sessionPrincipal now sv sessionID =
    (case sv_store sv of None \<Rightarrow> fail UNAVAILABLE ''auth store not ready'' | Some st \<Rightarrow>
      (case mget (Sessions (as_View st)) sessionID of
         None \<Rightarrow> fail DENIED ''invalid session''
       | Some sess \<Rightarrow>
          if expired_at (se_ExpiresUnix sess) now then fail DENIED ''session expired''
          else case active_user (as_View st) (se_UserID sess) of
              None \<Rightarrow> fail DENIED ''user not active''
            | Some u \<Rightarrow> Inr \<lparr>pr_UserID = u_ID u, pr_Username = u_Username u, pr_SessionID = se_ID sess,
                pr_TokenID = [], pr_CSRF = se_CSRF sess\<rparr>))"

definition principalFromToken :: "gtime \<Rightarrow> State \<Rightarrow> APIToken \<Rightarrow> goerror + Principal" where
  "principalFromToken now st tok =
    (if at_Revoked tok then fail DENIED ''token revoked''
     else if expired_at (at_ExpiresUnix tok) now then fail DENIED ''token expired''
     else case active_user st (at_UserID tok) of
         None \<Rightarrow> fail DENIED ''user not active''
       | Some u \<Rightarrow> Inr \<lparr>pr_UserID = u_ID u, pr_Username = u_Username u, pr_SessionID = [], pr_TokenID = at_ID tok, pr_CSRF = []\<rparr>)"

definition AuthenticateTokenID :: "gtime \<Rightarrow> AuthService \<Rightarrow> string \<Rightarrow> goerror + Principal" where
  "AuthenticateTokenID now sv tokenID =
    (if tokenID = [] then fail DENIED ''invalid token''
     else case sv_store sv of None \<Rightarrow> fail UNAVAILABLE ''auth store not ready'' | Some st \<Rightarrow>
      (case mget (APITokens (as_View st)) tokenID of
         None \<Rightarrow> fail DENIED ''invalid token''
       | Some tok \<Rightarrow> principalFromToken now (as_View st) tok))"

definition tokenPrincipal :: "env \<Rightarrow> gtime \<Rightarrow> AuthService \<Rightarrow> string \<Rightarrow> goerror + Principal" where
  "tokenPrincipal e now sv plain =
    (case sv_store sv of None \<Rightarrow> fail UNAVAILABLE ''auth store not ready'' | Some st \<Rightarrow>
      (case TokenByPlain e (as_View st) plain of
         None \<Rightarrow> fail DENIED ''invalid token''
       | Some tok \<Rightarrow> principalFromToken now (as_View st) tok))"

definition AuthenticateBearer :: "env \<Rightarrow> gtime \<Rightarrow> AuthService \<Rightarrow> string \<Rightarrow> goerror + Principal" where
  "AuthenticateBearer e now sv token =
    (if has_prefix token sessionPrefix then sessionPrincipal now sv token
     else if has_prefix token tokenPrefix then tokenPrincipal e now sv token
     else fail DENIED ''invalid token'')"

definition AuthenticateSession :: "gtime \<Rightarrow> AuthService \<Rightarrow> string \<Rightarrow> string \<Rightarrow> bool \<Rightarrow> goerror + Principal" where
  "AuthenticateSession now sv sessionID csrf mutation =
    (case sessionPrincipal now sv sessionID of
       Inl err \<Rightarrow> Inl err
     | Inr p \<Rightarrow> if mutation \<and> csrf \<noteq> pr_CSRF p then fail DENIED ''csrf mismatch'' else Inr p)"

section \<open>What may they do? (rbac.go)\<close>

definition isControlPlaneWrite :: "string \<Rightarrow> bool" where
  "isControlPlaneWrite perm \<longleftrightarrow> perm \<in> set [''user.create'', ''user.update'', ''user.delete'', ''role.manage'', ''node.remove'',
     ''node.manage'', ''cluster.manage'', ''alert.manage'']"

definition isMutation :: "string \<Rightarrow> bool" where
  "isMutation perm \<longleftrightarrow> perm \<notin> set [''cluster.read'', ''node.read'', ''process.read'', ''process.config.read'',
     ''process.logs.read'', ''process.logs.download'', ''user.read'', ''role.read'', ''audit.read'', ''alert.read'']"

definition AllowOn :: "AuthService \<Rightarrow> Principal \<Rightarrow> string \<Rightarrow> CheckTargetArg \<Rightarrow> goerror option" where
  "AllowOn sv p perm t =
    (case sv_store sv of None \<Rightarrow> Some (E UNAVAILABLE ''auth store not ready'') | Some st \<Rightarrow>
       if \<not> CheckTarget (as_View st) (pr_UserID p) perm t then Some (E DENIED ''permission denied'') else None)"

definition Allow :: "AuthService \<Rightarrow> Principal \<Rightarrow> string \<Rightarrow> string \<Rightarrow> goerror option" where
  "Allow sv p perm targetNodeID = AllowOn sv p perm \<lparr>ct_NodeID = targetNodeID, ct_ProcessGroup = []\<rparr>"

definition AllowAny :: "AuthService \<Rightarrow> Principal \<Rightarrow> string \<Rightarrow> goerror option" where
  "AllowAny sv p perm =
    (case sv_store sv of None \<Rightarrow> Some (E UNAVAILABLE ''auth store not ready'') | Some st \<Rightarrow>
       if \<not> CanAny (as_View st) (pr_UserID p) perm then Some (E DENIED ''permission denied'') else None)"

definition AllowWriteOn :: "AuthService \<Rightarrow> Principal \<Rightarrow> string \<Rightarrow> CheckTargetArg \<Rightarrow> bool \<Rightarrow> goerror option" where
  "AllowWriteOn sv p perm t local =
    (case sv_store sv of None \<Rightarrow> Some (E UNAVAILABLE ''auth store not ready'') | Some st \<Rightarrow>
       if isControlPlaneWrite perm \<and> \<not> as_HasQuorum st then Some (E UNAVAILABLE ''control quorum lost'')
       else if \<not> local \<and> isMutation perm \<and> \<not> as_HasQuorum st \<and> \<not> as_CacheFresh st (RBACCacheTTL (as_View st))
         then Some (E DENIED ''rbac cache expired'')
       else AllowOn sv p perm t)"

definition AllowWrite :: "AuthService \<Rightarrow> Principal \<Rightarrow> string \<Rightarrow> string \<Rightarrow> bool \<Rightarrow> goerror option" where
  "AllowWrite sv p perm targetNodeID local = AllowWriteOn sv p perm \<lparr>ct_NodeID = targetNodeID, ct_ProcessGroup = []\<rparr> local"

section \<open>The login limiter\<close>

text \<open>
  The calls of one user at the times \<open>ts\<close>: the times that were allowed, and the hits at the end.
\<close>

definition allow_step :: "string \<Rightarrow> gtime \<Rightarrow> gtime list \<times> (string, gtime list) gomap \<Rightarrow> gtime list \<times> (string, gtime list) gomap" where
  "allow_step user now s =
    (case allow_login (snd s) user now of (ok, hits) \<Rightarrow> (if ok then fst s @ [now] else fst s, hits))"

definition limiter_ok :: "string \<Rightarrow> gtime \<Rightarrow> gtime list \<times> (string, gtime list) gomap \<Rightarrow> bool" where
  "limiter_ok user now s \<longleftrightarrow> (\<forall>u\<in>set (fst s). u \<le> now)
     \<and> (\<forall>w\<ge>now. filter (\<lambda>u. u > w - loginRateWindow) (mget_or [] (snd s) user) = filter (\<lambda>u. u > w - loginRateWindow) (fst s))
     \<and> (\<forall>t. length (filter (\<lambda>u. t - loginRateWindow < u \<and> u \<le> t) (fst s)) \<le> loginRateLimit)"

lemma filter_later: "w \<le> w' \<Longrightarrow> filter (\<lambda>u. u > w' - c) (filter (\<lambda>u. u > w - c) us) = filter (\<lambda>u. u > (w' :: int) - c) us"
  unfolding filter_filter by (rule filter_cong) auto

lemma limiter_step:
  assumes "limiter_ok user before s" and "before \<le> now"
  shows "limiter_ok user now (allow_step user now s)"
proof -
  obtain A hits where s: "s = (A, hits)" by fastforce
  let ?kept = "filter (\<lambda>u. u > now - loginRateWindow) (mget_or [] hits user)"
  have old: "\<forall>u\<in>set A. u \<le> now" and bound: "length (filter (\<lambda>u. t - loginRateWindow < u \<and> u \<le> t) A) \<le> loginRateLimit" for t
    using assms by (auto simp: limiter_ok_def s)
  have stored: "filter (\<lambda>u. u > w - loginRateWindow) (mget_or [] hits user) = filter (\<lambda>u. u > w - loginRateWindow) A" if "now \<le> w" for w
    using assms that by (simp add: limiter_ok_def s)
  then have kept: "?kept = filter (\<lambda>u. u > now - loginRateWindow) A" by simp
  have later: "filter (\<lambda>u. u > w - loginRateWindow) ?kept = filter (\<lambda>u. u > w - loginRateWindow) A" if "now \<le> w" for w
    unfolding filter_later [OF that] by (rule stored [OF that])
  show ?thesis
  proof (cases "length ?kept \<ge> loginRateLimit")
    case True
    then have "allow_step user now s = (A, mput user ?kept hits)" by (simp add: allow_step_def allow_login_def Let_def s)
    moreover have "mget_or [] (mput user ?kept hits) user = ?kept" by (simp add: mget_or_def)
    ultimately show ?thesis using old bound later unfolding limiter_ok_def by simp
  next
    case False
    then have r: "allow_step user now s = (A @ [now], mput user (?kept @ [now]) hits)"
      by (simp add: allow_step_def allow_login_def Let_def s)
    have "length (filter (\<lambda>u. t - loginRateWindow < u \<and> u \<le> t) (A @ [now])) \<le> loginRateLimit" for t
    proof (cases "t - loginRateWindow < now \<and> now \<le> t")
      case True
      have "length (filter (\<lambda>u. t - loginRateWindow < u \<and> u \<le> t) A)
          = length (filter (\<lambda>u. t - loginRateWindow < u \<and> u \<le> t) (filter (\<lambda>u. u > now - loginRateWindow) A))"
        unfolding filter_filter using True by (intro arg_cong [of _ _ length] filter_cong) auto
      also have "\<dots> \<le> length (filter (\<lambda>u. u > now - loginRateWindow) A)" by (rule length_filter_le)
      finally show ?thesis using False True by (simp add: kept)
    next
      case False
      then show ?thesis using bound [of t] by auto
    qed
    moreover have "mget_or [] (mput user (?kept @ [now]) hits) user = ?kept @ [now]" by (simp add: mget_or_def)
    moreover have "filter (\<lambda>u. u > w - loginRateWindow) (?kept @ [now]) = filter (\<lambda>u. u > w - loginRateWindow) (A @ [now])" if "now \<le> w" for w
      unfolding filter_append later [OF that] by (rule refl)
    ultimately show ?thesis using old unfolding limiter_ok_def r fst_conv snd_conv by (simp del: filter_append)
  qed
qed

lemma limiter_run:
  "sorted (t # ts) \<Longrightarrow> limiter_ok user t s \<Longrightarrow> \<exists>now. limiter_ok user now (fold (allow_step user) ts s)"
proof (induction ts arbitrary: t s)
  case (Cons now ts)
  then have "limiter_ok user now (allow_step user now s)" by (intro limiter_step [of user t]) simp_all
  moreover have "sorted (now # ts)" using Cons.prems(1) by simp
  ultimately show ?case using Cons.IH [of now "allow_step user now s"] by simp
qed auto

text \<open>At most five logins of a user are allowed in any minute, if the clock does not go back.\<close>

lemma limiter_window:
  assumes "sorted ts"
  shows "length (filter (\<lambda>u. t - loginRateWindow < u \<and> u \<le> t) (fst (fold (allow_step user) ts ([], [])))) \<le> loginRateLimit"
proof (cases ts)
  case (Cons now rest)
  have "limiter_ok user now ([], [])" by (simp add: limiter_ok_def mget_or_def)
  moreover have "sorted (now # ts)" using assms Cons by simp
  ultimately obtain w where "limiter_ok user w (fold (allow_step user) ts ([], []))" using limiter_run by blast
  then show ?thesis by (simp add: limiter_ok_def)
qed simp

section \<open>Logging in\<close>

text \<open>\<open>fsm_submit\<close> is a store whose commands reach the state machine at the leader's time \<open>t\<close>.\<close>

definition fsm_submit :: "env \<Rightarrow> gtime \<Rightarrow> submit" where
  "fsm_submit e t c s = Apply e t c s"

lemma login_succeeded:
  assumes "LoginWithTTL cr submit now rs rc username password ttl0 sv = (Inr (sid, csrf, i, ex), sv')"
  obtains st u ttl sv1 where "sv_store sv = Some st" and "mget (Users (as_View st)) username = Some u" and "i = u_ID u"
    and "cr_VerifyPassword cr (u_PasswordHash u) password" and "u_Status u \<noteq> UserDisabled"
    and "u_Status u = UserLocked \<Longrightarrow> time_Unix (u_LockedUntilUnix u) \<le> now"
    and "resolveTTL ttl0 = Inr ttl" and "ex = now + ttl" and "fst (allow_login (sv_hits sv) username now)"
    and "apply_cmd submit (UserCmd (CmdLoginOK \<lparr>lok_Username = username\<rparr>))
      (sv\<lparr>sv_hits := snd (allow_login (sv_hits sv) username now)\<rparr>) = (None, sv1)"
    and "apply_cmd submit (UserCmd (CmdSessionPut \<lparr>spb_ID = sid, spb_UserID = i, spb_CSRF = csrf, spb_ExpiresUnix = Unix ex\<rparr>)) sv1
      = (None, sv')"
    and "sid \<noteq> []"
  using assms that
  by (auto simp: LoginWithTTL_def Let_def sessionPrefix_def not_less split: if_splits sum.splits prod.splits option.splits)

lemma resolveTTL_pos: "resolveTTL ttl0 = Inr ttl \<Longrightarrow> 0 < ttl \<and> ttl \<le> MaxSessionTTL"
  by (auto simp: resolveTTL_def SessionTTL_def MaxSessionTTL_def split: if_splits)

text \<open>
  A login gives a session that works: until it expires, the answered session identifier with the answered CSRF token
  authenticates the user, whatever the request. The leader's clock must not lag behind the clock of the agent, or
  the lock of an account may be over for one and not for the other.
\<close>

lemma login_session_works:
  assumes "LoginWithTTL cr (fsm_submit e t) now rs rc username password ttl0 sv = (Inr (sid, csrf, i, ex), sv')"
    and "now \<le> t" and "\<And>st. sv_store sv = Some st \<Longrightarrow> names_ok (as_View st) \<and> ensured (as_View st)
      \<and> (\<forall>u. mget (Users (as_View st)) username = Some u \<longrightarrow> mget (UsersByID (as_View st)) (u_ID u) = Some username)"
    and "0 \<le> later" and "Unix later < Unix ex"
  shows "\<exists>p. AuthenticateSession later sv' sid csrf m = Inr p \<and> pr_UserID p = i \<and> pr_Username p = username \<and> pr_SessionID p = sid"
  using assms(1)
proof (rule login_succeeded)
  fix st u ttl sv1
  assume h: "sv_store sv = Some st" "mget (Users (as_View st)) username = Some u" "i = u_ID u" "u_Status u \<noteq> UserDisabled"
    "u_Status u = UserLocked \<Longrightarrow> time_Unix (u_LockedUntilUnix u) \<le> now" "resolveTTL ttl0 = Inr ttl" "ex = now + ttl"
    and ok: "apply_cmd (fsm_submit e t) (UserCmd (CmdLoginOK \<lparr>lok_Username = username\<rparr>))
      (sv\<lparr>sv_hits := snd (allow_login (sv_hits sv) username now)\<rparr>) = (None, sv1)"
    and put: "apply_cmd (fsm_submit e t)
      (UserCmd (CmdSessionPut \<lparr>spb_ID = sid, spb_UserID = i, spb_CSRF = csrf, spb_ExpiresUnix = Unix ex\<rparr>)) sv1 = (None, sv')"
    and sid: "sid \<noteq> []"
  let ?s = "as_View st"
  have inv: "names_ok ?s" "ensured ?s" "mget (UsersByID ?s) i = Some username" using assms(3) [OF h(1)] h(2,3) by simp_all
  define v where "v = (if u_Status u = UserLocked then u\<lparr>u_FailCount := 0, u_Status := UserActive, u_LockedUntilUnix := 0,
      u_LastLoginUnix := Unix t\<rparr> else u\<lparr>u_FailCount := 0, u_LastLoginUnix := Unix t\<rparr>)"
  have active: "u_Status v = UserActive" "u_ID v = i" "u_Username v = username"
    using h(3,4) names_okD [OF inv(1) h(2)] by (cases "u_Status u"; simp add: v_def)+
  have unlocked: "u_Status u = UserLocked \<Longrightarrow> \<not> t < time_Unix (u_LockedUntilUnix u)" using h(5) assms(2) by simp
  define s1 where "s1 = ?s\<lparr>Users := mput username v (Users ?s)\<rparr>"
  have "Apply e t (UserCmd (CmdLoginOK \<lparr>lok_Username = username\<rparr>)) ?s = (s1, None)"
    using unlocked h(2) by (simp add: Apply_def ensured_ensure [OF inv(2)] applyLoginOK_def Let_def s1_def v_def)
  then have sv1: "sv_store sv1 = Some (st\<lparr>as_View := s1\<rparr>)"
    using ok h(1) by (auto simp: apply_cmd_def fsm_submit_def set_view_def)
  have e1: "ensure s1 = s1" using inv(2) by (intro ensured_ensure) (simp add: s1_def ensured_def)
  have pos: "0 < Unix ex" using assms(4,5) by (simp add: Unix_def)
  define s2 where "s2 = s1\<lparr>Sessions := mput sid \<lparr>se_ID = sid, se_UserID = i, se_CSRF = csrf, se_ExpiresUnix = Unix ex\<rparr> (Sessions s1)\<rparr>"
  have "Apply e t (UserCmd (CmdSessionPut \<lparr>spb_ID = sid, spb_UserID = i, spb_CSRF = csrf, spb_ExpiresUnix = Unix ex\<rparr>)) s1 = (s2, None)"
    using pos sid by (simp add: Apply_def e1 applySessionPut_def Let_def s2_def)
  then have sv': "sv_store sv' = Some (st\<lparr>as_View := s2\<rparr>)"
    using put sv1 by (auto simp: apply_cmd_def fsm_submit_def set_view_def)
  have "userByID s2 i = Some v" using inv(3) by (simp add: userByID_Some s2_def s1_def)
  then have "active_user s2 i = Some v" using active(1) by (simp add: active_user_def)
  moreover have "mget (Sessions s2) sid = Some \<lparr>se_ID = sid, se_UserID = i, se_CSRF = csrf, se_ExpiresUnix = Unix ex\<rparr>"
    by (simp add: s2_def)
  moreover have "\<not> expired_at (Unix ex) later" using assms(5) by (simp add: expired_at_def before_time_Unix)
  ultimately show ?thesis using active by (simp add: AuthenticateSession_def sessionPrincipal_def sv')
qed

section \<open>A disabled user cannot get in\<close>

lemma active_not_disabled: "disabled_in st i \<Longrightarrow> active_user st j = Some u \<Longrightarrow> ids_ok st \<Longrightarrow> u_ID u \<noteq> i"
  by (auto simp: active_user_def disabled_in_iff userByID_Some dest: ids_okD split: option.splits if_splits)

text \<open>Whatever is presented, the principal of an authentication is an active user.\<close>

lemma authenticated_active:
  assumes "sv_store sv = Some st"
  shows "AuthenticateSession now sv sid csrf m = Inr p \<Longrightarrow> \<exists>j u. active_user (as_View st) j = Some u \<and> pr_UserID p = u_ID u"
    and "AuthenticateTokenID now sv tid = Inr p \<Longrightarrow> \<exists>j u. active_user (as_View st) j = Some u \<and> pr_UserID p = u_ID u"
    and "AuthenticateBearer e now sv tok = Inr p \<Longrightarrow> \<exists>j u. active_user (as_View st) j = Some u \<and> pr_UserID p = u_ID u"
proof -
  have sess: "sessionPrincipal now sv s = Inr p \<Longrightarrow> \<exists>j u. active_user (as_View st) j = Some u \<and> pr_UserID p = u_ID u" for s p
    using assms by (fastforce simp: sessionPrincipal_def split: option.splits if_splits)
  have tok: "principalFromToken now (as_View st) t = Inr p \<Longrightarrow> \<exists>j u. active_user (as_View st) j = Some u \<and> pr_UserID p = u_ID u" for t p
    by (fastforce simp: principalFromToken_def split: option.splits if_splits)
  show "AuthenticateSession now sv sid csrf m = Inr p \<Longrightarrow> \<exists>j u. active_user (as_View st) j = Some u \<and> pr_UserID p = u_ID u"
    using sess by (auto simp: AuthenticateSession_def split: sum.splits if_splits)
  show "AuthenticateTokenID now sv tid = Inr p \<Longrightarrow> \<exists>j u. active_user (as_View st) j = Some u \<and> pr_UserID p = u_ID u"
    using tok assms by (auto simp: AuthenticateTokenID_def split: option.splits if_splits)
  show "AuthenticateBearer e now sv tok = Inr p \<Longrightarrow> \<exists>j u. active_user (as_View st) j = Some u \<and> pr_UserID p = u_ID u"
    using tok sess assms by (auto simp: AuthenticateBearer_def tokenPrincipal_def split: option.splits if_splits)
qed

text \<open>After a user is disabled, no log without an enable lets a session or token of the user in again.\<close>

lemma disabled_user_locked_out:
  assumes "ensured s" and "bootstrapped s" and "disabled_in s i" and "list_all (no_enable i) ls"
    and "sv_store sv = Some st" and "as_View st = replay ls s"
  shows "AuthenticateSession now sv sid csrf m = Inr p \<Longrightarrow> pr_UserID p \<noteq> i"
    and "AuthenticateTokenID now sv tid = Inr p \<Longrightarrow> pr_UserID p \<noteq> i"
    and "AuthenticateBearer e now sv tok = Inr p \<Longrightarrow> pr_UserID p \<noteq> i"
proof -
  have d: "disabled_in (as_View st) i" using disabled_replay [OF assms(1-4)] assms(6) by simp
  have "bootstrapped (replay ls s)"
    using assms(1,2)
  proof (induction ls arbitrary: s)
    case (Cons l ls)
    then show ?case using FSM_Apply_ensured bootstrapped_step by simp
  qed simp
  then have ids: "ids_ok (as_View st)" using assms(6) by (simp add: bootstrapped_def)
  show "AuthenticateSession now sv sid csrf m = Inr p \<Longrightarrow> pr_UserID p \<noteq> i"
    "AuthenticateTokenID now sv tid = Inr p \<Longrightarrow> pr_UserID p \<noteq> i" "AuthenticateBearer e now sv tok = Inr p \<Longrightarrow> pr_UserID p \<noteq> i"
    using authenticated_active [OF assms(5)] active_not_disabled [OF d _ ids] by metis+
qed

text \<open>A changing request over a session needs its CSRF token; without a quorum nothing of the control plane is written.\<close>

lemma csrf_needed: "AuthenticateSession now sv sid csrf True = Inr p \<Longrightarrow> csrf = pr_CSRF p"
  by (auto simp: AuthenticateSession_def split: sum.splits if_splits)

lemma no_quorum_no_write:
  "sv_store sv = Some st \<Longrightarrow> \<not> as_HasQuorum st \<Longrightarrow> isControlPlaneWrite perm \<Longrightarrow> AllowWriteOn sv p perm t local \<noteq> None"
  by (simp add: AllowWriteOn_def)

lemma write_needs_permission:
  "AllowWriteOn sv p perm t local = None \<Longrightarrow> \<exists>st. sv_store sv = Some st \<and> CheckTarget (as_View st) (pr_UserID p) perm t"
  by (auto simp: AllowWriteOn_def AllowOn_def split: option.splits if_splits)

end
