(* ===== verification/Batch_Store.thy ===== *)
theory Batch_Store imports Auth_Service Effects
begin

text \<open>
  Batches of process operations: the data of \<^verbatim>\<open>internal/batch/types.go\<close> and the two tables of
  \<^verbatim>\<open>internal/store/batch.go\<close>. A row holds the decoded selector and summary instead of their JSON text, and the rows of
  \<^verbatim>\<open>batch_targets\<close> are keyed by batch and operation as their primary key is. A function of the store commits or returns
  an error and leaves the tables as they are; errors of the database itself are added by the caller.
\<close>

section \<open>Data\<close>

datatype BatchType = BatchStart | BatchStop | BatchRestart | BatchConfigUpdate | BatchOther string

datatype BatchStatus = BatchPending | BatchRunning | BatchCompleted | BatchPartial | BatchFailed

text \<open>\<open>TargetUnset\<close> is the empty string, which an expander leaves for a target that is to run.\<close>

datatype TargetStatus =
    TargetUnset | TargetPending | TargetRunning | TargetSuccess | TargetFailed | TargetTimeout | TargetDenied
  | TargetConflict | TargetUnavailable | TargetInvalid

record ProcessNameRef =
  nr_NodeID :: string
  nr_ProcessName :: string

record BatchSelector =
  sl_ProcessIDs :: "string list"
  sl_ProcessNames :: "ProcessNameRef list"
  sl_AgentGroupID :: string
  sl_ProcessGroup :: string

record Summary =
  sm_Success :: int
  sm_Failed :: int
  sm_Timeout :: int
  sm_Denied :: int
  sm_Conflict :: int
  sm_Unavailable :: int
  sm_Invalid :: int

record Target =
  tg_OperationID :: string
  tg_NodeID :: string
  tg_ProcessID :: string
  tg_ProcessName :: string
  tg_Status :: TargetStatus
  tg_Error :: string
  tg_ExpectedRevision :: int
  tg_PayloadJSON :: string
  tg_StartedAt :: gtime
  tg_FinishedAt :: gtime

record BatchRecord =
  br_BatchID :: string
  br_Operator :: string
  br_SourceAgent :: string
  br_Type :: BatchType
  br_Selector :: BatchSelector
  br_CreatedAt :: gtime
  br_Status :: BatchStatus
  br_Summary :: Summary

record Batch =
  ba_Record :: BatchRecord
  ba_Targets :: "Target list"

definition zero_target :: Target where
  "zero_target = \<lparr>tg_OperationID = [], tg_NodeID = [], tg_ProcessID = [], tg_ProcessName = [], tg_Status = TargetUnset,
     tg_Error = [], tg_ExpectedRevision = 0, tg_PayloadJSON = [], tg_StartedAt = time_zero, tg_FinishedAt = time_zero\<rparr>"

section \<open>Status and summary of a batch (types.go)\<close>

definition incomplete :: "TargetStatus \<Rightarrow> bool" where
  "incomplete st \<longleftrightarrow> st = TargetPending \<or> st = TargetRunning"

definition status_count :: "TargetStatus \<Rightarrow> Target list \<Rightarrow> int" where
  "status_count st targets = int (length (filter (\<lambda>t. tg_Status t = st) targets))"

definition Rollup :: "Target list \<Rightarrow> BatchStatus" where
  "Rollup targets =
    (if list_ex (\<lambda>t. incomplete (tg_Status t)) targets then BatchRunning
     else let success = status_count TargetSuccess targets; timeout = status_count TargetTimeout targets in
       if success = int (length targets) then BatchCompleted
       else if success = 0 \<and> timeout = 0 then BatchFailed
       else BatchPartial)"

definition CountSummary :: "Target list \<Rightarrow> Summary" where
  "CountSummary targets =
    \<lparr>sm_Success = status_count TargetSuccess targets, sm_Failed = status_count TargetFailed targets,
     sm_Timeout = status_count TargetTimeout targets, sm_Denied = status_count TargetDenied targets,
     sm_Conflict = status_count TargetConflict targets, sm_Unavailable = status_count TargetUnavailable targets,
     sm_Invalid = status_count TargetInvalid targets\<rparr>"

definition isTerminalTarget :: "TargetStatus \<Rightarrow> bool" where
  "isTerminalTarget st \<longleftrightarrow> st \<in> {TargetSuccess, TargetFailed, TargetTimeout, TargetDenied, TargetConflict, TargetUnavailable, TargetInvalid}"

definition isRetryableTarget :: "TargetStatus \<Rightarrow> bool" where
  "isRetryableTarget st \<longleftrightarrow> st \<in> {TargetFailed, TargetDenied, TargetConflict, TargetUnavailable, TargetInvalid}"

lemma terminal_not_incomplete: "isTerminalTarget st \<Longrightarrow> \<not> incomplete st"
  by (auto simp: isTerminalTarget_def incomplete_def)

lemma status_count_all: "status_count st ts = int (length ts) \<longleftrightarrow> (\<forall>t\<in>set ts. tg_Status t = st)"
proof -
  have "length (filter P ts) = length ts \<longleftrightarrow> (\<forall>t\<in>set ts. P t)" for P
  proof (induction ts)
    case (Cons t ts)
    have "length (filter P ts) \<noteq> Suc (length ts)" using length_filter_le [of P ts] by linarith
    with Cons show ?case by (cases "P t") auto
  qed simp
  then show ?thesis by (simp add: status_count_def)
qed

lemma status_count_none: "status_count st ts = 0 \<longleftrightarrow> (\<forall>t\<in>set ts. tg_Status t \<noteq> st)"
  by (simp add: status_count_def filter_empty_conv)

text \<open>The status of a batch, in words.\<close>

lemma Rollup_running: "Rollup ts = BatchRunning \<longleftrightarrow> (\<exists>t\<in>set ts. incomplete (tg_Status t))"
  by (auto simp: Rollup_def Let_def list_ex_iff)

lemma Rollup_completed: "Rollup ts = BatchCompleted \<longleftrightarrow> (\<forall>t\<in>set ts. tg_Status t = TargetSuccess)"
  by (auto simp: Rollup_def Let_def list_ex_iff status_count_all incomplete_def)

lemma Rollup_failed:
  "Rollup ts = BatchFailed \<longleftrightarrow> ts \<noteq> [] \<and> (\<forall>t\<in>set ts. \<not> incomplete (tg_Status t) \<and> tg_Status t \<noteq> TargetSuccess \<and> tg_Status t \<noteq> TargetTimeout)"
proof (cases "\<exists>t\<in>set ts. incomplete (tg_Status t)")
  case True
  then have "Rollup ts = BatchRunning" by (simp add: Rollup_running)
  with True show ?thesis by auto
next
  case False
  then have r: "Rollup ts = (if \<forall>t\<in>set ts. tg_Status t = TargetSuccess then BatchCompleted
      else if (\<forall>t\<in>set ts. tg_Status t \<noteq> TargetSuccess) \<and> (\<forall>t\<in>set ts. tg_Status t \<noteq> TargetTimeout) then BatchFailed
      else BatchPartial)"
    by (simp add: Rollup_def Let_def list_ex_iff status_count_all status_count_none)
  show ?thesis
  proof (cases ts)
    case (Cons t rest)
    show ?thesis unfolding r using False Cons by auto
  qed (simp add: Rollup_def Let_def status_count_def)
qed

lemma Rollup_not_pending [simp]: "Rollup ts \<noteq> BatchPending"
  by (simp add: Rollup_def Let_def)

section \<open>The tables (store/batch.go)\<close>

record BatchDB =
  bd_batches :: "(string, BatchRecord) gomap"
  bd_targets :: "(string \<times> string, Target) gomap"

fun insert_targets :: "string \<Rightarrow> Target list \<Rightarrow> BatchDB \<Rightarrow> goerror + BatchDB" where
  "insert_targets b [] db = Inr db"
| "insert_targets b (t # ts) db =
    (if mhas (bd_targets db) (b, tg_OperationID t) then fail CONFLICT ''batch_target''
     else insert_targets b ts (db\<lparr>bd_targets := mput (b, tg_OperationID t) t (bd_targets db)\<rparr>))"

definition InsertBatch :: "BatchRecord \<Rightarrow> Target list \<Rightarrow> BatchDB \<Rightarrow> goerror + BatchDB" where
  "InsertBatch r targets db =
    (if mhas (bd_batches db) (br_BatchID r) then fail CONFLICT ''batch_id''
     else insert_targets (br_BatchID r) targets (db\<lparr>bd_batches := mput (br_BatchID r) r (bd_batches db)\<rparr>))"

definition batch_rows :: "string \<Rightarrow> BatchDB \<Rightarrow> Target list" where
  "batch_rows b db = sort_key tg_OperationID (mvals (mfilter (\<lambda>k _. fst k = b) (bd_targets db)))"

definition GetBatch :: "string \<Rightarrow> BatchDB \<Rightarrow> goerror + (BatchRecord \<times> Target list)" where
  "GetBatch b db =
    (case mget (bd_batches db) b of None \<Rightarrow> fail NOT_FOUND ''batch'' | Some r \<Rightarrow> Inr (r, batch_rows b db))"

definition UpdateBatchStatus :: "string \<Rightarrow> BatchStatus \<Rightarrow> Summary \<Rightarrow> BatchDB \<Rightarrow> goerror + BatchDB" where
  "UpdateBatchStatus b st sm db =
    (case mget (bd_batches db) b of None \<Rightarrow> fail NOT_FOUND ''batch''
     | Some r \<Rightarrow> Inr (db\<lparr>bd_batches := mput b (r\<lparr>br_Status := st, br_Summary := sm\<rparr>) (bd_batches db)\<rparr>))"

text \<open>The key columns are those of the condition; all others are replaced.\<close>

definition UpdateTarget :: "string \<Rightarrow> string \<Rightarrow> Target \<Rightarrow> BatchDB \<Rightarrow> goerror + BatchDB" where
  "UpdateTarget b opID t db =
    (if mhas (bd_targets db) (b, opID)
     then Inr (db\<lparr>bd_targets := mput (b, opID) (t\<lparr>tg_OperationID := opID\<rparr>) (bd_targets db)\<rparr>)
     else fail NOT_FOUND ''batch_target'')"

definition ReplaceTargetOp :: "string \<Rightarrow> string \<Rightarrow> Target \<Rightarrow> BatchDB \<Rightarrow> goerror + BatchDB" where
  "ReplaceTargetOp b oldOp t db =
    (if \<not> mhas (bd_targets db) (b, oldOp) then fail NOT_FOUND ''batch_target''
     else let rest = mdel (b, oldOp) (bd_targets db) in
       if mhas rest (b, tg_OperationID t) then fail CONFLICT ''batch_target''
       else Inr (db\<lparr>bd_targets := mput (b, tg_OperationID t) t rest\<rparr>))"

text \<open>The batches of the targets that are still to be run, in the order of the rows.\<close>

definition ListIncompleteTargets :: "BatchDB \<Rightarrow> ((string \<times> string) \<times> Target) list" where
  "ListIncompleteTargets db =
    sort_key (\<lambda>(k, _). fst k) (sort_key (\<lambda>(k, _). snd k) (filter (\<lambda>(_, t). incomplete (tg_Status t)) (bd_targets db)))"

text \<open>
  Times are stored and ordered as texts in the format \<^verbatim>\<open>time.RFC3339Nano\<close>: the date up to the second (the parameter
  \<open>second_text\<close>), the fraction without its trailing zeros, and the letter of UTC.
\<close>

definition digit_char :: "nat \<Rightarrow> char" where
  "digit_char n = ''0123456789'' ! n"

definition nine_digits :: "nat \<Rightarrow> string" where
  "nine_digits n = map (\<lambda>i. digit_char (n div 10 ^ i mod 10)) [8, 7, 6, 5, 4, 3, 2, 1, 0]"

definition fraction_text :: "nat \<Rightarrow> string" where
  "fraction_text n = (if n = 0 then [] else ''.'' @ rev (dropWhile (\<lambda>c. c = CHR ''0'') (rev (nine_digits n))))"

definition rfc3339 :: "(int \<Rightarrow> string) \<Rightarrow> gtime \<Rightarrow> string" where
  "rfc3339 second_text t = second_text (Unix t) @ fraction_text (nat (t mod nanos)) @ ''Z''"

definition ListBatches :: "(int \<Rightarrow> string) \<Rightarrow> int \<Rightarrow> BatchDB \<Rightarrow> BatchRecord list" where
  "ListBatches second_text limit db =
    (let sorted = rev (sort_key (\<lambda>r. rfc3339 second_text (br_CreatedAt r)) (sort_key br_BatchID (mvals (bd_batches db))))
     in if limit > 0 then take (nat limit) sorted else sorted)"

text \<open>
  The text order is not the order of time: half a second past sorts after a little more than half a second past, so
  the list is not always newest first.
\<close>

lemma text_order_is_not_time_order:
  "rfc3339 f (time_Unix s + 500000000) > rfc3339 f (time_Unix s + 510000000)"
proof -
  have u: "Unix (time_Unix s + d) = s" "(time_Unix s + d) mod nanos = d" if "0 \<le> d" "d < nanos" for d
    using that by (simp_all add: Unix_def time_Unix_def)
  have f5: "fraction_text 500000000 = ''.5''"
    by (simp add: fraction_text_def nine_digits_def digit_char_def)
  have f51: "fraction_text 510000000 = ''.51''"
    by (simp add: fraction_text_def nine_digits_def digit_char_def)
  have less: "(''.51Z'' :: string) < ''.5Z''" by (simp add: less_char_def)
  have pre: "w @ x < w @ y" if "x < y" for w x y :: string using that by (induction w) auto
  show ?thesis
    unfolding rfc3339_def using u [of 500000000] u [of 510000000] by (simp add: f5 f51 pre less)
qed

end
