(* ===== verification/Batch_Engine.thy ===== *)
theory Batch_Engine imports Batch_Store
begin

text \<open>
  The engine of batches (\<^verbatim>\<open>internal/batch/engine.go\<close>): its operations, and its worker as events. The worker takes one
  batch at a time from the queue; each target of the batch is a goroutine that waits for a slot, marks its target as
  running, executes and records the result. A sequence of events is one interleaving of the worker, its goroutines, the
  calls of clients and restarts of the agent.
  \<^item> Identifiers are those of a generator: the \<open>n\<close>th call of \<^verbatim>\<open>NewID\<close> gives \<open>bx_newid n\<close>.
  \<^item> The \<open>n\<close>th call of the database fails with \<open>bx_fault n\<close>, if there is an error; the tables are then unchanged.
  \<^item> A client's call is one event, so no step of the worker falls between its reads and its writes.
  \<^item> The order in which waiting identifiers leave the queue is that of their arrival; more than 128 of them may be
    taken in another order, which no theorem depends on, as a batch is judged by its row when it is taken.
\<close>

section \<open>State\<close>

record BatchEnv =
  bx_newid :: "nat \<Rightarrow> string"
  bx_fault :: "nat \<Rightarrow> goerror option"
  bx_source :: string
  bx_concurrency :: int
  bx_deadline :: "goerror \<Rightarrow> bool"

text \<open>The batch that the worker runs: its targets that wait for a slot, those that execute, and the result to be written.\<close>

record BatchRun =
  rn_ID :: string
  rn_Type :: BatchType
  rn_Todo :: "Target list"
  rn_Inflight :: "Target list"
  rn_Outcome :: "(BatchStatus \<times> Summary) option"

record Engine =
  be_db :: BatchDB
  be_calls :: nat
  be_ids :: nat
  be_started :: bool
  be_jobs :: "string list"
  be_idents :: "(string, Principal) gomap"
  be_run :: "BatchRun option"

type_synonym 'a bact = "(Engine, 'a) act"

definition db_read :: "BatchEnv \<Rightarrow> (BatchDB \<Rightarrow> goerror + 'a) \<Rightarrow> 'a bact" where
  "db_read x f = State (\<lambda>s. (case bx_fault x (be_calls s) of Some e \<Rightarrow> Inl e | None \<Rightarrow> f (be_db s), s\<lparr>be_calls := Suc (be_calls s)\<rparr>))"

definition db_write :: "BatchEnv \<Rightarrow> (BatchDB \<Rightarrow> goerror + BatchDB) \<Rightarrow> unit bact" where
  "db_write x f = State (\<lambda>s. let s' = s\<lparr>be_calls := Suc (be_calls s)\<rparr> in
     case bx_fault x (be_calls s) of Some e \<Rightarrow> (Inl e, s')
     | None \<Rightarrow> (case f (be_db s) of Inl e \<Rightarrow> (Inl e, s') | Inr db \<Rightarrow> (Inr (), s'\<lparr>be_db := db\<rparr>)))"

definition NewID :: "BatchEnv \<Rightarrow> (Engine, string) state" where
  "NewID x = State (\<lambda>s. (bx_newid x (be_ids s), s\<lparr>be_ids := Suc (be_ids s)\<rparr>))"

section \<open>Operations of clients\<close>

definition validType :: "BatchType \<Rightarrow> bool" where
  "validType typ0 \<longleftrightarrow> typ0 \<in> {BatchStart, BatchStop, BatchRestart, BatchConfigUpdate}"

definition selectorEmpty :: "BatchSelector \<Rightarrow> bool" where
  "selectorEmpty sel \<longleftrightarrow> sl_ProcessIDs sel = [] \<and> sl_ProcessNames sel = [] \<and> sl_AgentGroupID sel = [] \<and> sl_ProcessGroup sel = []"

definition filterNonZeroTargets :: "Target list \<Rightarrow> Target list" where
  "filterNonZeroTargets ts = filter (\<lambda>t. t \<noteq> zero_target) ts"

definition enqueue :: "string \<Rightarrow> (Engine, unit) state" where
  "enqueue b = modify (\<lambda>s. if be_started s then s\<lparr>be_jobs := be_jobs s @ [b]\<rparr> else s)"

text \<open>The callback that the API installs: the caller's identity is kept for the executions of its targets.\<close>

definition bindTargets :: "Principal option \<Rightarrow> Target list \<Rightarrow> (Engine, unit) state" where
  "bindTargets p ts = modify (\<lambda>s. case p of None \<Rightarrow> s
     | Some pr \<Rightarrow> s\<lparr>be_idents := fold (\<lambda>t m. if tg_OperationID t \<noteq> [] then mput (tg_OperationID t) pr m else m) ts (be_idents s)\<rparr>)"

definition GetB :: "BatchEnv \<Rightarrow> string \<Rightarrow> Batch bact" where
  "GetB x b = andthen (db_read x (GetBatch b)) (\<lambda>(r, ts). ok \<lparr>ba_Record = r, ba_Targets = ts\<rparr>)"

fun assign_ids :: "BatchEnv \<Rightarrow> Target list \<Rightarrow> (Engine, Target list) state" where
  "assign_ids x [] = ret []"
| "assign_ids x (t # ts) = do {
     op \<leftarrow> (if tg_OperationID t = [] then NewID x else ret (tg_OperationID t));
     rest \<leftarrow> assign_ids x ts;
     ret (t\<lparr>tg_OperationID := op, tg_Status := (if tg_Status t = TargetUnset then TargetPending else tg_Status t)\<rparr> # rest) }"

type_synonym expander = "BatchSelector \<Rightarrow> BatchType \<Rightarrow> goerror + Target list"

definition CreateWithExpand ::
    "BatchEnv \<Rightarrow> Principal option \<Rightarrow> gtime \<Rightarrow> string \<Rightarrow> BatchType \<Rightarrow> BatchSelector \<Rightarrow> expander option \<Rightarrow> Batch bact" where
  "CreateWithExpand x p now operator typ0 sel expand =
    (if TrimSpace operator = [] then throw (E INVALID ''operator'')
     else if \<not> validType typ0 then throw (E INVALID ''type'')
     else if selectorEmpty sel then throw (E INVALID ''selector'')
     else case expand of None \<Rightarrow> throw (E INVALID ''expander'') | Some f \<Rightarrow>
      (case f sel typ0 of Inl err \<Rightarrow> throw err | Inr raw \<Rightarrow>
        (let targets = filterNonZeroTargets raw in
         if targets = [] then throw (E INVALID ''targets'')
         else do {
           b \<leftarrow> NewID x;
           ts \<leftarrow> assign_ids x targets;
           andthen (db_write x (InsertBatch \<lparr>br_BatchID = b, br_Operator = operator, br_SourceAgent = bx_source x, br_Type = typ0,
               br_Selector = sel, br_CreatedAt = now, br_Status = BatchPending, br_Summary = CountSummary ts\<rparr> ts))
             (\<lambda>_. do { bindTargets p ts; enqueue b; GetB x b }) })))"

definition requeueBatch :: "BatchEnv \<Rightarrow> string \<Rightarrow> Batch bact" where
  "requeueBatch x b =
    andthen (GetB x b) (\<lambda>ba. andthen (db_write x (UpdateBatchStatus b BatchRunning (CountSummary (ba_Targets ba))))
      (\<lambda>_. do { enqueue b; GetB x b }))"

definition reset_target :: "string \<Rightarrow> Target \<Rightarrow> Target" where
  "reset_target opID t = t\<lparr>tg_OperationID := opID, tg_Status := TargetPending, tg_Error := [],
     tg_StartedAt := time_zero, tg_FinishedAt := time_zero\<rparr>"

fun remint :: "BatchEnv \<Rightarrow> string \<Rightarrow> Target list \<Rightarrow> Target list bact" where
  "remint x b [] = ok []"
| "remint x b (t # ts) =
    (if \<not> isRetryableTarget (tg_Status t) then remint x b ts
     else do {
       newOp \<leftarrow> NewID x;
       andthen (db_write x (ReplaceTargetOp b (tg_OperationID t) (reset_target newOp t)))
         (\<lambda>_. andthen (remint x b ts) (\<lambda>rest. ok (reset_target newOp t # rest))) })"

definition RetryFailed :: "BatchEnv \<Rightarrow> Principal option \<Rightarrow> string \<Rightarrow> Batch bact" where
  "RetryFailed x p b =
    andthen (GetB x b) (\<lambda>ba. andthen (remint x b (ba_Targets ba)) (\<lambda>reminted.
      if reminted = [] then throw (E INVALID ''nothing to retry'')
      else do { bindTargets p reminted; requeueBatch x b }))"

fun replay_targets :: "BatchEnv \<Rightarrow> string \<Rightarrow> Target list \<Rightarrow> Target list bact" where
  "replay_targets x b [] = ok []"
| "replay_targets x b (t # ts) =
    (if tg_Status t \<noteq> TargetTimeout then replay_targets x b ts
     else andthen (db_write x (UpdateTarget b (tg_OperationID t) (reset_target (tg_OperationID t) t)))
       (\<lambda>_. andthen (replay_targets x b ts) (\<lambda>rest. ok (reset_target (tg_OperationID t) t # rest))))"

definition ReplayTimeout :: "BatchEnv \<Rightarrow> Principal option \<Rightarrow> string \<Rightarrow> Batch bact" where
  "ReplayTimeout x p b =
    andthen (GetB x b) (\<lambda>ba. andthen (replay_targets x b (ba_Targets ba)) (\<lambda>replayed.
      if replayed = [] then throw (E INVALID ''nothing to replay'')
      else do { bindTargets p replayed; requeueBatch x b }))"

text \<open>\<^verbatim>\<open>Resume\<close>: every batch with an incomplete target once, in the order of the rows.\<close>

definition Resume :: "BatchEnv \<Rightarrow> unit bact" where
  "Resume x = andthen (db_read x (\<lambda>db. Inr (ListIncompleteTargets db))) (\<lambda>rows.
     every (\<lambda>b. do { enqueue b; ok () }) (remdups_adj (map (fst \<circ> fst) rows)))"

section \<open>The worker\<close>

definition MapExecError :: "(goerror \<Rightarrow> bool) \<Rightarrow> goerror option \<Rightarrow> TargetStatus" where
  "MapExecError is_deadline err =
    (case err of None \<Rightarrow> TargetSuccess
     | Some e \<Rightarrow>
        if err_is e TIMEOUT \<or> is_deadline e then TargetTimeout
        else if err_is e DENIED then TargetDenied
        else if err_is e CONFLICT then TargetConflict
        else if err_is e INVALID then TargetInvalid
        else if err_is e UNAVAILABLE then TargetUnavailable
        else TargetFailed)"

definition defaultConcurrency :: int where "defaultConcurrency = 16"
definition maxConcurrency :: int where "maxConcurrency = 64"

definition slots :: "BatchEnv \<Rightarrow> nat" where
  "slots x = nat (let conc = (if bx_concurrency x \<le> 0 then defaultConcurrency else bx_concurrency x)
                  in if conc > maxConcurrency then maxConcurrency else conc)"

definition terminal_batch :: "BatchStatus \<Rightarrow> bool" where
  "terminal_batch st \<longleftrightarrow> st \<in> {BatchCompleted, BatchPartial, BatchFailed}"

text \<open>\<^verbatim>\<open>runBatch\<close> up to the start of the goroutines, one for each target that is not terminal.\<close>

definition run_start :: "BatchEnv \<Rightarrow> string \<Rightarrow> unit bact" where
  "run_start x b =
    andthen (GetB x b) (\<lambda>ba.
      if terminal_batch (br_Status (ba_Record ba)) then ok ()
      else andthen (db_write x (UpdateBatchStatus b BatchRunning (br_Summary (ba_Record ba)))) (\<lambda>_. do {
        modify (\<lambda>s. s\<lparr>be_run := Some \<lparr>rn_ID = b, rn_Type = br_Type (ba_Record ba),
          rn_Todo = filter (\<lambda>t. \<not> isTerminalTarget (tg_Status t) \<and> incomplete (tg_Status t)) (ba_Targets ba),
          rn_Inflight = [], rn_Outcome = None\<rparr>\<rparr>);
        ok () }))"

text \<open>\<^verbatim>\<open>runTarget\<close> up to the execution: the target that is executed, if its row could be marked.\<close>

definition target_start :: "BatchEnv \<Rightarrow> string \<Rightarrow> gtime \<Rightarrow> Target \<Rightarrow> Target bact" where
  "target_start x b now t =
    (let t' = t\<lparr>tg_Status := TargetRunning, tg_StartedAt := now, tg_Error := []\<rparr>
     in andthen (db_write x (UpdateTarget b (tg_OperationID t) t')) (\<lambda>_. ok t'))"

text \<open>
  \<^verbatim>\<open>runTarget\<close> after the execution: \<open>cancelled\<close> and \<open>deadline\<close> are the states of the worker's context and of the
  context of the execution.
\<close>

definition target_end :: "BatchEnv \<Rightarrow> string \<Rightarrow> gtime \<Rightarrow> bool \<Rightarrow> bool \<Rightarrow> goerror option \<Rightarrow> Target \<Rightarrow> unit bact" where
  "target_end x b now cancelled deadline err t =
    (if cancelled \<and> \<not> deadline then ok ()
     else let t' = t\<lparr>tg_Status := MapExecError (bx_deadline x) err, tg_FinishedAt := now,
            tg_Error := (case err of None \<Rightarrow> [] | Some e \<Rightarrow> err_text e)\<rparr>
       in ignoring (db_write x (UpdateTarget b (tg_OperationID t) t')) (ok ()))"

text \<open>The end of \<^verbatim>\<open>runBatch\<close>: the result is computed from the rows, then written.\<close>

definition run_rollup :: "BatchEnv \<Rightarrow> string \<Rightarrow> (BatchStatus \<times> Summary) bact" where
  "run_rollup x b = andthen (GetB x b) (\<lambda>ba. ok (Rollup (ba_Targets ba), CountSummary (ba_Targets ba)))"

section \<open>Events\<close>

datatype BEvent =
    EvStart | EvResume
  | EvCreate "Principal option" gtime string BatchType BatchSelector "expander option"
  | EvRetry "Principal option" string
  | EvReplay "Principal option" string
  | EvPick
  | EvBegin string gtime
  | EvEnd string gtime bool bool "goerror option"
  | EvRollup
  | EvWrite
  | EvCrash

abbreviation by_op :: "string \<Rightarrow> Target \<Rightarrow> bool" where
  "by_op opID t \<equiv> tg_OperationID t = opID"

abbreviation exec_state :: "('s, 'a) state \<Rightarrow> 's \<Rightarrow> 's" where
  "exec_state c s \<equiv> snd (run_state c s)"

text \<open>
  An event that is not possible changes nothing. \<open>EvBegin\<close> and \<open>EvEnd\<close> name the goroutine by its operation; a batch is
  finished when no goroutine is left.
\<close>

definition drop_op :: "string \<Rightarrow> Target list \<Rightarrow> Target list" where
  "drop_op opID ts = filter (\<lambda>t. tg_OperationID t \<noteq> opID) ts"

definition begin_step :: "BatchEnv \<Rightarrow> string \<Rightarrow> gtime \<Rightarrow> Engine \<Rightarrow> Engine" where
  "begin_step x opID now s =
    (case be_run s of None \<Rightarrow> s | Some r \<Rightarrow>
      (case find (by_op opID) (rn_Todo r) of None \<Rightarrow> s | Some t \<Rightarrow>
        if length (rn_Inflight r) \<ge> slots x \<or> rn_Outcome r \<noteq> None then s
        else case run_state (target_start x (rn_ID r) now t) s of
            (Inl _, s') \<Rightarrow> s'\<lparr>be_run := Some (r\<lparr>rn_Todo := drop_op opID (rn_Todo r)\<rparr>)\<rparr>
          | (Inr t', s') \<Rightarrow> s'\<lparr>be_run := Some (r\<lparr>rn_Todo := drop_op opID (rn_Todo r), rn_Inflight := t' # rn_Inflight r\<rparr>)\<rparr>))"

definition end_step :: "BatchEnv \<Rightarrow> string \<Rightarrow> gtime \<Rightarrow> bool \<Rightarrow> bool \<Rightarrow> goerror option \<Rightarrow> Engine \<Rightarrow> Engine" where
  "end_step x opID now cancelled deadline err s =
    (case be_run s of None \<Rightarrow> s | Some r \<Rightarrow>
      (case find (by_op opID) (rn_Inflight r) of None \<Rightarrow> s | Some t \<Rightarrow>
        (exec_state (target_end x (rn_ID r) now cancelled deadline err t) s)
          \<lparr>be_run := Some (r\<lparr>rn_Inflight := drop_op opID (rn_Inflight r)\<rparr>)\<rparr>))"

definition rollup_step :: "BatchEnv \<Rightarrow> Engine \<Rightarrow> Engine" where
  "rollup_step x s =
    (case be_run s of None \<Rightarrow> s | Some r \<Rightarrow>
       if rn_Todo r \<noteq> [] \<or> rn_Inflight r \<noteq> [] \<or> rn_Outcome r \<noteq> None then s
       else case run_state (run_rollup x (rn_ID r)) s of
           (Inl _, s') \<Rightarrow> s'\<lparr>be_run := None\<rparr>
         | (Inr v, s') \<Rightarrow> s'\<lparr>be_run := Some (r\<lparr>rn_Outcome := Some v\<rparr>)\<rparr>)"

definition write_step :: "BatchEnv \<Rightarrow> Engine \<Rightarrow> Engine" where
  "write_step x s =
    (case be_run s of None \<Rightarrow> s | Some r \<Rightarrow>
      (case rn_Outcome r of None \<Rightarrow> s | Some (st, sm) \<Rightarrow>
        (exec_state (db_write x (UpdateBatchStatus (rn_ID r) st sm)) s)\<lparr>be_run := None\<rparr>))"

definition pick_step :: "BatchEnv \<Rightarrow> Engine \<Rightarrow> Engine" where
  "pick_step x s =
    (case (be_run s, be_jobs s) of
       (None, b # rest) \<Rightarrow> exec_state (run_start x b) (s\<lparr>be_jobs := rest\<rparr>)
     | _ \<Rightarrow> s)"

fun engine_step :: "BatchEnv \<Rightarrow> BEvent \<Rightarrow> Engine \<Rightarrow> Engine" where
  "engine_step x EvStart s = s\<lparr>be_started := True\<rparr>"
| "engine_step x EvResume s = exec_state (Resume x) s"
| "engine_step x (EvCreate p now operator typ0 sel f) s = exec_state (CreateWithExpand x p now operator typ0 sel f) s"
| "engine_step x (EvRetry p b) s = exec_state (RetryFailed x p b) s"
| "engine_step x (EvReplay p b) s = exec_state (ReplayTimeout x p b) s"
| "engine_step x EvPick s = pick_step x s"
| "engine_step x (EvBegin opID now) s = begin_step x opID now s"
| "engine_step x (EvEnd opID now cancelled deadline err) s = end_step x opID now cancelled deadline err s"
| "engine_step x EvRollup s = rollup_step x s"
| "engine_step x EvWrite s = write_step x s"
| "engine_step x EvCrash s = s\<lparr>be_started := False, be_jobs := [], be_idents := [], be_run := None\<rparr>"

definition engine_run :: "BatchEnv \<Rightarrow> BEvent list \<Rightarrow> Engine \<Rightarrow> Engine" where
  "engine_run x evs s = fold (engine_step x) evs s"

definition engine_init :: Engine where
  "engine_init = \<lparr>be_db = \<lparr>bd_batches = [], bd_targets = []\<rparr>, be_calls = 0, be_ids = 0, be_started = False, be_jobs = [],
     be_idents = [], be_run = None\<rparr>"

end
