(* ===== verification/Api_Auth.thy ===== *)
theory Api_Auth imports Batch_Engine Cluster_Types
begin

text \<open>
  Who may call what, from the entry agent to the owner of a process (\<^verbatim>\<open>internal/api\<close>: \<^verbatim>\<open>authn.go\<close>, \<^verbatim>\<open>rbac.go\<close>,
  \<^verbatim>\<open>route.go\<close>, the hop of \<^verbatim>\<open>process.go\<close>, the identities of \<^verbatim>\<open>batch_exec.go\<close>) and what becomes of an error on the way
  (\<^verbatim>\<open>connecterr.go\<close>, \<^verbatim>\<open>internal/rpc/errors.go\<close>). A handler's error that reaches a client over the network keeps its
  Connect code and its \<^verbatim>\<open>ErrorInfo\<close>, and loses the Go error it wrapped.
\<close>

section \<open>Errors of calls (connecterr.go, rpc/errors.go)\<close>

datatype ConnectCode = CodeUnknown | CodeInvalidArgument | CodeDeadlineExceeded | CodeNotFound | CodeAlreadyExists
  | CodePermissionDenied | CodeResourceExhausted | CodeFailedPrecondition | CodeUnavailable

text \<open>\<open>ConnectError c cause info msg\<close>: the wrapped error is there only where the error was made.\<close>

datatype callerr = GoError goerror | ConnectError ConnectCode "goerror option" "errcode option option" string

fun code_of :: "goerror \<Rightarrow> errcode option" where
  "code_of (E c m) = Some c"
| "code_of (Plain m) = None"

definition toConnectCode :: "errcode option \<Rightarrow> ConnectCode" where
  "toConnectCode c = (case c of
     Some CONFLICT \<Rightarrow> CodeFailedPrecondition | Some NOT_FOUND \<Rightarrow> CodeNotFound | Some INVALID \<Rightarrow> CodeInvalidArgument
   | Some DEGRADED \<Rightarrow> CodeUnavailable | Some UNAVAILABLE \<Rightarrow> CodeUnavailable | Some TIMEOUT \<Rightarrow> CodeDeadlineExceeded
   | Some RATE_LIMITED \<Rightarrow> CodeResourceExhausted | Some INVALID_CREDENTIALS \<Rightarrow> CodePermissionDenied
   | Some ACCOUNT_LOCKED \<Rightarrow> CodePermissionDenied | Some DENIED \<Rightarrow> CodePermissionDenied
   | Some DUPLICATE_NODE_ID \<Rightarrow> CodeAlreadyExists | Some INCOMPATIBLE_VERSION \<Rightarrow> CodeFailedPrecondition | _ \<Rightarrow> CodeUnknown)"

fun ToConnect :: "callerr \<Rightarrow> callerr" where
  "ToConnect (ConnectError c cause info msg) = ConnectError c cause info msg"
| "ToConnect (GoError e) = ConnectError (toConnectCode (code_of e)) (Some e) (Some (code_of e)) (err_text e)"

fun over_wire :: "callerr \<Rightarrow> callerr" where
  "over_wire (ConnectError c cause info msg) = ConnectError c None info msg"
| "over_wire (GoError e) = ConnectError CodeUnknown None None (err_text e)"

text \<open>What \<^verbatim>\<open>errcode.Is\<close> and \<^verbatim>\<open>errors.As\<close> find in the chain of an error.\<close>

fun as_goerror :: "callerr \<Rightarrow> goerror" where
  "as_goerror (GoError e) = e"
| "as_goerror (ConnectError c (Some e) info msg) = e"
| "as_goerror (ConnectError c None info msg) = Plain msg"

definition MapCallError :: "(goerror \<Rightarrow> bool) \<Rightarrow> callerr \<Rightarrow> callerr" where
  "MapCallError is_timeout err =
    (if code_of (as_goerror err) \<noteq> None then err
     else case err of
         ConnectError c cause info msg \<Rightarrow>
          if info \<noteq> None then err
          else if c = CodeDeadlineExceeded then GoError (E TIMEOUT ''rpc timed out'')
          else if c = CodeUnavailable \<or> c = CodeUnknown then GoError (E UNAVAILABLE ''owner unreachable'')
          else err
       | GoError e \<Rightarrow> if is_timeout e then GoError (E TIMEOUT ''rpc timed out'') else err)"

definition MapDialError :: "(goerror \<Rightarrow> bool) \<Rightarrow> goerror \<Rightarrow> goerror" where
  "MapDialError is_timeout e =
    (if code_of e \<noteq> None then e else if is_timeout e then E TIMEOUT ''rpc timed out'' else E UNAVAILABLE ''owner unreachable'')"

text \<open>
  The code of an owner's error is lost to the batch engine: the same error is a timeout when the owner is the local
  agent, and a failure when it is another agent, so that a retry executes under a new operation identifier.
\<close>

lemma remote_timeout_becomes_failure:
  "MapExecError d (Some (as_goerror (MapCallError d (ToConnect (GoError (E TIMEOUT msg)))))) = TargetTimeout"
  "\<not> d (Plain (err_text (E TIMEOUT msg))) \<Longrightarrow>
    MapExecError d (Some (as_goerror (MapCallError d (over_wire (ToConnect (GoError (E TIMEOUT msg))))))) = TargetFailed"
  by (simp_all add: MapCallError_def MapExecError_def)

section \<open>Procedures\<close>

text \<open>\<^verbatim>\<open>strings.LastIndex\<close> of the slash, \<^verbatim>\<open>HasSuffix\<close> and \<^verbatim>\<open>Contains\<close>.\<close>

definition rpcName :: "string \<Rightarrow> string" where
  "rpcName procedure = rev (takeWhile (\<lambda>c. c \<noteq> CHR ''/'') (rev procedure))"

definition has_suffix :: "string \<Rightarrow> string \<Rightarrow> bool" where
  "has_suffix s p \<longleftrightarrow> has_prefix (rev s) (rev p)"

fun contains :: "string \<Rightarrow> string \<Rightarrow> bool" where
  "contains [] p = (p = [])"
| "contains (c # s) p = (has_prefix (c # s) p \<or> contains s p)"

definition isPublicRPC :: "string \<Rightarrow> bool" where
  "isPublicRPC procedure \<longleftrightarrow> has_suffix procedure ''/procmesh.v1.AuthService/Login''
     \<or> has_suffix procedure ''/procmesh.v1.ClusterService/Join'' \<or> has_suffix procedure ''/procmesh.v1.ClusterService/RequestJoin''"

definition isMutationRPC :: "string \<Rightarrow> bool" where
  "isMutationRPC procedure \<longleftrightarrow> \<not> list_ex (has_prefix (rpcName procedure))
     [''List'', ''Get'', ''Overview'', ''History'', ''Diff'', ''Tail'', ''Stream'', ''Download'', ''Status'']"

text \<open>The permission of a procedure and whether it writes; \<open>None\<close> for a procedure that its handler checks.\<close>

definition in_table :: "(string list \<times> string \<times> bool) list \<Rightarrow> string \<Rightarrow> (string \<times> bool) option" where
  "in_table rows name = map_option snd (find (\<lambda>(names, _). name \<in> set names) rows)"

definition clusterBackupHopPerm :: "string \<Rightarrow> (string \<times> bool) option" where
  "clusterBackupHopPerm name = in_table
    [([''ListPolicies'', ''ValidatePolicy'', ''GetRun'', ''ListRuns'', ''GetDestinationHealth''], ''backup.read'', False),
     ([''CreatePolicy'', ''UpdatePolicy'', ''DeletePolicy'', ''StartRun'', ''RetryFailedTasks''], ''backup.manage'', True)] name"

definition replicationHopPerm :: "string \<Rightarrow> (string \<times> bool) option" where
  "replicationHopPerm name = in_table
    [([''GetTopology'', ''ListPolicies'', ''GetPolicy'', ''ListRuns'', ''GetRun'', ''ListRecoverableSnapshots''], ''replication.read'', False),
     ([''GeneratePolicyDraft''], ''replication.manage'', False),
     ([''PrepareRecoverableSnapshotRestore''], ''backup.manage'', False),
     ([''RestoreRecoverableSnapshot''], ''backup.manage'', True),
     ([''ApplyPolicyDraft'', ''UpdatePolicy'', ''DeletePolicy'', ''StartRun'', ''RetryFailedRoutes'', ''VerifyReplica''], ''replication.manage'', True)] name"

definition hop_table :: "(string list \<times> string \<times> bool) list" where
  "hop_table =
    [([''ListProcesses'', ''GetProcess''], ''process.read'', False),
     ([''DeleteProcess''], ''process.delete'', True),
     ([''StartProcess''], ''process.start'', True),
     ([''StopProcess'', ''KillProcess''], ''process.stop'', True),
     ([''RestartProcess''], ''process.restart'', True),
     ([''ResetFailure'', ''AdoptInstance''], ''process.update'', True),
     ([''GetConfig'', ''History'', ''Diff''], ''process.config.read'', False),
     ([''UpdateConfig'', ''Rollback''], ''process.config.update'', True),
     ([''TailLogs'', ''StreamLogs''], ''process.logs.read'', False),
     ([''DownloadLogs''], ''process.logs.download'', False),
     ([''ListAudit''], ''audit.read'', False),
     ([''ListAlerts'', ''GetAlert'', ''ListAlertChannels'', ''GetAlertPolicy''], ''alert.read'', False),
     ([''PutAlertChannel'', ''DeleteAlertChannel'', ''TestAlertChannel'', ''PutAlertPolicy''], ''alert.manage'', True),
     ([''GetAgentMetrics'', ''GetNodeHistory''], ''cluster.read'', False),
     ([''GetProcessMetrics'', ''GetProcessHistory''], ''process.read'', False),
     ([''ListBackups'', ''GetBackup''], ''backup.read'', False),
     ([''CreateBackup'', ''DeleteBackup'', ''RestoreBackup'', ''PutPeerSnapshot''], ''backup.manage'', True),
     ([''GetTopology'', ''ListPolicies'', ''GetPolicy'', ''ListRuns'', ''GetRun'', ''ListRecoverableSnapshots''], ''replication.read'', False),
     ([''PrepareRecoverableSnapshotRestore''], ''backup.manage'', False),
     ([''RestoreRecoverableSnapshot''], ''backup.manage'', True),
     ([''GeneratePolicyDraft''], ''replication.manage'', False),
     ([''ApplyPolicyDraft'', ''UpdatePolicy'', ''DeletePolicy'', ''StartRun'', ''RetryFailedRoutes'', ''VerifyReplica''], ''replication.manage'', True),
     ([''GetLocalUpdateInfo''], ''cluster.read'', False),
     ([''ApplyNode''], ''node.manage'', True),
     ([''CreateJoinToken''], ''node.manage'', True),
     ([''CheckMembership''], ''cluster.read'', False),
     ([''ReconcileMembership''], ''cluster.manage'', True)]"

definition hopRPCPerm :: "string \<Rightarrow> (string \<times> bool) option" where
  "hopRPCPerm procedure =
    (if contains procedure ''ClusterBackupService'' then clusterBackupHopPerm (rpcName procedure)
     else if contains procedure ''DisasterReplicationService'' then replicationHopPerm (rpcName procedure)
     else in_table hop_table (rpcName procedure))"

section \<open>Permission checks (rbac.go)\<close>

text \<open>Without a service or without a principal every check passes.\<close>

definition guarded :: "AuthService option \<Rightarrow> Principal option \<Rightarrow> (AuthService \<Rightarrow> Principal \<Rightarrow> goerror option) \<Rightarrow> goerror option" where
  "guarded svc p f = (case (svc, p) of (Some sv, Some pr) \<Rightarrow> f sv pr | _ \<Rightarrow> None)"

definition requirePerm :: "AuthService option \<Rightarrow> Principal option \<Rightarrow> string \<Rightarrow> string \<Rightarrow> bool \<Rightarrow> bool \<Rightarrow> goerror option" where
  "requirePerm svc p perm targetNode write local =
    guarded svc p (\<lambda>sv pr. if write then AllowWrite sv pr perm targetNode local else Allow sv pr perm targetNode)"

definition requireAnyPerm :: "AuthService option \<Rightarrow> Principal option \<Rightarrow> string \<Rightarrow> goerror option" where
  "requireAnyPerm svc p perm = guarded svc p (\<lambda>sv pr. AllowAny sv pr perm)"

definition requirePermOn :: "AuthService option \<Rightarrow> Principal option \<Rightarrow> string \<Rightarrow> CheckTargetArg \<Rightarrow> bool \<Rightarrow> bool \<Rightarrow> goerror option" where
  "requirePermOn svc p perm t write local =
    guarded svc p (\<lambda>sv pr. if write then AllowWriteOn sv pr perm t local else AllowOn sv pr perm t)"

definition requireHopPerm :: "AuthService option \<Rightarrow> Principal option \<Rightarrow> string \<Rightarrow> string \<Rightarrow> goerror option" where
  "requireHopPerm svc p procedure localID =
    (case hopRPCPerm procedure of None \<Rightarrow> None
     | Some (perm, write) \<Rightarrow>
        if has_prefix perm ''process.'' \<or> (contains procedure ''DisasterReplicationService''
            \<and> (rpcName procedure = ''PrepareRecoverableSnapshotRestore'' \<or> rpcName procedure = ''RestoreRecoverableSnapshot''))
        then requireAnyPerm svc p perm
        else requirePerm svc p perm localID write True)"

section \<open>Authentication of requests (authn.go)\<close>

text \<open>The headers that matter; an absent one is empty.\<close>

record Header =
  hd_Authorization :: string
  hd_Cookie :: string
  hd_CSRF :: string
  hd_TargetNode :: string
  hd_SourceNode :: string
  hd_UserID :: string
  hd_SessionID :: string
  hd_TokenID :: string

definition no_header :: Header where
  "no_header = \<lparr>hd_Authorization = [], hd_Cookie = [], hd_CSRF = [], hd_TargetNode = [], hd_SourceNode = [], hd_UserID = [],
     hd_SessionID = [], hd_TokenID = []\<rparr>"

definition bearerToken :: "Header \<Rightarrow> string" where
  "bearerToken h = (let v = hd_Authorization h in
     if length v \<ge> 7 \<and> EqualFold (take 7 v) ''Bearer '' then TrimSpace (drop 7 v) else [])"

definition principalFromHeader :: "env \<Rightarrow> gtime \<Rightarrow> AuthService \<Rightarrow> string \<Rightarrow> Header \<Rightarrow> goerror + Principal" where
  "principalFromHeader e now sv procedure h =
    (if bearerToken h \<noteq> [] then AuthenticateBearer e now sv (bearerToken h)
     else if hd_Cookie h = [] then fail DENIED ''authentication required''
     else AuthenticateSession now sv (hd_Cookie h) (hd_CSRF h) (isMutationRPC procedure))"

text \<open>The principal of the request, or none when the cluster is not initialised or the procedure is public.\<close>

definition entry_authenticate :: "env \<Rightarrow> gtime \<Rightarrow> AuthService option \<Rightarrow> bool \<Rightarrow> string \<Rightarrow> Header \<Rightarrow> goerror + Principal option" where
  "entry_authenticate e now svc inited procedure h =
    (case svc of None \<Rightarrow> Inr None | Some sv \<Rightarrow>
       if \<not> inited then Inr None
       else if isPublicRPC procedure then Inr None
       else map_sum id Some (principalFromHeader e now sv procedure h))"

definition owner_authenticate :: "gtime \<Rightarrow> AuthService option \<Rightarrow> string \<Rightarrow> string \<Rightarrow> Header \<Rightarrow> goerror + Principal option" where
  "owner_authenticate now svc localID procedure h =
    (case svc of None \<Rightarrow> Inr None | Some sv \<Rightarrow>
      (case (if hd_SessionID h \<noteq> [] then AuthenticateSession now sv (hd_SessionID h) [] False
             else if hd_TokenID h \<noteq> [] then AuthenticateTokenID now sv (hd_TokenID h)
             else fail DENIED ''missing session'') of
         Inl err \<Rightarrow> Inl err
       | Inr p \<Rightarrow> (case requireHopPerm svc (Some p) procedure localID of Some err \<Rightarrow> Inl err | None \<Rightarrow> Inr (Some p))))"

text \<open>\<^verbatim>\<open>stampIdentity\<close>: the identity headers of a forwarded request are those of the principal, whatever the client sent.\<close>

definition stampIdentity :: "Principal option \<Rightarrow> Header \<Rightarrow> Header" where
  "stampIdentity p h =
    (let h' = h\<lparr>hd_UserID := [], hd_SessionID := [], hd_TokenID := [], hd_Authorization := []\<rparr> in
     case p of None \<Rightarrow> h'
     | Some pr \<Rightarrow> h'\<lparr>hd_UserID := pr_UserID pr, hd_SessionID := pr_SessionID pr,
         hd_TokenID := (if pr_SessionID pr \<noteq> [] then [] else pr_TokenID pr)\<rparr>)"

definition stampHop :: "string \<Rightarrow> string \<Rightarrow> Header \<Rightarrow> Header" where
  "stampHop localID target h =
    h\<lparr>hd_SourceNode := (if localID = [] then hd_SourceNode h else localID),
      hd_TargetNode := (if target = [] then hd_TargetNode h else target)\<rparr>"

section \<open>Routes (route.go)\<close>

record Route =
  ro_Local :: bool
  ro_NodeID :: string
  ro_RPC :: string

record Router =
  rt_LocalID :: string
  rt_LocalHost :: string
  rt_Members :: "NodeSummary list option"
  rt_LocalHasName :: "(string \<Rightarrow> bool) option"
  rt_ControlStatus :: "(string \<Rightarrow> NodeState option) option"

definition Protocol :: int where "Protocol = 2"

definition localRoute :: "Router \<Rightarrow> Route" where
  "localRoute r = \<lparr>ro_Local = True, ro_NodeID = rt_LocalID r, ro_RPC = []\<rparr>"

definition isLocalIdentity :: "Router \<Rightarrow> string \<Rightarrow> bool" where
  "isLocalIdentity r i \<longleftrightarrow> i \<noteq> [] \<and> (i = rt_LocalID r \<or> rt_LocalHost r \<noteq> [] \<and> i = rt_LocalHost r)"

definition router_members :: "Router \<Rightarrow> NodeSummary list" where
  "router_members r = (case rt_Members r of None \<Rightarrow> [] | Some ms \<Rightarrow> ms)"

definition ownerForbidden :: "NodeSummary \<Rightarrow> (string \<Rightarrow> NodeState option) option \<Rightarrow> bool" where
  "ownerForbidden n statusOf \<longleftrightarrow> ns_State n = StateRevoked \<or> ns_State n = StateRemoved
     \<or> (case statusOf of None \<Rightarrow> False | Some f \<Rightarrow> f (ns_NodeID n) = Some StateRevoked \<or> f (ns_NodeID n) = Some StateRemoved)"

definition findMemberByUniqueHostname :: "NodeSummary list \<Rightarrow> string \<Rightarrow> NodeSummary option" where
  "findMemberByUniqueHostname ms host = (case filter (\<lambda>n. ns_Hostname n = host) ms of [n] \<Rightarrow> Some n | _ \<Rightarrow> None)"

definition findMemberByNodeID :: "NodeSummary list \<Rightarrow> string \<Rightarrow> NodeSummary option" where
  "findMemberByNodeID ms i = find (\<lambda>n. ns_NodeID n = i) ms"

definition findMembersByProcessName :: "NodeSummary list \<Rightarrow> string \<Rightarrow> NodeSummary list" where
  "findMembersByProcessName ms name = filter (\<lambda>n. list_ex (\<lambda>p. ps_Name p = name) (ns_Processes n)) ms"

definition routeForNode :: "Router \<Rightarrow> NodeSummary \<Rightarrow> goerror + Route" where
  "routeForNode r n =
    (if ns_NodeID n = rt_LocalID r then Inr (localRoute r)
     else if ownerForbidden n (rt_ControlStatus r) then fail UNAVAILABLE ''owner unreachable''
     else if ns_State n = StateFailed \<or> ns_RPCAddress n = [] then fail UNAVAILABLE ''owner unreachable''
     else if ns_ProtocolVersion n \<noteq> Protocol then fail INCOMPATIBLE_VERSION ''incompatible protocol version''
     else Inr \<lparr>ro_Local = False, ro_NodeID = ns_NodeID n, ro_RPC = ns_RPCAddress n\<rparr>)"

definition Resolve_route :: "Router \<Rightarrow> string \<Rightarrow> string \<Rightarrow> string \<Rightarrow> goerror + Route" where
  "Resolve_route r targetHint idOrName ownerAgentID =
    (let ms = router_members r in
     if targetHint \<noteq> [] then
       (if isLocalIdentity r targetHint then Inr (localRoute r)
        else case (case findMemberByNodeID ms targetHint of Some n \<Rightarrow> Some n | None \<Rightarrow> findMemberByUniqueHostname ms targetHint) of
            None \<Rightarrow> fail UNAVAILABLE ''owner not found'' | Some n \<Rightarrow> routeForNode r n)
     else if ownerAgentID \<noteq> [] then
       (if isLocalIdentity r ownerAgentID then Inr (localRoute r)
        else case findMemberByNodeID ms ownerAgentID of
            None \<Rightarrow> fail UNAVAILABLE ''owner not found'' | Some n \<Rightarrow> routeForNode r n)
     else if idOrName \<noteq> [] \<and> (case rt_LocalHasName r of None \<Rightarrow> False | Some f \<Rightarrow> f idOrName) then Inr (localRoute r)
     else if idOrName \<noteq> [] then
       (case findMembersByProcessName ms idOrName of
          [] \<Rightarrow> Inr (localRoute r) | [n] \<Rightarrow> routeForNode r n | _ \<Rightarrow> fail INVALID ''ambiguous process owner'')
     else Inr (localRoute r))"

definition hopRoute :: "bool \<Rightarrow> string \<Rightarrow> Router option \<Rightarrow> Header \<Rightarrow> string \<Rightarrow> string \<Rightarrow> goerror + (bool \<times> Route)" where
  "hopRoute localOnly localID router h idOrName ownerAgentID =
    (case router of
       None \<Rightarrow> Inr (True, \<lparr>ro_Local = True, ro_NodeID = localID, ro_RPC = []\<rparr>)
     | Some r \<Rightarrow>
        if localOnly then Inr (True, \<lparr>ro_Local = True, ro_NodeID = localID, ro_RPC = []\<rparr>)
        else map_sum id (\<lambda>rt. (ro_Local rt, rt)) (Resolve_route r (hd_TargetNode h) idOrName ownerAgentID))"

definition hopTarget :: "bool \<Rightarrow> Route \<Rightarrow> string \<Rightarrow> string" where
  "hopTarget local rt localID = (if \<not> local then ro_NodeID rt else localID)"

definition gossipGroup :: "Router option \<Rightarrow> string \<Rightarrow> string \<Rightarrow> string" where
  "gossipGroup router nodeID processName =
    (case router of None \<Rightarrow> [] | Some r \<Rightarrow>
       if processName = [] then []
       else case find (\<lambda>p. ps_Name p = processName) (concat (map ns_Processes (filter (\<lambda>n. ns_NodeID n = nodeID) (router_members r)))) of
           None \<Rightarrow> [] | Some p \<Rightarrow> ps_Group p)"

definition authorizeProcessRoute ::
    "AuthService option \<Rightarrow> Principal option \<Rightarrow> Router option \<Rightarrow> string \<Rightarrow> string \<Rightarrow> bool \<Rightarrow> Route \<Rightarrow> bool \<Rightarrow> goerror option" where
  "authorizeProcessRoute svc p router perm idOrName local rt write =
    (case requireAnyPerm svc p perm of Some err \<Rightarrow> Some err | None \<Rightarrow>
       if local then None
       else requirePermOn svc p perm \<lparr>ct_NodeID = ro_NodeID rt, ct_ProcessGroup = gossipGroup router (ro_NodeID rt) idOrName\<rparr> write False)"

definition authorizeProcessSpec ::
    "AuthService option \<Rightarrow> Principal option \<Rightarrow> string \<Rightarrow> string \<Rightarrow> string \<Rightarrow> bool \<Rightarrow> goerror option" where
  "authorizeProcessSpec svc p perm localID processGroup write =
    requirePermOn svc p perm \<lparr>ct_NodeID = localID, ct_ProcessGroup = processGroup\<rparr> write True"

section \<open>Credentials are stored under their identifiers\<close>

definition creds_ok :: "State \<Rightarrow> bool" where
  "creds_ok s \<longleftrightarrow> wfmap (APITokens s) \<and> wfmap (Sessions s) \<and> (\<forall>k se. mget (Sessions s) k = Some se \<longrightarrow> se_ID se = k)
     \<and> mget (Sessions s) [] = None \<and> (\<forall>k t. mget (APITokens s) k = Some t \<longrightarrow> at_ID t = k)"

lemma creds_frame: "Sessions s' = Sessions s \<Longrightarrow> APITokens s' = APITokens s \<Longrightarrow> creds_ok s \<Longrightarrow> creds_ok s'"
  by (simp add: creds_ok_def)

lemma user_creds:
  assumes "apply_user e now c s = Inr s'" and "creds_ok s"
  shows "creds_ok s'"
proof (cases c)
  case (CmdSessionPut b)
  with assms show ?thesis by (auto simp: creds_ok_def applySessionPut_def Let_def split: if_splits)
next
  case (CmdSessionDel b)
  with assms show ?thesis by (auto simp: creds_ok_def applySessionDel_def split: if_splits)
next
  case (CmdTokenPut b)
  with assms show ?thesis by (auto simp: creds_ok_def applyTokenPut_def split: if_splits sum.splits)
next
  case (CmdTokenRevoke b)
  with assms show ?thesis by (auto simp: creds_ok_def applyTokenRevoke_def split: if_splits)
next
  case (CmdUserEnable b)
  with assms show ?thesis
    by (auto simp: creds_ok_def user_defs put_user_def mget_mfilter Let_def split: if_splits option.splits)
qed (use assms in \<open>auto simp: user_defs put_user_def Let_def split: if_splits intro: creds_frame\<close>)

lemma creds_step:
  assumes "ensured s" and "creds_ok s"
  shows "creds_ok (fst (FSM_Apply l s))"
proof (rule FSM_Apply_keeps [where P = creds_ok, OF assms])
  show "creds_ok s'" if "apply_user e now c s = Inr s'" for e now c s' by (rule user_creds [OF that assms(2)])
  show "creds_ok s'" if "apply_rbac c s = Inr s'" for c s'
    using rbac_footprint [OF that] by (auto intro: creds_frame [OF _ _ assms(2)])
  show "creds_ok s'" if "apply_admission e now c s = Inr s'" for e now c s'
    using admission_footprint [OF that] by (auto intro: creds_frame [OF _ _ assms(2)])
  show "creds_ok s'" if "apply_group e c s = Inr s'" for e c s'
    using group_footprint [OF that] by (auto intro: creds_frame [OF _ _ assms(2)])
  show "creds_ok s'" if "apply_policy e now c s = Inr s'" for e now c s'
    using policy_footprint [OF that] by (auto intro: creds_frame [OF _ _ assms(2)])
  show "creds_ok s'" if "apply_run e now c s = Inr s'" for e now c s'
    using run_frame [OF that assms(1)] by (auto intro: creds_frame [OF _ _ assms(2)])
qed

interpretation creds_inv: machine_invariant "\<lambda>l s. fst (FSM_Apply l s)" Restore creds_ok
  by unfold_locales (simp add: Restore_def ensure_iff creds_step)

lemma creds_reachable: "creds_ok (replay ls NewFSM)"
proof -
  have "creds_ok NewFSM" by (simp add: creds_ok_def NewFSM_def NewState_def ensure_def zero_state_def)
  then show ?thesis
    using creds_inv.inv_fold [of NewFSM ls] NewFSM_ensured unfolding replay_def Restore_def ensure_iff by blast
qed

section \<open>Identities across the hop\<close>

lemma session_principal_id:
  "creds_ok (as_View st) \<Longrightarrow> sv_store sv = Some st \<Longrightarrow> sessionPrincipal now sv i = Inr p \<Longrightarrow> pr_SessionID p = i \<and> i \<noteq> []"
  by (auto simp: sessionPrincipal_def creds_ok_def split: option.splits if_splits)

text \<open>
  C38: The caller of a forwarded request is the caller at the entry. When the entry agent authenticates a request (by
  session cookie or bearer token) and the owner's view of the control state is the same, the owner authenticates the
  identity headers that the entry stamps as the same principal, whatever identity headers the client had sent, and lets
  the request through exactly when that principal has the permission of the procedure; a forwarded request without a
  principal is refused.
\<close>

theorem hop_keeps_identity:
  assumes "sv_store sv = Some st" and "sv_store sv' = Some st'" and "as_View st' = as_View st" and "as_View st = replay ls NewFSM"
    and "mget (APITokens (as_View st)) [] = None"
    and "entry_authenticate e now (Some sv) True procedure h = Inr (Some p)"
  shows "owner_authenticate now (Some sv') localID procedure (stampIdentity (Some p) (stampHop source target h)) =
      (case requireHopPerm (Some sv') (Some p) procedure localID of Some err \<Rightarrow> Inl err | None \<Rightarrow> Inr (Some p))
    \<and> owner_authenticate now (Some sv') localID procedure (stampIdentity None (stampHop source target h)) = fail DENIED ''missing session''"
proof -
  have ok: "creds_ok (as_View st)" by (simp add: assms(4) creds_reachable)
  have same: "sessionPrincipal now sv' i = sessionPrincipal now sv i" "AuthenticateTokenID now sv' j = AuthenticateTokenID now sv j" for i j
    unfolding sessionPrincipal_def AuthenticateTokenID_def assms(1,2) option.case assms(3) by (rule refl)+
  have p: "principalFromHeader e now sv procedure h = Inr p"
    using assms(6) by (auto simp: entry_authenticate_def split: if_splits)
  have "(\<exists>i. sessionPrincipal now sv i = Inr p) \<or> tokenPrincipal e now sv (bearerToken h) = Inr p"
    using p by (auto simp: principalFromHeader_def AuthenticateBearer_def AuthenticateSession_def split: if_splits sum.splits)
  then have "(pr_SessionID p \<noteq> [] \<and> sessionPrincipal now sv (pr_SessionID p) = Inr p)
      \<or> (pr_SessionID p = [] \<and> pr_TokenID p \<noteq> [] \<and> AuthenticateTokenID now sv (pr_TokenID p) = Inr p)"
  proof (elim disjE exE)
    fix i assume "sessionPrincipal now sv i = Inr p"
    with session_principal_id [OF ok assms(1) this] show ?thesis by simp
  next
    assume "tokenPrincipal e now sv (bearerToken h) = Inr p"
    then obtain tok where f: "TokenByPlain e (as_View st) (bearerToken h) = Some tok" and t: "principalFromToken now (as_View st) tok = Inr p"
      by (auto simp: tokenPrincipal_def assms(1) split: option.splits)
    from f have "tok \<in> set (mvals (APITokens (as_View st)))" by (auto simp: TokenByPlain_def Let_def find_Some_iff)
    then obtain k where "mget (APITokens (as_View st)) k = Some tok" using ok in_mvals_iff [of "APITokens (as_View st)" tok] by (auto simp: creds_ok_def)
    then have "mget (APITokens (as_View st)) (at_ID tok) = Some tok" "at_ID tok \<noteq> []"
      using ok assms(5) by (auto simp: creds_ok_def)
    moreover have "pr_TokenID p = at_ID tok" "pr_SessionID p = []"
      using t by (auto simp: principalFromToken_def split: if_splits option.splits)
    ultimately show ?thesis using t by (simp add: AuthenticateTokenID_def assms(1))
  qed
  then show ?thesis
    by (auto simp: owner_authenticate_def stampIdentity_def Let_def AuthenticateSession_def same)
qed

lemma in_tableD: "in_table rows name = Some v \<Longrightarrow> \<exists>names. (names, v) \<in> set rows \<and> name \<in> set names"
  by (auto simp: in_table_def find_Some_iff) (metis nth_mem)

text \<open>Every procedure that writes across a hop counts as a mutation.\<close>

lemma hop_write_mutation: "hopRPCPerm procedure = Some (perm, True) \<Longrightarrow> isMutationRPC procedure"
  unfolding hopRPCPerm_def clusterBackupHopPerm_def replicationHopPerm_def isMutationRPC_def
  by (auto simp: hop_table_def has_prefix_def split: if_splits dest!: in_tableD)


section \<open>The properties at a concrete state\<close>

text \<open>A cluster whose administrator has logged in with the session \<open>pms_1\<close>.\<close>

definition login_log :: "LogEntry list" where
  "login_log = [at_zero (UserCmd (CmdBootstrap boot)),
     at_zero (UserCmd (CmdSessionPut \<lparr>spb_ID = ''pms_1'', spb_UserID = ''u0'', spb_CSRF = ''c'', spb_ExpiresUnix = 5\<rparr>))]"

definition login_service :: AuthService where
  "login_service = \<lparr>sv_store = Some \<lparr>as_View = replay login_log NewFSM, as_HasQuorum = True, as_CacheFresh = (\<lambda>_. True)\<rparr>, sv_hits = []\<rparr>"

definition login_header :: Header where
  "login_header = no_header\<lparr>hd_Cookie := ''pms_1'', hd_CSRF := ''c'', hd_UserID := ''someone else''\<rparr>"

definition login_principal :: Principal where
  "login_principal = \<lparr>pr_UserID = ''u0'', pr_Username = ''root'', pr_SessionID = ''pms_1'', pr_TokenID = [], pr_CSRF = ''c''\<rparr>"

lemma login_state:
  defines "s \<equiv> replay login_log NewFSM"
  shows "mget (Sessions s) ''pms_1'' = Some \<lparr>se_ID = ''pms_1'', se_UserID = ''u0'', se_CSRF = ''c'', se_ExpiresUnix = 5\<rparr>"
    and "APITokens s = []" and "\<exists>u. userByID s ''u0'' = Some u \<and> u_ID u = ''u0'' \<and> u_Username u = ''root'' \<and> u_Status u = UserActive"
proof -
  obtain s0 where s0: "applyBootstrap boot NewFSM = Inr s0" and c: "APITokens s0 = []" "UsersByID s0 = [(''u0'', ''root'')]"
    "\<exists>u. Users s0 = [(''root'', u)] \<and> u_ID u = ''u0'' \<and> u_Username u = ''root'' \<and> u_Status u = UserActive"
    by (simp add: applyBootstrap_def boot_def NewFSM_def NewState_def ensure_def zero_state_def)
  have 1: "fst (FSM_Apply (at_zero (UserCmd (CmdBootstrap boot))) NewFSM) = s0"
    by (simp add: FSM_Apply_def at_zero_def Apply_def ensured_ensure [OF NewFSM_ensured] s0)
  have "ensured s0" using FSM_Apply_ensured [OF NewFSM_ensured, of "at_zero (UserCmd (CmdBootstrap boot))"] by (simp add: 1)
  then have s: "s = s0\<lparr>Sessions := mput ''pms_1'' \<lparr>se_ID = ''pms_1'', se_UserID = ''u0'', se_CSRF = ''c'', se_ExpiresUnix = 5\<rparr> (Sessions s0)\<rparr>"
    unfolding s_def login_log_def replay_def fold.simps comp_def id_def 1
    by (simp add: FSM_Apply_def at_zero_def Apply_def ensured_ensure applySessionPut_def)
  show "mget (Sessions s) ''pms_1'' = Some \<lparr>se_ID = ''pms_1'', se_UserID = ''u0'', se_CSRF = ''c'', se_ExpiresUnix = 5\<rparr>"
    "APITokens s = []" "\<exists>u. userByID s ''u0'' = Some u \<and> u_ID u = ''u0'' \<and> u_Username u = ''root'' \<and> u_Status u = UserActive"
    using c by (auto simp: s userByID_def)
qed

lemma login_entry: "entry_authenticate no_env 0 (Some login_service) True ''/procmesh.v1.ProcessService/StartProcess'' login_header = Inr (Some login_principal)"
proof -
  have pub: "\<not> isPublicRPC ''/procmesh.v1.ProcessService/StartProcess''"
    by (simp add: isPublicRPC_def has_suffix_def has_prefix_def)
  have h: "bearerToken login_header = []" "hd_Cookie login_header = ''pms_1''" "hd_CSRF login_header = ''c''"
    by (simp_all add: bearerToken_def login_header_def no_header_def)
  have "sessionPrincipal 0 login_service ''pms_1'' = Inr login_principal"
    using login_state
    by (auto simp: sessionPrincipal_def login_service_def login_principal_def expired_at_def time_Unix_def active_user_def)
  then show ?thesis
    by (simp add: entry_authenticate_def pub principalFromHeader_def h AuthenticateSession_def login_principal_def)
qed

theorem hop_keeps_identity_witness:
  "owner_authenticate 0 (Some login_service) ''n2'' ''/procmesh.v1.ProcessService/StartProcess''
      (stampIdentity None (stampHop ''n1'' ''n2'' login_header)) = fail DENIED ''missing session''
   \<and> owner_authenticate 0 (Some login_service) ''n2'' ''/procmesh.v1.ProcessService/StartProcess''
      (stampIdentity (Some login_principal) (stampHop ''n1'' ''n2'' login_header))
    = (case requireHopPerm (Some login_service) (Some login_principal) ''/procmesh.v1.ProcessService/StartProcess'' ''n2'' of
         Some err \<Rightarrow> Inl err | None \<Rightarrow> Inr (Some login_principal))"
proof -
  let ?st = "\<lparr>as_View = replay login_log NewFSM, as_HasQuorum = True, as_CacheFresh = (\<lambda>_. True)\<rparr>"
  have st: "sv_store login_service = Some ?st" by (simp add: login_service_def)
  have tok: "mget (APITokens (as_View ?st)) [] = None" by (simp add: login_state(2))
  show ?thesis
    using hop_keeps_identity [OF st st refl _ tok login_entry, of login_log] by simp
qed


end
