(* ===== verification/Api_Process.thy ===== *)
theory Api_Process imports Api_Auth Process_Trace
begin

text \<open>
  The handlers of \<^verbatim>\<open>internal/api/process.go\<close> and the writing handlers of \<^verbatim>\<open>internal/api/config.go\<close>: route, check
  the caller, forward to the owner or run the manager's command. Requests and answers hold the decoded
  specification; the call of another agent is the parameter \<open>remote\<close>. Every method of the manager runs under its own
  lock, in the order of the handler.
\<close>

section \<open>Requests and answers\<close>

record ProcessRemotePolicy =
  rp_DisableCreate :: bool
  rp_DisableUpdate :: bool
  rp_DisableDelete :: bool

record ProcessAPI =
  pa_Auth :: "AuthService option"
  pa_Degraded :: bool
  pa_LocalOnly :: bool
  pa_LocalID :: string
  pa_Router :: "Router option"
  pa_Dial :: "(Route \<Rightarrow> goerror option) option"
  pa_Process :: ProcessRemotePolicy
  pa_is_timeout :: "goerror \<Rightarrow> bool"

text \<open>\<open>rq_Loopback\<close>: does the peer's address parse as a loopback address?\<close>

record Request =
  rq_Principal :: "Principal option"
  rq_Header :: Header
  rq_Loopback :: bool
  rq_IdOrName :: string
  rq_OperationID :: string
  rq_Operator :: string

record ProcessView =
  vw_Spec :: ProcessSpec
  vw_Instances :: "Instance list"
  vw_LogPathPending :: "bool list"

type_synonym ('s, 'a) answering = "('s, callerr + 'a) state"
type_synonym 'a handler = "(Manager, 'a) answering"

abbreviation reply :: "'a \<Rightarrow> ('s, 'a) answering" where
  "reply v \<equiv> ret (Inr v)"

definition refuse :: "goerror \<Rightarrow> ('s, 'a) answering" where
  "refuse e = ret (Inl (ToConnect (GoError e)))"

text \<open>\<^verbatim>\<open>if err := e; err != nil { return nil, err }\<close>, and the same for a call of the manager.\<close>

definition guard :: "goerror option \<Rightarrow> ('s, 'a) answering \<Rightarrow> ('s, 'a) answering" where
  "guard e k = (case e of Some err \<Rightarrow> refuse err | None \<Rightarrow> k)"

definition via :: "('s, 'a) act \<Rightarrow> ('a \<Rightarrow> ('s, 'b) answering) \<Rightarrow> ('s, 'b) answering" where
  "via c f = do { r \<leftarrow> c; case r of Inl e \<Rightarrow> refuse e | Inr v \<Rightarrow> f v }"

definition hop :: "ProcessAPI \<Rightarrow> Header \<Rightarrow> string \<Rightarrow> string \<Rightarrow> goerror + (bool \<times> Route)" where
  "hop a h idOrName ownerAgentID = hopRoute (pa_LocalOnly a) (pa_LocalID a) (pa_Router a) h idOrName ownerAgentID"

definition hop_header :: "ProcessAPI \<Rightarrow> Request \<Rightarrow> Route \<Rightarrow> Header" where
  "hop_header a rq rt = stampIdentity (rq_Principal rq) (stampHop (pa_LocalID a) (ro_NodeID rt) (rq_Header rq))"

definition mapForwardErr :: "ProcessAPI \<Rightarrow> callerr \<Rightarrow> callerr" where
  "mapForwardErr a err = ToConnect (MapCallError (pa_is_timeout a) err)"

definition forward :: "ProcessAPI \<Rightarrow> Request \<Rightarrow> Route \<Rightarrow> (Route \<Rightarrow> Header \<Rightarrow> callerr + 'a) \<Rightarrow> 'a handler" where
  "forward a rq rt remote =
    (case pa_Dial a of
       None \<Rightarrow> refuse (E UNAVAILABLE ''owner unreachable'')
     | Some dial \<Rightarrow> (case dial rt of
           Some e \<Rightarrow> refuse (MapDialError (pa_is_timeout a) e)
         | None \<Rightarrow> (case remote rt (hop_header a rq rt) of Inl e \<Rightarrow> ret (Inl (mapForwardErr a e)) | Inr v \<Rightarrow> reply v)))"

definition rejectMutation :: "ProcessAPI \<Rightarrow> goerror option" where
  "rejectMutation a = (if pa_Degraded a then Some (E DEGRADED ''degraded'') else None)"

definition metaOf :: "Request \<Rightarrow> goerror option" where
  "metaOf rq = (if rq_OperationID rq = [] then Some (E INVALID ''operation_id required'') else None)"

definition isLocalCLI :: "bool \<Rightarrow> Request \<Rightarrow> bool" where
  "isLocalCLI localOnly rq \<longleftrightarrow> \<not> localOnly \<and> bearerToken (rq_Header rq) \<noteq> [] \<and> hd_Cookie (rq_Header rq) = [] \<and> rq_Loopback rq"

definition rejectRemoteProcess :: "bool \<Rightarrow> Request \<Rightarrow> bool \<Rightarrow> string \<Rightarrow> goerror option" where
  "rejectRemoteProcess localOnly rq disabled action =
    (if \<not> disabled then None else if isLocalCLI localOnly rq then None
     else Some (E DENIED (''remote process '' @ action @ '' is disabled on this agent; use local CLI on the owner'')))"

text \<open>\<^verbatim>\<open>peekDone\<close>: a journalled operation that ended answers at once.\<close>

definition peekDone :: "Host \<Rightarrow> string \<Rightarrow> (bool \<times> ProcessSpec option \<Rightarrow> 'a handler) \<Rightarrow> 'a handler" where
  "peekDone H opID f = do {
     r \<leftarrow> db_GetOp H opID;
     case r of
       Inl e \<Rightarrow> if err_is e NOT_FOUND then f (False, None) else refuse e
     | Inr (status, result, msg) \<Rightarrow>
         if status = OpSuccess then f (True, result)
         else if status = OpFailed then refuse (E INVALID (if msg = [] then ''operation failed'' else msg))
         else f (False, None) }"

fun pending_flags :: "Host \<Rightarrow> ProcessSpec \<Rightarrow> Instance list \<Rightarrow> (Manager, bool list) state" where
  "pending_flags H spec [] = ret []"
| "pending_flags H spec (i # is) = do {
     active \<leftarrow> EffectiveLog H spec i;
     rest \<leftarrow> pending_flags H spec is;
     ret (LogPathPending (ProcessSpec.ps_Log spec) active i # rest) }"

definition viewOf :: "Host \<Rightarrow> ProcessSpec \<Rightarrow> ProcessView handler" where
  "viewOf H spec = via (db_ListInstances H (ProcessSpec.ps_ProcessID spec)) (\<lambda>insts. do {
     flags \<leftarrow> pending_flags H spec insts;
     reply \<lparr>vw_Spec = spec, vw_Instances = insts, vw_LogPathPending = flags\<rparr> })"

section \<open>Reading processes\<close>

definition GetProcess :: "ProcessAPI \<Rightarrow> Host \<Rightarrow> Request \<Rightarrow> (Route \<Rightarrow> Header \<Rightarrow> callerr + ProcessView) \<Rightarrow> ProcessView handler" where
  "GetProcess a H rq remote =
    (case hop a (rq_Header rq) (rq_IdOrName rq) [] of Inl e \<Rightarrow> refuse e | Inr (local, rt) \<Rightarrow>
     guard (authorizeProcessRoute (pa_Auth a) (rq_Principal rq) (pa_Router a) ''process.read'' (rq_IdOrName rq) local rt False)
     (if \<not> local then forward a rq rt remote
      else via (Resolve_spec H (rq_IdOrName rq)) (\<lambda>spec.
        guard (authorizeProcessSpec (pa_Auth a) (rq_Principal rq) ''process.read'' (pa_LocalID a) (ProcessSpec.ps_Group spec) False)
        (viewOf H spec))))"

text \<open>The loop of \<^verbatim>\<open>ListProcesses\<close>: a process the caller may not read is left out, any other error of the check ends it.\<close>

fun list_views :: "ProcessAPI \<Rightarrow> Host \<Rightarrow> Principal option \<Rightarrow> string \<Rightarrow> string \<Rightarrow> ProcessSpec list \<Rightarrow> ProcessView list handler" where
  "list_views a H p nodeID only [] = reply []"
| "list_views a H p nodeID only (spec # rest) =
    (if only \<noteq> [] \<and> ProcessSpec.ps_Group spec \<noteq> only then list_views a H p nodeID only rest
     else case requirePermOn (pa_Auth a) p ''process.read'' \<lparr>ct_NodeID = nodeID, ct_ProcessGroup = ProcessSpec.ps_Group spec\<rparr> False True of
       Some e \<Rightarrow> if err_is e DENIED then list_views a H p nodeID only rest else refuse e
     | None \<Rightarrow> do {
         view \<leftarrow> viewOf H spec;
         case view of Inl e \<Rightarrow> ret (Inl e)
         | Inr v \<Rightarrow> do {
             more \<leftarrow> list_views a H p nodeID only rest;
             case more of Inl e \<Rightarrow> ret (Inl e) | Inr vs \<Rightarrow> reply (v # vs) } })"

definition ListProcesses ::
    "ProcessAPI \<Rightarrow> Host \<Rightarrow> Request \<Rightarrow> string \<Rightarrow> (Route \<Rightarrow> Header \<Rightarrow> callerr + ProcessView list) \<Rightarrow> ProcessView list handler" where
  "ListProcesses a H rq only remote =
    (case hop a (rq_Header rq) [] [] of Inl e \<Rightarrow> refuse e | Inr (local, rt) \<Rightarrow>
     guard (requireAnyPerm (pa_Auth a) (rq_Principal rq) ''process.read'')
     (if \<not> local then forward a rq rt remote
      else via (db_ListSpecs H) (list_views a H (rq_Principal rq) (hopTarget local rt (pa_LocalID a)) only)))"

section \<open>Commands on a process\<close>

definition mutateRef ::
    "ProcessAPI \<Rightarrow> Host \<Rightarrow> Request \<Rightarrow> string \<Rightarrow> (Route \<Rightarrow> Header \<Rightarrow> callerr + ProcessView)
      \<Rightarrow> (string \<Rightarrow> string \<Rightarrow> string \<Rightarrow> unit attempt) \<Rightarrow> ProcessView handler" where
  "mutateRef a H rq perm remote fn =
    (case hop a (rq_Header rq) (rq_IdOrName rq) [] of Inl e \<Rightarrow> refuse e | Inr (local, rt) \<Rightarrow>
     guard (authorizeProcessRoute (pa_Auth a) (rq_Principal rq) (pa_Router a) perm (rq_IdOrName rq) local rt True)
     (if \<not> local then forward a rq rt remote
      else guard (rejectMutation a) (guard (metaOf rq)
        (peekDone H (rq_OperationID rq) (\<lambda>(done, _).
          via (Resolve_spec H (rq_IdOrName rq)) (\<lambda>spec.
          guard (authorizeProcessSpec (pa_Auth a) (rq_Principal rq) perm (pa_LocalID a) (ProcessSpec.ps_Group spec) True)
          (if done then viewOf H spec
           else via (fn (ProcessSpec.ps_ProcessID spec) (rq_OperationID rq) (rq_Operator rq)) (\<lambda>_.
             via (db_GetSpec H (ProcessSpec.ps_ProcessID spec)) (viewOf H)))))))))"

definition set_and_reconcile :: "Host \<Rightarrow> DesiredState \<Rightarrow> string \<Rightarrow> string \<Rightarrow> string \<Rightarrow> unit attempt" where
  "set_and_reconcile H d processID opID operator = andthen (SetDesired H processID d opID operator) (\<lambda>_. reconcileLocked H)"

definition StartProcess :: "ProcessAPI \<Rightarrow> Host \<Rightarrow> Request \<Rightarrow> (Route \<Rightarrow> Header \<Rightarrow> callerr + ProcessView) \<Rightarrow> ProcessView handler" where
  "StartProcess a H rq remote = mutateRef a H rq ''process.start'' remote (set_and_reconcile H DesiredRunning)"

definition StopProcess :: "ProcessAPI \<Rightarrow> Host \<Rightarrow> Request \<Rightarrow> (Route \<Rightarrow> Header \<Rightarrow> callerr + ProcessView) \<Rightarrow> ProcessView handler" where
  "StopProcess a H rq remote = mutateRef a H rq ''process.stop'' remote (set_and_reconcile H DesiredStopped)"

definition RestartProcess :: "ProcessAPI \<Rightarrow> Host \<Rightarrow> Request \<Rightarrow> (Route \<Rightarrow> Header \<Rightarrow> callerr + ProcessView) \<Rightarrow> ProcessView handler" where
  "RestartProcess a H rq remote = mutateRef a H rq ''process.restart'' remote
     (\<lambda>processID opID operator. andthen (Restart H processID opID operator) (\<lambda>_. reconcileLocked H))"

definition KillProcess :: "ProcessAPI \<Rightarrow> Host \<Rightarrow> Request \<Rightarrow> (Route \<Rightarrow> Header \<Rightarrow> callerr + ProcessView) \<Rightarrow> ProcessView handler" where
  "KillProcess a H rq remote = mutateRef a H rq ''process.stop'' remote (Kill H)"

definition ResetFailure_api :: "ProcessAPI \<Rightarrow> Host \<Rightarrow> Request \<Rightarrow> (Route \<Rightarrow> Header \<Rightarrow> callerr + ProcessView) \<Rightarrow> ProcessView handler" where
  "ResetFailure_api a H rq remote = mutateRef a H rq ''process.update'' remote (ResetFailure H)"

definition AdoptInstance ::
    "ProcessAPI \<Rightarrow> Host \<Rightarrow> Request \<Rightarrow> int \<Rightarrow> (Route \<Rightarrow> Header \<Rightarrow> callerr + ProcessView) \<Rightarrow> ProcessView handler" where
  "AdoptInstance a H rq pid remote =
    (let iid = rq_IdOrName rq in
     case hop a (rq_Header rq) iid [] of Inl e \<Rightarrow> refuse e | Inr (local, rt) \<Rightarrow>
     guard (authorizeProcessRoute (pa_Auth a) (rq_Principal rq) (pa_Router a) ''process.update'' iid local rt True)
     (if \<not> local then forward a rq rt remote
      else guard (rejectMutation a) (guard (metaOf rq)
        (peekDone H (rq_OperationID rq) (\<lambda>(done, _).
          via (db_GetInstance H iid) (\<lambda>inst. via (db_GetSpec H (in_ProcessID inst)) (\<lambda>spec.
          guard (authorizeProcessSpec (pa_Auth a) (rq_Principal rq) ''process.update'' (pa_LocalID a) (ProcessSpec.ps_Group spec) True)
          (if done then viewOf H spec
           else via (Adopt H iid pid (rq_OperationID rq) (rq_Operator rq)) (\<lambda>_.
             via (db_GetInstance H iid) (\<lambda>inst. via (db_GetSpec H (in_ProcessID inst)) (viewOf H)))))))))))"

definition DeleteProcess ::
    "ProcessAPI \<Rightarrow> Host \<Rightarrow> Request \<Rightarrow> int \<Rightarrow> (Route \<Rightarrow> Header \<Rightarrow> callerr + unit) \<Rightarrow> unit handler" where
  "DeleteProcess a H rq expectedRevision remote =
    (case hop a (rq_Header rq) (rq_IdOrName rq) [] of Inl e \<Rightarrow> refuse e | Inr (local, rt) \<Rightarrow>
     guard (authorizeProcessRoute (pa_Auth a) (rq_Principal rq) (pa_Router a) ''process.delete'' (rq_IdOrName rq) local rt True)
     (if \<not> local then forward a rq rt remote
      else guard (rejectMutation a) (guard (metaOf rq)
        (peekDone H (rq_OperationID rq) (\<lambda>(done, _).
          if done then reply ()
          else guard (rejectRemoteProcess (pa_LocalOnly a) rq (rp_DisableDelete (pa_Process a)) ''delete'')
            (via (Resolve_spec H (rq_IdOrName rq)) (\<lambda>spec.
             guard (authorizeProcessSpec (pa_Auth a) (rq_Principal rq) ''process.delete'' (pa_LocalID a) (ProcessSpec.ps_Group spec) True)
             (via (DeleteSpec_cmd H (ProcessSpec.ps_ProcessID spec) expectedRevision (rq_OperationID rq) (rq_Operator rq)) reply))))))))"

section \<open>Specifications\<close>

definition authorizeApplyGroups ::
    "AuthService option \<Rightarrow> Principal option \<Rightarrow> string \<Rightarrow> string \<Rightarrow> string \<Rightarrow> string \<Rightarrow> bool \<Rightarrow> bool \<Rightarrow> bool \<Rightarrow> goerror option" where
  "authorizeApplyGroups svc p perm nodeID existingGroup newGroup present write local =
    (let on = (\<lambda>g. requirePermOn svc p perm \<lparr>ct_NodeID = nodeID, ct_ProcessGroup = g\<rparr> write local) in
     if present then (case on existingGroup of Some err \<Rightarrow> Some err
       | None \<Rightarrow> if newGroup \<noteq> [] \<and> newGroup \<noteq> existingGroup then on newGroup else None)
     else on newGroup)"

definition try_resolve :: "Host \<Rightarrow> string \<Rightarrow> ProcessSpec option run" where
  "try_resolve H idOrName = do { r \<leftarrow> Resolve_spec H idOrName; ret (case r of Inl _ \<Rightarrow> None | Inr spec \<Rightarrow> Some spec) }"

definition processExists :: "Host \<Rightarrow> string \<Rightarrow> bool run" where
  "processExists H idOrName =
    (if idOrName = [] then ret False else do { r \<leftarrow> try_resolve H idOrName; ret (r \<noteq> None) })"

definition spec_id_or_name :: "ProcessSpec \<Rightarrow> string" where
  "spec_id_or_name spec = (if ProcessSpec.ps_ProcessID spec = [] then ProcessSpec.ps_Name spec else ProcessSpec.ps_ProcessID spec)"

definition resolveApplySpec :: "Host \<Rightarrow> int \<Rightarrow> ProcessSpec \<Rightarrow> ProcessSpec attempt" where
  "resolveApplySpec H expectedRevision spec =
    (if expectedRevision = 0 then ok spec
     else andthen (Resolve_spec H (spec_id_or_name spec)) (\<lambda>existing.
       ok (spec\<lparr>ProcessSpec.ps_ProcessID := ProcessSpec.ps_ProcessID existing\<rparr>)))"

text \<open>The groups and the permission of an \<^verbatim>\<open>ApplyProcess\<close>: what exists is read before the caller is checked.\<close>

definition apply_target :: "ProcessAPI \<Rightarrow> Host \<Rightarrow> bool \<Rightarrow> Route \<Rightarrow> string \<Rightarrow> int \<Rightarrow> (string \<times> bool) run" where
  "apply_target a H local rt idOrName expectedRevision = do {
     let gossip = gossipGroup (pa_Router a) (hopTarget local rt (pa_LocalID a)) idOrName;
     existingGroup \<leftarrow> (if local then do {
         there \<leftarrow> processExists H idOrName;
         if there then do { r \<leftarrow> try_resolve H idOrName; ret (case r of None \<Rightarrow> gossip | Some spec \<Rightarrow> ProcessSpec.ps_Group spec) }
         else ret gossip }
       else ret gossip);
     present \<leftarrow> (if expectedRevision \<noteq> 0 \<or> existingGroup \<noteq> [] then ret True else processExists H idOrName);
     ret (existingGroup, present) }"

definition ApplyProcess ::
    "ProcessAPI \<Rightarrow> Host \<Rightarrow> Request \<Rightarrow> ProcessSpec \<Rightarrow> int \<Rightarrow> string \<Rightarrow> (Route \<Rightarrow> Header \<Rightarrow> callerr + ProcessSpec) \<Rightarrow> ProcessSpec handler" where
  "ApplyProcess a H rq spec0 expectedRevision comment remote =
    (let idOrName = spec_id_or_name spec0; p = rq_Principal rq in
     case hop a (rq_Header rq) idOrName (ProcessSpec.ps_OwnerAgentID spec0) of Inl e \<Rightarrow> refuse e | Inr (local, rt) \<Rightarrow> do {
       (existingGroup, present) \<leftarrow> apply_target a H local rt idOrName expectedRevision;
       let perm = (if present then ''process.update'' else ''process.create'');
       guard (requireAnyPerm (pa_Auth a) p perm)
        (guard (authorizeApplyGroups (pa_Auth a) p perm (hopTarget local rt (pa_LocalID a)) existingGroup
            (ProcessSpec.ps_Group spec0) present True local)
        (if \<not> local then forward a rq rt remote
         else guard (rejectMutation a) (guard (metaOf rq)
          (let spec1 = (if ProcessSpec.ps_OwnerAgentID spec0 = [] \<and> pa_LocalID a \<noteq> []
              then spec0\<lparr>ProcessSpec.ps_OwnerAgentID := pa_LocalID a\<rparr> else spec0) in
           peekDone H (rq_OperationID rq) (\<lambda>(done, result).
            if done then
             (case result of
                Some spec \<Rightarrow> if ProcessSpec.ps_ProcessID spec \<noteq> [] then reply spec
                  else via (resolveApplySpec H expectedRevision spec1) reply
              | None \<Rightarrow> via (resolveApplySpec H expectedRevision spec1) reply)
            else guard (rejectRemoteProcess (pa_LocalOnly a) rq
                (if present then rp_DisableUpdate (pa_Process a) else rp_DisableCreate (pa_Process a))
                (if present then ''update'' else ''create''))
              (via (resolveApplySpec H expectedRevision spec1) (\<lambda>spec.
                via (ApplySpec H spec expectedRevision (rq_OperationID rq) (rq_Operator rq) comment) reply))))))) })"

section \<open>The writing handlers of config.go\<close>

definition UpdateConfig ::
    "ProcessAPI \<Rightarrow> Host \<Rightarrow> Request \<Rightarrow> ProcessSpec \<Rightarrow> int \<Rightarrow> string \<Rightarrow> (Route \<Rightarrow> Header \<Rightarrow> callerr + ProcessSpec) \<Rightarrow> ProcessSpec handler" where
  "UpdateConfig a H rq spec0 expectedRevision comment remote =
    (case hop a (rq_Header rq) (rq_IdOrName rq) [] of Inl e \<Rightarrow> refuse e | Inr (local, rt) \<Rightarrow>
     guard (authorizeProcessRoute (pa_Auth a) (rq_Principal rq) (pa_Router a) ''process.config.update'' (rq_IdOrName rq) local rt True)
     (if \<not> local then forward a rq rt remote
      else guard (rejectMutation a)
       (guard (rejectRemoteProcess (pa_LocalOnly a) rq (rp_DisableUpdate (pa_Process a)) ''update'')
       (guard (metaOf rq)
       (guard (if expectedRevision \<le> 0 then Some (E INVALID ''expected_revision required'') else None)
        (via (Resolve_spec H (rq_IdOrName rq)) (\<lambda>existing.
         guard (authorizeProcessSpec (pa_Auth a) (rq_Principal rq) ''process.config.update'' (pa_LocalID a) (ProcessSpec.ps_Group existing) True)
         (via (ApplySpec H (spec0\<lparr>ProcessSpec.ps_ProcessID := ProcessSpec.ps_ProcessID existing\<rparr>) expectedRevision
            (rq_OperationID rq) (rq_Operator rq) comment) reply))))))))"

definition Rollback_api ::
    "ProcessAPI \<Rightarrow> Host \<Rightarrow> Request \<Rightarrow> int \<Rightarrow> int \<Rightarrow> string \<Rightarrow> (Route \<Rightarrow> Header \<Rightarrow> callerr + ProcessSpec) \<Rightarrow> ProcessSpec handler" where
  "Rollback_api a H rq toRevision expectedRevision comment remote =
    (case hop a (rq_Header rq) (rq_IdOrName rq) [] of Inl e \<Rightarrow> refuse e | Inr (local, rt) \<Rightarrow>
     guard (authorizeProcessRoute (pa_Auth a) (rq_Principal rq) (pa_Router a) ''process.config.update'' (rq_IdOrName rq) local rt True)
     (if \<not> local then forward a rq rt remote
      else guard (rejectMutation a)
       (guard (rejectRemoteProcess (pa_LocalOnly a) rq (rp_DisableUpdate (pa_Process a)) ''update'')
       (guard (metaOf rq)
        (via (Resolve_spec H (rq_IdOrName rq)) (\<lambda>existing.
         guard (authorizeProcessSpec (pa_Auth a) (rq_Principal rq) ''process.config.update'' (pa_LocalID a) (ProcessSpec.ps_Group existing) True)
         (via (Rollback H (ProcessSpec.ps_ProcessID existing) toRevision expectedRevision
            (rq_OperationID rq) (rq_Operator rq) comment) reply)))))))"

section \<open>What a handler may do\<close>

lemma wp_refuse [simp]: "wp (refuse e) Q m = Q (Inl (ToConnect (GoError e))) m"
  by (simp add: refuse_def)

lemma wp_guard [simp]: "wp (guard e k) Q m = (case e of Some err \<Rightarrow> Q (Inl (ToConnect (GoError err))) m | None \<Rightarrow> wp k Q m)"
  by (simp add: guard_def split: option.split)

lemma wp_guardI:
  "(\<And>err. e = Some err \<Longrightarrow> Q (Inl (ToConnect (GoError err))) m) \<Longrightarrow> (e = None \<Longrightarrow> wp k Q m) \<Longrightarrow> wp (guard e k) Q m"
  by (simp split: option.split)

lemma wp_prodI: "(\<And>b c. x = (b, c) \<Longrightarrow> wp (f b c) Q m) \<Longrightarrow> wp (case x of (b, c) \<Rightarrow> f b c) Q m"
  by (cases x) simp

lemma wp_via [simp]:
  "wp (via c f) Q m = wp c (\<lambda>r t. case r of Inl e \<Rightarrow> Q (Inl (ToConnect (GoError e))) t | Inr v \<Rightarrow> wp (f v) Q t) m"
  by (simp add: via_def refuse_def wp_def split: prod.split sum.split)

text \<open>Only the database was read.\<close>

definition only_read :: "Manager \<Rightarrow> Manager \<Rightarrow> bool" where
  "only_read m m' \<longleftrightarrow> (\<exists>evs. m' = m\<lparr>mg_io := map IoDb evs @ mg_io m\<rparr>)"

lemma only_read_refl [simp]: "only_read m m"
  unfolding only_read_def by (rule exI [of _ "[]"]) simp

lemma only_read_trans: "only_read m t \<Longrightarrow> only_read t u \<Longrightarrow> only_read m u"
  unfolding only_read_def by (elim exE, rule_tac x = "evsa @ evs" in exI) simp

lemma only_read_db: "only_read m t \<Longrightarrow> only_read m (t\<lparr>mg_io := IoDb e # mg_io t\<rparr>)"
  by (rule only_read_trans) (auto simp: only_read_def intro: exI [of _ "[e]"])

lemma only_read_asked [simp]:
  "only_read m (m\<lparr>mg_io := IoDb e # mg_io m\<rparr>)" "only_read m (m\<lparr>mg_io := IoDb e # IoDb e' # mg_io m\<rparr>)"
  unfolding only_read_def by (rule exI [of _ "[e]"], simp, rule exI [of _ "[e, e']"], simp)

lemma only_read_store: "only_read m t \<Longrightarrow> mg_Store t = mg_Store m"
  by (auto simp: only_read_def)

interpretation reader: effect_order only_read
  by unfold_locales (auto intro: only_read_trans)

text \<open>A forwarded request does nothing here.\<close>

lemma wp_forward: "(\<And>r. Q r m) \<Longrightarrow> wp (forward a rq rt remote) Q m"
  by (simp add: forward_def split: option.split sum.split)

text \<open>What \<^verbatim>\<open>Resolve\<close> returns is a specification of the store with that identifier or that name.\<close>

definition spec_of :: "Store \<Rightarrow> string \<Rightarrow> ProcessSpec \<Rightarrow> bool" where
  "spec_of st idOrName spec \<longleftrightarrow> GetSpec idOrName st = Inr spec \<or> GetSpecByName idOrName st = Inr spec"

lemma resolve_reads:
  "wp (Resolve_spec H x) (\<lambda>r t. only_read m t \<and> (\<forall>spec. r = Inr spec \<longrightarrow> spec_of (mg_Store m) x spec)) m"
  by (auto simp: Resolve_spec_def db_GetSpec_def db_GetSpecByName_def spec_of_def
      split: option.splits sum.splits)

lemma peek_reads:
  assumes "\<And>d t. only_read m t \<Longrightarrow> wp (f d) Q t" and "\<And>e t. only_read m t \<Longrightarrow> Q (Inl e) t"
  shows "wp (peekDone H opID f) Q m"
  unfolding peekDone_def db_GetOp_def
  by (auto intro!: assms split: option.splits sum.splits)

text \<open>When the permission is missing on every specification that is meant, a command does nothing, whatever it is.\<close>

lemma denied_command:
  assumes "pa_Auth a = Some sv" and "rq_Principal rq = Some p" and "sv_store sv = Some st"
    and "\<And>spec. spec_of (mg_Store m) (rq_IdOrName rq) spec \<Longrightarrow>
       \<not> CheckTarget (as_View st) (pr_UserID p) perm \<lparr>ct_NodeID = pa_LocalID a, ct_ProcessGroup = ProcessSpec.ps_Group spec\<rparr>"
    and "run_state (mutateRef a H rq perm remote fn) m = (r, m')"
  shows "only_read m m' \<and> (isl r \<or> (\<exists>rt. hop a (rq_Header rq) (rq_IdOrName rq) [] = Inr (False, rt)))"
proof -
  have denied: "authorizeProcessSpec (pa_Auth a) (rq_Principal rq) perm (pa_LocalID a) (ProcessSpec.ps_Group spec) True \<noteq> None"
    if "spec_of (mg_Store m) (rq_IdOrName rq) spec" for spec
    using write_needs_permission [of sv p perm _ True] assms(1-3) assms(4) [OF that]
    by (auto simp: authorizeProcessSpec_def requirePermOn_def guarded_def)
  let ?Q = "\<lambda>r m'. only_read m m' \<and> (isl r \<or> (\<exists>rt. hop a (rq_Header rq) (rq_IdOrName rq) [] = Inr (False, rt)))"
  have resolved: "wp (via (Resolve_spec H (rq_IdOrName rq)) (\<lambda>spec.
      guard (authorizeProcessSpec (pa_Auth a) (rq_Principal rq) perm (pa_LocalID a) (ProcessSpec.ps_Group spec) True) (k spec))) ?Q t"
    if "only_read m t" for t and k :: "ProcessSpec \<Rightarrow> ProcessView handler"
    unfolding wp_via using resolve_reads [of H "rq_IdOrName rq" t]
    by (rule wp_mono) (use that only_read_store [OF that] in
        \<open>auto intro: only_read_trans dest: denied split: sum.split option.split\<close>)
  have "wp (mutateRef a H rq perm remote fn) ?Q m"
    unfolding mutateRef_def
    by (intro wp_sumI wp_prodI wp_guardI wp_ifI wp_forward peek_reads resolved; (unfold wp_refuse)?; auto)
  then show ?thesis using assms(5) by (rule wp_runD)
qed

text \<open>The commands of a process, each with the permission it needs.\<close>

definition commands :: "(string \<times> (ProcessAPI \<Rightarrow> Host \<Rightarrow> Request \<Rightarrow> (Route \<Rightarrow> Header \<Rightarrow> callerr + ProcessView) \<Rightarrow> ProcessView handler)) set" where
  "commands = {(''process.start'', StartProcess), (''process.stop'', StopProcess), (''process.restart'', RestartProcess),
     (''process.stop'', KillProcess), (''process.update'', ResetFailure_api)}"

lemma command_cases: "(perm, c) \<in> commands \<Longrightarrow> \<exists>fn. c a H rq remote = mutateRef a H rq perm remote fn"
  by (auto simp: commands_def StartProcess_def StopProcess_def RestartProcess_def KillProcess_def ResetFailure_api_def)


text \<open>Views only read.\<close>

lemma reads_db: "state_io_rel only_read c \<Longrightarrow> state_io_rel only_read (db H c)"
  unfolding db_def by (intro reader.io_intros) (simp_all add: state_io_rel_def ask_def Let_def)

lemma reads_store: "state_io_rel only_read (store_read f)"
  by (simp add: state_io_rel_def store_read_def)

lemma reads_guard: "state_io_rel only_read k \<Longrightarrow> state_io_rel only_read (guard e k)"
  by (cases e) (simp_all add: guard_def refuse_def reader.io_ret)

lemma reads_via: "state_io_rel only_read c \<Longrightarrow> (\<And>v. state_io_rel only_read (f v)) \<Longrightarrow> state_io_rel only_read (via c f)"
  unfolding via_def refuse_def by (intro reader.io_intros)

lemmas reads_intros = reader.io_intros reads_db reads_store reads_guard reads_via

lemma view_reads: "state_io_rel only_read (viewOf H spec)"
proof -
  have "state_io_rel only_read (pending_flags H spec is)" for "is"
    by (induction "is") (auto intro!: reads_intros simp: EffectiveLog_def db_GetRevisionSpec_def)
  then show ?thesis
    unfolding viewOf_def db_ListInstances_def by (intro reads_intros)
qed

lemma wp_reads: "state_io_rel only_read c \<Longrightarrow> wp c (\<lambda>_. only_read m) m"
  by (simp add: state_io_rel_def wp_def case_prod_beta)

text \<open>
  A finished operation is not run again. When the journal holds the request's operation as succeeded or failed,
  the handler of the command leaves the store and the rest of the manager as they are and asks the host nothing but the
  database. A fault of the database is not taken for a missing row.
\<close>

theorem finished_operation_only_reads:
  assumes "(perm, c) \<in> commands" and "GetOp (rq_OperationID rq) (mg_Store m) = Inr (status, res, msg)" and "status \<in> {OpSuccess, OpFailed}"
    and "\<And>e. h_db H (mg_io m) = Some e \<Longrightarrow> \<not> err_is e NOT_FOUND"
    and "run_state (c a H rq remote) m = (r, m')"
  shows "only_read m m'"
proof -
  obtain fn where fn: "c a H rq remote = mutateRef a H rq perm remote fn" using command_cases [OF assms(1)] by blast
  have replay: "state_io_rel only_read (via (Resolve_spec H i) (\<lambda>spec. guard (check spec) (viewOf H spec)))" for i check
    unfolding Resolve_spec_def db_GetSpec_def db_GetSpecByName_def by (intro reads_intros view_reads)
  have peek: "wp (peekDone H (rq_OperationID rq) (\<lambda>(d, _). via (Resolve_spec H i) (\<lambda>spec. guard (check spec)
      (if d then viewOf H spec else k spec)))) (\<lambda>_. only_read m) m" for i check k
  proof -
    let ?t = "\<lambda>e. m\<lparr>mg_io := IoDb e # mg_io m\<rparr>"
    have "wp (via (Resolve_spec H i) (\<lambda>spec. guard (check spec) (viewOf H spec))) (\<lambda>_. only_read m) (?t None)"
      by (rule wp_mono [OF wp_reads [OF replay]]) (rule only_read_trans [OF only_read_asked(1)])
    then show ?thesis using assms(2-4)
      by (auto simp: peekDone_def db_GetOp_def split: option.splits)
  qed
  have "wp (mutateRef a H rq perm remote fn) (\<lambda>_. only_read m) m"
    unfolding mutateRef_def
    by (intro wp_sumI wp_prodI wp_guardI wp_ifI wp_forward peek; (unfold wp_refuse)?; simp)
  then show ?thesis using assms(5) unfolding fn by (rule wp_runD)
qed

text \<open>
  An update of a configuration checks the group that the process is in, and not the one it is moved to. The same change
  through \<^verbatim>\<open>ApplyProcess\<close> needs the permission on both.
\<close>

lemma config_update_checks_old_group:
  assumes "pa_LocalOnly a" and "\<not> pa_Degraded a" and "rq_OperationID rq \<noteq> []" and "0 < expectedRevision"
    and "rejectRemoteProcess True rq (rp_DisableUpdate (pa_Process a)) ''update'' = None"
    and "requireAnyPerm (pa_Auth a) (rq_Principal rq) ''process.config.update'' = None"
    and "run_state (Resolve_spec H (rq_IdOrName rq)) m = (Inr existing, t)"
    and "authorizeProcessSpec (pa_Auth a) (rq_Principal rq) ''process.config.update'' (pa_LocalID a) (ProcessSpec.ps_Group existing) True = None"
  shows "run_state (UpdateConfig a H rq spec0 expectedRevision comment remote) m
    = run_state (via (ApplySpec H (spec0\<lparr>ProcessSpec.ps_ProcessID := ProcessSpec.ps_ProcessID existing\<rparr>) expectedRevision
        (rq_OperationID rq) (rq_Operator rq) comment) reply) t"
proof -
  have h: "hop a (rq_Header rq) (rq_IdOrName rq) [] = Inr (True, \<lparr>ro_Local = True, ro_NodeID = pa_LocalID a, ro_RPC = []\<rparr>)"
    by (cases "pa_Router a") (simp_all add: hop_def hopRoute_def assms(1))
  have r: "authorizeProcessRoute (pa_Auth a) (rq_Principal rq) (pa_Router a) ''process.config.update'' (rq_IdOrName rq) True rt True = None" for rt
    by (simp add: authorizeProcessRoute_def assms(6))
  have v: "run_state (via (Resolve_spec H (rq_IdOrName rq)) f) m = run_state (f existing) t" for f :: "ProcessSpec \<Rightarrow> ProcessSpec handler"
    by (simp add: via_def assms(7))
  show ?thesis
    using assms(2-5) by (simp add: UpdateConfig_def h r guard_def rejectMutation_def metaOf_def v assms(1,8))
qed

lemma apply_checks_both_groups:
  assumes "authorizeApplyGroups svc p perm node old new True True local = None" and "new \<noteq> []"
  shows "requirePermOn svc p perm \<lparr>ct_NodeID = node, ct_ProcessGroup = old\<rparr> True local = None
    \<and> requirePermOn svc p perm \<lparr>ct_NodeID = node, ct_ProcessGroup = new\<rparr> True local = None"
  using assms by (auto simp: authorizeApplyGroups_def Let_def split: option.splits if_splits)

section \<open>The properties at a concrete agent\<close>

definition demo_api :: ProcessAPI where
  "demo_api = \<lparr>pa_Auth = Some \<lparr>sv_store = Some \<lparr>as_View = NewState, as_HasQuorum = True, as_CacheFresh = (\<lambda>_. True)\<rparr>, sv_hits = []\<rparr>,
     pa_Degraded = False, pa_LocalOnly = True, pa_LocalID = ''n1'', pa_Router = None, pa_Dial = None,
     pa_Process = \<lparr>rp_DisableCreate = False, rp_DisableUpdate = False, rp_DisableDelete = False\<rparr>, pa_is_timeout = (\<lambda>_. False)\<rparr>"

definition demo_request :: Request where
  "demo_request = \<lparr>rq_Principal = Some login_principal, rq_Header = no_header, rq_Loopback = True, rq_IdOrName = ''web'',
     rq_OperationID = ''op1'', rq_Operator = []\<rparr>"

definition stop_web :: "Manager \<Rightarrow> (callerr + ProcessView) \<times> Manager" where
  "stop_web = run_state (StopProcess demo_api calm_host demo_request (\<lambda>_ _. Inl (GoError (Plain ''unused''))))"


definition stopped_manager :: Manager where
  "stopped_manager = web_manager\<lparr>mg_Store := (mg_Store web_manager)\<lparr>st_ops := [(''op1'',
     \<lparr>op_OperationID = ''op1'', op_Operator = [], op_Target = ''p1'', op_Type = ''SetDesired'', op_Status = OpSuccess,
       op_Result = None, op_Error = []\<rparr>)]\<rparr>\<rparr>"

theorem finished_operation_only_reads_witness:
  "mg_Store (snd (stop_web stopped_manager)) = mg_Store stopped_manager"
proof -
  obtain r m' where r: "stop_web stopped_manager = (r, m')" by fastforce
  have "only_read stopped_manager m'"
    by (rule finished_operation_only_reads [where c = StopProcess and perm = "''process.stop''" and status = OpSuccess,
        OF _ _ _ _ r [unfolded stop_web_def]])
      (simp_all add: commands_def stopped_manager_def demo_request_def GetOp_def calm_host_def)
  then show ?thesis using only_read_store by (auto simp: r)
qed

end
