(* ===== verification/Batch_Expand.thy ===== *)
theory Batch_Expand imports Batch_Engine Cluster_Types
begin

text \<open>
  From a selector to the targets of a batch (\<^verbatim>\<open>internal/batch/expand.go\<close>), with the expander that the API builds
  for a request (\<^verbatim>\<open>internal/api/batch_expand.go\<close>): candidates come from the gossip snapshot, the owner's answer decides,
  and every target is checked against the permissions of the caller. The owner's answers (local manager or remote call)
  and the overlay of a configuration are parameters.
\<close>

section \<open>Data\<close>

record ProcView =
  pv_ProcessID :: string
  pv_Name :: string
  pv_Group :: string
  pv_LatestRevision :: int

record NodeView =
  nv_NodeID :: string
  nv_Processes :: "ProcView list"

record OwnerSpec =
  os_ProcessID :: string
  os_Name :: string
  os_NodeID :: string
  os_Group :: string
  os_LatestRevision :: int
  os_SpecJSON :: string

record RealExpander =
  ex_Cluster :: "NodeView list option"
  ex_Groups :: "(string \<Rightarrow> goerror + string list) option"
  ex_Specs :: "(string \<Rightarrow> string \<Rightarrow> goerror + OwnerSpec) option"
  ex_Auth :: "(string \<Rightarrow> string \<Rightarrow> string \<Rightarrow> goerror option) option"
  ex_ConfigOverlay :: "(OwnerSpec \<Rightarrow> goerror + (string \<times> int)) option"
  ex_deadline :: "goerror \<Rightarrow> bool"

record lookupHint =
  lh_nodeID :: string
  lh_processID :: string
  lh_processName :: string
  lh_requireGroup :: string
  lh_dropMissing :: bool

definition hint :: "string \<Rightarrow> string \<Rightarrow> string \<Rightarrow> lookupHint" where
  "hint node processID name = \<lparr>lh_nodeID = node, lh_processID = processID, lh_processName = name, lh_requireGroup = [], lh_dropMissing = False\<rparr>"

text \<open>The targets so far; a second target with the key of an earlier one is dropped.\<close>

record targetAcc =
  ac_out :: "Target list"
  ac_seen :: "string set"

definition target_key :: "Target \<Rightarrow> string" where
  "target_key t = tg_NodeID t @ [CHR 0x00] @ tg_ProcessID t @ (if tg_ProcessID t = [] then [CHR 0x00] @ tg_ProcessName t else [])"

definition acc_add :: "Target \<Rightarrow> targetAcc \<Rightarrow> targetAcc" where
  "acc_add t acc =
    (if target_key t \<in> ac_seen acc then acc
     else acc\<lparr>ac_out := ac_out acc @ [t], ac_seen := insert (target_key t) (ac_seen acc)\<rparr>)"

section \<open>One target\<close>

definition permForType :: "BatchType \<Rightarrow> string" where
  "permForType typ0 = (case typ0 of BatchStart \<Rightarrow> ''process.start'' | BatchStop \<Rightarrow> ''process.stop''
     | BatchRestart \<Rightarrow> ''process.restart'' | BatchConfigUpdate \<Rightarrow> ''process.config.update'' | BatchOther _ \<Rightarrow> [])"

definition retainExpandStatus :: "RealExpander \<Rightarrow> goerror \<Rightarrow> TargetStatus option" where
  "retainExpandStatus x err =
    (if err_is err TIMEOUT \<or> ex_deadline x err then Some TargetTimeout
     else if err_is err UNAVAILABLE then Some TargetUnavailable else None)"

definition getSpec :: "RealExpander \<Rightarrow> string \<Rightarrow> string \<Rightarrow> goerror + OwnerSpec" where
  "getSpec x node i = (case ex_Specs x of None \<Rightarrow> fail NOT_FOUND ''process'' | Some f \<Rightarrow> f node i)"

definition nodes :: "RealExpander \<Rightarrow> NodeView list" where
  "nodes x = (case ex_Cluster x of None \<Rightarrow> [] | Some ns \<Rightarrow> ns)"

text \<open>The configuration of a \<^verbatim>\<open>CONFIG_UPDATE\<close> target; a denied target keeps its status.\<close>

definition add_overlay :: "RealExpander \<Rightarrow> OwnerSpec \<Rightarrow> Target \<Rightarrow> Target" where
  "add_overlay x spec t =
    (case ex_ConfigOverlay x of
       None \<Rightarrow> if tg_Status t = TargetDenied then t else t\<lparr>tg_Status := TargetInvalid, tg_Error := ''config overlay''\<rparr>
     | Some f \<Rightarrow> (case f spec of
           Inl err \<Rightarrow> if tg_Status t = TargetDenied then t else t\<lparr>tg_Status := TargetInvalid, tg_Error := err_text err\<rparr>
         | Inr (payload, revn) \<Rightarrow> t\<lparr>tg_PayloadJSON := payload, tg_ExpectedRevision := revn\<rparr>))"

definition finish :: "RealExpander \<Rightarrow> OwnerSpec \<Rightarrow> BatchType \<Rightarrow> TargetStatus \<Rightarrow> string \<Rightarrow> goerror + Target" where
  "finish x spec typ0 status errMsg =
    (let t = zero_target\<lparr>tg_NodeID := os_NodeID spec, tg_ProcessID := os_ProcessID spec, tg_ProcessName := os_Name spec,
           tg_Status := status, tg_Error := errMsg\<rparr> in
     if status = TargetInvalid then Inr t
     else case (case ex_Auth x of None \<Rightarrow> None | Some allow \<Rightarrow> allow (os_NodeID spec) (os_Group spec) (permForType typ0)) of
         Some err \<Rightarrow> if \<not> err_is err DENIED then Inl err
            else let t = t\<lparr>tg_Status := TargetDenied, tg_Error := err_text err\<rparr> in
              Inr (if typ0 \<noteq> BatchConfigUpdate then t else add_overlay x spec t)
       | None \<Rightarrow> Inr (if typ0 \<noteq> BatchConfigUpdate then t else add_overlay x spec t))"

definition failed_target :: "string \<Rightarrow> string \<Rightarrow> string \<Rightarrow> TargetStatus \<Rightarrow> string \<Rightarrow> Target" where
  "failed_target node processID name status errMsg =
    zero_target\<lparr>tg_NodeID := node, tg_ProcessID := processID, tg_ProcessName := name, tg_Status := status, tg_Error := errMsg\<rparr>"

definition fill_spec :: "string \<Rightarrow> string \<Rightarrow> OwnerSpec \<Rightarrow> OwnerSpec" where
  "fill_spec node processID spec =
    spec\<lparr>os_NodeID := (if os_NodeID spec = [] then node else os_NodeID spec),
         os_ProcessID := (if os_ProcessID spec = [] then processID else os_ProcessID spec)\<rparr>"

definition addFromGet :: "RealExpander \<Rightarrow> string \<Rightarrow> string \<Rightarrow> BatchType \<Rightarrow> lookupHint \<Rightarrow> targetAcc \<Rightarrow> goerror + targetAcc" where
  "addFromGet x node idOrName typ0 h acc =
    (case getSpec x node idOrName of
       Inl err \<Rightarrow>
        if err_is err NOT_FOUND then
          (if lh_dropMissing h then Inr acc
           else Inr (acc_add (failed_target (lh_nodeID h) (lh_processID h) (lh_processName h) TargetInvalid ''process not found'') acc))
        else (case retainExpandStatus x err of
            Some st \<Rightarrow> Inr (acc_add (failed_target (lh_nodeID h) (lh_processID h) (lh_processName h) st (err_text err)) acc)
          | None \<Rightarrow> Inl err)
     | Inr spec0 \<Rightarrow>
        let spec = fill_spec node (lh_processID h) spec0;
            mismatch = (lh_requireGroup h \<noteq> [] \<and> os_Group spec \<noteq> lh_requireGroup h)
        in map_sum id (\<lambda>t. acc_add t acc)
             (finish x spec typ0 (if mismatch then TargetInvalid else TargetUnset) (if mismatch then ''group mismatch'' else [])))"

section \<open>The selectors\<close>

text \<open>A loop that returns at the first error.\<close>

fun accumulate :: "('b \<Rightarrow> targetAcc \<Rightarrow> goerror + targetAcc) \<Rightarrow> 'b list \<Rightarrow> targetAcc \<Rightarrow> goerror + targetAcc" where
  "accumulate f [] acc = Inr acc"
| "accumulate f (y # ys) acc = (case f y acc of Inl err \<Rightarrow> Inl err | Inr acc' \<Rightarrow> accumulate f ys acc')"

definition ownerOf :: "NodeView list \<Rightarrow> string \<Rightarrow> string option" where
  "ownerOf ns i = (if i = [] then None else map_option nv_NodeID (find (\<lambda>n. list_ex (\<lambda>p. pv_ProcessID p = i) (nv_Processes n)) ns))"

text \<open>An identifier that no node advertises is asked of every node in turn.\<close>

fun ask_nodes :: "RealExpander \<Rightarrow> BatchType \<Rightarrow> string \<Rightarrow> NodeView list \<Rightarrow> goerror option \<Rightarrow> targetAcc \<Rightarrow> goerror + targetAcc" where
  "ask_nodes x typ0 i [] retained acc =
    (case retained of
       Some err \<Rightarrow> Inr (acc_add (failed_target [] i [] (case retainExpandStatus x err of Some st \<Rightarrow> st | None \<Rightarrow> TargetUnset) (err_text err)) acc)
     | None \<Rightarrow> Inr (acc_add (failed_target [] i [] TargetInvalid ''process not found'') acc))"
| "ask_nodes x typ0 i (n # ns) retained acc =
    (case getSpec x (nv_NodeID n) i of
       Inr spec \<Rightarrow> map_sum id (\<lambda>t. acc_add t acc) (finish x (fill_spec (nv_NodeID n) i spec) typ0 TargetUnset [])
     | Inl err \<Rightarrow>
        if err_is err NOT_FOUND then ask_nodes x typ0 i ns retained acc
        else if retainExpandStatus x err \<noteq> None then ask_nodes x typ0 i ns (Some err) acc
        else Inl err)"

definition add_process_id :: "RealExpander \<Rightarrow> BatchType \<Rightarrow> string \<Rightarrow> targetAcc \<Rightarrow> goerror + targetAcc" where
  "add_process_id x typ0 raw acc =
    (let i = TrimSpace raw in
     if i = [] then Inr acc
     else case ownerOf (nodes x) i of
         Some node \<Rightarrow> addFromGet x node i typ0 (hint node i []) acc
       | None \<Rightarrow> ask_nodes x typ0 i (nodes x) None acc)"

definition expandProcessIDs :: "RealExpander \<Rightarrow> string list \<Rightarrow> BatchType \<Rightarrow> targetAcc \<Rightarrow> goerror + targetAcc" where
  "expandProcessIDs x ids typ0 acc = accumulate (add_process_id x typ0) ids acc"

definition expandProcessNames :: "RealExpander \<Rightarrow> ProcessNameRef list \<Rightarrow> BatchType \<Rightarrow> targetAcc \<Rightarrow> goerror + targetAcc" where
  "expandProcessNames x refs typ0 acc =
    accumulate (\<lambda>ref acc. let node = TrimSpace (nr_NodeID ref); name = TrimSpace (nr_ProcessName ref) in
      if node = [] \<and> name = [] then Inr acc else addFromGet x node name typ0 (hint node [] name) acc) refs acc"

definition expandAgentGroup :: "RealExpander \<Rightarrow> string list \<Rightarrow> BatchType \<Rightarrow> targetAcc \<Rightarrow> goerror + targetAcc" where
  "expandAgentGroup x members typ0 acc =
    accumulate (\<lambda>n. accumulate (\<lambda>p acc. if pv_ProcessID p = [] then Inr acc
        else addFromGet x (nv_NodeID n) (pv_ProcessID p) typ0 ((hint (nv_NodeID n) (pv_ProcessID p) [])\<lparr>lh_dropMissing := True\<rparr>) acc)
      (nv_Processes n)) (filter (\<lambda>n. nv_NodeID n \<in> set members) (nodes x)) acc"

definition expandProcessGroup :: "RealExpander \<Rightarrow> string \<Rightarrow> BatchType \<Rightarrow> targetAcc \<Rightarrow> goerror + targetAcc" where
  "expandProcessGroup x name typ0 acc =
    accumulate (\<lambda>n. accumulate (\<lambda>p acc. if pv_Group p \<noteq> name \<or> pv_ProcessID p = [] then Inr acc
        else addFromGet x (nv_NodeID n) (pv_ProcessID p) typ0
          ((hint (nv_NodeID n) (pv_ProcessID p) (pv_Name p))\<lparr>lh_requireGroup := name\<rparr>) acc)
      (nv_Processes n)) (nodes x) acc"

definition Expand :: "RealExpander \<Rightarrow> expander" where
  "Expand x sel typ0 =
    (let pg = TrimSpace (sl_ProcessGroup sel) in
     if sl_ProcessGroup sel \<noteq> [] \<and> \<not> name64_match pg then fail INVALID ''process group''
     else case (if sl_AgentGroupID sel = [] then Inr []
                else let gid = TrimSpace (sl_AgentGroupID sel) in
                  case ex_Groups x of
                    None \<Rightarrow> fail INVALID ''agent group''
                  | Some f \<Rightarrow> if gid = [] then fail INVALID ''agent group'' else f gid) of
         Inl err \<Rightarrow> Inl err
       | Inr members \<Rightarrow>
        (case expandProcessIDs x (sl_ProcessIDs sel) typ0 \<lparr>ac_out = [], ac_seen = {}\<rparr> of Inl err \<Rightarrow> Inl err | Inr a1 \<Rightarrow>
          (case expandProcessNames x (sl_ProcessNames sel) typ0 a1 of Inl err \<Rightarrow> Inl err | Inr a2 \<Rightarrow>
            (case (if sl_AgentGroupID sel \<noteq> [] then expandAgentGroup x members typ0 a2 else Inr a2) of Inl err \<Rightarrow> Inl err | Inr a3 \<Rightarrow>
              map_sum id ac_out (if pg \<noteq> [] then expandProcessGroup x pg typ0 a3 else Inr a3)))))"

section \<open>The expander of a request (api/batch_expand.go)\<close>

definition proc_view :: "ProcessSummary \<Rightarrow> ProcView" where
  "proc_view p = \<lparr>pv_ProcessID = ps_ProcessID p, pv_Name = ps_Name p, pv_Group = ps_Group p, pv_LatestRevision = ps_LatestRevision p\<rparr>"

definition cluster_nodes :: "NodeSummary list \<Rightarrow> NodeView list" where
  "cluster_nodes ms = map (\<lambda>n. \<lparr>nv_NodeID = ns_NodeID n, nv_Processes = map proc_view (ns_Processes n)\<rparr>) ms"

definition group_view_members :: "AuthService option \<Rightarrow> string \<Rightarrow> goerror + string list" where
  "group_view_members svc gid =
    (case svc of None \<Rightarrow> fail INVALID ''agent group'' | Some sv \<Rightarrow>
      (case sv_store sv of None \<Rightarrow> fail INVALID ''agent group'' | Some st \<Rightarrow>
        (case mget (AgentGroups (as_View st)) gid of None \<Rightarrow> fail INVALID ''agent group'' | Some g \<Rightarrow> Inr (g_MemberIDs g))))"

definition batch_allow :: "AuthService option \<Rightarrow> Principal \<Rightarrow> string \<Rightarrow> string \<Rightarrow> string \<Rightarrow> goerror option" where
  "batch_allow svc p node pgroup perm =
    (case svc of None \<Rightarrow> None | Some sv \<Rightarrow>
       if pr_UserID p = [] then None else AllowOn sv p perm \<lparr>ct_NodeID = node, ct_ProcessGroup = pgroup\<rparr>)"

definition newExpander ::
    "AuthService option \<Rightarrow> NodeSummary list \<Rightarrow> (string \<Rightarrow> string \<Rightarrow> goerror + OwnerSpec) \<Rightarrow> (goerror \<Rightarrow> bool)
      \<Rightarrow> (OwnerSpec \<Rightarrow> goerror + (string \<times> int)) option \<Rightarrow> Principal \<Rightarrow> RealExpander" where
  "newExpander svc members specs is_deadline overlay p =
    \<lparr>ex_Cluster = Some (cluster_nodes members), ex_Groups = Some (group_view_members svc), ex_Specs = Some specs,
     ex_Auth = Some (batch_allow svc p), ex_ConfigOverlay = overlay, ex_deadline = is_deadline\<rparr>"

section \<open>Every target was checked\<close>

lemma accumulate_inv:
  assumes "accumulate f ys acc = Inr acc'" and "I acc" and "\<And>y a a'. y \<in> set ys \<Longrightarrow> I a \<Longrightarrow> f y a = Inr a' \<Longrightarrow> I a'"
  shows "I acc'"
  using assms by (induction ys arbitrary: acc) (auto split: sum.splits)

text \<open>A target that is to run, or that was denied, comes with the owner's answer and the verdict on it.\<close>

definition from_owner :: "RealExpander \<Rightarrow> BatchType \<Rightarrow> goerror option \<Rightarrow> Target \<Rightarrow> bool" where
  "from_owner x typ0 verdict t \<longleftrightarrow> (\<exists>node i pid spec0 spec. getSpec x node i = Inr spec0 \<and> spec = fill_spec node pid spec0
     \<and> tg_NodeID t = os_NodeID spec \<and> tg_ProcessID t = os_ProcessID spec
     \<and> (case ex_Auth x of None \<Rightarrow> verdict = None | Some allow \<Rightarrow> allow (os_NodeID spec) (os_Group spec) (permForType typ0) = verdict))"

definition checked :: "RealExpander \<Rightarrow> BatchType \<Rightarrow> Target \<Rightarrow> bool" where
  "checked x typ0 t \<longleftrightarrow> (tg_Status t = TargetUnset \<longrightarrow> from_owner x typ0 None t)
     \<and> (tg_Status t = TargetDenied \<longrightarrow> (\<exists>err. err_is err DENIED \<and> from_owner x typ0 (Some err) t))"

definition acc_ok :: "RealExpander \<Rightarrow> BatchType \<Rightarrow> targetAcc \<Rightarrow> bool" where
  "acc_ok x typ0 acc \<longleftrightarrow> distinct (map target_key (ac_out acc)) \<and> ac_seen acc = target_key ` set (ac_out acc)
     \<and> (\<forall>t\<in>set (ac_out acc). checked x typ0 t)"

lemma acc_add_ok: "acc_ok x typ0 acc \<Longrightarrow> checked x typ0 t \<Longrightarrow> acc_ok x typ0 (acc_add t acc)"
  by (auto simp: acc_ok_def acc_add_def)

lemma failed_checked: "st \<noteq> TargetUnset \<Longrightarrow> st \<noteq> TargetDenied \<Longrightarrow> checked x typ0 (failed_target node processID name st errMsg)"
  by (simp add: checked_def failed_target_def)

lemma retain_status: "retainExpandStatus x err = Some st \<Longrightarrow> st \<noteq> TargetUnset \<and> st \<noteq> TargetDenied"
  by (auto simp: retainExpandStatus_def split: if_splits)

lemma overlay_frame: "tg_NodeID (add_overlay x spec t) = tg_NodeID t \<and> tg_ProcessID (add_overlay x spec t) = tg_ProcessID t
    \<and> (tg_Status (add_overlay x spec t) = tg_Status t \<or> tg_Status (add_overlay x spec t) = TargetInvalid \<and> tg_Status t \<noteq> TargetDenied)"
  by (auto simp: add_overlay_def split: option.split sum.split prod.split)

lemma finish_checked:
  assumes "finish x spec typ0 status errMsg = Inr t" and "getSpec x node i = Inr spec0" and "spec = fill_spec node pid spec0"
    and "status = TargetUnset \<or> status = TargetInvalid"
  shows "checked x typ0 t"
proof (cases "status = TargetInvalid")
  case True
  with assms(1) show ?thesis by (auto simp: finish_def checked_def Let_def)
next
  case False
  let ?v = "case ex_Auth x of None \<Rightarrow> None | Some allow \<Rightarrow> allow (os_NodeID spec) (os_Group spec) (permForType typ0)"
  let ?t = "zero_target\<lparr>tg_NodeID := os_NodeID spec, tg_ProcessID := os_ProcessID spec, tg_ProcessName := os_Name spec,
    tg_Status := status, tg_Error := errMsg\<rparr>"
  have owner: "from_owner x typ0 ?v u" if "tg_NodeID u = os_NodeID spec" "tg_ProcessID u = os_ProcessID spec" for u
    unfolding from_owner_def
    by (rule exI [of _ node], rule exI [of _ i], rule exI [of _ pid], rule exI [of _ spec0], rule exI [of _ spec])
      (use assms(2,3) that in \<open>auto split: option.split\<close>)
  have st: "status = TargetUnset" using False assms(4) by simp
  show ?thesis
  proof (cases ?v)
    case None
    then have "t = (if typ0 \<noteq> BatchConfigUpdate then ?t else add_overlay x spec ?t)"
      using assms(1) False by (simp add: finish_def Let_def)
    then have "tg_NodeID t = os_NodeID spec" "tg_ProcessID t = os_ProcessID spec" "tg_Status t = TargetUnset \<or> tg_Status t = TargetInvalid"
      using overlay_frame [of x spec ?t] st by auto
    then show ?thesis using owner [of t] None by (auto simp: checked_def)
  next
    case (Some err)
    let ?d = "?t\<lparr>tg_Status := TargetDenied, tg_Error := err_text err\<rparr>"
    from Some have d: "err_is err DENIED" and "t = (if typ0 \<noteq> BatchConfigUpdate then ?d else add_overlay x spec ?d)"
      using assms(1) False by (auto simp: finish_def Let_def split: if_splits)
    then have "tg_NodeID t = os_NodeID spec" "tg_ProcessID t = os_ProcessID spec" "tg_Status t = TargetDenied"
      using overlay_frame [of x spec ?d] by auto
    then show ?thesis using owner [of t] Some d by (auto simp: checked_def)
  qed
qed

lemma addFromGet_ok:
  assumes "addFromGet x node i typ0 h acc = Inr acc'" and "acc_ok x typ0 acc"
  shows "acc_ok x typ0 acc'"
proof (cases "getSpec x node i")
  case (Inl err)
  with assms retain_status show ?thesis
    by (auto simp: addFromGet_def split: if_splits option.splits intro!: acc_add_ok failed_checked)
next
  case (Inr spec0)
  with assms obtain t status errMsg where "finish x (fill_spec node (lh_processID h) spec0) typ0 status errMsg = Inr t"
    and "status = TargetUnset \<or> status = TargetInvalid" and "acc' = acc_add t acc"
    by (auto simp: addFromGet_def Let_def split: if_splits)
  with finish_checked [OF this(1) Inr refl this(2)] assms(2) show ?thesis by (simp add: acc_add_ok)
qed

lemma ask_nodes_ok:
  assumes "ask_nodes x typ0 i ns retained acc = Inr acc'" and "acc_ok x typ0 acc"
    and "\<And>err. retained = Some err \<Longrightarrow> retainExpandStatus x err \<noteq> None"
  shows "acc_ok x typ0 acc'"
  using assms
proof (induction x typ0 i ns retained acc rule: ask_nodes.induct)
  case (1 x typ0 i retained acc)
  show ?case
  proof (cases retained)
    case None
    with 1 show ?thesis by (auto intro!: acc_add_ok failed_checked)
  next
    case (Some err)
    with 1(3) obtain st where st: "retainExpandStatus x err = Some st" by auto
    with 1(1,2) Some retain_status [OF st] show ?thesis by (auto intro!: acc_add_ok failed_checked)
  qed
next
  case (2 x typ0 i n ns retained acc)
  show ?case
  proof (cases "getSpec x (nv_NodeID n) i")
    case (Inl err)
    with "2.prems"(1) consider "ask_nodes x typ0 i ns retained acc = Inr acc'" "err_is err NOT_FOUND"
      | "ask_nodes x typ0 i ns (Some err) acc = Inr acc'" "\<not> err_is err NOT_FOUND" "retainExpandStatus x err \<noteq> None"
      by (auto split: if_splits)
    then show ?thesis
      by cases (use "2.IH" Inl "2.prems"(2,3) in auto)
  next
    case (Inr spec0)
    with "2.prems"(1) obtain t where "finish x (fill_spec (nv_NodeID n) i spec0) typ0 TargetUnset [] = Inr t" "acc' = acc_add t acc"
      by auto
    with finish_checked [OF this(1) Inr refl] "2.prems"(2) show ?thesis by (simp add: acc_add_ok)
  qed
qed

lemma expand_ok:
  assumes "Expand x sel typ0 = Inr ts"
  shows "distinct (map target_key ts) \<and> (\<forall>t\<in>set ts. checked x typ0 t)"
proof -
  let ?I = "acc_ok x typ0"
  have ids: "?I a'" if "expandProcessIDs x is typ0 a = Inr a'" "?I a" for "is" a a'
    using that unfolding expandProcessIDs_def
    by (rule accumulate_inv) (auto simp: add_process_id_def Let_def split: if_splits option.splits intro: addFromGet_ok ask_nodes_ok)
  have names: "?I a'" if "expandProcessNames x rs typ0 a = Inr a'" "?I a" for rs a a'
    using that unfolding expandProcessNames_def
    by (rule accumulate_inv) (auto simp: Let_def split: if_splits intro: addFromGet_ok)
  have groups: "?I a'" if "expandAgentGroup x ms typ0 a = Inr a'" "?I a" for ms a a'
    using that unfolding expandAgentGroup_def
    by (rule accumulate_inv) (erule accumulate_inv, auto split: if_splits intro: addFromGet_ok)
  have pgroups: "?I a'" if "expandProcessGroup x pg typ0 a = Inr a'" "?I a" for pg a a'
    using that unfolding expandProcessGroup_def
    by (rule accumulate_inv) (erule accumulate_inv, auto split: if_splits intro: addFromGet_ok)
  have i0: "?I \<lparr>ac_out = [], ac_seen = {}\<rparr>" by (simp add: acc_ok_def)
  obtain a1 a2 a3 acc ms where e1: "expandProcessIDs x (sl_ProcessIDs sel) typ0 \<lparr>ac_out = [], ac_seen = {}\<rparr> = Inr a1"
    and e2: "expandProcessNames x (sl_ProcessNames sel) typ0 a1 = Inr a2" and e3: "a3 = a2 \<or> expandAgentGroup x ms typ0 a2 = Inr a3"
    and e4: "acc = a3 \<or> expandProcessGroup x (TrimSpace (sl_ProcessGroup sel)) typ0 a3 = Inr acc" and ts: "ts = ac_out acc"
    using assms unfolding Expand_def Let_def by (fastforce split: if_splits sum.splits)
  have "?I a2" by (rule names [OF e2 ids [OF e1 i0]])
  then have "?I a3" using e3 groups by blast
  then have "?I acc" using e4 pgroups by blast
  then show ?thesis by (simp add: acc_ok_def ts)
qed

text \<open>
  C23: The targets of a batch are those the caller may act on. When the selector of an authenticated caller is expanded,
  no process is listed twice; every target that is left to run was found at its owner, and the control state grants the
  caller the permission of the batch's type on the owner's node and the process group that the owner reports; every
  target marked as denied was found at its owner and is refused by the control state.
\<close>

theorem expanded_targets_authorised:
  assumes "Expand (newExpander (Some sv) members specs is_deadline overlay p) sel typ0 = Inr ts" and "sv_store sv = Some st"
    and "pr_UserID p \<noteq> []" and "t \<in> set ts" and "tg_Status t \<in> {TargetUnset, TargetDenied}"
  shows "distinct (map target_key ts)
    \<and> (\<exists>node i pid spec0. specs node i = Inr spec0
        \<and> (let spec = fill_spec node pid spec0 in tg_NodeID t = os_NodeID spec \<and> tg_ProcessID t = os_ProcessID spec
            \<and> (tg_Status t = TargetUnset \<longleftrightarrow> CheckTarget (as_View st) (pr_UserID p) (permForType typ0)
                 \<lparr>ct_NodeID = os_NodeID spec, ct_ProcessGroup = os_Group spec\<rparr>)))"
proof -
  let ?x = "newExpander (Some sv) members specs is_deadline overlay p"
  from expand_ok [OF assms(1)] assms(4) have d: "distinct (map target_key ts)" and c: "checked ?x typ0 t" by blast+
  obtain verdict where v: "from_owner ?x typ0 verdict t" "verdict = None \<longleftrightarrow> tg_Status t = TargetUnset"
    using c assms(5) by (auto simp: checked_def)
  then obtain node i pid spec0 where o: "getSpec ?x node i = Inr spec0"
    "tg_NodeID t = os_NodeID (fill_spec node pid spec0)" "tg_ProcessID t = os_ProcessID (fill_spec node pid spec0)"
    "batch_allow (Some sv) p (os_NodeID (fill_spec node pid spec0)) (os_Group (fill_spec node pid spec0)) (permForType typ0) = verdict"
    unfolding from_owner_def by (auto simp: newExpander_def)
  have "specs node i = Inr spec0" using o(1) by (simp add: getSpec_def newExpander_def)
  moreover have "tg_Status t = TargetUnset \<longleftrightarrow> CheckTarget (as_View st) (pr_UserID p) (permForType typ0)
      \<lparr>ct_NodeID = os_NodeID (fill_spec node pid spec0), ct_ProcessGroup = os_Group (fill_spec node pid spec0)\<rparr>"
    using o(4) v(2) assms(2,3) by (auto simp: batch_allow_def AllowOn_def split: if_splits)
  ultimately show ?thesis using d o(2,3) unfolding Let_def by blast
qed

definition demo_service :: AuthService where
  "demo_service = \<lparr>sv_store = Some \<lparr>as_View = NewState, as_HasQuorum = True, as_CacheFresh = (\<lambda>_. True)\<rparr>, sv_hits = []\<rparr>"

definition demo_principal :: Principal where
  "demo_principal = \<lparr>pr_UserID = ''u'', pr_Username = ''u'', pr_SessionID = [], pr_TokenID = [], pr_CSRF = []\<rparr>"

definition demo_spec :: OwnerSpec where
  "demo_spec = \<lparr>os_ProcessID = ''x'', os_Name = ''web'', os_NodeID = ''n'', os_Group = [], os_LatestRevision = 1, os_SpecJSON = []\<rparr>"

definition demo_names :: BatchSelector where
  "demo_names = \<lparr>sl_ProcessIDs = [], sl_ProcessNames = [\<lparr>nr_NodeID = ''n'', nr_ProcessName = ''web''\<rparr>], sl_AgentGroupID = [], sl_ProcessGroup = []\<rparr>"

lemma demo_expand:
  "Expand (newExpander (Some demo_service) [] (\<lambda>_ _. Inr demo_spec) (\<lambda>_. False) None demo_principal) demo_names BatchStop
    = Inr [zero_target\<lparr>tg_NodeID := ''n'', tg_ProcessID := ''x'', tg_ProcessName := ''web'', tg_Status := TargetDenied,
        tg_Error := ''DENIED: permission denied''\<rparr>]"
proof -
  have t: "TrimSpace ''n'' = ''n''" "TrimSpace ''web'' = ''web''" by (rule TrimSpace_graphic; simp)+
  have "\<not> CheckTarget NewState ''u'' ''process.stop'' \<lparr>ct_NodeID = ''n'', ct_ProcessGroup = []\<rparr>"
    by (simp add: CheckTarget_def userByID_def NewState_def ensure_def zero_state_def)
  then show ?thesis
    by (simp add: Expand_def demo_names_def newExpander_def expandProcessIDs_def expandProcessNames_def t addFromGet_def getSpec_def
        Let_def hint_def demo_spec_def fill_spec_def finish_def batch_allow_def demo_service_def demo_principal_def AllowOn_def permForType_def
        acc_add_def code_text_def)
qed

theorem expanded_targets_authorised_witness:
  "\<not> CheckTarget NewState ''u'' ''process.stop'' \<lparr>ct_NodeID = ''n'', ct_ProcessGroup = []\<rparr>"
proof -
  let ?t = "zero_target\<lparr>tg_NodeID := ''n'', tg_ProcessID := ''x'', tg_ProcessName := ''web'', tg_Status := TargetDenied,
        tg_Error := ''DENIED: permission denied''\<rparr>"
  have "sv_store demo_service = Some \<lparr>as_View = NewState, as_HasQuorum = True, as_CacheFresh = (\<lambda>_. True)\<rparr>" "pr_UserID demo_principal \<noteq> []"
    by (simp_all add: demo_service_def demo_principal_def)
  from conjunct2 [OF expanded_targets_authorised [OF demo_expand this, of ?t]]
  show ?thesis by (auto simp: Let_def fill_spec_def demo_spec_def demo_principal_def permForType_def)
qed

end
