(* ===== verification/Batch_Runs.thy ===== *)
theory Batch_Runs imports Batch_Engine
begin

text \<open>
  What batches promise, over every interleaving of clients, worker, goroutines and restarts: a success is final and its
  operation is never executed again; a run that is left alone ends with the result of every execution and the status
  that the rows give. The last section shows on concrete interleavings how targets can stay pending for ever.
\<close>

section \<open>Well-formed tables\<close>

definition rows_ok :: "BatchDB \<Rightarrow> bool" where
  "rows_ok db \<longleftrightarrow> wfmap (bd_targets db) \<and> (\<forall>b opID t. mget (bd_targets db) (b, opID) = Some t \<longrightarrow> tg_OperationID t = opID)"

lemma in_batch_rows:
  assumes "rows_ok db"
  shows "t \<in> set (batch_rows b db) \<longleftrightarrow> mget (bd_targets db) (b, tg_OperationID t) = Some t"
proof -
  have "t \<in> set (batch_rows b db) \<longleftrightarrow> (\<exists>k. mget (bd_targets db) k = Some t \<and> fst k = b)"
    using assms by (force simp: rows_ok_def batch_rows_def mfilter_def mget_in_set)
  then show ?thesis using assms by (auto simp: rows_ok_def)
qed

lemma distinct_batch_rows:
  assumes "rows_ok db"
  shows "distinct (map tg_OperationID (batch_rows b db))"
proof -
  let ?m = "mfilter (\<lambda>k _. fst k = b) (bd_targets db)"
  have wf: "wfmap ?m" using assms by (auto simp: rows_ok_def)
  have "(fst e, snd e) \<in> set (bd_targets db)" if "e \<in> set ?m" for e using that by (auto simp: mfilter_def)
  then have key: "fst e = (b, tg_OperationID (snd e))" if "e \<in> set ?m" for e
    using assms that by (cases "fst e") (force simp: rows_ok_def mget_in_set mfilter_def)
  have "distinct (map (\<lambda>e. (b, tg_OperationID (snd e))) ?m)"
    using wf key by (simp add: wfmap_def cong: map_cong)
  then have "distinct (map (Pair b) (map (\<lambda>e. tg_OperationID (snd e)) ?m))" by (simp add: comp_def)
  then have "distinct (map (\<lambda>e. tg_OperationID (snd e)) ?m)" by (metis distinct_map)
  then have "distinct (map tg_OperationID (mvals ?m))" by (simp add: comp_def)
  moreover have "mset (map tg_OperationID (batch_rows b db)) = mset (map tg_OperationID (mvals ?m))"
    by (simp only: batch_rows_def mset_map mset_sort)
  ultimately show ?thesis by (metis mset_eq_imp_distinct_iff)
qed

text \<open>
  What a client may do to the rows: those that succeeded or are still to be run stay as they are.
\<close>

definition keeps :: "BatchDB \<Rightarrow> BatchDB \<Rightarrow> bool" where
  "keeps db db' \<longleftrightarrow> (\<forall>k t. mget (bd_targets db) k = Some t \<longrightarrow> tg_Status t = TargetSuccess \<or> incomplete (tg_Status t)
     \<longrightarrow> mget (bd_targets db') k = Some t)"

definition client_le :: "Engine \<Rightarrow> Engine \<Rightarrow> bool" where
  "client_le s s' \<longleftrightarrow> (rows_ok (be_db s) \<longrightarrow> be_run s' = be_run s \<and> rows_ok (be_db s') \<and> keeps (be_db s) (be_db s'))"

interpretation client: effect_order client_le
  by unfold_locales (auto simp: client_le_def keeps_def)

lemma io_iff_wp: "state_io_rel le c \<longleftrightarrow> (\<forall>s. wp c (\<lambda>_ t. le s t) s)"
  by (simp add: state_io_rel_def wp_def case_prod_beta)

lemma client_read [intro]: "state_io_rel client_le (db_read x f)"
  by (simp add: io_iff_wp db_read_def client_le_def keeps_def split: option.split)

lemma client_write:
  assumes "\<And>db db'. rows_ok db \<Longrightarrow> f db = Inr db' \<Longrightarrow> rows_ok db' \<and> keeps db db'"
  shows "state_io_rel client_le (db_write x f)"
  using assms by (auto simp: io_iff_wp db_write_def client_le_def keeps_def Let_def split: option.split sum.split)

lemma keeps_refl: "keeps db db"
  by (simp add: keeps_def)

lemma client_update_status [intro]: "state_io_rel client_le (db_write x (UpdateBatchStatus b st sm))"
  by (rule client_write) (auto simp: UpdateBatchStatus_def rows_ok_def keeps_def split: option.splits)

lemma insert_targets_keeps:
  "rows_ok db \<Longrightarrow> insert_targets b ts db = Inr db' \<Longrightarrow> rows_ok db' \<and> keeps db db'"
proof (induction ts arbitrary: db)
  case (Cons t ts)
  let ?db = "db\<lparr>bd_targets := mput (b, tg_OperationID t) t (bd_targets db)\<rparr>"
  from Cons.prems have new: "mget (bd_targets db) (b, tg_OperationID t) = None" and rest: "insert_targets b ts ?db = Inr db'"
    by (auto simp: mhas_def split: if_splits)
  have "rows_ok ?db" "keeps db ?db" using Cons.prems(1) new by (auto simp: rows_ok_def keeps_def)
  with Cons.IH [OF _ rest] show ?case by (auto simp: keeps_def)
qed (simp add: keeps_def)

lemma client_insert [intro]: "state_io_rel client_le (db_write x (InsertBatch r ts))"
proof (rule client_write)
  fix db db' assume "rows_ok db" "InsertBatch r ts db = Inr db'"
  then have "insert_targets (br_BatchID r) ts (db\<lparr>bd_batches := mput (br_BatchID r) r (bd_batches db)\<rparr>) = Inr db'"
    and "rows_ok (db\<lparr>bd_batches := mput (br_BatchID r) r (bd_batches db)\<rparr>)"
    by (auto simp: InsertBatch_def rows_ok_def split: if_splits)
  from insert_targets_keeps [OF this(2,1)] show "rows_ok db' \<and> keeps db db'" by (simp add: keeps_def)
qed

lemma client_small [intro]:
  "state_io_rel client_le (NewID x)" "state_io_rel client_le (enqueue b)" "state_io_rel client_le (bindTargets p ts)"
  by (auto simp: io_iff_wp NewID_def enqueue_def bindTargets_def client_le_def keeps_def split: option.split)

lemma client_GetB [intro]: "state_io_rel client_le (GetB x b)"
  unfolding GetB_def by (intro client.io_intros client_read)

lemma client_assign [intro]: "state_io_rel client_le (assign_ids x ts)"
  by (induction ts) (auto intro!: client.io_ret client.io_bind client.io_if)

lemma client_requeue [intro]: "state_io_rel client_le (requeueBatch x b)"
  unfolding requeueBatch_def by (intro client.io_intros client_GetB client_update_status client_small)

lemma client_create: "state_io_rel client_le (CreateWithExpand x p now operator typ0 sel f)"
  unfolding CreateWithExpand_def Let_def
  by (intro client.io_intros client_GetB client_insert client_small client_assign)

lemma client_resume: "state_io_rel client_le (Resume x)"
  unfolding Resume_def by (intro client.io_intros client_read client_small)

text \<open>The loops of the retries: the rows they still have to visit are those they have read.\<close>

definition as_read :: "string \<Rightarrow> Target list \<Rightarrow> Engine \<Rightarrow> bool" where
  "as_read b ts s \<longleftrightarrow> rows_ok (be_db s) \<and> distinct (map tg_OperationID ts)
     \<and> (\<forall>t\<in>set ts. mget (bd_targets (be_db s)) (b, tg_OperationID t) = Some t)"

lemma as_read_tl: "as_read b (t # ts) s \<Longrightarrow> as_read b ts s"
  by (simp add: as_read_def)

lemma visit_row:
  assumes read: "as_read b (t # ts) s" and old: "\<not> incomplete (tg_Status t)" "tg_Status t \<noteq> TargetSuccess"
    and ok: "rows_ok db" and same: "\<And>k u. k \<noteq> (b, tg_OperationID t) \<Longrightarrow> mget (bd_targets (be_db s)) k = Some u \<Longrightarrow> mget (bd_targets db) k = Some u"
  shows "client_le s (s\<lparr>be_calls := n, be_db := db\<rparr>) \<and> as_read b ts (s\<lparr>be_calls := n, be_db := db\<rparr>)"
proof
  have row: "mget (bd_targets (be_db s)) (b, tg_OperationID t) = Some t" using read by (simp add: as_read_def)
  have "keeps (be_db s) db" unfolding keeps_def
  proof (intro allI impI)
    fix k u assume u: "mget (bd_targets (be_db s)) k = Some u" "tg_Status u = TargetSuccess \<or> incomplete (tg_Status u)"
    with row old have "k \<noteq> (b, tg_OperationID t)" by auto
    from same [OF this u(1)] show "mget (bd_targets db) k = Some u" .
  qed
  with ok show "client_le s (s\<lparr>be_calls := n, be_db := db\<rparr>)" by (simp add: client_le_def)
  have "mget (bd_targets db) (b, tg_OperationID u) = Some u" if "u \<in> set ts" for u
  proof (rule same)
    show "(b, tg_OperationID u) \<noteq> (b, tg_OperationID t)" using read that by (force simp: as_read_def)
    show "mget (bd_targets (be_db s)) (b, tg_OperationID u) = Some u" using read that by (simp add: as_read_def)
  qed
  with ok read show "as_read b ts (s\<lparr>be_calls := n, be_db := db\<rparr>)" by (simp add: as_read_def)
qed

lemma visit_write:
  assumes read: "as_read b (t # ts) s" and old: "\<not> incomplete (tg_Status t)" "tg_Status t \<noteq> TargetSuccess"
    and f: "\<And>db. f (be_db s) = Inr db \<Longrightarrow> rows_ok db \<and>
      (\<forall>k u. k \<noteq> (b, tg_OperationID t) \<longrightarrow> mget (bd_targets (be_db s)) k = Some u \<longrightarrow> mget (bd_targets db) k = Some u)"
  shows "wp (db_write x f) (\<lambda>_ s'. client_le s s' \<and> as_read b ts s') s"
proof -
  have err: "client_le s (s\<lparr>be_calls := n\<rparr>) \<and> as_read b ts (s\<lparr>be_calls := n\<rparr>)" for n
    using as_read_tl [OF read] by (simp add: client_le_def keeps_def as_read_def)
  have "client_le s (s\<lparr>be_calls := n, be_db := db\<rparr>) \<and> as_read b ts (s\<lparr>be_calls := n, be_db := db\<rparr>)"
    if "f (be_db s) = Inr db" for db n
    by (rule visit_row [OF read old]) (use f [OF that] in auto)
  with err show ?thesis by (simp add: db_write_def Let_def split: option.split sum.split)
qed

lemma replace_step:
  assumes read: "as_read b (t # ts) s" and st: "isRetryableTarget (tg_Status t)"
  shows "wp (db_write x (ReplaceTargetOp b (tg_OperationID t) (reset_target opID t))) (\<lambda>_ s'. client_le s s' \<and> as_read b ts s') s"
proof (rule visit_write [OF read])
  have row: "mget (bd_targets (be_db s)) (b, tg_OperationID t) = Some t" "rows_ok (be_db s)" using read by (simp_all add: as_read_def)
  fix db assume "ReplaceTargetOp b (tg_OperationID t) (reset_target opID t) (be_db s) = Inr db"
  then have db: "db = (be_db s)\<lparr>bd_targets := mput (b, opID) (reset_target opID t) (mdel (b, tg_OperationID t) (bd_targets (be_db s)))\<rparr>"
    and new: "mget (mdel (b, tg_OperationID t) (bd_targets (be_db s))) (b, opID) = None"
    by (auto simp: ReplaceTargetOp_def Let_def reset_target_def mhas_def split: if_splits)
  have "rows_ok db" using row(2) unfolding db rows_ok_def by (simp add: reset_target_def split: if_split)
  moreover have "mget (bd_targets db) k = Some u" if "k \<noteq> (b, tg_OperationID t)" "mget (bd_targets (be_db s)) k = Some u" for k u
    using that new by (cases "k = (b, opID)") (auto simp: db split: if_splits)
  ultimately show "rows_ok db \<and> (\<forall>k u. k \<noteq> (b, tg_OperationID t) \<longrightarrow> mget (bd_targets (be_db s)) k = Some u \<longrightarrow> mget (bd_targets db) k = Some u)"
    by blast
qed (use st in \<open>auto simp: isRetryableTarget_def incomplete_def\<close>)

lemma update_step:
  assumes read: "as_read b (t # ts) s" and st: "tg_Status t = TargetTimeout"
  shows "wp (db_write x (UpdateTarget b (tg_OperationID t) (reset_target (tg_OperationID t) t))) (\<lambda>_ s'. client_le s s' \<and> as_read b ts s') s"
proof (rule visit_write [OF read])
  fix db assume "UpdateTarget b (tg_OperationID t) (reset_target (tg_OperationID t) t) (be_db s) = Inr db"
  then have db: "db = (be_db s)\<lparr>bd_targets := mput (b, tg_OperationID t) (reset_target (tg_OperationID t) t) (bd_targets (be_db s))\<rparr>"
    by (auto simp: UpdateTarget_def reset_target_def split: if_splits)
  have "rows_ok (be_db s)" using read by (simp add: as_read_def)
  then have "rows_ok db" unfolding db rows_ok_def by (simp add: reset_target_def split: if_split)
  then show "rows_ok db \<and> (\<forall>k u. k \<noteq> (b, tg_OperationID t) \<longrightarrow> mget (bd_targets (be_db s)) k = Some u \<longrightarrow> mget (bd_targets db) k = Some u)"
    by (simp add: db)
qed (use st in \<open>auto simp: incomplete_def\<close>)

lemma client_trans: "client_le s t \<Longrightarrow> client_le t u \<Longrightarrow> client_le s u"
  by (rule client.le_trans)

lemma client_tail:
  assumes "client_le s v" and "wp c (\<lambda>_ w. client_le v w) v"
  shows "wp (andthen c (\<lambda>r. ok (f r))) (\<lambda>_ w. client_le s w) v"
proof -
  have "wp c (\<lambda>_ w. client_le s w) v" by (rule wp_mono [OF assms(2)]) (rule client_trans [OF assms(1)])
  then show ?thesis by (auto simp: wp_def case_prod_beta split: sum.split)
qed

lemma remint_client: "as_read b ts s \<Longrightarrow> wp (remint x b ts) (\<lambda>_ s'. client_le s s') s"
proof (induction ts arbitrary: s)
  case (Cons t ts)
  show ?case
  proof (cases "isRetryableTarget (tg_Status t)")
    case True
    have new: "wp (NewID x) (\<lambda>_ s'. client_le s s' \<and> as_read b (t # ts) s') s"
      using Cons.prems by (simp add: NewID_def client_le_def keeps_def as_read_def)
    show ?thesis unfolding remint.simps
    proof (rule wp_ifI)
      show "wp (do { newOp \<leftarrow> NewID x; andthen (db_write x (ReplaceTargetOp b (tg_OperationID t) (reset_target newOp t)))
          (\<lambda>_. andthen (remint x b ts) (\<lambda>rest. ok (reset_target newOp t # rest))) }) (\<lambda>_ s'. client_le s s') s"
      proof (rule wp_bindI [OF new], rule wp_andthenI)
        fix opID u assume u: "client_le s u \<and> as_read b (t # ts) u"
        show "wp (db_write x (ReplaceTargetOp b (tg_OperationID t) (reset_target opID t))) (\<lambda>_ v. client_le s v \<and> as_read b ts v) u"
          by (rule wp_mono [OF replace_step [OF conjunct2 [OF u] True]]) (simp add: client_trans [OF conjunct1 [OF u]])
        fix r v assume v: "client_le s v \<and> as_read b ts v"
        show "wp (andthen (remint x b ts) (\<lambda>rest. ok (reset_target opID t # rest))) (\<lambda>_ w. client_le s w) v"
          by (rule client_tail [OF conjunct1 [OF v] Cons.IH [OF conjunct2 [OF v]]])
      qed simp
    qed (use True in simp)
  next
    case False
    then show ?thesis using Cons.IH [OF as_read_tl [OF Cons.prems]] by simp
  qed
qed (simp add: client_le_def keeps_def)

lemma replay_client: "as_read b ts s \<Longrightarrow> wp (replay_targets x b ts) (\<lambda>_ s'. client_le s s') s"
proof (induction ts arbitrary: s)
  case (Cons t ts)
  show ?case
  proof (cases "tg_Status t = TargetTimeout")
    case True
    have "wp (andthen (db_write x (UpdateTarget b (tg_OperationID t) (reset_target (tg_OperationID t) t)))
        (\<lambda>_. andthen (replay_targets x b ts) (\<lambda>rest. ok (reset_target (tg_OperationID t) t # rest)))) (\<lambda>_ s'. client_le s s') s"
    proof (rule wp_andthenI [OF update_step [OF Cons.prems True]])
      fix r v assume v: "client_le s v \<and> as_read b ts v"
      show "wp (andthen (replay_targets x b ts) (\<lambda>rest. ok (reset_target (tg_OperationID t) t # rest))) (\<lambda>_ w. client_le s w) v"
        by (rule client_tail [OF conjunct1 [OF v] Cons.IH [OF conjunct2 [OF v]]])
    qed simp
    with True show ?thesis by simp
  next
    case False
    then show ?thesis using Cons.IH [OF as_read_tl [OF Cons.prems]] by simp
  qed
qed (simp add: client_le_def keeps_def)

text \<open>What the loops read is as it was read.\<close>

lemma wp_GetB:
  assumes "rows_ok (be_db s)"
  shows "wp (GetB x b) (\<lambda>r t. client_le s t \<and> (\<forall>ba. r = Inr ba \<longrightarrow> as_read b (ba_Targets ba) t
    \<and> mget (bd_batches (be_db t)) b = Some (ba_Record ba) \<and> ba_Targets ba = batch_rows b (be_db t))) s"
proof -
  have "as_read b (batch_rows b (be_db s)) (s\<lparr>be_calls := n\<rparr>)" for n
    using assms distinct_batch_rows [OF assms] in_batch_rows [OF assms] by (simp add: as_read_def)
  then show ?thesis
    by (simp add: GetB_def db_read_def GetBatch_def client_le_def keeps_def split: option.split prod.split)
qed

text \<open>A retry is a loop over the rows that were read, and what follows does not touch the rows.\<close>

lemma client_loop:
  assumes "\<And>ts s. as_read b ts s \<Longrightarrow> wp (loop ts) (\<lambda>_ s'. client_le s s') s" and "\<And>r. state_io_rel client_le (k r)"
  shows "state_io_rel client_le (andthen (GetB x b) (\<lambda>ba. andthen (loop (ba_Targets ba)) k))"
  unfolding io_iff_wp
proof
  fix s
  show "wp (andthen (GetB x b) (\<lambda>ba. andthen (loop (ba_Targets ba)) k)) (\<lambda>_ t. client_le s t) s"
  proof (cases "rows_ok (be_db s)")
    case True
    show ?thesis
    proof (rule wp_andthenI [OF wp_GetB [OF True]])
      fix ba t assume t: "client_le s t \<and> (\<forall>ba'. Inr ba = Inr ba' \<longrightarrow> as_read b (ba_Targets ba') t
        \<and> mget (bd_batches (be_db t)) b = Some (ba_Record ba') \<and> ba_Targets ba' = batch_rows b (be_db t))"
      then have "as_read b (ba_Targets ba) t" by blast
      then have "wp (loop (ba_Targets ba)) (\<lambda>_ u. client_le t u) t" by (rule assms(1))
      then have "wp (loop (ba_Targets ba)) (\<lambda>_ u. client_le s u) t"
        by (rule wp_mono) (rule client_trans [OF conjunct1 [OF t]])
      then show "wp (andthen (loop (ba_Targets ba)) k) (\<lambda>_ u. client_le s u) t"
      proof (rule wp_andthenI)
        fix r u assume u: "client_le s u"
        have "wp (k r) (\<lambda>_ v. client_le u v) u" using assms(2) by (simp add: io_iff_wp)
        then show "wp (k r) (\<lambda>_ v. client_le s v) u" by (rule wp_mono) (rule client_trans [OF u])
      qed
    qed simp
  next
    case False
    then show ?thesis
      by (simp add: wp_def client_le_def)
  qed
qed

lemma client_retry: "state_io_rel client_le (RetryFailed x p b)"
  unfolding RetryFailed_def
  by (rule client_loop, erule remint_client, intro client.io_intros client_small client_requeue)

lemma client_replay: "state_io_rel client_le (ReplayTimeout x p b)"
  unfolding ReplayTimeout_def
  by (rule client_loop, erule replay_client, intro client.io_intros client_small client_requeue)

lemma client_stepD: "state_io_rel client_le c \<Longrightarrow> client_le s (exec_state c s)"
  by (simp add: state_io_rel_def)

section \<open>The run of the worker\<close>

text \<open>Every target that waits or executes has a row that is still incomplete, and no operation is there twice.\<close>

definition run_targets :: "BatchRun \<Rightarrow> Target list" where
  "run_targets r = rn_Todo r @ rn_Inflight r"

definition brun_ok :: "BatchDB \<Rightarrow> BatchRun \<Rightarrow> bool" where
  "brun_ok db r \<longleftrightarrow> distinct (map tg_OperationID (run_targets r))
     \<and> (\<forall>t\<in>set (run_targets r). \<exists>u. mget (bd_targets db) (rn_ID r, tg_OperationID t) = Some u \<and> incomplete (tg_Status u))"

definition engine_ok :: "Engine \<Rightarrow> bool" where
  "engine_ok s \<longleftrightarrow> rows_ok (be_db s) \<and> (\<forall>r. be_run s = Some r \<longrightarrow> brun_ok (be_db s) r)"

definition executing :: "Engine \<Rightarrow> string \<Rightarrow> string \<Rightarrow> bool" where
  "executing s b opID \<longleftrightarrow> (\<exists>r. be_run s = Some r \<and> rn_ID r = b \<and> opID \<in> tg_OperationID ` set (run_targets r))"

definition succeeded :: "BatchDB \<Rightarrow> string \<Rightarrow> string \<Rightarrow> Target \<Rightarrow> bool" where
  "succeeded db b opID t \<longleftrightarrow> mget (bd_targets db) (b, opID) = Some t \<and> tg_Status t = TargetSuccess"

lemma executing_not_succeeded: "engine_ok s \<Longrightarrow> executing s b opID \<Longrightarrow> \<not> succeeded (be_db s) b opID t"
  by (fastforce simp: engine_ok_def brun_ok_def executing_def succeeded_def incomplete_def)

text \<open>What one step may do, as far as successes are concerned.\<close>

definition good_step :: "Engine \<Rightarrow> Engine \<Rightarrow> bool" where
  "good_step s s' \<longleftrightarrow> engine_ok s' \<and> (\<forall>b opID t. succeeded (be_db s) b opID t \<longrightarrow> succeeded (be_db s') b opID t)"

lemma brun_ok_keeps: "brun_ok db r \<Longrightarrow> keeps db db' \<Longrightarrow> brun_ok db' r"
  unfolding brun_ok_def keeps_def by blast

lemma good_client: "engine_ok s \<Longrightarrow> client_le s s' \<Longrightarrow> good_step s s'"
  unfolding good_step_def engine_ok_def client_le_def
  by (auto intro: brun_ok_keeps simp: succeeded_def) (auto simp: keeps_def)

lemma set_drop_op [simp]: "t \<in> set (drop_op opID ts) \<longleftrightarrow> t \<in> set ts \<and> tg_OperationID t \<noteq> opID"
  by (simp add: drop_op_def)

lemma map_drop_op: "map tg_OperationID (drop_op opID ts) = filter (\<lambda>i. i \<noteq> opID) (map tg_OperationID ts)"
  by (simp add: drop_op_def filter_map comp_def)

lemma run_state_write:
  "run_state (db_write x f) s = (case bx_fault x (be_calls s) of Some e \<Rightarrow> (Inl e, s\<lparr>be_calls := Suc (be_calls s)\<rparr>)
     | None \<Rightarrow> (case f (be_db s) of Inl e \<Rightarrow> (Inl e, s\<lparr>be_calls := Suc (be_calls s)\<rparr>)
                | Inr db \<Rightarrow> (Inr (), s\<lparr>be_calls := Suc (be_calls s), be_db := db\<rparr>)))"
  by (simp add: db_write_def Let_def split: option.split sum.split)

lemma good_run:
  assumes "rows_ok (be_db s')" and "\<And>r. be_run s' = Some r \<Longrightarrow> brun_ok (be_db s') r"
    and "\<And>b opID t. succeeded (be_db s) b opID t \<Longrightarrow> succeeded (be_db s') b opID t"
  shows "good_step s s'"
  using assms by (simp add: good_step_def engine_ok_def)

text \<open>A write to the row of a target of the run: other rows stay, and no success is overwritten.\<close>

lemma write_row:
  assumes ok: "engine_ok s" and run: "be_run s = Some r" and t: "t \<in> set (run_targets r)" and opID: "tg_OperationID t' = tg_OperationID t"
    and r': "rn_ID r' = rn_ID r" "distinct (map tg_OperationID (run_targets r'))" "tg_OperationID ` set (run_targets r') \<subseteq> tg_OperationID ` set (run_targets r)"
    and st: "incomplete (tg_Status t') \<or> tg_OperationID t \<notin> tg_OperationID ` set (run_targets r')"
    and s': "s' = (exec_state (db_write x (UpdateTarget (rn_ID r) (tg_OperationID t) t')) s)\<lparr>be_run := Some r'\<rparr>"
  shows "good_step s s'"
proof -
  have old: "rows_ok (be_db s)" "\<And>u. u \<in> set (run_targets r) \<Longrightarrow>
      \<exists>v. mget (bd_targets (be_db s)) (rn_ID r, tg_OperationID u) = Some v \<and> incomplete (tg_Status v)"
    using ok run by (auto simp: engine_ok_def brun_ok_def)
  obtain v where v: "mget (bd_targets (be_db s)) (rn_ID r, tg_OperationID t) = Some v" "incomplete (tg_Status v)"
    using old(2) [OF t] by blast
  have same: "t'\<lparr>tg_OperationID := tg_OperationID t\<rparr> = t'" using opID by simp
  have sub: "\<exists>w\<in>set (run_targets r). tg_OperationID w = tg_OperationID u" if "u \<in> set (run_targets r')" for u
  proof -
    have "tg_OperationID u \<in> tg_OperationID ` set (run_targets r)" using r'(3) imageI [OF that] by (rule subsetD)
    then obtain w where "w \<in> set (run_targets r)" "tg_OperationID u = tg_OperationID w" by (rule imageE)
    then show ?thesis by (intro bexI [of _ w]) simp_all
  qed
  have db: "be_db s' = be_db s \<or> be_db s' = (be_db s)\<lparr>bd_targets := mput (rn_ID r, tg_OperationID t) t' (bd_targets (be_db s))\<rparr>"
    using v(1) by (simp add: s' run_state_write UpdateTarget_def same split: option.split)
  have run': "be_run s' = Some r'" by (simp add: s')
  show ?thesis
  proof (rule good_run)
    show "rows_ok (be_db s')" using db old(1) opID by (elim disjE) (simp_all add: rows_ok_def split: if_split)
    show "succeeded (be_db s') b i u" if "succeeded (be_db s) b i u" for b i u
      using db that v by (auto simp: succeeded_def incomplete_def)
    fix q assume "be_run s' = Some q"
    then have q: "q = r'" using run' by simp
    have "\<exists>w. mget (bd_targets (be_db s')) (rn_ID r, tg_OperationID u) = Some w \<and> incomplete (tg_Status w)"
      if u: "u \<in> set (run_targets r')" for u
    proof -
      from sub [OF u] obtain u' where u': "u' \<in> set (run_targets r)" "tg_OperationID u' = tg_OperationID u" by blast
      obtain w where w: "mget (bd_targets (be_db s)) (rn_ID r, tg_OperationID u) = Some w" "incomplete (tg_Status w)"
        using old(2) [OF u'(1)] unfolding u'(2) by blast
      have i: "incomplete (tg_Status t')" if e: "tg_OperationID u = tg_OperationID t"
      proof -
        have "tg_OperationID t \<in> tg_OperationID ` set (run_targets r')" unfolding e [symmetric] using u by (rule imageI)
        with st show ?thesis by blast
      qed
      show ?thesis
      proof (cases "tg_OperationID u = tg_OperationID t")
        case True
        with db w v i show ?thesis by (elim disjE) simp_all
      next
        case False
        with db w show ?thesis by (elim disjE) simp_all
      qed
    qed
    then show "brun_ok (be_db s') q" using r'(1,2) by (simp add: brun_ok_def q)
  qed
qed

lemma good_refl: "engine_ok s \<Longrightarrow> good_step s s"
  by (simp add: good_step_def)

lemma find_by_op: "find (by_op opID) ts = Some t \<Longrightarrow> t \<in> set ts \<and> tg_OperationID t = opID"
  by (auto simp: find_Some_iff)

lemma distinct_move:
  "distinct (A @ B) \<Longrightarrow> i \<in> set A \<Longrightarrow> distinct (filter (\<lambda>j. j \<noteq> i) A @ B) \<and> distinct (filter (\<lambda>j. j \<noteq> i) A @ i # B)"
  by auto

lemma begin_good:
  assumes ok: "engine_ok s"
  shows "good_step s (begin_step x opID now s)"
proof (cases "\<exists>r t. be_run s = Some r \<and> find (by_op opID) (rn_Todo r) = Some t \<and> length (rn_Inflight r) < slots x \<and> rn_Outcome r = None")
  case True
  then obtain r t where r: "be_run s = Some r" and f: "find (by_op opID) (rn_Todo r) = Some t"
    and free: "\<not> (length (rn_Inflight r) \<ge> slots x \<or> rn_Outcome r \<noteq> None)" by auto
  from find_by_op [OF f] have t: "t \<in> set (rn_Todo r)" "tg_OperationID t = opID" by simp_all
  let ?t = "t\<lparr>tg_Status := TargetRunning, tg_StartedAt := now, tg_Error := []\<rparr>"
  let ?w = "db_write x (UpdateTarget (rn_ID r) (tg_OperationID t) ?t)"
  let ?q = "r\<lparr>rn_Todo := drop_op opID (rn_Todo r)\<rparr>" and ?q' = "r\<lparr>rn_Todo := drop_op opID (rn_Todo r), rn_Inflight := ?t # rn_Inflight r\<rparr>"
  have d: "distinct (map tg_OperationID (rn_Todo r) @ map tg_OperationID (rn_Inflight r))"
    using ok r by (simp add: engine_ok_def brun_ok_def run_targets_def)
  have in_todo: "opID \<in> set (map tg_OperationID (rn_Todo r))" using t by (force simp: set_map)
  have m: "map tg_OperationID (run_targets ?q) = filter (\<lambda>i. i \<noteq> opID) (map tg_OperationID (rn_Todo r)) @ map tg_OperationID (rn_Inflight r)"
    "map tg_OperationID (run_targets ?q') = filter (\<lambda>i. i \<noteq> opID) (map tg_OperationID (rn_Todo r)) @ opID # map tg_OperationID (rn_Inflight r)"
    using t(2) by (simp_all add: run_targets_def map_drop_op)
  have "begin_step x opID now s = (exec_state ?w s)\<lparr>be_run := Some (case fst (run_state ?w s) of Inl _ \<Rightarrow> ?q | Inr _ \<Rightarrow> ?q')\<rparr>"
    using f free by (simp add: begin_step_def r target_start_def Let_def split: prod.split sum.split)
  moreover have "good_step s ((exec_state ?w s)\<lparr>be_run := Some q\<rparr>)" if "q = ?q \<or> q = ?q'" for q
  proof (rule write_row [OF ok r, of t ?t q])
    show "distinct (map tg_OperationID (run_targets q))" using that distinct_move [OF d, of opID] in_todo m by (elim disjE) (simp_all only:)
    show "tg_OperationID ` set (run_targets q) \<subseteq> tg_OperationID ` set (run_targets r)"
      using that t by (auto simp: run_targets_def)
  qed (use that t in \<open>auto simp: run_targets_def incomplete_def\<close>)
  ultimately show ?thesis by (simp split: sum.split)
next
  case False
  then have "begin_step x opID now s = s" by (fastforce simp: begin_step_def split: option.split)
  then show ?thesis using good_refl [OF ok] by simp
qed

lemma end_good:
  assumes ok: "engine_ok s"
  shows "good_step s (end_step x opID now cancelled deadline err s)"
proof (cases "\<exists>r t. be_run s = Some r \<and> find (by_op opID) (rn_Inflight r) = Some t")
  case True
  then obtain r t where r: "be_run s = Some r" and f: "find (by_op opID) (rn_Inflight r) = Some t" by auto
  from find_by_op [OF f] have t: "t \<in> set (rn_Inflight r)" "tg_OperationID t = opID" by simp_all
  let ?t = "t\<lparr>tg_Status := MapExecError (bx_deadline x) err, tg_FinishedAt := now, tg_Error := (case err of None \<Rightarrow> [] | Some e \<Rightarrow> err_text e)\<rparr>"
  let ?q = "r\<lparr>rn_Inflight := drop_op opID (rn_Inflight r)\<rparr>"
  have d: "distinct (map tg_OperationID (rn_Todo r) @ map tg_OperationID (rn_Inflight r))"
    using ok r by (simp add: engine_ok_def brun_ok_def run_targets_def)
  have notin: "opID \<notin> tg_OperationID ` set (run_targets ?q)" using d t by (force simp: run_targets_def)
  have dq: "distinct (map tg_OperationID (run_targets ?q))" "tg_OperationID ` set (run_targets ?q) \<subseteq> tg_OperationID ` set (run_targets r)"
    using d by (auto simp: run_targets_def map_drop_op)
  show ?thesis
  proof (cases "cancelled \<and> \<not> deadline")
    case True
    then have "end_step x opID now cancelled deadline err s = s\<lparr>be_run := Some ?q\<rparr>"
      using f by (simp add: end_step_def r target_end_def)
    moreover have "brun_ok (be_db s) ?q"
      using ok r dq(1) by (auto simp: engine_ok_def brun_ok_def run_targets_def)
    ultimately show ?thesis using ok by (auto intro!: good_run simp: engine_ok_def)
  next
    case False
    then have "end_step x opID now cancelled deadline err s
        = (exec_state (db_write x (UpdateTarget (rn_ID r) (tg_OperationID t) ?t)) s)\<lparr>be_run := Some ?q\<rparr>"
      using f unfolding target_end_def if_not_P [OF False] by (simp add: end_step_def r target_end_def if_not_P [OF False] Let_def del: de_Morgan_conj)
    then show ?thesis
      by (rule write_row [OF ok r, of t ?t ?q, rotated -1]) (use t dq notin in \<open>auto simp: run_targets_def\<close>)
  qed
next
  case False
  then have "end_step x opID now cancelled deadline err s = s" by (fastforce simp: end_step_def split: option.split)
  then show ?thesis using good_refl [OF ok] by simp
qed

lemma GetB_run: "run_state (GetB x b) s = (case bx_fault x (be_calls s) of Some e \<Rightarrow> (Inl e, s\<lparr>be_calls := Suc (be_calls s)\<rparr>)
    | None \<Rightarrow> (case mget (bd_batches (be_db s)) b of None \<Rightarrow> (Inl (E NOT_FOUND ''batch''), s\<lparr>be_calls := Suc (be_calls s)\<rparr>)
      | Some r \<Rightarrow> (Inr \<lparr>ba_Record = r, ba_Targets = batch_rows b (be_db s)\<rparr>, s\<lparr>be_calls := Suc (be_calls s)\<rparr>)))"
  by (simp add: GetB_def db_read_def GetBatch_def split: option.split)

lemma rollup_good:
  assumes "engine_ok s"
  shows "good_step s (rollup_step x s)"
proof (cases "\<exists>r. be_run s = Some r \<and> rn_Todo r = [] \<and> rn_Inflight r = [] \<and> rn_Outcome r = None")
  case True
  then obtain r where r: "be_run s = Some r" "rn_Todo r = []" "rn_Inflight r = []" "rn_Outcome r = None" by blast
  have "be_db (rollup_step x s) = be_db s \<and> (\<forall>q. be_run (rollup_step x s) = Some q \<longrightarrow> run_targets q = [])"
    using r by (auto simp: rollup_step_def run_rollup_def GetB_run run_targets_def split: option.splits)
  then show ?thesis using assms by (intro good_run) (auto simp: engine_ok_def brun_ok_def)
next
  case False
  then have "rollup_step x s = s" by (auto simp: rollup_step_def split: option.split)
  then show ?thesis using good_refl [OF assms] by simp
qed

lemma update_status_db:
  "UpdateBatchStatus b st sm db = Inr db' \<Longrightarrow> bd_targets db' = bd_targets db"
  by (auto simp: UpdateBatchStatus_def split: option.splits)

lemma write_status_run:
  "bd_targets (be_db (exec_state (db_write x (UpdateBatchStatus b st sm)) s)) = bd_targets (be_db s)
   \<and> be_run (exec_state (db_write x (UpdateBatchStatus b st sm)) s) = be_run s"
  by (auto simp: run_state_write dest: update_status_db split: option.split sum.split)

lemma good_same_rows:
  assumes "engine_ok s" and same: "bd_targets (be_db s') = bd_targets (be_db s)"
    and "\<And>r. be_run s' = Some r \<Longrightarrow> brun_ok (be_db s) r"
  shows "good_step s s'"
  using assms(1,3) unfolding good_step_def engine_ok_def rows_ok_def brun_ok_def succeeded_def same by blast

lemma write_good:
  assumes "engine_ok s"
  shows "good_step s (write_step x s)"
proof (cases "\<exists>r st sm. be_run s = Some r \<and> rn_Outcome r = Some (st, sm)")
  case True
  then obtain r st sm where r: "be_run s = Some r" "rn_Outcome r = Some (st, sm)" by blast
  have "bd_targets (be_db (write_step x s)) = bd_targets (be_db s)" and "be_run (write_step x s) = None"
    using write_status_run [of x "rn_ID r" st sm s] by (simp_all add: write_step_def r)
  then show ?thesis by (intro good_same_rows [OF assms]) simp_all
next
  case False
  then have "write_step x s = s" by (auto simp: write_step_def split: option.split)
  then show ?thesis using good_refl [OF assms] by simp
qed

text \<open>The targets that a run starts with are the incomplete rows of its batch.\<close>

lemma pick_cases:
  obtains (none) "be_db (pick_step x s) = be_db s" and "be_run (pick_step x s) = be_run s"
  | (refused) b rest where "be_run s = None" and "be_jobs s = b # rest"
      and "bd_targets (be_db (pick_step x s)) = bd_targets (be_db s)" and "be_run (pick_step x s) = None"
  | (picked) b rest r where "be_run s = None" and "be_jobs s = b # rest" and "mget (bd_batches (be_db s)) b = Some r"
      and "\<not> terminal_batch (br_Status r)"
      and "be_run (pick_step x s) = Some \<lparr>rn_ID = b, rn_Type = br_Type r,
        rn_Todo = filter (\<lambda>t. \<not> isTerminalTarget (tg_Status t) \<and> incomplete (tg_Status t)) (batch_rows b (be_db s)),
        rn_Inflight = [], rn_Outcome = None\<rparr>"
      and "bd_targets (be_db (pick_step x s)) = bd_targets (be_db s)"
proof -
  show thesis
  proof (cases "\<exists>b rest. be_run s = None \<and> be_jobs s = b # rest")
    case True
    then obtain b rest where j: "be_run s = None" "be_jobs s = b # rest" by blast
    define u where "u = s\<lparr>be_jobs := rest, be_calls := Suc (be_calls s)\<rparr>"
    have p: "pick_step x s = exec_state (run_start x b) (s\<lparr>be_jobs := rest\<rparr>)" by (simp add: pick_step_def j)
    show thesis
    proof (cases "\<exists>r. bx_fault x (be_calls s) = None \<and> mget (bd_batches (be_db s)) b = Some r \<and> \<not> terminal_batch (br_Status r)")
      case True
      then obtain r where r: "bx_fault x (be_calls s) = None" "mget (bd_batches (be_db s)) b = Some r" "\<not> terminal_batch (br_Status r)"
        by blast
      let ?c = "db_write x (UpdateBatchStatus b BatchRunning (br_Summary r))"
      let ?q = "\<lparr>rn_ID = b, rn_Type = br_Type r,
            rn_Todo = filter (\<lambda>t. \<not> isTerminalTarget (tg_Status t) \<and> incomplete (tg_Status t)) (batch_rows b (be_db s)),
            rn_Inflight = [], rn_Outcome = None\<rparr>"
      obtain a v where w: "run_state ?c u = (a, v)" by fastforce
      have v: "be_run v = None" "bd_targets (be_db v) = bd_targets (be_db s)"
        using write_status_run [of x b BatchRunning "br_Summary r" u] unfolding w by (simp_all add: u_def j(1))
      have "pick_step x s = (case a of Inl _ \<Rightarrow> v | Inr _ \<Rightarrow> v\<lparr>be_run := Some ?q\<rparr>)"
        unfolding p run_start_def run_andthen GetB_run using r w by (simp add: u_def split: sum.split)
      then show thesis using refused [OF j] picked [OF j r(2,3)] v by (cases a) simp_all
    next
      case False
      then have "be_run (pick_step x s) = None \<and> bd_targets (be_db (pick_step x s)) = bd_targets (be_db s)"
        unfolding p run_start_def run_andthen GetB_run using j(1) by (auto split: option.split)
      then show thesis using refused [OF j] by simp
    qed
  next
    case False
    then have "pick_step x s = s" by (auto simp: pick_step_def split: option.split list.split)
    then show thesis using none by simp
  qed
qed

lemma pick_good:
  assumes ok: "engine_ok s"
  shows "good_step s (pick_step x s)"
proof (cases rule: pick_cases [of x s])
  case none
  with ok show ?thesis by (intro good_same_rows [OF ok]) (simp_all add: engine_ok_def)
next
  case (refused b rest)
  then show ?thesis by (intro good_same_rows [OF ok]) simp_all
next
  case (picked b rest r)
  let ?P = "\<lambda>t. \<not> isTerminalTarget (tg_Status t) \<and> incomplete (tg_Status t)"
  have rows: "rows_ok (be_db s)" using ok by (simp add: engine_ok_def)
  have d: "distinct (map tg_OperationID (filter ?P (batch_rows b (be_db s))))"
    by (rule distinct_map_filter) (rule distinct_batch_rows [OF rows])
  show ?thesis
  proof (rule good_same_rows [OF ok picked(6)])
    show "brun_ok (be_db s) q" if "be_run (pick_step x s) = Some q" for q
      using that d by (auto simp: picked(5) brun_ok_def run_targets_def in_batch_rows [OF rows])
  qed
qed

lemma engine_step_good:
  assumes ok: "engine_ok s"
  shows "good_step s (engine_step x ev s)"
proof (cases ev)
  case EvStart
  with ok show ?thesis by (intro good_run) (simp_all add: engine_ok_def)
next
  case EvResume
  show ?thesis unfolding EvResume engine_step.simps by (rule good_client [OF ok client_stepD [OF client_resume]])
next
  case (EvCreate p now operator typ0 sel f)
  show ?thesis unfolding EvCreate engine_step.simps by (rule good_client [OF ok client_stepD [OF client_create]])
next
  case (EvRetry p b)
  show ?thesis unfolding EvRetry engine_step.simps by (rule good_client [OF ok client_stepD [OF client_retry]])
next
  case (EvReplay p b)
  show ?thesis unfolding EvReplay engine_step.simps by (rule good_client [OF ok client_stepD [OF client_replay]])
next
  case EvCrash
  with ok show ?thesis by (intro good_run) (simp_all add: engine_ok_def)
qed (use ok in \<open>simp_all add: pick_good begin_good end_good rollup_good write_good\<close>)

lemma engine_run_good: "engine_ok s \<Longrightarrow> good_step s (engine_run x evs s)"
proof (induction evs arbitrary: s)
  case (Cons ev evs)
  have "good_step s (engine_step x ev s)" by (rule engine_step_good [OF Cons.prems])
  moreover from this have "good_step (engine_step x ev s) (engine_run x evs (engine_step x ev s))"
    by (intro Cons.IH) (simp add: good_step_def)
  ultimately show ?case by (simp add: good_step_def engine_run_def)
qed (simp add: good_refl engine_run_def)

lemma engine_init_ok: "engine_ok engine_init"
  by (simp add: engine_ok_def engine_init_def rows_ok_def)

lemma engine_run_append: "engine_run x (e1 @ e2) s = engine_run x e2 (engine_run x e1 s)"
  by (simp add: engine_run_def)

section \<open>A run that is left alone\<close>

text \<open>The worker's own events, when the execution of an operation answers \<open>res\<close>.\<close>

fun worker_event :: "(string \<Rightarrow> goerror option) \<Rightarrow> BEvent \<Rightarrow> bool" where
  "worker_event res (EvBegin opID now) = True"
| "worker_event res (EvEnd opID now cancelled deadline err) = (\<not> cancelled \<and> err = res opID)"
| "worker_event res ev = False"

definition same_target :: "Target \<Rightarrow> Target \<Rightarrow> bool" where
  "same_target t u \<longleftrightarrow> tg_OperationID u = tg_OperationID t \<and> tg_NodeID u = tg_NodeID t \<and> tg_ProcessID u = tg_ProcessID t
     \<and> tg_ProcessName u = tg_ProcessName t \<and> tg_ExpectedRevision u = tg_ExpectedRevision t \<and> tg_PayloadJSON u = tg_PayloadJSON t"

definition settled :: "BatchEnv \<Rightarrow> (string \<Rightarrow> goerror option) \<Rightarrow> Target \<Rightarrow> Target \<Rightarrow> bool" where
  "settled x res t u \<longleftrightarrow> same_target t u \<and> tg_Status u = MapExecError (bx_deadline x) (res (tg_OperationID t))
     \<and> tg_Error u = (case res (tg_OperationID t) of None \<Rightarrow> [] | Some e \<Rightarrow> err_text e)"

text \<open>Where a target of the batch is, compared with its row when the batch was taken.\<close>

definition target_place ::
    "BatchEnv \<Rightarrow> (string \<Rightarrow> goerror option) \<Rightarrow> BatchRun \<Rightarrow> Target \<Rightarrow> Target option \<Rightarrow> bool" where
  "target_place x res r t row \<longleftrightarrow>
     (t \<in> set (rn_Todo r) \<and> row = Some t)
   \<or> (\<exists>u\<in>set (rn_Inflight r). same_target t u \<and> row = Some u)
   \<or> (tg_OperationID t \<notin> tg_OperationID ` set (run_targets r) \<and> (\<exists>u. row = Some u \<and> settled x res t u))"

definition rows_placed ::
    "BatchEnv \<Rightarrow> (string \<Rightarrow> goerror option) \<Rightarrow> string \<Rightarrow> BatchRun \<Rightarrow> (string \<times> string, Target) gomap \<Rightarrow> (string \<times> string, Target) gomap \<Rightarrow> bool" where
  "rows_placed x res b r M m \<longleftrightarrow> (\<forall>opID t. mget M (b, opID) = Some t \<longrightarrow>
     (if incomplete (tg_Status t) then target_place x res r t (mget m (b, opID)) else mget m (b, opID) = Some t))
     \<and> (\<forall>opID. mget M (b, opID) = None \<longrightarrow> mget m (b, opID) = None)"

definition run_progress ::
    "BatchEnv \<Rightarrow> (string \<Rightarrow> goerror option) \<Rightarrow> string \<Rightarrow> (string \<times> string, Target) gomap \<Rightarrow> Engine \<Rightarrow> bool" where
  "run_progress x res b M s \<longleftrightarrow> (\<exists>r. be_run s = Some r \<and> rn_ID r = b \<and> rn_Outcome r = None \<and> mhas (bd_batches (be_db s)) b
     \<and> rows_placed x res b r M (bd_targets (be_db s)))"

lemma MapExecError_terminal: "isTerminalTarget (MapExecError f err)"
  by (simp add: MapExecError_def isTerminalTarget_def split: option.split)

lemma exec_update:
  assumes "bx_fault x = (\<lambda>_. None)" and "mhas (bd_targets (be_db s)) (b, tg_OperationID t)"
  shows "run_state (db_write x (UpdateTarget b (tg_OperationID t) t)) s
    = (Inr (), s\<lparr>be_calls := Suc (be_calls s), be_db := (be_db s)\<lparr>bd_targets := mput (b, tg_OperationID t) t (bd_targets (be_db s))\<rparr>\<rparr>)"
  using assms by (simp add: run_state_write UpdateTarget_def)

lemma run_row:
  assumes "engine_ok s" and "be_run s = Some r" and "t \<in> set (run_targets r)"
  obtains w where "mget (bd_targets (be_db s)) (rn_ID r, tg_OperationID t) = Some w" and "incomplete (tg_Status w)"
  using assms by (auto simp: engine_ok_def brun_ok_def)

lemma run_row_mhas:
  "engine_ok s \<Longrightarrow> be_run s = Some r \<Longrightarrow> t \<in> set (run_targets r) \<Longrightarrow> mhas (bd_targets (be_db s)) (rn_ID r, tg_OperationID t)"
  by (erule run_row) (auto simp: mhas_def)

lemma in_run_targets: "t \<in> set (rn_Todo r) \<Longrightarrow> t \<in> set (run_targets r)" "t \<in> set (rn_Inflight r) \<Longrightarrow> t \<in> set (run_targets r)"
  by (simp_all add: run_targets_def)

text \<open>\<open>begin_step\<close> and \<open>end_step\<close> without faults.\<close>

lemma begin_exact:
  assumes "bx_fault x = (\<lambda>_. None)" and "engine_ok s" and "be_run s = Some r"
  shows "begin_step x opID now s = s \<or> (\<exists>t u. t \<in> set (rn_Todo r) \<and> tg_OperationID t = opID \<and> same_target t u
    \<and> begin_step x opID now s = s\<lparr>be_calls := Suc (be_calls s),
        be_db := (be_db s)\<lparr>bd_targets := mput (rn_ID r, opID) u (bd_targets (be_db s))\<rparr>,
        be_run := Some (r\<lparr>rn_Todo := drop_op opID (rn_Todo r), rn_Inflight := u # rn_Inflight r\<rparr>)\<rparr>)"
proof (cases "find (by_op opID) (rn_Todo r) = None \<or> length (rn_Inflight r) \<ge> slots x \<or> rn_Outcome r \<noteq> None")
  case True
  then show ?thesis by (auto simp: begin_step_def assms(3) split: option.split)
next
  case False
  then obtain t where f: "find (by_op opID) (rn_Todo r) = Some t" by auto
  from find_by_op [OF f] have t: "t \<in> set (rn_Todo r)" "tg_OperationID t = opID" by simp_all
  let ?u = "t\<lparr>tg_Status := TargetRunning, tg_StartedAt := now, tg_Error := []\<rparr>"
  have "mhas (bd_targets (be_db s)) (rn_ID r, tg_OperationID ?u)"
    using run_row_mhas [OF assms(2,3) in_run_targets(1) [OF t(1)]] by simp
  from exec_update [OF assms(1) this] False f t(2)
  have "begin_step x opID now s = s\<lparr>be_calls := Suc (be_calls s),
        be_db := (be_db s)\<lparr>bd_targets := mput (rn_ID r, opID) ?u (bd_targets (be_db s))\<rparr>,
        be_run := Some (r\<lparr>rn_Todo := drop_op opID (rn_Todo r), rn_Inflight := ?u # rn_Inflight r\<rparr>)\<rparr>"
    by (simp add: begin_step_def assms(3) target_start_def Let_def)
  moreover have "same_target t ?u" by (simp add: same_target_def)
  ultimately show ?thesis using t by blast
qed

lemma end_exact:
  assumes "bx_fault x = (\<lambda>_. None)" and "engine_ok s" and "be_run s = Some r"
  shows "end_step x opID now False deadline err s = s \<or> (\<exists>t u. t \<in> set (rn_Inflight r) \<and> tg_OperationID t = opID \<and> same_target t u
    \<and> tg_Status u = MapExecError (bx_deadline x) err \<and> tg_Error u = (case err of None \<Rightarrow> [] | Some e \<Rightarrow> err_text e)
    \<and> end_step x opID now False deadline err s = s\<lparr>be_calls := Suc (be_calls s),
        be_db := (be_db s)\<lparr>bd_targets := mput (rn_ID r, opID) u (bd_targets (be_db s))\<rparr>,
        be_run := Some (r\<lparr>rn_Inflight := drop_op opID (rn_Inflight r)\<rparr>)\<rparr>)"
proof (cases "find (by_op opID) (rn_Inflight r)")
  case None
  then show ?thesis by (simp add: end_step_def assms(3))
next
  case (Some t)
  from find_by_op [OF Some] have t: "t \<in> set (rn_Inflight r)" "tg_OperationID t = opID" by simp_all
  let ?u = "t\<lparr>tg_Status := MapExecError (bx_deadline x) err, tg_FinishedAt := now,
    tg_Error := (case err of None \<Rightarrow> [] | Some e \<Rightarrow> err_text e)\<rparr>"
  have "mhas (bd_targets (be_db s)) (rn_ID r, tg_OperationID ?u)"
    using run_row_mhas [OF assms(2,3) in_run_targets(2) [OF t(1)]] by simp
  from exec_update [OF assms(1) this] Some t(2)
  have "end_step x opID now False deadline err s = s\<lparr>be_calls := Suc (be_calls s),
        be_db := (be_db s)\<lparr>bd_targets := mput (rn_ID r, opID) ?u (bd_targets (be_db s))\<rparr>,
        be_run := Some (r\<lparr>rn_Inflight := drop_op opID (rn_Inflight r)\<rparr>)\<rparr>"
    by (simp add: end_step_def assms(3) target_end_def Let_def)
  moreover have "same_target t ?u" by (simp add: same_target_def)
  moreover have "tg_Status ?u = MapExecError (bx_deadline x) err" "tg_Error ?u = (case err of None \<Rightarrow> [] | Some e \<Rightarrow> err_text e)" by simp_all
  ultimately show ?thesis using t by blast
qed

text \<open>Targets of one run are told apart by their operations.\<close>

lemma op_inj:
  assumes "distinct (map tg_OperationID ts)" and "t \<in> set ts" and "u \<in> set ts" and "tg_OperationID t = tg_OperationID u"
  shows "t = u"
  using assms by (simp add: distinct_map inj_on_def)

lemma same_target_trans: "same_target t u \<Longrightarrow> same_target u v \<Longrightarrow> same_target t v"
  by (simp add: same_target_def)

lemma begin_progress:
  assumes nf: "bx_fault x = (\<lambda>_. None)" and ok: "engine_ok s" and pr: "run_progress x res b M s"
  shows "run_progress x res b M (begin_step x opID now s)"
proof -
  obtain r where r: "be_run s = Some r" "rn_ID r = b" "rn_Outcome r = None" "mhas (bd_batches (be_db s)) b"
    and pl: "rows_placed x res b r M (bd_targets (be_db s))"
    using pr by (auto simp: run_progress_def)
  have place: "if incomplete (tg_Status t) then target_place x res r t (mget (bd_targets (be_db s)) (b, i))
      else mget (bd_targets (be_db s)) (b, i) = Some t" if "mget M (b, i) = Some t" for i t
    using pl that unfolding rows_placed_def by blast
  from begin_exact [OF nf ok r(1), of opID now] show ?thesis
  proof (elim disjE exE conjE)
    assume "begin_step x opID now s = s"
    with pr show ?thesis by simp
  next
    fix t u assume t: "t \<in> set (rn_Todo r)" "tg_OperationID t = opID" "same_target t u"
      and step: "begin_step x opID now s = s\<lparr>be_calls := Suc (be_calls s),
        be_db := (be_db s)\<lparr>bd_targets := mput (rn_ID r, opID) u (bd_targets (be_db s))\<rparr>,
        be_run := Some (r\<lparr>rn_Todo := drop_op opID (rn_Todo r), rn_Inflight := u # rn_Inflight r\<rparr>)\<rparr>"
    let ?r = "r\<lparr>rn_Todo := drop_op opID (rn_Todo r), rn_Inflight := u # rn_Inflight r\<rparr>"
    have bok: "brun_ok (be_db s) r" and rows: "rows_ok (be_db s)" using ok r(1) by (simp_all add: engine_ok_def)
    have d: "distinct (map tg_OperationID (run_targets r))" using bok by (simp add: brun_ok_def)
    obtain w where w: "mget (bd_targets (be_db s)) (b, opID) = Some w" "incomplete (tg_Status w)"
      using run_row [OF ok r(1) in_run_targets(1) [OF t(1)]] t(2) r(2) by blast
    have "if incomplete (tg_Status v) then target_place x res ?r v (mget (mput (b, opID) u (bd_targets (be_db s))) (b, i))
        else mget (mput (b, opID) u (bd_targets (be_db s))) (b, i) = Some v" if v: "mget M (b, i) = Some v" for i v
    proof (cases "i = opID")
      case True
      have inc: "incomplete (tg_Status v)" using place [OF v] w True by (auto split: if_splits)
      then have "target_place x res r v (Some w)" using place [OF v] w True by simp
      moreover have "\<not> settled x res v w"
        using w(2) terminal_not_incomplete [OF MapExecError_terminal] by (auto simp: settled_def)
      moreover have "\<not> (w \<in> set (rn_Inflight r) \<and> same_target v w)"
      proof
        assume a: "w \<in> set (rn_Inflight r) \<and> same_target v w"
        have "tg_OperationID w = opID" using rows w(1) by (simp add: rows_ok_def)
        with a t(1,2) d show False by (force simp: run_targets_def)
      qed
      ultimately have "v \<in> set (rn_Todo r)" "w = v" by (auto simp: target_place_def)
      moreover have "tg_OperationID w = opID" using rows w(1) by (simp add: rows_ok_def)
      ultimately have "v = t" using t d by (intro op_inj [of "run_targets r"]) (auto simp: run_targets_def)
      then show ?thesis using inc t(3) True by (simp add: target_place_def)
    next
      case False
      show ?thesis
      proof (cases "incomplete (tg_Status v)")
        case True
        have "target_place x res r v (mget (bd_targets (be_db s)) (b, i))" using place [OF v] True by simp
        moreover have "tg_OperationID z \<noteq> opID" if "mget (bd_targets (be_db s)) (b, i) = Some z" for z
          using rows that False by (auto simp: rows_ok_def)
        moreover have "tg_OperationID u = opID" using t by (simp add: same_target_def)
        ultimately have "target_place x res ?r v (mget (bd_targets (be_db s)) (b, i))"
          unfolding target_place_def by (auto simp: run_targets_def settled_def same_target_def)
        with True False show ?thesis by simp
      next
        case inc: False
        then show ?thesis using place [OF v] False by simp
      qed
    qed
    moreover have "mget (mput (b, opID) u (bd_targets (be_db s))) (b, i) = None" if "mget M (b, i) = None" for i
      using pl that w(1) by (auto simp: rows_placed_def)
    ultimately have "rows_placed x res b ?r M (mput (b, opID) u (bd_targets (be_db s)))" unfolding rows_placed_def by blast
    then show ?thesis using r by (simp add: run_progress_def step)
  qed
qed

lemma end_progress:
  assumes nf: "bx_fault x = (\<lambda>_. None)" and ok: "engine_ok s" and pr: "run_progress x res b M s" and err: "err = res opID"
  shows "run_progress x res b M (end_step x opID now False deadline err s)"
proof -
  obtain r where r: "be_run s = Some r" "rn_ID r = b" "rn_Outcome r = None" "mhas (bd_batches (be_db s)) b"
    and pl: "rows_placed x res b r M (bd_targets (be_db s))"
    using pr by (auto simp: run_progress_def)
  have place: "if incomplete (tg_Status t) then target_place x res r t (mget (bd_targets (be_db s)) (b, i))
      else mget (bd_targets (be_db s)) (b, i) = Some t" if "mget M (b, i) = Some t" for i t
    using pl that unfolding rows_placed_def by blast
  from end_exact [OF nf ok r(1), of opID now deadline err] show ?thesis
  proof (elim disjE exE conjE)
    assume "end_step x opID now False deadline err s = s"
    with pr show ?thesis by simp
  next
    fix t u assume t: "t \<in> set (rn_Inflight r)" "tg_OperationID t = opID" "same_target t u"
      and u: "tg_Status u = MapExecError (bx_deadline x) err" "tg_Error u = (case err of None \<Rightarrow> [] | Some e \<Rightarrow> err_text e)"
      and step: "end_step x opID now False deadline err s = s\<lparr>be_calls := Suc (be_calls s),
        be_db := (be_db s)\<lparr>bd_targets := mput (rn_ID r, opID) u (bd_targets (be_db s))\<rparr>,
        be_run := Some (r\<lparr>rn_Inflight := drop_op opID (rn_Inflight r)\<rparr>)\<rparr>"
    let ?r = "r\<lparr>rn_Inflight := drop_op opID (rn_Inflight r)\<rparr>"
    have bok: "brun_ok (be_db s) r" and rows: "rows_ok (be_db s)" using ok r(1) by (simp_all add: engine_ok_def)
    have d: "distinct (map tg_OperationID (run_targets r))" using bok by (simp add: brun_ok_def)
    have not_todo: "tg_OperationID z \<noteq> opID" if "z \<in> set (rn_Todo r)" for z
      using d t(1,2) that by (force simp: run_targets_def)
    obtain w where w: "mget (bd_targets (be_db s)) (b, opID) = Some w" "incomplete (tg_Status w)"
      using run_row [OF ok r(1) in_run_targets(2) [OF t(1)]] t(2) r(2) by blast
    have w_op: "tg_OperationID w = opID" using rows w(1) by (simp add: rows_ok_def)
    have "if incomplete (tg_Status v) then target_place x res ?r v (mget (mput (b, opID) u (bd_targets (be_db s))) (b, i))
        else mget (mput (b, opID) u (bd_targets (be_db s))) (b, i) = Some v" if v: "mget M (b, i) = Some v" for i v
    proof (cases "i = opID")
      case True
      have inc: "incomplete (tg_Status v)" using place [OF v] w True by (auto split: if_splits)
      then have "target_place x res r v (Some w)" using place [OF v] w True by simp
      moreover have "\<not> settled x res v w"
        using w(2) terminal_not_incomplete [OF MapExecError_terminal] by (auto simp: settled_def)
      moreover have "\<not> (v \<in> set (rn_Todo r) \<and> w = v)" using not_todo w_op by auto
      ultimately have "w \<in> set (rn_Inflight r)" "same_target v w" by (auto simp: target_place_def)
      moreover from this(1) have "w = t" using t(1,2) w_op d by (intro op_inj [of "run_targets r"]) (auto simp: run_targets_def)
      ultimately have vu: "same_target v u" using t(3) same_target_trans by blast
      then have "settled x res v u" using u err t(2,3) by (simp add: settled_def same_target_def)
      moreover have "tg_OperationID v \<notin> tg_OperationID ` set (run_targets ?r)"
        using vu t(2,3) by (auto simp: run_targets_def same_target_def dest: not_todo)
      ultimately show ?thesis using inc True by (simp add: target_place_def)
    next
      case False
      show ?thesis
      proof (cases "incomplete (tg_Status v)")
        case True
        have "target_place x res r v (mget (bd_targets (be_db s)) (b, i))" using place [OF v] True by simp
        moreover have "tg_OperationID z \<noteq> opID" if "mget (bd_targets (be_db s)) (b, i) = Some z" for z
          using rows that False by (auto simp: rows_ok_def)
        ultimately have "target_place x res ?r v (mget (bd_targets (be_db s)) (b, i))"
          unfolding target_place_def by (auto simp: run_targets_def)
        with True False show ?thesis by simp
      next
        case inc: False
        then show ?thesis using place [OF v] False by simp
      qed
    qed
    moreover have "mget (mput (b, opID) u (bd_targets (be_db s))) (b, i) = None" if "mget M (b, i) = None" for i
      using pl that w(1) by (auto simp: rows_placed_def)
    ultimately have "rows_placed x res b ?r M (mput (b, opID) u (bd_targets (be_db s)))" unfolding rows_placed_def by blast
    then show ?thesis using r by (simp add: run_progress_def step)
  qed
qed

lemma worker_progress:
  "bx_fault x = (\<lambda>_. None) \<Longrightarrow> list_all (worker_event res) evs \<Longrightarrow> engine_ok s \<Longrightarrow> run_progress x res b M s \<Longrightarrow>
    engine_ok (engine_run x evs s) \<and> run_progress x res b M (engine_run x evs s)"
proof (induction evs arbitrary: s)
  case (Cons ev evs)
  have "engine_ok (engine_step x ev s)" using engine_step_good [OF Cons.prems(3), of x ev] by (simp add: good_step_def)
  moreover have "run_progress x res b M (engine_step x ev s)"
    using Cons.prems(2) begin_progress [OF Cons.prems(1,3,4)] end_progress [OF Cons.prems(1,3,4)] by (cases ev) simp_all
  ultimately show ?case using Cons by (simp add: engine_run_def)
qed (simp add: engine_run_def)

lemma pick_exact:
  assumes nf: "bx_fault x = (\<lambda>_. None)" and ok: "engine_ok s" and idle: "be_run s = None" and job: "be_jobs s = b # rest"
    and row: "mget (bd_batches (be_db s)) b = Some r0" "\<not> terminal_batch (br_Status r0)"
  shows "run_progress x res b (bd_targets (be_db s)) (pick_step x s)"
proof (cases rule: pick_cases [of x s])
  case (picked b' rest' r)
  have b: "b' = b" "r = r0" using picked(2,3) job row(1) by simp_all
  have rows: "rows_ok (be_db s)" using ok by (simp add: engine_ok_def)
  have "mhas (bd_batches (be_db (pick_step x s))) b"
    by (simp add: pick_step_def idle job run_start_def GetB_run nf row run_state_write UpdateBatchStatus_def)
  moreover have "rows_placed x res b \<lparr>rn_ID = b, rn_Type = br_Type r0,
        rn_Todo = filter (\<lambda>t. \<not> isTerminalTarget (tg_Status t) \<and> incomplete (tg_Status t)) (batch_rows b (be_db s)),
        rn_Inflight = [], rn_Outcome = None\<rparr> (bd_targets (be_db s)) (bd_targets (be_db s))"
  proof -
    have "t \<in> set (batch_rows b (be_db s))" if "mget (bd_targets (be_db s)) (b, i) = Some t" for i t
      using that rows in_batch_rows [OF rows] by (auto simp: rows_ok_def)
    then show ?thesis
      by (auto simp: rows_placed_def target_place_def dest: terminal_not_incomplete)
  qed
  ultimately show ?thesis using picked(5,6) by (simp add: run_progress_def b)
next
  case none
  have "be_run (pick_step x s) \<noteq> None"
    by (simp add: pick_step_def idle job run_start_def GetB_run nf row run_state_write UpdateBatchStatus_def)
  then show ?thesis using none idle by simp
next
  case refused
  have "be_run (pick_step x s) \<noteq> None"
    by (simp add: pick_step_def idle job run_start_def GetB_run nf row run_state_write UpdateBatchStatus_def)
  then show ?thesis using refused by simp
qed

definition run_finished :: "Engine \<Rightarrow> bool" where
  "run_finished s \<longleftrightarrow> (\<forall>r. be_run s = Some r \<longrightarrow> rn_Todo r = [] \<and> rn_Inflight r = [])"

lemma finish_exact:
  assumes nf: "bx_fault x = (\<lambda>_. None)" and ok: "engine_ok s" and pr: "run_progress x res b M s" and done0: "run_finished s"
  shows "be_run (engine_run x [EvRollup, EvWrite] s) = None
    \<and> bd_targets (be_db (engine_run x [EvRollup, EvWrite] s)) = bd_targets (be_db s)
    \<and> (\<exists>r. mget (bd_batches (be_db (engine_run x [EvRollup, EvWrite] s))) b = Some r
          \<and> br_Status r = Rollup (batch_rows b (be_db s)) \<and> br_Summary r = CountSummary (batch_rows b (be_db s)))"
proof -
  obtain r r1 where r: "be_run s = Some r" "rn_ID r = b" "rn_Outcome r = None" and b: "mget (bd_batches (be_db s)) b = Some r1"
    using pr by (auto simp: run_progress_def mhas_def)
  have "rn_Todo r = []" "rn_Inflight r = []" using done0 r(1) by (simp_all add: run_finished_def)
  then show ?thesis
    by (simp add: engine_run_def rollup_step_def write_step_def r run_rollup_def GetB_run nf b run_state_write UpdateBatchStatus_def)
qed

lemma settled_rows:
  assumes "run_progress x res b M s" and "run_finished s" and "mget M (b, opID) = Some t"
  shows "\<exists>u. mget (bd_targets (be_db s)) (b, opID) = Some u \<and> (if incomplete (tg_Status t) then settled x res t u else u = t)"
  using assms by (fastforce simp: run_progress_def rows_placed_def target_place_def run_finished_def run_targets_def split: if_splits)

lemma all_settled:
  assumes ok: "engine_ok s" and pr: "run_progress x res b M s" and fin: "run_finished s"
  shows "terminal_batch (Rollup (batch_rows b (be_db s)))"
proof -
  have "\<not> incomplete (tg_Status u)" if u: "u \<in> set (batch_rows b (be_db s))" for u
  proof -
    have row: "mget (bd_targets (be_db s)) (b, tg_OperationID u) = Some u"
      using u ok in_batch_rows by (auto simp: engine_ok_def)
    then obtain t where "mget M (b, tg_OperationID u) = Some t"
      using pr by (cases "mget M (b, tg_OperationID u)") (auto simp: run_progress_def rows_placed_def)
    from settled_rows [OF pr fin this] row show ?thesis
      using terminal_not_incomplete [OF MapExecError_terminal] by (auto simp: settled_def split: if_splits)
  qed
  then have "Rollup (batch_rows b (be_db s)) \<noteq> BatchRunning" by (simp add: Rollup_running)
  then show ?thesis
    using Rollup_not_pending [of "batch_rows b (be_db s)"] by (cases "Rollup (batch_rows b (be_db s))") (simp_all add: terminal_batch_def)
qed

text \<open>
  A run can always go on to its end: with at least one slot, starting and ending its targets one after the other leaves
  none.
\<close>

lemma slots_pos: "0 < slots x"
  by (auto simp: slots_def Let_def defaultConcurrency_def maxConcurrency_def)

definition one_by_one :: "(string \<Rightarrow> goerror option) \<Rightarrow> gtime \<Rightarrow> string list \<Rightarrow> BEvent list" where
  "one_by_one res now ops = concat (map (\<lambda>i. [EvBegin i now, EvEnd i now False False (res i)]) ops)"

lemma one_by_one_finishes:
  assumes nf: "bx_fault x = (\<lambda>_. None)"
  shows "engine_ok s \<Longrightarrow> be_run s = Some r \<Longrightarrow> rn_Inflight r = [] \<Longrightarrow> rn_Outcome r = None
    \<Longrightarrow> run_finished (engine_run x (one_by_one res now (map tg_OperationID (rn_Todo r))) s)"
proof (induction "rn_Todo r" arbitrary: r s)
  case Nil
  then show ?case by (simp add: run_finished_def engine_run_def one_by_one_def)
next
  case (Cons t ts)
  let ?i = "tg_OperationID t"
  have todo: "rn_Todo r = t # ts" using Cons.hyps(2) by simp
  have d: "distinct (map tg_OperationID (t # ts))"
    using Cons.prems(1,2,3) todo by (simp add: engine_ok_def brun_ok_def run_targets_def)
  then have drop: "drop_op ?i (rn_Todo r) = ts" by (simp add: todo drop_op_def filter_id_conv) (metis imageI)
  let ?u = "t\<lparr>tg_Status := TargetRunning, tg_StartedAt := now, tg_Error := []\<rparr>"
  define s1 where "s1 = begin_step x ?i now s"
  have "t \<in> set (run_targets r)" by (simp add: run_targets_def todo)
  then have "mhas (bd_targets (be_db s)) (rn_ID r, tg_OperationID ?u)"
    using run_row_mhas [OF Cons.prems(1,2)] by simp
  from exec_update [OF nf this] have b: "be_run s1 = Some (r\<lparr>rn_Todo := ts, rn_Inflight := [?u]\<rparr>)"
    using slots_pos [of x] Cons.prems drop
    by (simp add: s1_def begin_step_def target_start_def Let_def todo)
  define s2 where "s2 = end_step x ?i now False False (res ?i) s1"
  have "be_run s2 = Some (r\<lparr>rn_Todo := ts, rn_Inflight := []\<rparr>)"
    by (simp add: s2_def end_step_def b drop_op_def)
  moreover have "engine_ok s2"
    using engine_step_good [OF Cons.prems(1), of x "EvBegin ?i now"] engine_step_good [of s1 x "EvEnd ?i now False False (res ?i)"]
    by (simp add: s1_def s2_def good_step_def)
  ultimately have "run_finished (engine_run x (one_by_one res now (map tg_OperationID ts)) s2)"
    using Cons.hyps(1) [of "r\<lparr>rn_Todo := ts, rn_Inflight := []\<rparr>" s2] Cons.prems(4) by simp
  then show ?case
    by (simp add: todo one_by_one_def engine_run_def s1_def s2_def)
qed

section \<open>What holds\<close>


text \<open>
  C18: The outcome of a batch. When the worker takes a batch that is not finished and is left alone, without failures of
  the database, then in whatever order the goroutines start and end, and whatever the number of slots: every target
  that was incomplete ends with the status and the error text of its execution, every other target keeps its row, and
  the batch gets the status and the summary that its rows give, which is a final one. There is always such an order.
\<close>

theorem batch_outcome_exact:
  assumes "bx_fault x = (\<lambda>_. None)" and "s = engine_run x before engine_init" and "be_run s = None" and "be_jobs s = b # rest"
    and "mget (bd_batches (be_db s)) b = Some r0" and "\<not> terminal_batch (br_Status r0)"
  shows "(\<exists>evs. list_all (worker_event res) evs \<and> run_finished (engine_run x (EvPick # evs) s))
    \<and> (\<forall>evs. list_all (worker_event res) evs \<and> run_finished (engine_run x (EvPick # evs) s) \<longrightarrow>
      (let s' = engine_run x (EvPick # evs @ [EvRollup, EvWrite]) s; rows = batch_rows b (be_db s') in
        be_run s' = None
        \<and> (\<forall>opID t. mget (bd_targets (be_db s)) (b, opID) = Some t \<longrightarrow>
            (\<exists>u. mget (bd_targets (be_db s')) (b, opID) = Some u \<and> (if incomplete (tg_Status t) then settled x res t u else u = t)))
        \<and> (\<exists>r. mget (bd_batches (be_db s')) b = Some r \<and> terminal_batch (br_Status r)
            \<and> br_Status r = Rollup rows \<and> br_Summary r = CountSummary rows)))"
proof (intro conjI allI impI)
  have ok: "engine_ok s" using engine_run_good [OF engine_init_ok] by (simp add: good_step_def assms(2))
  define s1 where "s1 = pick_step x s"
  have ok1: "engine_ok s1" using pick_good [OF ok, of x] by (simp add: good_step_def s1_def)
  have pr: "run_progress x res b (bd_targets (be_db s)) s1"
    unfolding s1_def by (rule pick_exact [OF assms(1) ok assms(3-6)])
  have pick: "engine_run x (EvPick # es) s = engine_run x es s1" for es by (simp add: engine_run_def s1_def)
  {
    have "\<exists>r. be_run s1 = Some r \<and> rn_Inflight r = [] \<and> rn_Outcome r = None"
      using pr by (cases rule: pick_cases [of x s]) (auto simp: s1_def run_progress_def assms(3))
    then obtain r where r: "be_run s1 = Some r" "rn_Inflight r = []" "rn_Outcome r = None" by blast
    have "list_all (worker_event res) (one_by_one res 0 (map tg_OperationID (rn_Todo r)))"
      by (simp add: one_by_one_def list_all_iff)
    with one_by_one_finishes [OF assms(1) ok1 r] pick
    show "\<exists>evs. list_all (worker_event res) evs \<and> run_finished (engine_run x (EvPick # evs) s)" by metis
  }
  fix evs assume h: "list_all (worker_event res) evs \<and> run_finished (engine_run x (EvPick # evs) s)"
  define s2 where "s2 = engine_run x evs s1"
  have s2: "engine_ok s2" "run_progress x res b (bd_targets (be_db s)) s2" "run_finished s2"
    using worker_progress [OF assms(1) conjunct1 [OF h] ok1 pr] h by (simp_all add: s2_def pick)
  let ?s' = "engine_run x [EvRollup, EvWrite] s2"
  have s': "engine_run x (EvPick # evs @ [EvRollup, EvWrite]) s = ?s'" by (simp add: pick engine_run_append s2_def)
  from finish_exact [OF assms(1) s2] have fin: "be_run ?s' = None" "bd_targets (be_db ?s') = bd_targets (be_db s2)"
    "\<exists>r. mget (bd_batches (be_db ?s')) b = Some r \<and> br_Status r = Rollup (batch_rows b (be_db s2)) \<and> br_Summary r = CountSummary (batch_rows b (be_db s2))"
    by simp_all
  have rows: "batch_rows b (be_db ?s') = batch_rows b (be_db s2)" by (simp only: batch_rows_def fin(2))
  show "let s' = engine_run x (EvPick # evs @ [EvRollup, EvWrite]) s; rows = batch_rows b (be_db s') in
      be_run s' = None
      \<and> (\<forall>opID t. mget (bd_targets (be_db s)) (b, opID) = Some t \<longrightarrow>
          (\<exists>u. mget (bd_targets (be_db s')) (b, opID) = Some u \<and> (if incomplete (tg_Status t) then settled x res t u else u = t)))
      \<and> (\<exists>r. mget (bd_batches (be_db s')) b = Some r \<and> terminal_batch (br_Status r)
          \<and> br_Status r = Rollup rows \<and> br_Summary r = CountSummary rows)"
    unfolding s' Let_def rows fin(2) using settled_rows [OF s2(2,3)] fin(1,3) all_settled [OF s2] by metis
qed

section \<open>Concrete histories\<close>

definition demo_env :: BatchEnv where
  "demo_env = \<lparr>bx_newid = (\<lambda>n. if n = 0 then ''b'' else if n = 1 then ''p'' else ''q''), bx_fault = (\<lambda>_. None), bx_source = ''a'',
     bx_concurrency = 1, bx_deadline = (\<lambda>_. False)\<rparr>"

definition demo_selector :: BatchSelector where
  "demo_selector = \<lparr>sl_ProcessIDs = [''x''], sl_ProcessNames = [], sl_AgentGroupID = [], sl_ProcessGroup = []\<rparr>"

definition demo_create :: BEvent where
  "demo_create = EvCreate None 0 ''op'' BatchStart demo_selector (Some (\<lambda>_ _. Inr [zero_target\<lparr>tg_NodeID := ''n'', tg_ProcessID := ''x''\<rparr>]))"

lemma demo_trim: "TrimSpace ''op'' = ''op''"
  by (rule TrimSpace_graphic) simp_all

lemmas demo_defs = demo_env_def demo_selector_def demo_create_def engine_run_def engine_init_def CreateWithExpand_def demo_trim
  validType_def selectorEmpty_def filterNonZeroTargets_def zero_target_def NewID_def run_state_write InsertBatch_def
  bindTargets_def enqueue_def GetB_run batch_rows_def mfilter_def mhas_def Let_def

lemma demo_created:
  "engine_run demo_env [EvStart, demo_create] engine_init = \<lparr>be_db = \<lparr>bd_batches = [(''b'', \<lparr>br_BatchID = ''b'', br_Operator = ''op'',
     br_SourceAgent = ''a'', br_Type = BatchStart, br_Selector = demo_selector, br_CreatedAt = 0, br_Status = BatchPending,
     br_Summary = CountSummary [zero_target\<lparr>tg_NodeID := ''n'', tg_ProcessID := ''x'', tg_OperationID := ''p'', tg_Status := TargetPending\<rparr>]\<rparr>)],
     bd_targets = [((''b'', ''p''), zero_target\<lparr>tg_NodeID := ''n'', tg_ProcessID := ''x'', tg_OperationID := ''p'', tg_Status := TargetPending\<rparr>)]\<rparr>,
     be_calls = 2, be_ids = 2, be_started = True, be_jobs = [''b''], be_idents = [], be_run = None\<rparr>"
  by (simp add: demo_defs)

definition demo_target :: Target where
  "demo_target = zero_target\<lparr>tg_NodeID := ''n'', tg_ProcessID := ''x'', tg_OperationID := ''p'', tg_Status := TargetPending\<rparr>"

definition demo_record :: BatchRecord where
  "demo_record = \<lparr>br_BatchID = ''b'', br_Operator = ''op'', br_SourceAgent = ''a'', br_Type = BatchStart, br_Selector = demo_selector,
     br_CreatedAt = 0, br_Status = BatchPending, br_Summary = CountSummary [demo_target]\<rparr>"

definition demo_state :: Engine where
  "demo_state = engine_run demo_env [EvStart, demo_create] engine_init"

lemma demo_state:
  "demo_state = \<lparr>be_db = \<lparr>bd_batches = [(''b'', demo_record)], bd_targets = [((''b'', ''p''), demo_target)]\<rparr>,
     be_calls = 2, be_ids = 2, be_started = True, be_jobs = [''b''], be_idents = [], be_run = None\<rparr>"
  unfolding demo_state_def demo_created demo_record_def demo_target_def by (rule refl)

lemma demo_slots: "slots demo_env = 1"
  by (simp add: slots_def demo_env_def Let_def maxConcurrency_def)

lemma demo_noerr: "bx_fault demo_env = (\<lambda>_. None)"
  by (simp add: demo_env_def)

text \<open>The batch is taken and its only target executed, with the answer \<open>err\<close>.\<close>

definition demo_done :: "goerror option \<Rightarrow> Target" where
  "demo_done err = demo_target\<lparr>tg_Status := MapExecError (\<lambda>_. False) err, tg_StartedAt := 1, tg_FinishedAt := 2,
     tg_Error := (case err of None \<Rightarrow> [] | Some e \<Rightarrow> err_text e)\<rparr>"

definition demo_events :: "goerror option \<Rightarrow> BEvent list" where
  "demo_events err = [EvPick, EvBegin ''p'' 1, EvEnd ''p'' 2 False False err]"

lemma demo_executed:
  "engine_run demo_env (demo_events err) demo_state
    = \<lparr>be_db = \<lparr>bd_batches = [(''b'', demo_record\<lparr>br_Status := BatchRunning\<rparr>)], bd_targets = [((''b'', ''p''), demo_done err)]\<rparr>,
       be_calls = 6, be_ids = 2, be_started = True, be_jobs = [], be_idents = [],
       be_run = Some \<lparr>rn_ID = ''b'', rn_Type = BatchStart, rn_Todo = [], rn_Inflight = [], rn_Outcome = None\<rparr>\<rparr>"
proof -
  have op: "tg_OperationID demo_target = ''p''" "tg_Status demo_target = TargetPending"
    and r: "br_Status demo_record = BatchPending" "br_Type demo_record = BatchStart"
    by (simp_all add: demo_target_def demo_record_def)
  have nt: "\<not> terminal_batch BatchPending" "incomplete TargetPending" "\<not> isTerminalTarget TargetPending" "bx_deadline demo_env = (\<lambda>_. False)"
    by (simp_all add: terminal_batch_def incomplete_def isTerminalTarget_def demo_env_def)
  show ?thesis
    by (simp add: demo_events_def demo_state engine_run_def pick_step_def run_start_def GetB_run demo_noerr batch_rows_def mfilter_def
        run_state_write UpdateBatchStatus_def begin_step_def end_step_def demo_slots target_start_def target_end_def UpdateTarget_def
        mhas_def op r nt Let_def drop_op_def demo_done_def)
qed

lemma demo_history: "engine_run demo_env (evs) demo_state = engine_run demo_env ([EvStart, demo_create] @ evs) engine_init"
  unfolding demo_state_def engine_run_append by (rule refl)


theorem batch_outcome_exact_witness:
  "\<exists>r. mget (bd_batches (be_db (engine_run demo_env (demo_events (Some (E DENIED [])) @ [EvRollup, EvWrite]) demo_state))) ''b'' = Some r
    \<and> terminal_batch (br_Status r)"
proof -
  have h: "bx_fault demo_env = (\<lambda>_. None)" "be_run demo_state = None" "be_jobs demo_state = ''b'' # []"
    "mget (bd_batches (be_db demo_state)) ''b'' = Some demo_record" "\<not> terminal_batch (br_Status demo_record)"
    by (simp_all add: demo_noerr demo_state) (simp add: demo_record_def terminal_batch_def)
  let ?evs = "[EvBegin ''p'' 1, EvEnd ''p'' 2 False False (Some (E DENIED []))]"
  have "run_finished (engine_run demo_env (EvPick # ?evs) demo_state)"
    unfolding demo_events_def [symmetric] demo_executed by (simp add: run_finished_def)
  moreover have "list_all (worker_event (\<lambda>_. Some (E DENIED []))) ?evs" by simp
  moreover note conjunct2 [OF batch_outcome_exact [OF h(1) demo_state_def h(2-5), of "\<lambda>_. Some (E DENIED [])"], rule_format, of ?evs]
  ultimately have "\<exists>r. mget (bd_batches (be_db (engine_run demo_env (EvPick # ?evs @ [EvRollup, EvWrite]) demo_state))) ''b'' = Some r
      \<and> terminal_batch (br_Status r)"
    unfolding Let_def by blast
  then show ?thesis by (simp only: demo_events_def append_Cons append_Nil)
qed

text \<open>
  A replay that falls between the last two steps of a run is lost: the worker's write makes the batch final again, so
  the batch that the replay has queued is skipped, and its target stays PENDING, also after a restart.
\<close>

lemma lost_replay:
  assumes "s = engine_run demo_env (demo_events (Some (E TIMEOUT [])) @ [EvRollup, EvReplay None ''b'', EvWrite, EvPick]) demo_state"
  shows "map_option tg_Status (mget (bd_targets (be_db s)) (''b'', ''p'')) = Some TargetPending"
    and "map_option br_Status (mget (bd_batches (be_db s)) ''b'') = Some BatchPartial"
    and "be_jobs s = [] \<and> be_run s = None"
    and "be_db (engine_run demo_env [EvCrash, EvStart, EvResume, EvPick] s) = be_db s"
proof -
  let ?t = "demo_done (Some (E TIMEOUT []))"
  have t: "tg_Status ?t = TargetTimeout" "tg_OperationID ?t = ''p''"
    by (simp_all add: demo_done_def MapExecError_def demo_target_def)
  have roll: "Rollup [?t] = BatchPartial"
    by (simp add: Rollup_def Let_def status_count_def t incomplete_def)
  have r: "reset_target ''p'' ?t\<lparr>tg_OperationID := ''p''\<rparr> = reset_target ''p'' ?t" "tg_Status (reset_target ''p'' ?t) = TargetPending"
    by (simp_all add: reset_target_def)
  have s: "s = \<lparr>be_db = \<lparr>bd_batches = [(''b'', demo_record\<lparr>br_Status := BatchPartial, br_Summary := CountSummary [?t]\<rparr>)],
      bd_targets = [((''b'', ''p''), reset_target ''p'' ?t)]\<rparr>, be_calls = 14, be_ids = 2, be_started = True, be_jobs = [],
      be_idents = [], be_run = None\<rparr>"
    unfolding assms engine_run_append demo_executed
    by (simp add: engine_run_def rollup_step_def run_rollup_def GetB_run demo_noerr batch_rows_def mfilter_def roll ReplayTimeout_def t
        run_state_write UpdateTarget_def UpdateBatchStatus_def mhas_def r bindTargets_def requeueBatch_def enqueue_def write_step_def
        pick_step_def run_start_def terminal_batch_def)
  show "map_option tg_Status (mget (bd_targets (be_db s)) (''b'', ''p'')) = Some TargetPending"
    "map_option br_Status (mget (bd_batches (be_db s)) ''b'') = Some BatchPartial" "be_jobs s = [] \<and> be_run s = None"
    by (simp_all add: s r)
  show "be_db (engine_run demo_env [EvCrash, EvStart, EvResume, EvPick] s) = be_db s"
    by (simp add: s engine_run_def Resume_def db_read_def demo_noerr ListIncompleteTargets_def r incomplete_def enqueue_def pick_step_def
        run_start_def GetB_run terminal_batch_def)
qed

text \<open>
  A restart between the last result of a batch and the write of its status leaves the batch RUNNING: no target is
  incomplete, so nothing is resumed, and there is nothing to retry or to replay either.
\<close>

lemma finished_batch_stays_running:
  assumes "s = engine_run demo_env (demo_events None @ [EvCrash, EvStart, EvResume]) demo_state"
  shows "map_option tg_Status (mget (bd_targets (be_db s)) (''b'', ''p'')) = Some TargetSuccess"
    and "map_option br_Status (mget (bd_batches (be_db s)) ''b'') = Some BatchRunning" and "be_jobs s = []"
    and "fst (run_state (RetryFailed demo_env p ''b'') s) = fail INVALID ''nothing to retry''"
    and "fst (run_state (ReplayTimeout demo_env p ''b'') s) = fail INVALID ''nothing to replay''"
proof -
  have t: "tg_Status (demo_done None) = TargetSuccess"
    by (simp add: demo_done_def MapExecError_def)
  have s: "s = \<lparr>be_db = \<lparr>bd_batches = [(''b'', demo_record\<lparr>br_Status := BatchRunning\<rparr>)], bd_targets = [((''b'', ''p''), demo_done None)]\<rparr>,
       be_calls = 7, be_ids = 2, be_started = True, be_jobs = [], be_idents = [], be_run = None\<rparr>"
    unfolding assms engine_run_append demo_executed
    by (simp add: engine_run_def Resume_def db_read_def demo_noerr ListIncompleteTargets_def t incomplete_def)
  show "map_option tg_Status (mget (bd_targets (be_db s)) (''b'', ''p'')) = Some TargetSuccess"
    "map_option br_Status (mget (bd_batches (be_db s)) ''b'') = Some BatchRunning" "be_jobs s = []"
    by (simp_all add: s t)
  show "fst (run_state (RetryFailed demo_env p ''b'') s) = fail INVALID ''nothing to retry''"
    "fst (run_state (ReplayTimeout demo_env p ''b'') s) = fail INVALID ''nothing to replay''"
    by (simp_all add: s RetryFailed_def ReplayTimeout_def GetB_run demo_noerr batch_rows_def mfilter_def t isRetryableTarget_def)
qed

end
