(* ===== verification/Batch_Exec.thy ===== *)
theory Batch_Exec imports Api_Process Batch_Expand Batch_Runs
begin

text \<open>
  The batch service of an agent: its handlers (\<^verbatim>\<open>internal/api/batch.go\<close>) and its executor, which runs one target
  through the handlers of processes (\<^verbatim>\<open>internal/api/batch_exec.go\<close>). The text of a payload is decoded by the parameter
  \<open>decode\<close> (package json): the expected revision and the specification. The row that a handler adds to the audit log is
  left out, as its error is ignored.
\<close>

section \<open>The executor\<close>

record BatchAPI =
  bp_Auth :: "AuthService option"
  bp_LocalID :: string
  bp_Router :: "Router option"
  bp_Dial :: "(Route \<Rightarrow> goerror option) option"
  bp_Degraded :: bool
  bp_Process :: ProcessRemotePolicy
  bp_is_timeout :: "goerror \<Rightarrow> bool"

text \<open>The service as a handler of processes (\<^verbatim>\<open>processAPI\<close>, \<^verbatim>\<open>configAPI\<close>).\<close>

definition processAPI :: "BatchAPI \<Rightarrow> ProcessAPI" where
  "processAPI b = \<lparr>pa_Auth = bp_Auth b, pa_Degraded = bp_Degraded b, pa_LocalOnly = False, pa_LocalID = bp_LocalID b,
     pa_Router = bp_Router b, pa_Dial = bp_Dial b, pa_Process = bp_Process b, pa_is_timeout = bp_is_timeout b\<rparr>"

definition operatorOf :: "Principal option \<Rightarrow> string \<Rightarrow> string" where
  "operatorOf p metaOp =
    (if TrimSpace metaOp \<noteq> [] then metaOp
     else case p of None \<Rightarrow> ''unknown''
     | Some pr \<Rightarrow> if pr_Username pr \<noteq> [] then pr_Username pr
         else if pr_UserID pr \<noteq> [] then pr_UserID pr else ''unknown'')"

definition withIdentity :: "(string, Principal) gomap \<Rightarrow> Principal option \<Rightarrow> Target \<Rightarrow> Principal option" where
  "withIdentity idents p t = (case p of Some pr \<Rightarrow> Some pr | None \<Rightarrow> mget idents (tg_OperationID t))"

definition remoteMissingPrincipal :: "BatchAPI \<Rightarrow> Principal option \<Rightarrow> Target \<Rightarrow> bool" where
  "remoteMissingPrincipal b p t \<longleftrightarrow>
     p = None \<and> bp_Router b \<noteq> None \<and> tg_NodeID t \<noteq> [] \<and> tg_NodeID t \<noteq> bp_LocalID b"

text \<open>The request of the executor comes from no peer.\<close>

definition target_request :: "Principal option \<Rightarrow> Target \<Rightarrow> Request" where
  "target_request p t =
    \<lparr>rq_Principal = p,
     rq_Header = stampIdentity p (no_header\<lparr>hd_TargetNode := tg_NodeID t\<rparr>),
     rq_Loopback = False,
     rq_IdOrName = (if tg_ProcessID t = [] then tg_ProcessName t else tg_ProcessID t),
     rq_OperationID = tg_OperationID t,
     rq_Operator = operatorOf p []\<rparr>"

definition exec_error :: "BatchAPI \<Rightarrow> callerr + 'a \<Rightarrow> goerror option" where
  "exec_error b r = (case r of Inr _ \<Rightarrow> None | Inl e \<Rightarrow> Some (as_goerror (MapCallError (bp_is_timeout b) e)))"

record Remotes =
  rs_process :: "Route \<Rightarrow> Header \<Rightarrow> callerr + ProcessView"
  rs_config :: "Route \<Rightarrow> Header \<Rightarrow> callerr + ProcessSpec"

definition execProcess :: "BatchAPI \<Rightarrow> Host \<Rightarrow> Remotes \<Rightarrow> Principal option \<Rightarrow> Target \<Rightarrow> BatchType \<Rightarrow> goerror option run" where
  "execProcess b H rs p t typ0 = do {
     let a = processAPI b;
     let rq = target_request p t;
     r \<leftarrow> (case typ0 of
         BatchStart \<Rightarrow> StartProcess a H rq (rs_process rs)
       | BatchStop \<Rightarrow> StopProcess a H rq (rs_process rs)
       | _ \<Rightarrow> RestartProcess a H rq (rs_process rs));
     ret (exec_error b r) }"

definition execConfig ::
    "BatchAPI \<Rightarrow> Host \<Rightarrow> Remotes \<Rightarrow> (string \<Rightarrow> (int \<times> ProcessSpec option) option) \<Rightarrow> Principal option \<Rightarrow> Target \<Rightarrow> goerror option run" where
  "execConfig b H rs decode p t =
    (case (if tg_PayloadJSON t = [] then Some (0, None) else decode (tg_PayloadJSON t)) of
       None \<Rightarrow> ret (Some (E INVALID ''payload''))
     | Some (revn, spec) \<Rightarrow>
        let expected = (if tg_ExpectedRevision t = 0 then revn else tg_ExpectedRevision t) in
        if expected \<le> 0 then ret (Some (E INVALID ''expected_revision''))
        else case spec of
            None \<Rightarrow> ret (Some (E INVALID ''config spec''))
          | Some sp \<Rightarrow> do {
              r \<leftarrow> UpdateConfig (processAPI b) H (target_request p t) sp expected [] (rs_config rs);
              ret (exec_error b r) })"

definition Execute ::
    "BatchAPI \<Rightarrow> Host \<Rightarrow> Remotes \<Rightarrow> (string \<Rightarrow> (int \<times> ProcessSpec option) option) \<Rightarrow> (string, Principal) gomap
      \<Rightarrow> Target \<Rightarrow> BatchType \<Rightarrow> goerror option run" where
  "Execute b H rs decode idents t typ0 =
    (let p = withIdentity idents None t in
     if remoteMissingPrincipal b p t then ret (Some (E TIMEOUT ''missing hop principal''))
     else case typ0 of
         BatchStart \<Rightarrow> execProcess b H rs p t typ0
       | BatchStop \<Rightarrow> execProcess b H rs p t typ0
       | BatchRestart \<Rightarrow> execProcess b H rs p t typ0
       | BatchConfigUpdate \<Rightarrow> execConfig b H rs decode p t
       | BatchOther _ \<Rightarrow> ret (Some (E INVALID ''type'')))"

section \<open>The handlers\<close>

type_synonym 'a bhandler = "(Engine, 'a) answering"

definition requireExecute :: "BatchAPI \<Rightarrow> Principal option \<Rightarrow> goerror option" where
  "requireExecute b p = requireAnyPerm (bp_Auth b) p ''batch.execute''"

definition batch_rejectMutation :: "BatchAPI \<Rightarrow> goerror option" where
  "batch_rejectMutation b = (if bp_Degraded b then Some (E DEGRADED ''degraded'') else None)"

definition validateCreateConfig :: "BatchType \<Rightarrow> 'c option \<Rightarrow> goerror option" where
  "validateCreateConfig typ0 cfg =
    (if typ0 = BatchConfigUpdate then (if cfg = None then Some (E INVALID ''config'') else None)
     else if cfg \<noteq> None then Some (E INVALID ''config'') else None)"

text \<open>\<open>overlay\<close> is the configuration of the request, if it has one, as the overlay on an owner's specification.\<close>

definition CreateBatch ::
    "BatchAPI \<Rightarrow> BatchEnv \<Rightarrow> gtime \<Rightarrow> NodeSummary list \<Rightarrow> (string \<Rightarrow> string \<Rightarrow> goerror + OwnerSpec) \<Rightarrow> Request \<Rightarrow> BatchType
      \<Rightarrow> BatchSelector \<Rightarrow> (OwnerSpec \<Rightarrow> goerror + (string \<times> int)) option \<Rightarrow> Batch bhandler" where
  "CreateBatch b x t0 members specs rq typ0 sel overlay =
    (let p = rq_Principal rq in
     guard (requireExecute b p) (guard (batch_rejectMutation b) (guard (metaOf rq) (guard (validateCreateConfig typ0 overlay)
       (via (CreateWithExpand x p t0 (operatorOf p (rq_Operator rq)) typ0 sel
           (Some (Expand (newExpander (bp_Auth b) members specs (bx_deadline x) overlay
             (case p of None \<Rightarrow> \<lparr>pr_UserID = [], pr_Username = [], pr_SessionID = [], pr_TokenID = [], pr_CSRF = []\<rparr> | Some pr \<Rightarrow> pr)))))
         (\<lambda>ba. do { bindTargets p (ba_Targets ba); reply ba }))))))"

definition mutateBatch :: "BatchAPI \<Rightarrow> Request \<Rightarrow> (Principal option \<Rightarrow> Batch bact) \<Rightarrow> Batch bhandler" where
  "mutateBatch b rq fn =
    (let p = rq_Principal rq in
     guard (requireExecute b p) (guard (batch_rejectMutation b) (guard (metaOf rq)
       (via (fn p) (\<lambda>ba. do { bindTargets p (ba_Targets ba); reply ba })))))"

definition RetryFailed_api :: "BatchAPI \<Rightarrow> BatchEnv \<Rightarrow> Request \<Rightarrow> string \<Rightarrow> Batch bhandler" where
  "RetryFailed_api b x rq batchID = mutateBatch b rq (\<lambda>p. RetryFailed x p batchID)"

definition ReplayTimeout_api :: "BatchAPI \<Rightarrow> BatchEnv \<Rightarrow> Request \<Rightarrow> string \<Rightarrow> Batch bhandler" where
  "ReplayTimeout_api b x rq batchID = mutateBatch b rq (\<lambda>p. ReplayTimeout x p batchID)"

definition GetBatch_api :: "BatchAPI \<Rightarrow> BatchEnv \<Rightarrow> Request \<Rightarrow> string \<Rightarrow> Batch bhandler" where
  "GetBatch_api b x rq batchID = guard (requireExecute b (rq_Principal rq)) (via (GetB x batchID) reply)"

text \<open>\<^verbatim>\<open>Engine.List\<close>: fifty batches unless asked otherwise, at most two hundred.\<close>

definition List_batches :: "BatchEnv \<Rightarrow> (int \<Rightarrow> string) \<Rightarrow> int \<Rightarrow> BatchRecord list bact" where
  "List_batches x second_text limit0 =
    (let limit1 = (if limit0 \<le> 0 then 50 else limit0); limit2 = (if limit1 > 200 then 200 else limit1) in
     db_read x (\<lambda>db. Inr (ListBatches second_text limit2 db)))"

definition ListBatches_api :: "BatchAPI \<Rightarrow> BatchEnv \<Rightarrow> (int \<Rightarrow> string) \<Rightarrow> Request \<Rightarrow> int \<Rightarrow> BatchRecord list bhandler" where
  "ListBatches_api b x second_text rq limit0 =
    guard (requireExecute b (rq_Principal rq)) (via (List_batches x second_text limit0) reply)"

section \<open>The identity of an execution\<close>

text \<open>Without an identity no check of a local command fails.\<close>

lemma no_principal_no_check:
  "authorizeProcessRoute svc None router perm i True rt w = None" "authorizeProcessSpec svc None perm l g w = None"
  by (simp_all add: authorizeProcessRoute_def authorizeProcessSpec_def requireAnyPerm_def requirePermOn_def guarded_def split: option.split)

text \<open>
  The identities of the targets are kept in memory only. A target that was denied, retried by the same caller and not
  yet begun when the agent restarts is executed without an identity.
\<close>

definition denied_target :: Target where
  "denied_target = zero_target\<lparr>tg_NodeID := ''n1'', tg_ProcessID := ''p1'', tg_Status := TargetDenied, tg_Error := ''DENIED: permission denied''\<rparr>"

definition denied_history :: "BEvent list" where
  "denied_history = [BEvent.EvStart, BEvent.EvCreate (Some demo_principal) 0 ''op'' BatchStop demo_selector (Some (\<lambda>_ _. Inr [denied_target])),
     BEvent.EvRetry (Some demo_principal) ''b'', BEvent.EvCrash, BEvent.EvStart, BEvent.EvResume, BEvent.EvPick, BEvent.EvBegin ''q'' 1]"

lemma denied_target_runs_without_identity:
  defines "s \<equiv> engine_run demo_env denied_history engine_init"
  shows "be_idents s = []"
    and "\<exists>r. be_run s = Some r \<and> rn_Type r = BatchStop \<and> (\<exists>t. rn_Inflight r = [t] \<and> tg_ProcessID t = ''p1'' \<and> tg_Status t = TargetRunning
      \<and> withIdentity (be_idents s) None t = None)"
proof -
  let ?t = "denied_target\<lparr>tg_OperationID := ''p'', tg_Status := TargetDenied\<rparr>"
  let ?u = "reset_target ''q'' ?t"
  let ?ids = "fold (\<lambda>t m. if tg_OperationID t \<noteq> [] then mput (tg_OperationID t) demo_principal m else m)"
  have d: "tg_Status denied_target = TargetDenied" "denied_target \<noteq> zero_target" "tg_OperationID denied_target = []"
    by (simp_all add: denied_target_def zero_target_def)
  have nt: "\<not> terminal_batch BatchRunning" "incomplete TargetPending" "\<not> isTerminalTarget TargetPending" "isRetryableTarget TargetDenied"
    by (simp_all add: terminal_batch_def incomplete_def isTerminalTarget_def isRetryableTarget_def)
  have u: "tg_Status ?u = TargetPending" "tg_OperationID ?u = ''q''" "tg_ProcessID ?u = ''p1''"
    by (simp_all add: reset_target_def denied_target_def)
  let ?r = "demo_record\<lparr>br_Type := BatchStop, br_Summary := CountSummary [?t]\<rparr>"
  have 1: "engine_run demo_env (take 2 denied_history) engine_init = \<lparr>be_db = \<lparr>bd_batches = [(''b'', ?r)], bd_targets = [((''b'', ''p''), ?t)]\<rparr>,
      be_calls = 2, be_ids = 2, be_started = True, be_jobs = [''b''], be_idents = [(''p'', demo_principal)], be_run = None\<rparr>"
    by (simp add: denied_history_def demo_defs d d(2) [unfolded zero_target_def] demo_record_def)
  have 2: "\<exists>r c. engine_run demo_env (take 4 denied_history) engine_init = \<lparr>be_db = \<lparr>bd_batches = [(''b'', r)], bd_targets = [((''b'', ''q''), ?u)]\<rparr>,
      be_calls = c, be_ids = 3, be_started = False, be_jobs = [], be_idents = [], be_run = None\<rparr> \<and> br_Status r = BatchRunning \<and> br_Type r = BatchStop"
    using 1
    by (simp add: denied_history_def engine_run_def RetryFailed_def GetB_run demo_noerr batch_rows_def mfilter_def d nt NewID_def
      run_state_write ReplaceTargetOp_def mhas_def u bindTargets_def requeueBatch_def UpdateBatchStatus_def enqueue_def Let_def demo_env_def)
  then obtain r c where 2: "engine_run demo_env (take 4 denied_history) engine_init = \<lparr>be_db = \<lparr>bd_batches = [(''b'', r)],
      bd_targets = [((''b'', ''q''), ?u)]\<rparr>, be_calls = c, be_ids = 3, be_started = False, be_jobs = [], be_idents = [], be_run = None\<rparr>"
    and r: "br_Status r = BatchRunning" "br_Type r = BatchStop" by blast
  have s: "s = engine_run demo_env (drop 4 denied_history) (engine_run demo_env (take 4 denied_history) engine_init)"
    unfolding s_def engine_run_append [symmetric] by simp
  have "\<exists>c db. s = \<lparr>be_db = db, be_calls = c, be_ids = 3, be_started = True, be_jobs = [], be_idents = [], be_run = Some \<lparr>rn_ID = ''b'',
      rn_Type = BatchStop, rn_Todo = [], rn_Inflight = [?u\<lparr>tg_Status := TargetRunning, tg_StartedAt := 1, tg_Error := []\<rparr>], rn_Outcome = None\<rparr>\<rparr>"
    unfolding s 2
    by (simp add: denied_history_def engine_run_def Resume_def db_read_def demo_noerr ListIncompleteTargets_def nt u r enqueue_def pick_step_def
      run_start_def GetB_run batch_rows_def mfilter_def run_state_write UpdateBatchStatus_def begin_step_def demo_slots target_start_def
      UpdateTarget_def mhas_def Let_def drop_op_def)
  then obtain c db where e: "s = \<lparr>be_db = db, be_calls = c, be_ids = 3, be_started = True, be_jobs = [], be_idents = [], be_run = Some \<lparr>rn_ID = ''b'',
      rn_Type = BatchStop, rn_Todo = [], rn_Inflight = [?u\<lparr>tg_Status := TargetRunning, tg_StartedAt := 1, tg_Error := []\<rparr>], rn_Outcome = None\<rparr>\<rparr>"
    by blast
  show "be_idents s = []" by (simp add: e)
  show "\<exists>r. be_run s = Some r \<and> rn_Type r = BatchStop \<and> (\<exists>t. rn_Inflight r = [t] \<and> tg_ProcessID t = ''p1'' \<and> tg_Status t = TargetRunning
      \<and> withIdentity (be_idents s) None t = None)"
    by (simp add: e withIdentity_def u)
qed


text \<open>The owner of the process, with one of its own targets.\<close>

definition demo_batch_api :: BatchAPI where
  "demo_batch_api = \<lparr>bp_Auth = Some demo_service, bp_LocalID = ''n1'', bp_Router = None, bp_Dial = None, bp_Degraded = False,
     bp_Process = \<lparr>rp_DisableCreate = False, rp_DisableUpdate = False, rp_DisableDelete = False\<rparr>, bp_is_timeout = (\<lambda>_. False)\<rparr>"

definition stop_target :: "Manager \<Rightarrow> goerror option \<times> Manager" where
  "stop_target = run_state (Execute demo_batch_api calm_host \<lparr>rs_process = (\<lambda>_ _. Inl (GoError (Plain []))), rs_config = (\<lambda>_ _. Inl (GoError (Plain [])))\<rparr>
     (\<lambda>_. None) [(''p'', demo_principal)] (denied_target\<lparr>tg_OperationID := ''p''\<rparr>) BatchStop)"


end
