(* ===== verification/Cluster_Mesh.thy ===== *)
theory Cluster_Mesh imports Cluster_Types Machine
begin

text \<open>
  The view that a node has of its cluster (\<^verbatim>\<open>internal/cluster/mesh.go\<close> and \<^verbatim>\<open>workload_sync.go\<close>,
  \<^verbatim>\<open>internal/freshness\<close>, \<^verbatim>\<open>check.go\<close>): what it does with the calls of package memberlist, with the full states of
  push-pull and with the answers of the fetches of workloads. The calls are events with the time that the clock shows;
  every one of them runs under the mutex of the mesh. A message arrives decoded, or as \<open>None\<close> when it is not JSON; as
  the encoder leaves out an empty list of processes, that list decodes as \<^verbatim>\<open>nil\<close>. Logging, counters, and the queue and
  the goroutines that carry out the fetches are left out. Durations do not saturate.
\<close>

section \<open>State\<close>

definition WorkloadSyncV1 :: int where "WorkloadSyncV1 = 1"

record cachedWorkload =
  cw_epoch :: string
  cw_version :: u64
  cw_observationSeq :: u64
  cw_processes :: "ProcessSummary list"
  cw_verifiedUnixMs :: int

record workloadFetchFailure =
  wf_epoch :: string
  wf_version :: u64
  wf_consecutive :: "32 word"
  wf_retryAfterUnixMs :: int

text \<open>What is fixed when the mesh starts: identity, the bound address, the platform and the two windows.\<close>

record MeshConfig =
  mc_NodeID :: string
  mc_localName :: string
  mc_localBoot :: string
  mc_LocalAddr :: string
  mc_OS :: string
  mc_Arch :: string
  mc_Protocol :: int
  mc_SuspectAfter :: int
  mc_leftRetention :: int

record Mesh =
  me_view :: "(string, NodeSummary) gomap"
  me_workloads :: "(string, cachedWorkload) gomap"
  me_failures :: "(string, workloadFetchFailure) gomap"
  me_left :: "(string, gtime) gomap"
  me_protocols :: "(string, int) gomap"
  me_conflicts :: "(string, unit) gomap"
  me_leaving :: bool

definition mesh_init :: Mesh where
  "mesh_init = \<lparr>me_view = [], me_workloads = [], me_failures = [], me_left = [], me_protocols = [], me_conflicts = [], me_leaving = False\<rparr>"

text \<open>A member as memberlist reports it; its metadata are decoded.\<close>

record MemberNode =
  mn_Name :: string
  mn_Meta :: "NodeSummary option"
  mn_Addr :: string

definition UnixMilli :: "gtime \<Rightarrow> int" where
  "UnixMilli t = t div 1000000"

definition time_UnixMilli :: "int \<Rightarrow> gtime" where
  "time_UnixMilli ms = ms * 1000000"

definition view_state :: "Mesh \<Rightarrow> string \<Rightarrow> NodeState" where
  "view_state m i = (case mget (me_view m) i of None \<Rightarrow> StateOther [] | Some s \<Rightarrow> ns_State s)"

section \<open>Workloads (workload_sync.go)\<close>

text \<open>Does the summary name a workload of the protocol?\<close>

definition has_workload :: "NodeSummary \<Rightarrow> bool" where
  "has_workload s \<longleftrightarrow> \<not> (ns_WorkloadSyncVersion s < WorkloadSyncV1 \<or> ns_WorkloadEpoch s = [] \<or> ns_WorkloadVersion s = 0)"

definition matches :: "workloadFetchFailure \<Rightarrow> NodeSummary \<Rightarrow> bool" where
  "matches f s \<longleftrightarrow> wf_epoch f \<noteq> [] \<and> wf_epoch f = ns_WorkloadEpoch s \<and> wf_version f = ns_WorkloadVersion s"

definition setProcessFreshness :: "ProcessSummary list \<Rightarrow> int \<Rightarrow> ProcessSummary list" where
  "setProcessFreshness ps ms = map (\<lambda>p. p\<lparr>ps_FreshnessUnixMs := ms\<rparr>) ps"

definition cached_at :: "string \<Rightarrow> u64 \<Rightarrow> cachedWorkload option \<Rightarrow> bool" where
  "cached_at epoch version c \<longleftrightarrow> (case c of None \<Rightarrow> False | Some w \<Rightarrow> cw_epoch w = epoch \<and> cw_version w = version)"

definition cache_workload :: "gtime \<Rightarrow> string \<Rightarrow> string \<Rightarrow> u64 \<Rightarrow> u64 \<Rightarrow> ProcessSummary list \<Rightarrow> Mesh \<Rightarrow> Mesh" where
  "cache_workload t i epoch version seq ps m =
    m\<lparr>me_workloads := mput i \<lparr>cw_epoch = epoch, cw_version = version, cw_observationSeq = seq,
         cw_processes = setProcessFreshness ps (UnixMilli t), cw_verifiedUnixMs = UnixMilli t\<rparr> (me_workloads m),
      me_failures := mdel i (me_failures m)\<rparr>"

definition applyFullWorkload :: "gtime \<Rightarrow> NodeSummary \<Rightarrow> Mesh \<Rightarrow> Mesh" where
  "applyFullWorkload t s m =
    (let i = ns_NodeID s; c = mget (me_workloads m) i in
     if \<not> has_workload s then
       (if ns_Processes s \<noteq> [] then m\<lparr>me_workloads := mput i \<lparr>cw_epoch = [], cw_version = 0, cw_observationSeq = 0,
            cw_processes = ns_Processes s, cw_verifiedUnixMs = 0\<rparr> (me_workloads m)\<rparr> else m)
     else if cached_at (ns_WorkloadEpoch s) (ns_WorkloadVersion s) c
          \<and> (case c of None \<Rightarrow> False | Some w \<Rightarrow> ns_WorkloadObservationSeq s \<le> cw_observationSeq w) then m
     else cache_workload t i (ns_WorkloadEpoch s) (ns_WorkloadVersion s) (ns_WorkloadObservationSeq s) (ns_Processes s) m)"

definition applyWorkloadHint :: "gtime \<Rightarrow> NodeSummary \<Rightarrow> Mesh \<Rightarrow> Mesh" where
  "applyWorkloadHint t hint m =
    (let i = ns_NodeID hint in
     if \<not> has_workload hint then m
     else case mget (me_workloads m) i of None \<Rightarrow> m | Some w \<Rightarrow>
       if cw_epoch w \<noteq> ns_WorkloadEpoch hint \<or> cw_version w \<noteq> ns_WorkloadVersion hint then m
       else if ns_WorkloadObservationSeq hint \<le> cw_observationSeq w then m
       else m\<lparr>me_workloads := mput i (w\<lparr>cw_observationSeq := ns_WorkloadObservationSeq hint, cw_verifiedUnixMs := UnixMilli t,
              cw_processes := setProcessFreshness (cw_processes w) (UnixMilli t)\<rparr>) (me_workloads m),
            me_failures := mdel i (me_failures m)\<rparr>)"

definition workloadNeedsFetch :: "string \<Rightarrow> Mesh \<Rightarrow> bool" where
  "workloadNeedsFetch i m =
    (case mget (me_view m) i of None \<Rightarrow> False | Some peer \<Rightarrow>
       if ns_State peer \<noteq> StateAlive \<or> ns_RPCAddress peer = [] \<or> \<not> has_workload peer then False
       else \<not> cached_at (ns_WorkloadEpoch peer) (ns_WorkloadVersion peer) (mget (me_workloads m) i))"

definition workloadFetchReady :: "gtime \<Rightarrow> string \<Rightarrow> Mesh \<Rightarrow> bool" where
  "workloadFetchReady t i m =
    (workloadNeedsFetch i m \<and>
      (case (mget (me_failures m) i, mget (me_view m) i) of
         (Some f, Some peer) \<Rightarrow> \<not> matches f peer \<or> UnixMilli t \<ge> wf_retryAfterUnixMs f | _ \<Rightarrow> True))"

text \<open>The peer to ask, the version that is known and the version that is wanted.\<close>

definition workloadFetchTarget :: "gtime \<Rightarrow> string \<Rightarrow> Mesh \<Rightarrow> (NodeSummary \<times> WorkloadVersion \<times> WorkloadVersion) option" where
  "workloadFetchTarget t i m =
    (case mget (me_view m) i of None \<Rightarrow> None | Some peer \<Rightarrow>
       if \<not> workloadFetchReady t i m then None
       else Some (peer,
         (case mget (me_workloads m) i of None \<Rightarrow> \<lparr>wv_Epoch = [], wv_Version = 0\<rparr>
          | Some w \<Rightarrow> \<lparr>wv_Epoch = cw_epoch w, wv_Version = cw_version w\<rparr>),
         \<lparr>wv_Epoch = ns_WorkloadEpoch peer, wv_Version = ns_WorkloadVersion peer\<rparr>))"

text \<open>The result tells whether the snapshot was taken over.\<close>

definition applyFetchedWorkload :: "gtime \<Rightarrow> WorkloadSnapshot \<Rightarrow> Mesh \<Rightarrow> bool \<times> Mesh" where
  "applyFetchedWorkload t snap m =
    (let i = ws_NodeID snap; c = mget (me_workloads m) i in
     case mget (me_view m) i of None \<Rightarrow> (False, m) | Some peer \<Rightarrow>
       if ns_WorkloadSyncVersion peer < WorkloadSyncV1 \<or> ns_WorkloadEpoch peer \<noteq> ws_Epoch snap
          \<or> ns_WorkloadVersion peer \<noteq> ws_Version snap then (False, m)
       else if cached_at (ws_Epoch snap) (ws_Version snap) c
          \<and> (case c of None \<Rightarrow> False | Some w \<Rightarrow> ws_ObservationSeq snap \<le> cw_observationSeq w) then (False, m)
       else (True, cache_workload t i (ws_Epoch snap) (ws_Version snap) (ws_ObservationSeq snap) (ws_Processes snap) m))"

definition workloadFetchRetryBase :: int where "workloadFetchRetryBase = nanos"
definition workloadFetchRetryMax :: int where "workloadFetchRetryMax = 30 * nanos"

definition workloadFetchRetryDelay :: "32 word \<Rightarrow> int" where
  "workloadFetchRetryDelay consecutive =
    (if consecutive = 0 then 0
     else min (workloadFetchRetryBase * 2 ^ unat (min (consecutive - 1) 5)) workloadFetchRetryMax)"

definition recordWorkloadFetchFailure :: "gtime \<Rightarrow> string \<Rightarrow> WorkloadVersion \<Rightarrow> Mesh \<Rightarrow> Mesh" where
  "recordWorkloadFetchFailure t i target m =
    (case mget (me_view m) i of None \<Rightarrow> m | Some peer \<Rightarrow>
       if ns_WorkloadEpoch peer \<noteq> wv_Epoch target \<or> ns_WorkloadVersion peer \<noteq> wv_Version target \<or> \<not> workloadNeedsFetch i m then m
       else let n = (case mget (me_failures m) i of None \<Rightarrow> 1 | Some f \<Rightarrow>
                 if wf_epoch f = wv_Epoch target \<and> wf_version f = wv_Version target then wf_consecutive f + 1 else 1)
         in m\<lparr>me_failures := mput i \<lparr>wf_epoch = wv_Epoch target, wf_version = wv_Version target, wf_consecutive = n,
                wf_retryAfterUnixMs = UnixMilli (t + workloadFetchRetryDelay n)\<rparr> (me_failures m)\<rparr>)"

section \<open>The view (mesh.go)\<close>

definition mergePreserved :: "NodeSummary \<Rightarrow> NodeSummary option \<Rightarrow> NodeSummary" where
  "mergePreserved s prev =
    (case prev of None \<Rightarrow> s | Some p \<Rightarrow>
       if ns_NodeID p = [] then s
       else s\<lparr>ns_Resources := (if ns_Resources s = ns_Resources zero_summary then ns_Resources p else ns_Resources s),
              ns_LastUpdatedUnixMs := (if ns_LastUpdatedUnixMs s = 0 then ns_LastUpdatedUnixMs p else ns_LastUpdatedUnixMs s)\<rparr>)"

definition preserveNewerWorkloadHint :: "NodeSummary \<Rightarrow> NodeSummary option \<Rightarrow> NodeSummary" where
  "preserveNewerWorkloadHint s prev =
    (case prev of None \<Rightarrow> s | Some p \<Rightarrow>
       if ns_WorkloadSyncVersion s < WorkloadSyncV1 \<or> ns_WorkloadSyncVersion p < WorkloadSyncV1
          \<or> ns_WorkloadEpoch s = [] \<or> ns_WorkloadEpoch s \<noteq> ns_WorkloadEpoch p then s
       else if ns_WorkloadVersion s > ns_WorkloadVersion p
          \<or> ns_WorkloadVersion s = ns_WorkloadVersion p \<and> ns_WorkloadObservationSeq s \<ge> ns_WorkloadObservationSeq p then s
       else s\<lparr>ns_WorkloadSyncVersion := ns_WorkloadSyncVersion p, ns_WorkloadEpoch := ns_WorkloadEpoch p,
              ns_WorkloadVersion := ns_WorkloadVersion p, ns_WorkloadObservationSeq := ns_WorkloadObservationSeq p\<rparr>)"

definition keepTerminal :: "NodeState \<Rightarrow> NodeState \<Rightarrow> bool" where
  "keepTerminal prev incoming =
    (if prev = StateLeft then incoming \<noteq> StateLeft
     else if prev = StateFailed then incoming \<noteq> StateLeft \<and> incoming \<noteq> StateFailed
     else False)"

definition setView :: "gtime \<Rightarrow> NodeState \<Rightarrow> NodeSummary \<Rightarrow> Mesh \<Rightarrow> Mesh" where
  "setView t previousState s m =
    (let i = ns_NodeID s;
         m1 = m\<lparr>me_view := mput i s (me_view m),
                me_protocols := (if ns_ProtocolVersion s > 0 then mput i (ns_ProtocolVersion s) (me_protocols m) else me_protocols m)\<rparr>
     in if ns_State s \<noteq> StateLeft then m1\<lparr>me_left := mdel i (me_left m1)\<rparr>
        else if previousState \<noteq> StateLeft \<or> \<not> mhas (me_left m1) i then m1\<lparr>me_left := mput i t (me_left m1)\<rparr>
        else m1)"

text \<open>A summary that bears the local identifier is dropped; another boot is remembered as a conflict.\<close>

definition rejectLocalClone :: "MeshConfig \<Rightarrow> NodeSummary \<Rightarrow> Mesh \<Rightarrow> bool \<times> Mesh" where
  "rejectLocalClone g s m =
    (if ns_NodeID s \<noteq> mc_NodeID g then (False, m)
     else (True, if ns_BootID s \<noteq> mc_localBoot g then m\<lparr>me_conflicts := mput (ns_NodeID s) () (me_conflicts m)\<rparr> else m))"

definition store_summary :: "MeshConfig \<Rightarrow> gtime \<Rightarrow> NodeSummary \<Rightarrow> Mesh \<Rightarrow> Mesh" where
  "store_summary g t s m =
    (case rejectLocalClone g s m of (True, m1) \<Rightarrow> m1
     | (False, m1) \<Rightarrow>
        let prev = mget (me_view m1) (ns_NodeID s) in
        if (case prev of None \<Rightarrow> False | Some p \<Rightarrow> ns_NodeID p \<noteq> [] \<and> keepTerminal (ns_State p) (ns_State s)) then m1
        else let s1 = preserveNewerWorkloadHint s prev
          in setView t (view_state m1 (ns_NodeID s)) (s1\<lparr>ns_Processes := []\<rparr>) (applyFullWorkload t s1 m1))"

text \<open>The state of a summary after the merge with the previous one; the empty state is no state.\<close>

definition merged_meta :: "bool \<Rightarrow> NodeSummary \<Rightarrow> NodeSummary option \<Rightarrow> NodeSummary" where
  "merged_meta revive s prev =
    (let s1 = (case prev of None \<Rightarrow> s | Some p \<Rightarrow>
           if ns_NodeID p = [] then s
           else let u = preserveNewerWorkloadHint (mergePreserved s prev) prev;
                    v = (if \<not> revive \<and> keepTerminal (ns_State p) (ns_State u) then u\<lparr>ns_State := ns_State p\<rparr> else u)
                in if ns_State v = StateOther [] then v\<lparr>ns_State := ns_State p\<rparr> else v)
     in if ns_State s1 = StateOther [] then s1\<lparr>ns_State := StateAlive\<rparr> else s1)"

definition upsertMeta :: "MeshConfig \<Rightarrow> gtime \<Rightarrow> NodeSummary \<Rightarrow> bool \<Rightarrow> Mesh \<Rightarrow> Mesh" where
  "upsertMeta g t s revive m =
    (if ns_NodeID s = [] then m
     else case rejectLocalClone g s m of (True, m1) \<Rightarrow> m1
     | (False, m1) \<Rightarrow>
        let s1 = merged_meta revive s (mget (me_view m1) (ns_NodeID s))
        in setView t (view_state m1 (ns_NodeID s)) (s1\<lparr>ns_Processes := []\<rparr>) (applyWorkloadHint t s1 m1))"

definition splitMemberName :: "string \<Rightarrow> string \<times> string" where
  "splitMemberName name = (takeWhile (\<lambda>c. c \<noteq> CHR ''#'') name, drop 1 (dropWhile (\<lambda>c. c \<noteq> CHR ''#'') name))"

definition summaryFromNode :: "MemberNode \<Rightarrow> NodeSummary" where
  "summaryFromNode n =
    (let s = (case mn_Meta n of None \<Rightarrow> zero_summary | Some d \<Rightarrow> d\<lparr>ns_Processes := []\<rparr>);
         (i, boot) = splitMemberName (mn_Name n);
         s1 = (if mn_Meta n = None \<or> ns_NodeID s = []
               then s\<lparr>ns_NodeID := i, ns_BootID := (if ns_BootID s = [] then boot else ns_BootID s)\<rparr> else s)
     in s1\<lparr>ns_GossipAddress := (if ns_GossipAddress s1 = [] then mn_Addr n else ns_GossipAddress s1)\<rparr>)"

definition NotifyJoin :: "MeshConfig \<Rightarrow> gtime \<Rightarrow> MemberNode \<Rightarrow> Mesh \<Rightarrow> Mesh" where
  "NotifyJoin g t n m =
    (if mn_Name n = mc_localName g then m
     else let s = summaryFromNode n in
       upsertMeta g t (if ns_State s = StateOther [] then s\<lparr>ns_State := StateAlive\<rparr> else s) True m)"

definition NotifyUpdate :: "MeshConfig \<Rightarrow> gtime \<Rightarrow> MemberNode \<Rightarrow> Mesh \<Rightarrow> Mesh" where
  "NotifyUpdate g t n m = (if mn_Name n = mc_localName g then m else upsertMeta g t (summaryFromNode n) False m)"

definition NotifyLeave :: "MeshConfig \<Rightarrow> gtime \<Rightarrow> MemberNode \<Rightarrow> Mesh \<Rightarrow> Mesh" where
  "NotifyLeave g t n m =
    (if mn_Name n = mc_localName g then m
     else let s = summaryFromNode n in
       case rejectLocalClone g s m of (True, m1) \<Rightarrow> m1
       | (False, m1) \<Rightarrow>
          let prev = view_state m1 (ns_NodeID s);
              s1 = mergePreserved s (mget (me_view m1) (ns_NodeID s));
              st = (if ns_State s1 = StateLeft \<or> prev = StateLeft then StateLeft else StateFailed)
          in setView t prev (s1\<lparr>ns_State := st\<rparr>) m1)"

definition MergeRemoteState :: "MeshConfig \<Rightarrow> gtime \<Rightarrow> NodeSummary option \<Rightarrow> Mesh \<Rightarrow> Mesh" where
  "MergeRemoteState g t s m =
    (case s of None \<Rightarrow> m | Some d \<Rightarrow> if ns_NodeID d = [] then m else store_summary g t d m)"

definition settled_state :: "NodeState \<Rightarrow> bool" where
  "settled_state st \<longleftrightarrow> st \<in> {StateLeft, StateRemoved, StateRevoked, StateFailed}"

definition markSuspect :: "gtime \<Rightarrow> string \<Rightarrow> Mesh \<Rightarrow> Mesh" where
  "markSuspect t i m =
    (case mget (me_view m) i of None \<Rightarrow> m | Some p \<Rightarrow>
       if settled_state (ns_State p) \<or> ns_State p = StateSuspect then m
       else setView t (ns_State p) (p\<lparr>ns_State := StateSuspect\<rparr>) m)"

text \<open>\<open>suspect\<close>: does memberlist suspect the node?\<close>

definition ApplyMemberlistState :: "gtime \<Rightarrow> string \<Rightarrow> bool \<Rightarrow> Mesh \<Rightarrow> Mesh" where
  "ApplyMemberlistState t i suspect m = (if i = [] \<or> \<not> suspect then m else markSuspect t i m)"

definition suspect_stale :: "MeshConfig \<Rightarrow> gtime \<Rightarrow> string \<Rightarrow> Mesh \<Rightarrow> Mesh" where
  "suspect_stale g t i m =
    (case mget (me_view m) i of None \<Rightarrow> m | Some s \<Rightarrow>
       if settled_state (ns_State s) \<or> ns_LastUpdatedUnixMs s = 0
          \<or> t - time_UnixMilli (ns_LastUpdatedUnixMs s) < mc_SuspectAfter g then m
       else markSuspect t i m)"

text \<open>\<open>present\<close> are the names of the members that memberlist lists.\<close>

definition presentMemberIDs :: "string list \<Rightarrow> string list" where
  "presentMemberIDs present = remdups (filter (\<lambda>i. i \<noteq> []) (map (fst \<circ> splitMemberName) present))"

definition applyMemberlistStates :: "MeshConfig \<Rightarrow> gtime \<Rightarrow> string list \<Rightarrow> Mesh \<Rightarrow> Mesh" where
  "applyMemberlistStates g t present m = fold (suspect_stale g t) (presentMemberIDs present) m"

definition expireLeftTombstones :: "MeshConfig \<Rightarrow> gtime \<Rightarrow> Mesh \<Rightarrow> Mesh" where
  "expireLeftTombstones g t m =
    (let gone = map fst (filter (\<lambda>(i, observed). \<not> t - observed < mc_leftRetention g) (me_left m));
         dead = filter (\<lambda>i. view_state m i = StateLeft) gone
     in m\<lparr>me_left := mfilter (\<lambda>i _. i \<notin> set gone) (me_left m),
          me_view := mfilter (\<lambda>i _. i \<notin> set dead) (me_view m),
          me_workloads := mfilter (\<lambda>i _. i \<notin> set dead) (me_workloads m),
          me_failures := mfilter (\<lambda>i _. i \<notin> set dead) (me_failures m)\<rparr>)"

section \<open>What others see (Members)\<close>

definition ProcessMaxAge :: int where "ProcessMaxAge = 40 * nanos"
definition MaxAge :: int where "MaxAge = 10 * nanos"

definition classifyWithAge :: "gtime \<Rightarrow> int \<Rightarrow> NodeState \<Rightarrow> int \<Rightarrow> string" where
  "classifyWithAge t ms st maxAge =
    (if ms \<le> 0 then ''UNKNOWN''
     else if st = StateRemoved \<or> st = StateRevoked then ''UNKNOWN''
     else if st = StateAlive \<and> t - time_UnixMilli ms \<le> maxAge then ''LIVE''
     else ''STALE'')"

definition Classify :: "gtime \<Rightarrow> int \<Rightarrow> NodeState \<Rightarrow> string" where
  "Classify t ms st = classifyWithAge t ms st MaxAge"

definition ClassifyProcess :: "gtime \<Rightarrow> int \<Rightarrow> NodeState \<Rightarrow> string" where
  "ClassifyProcess t ms st = classifyWithAge t ms st ProcessMaxAge"

definition workloadNonLiveReason :: "NodeState \<Rightarrow> int \<Rightarrow> string" where
  "workloadNonLiveReason st ms =
    (if st \<noteq> StateAlive then ''OWNER_NOT_ALIVE'' else if ms \<le> 0 then ''NO_SNAPSHOT'' else ''EXPIRED'')"

definition freshness_at :: "gtime \<Rightarrow> int \<Rightarrow> string \<Rightarrow> NodeSummary \<Rightarrow> NodeSummary" where
  "freshness_at t ms current s =
    (let f = ClassifyProcess t ms (ns_State s)
     in s\<lparr>ns_WorkloadFreshness := f,
          ns_WorkloadFreshnessReason := (if f = ''LIVE'' then current else workloadNonLiveReason (ns_State s) ms)\<rparr>)"

definition applyLegacyWorkloadFreshness :: "gtime \<Rightarrow> NodeSummary \<Rightarrow> NodeSummary" where
  "applyLegacyWorkloadFreshness t s =
    (let ms = fold (\<lambda>p acc. if ps_FreshnessUnixMs p > acc then ps_FreshnessUnixMs p else acc) (ns_Processes s) 0;
         f = ClassifyProcess t ms (ns_State s)
     in s\<lparr>ns_WorkloadLastVerifiedUnixMs := ms, ns_WorkloadFreshness := f,
          ns_WorkloadFreshnessReason := (if f = ''LIVE'' then ''LEGACY'' else if f = ''UNKNOWN'' then ''NO_SNAPSHOT''
            else workloadNonLiveReason (ns_State s) ms)\<rparr>)"

definition applyLocalWorkloadFreshness :: "gtime \<Rightarrow> NodeSummary \<Rightarrow> NodeSummary" where
  "applyLocalWorkloadFreshness t s =
    (if has_workload s then freshness_at t (ns_WorkloadLastVerifiedUnixMs s) ''CURRENT'' s else applyLegacyWorkloadFreshness t s)"

definition applyRemoteWorkload :: "gtime \<Rightarrow> cachedWorkload option \<Rightarrow> workloadFetchFailure option \<Rightarrow> NodeSummary \<Rightarrow> NodeSummary" where
  "applyRemoteWorkload t c f s =
    (let failed = (case f of None \<Rightarrow> False | Some x \<Rightarrow> matches x s);
         stale = (\<lambda>why s. s\<lparr>ns_WorkloadFreshness := ''STALE'', ns_WorkloadFreshnessReason := why\<rparr>)
     in case c of
       None \<Rightarrow> s\<lparr>ns_Processes := [], ns_WorkloadFreshness := ''UNKNOWN'',
          ns_WorkloadFreshnessReason := (if failed then ''FETCH_FAILED'' else ''NO_SNAPSHOT'')\<rparr>
     | Some w \<Rightarrow>
        let s1 = s\<lparr>ns_Processes := cw_processes w, ns_WorkloadLastVerifiedUnixMs := cw_verifiedUnixMs w\<rparr> in
        if cw_epoch w = [] \<or> cw_version w = 0 then applyLegacyWorkloadFreshness t s1
        else if ns_State s \<noteq> StateAlive then stale ''OWNER_NOT_ALIVE'' s1
        else if failed then stale ''FETCH_FAILED'' s1
        else if cw_epoch w \<noteq> ns_WorkloadEpoch s \<or> cw_version w \<noteq> ns_WorkloadVersion s then stale ''SYNC_PENDING'' s1
        else freshness_at t (cw_verifiedUnixMs w) ''CURRENT'' s1)"

definition agentVersion :: string where "agentVersion = ''0.1.0''"

text \<open>\<open>snap\<close> is the snapshot of the local source; the protocol of the agent is 2.\<close>

definition localSummary :: "MeshConfig \<Rightarrow> bool \<Rightarrow> NodeSummary \<Rightarrow> NodeSummary" where
  "localSummary g leaving snap =
    snap\<lparr>ns_NodeID := (if ns_NodeID snap = [] then mc_NodeID g else ns_NodeID snap),
      ns_GossipAddress := (if ns_GossipAddress snap = [] then mc_LocalAddr g else ns_GossipAddress snap),
      ns_AgentVersion := (if ns_AgentVersion snap = [] then agentVersion else ns_AgentVersion snap),
      ns_OS := (if ns_OS snap = [] then mc_OS g else ns_OS snap),
      ns_Arch := (if ns_Arch snap = [] then mc_Arch g else ns_Arch snap),
      ns_ProtocolVersion := (if ns_ProtocolVersion snap \<noteq> 0 then ns_ProtocolVersion snap
        else if mc_Protocol g \<noteq> 0 then mc_Protocol g else 2),
      ns_State := (if leaving then StateLeft else ns_State snap)\<rparr>"

definition refresh_view :: "MeshConfig \<Rightarrow> gtime \<Rightarrow> string list \<Rightarrow> Mesh \<Rightarrow> Mesh" where
  "refresh_view g t present m = expireLeftTombstones g t (applyMemberlistStates g t present m)"

definition Members :: "MeshConfig \<Rightarrow> gtime \<Rightarrow> string list \<Rightarrow> NodeSummary \<Rightarrow> Mesh \<Rightarrow> NodeSummary list \<times> Mesh" where
  "Members g t present snap m =
    (let m1 = refresh_view g t present m;
         local = applyLocalWorkloadFreshness t (localSummary g (me_leaving m) snap);
         remote = map (\<lambda>(i, s). applyRemoteWorkload t (mget (me_workloads m1) i) (mget (me_failures m1) i) s)
           (filter (\<lambda>(i, _). i \<noteq> ns_NodeID local) (me_view m1))
     in (sort_key ns_NodeID (remote @ [local]), m1))"

definition DuplicateConflicts :: "Mesh \<Rightarrow> string list" where
  "DuplicateConflicts m = sort (map fst (me_conflicts m))"

definition KnownProtocolVersion :: "Mesh \<Rightarrow> string \<Rightarrow> int option" where
  "KnownProtocolVersion m i = mget (me_protocols m) i"

section \<open>Joining (check.go)\<close>

record JoinIdentity =
  ji_NodeID :: string
  ji_BootID :: string
  ji_ProtocolVersion :: int

fun check_existing :: "NodeSummary list \<Rightarrow> JoinIdentity \<Rightarrow> goerror option" where
  "check_existing [] r = None"
| "check_existing (n # ns) r =
    (if ns_NodeID n \<noteq> ji_NodeID r \<or> ns_State n = StateLeft then check_existing ns r
     else if ns_State n = StateRemoved \<or> ns_State n = StateRevoked then Some (E DENIED ''node removed'')
     else if ns_BootID n = ji_BootID r then check_existing ns r
     else Some (E DUPLICATE_NODE_ID ''duplicate node_id''))"

definition CheckJoin :: "NodeSummary list \<Rightarrow> JoinIdentity \<Rightarrow> goerror option" where
  "CheckJoin existing r =
    (if ji_NodeID r = [] then Some (E INVALID ''node_id required'')
     else if ji_ProtocolVersion r \<noteq> 2 then Some (E INCOMPATIBLE_VERSION ''incompatible protocol version'')
     else check_existing existing r)"

section \<open>Events\<close>

datatype MeshEvent =
    MvJoin MemberNode | MvUpdate MemberNode | MvLeave MemberNode | MvMerge "NodeSummary option" | MvSuspect string
  | MvMembers "string list" | MvFetched WorkloadSnapshot | MvFetchFailed string WorkloadVersion | MvLeaving

fun mesh_step :: "MeshConfig \<Rightarrow> gtime \<times> MeshEvent \<Rightarrow> Mesh \<Rightarrow> Mesh" where
  "mesh_step g (t, MvJoin n) m = NotifyJoin g t n m"
| "mesh_step g (t, MvUpdate n) m = NotifyUpdate g t n m"
| "mesh_step g (t, MvLeave n) m = NotifyLeave g t n m"
| "mesh_step g (t, MvMerge s) m = MergeRemoteState g t s m"
| "mesh_step g (t, MvSuspect i) m = ApplyMemberlistState t i True m"
| "mesh_step g (t, MvMembers present) m = refresh_view g t present m"
| "mesh_step g (t, MvFetched snap) m = snd (applyFetchedWorkload t snap m)"
| "mesh_step g (t, MvFetchFailed i target) m = recordWorkloadFetchFailure t i target m"
| "mesh_step g (t, MvLeaving) m = m\<lparr>me_leaving := True\<rparr>"

definition mesh_run :: "MeshConfig \<Rightarrow> (gtime \<times> MeshEvent) list \<Rightarrow> Mesh \<Rightarrow> Mesh" where
  "mesh_run g evs m = fold (mesh_step g) evs m"

section \<open>Invariant\<close>

text \<open>
  Every key of the view is the identifier of its summary and not the local one, the lists of processes live in the cache,
  and the nodes with a time of departure are the nodes that have left. Caches and failures belong to nodes of the view.
\<close>

definition mesh_core :: "MeshConfig \<Rightarrow> Mesh \<Rightarrow> bool" where
  "mesh_core g m \<longleftrightarrow> wfmap (me_view m) \<and> wfmap (me_workloads m) \<and> wfmap (me_failures m) \<and> wfmap (me_left m)
     \<and> mall (\<lambda>i s. ns_NodeID s = i \<and> i \<noteq> mc_NodeID g \<and> ns_Processes s = []) (me_view m)
     \<and> (\<forall>i. mhas (me_left m) i \<longleftrightarrow> view_state m i = StateLeft)"

definition in_view :: "string set \<Rightarrow> Mesh \<Rightarrow> bool" where
  "in_view X m \<longleftrightarrow> (\<forall>j. mhas (me_workloads m) j \<or> mhas (me_failures m) j \<longrightarrow> mhas (me_view m) j \<or> j \<in> X)"

definition mesh_ok :: "MeshConfig \<Rightarrow> Mesh \<Rightarrow> bool" where
  "mesh_ok g m \<longleftrightarrow> mesh_core g m \<and> in_view {} m"

named_theorems mesh_keeps

lemma mesh_okD: "mesh_ok g m \<Longrightarrow> mesh_core g m" "mesh_ok g m \<Longrightarrow> in_view X m"
  by (auto simp: mesh_ok_def in_view_def)

lemma mesh_ok_init: "mesh_ok g mesh_init"
  by (simp add: mesh_ok_def mesh_core_def in_view_def mesh_init_def view_state_def mhas_def)

lemma view_state_setView: "view_state (setView t p s m) i = (if i = ns_NodeID s then ns_State s else view_state m i)"
  by (simp add: setView_def view_state_def Let_def)

lemma mhas_left_setView:
  "mhas (me_left (setView t p s m)) i \<longleftrightarrow> (if i = ns_NodeID s then ns_State s = StateLeft else mhas (me_left m) i)"
  by (auto simp: setView_def Let_def)

lemma setView_fields [simp]:
  "me_view (setView t p s m) = mput (ns_NodeID s) s (me_view m)"
  "me_workloads (setView t p s m) = me_workloads m" "me_failures (setView t p s m) = me_failures m"
  "me_conflicts (setView t p s m) = me_conflicts m" "me_leaving (setView t p s m) = me_leaving m"
  by (simp_all add: setView_def Let_def)

lemma setView_ok [mesh_keeps]:
  assumes "mesh_core g m" and "in_view {ns_NodeID s} m" and "ns_NodeID s \<noteq> mc_NodeID g" and "ns_Processes s = []"
  shows "mesh_ok g (setView t p s m)"
proof -
  have "wfmap (me_left (setView t p s m))"
    using assms(1) by (simp add: mesh_core_def setView_def Let_def)
  moreover have "mall (\<lambda>i s. ns_NodeID s = i \<and> i \<noteq> mc_NodeID g \<and> ns_Processes s = []) (me_view (setView t p s m))"
    using assms by (simp add: mesh_core_def mall_mput)
  ultimately have "mesh_core g (setView t p s m)"
    using assms(1) unfolding mesh_core_def by (simp add: view_state_setView mhas_left_setView)
  moreover have "in_view {} (setView t p s m)"
    using assms(2) by (auto simp: in_view_def)
  ultimately show ?thesis by (simp add: mesh_ok_def)
qed

text \<open>The operations on the caches touch the caches only.\<close>

definition caches_only :: "string \<Rightarrow> Mesh \<Rightarrow> Mesh \<Rightarrow> bool" where
  "caches_only i m m' \<longleftrightarrow> me_view m' = me_view m \<and> me_left m' = me_left m \<and> me_protocols m' = me_protocols m
     \<and> me_conflicts m' = me_conflicts m \<and> me_leaving m' = me_leaving m
     \<and> (wfmap (me_workloads m) \<longrightarrow> wfmap (me_workloads m')) \<and> (wfmap (me_failures m) \<longrightarrow> wfmap (me_failures m'))
     \<and> (\<forall>j. mhas (me_workloads m') j \<or> mhas (me_failures m') j \<longrightarrow> mhas (me_workloads m) j \<or> mhas (me_failures m) j \<or> j = i)"

lemma caches_refl [simp]: "caches_only i m m"
  by (simp add: caches_only_def)

lemma caches_cache_workload: "caches_only i m (cache_workload t i epoch version seq ps m)"
  by (auto simp: caches_only_def cache_workload_def)

lemma caches_applyFull: "caches_only (ns_NodeID s) m (applyFullWorkload t s m)"
  by (auto simp: applyFullWorkload_def Let_def caches_cache_workload) (auto simp: caches_only_def)

lemma caches_applyHint: "caches_only (ns_NodeID s) m (applyWorkloadHint t s m)"
  by (auto simp: applyWorkloadHint_def Let_def caches_only_def split: option.split)

lemma caches_fetched: "caches_only (ws_NodeID s) m (snd (applyFetchedWorkload t s m))"
  by (auto simp: applyFetchedWorkload_def Let_def caches_cache_workload split: option.split)

lemma caches_failure: "caches_only i m (recordWorkloadFetchFailure t i target m)"
  by (auto simp: recordWorkloadFetchFailure_def Let_def caches_only_def split: option.split)

lemma caches_view: "caches_only i m m' \<Longrightarrow> view_state m' j = view_state m j"
  by (simp add: caches_only_def view_state_def)

lemma caches_core: "caches_only i m m' \<Longrightarrow> mesh_core g m \<Longrightarrow> mesh_core g m'"
  unfolding mesh_core_def using caches_view [of i m m'] by (simp add: caches_only_def)

lemma caches_covered: "caches_only i m m' \<Longrightarrow> in_view {} m \<Longrightarrow> in_view {i} m'"
  unfolding in_view_def caches_only_def by (metis insertCI empty_iff)

lemma caches_ok:
  assumes "caches_only i m m'" and "mesh_ok g m" and "mhas (me_view m) i \<or> m' = m"
  shows "mesh_ok g m'"
proof -
  have "me_view m' = me_view m" using assms(1) by (simp add: caches_only_def)
  then have "in_view {} m'"
    using assms caches_covered [OF assms(1)] by (auto simp: mesh_ok_def in_view_def)
  with caches_core [OF assms(1) mesh_okD(1) [OF assms(2)]] show ?thesis by (simp add: mesh_ok_def)
qed

lemma rejectLocalClone_cases:
  obtains m1 where "rejectLocalClone g s m = (True, m1)" "ns_NodeID s = mc_NodeID g" "m1 = m \<or> (\<exists>c. m1 = m\<lparr>me_conflicts := c\<rparr>)"
  | "rejectLocalClone g s m = (False, m)" "ns_NodeID s \<noteq> mc_NodeID g"
proof (cases "ns_NodeID s = mc_NodeID g")
  case True
  show ?thesis
    by (rule that(1) [of "if ns_BootID s \<noteq> mc_localBoot g then m\<lparr>me_conflicts := mput (ns_NodeID s) () (me_conflicts m)\<rparr> else m"])
      (auto simp: rejectLocalClone_def True)
next
  case False
  then show ?thesis by (intro that(2)) (simp_all add: rejectLocalClone_def)
qed

lemma conflicts_ok [simp]: "mesh_ok g (m\<lparr>me_conflicts := c\<rparr>) = mesh_ok g m"
  by (simp add: mesh_ok_def mesh_core_def in_view_def view_state_def)

lemma leaving_ok [simp]: "mesh_ok g (m\<lparr>me_leaving := b\<rparr>) = mesh_ok g m"
  by (simp add: mesh_ok_def mesh_core_def in_view_def view_state_def)

text \<open>The two ways into the view, both past the check of the local identifier.\<close>

lemma store_ok: "mesh_ok g m \<Longrightarrow> mesh_ok g (store_summary g t s m)"
proof -
  assume ok: "mesh_ok g m"
  consider m1 where "rejectLocalClone g s m = (True, m1)" "m1 = m \<or> (\<exists>c. m1 = m\<lparr>me_conflicts := c\<rparr>)"
    | "rejectLocalClone g s m = (False, m)" "ns_NodeID s \<noteq> mc_NodeID g"
    by (metis rejectLocalClone_cases)
  then show ?thesis
  proof cases
    case 1
    with ok show ?thesis by (auto simp: store_summary_def)
  next
    case 2
    define s1 where "s1 = preserveNewerWorkloadHint s (mget (me_view m) (ns_NodeID s))"
    have i: "ns_NodeID s1 = ns_NodeID s" by (simp add: s1_def preserveNewerWorkloadHint_def split: option.split)
    from caches_applyFull [of s1 m t] have c: "caches_only (ns_NodeID s) m (applyFullWorkload t s1 m)" by (simp add: i)
    have "mesh_ok g (setView t p (s1\<lparr>ns_Processes := []\<rparr>) (applyFullWorkload t s1 m))" for p
      by (rule setView_ok) (use 2 i caches_core [OF c mesh_okD(1) [OF ok]] caches_covered [OF c mesh_okD(2) [OF ok]] in simp_all)
    with 2 ok show ?thesis by (simp add: store_summary_def Let_def s1_def)
  qed
qed

lemma merged_meta_id [simp]: "ns_NodeID (merged_meta revive s prev) = ns_NodeID s"
  by (simp add: merged_meta_def mergePreserved_def preserveNewerWorkloadHint_def Let_def split: option.split)

lemma upsertMeta_ok: "mesh_ok g m \<Longrightarrow> mesh_ok g (upsertMeta g t s revive m)"
proof -
  assume ok: "mesh_ok g m"
  consider m1 where "rejectLocalClone g s m = (True, m1)" "m1 = m \<or> (\<exists>c. m1 = m\<lparr>me_conflicts := c\<rparr>)"
    | "rejectLocalClone g s m = (False, m)" "ns_NodeID s \<noteq> mc_NodeID g"
    by (metis rejectLocalClone_cases)
  then show ?thesis
  proof cases
    case 1
    with ok show ?thesis by (auto simp: upsertMeta_def)
  next
    case 2
    define s1 where "s1 = merged_meta revive s (mget (me_view m) (ns_NodeID s))"
    have i: "ns_NodeID s1 = ns_NodeID s" by (simp add: s1_def)
    from caches_applyHint [of s1 m t] have c: "caches_only (ns_NodeID s) m (applyWorkloadHint t s1 m)" by (simp add: i)
    have "mesh_ok g (setView t p (s1\<lparr>ns_Processes := []\<rparr>) (applyWorkloadHint t s1 m))" for p
      by (rule setView_ok) (use 2 i caches_core [OF c mesh_okD(1) [OF ok]] caches_covered [OF c mesh_okD(2) [OF ok]] in simp_all)
    with 2 ok show ?thesis by (simp add: upsertMeta_def Let_def s1_def)
  qed
qed

lemma summaryFromNode_processes [simp]: "ns_Processes (summaryFromNode n) = []"
  by (simp add: summaryFromNode_def Let_def zero_summary_def split: option.split prod.split)

lemma mergePreserved_simps [simp]:
  "ns_NodeID (mergePreserved s prev) = ns_NodeID s" "ns_Processes (mergePreserved s prev) = ns_Processes s"
  "ns_State (mergePreserved s prev) = ns_State s"
  by (simp_all add: mergePreserved_def split: option.split)

lemma NotifyLeave_ok: "mesh_ok g m \<Longrightarrow> mesh_ok g (NotifyLeave g t n m)"
proof -
  assume ok: "mesh_ok g m"
  let ?s = "summaryFromNode n"
  consider m1 where "rejectLocalClone g ?s m = (True, m1)" "m1 = m \<or> (\<exists>c. m1 = m\<lparr>me_conflicts := c\<rparr>)"
    | "rejectLocalClone g ?s m = (False, m)" "ns_NodeID ?s \<noteq> mc_NodeID g"
    by (metis rejectLocalClone_cases)
  then show ?thesis
  proof cases
    case 1
    with ok show ?thesis by (auto simp: NotifyLeave_def Let_def)
  next
    case 2
    have "mesh_ok g (setView t p (mergePreserved ?s q\<lparr>ns_State := st\<rparr>) m)" for p q st
      by (rule setView_ok) (use 2 mesh_okD [OF ok] in simp_all)
    with 2 ok show ?thesis by (simp add: NotifyLeave_def Let_def)
  qed
qed

lemma markSuspect_ok: "mesh_ok g m \<Longrightarrow> mesh_ok g (markSuspect t i m)"
proof -
  assume ok: "mesh_ok g m"
  have "mesh_ok g (setView t p (s\<lparr>ns_State := StateSuspect\<rparr>) m)" if "mget (me_view m) i = Some s" for p s
  proof (rule setView_ok)
    from mesh_okD(1) [OF ok] that have "ns_NodeID s = i \<and> i \<noteq> mc_NodeID g \<and> ns_Processes s = []"
      unfolding mesh_core_def by (blast dest: mallD)
    then show "ns_NodeID (s\<lparr>ns_State := StateSuspect\<rparr>) \<noteq> mc_NodeID g" "ns_Processes (s\<lparr>ns_State := StateSuspect\<rparr>) = []" by auto
  qed (use mesh_okD [OF ok] in simp_all)
  with ok show ?thesis by (auto simp: markSuspect_def split: option.split)
qed

lemma suspect_stale_ok: "mesh_ok g m \<Longrightarrow> mesh_ok g (suspect_stale g t i m)"
  by (auto simp: suspect_stale_def markSuspect_ok split: option.split)

lemma applyMemberlistStates_ok: "mesh_ok g m \<Longrightarrow> mesh_ok g (applyMemberlistStates g t present m)"
  unfolding applyMemberlistStates_def by (rule fold_invariant [where Q = "\<lambda>_. True"]) (simp_all add: suspect_stale_ok)

text \<open>The tombstones that are too old go, with their nodes and caches.\<close>

definition expired_left :: "MeshConfig \<Rightarrow> gtime \<Rightarrow> Mesh \<Rightarrow> string \<Rightarrow> bool" where
  "expired_left g t m i \<longleftrightarrow> (case mget (me_left m) i of None \<Rightarrow> False | Some b \<Rightarrow> \<not> t - b < mc_leftRetention g)"

lemma expired_set: "wfmap (me_left m) \<Longrightarrow>
    i \<in> set (map fst (filter (\<lambda>(i, b). \<not> t - b < mc_leftRetention g) (me_left m))) \<longleftrightarrow> expired_left g t m i"
proof -
  assume wf: "wfmap (me_left m)"
  have "i \<in> set (map fst (filter (\<lambda>(i, b). \<not> t - b < mc_leftRetention g) (me_left m)))
      \<longleftrightarrow> (\<exists>b. mget (me_left m) i = Some b \<and> \<not> t - b < mc_leftRetention g)"
    unfolding mget_in_set [OF wf] by (auto simp: image_iff)
  then show ?thesis by (auto simp: expired_left_def split: option.split)
qed

lemma expire_state:
  assumes "mesh_ok g m"
  shows "expireLeftTombstones g t m = m\<lparr>me_left := mfilter (\<lambda>i _. \<not> expired_left g t m i) (me_left m),
    me_view := mfilter (\<lambda>i _. \<not> expired_left g t m i) (me_view m),
    me_workloads := mfilter (\<lambda>i _. \<not> expired_left g t m i) (me_workloads m),
    me_failures := mfilter (\<lambda>i _. \<not> expired_left g t m i) (me_failures m)\<rparr>"
proof -
  let ?gone = "map fst (filter (\<lambda>(i, b). \<not> t - b < mc_leftRetention g) (me_left m))"
  from assms have wf: "wfmap (me_left m)" and l: "\<And>i. mhas (me_left m) i \<Longrightarrow> view_state m i = StateLeft"
    by (simp_all add: mesh_ok_def mesh_core_def)
  have gone: "i \<in> set ?gone \<longleftrightarrow> expired_left g t m i" for i by (rule expired_set [OF wf])
  have dead: "filter (\<lambda>i. view_state m i = StateLeft) ?gone = ?gone"
  proof (rule filter_True, rule ballI)
    fix i assume "i \<in> set ?gone"
    then have "expired_left g t m i" by (simp only: gone)
    then show "view_state m i = StateLeft" by (intro l) (auto simp: expired_left_def mhas_def split: option.splits)
  qed
  show ?thesis unfolding expireLeftTombstones_def Let_def dead gone ..
qed

lemma mget_key_filter: "mget (mfilter (\<lambda>i _. Q i) m) i = (if Q i then mget m i else None)"
  by (induction m) (auto simp: mfilter_def)

lemma expireLeftTombstones_ok: "mesh_ok g m \<Longrightarrow> mesh_ok g (expireLeftTombstones g t m)"
proof -
  assume ok: "mesh_ok g m"
  then have core: "mesh_core g m" and cov: "in_view {} m" by (simp_all add: mesh_ok_def)
  let ?m = "expireLeftTombstones g t m"
  have "mall (\<lambda>i s. ns_NodeID s = i \<and> i \<noteq> mc_NodeID g \<and> ns_Processes s = []) (me_view ?m)"
    using core by (simp add: expire_state [OF ok] mesh_core_def mall_mfilter)
  moreover have "mhas (me_left ?m) i \<longleftrightarrow> view_state ?m i = StateLeft" for i
    using core by (simp add: expire_state [OF ok] mesh_core_def mhas_def view_state_def mget_key_filter)
  ultimately have "mesh_core g ?m"
    using core by (simp add: mesh_core_def expire_state [OF ok])
  moreover have "in_view {} ?m"
    using cov by (simp add: in_view_def expire_state [OF ok] mhas_def mget_key_filter)
  ultimately show ?thesis by (simp add: mesh_ok_def)
qed

lemma refresh_view_ok: "mesh_ok g m \<Longrightarrow> mesh_ok g (refresh_view g t present m)"
  by (simp add: refresh_view_def expireLeftTombstones_ok applyMemberlistStates_ok)

lemma fetched_ok: "mesh_ok g m \<Longrightarrow> mesh_ok g (snd (applyFetchedWorkload t snap m))"
  by (rule caches_ok [OF caches_fetched]) (auto simp: applyFetchedWorkload_def Let_def mhas_def split: option.split)

lemma failure_ok: "mesh_ok g m \<Longrightarrow> mesh_ok g (recordWorkloadFetchFailure t i target m)"
  by (rule caches_ok [OF caches_failure]) (auto simp: recordWorkloadFetchFailure_def Let_def mhas_def split: option.split)

lemma mesh_step_ok: "mesh_ok g m \<Longrightarrow> mesh_ok g (mesh_step g e m)"
proof (cases e)
  case (Pair t ev)
  assume ok: "mesh_ok g m"
  with Pair show ?thesis
    by (cases ev) (simp_all add: NotifyJoin_def NotifyUpdate_def MergeRemoteState_def ApplyMemberlistState_def Let_def upsertMeta_ok
      NotifyLeave_ok store_ok markSuspect_ok refresh_view_ok fetched_ok failure_ok split: option.split)
qed

interpretation mesh: machine_invariant "mesh_step g" "\<lambda>m. m" "mesh_ok g" for g
  by unfold_locales (simp_all add: mesh_step_ok)

lemma mesh_run_ok: "mesh_ok g (mesh_run g evs mesh_init)"
  unfolding mesh_run_def by (rule mesh.inv_fold [OF refl mesh_ok_init])

section \<open>What Members answers\<close>

lemma freshness_at_keeps [simp]:
  "ns_NodeID (freshness_at t ms c s) = ns_NodeID s" "ns_State (freshness_at t ms c s) = ns_State s"
  "ns_Processes (freshness_at t ms c s) = ns_Processes s"
  by (simp_all add: freshness_at_def Let_def)

lemma legacy_keeps [simp]:
  "ns_NodeID (applyLegacyWorkloadFreshness t s) = ns_NodeID s" "ns_State (applyLegacyWorkloadFreshness t s) = ns_State s"
  "ns_Processes (applyLegacyWorkloadFreshness t s) = ns_Processes s"
  by (simp_all add: applyLegacyWorkloadFreshness_def Let_def)

lemma remote_keeps [simp]:
  "ns_NodeID (applyRemoteWorkload t c f s) = ns_NodeID s" "ns_State (applyRemoteWorkload t c f s) = ns_State s"
  by (simp_all add: applyRemoteWorkload_def Let_def split: option.split)

lemma local_id:
  "ns_NodeID snap \<in> {[], mc_NodeID g} \<Longrightarrow> ns_NodeID (applyLocalWorkloadFreshness t (localSummary g b snap)) = mc_NodeID g"
  by (auto simp: applyLocalWorkloadFreshness_def localSummary_def)

definition remote_entries :: "gtime \<Rightarrow> Mesh \<Rightarrow> NodeSummary list" where
  "remote_entries t m = map (\<lambda>(i, s). applyRemoteWorkload t (mget (me_workloads m) i) (mget (me_failures m) i) s) (me_view m)"

lemma view_entry: "mesh_ok g m \<Longrightarrow> (i, s) \<in> set (me_view m) \<Longrightarrow> ns_NodeID s = i \<and> i \<noteq> mc_NodeID g"
  unfolding mesh_ok_def mesh_core_def mall_def using mget_in_set [of "me_view m" i s] by blast

lemma local_absent:
  assumes "mesh_ok g m"
  shows "mc_NodeID g \<notin> set (map fst (me_view m))"
proof
  assume "mc_NodeID g \<in> set (map fst (me_view m))"
  then obtain s where "(mc_NodeID g, s) \<in> set (me_view m)" by auto
  from view_entry [OF assms this] show False by simp
qed

lemma Members_eq:
  assumes "mesh_ok g m" and "ns_NodeID snap \<in> {[], mc_NodeID g}"
  shows "Members g t present snap m = (let m1 = refresh_view g t present m in
    (sort_key ns_NodeID (remote_entries t m1 @ [applyLocalWorkloadFreshness t (localSummary g (me_leaving m) snap)]), m1))"
proof -
  let ?m = "refresh_view g t present m"
  have "fst e \<noteq> mc_NodeID g" if "e \<in> set (me_view ?m)" for e
    using view_entry [OF refresh_view_ok [OF assms(1)], of "fst e" "snd e"] that by simp
  then have "filter (\<lambda>(i, _). i \<noteq> mc_NodeID g) (me_view ?m) = me_view ?m"
    by (intro filter_True) (simp add: case_prod_beta)
  then show ?thesis by (simp add: Members_def Let_def local_id [OF assms(2)] remote_entries_def)
qed

lemma remote_ids: "mesh_ok g m \<Longrightarrow> map ns_NodeID (remote_entries t m) = map fst (me_view m)"
  by (auto simp: remote_entries_def mesh_ok_def mesh_core_def mall_def mget_in_set)

lemma remote_entry:
  assumes "mesh_ok g m" and "s \<in> set (remote_entries t m)"
  obtains p where "mget (me_view m) (ns_NodeID s) = Some p" "ns_State s = ns_State p"
    "s = applyRemoteWorkload t (mget (me_workloads m) (ns_NodeID s)) (mget (me_failures m) (ns_NodeID s)) p"
    "ns_NodeID s \<noteq> mc_NodeID g"
proof -
  from assms(1) have wf: "wfmap (me_view m)"
    and k: "mall (\<lambda>i s. ns_NodeID s = i \<and> i \<noteq> mc_NodeID g \<and> ns_Processes s = []) (me_view m)"
    by (simp_all add: mesh_ok_def mesh_core_def)
  from assms(2) obtain i p where e: "(i, p) \<in> set (me_view m)"
    and s: "s = applyRemoteWorkload t (mget (me_workloads m) i) (mget (me_failures m) i) p"
    by (auto simp: remote_entries_def)
  from e have p: "mget (me_view m) i = Some p" by (simp add: mget_in_set [OF wf])
  from mallD [OF k p] have "ns_NodeID p = i" "i \<noteq> mc_NodeID g" by simp_all
  with s p show ?thesis by (intro that [of p]) simp_all
qed

lemma strict_sort_key: "distinct (map f xs) \<Longrightarrow> sorted_wrt (<) (map f (sort_key f xs))"
  using mset_eq_imp_distinct_iff [of "map f (sort_key f xs)" "map f xs"] by (simp add: strict_sorted_iff)

text \<open>
  C39: In every state that the calls of memberlist, the states of other nodes and the fetches can lead to, the answer of
  Members is in strictly ascending order of the node identifiers, so that no node appears twice; it lists the local node
  and exactly the nodes of the view; and a node that has left is listed only within the retention after its departure.
\<close>

theorem members_exact:
  assumes "ns_NodeID snap \<in> {[], mc_NodeID g}"
    and "Members g t present snap (mesh_run g evs mesh_init) = (ms, m)"
  shows "sorted_wrt (<) (map ns_NodeID ms)
    \<and> set (map ns_NodeID ms) = insert (mc_NodeID g) {i. mhas (me_view m) i}
    \<and> (\<forall>s \<in> set ms. ns_NodeID s \<noteq> mc_NodeID g \<longrightarrow> ns_State s = StateLeft \<longrightarrow>
        (\<exists>b. mget (me_left m) (ns_NodeID s) = Some b \<and> t - b < mc_leftRetention g))"
proof -
  let ?m = "refresh_view g t present (mesh_run g evs mesh_init)"
  let ?l = "applyLocalWorkloadFreshness t (localSummary g (me_leaving (mesh_run g evs mesh_init)) snap)"
  have ok: "mesh_ok g ?m" by (rule refresh_view_ok [OF mesh_run_ok])
  from assms(2) have m: "m = ?m" and ms: "ms = sort_key ns_NodeID (remote_entries t ?m @ [?l])"
    by (simp_all add: Members_eq [OF mesh_run_ok assms(1)] Let_def) blast+
  have l: "ns_NodeID ?l = mc_NodeID g" by (rule local_id [OF assms(1)])
  have ids: "map ns_NodeID (remote_entries t ?m @ [?l]) = map fst (me_view ?m) @ [mc_NodeID g]"
    by (simp add: remote_ids [OF ok] l)
  from ok have wf: "wfmap (me_view ?m)" by (simp add: mesh_ok_def mesh_core_def)
  moreover have "mc_NodeID g \<notin> set (map fst (me_view ?m))" by (rule local_absent [OF ok])
  ultimately have "distinct (map ns_NodeID (remote_entries t ?m @ [?l]))" unfolding ids by (simp add: wfmap_def)
  from strict_sort_key [OF this] have "sorted_wrt (<) (map ns_NodeID ms)" by (simp only: ms)
  moreover have "set (map ns_NodeID ms) = insert (mc_NodeID g) {i. mhas (me_view m) i}"
  proof -
    have "set (map ns_NodeID ms) = set (map ns_NodeID (remote_entries t ?m @ [?l]))" by (simp add: ms)
    also have "\<dots> = insert (mc_NodeID g) {i. mhas (me_view m) i}"
      unfolding ids m by (auto simp: mhas_def map_of_eq_None_iff)
    finally show ?thesis .
  qed
  moreover have "\<exists>b. mget (me_left m) (ns_NodeID s) = Some b \<and> t - b < mc_leftRetention g"
    if "s \<in> set ms" and "ns_NodeID s \<noteq> mc_NodeID g" and "ns_State s = StateLeft" for s
  proof -
    from that l have "s \<in> set (remote_entries t ?m)" by (auto simp: ms)
    from remote_entry [OF ok this] obtain p where p: "mget (me_view ?m) (ns_NodeID s) = Some p" "ns_State s = ns_State p" by metis
    with that(3) ok have "mhas (me_left ?m) (ns_NodeID s)" by (simp add: mesh_ok_def mesh_core_def view_state_def)
    then obtain b where b: "mget (me_left ?m) (ns_NodeID s) = Some b" by (auto simp: mhas_def)
    have "mesh_ok g (applyMemberlistStates g t present (mesh_run g evs mesh_init))"
      by (rule applyMemberlistStates_ok [OF mesh_run_ok])
    from expire_state [OF this] b have "t - b < mc_leftRetention g"
      by (auto simp: refresh_view_def mget_key_filter expired_left_def split: if_splits option.splits)
    with b m show ?thesis by blast
  qed
  ultimately show ?thesis by blast
qed

definition wit_mesh :: MeshConfig where
  "wit_mesh = \<lparr>mc_NodeID = ''b'', mc_localName = ''b#1'', mc_localBoot = ''1'', mc_LocalAddr = [], mc_OS = [], mc_Arch = [],
    mc_Protocol = 2, mc_SuspectAfter = 10, mc_leftRetention = 100\<rparr>"

lemma members_exact_witness:
  "map ns_NodeID (fst (Members wit_mesh 50 [] zero_summary (mesh_run wit_mesh
     [(1, MvJoin \<lparr>mn_Name = ''c#1'', mn_Meta = None, mn_Addr = []\<rparr>), (2, MvJoin \<lparr>mn_Name = ''a#1'', mn_Meta = None, mn_Addr = []\<rparr>)]
     mesh_init))) = [''a'', ''b'', ''c'']
   \<and> sorted_wrt (<) [''a'', ''b'', ''c'']"
proof -
  let ?r = "Members wit_mesh 50 [] zero_summary (mesh_run wit_mesh
     [(1, MvJoin \<lparr>mn_Name = ''c#1'', mn_Meta = None, mn_Addr = []\<rparr>), (2, MvJoin \<lparr>mn_Name = ''a#1'', mn_Meta = None, mn_Addr = []\<rparr>)]
     mesh_init)"
  have "map ns_NodeID (fst ?r) = [''a'', ''b'', ''c'']" by code_simp
  moreover from members_exact [of zero_summary wit_mesh 50 "[]" _ "fst ?r" "snd ?r"]
  have "sorted_wrt (<) (map ns_NodeID (fst ?r))" by (simp add: zero_summary_def)
  ultimately show ?thesis by simp
qed

section \<open>Freshness\<close>

lemma classify_live: "classifyWithAge t ms st a = ''LIVE'' \<longleftrightarrow> 0 < ms \<and> st = StateAlive \<and> t - time_UnixMilli ms \<le> a"
  by (auto simp: classifyWithAge_def)

lemma fold_max_fresh:
  "fold (\<lambda>p acc. if ps_FreshnessUnixMs p > acc then ps_FreshnessUnixMs p else acc) ps a = b \<Longrightarrow> b \<noteq> a \<Longrightarrow>
    \<exists>p \<in> set ps. ps_FreshnessUnixMs p = b"
proof (induction ps arbitrary: a)
  case (Cons p ps)
  let ?c = "if ps_FreshnessUnixMs p > a then ps_FreshnessUnixMs p else a"
  from Cons.prems(1) have "fold (\<lambda>p acc. if ps_FreshnessUnixMs p > acc then ps_FreshnessUnixMs p else acc) ps ?c = b" by simp
  from Cons.IH [OF this] Cons.prems(2) show ?case by (cases "b = ?c") (auto split: if_splits)
qed simp

lemma legacy_live:
  "ns_WorkloadFreshness (applyLegacyWorkloadFreshness t s) = ''LIVE'' \<Longrightarrow>
    ns_State s = StateAlive \<and> (\<exists>p \<in> set (ns_Processes s). t - time_UnixMilli (ps_FreshnessUnixMs p) \<le> ProcessMaxAge)"
proof -
  assume l: "ns_WorkloadFreshness (applyLegacyWorkloadFreshness t s) = ''LIVE''"
  define b where "b = fold (\<lambda>p acc. if ps_FreshnessUnixMs p > acc then ps_FreshnessUnixMs p else acc) (ns_Processes s) 0"
  from l have b: "0 < b" "ns_State s = StateAlive" "t - time_UnixMilli b \<le> ProcessMaxAge"
    by (simp_all add: applyLegacyWorkloadFreshness_def Let_def ClassifyProcess_def classify_live b_def)
  from fold_max_fresh [OF b_def [symmetric]] b show ?thesis by force
qed

lemma remote_live:
  assumes "ns_WorkloadFreshness (applyRemoteWorkload t c f p) = ''LIVE''"
  obtains w where "c = Some w" "ns_State p = StateAlive" "ns_Processes (applyRemoteWorkload t c f p) = cw_processes w"
    "(cw_epoch w = [] \<or> cw_version w = 0) \<and> (\<exists>q \<in> set (cw_processes w). t - time_UnixMilli (ps_FreshnessUnixMs q) \<le> ProcessMaxAge)
     \<or> cw_epoch w = ns_WorkloadEpoch p \<and> cw_version w = ns_WorkloadVersion p \<and> t - time_UnixMilli (cw_verifiedUnixMs w) \<le> ProcessMaxAge"
proof (cases c)
  case None
  with assms show ?thesis by (simp add: applyRemoteWorkload_def Let_def)
next
  case (Some w)
  show ?thesis
  proof (cases "cw_epoch w = [] \<or> cw_version w = 0")
    case True
    with assms Some legacy_live show ?thesis by (intro that [of w]) (force simp: applyRemoteWorkload_def Let_def)+
  next
    case False
    with assms Some show ?thesis
      by (intro that [of w]) (auto simp: applyRemoteWorkload_def Let_def freshness_at_def ClassifyProcess_def classify_live split: if_splits)
  qed
qed


definition wit_summary :: NodeSummary where
  "wit_summary = zero_summary\<lparr>ns_NodeID := ''n'', ns_State := StateAlive, ns_RPCAddress := ''r'', ns_WorkloadSyncVersion := 1,
     ns_WorkloadEpoch := ''e'', ns_WorkloadVersion := 1, ns_WorkloadObservationSeq := 1\<rparr>"


section \<open>Departures\<close>

text \<open>The node \<open>i\<close> has failed, or has left not before \<open>b\<close>.\<close>

definition departed :: "string \<Rightarrow> gtime \<Rightarrow> Mesh \<Rightarrow> bool" where
  "departed i b m \<longleftrightarrow> view_state m i = StateFailed
     \<or> view_state m i = StateLeft \<and> (case mget (me_left m) i of None \<Rightarrow> False | Some l \<Rightarrow> b \<le> l)"

definition stays_away :: "MeshConfig \<Rightarrow> string \<Rightarrow> gtime \<Rightarrow> gtime \<times> MeshEvent \<Rightarrow> bool" where
  "stays_away g i b e \<longleftrightarrow> b \<le> fst e \<and> fst e - b < mc_leftRetention g
     \<and> (case snd e of MvJoin n \<Rightarrow> ns_NodeID (summaryFromNode n) \<noteq> i | _ \<Rightarrow> True)"

lemma departed_same: "view_state m' i = view_state m i \<Longrightarrow> mget (me_left m') i = mget (me_left m) i \<Longrightarrow> departed i b m' = departed i b m"
  by (simp add: departed_def)

lemma departed_caches: "caches_only j m m' \<Longrightarrow> departed i b m' = departed i b m"
  by (rule departed_same) (simp_all add: caches_only_def view_state_def)

lemma departed_conflicts [simp]: "departed i b (m\<lparr>me_conflicts := c\<rparr>) = departed i b m"
  by (simp add: departed_def view_state_def)

lemma departed_other: "ns_NodeID s \<noteq> i \<Longrightarrow> departed i b (setView t p s m) = departed i b m"
  by (rule departed_same) (simp add: view_state_setView, simp add: setView_def Let_def)

text \<open>A summary that keeps the node away: it has left, or it has failed and had not left.\<close>

lemma departed_setView:
  assumes "departed i b m" and "ns_NodeID s = i" and "b \<le> t"
    and "ns_State s = StateLeft \<or> ns_State s = StateFailed"
  shows "departed i b (setView t (view_state m i) s m)"
  using assms by (auto simp: departed_def view_state_setView) (auto simp: setView_def Let_def mhas_def split: option.splits)

lemma keepTerminal_departed:
  "st = StateFailed \<or> st = StateLeft \<Longrightarrow> \<not> keepTerminal st u \<Longrightarrow> u = StateLeft \<or> u = StateFailed"
  by (auto simp: keepTerminal_def split: if_splits)

lemma departed_view:
  assumes "mesh_ok g m" and "departed i b m"
  obtains p where "mget (me_view m) i = Some p" "ns_NodeID p = i" "ns_State p = StateFailed \<or> ns_State p = StateLeft"
    "view_state m i = ns_State p"
proof -
  from assms(2) obtain p where p: "mget (me_view m) i = Some p"
    by (cases "mget (me_view m) i") (auto simp: departed_def view_state_def)
  with assms(1) have "ns_NodeID p = i" unfolding mesh_ok_def mesh_core_def by (blast dest: mallD)
  with p assms(2) show ?thesis by (intro that [of p]) (auto simp: departed_def view_state_def)
qed

lemma departed_store:
  assumes ok: "mesh_ok g m" and d: "departed i b m" and t: "b \<le> t" and i: "i \<noteq> []"
  shows "departed i b (store_summary g t s m)"
proof (cases "ns_NodeID s = mc_NodeID g")
  case True
  with d show ?thesis by (simp add: store_summary_def rejectLocalClone_def)
next
  case False
  define s1 where "s1 = preserveNewerWorkloadHint s (mget (me_view m) (ns_NodeID s))"
  have s1: "ns_NodeID s1 = ns_NodeID s" "ns_State s1 = ns_State s"
    by (simp_all add: s1_def preserveNewerWorkloadHint_def split: option.split)
  have dc: "departed i b (applyFullWorkload t s1 m)"
    using d departed_caches [OF caches_applyFull] by blast
  have vs: "view_state (applyFullWorkload t s1 m) j = view_state m j" for j by (rule caches_view [OF caches_applyFull])
  show ?thesis
  proof (cases "ns_NodeID s = i")
    case n: False
    with False d dc departed_other [of "s1\<lparr>ns_Processes := []\<rparr>" i b t] s1 show ?thesis
      by (simp add: store_summary_def rejectLocalClone_def Let_def s1_def [symmetric])
  next
    case n: True
    from departed_view [OF ok d] obtain p where p: "mget (me_view m) i = Some p" "ns_NodeID p = i"
      "ns_State p = StateFailed \<or> ns_State p = StateLeft" "view_state m i = ns_State p" .
    show ?thesis
    proof (cases "keepTerminal (ns_State p) (ns_State s)")
      case True
      with False n p i d show ?thesis by (simp add: store_summary_def rejectLocalClone_def)
    next
      case k: False
      from keepTerminal_departed [OF p(3) k] have "ns_State s = StateLeft \<or> ns_State s = StateFailed" .
      from departed_setView [OF dc, of "s1\<lparr>ns_Processes := []\<rparr>" t] this s1 n t
      have "departed i b (setView t (view_state m i) (s1\<lparr>ns_Processes := []\<rparr>) (applyFullWorkload t s1 m))" by (simp add: vs)
      with False n p k show ?thesis by (simp add: store_summary_def rejectLocalClone_def Let_def s1_def)
    qed
  qed
qed

lemma merged_state_departed:
  assumes "ns_NodeID p \<noteq> []" and "ns_State p = StateFailed \<or> ns_State p = StateLeft"
  shows "ns_State (merged_meta False s (Some p)) = StateLeft \<or> ns_State (merged_meta False s (Some p)) = StateFailed"
proof -
  let ?u = "preserveNewerWorkloadHint (mergePreserved s (Some p)) (Some p)"
  from keepTerminal_departed [OF assms(2), of "ns_State ?u"] assms show ?thesis
    by (auto simp: merged_meta_def Let_def)
qed

lemma departed_upsert:
  assumes ok: "mesh_ok g m" and d: "departed i b m" and t: "b \<le> t" and r: "revive \<longrightarrow> ns_NodeID s \<noteq> i"
  shows "departed i b (upsertMeta g t s revive m)"
proof (cases "ns_NodeID s = mc_NodeID g \<or> ns_NodeID s = []")
  case True
  with d show ?thesis by (auto simp: upsertMeta_def rejectLocalClone_def)
next
  case False
  define s1 where "s1 = merged_meta revive s (mget (me_view m) (ns_NodeID s))"
  have s1: "ns_NodeID s1 = ns_NodeID s" by (simp add: s1_def)
  have dc: "departed i b (applyWorkloadHint t s1 m)"
    using d departed_caches [OF caches_applyHint] by blast
  have vs: "view_state (applyWorkloadHint t s1 m) j = view_state m j" for j by (rule caches_view [OF caches_applyHint])
  have "departed i b (setView t (view_state m (ns_NodeID s)) (s1\<lparr>ns_Processes := []\<rparr>) (applyWorkloadHint t s1 m))"
  proof (cases "ns_NodeID s = i")
    case n: False
    with departed_other [of "s1\<lparr>ns_Processes := []\<rparr>" i b t] dc show ?thesis by (simp add: s1_def)
  next
    case n: True
    from departed_view [OF ok d] obtain p where p: "mget (me_view m) i = Some p" "ns_NodeID p = i"
      "ns_State p = StateFailed \<or> ns_State p = StateLeft" .
    from r n have "\<not> revive" by blast
    with merged_state_departed [OF _ p(3), of s] p n False
    have "ns_State s1 = StateLeft \<or> ns_State s1 = StateFailed" by (simp add: s1_def)
    with departed_setView [OF dc, of "s1\<lparr>ns_Processes := []\<rparr>" t] n t s1 show ?thesis by (simp add: vs)
  qed
  with False show ?thesis by (simp add: upsertMeta_def rejectLocalClone_def Let_def s1_def)
qed

lemma departed_leave:
  assumes d: "departed i b m" and t: "b \<le> t"
  shows "departed i b (NotifyLeave g t n m)"
proof -
  let ?s = "summaryFromNode n"
  show ?thesis
  proof (cases "mn_Name n = mc_localName g \<or> ns_NodeID ?s = mc_NodeID g \<or> ns_NodeID ?s \<noteq> i")
    case True
    with d departed_other [of _ i b t] show ?thesis by (auto simp: NotifyLeave_def rejectLocalClone_def Let_def)
  next
    case False
    with departed_setView [OF d _ t] show ?thesis by (auto simp: NotifyLeave_def rejectLocalClone_def Let_def)
  qed
qed

lemma departed_suspect: "departed i b m \<Longrightarrow> mesh_ok g m \<Longrightarrow> departed i b (markSuspect t j m)"
proof -
  assume d: "departed i b m" and ok: "mesh_ok g m"
  show ?thesis
  proof (cases "j = i")
    case True
    from departed_view [OF ok d] obtain p where "mget (me_view m) i = Some p" "ns_State p = StateFailed \<or> ns_State p = StateLeft" .
    with True d show ?thesis by (auto simp: markSuspect_def settled_state_def)
  next
    case False
    have "ns_NodeID p = j" if "mget (me_view m) j = Some p" for p
      using ok that unfolding mesh_ok_def mesh_core_def by (blast dest: mallD)
    with False d departed_other show ?thesis by (auto simp: markSuspect_def split: option.split)
  qed
qed

lemma departed_memberlist:
  assumes "departed i b m" and "mesh_ok g m"
  shows "departed i b (applyMemberlistStates g t present m)"
proof -
  have "departed i b (fold (suspect_stale g t) js m) \<and> mesh_ok g (fold (suspect_stale g t) js m)" for js
    using assms
    by (intro fold_invariant [where Q = "\<lambda>_. True" and P = "\<lambda>m. departed i b m \<and> mesh_ok g m"])
      (auto simp: suspect_stale_ok suspect_stale_def departed_suspect markSuspect_ok split: option.split)
  then show ?thesis by (simp add: applyMemberlistStates_def)
qed

lemma departed_refresh:
  assumes d: "departed i b m" and ok: "mesh_ok g m" and t: "t - b < mc_leftRetention g"
  shows "departed i b (refresh_view g t present m)"
proof -
  let ?m = "applyMemberlistStates g t present m"
  have ok': "mesh_ok g ?m" by (rule applyMemberlistStates_ok [OF ok])
  have d': "departed i b ?m" by (rule departed_memberlist [OF d ok])
  have "\<not> expired_left g t ?m i"
  proof
    assume e: "expired_left g t ?m i"
    then have "mhas (me_left ?m) i" by (auto simp: expired_left_def mhas_def split: option.splits)
    with ok' have "view_state ?m i = StateLeft" by (simp add: mesh_ok_def mesh_core_def)
    with d' e t show False by (auto simp: departed_def expired_left_def split: option.splits)
  qed
  with d' show ?thesis
    by (simp add: refresh_view_def expire_state [OF ok'] departed_def view_state_def mget_key_filter)
qed

lemma departed_step:
  assumes "i \<noteq> []" and "stays_away g i b e" and "mesh_ok g m \<and> departed i b m"
  shows "mesh_ok g (mesh_step g e m) \<and> departed i b (mesh_step g e m)"
proof
  from assms show "mesh_ok g (mesh_step g e m)" by (simp add: mesh_step_ok)
  obtain t ev where e: "e = (t, ev)" by (cases e)
  from assms have ok: "mesh_ok g m" and d: "departed i b m" and t: "b \<le> t" "t - b < mc_leftRetention g"
    by (simp_all add: stays_away_def e)
  show "departed i b (mesh_step g e m)"
  proof (cases ev)
    case (MvJoin n)
    with assms(2) e have "ns_NodeID (summaryFromNode n) \<noteq> i" by (simp add: stays_away_def)
    with MvJoin e d departed_upsert [OF ok d t(1)] show ?thesis by (simp add: NotifyJoin_def Let_def)
  next
    case (MvMembers present)
    with e departed_refresh [OF d ok t(2)] show ?thesis by simp
  next
    case MvLeaving
    with e d show ?thesis by (simp add: departed_def view_state_def)
  qed (use e d ok t assms(1) in \<open>auto simp: NotifyUpdate_def MergeRemoteState_def ApplyMemberlistState_def departed_upsert departed_store
      departed_leave departed_suspect departed_caches [OF caches_fetched] departed_caches [OF caches_failure] split: option.split\<close>)
qed

interpretation away: guarded_machine "mesh_step g" "\<lambda>m. m" "\<lambda>m. mesh_ok g m \<and> departed i b m" "\<lambda>e. i \<noteq> [] \<and> stays_away g i b e" for g i b
  by unfold_locales (use departed_step in auto)



section \<open>Fetches\<close>

lemma retry_delay_bounds: "c \<noteq> 0 \<Longrightarrow> nanos \<le> workloadFetchRetryDelay c \<and> workloadFetchRetryDelay c \<le> 30 * nanos"
proof -
  assume "c \<noteq> 0"
  moreover have "(1::int) \<le> 2 ^ unat (min (c - 1) 5)" by simp
  ultimately show ?thesis
    by (simp add: workloadFetchRetryDelay_def workloadFetchRetryBase_def workloadFetchRetryMax_def del: one_le_power)
qed

lemma delay_le: "workloadFetchRetryDelay c \<le> 30 * nanos"
proof (cases "c = 0")
  case True
  then show ?thesis by (simp add: workloadFetchRetryDelay_def)
qed (use retry_delay_bounds in blast)

text \<open>However often the fetches of a peer fail, 30 seconds after the last failure the next one may start.\<close>

lemma retry_within_30s:
  assumes "m' = recordWorkloadFetchFailure t i target m" and "m' \<noteq> m" and "t + 30 * nanos \<le> u"
  shows "workloadFetchReady u i m'"
proof -
  from assms(1,2) obtain peer where p: "mget (me_view m) i = Some peer" "workloadNeedsFetch i m"
    by (auto simp: recordWorkloadFetchFailure_def split: option.splits if_splits)
  from assms(1,2) p(1) obtain n where m: "m' = m\<lparr>me_failures := mput i \<lparr>wf_epoch = wv_Epoch target, wf_version = wv_Version target,
      wf_consecutive = n, wf_retryAfterUnixMs = UnixMilli (t + workloadFetchRetryDelay n)\<rparr> (me_failures m)\<rparr>"
    by (auto simp: recordWorkloadFetchFailure_def Let_def split: if_splits)
  have "UnixMilli (t + workloadFetchRetryDelay n) \<le> UnixMilli u"
    unfolding UnixMilli_def using assms(3) delay_le [of n] by (intro zdiv_mono1) simp_all
  moreover from p m have "workloadNeedsFetch i m'" by (simp add: workloadNeedsFetch_def split: if_splits)
  ultimately show ?thesis using p m by (simp add: workloadFetchReady_def)
qed

text \<open>A snapshot that answers the announced version ends the need for a fetch and the record of failures.\<close>

lemma fetched_satisfies:
  assumes "mget (me_view m) i = Some peer" and "workloadNeedsFetch i m" and "ws_NodeID snap = i"
    and "ws_Epoch snap = ns_WorkloadEpoch peer" and "ws_Version snap = ns_WorkloadVersion peer"
  shows "fst (applyFetchedWorkload t snap m) \<and> \<not> workloadNeedsFetch i (snd (applyFetchedWorkload t snap m))
    \<and> \<not> mhas (me_failures (snd (applyFetchedWorkload t snap m))) i"
proof -
  from assms(1,2) have "has_workload peer" and "\<not> cached_at (ns_WorkloadEpoch peer) (ns_WorkloadVersion peer) (mget (me_workloads m) i)"
    by (simp_all add: workloadNeedsFetch_def split: if_splits)
  with assms show ?thesis
    by (simp add: applyFetchedWorkload_def Let_def has_workload_def cache_workload_def workloadNeedsFetch_def cached_at_def mhas_def)
qed

section \<open>Two races\<close>

text \<open>
  The leave of the boot that crashed arrives after the join of the next one, as memberlist knows them under two names: the
  running node is shown as failed, and neither its updates nor its full states make it alive again.
\<close>

lemma late_leave_fails_running_node:
  "map (\<lambda>evs. view_state (mesh_run wit_mesh evs mesh_init) ''n'')
     (let up = zero_summary\<lparr>ns_NodeID := ''n'', ns_BootID := ''2'', ns_State := StateAlive\<rparr>;
          n1 = \<lparr>mn_Name = ''n#1'', mn_Meta = Some (up\<lparr>ns_BootID := ''1''\<rparr>), mn_Addr = []\<rparr>;
          n2 = \<lparr>mn_Name = ''n#2'', mn_Meta = Some up, mn_Addr = []\<rparr>;
          evs = [(1, MvJoin n1), (2, MvJoin n2), (3, MvLeave n1)]
      in [take 2 evs, evs, evs @ [(4, MvUpdate n2), (5, MvMerge (Some up))]]) = [StateAlive, StateFailed, StateFailed]"
  by code_simp

text \<open>
  A full state of version 1 that arrives after the announcement of version 2 is cached as version 2, with its old processes;
  no fetch follows, and the old processes are shown as live and current.
\<close>

lemma stale_state_cached_as_new:
  "let p = \<lparr>ps_ProcessID = ''p'', ps_Name = ''p'', ps_Group = [], ps_Desired = [], ps_Observed = ''OLD'', ps_Health = [],
         ps_LatestRevision = 1, ps_ActiveRevision = 1, ps_FreshnessUnixMs = 0\<rparr>;
       s = zero_summary\<lparr>ns_NodeID := ''n'', ns_State := StateAlive, ns_RPCAddress := ''r'', ns_WorkloadSyncVersion := 1,
         ns_WorkloadEpoch := ''e'', ns_WorkloadVersion := 1, ns_WorkloadObservationSeq := 1, ns_Processes := [p]\<rparr>;
       n = \<lparr>mn_Name = ''n#1'', mn_Meta = Some (s\<lparr>ns_WorkloadVersion := 2, ns_WorkloadObservationSeq := 2\<rparr>), mn_Addr = []\<rparr>;
       m = mesh_run wit_mesh [(1000000, MvMerge (Some s)), (2000000, MvUpdate n), (3000000, MvMerge (Some s))] mesh_init
   in map_option (\<lambda>w. (cw_version w, map ps_Observed (cw_processes w))) (mget (me_workloads m) ''n'') = Some (2, [''OLD''])
     \<and> \<not> workloadNeedsFetch ''n'' m
     \<and> map ns_WorkloadFreshnessReason (fst (Members wit_mesh 4000000 [] zero_summary m)) ! 1 = ''CURRENT''"
  by code_simp

end
