(* ===== verification/Alert_Engine.thy ===== *)
theory Alert_Engine imports Batch_Store
begin

text \<open>
  The alerts of one agent: types and fingerprints (\<^verbatim>\<open>internal/alert/types.go\<close>), the table of
  \<^verbatim>\<open>internal/store/alert.go\<close> and the engine that turns events into rows and notifications
  (\<^verbatim>\<open>internal/alert/engine.go\<close>). What a channel answers, the identifiers and the encoder of JSON are parameters; a
  \<^verbatim>\<open>float64\<close> is a value of a type parameter. The context of a scan can end while a channel sends; from then on every
  call of the database fails. Other errors of the database, and the audit rows of sends, which repeat the log of sends, are
  left out. Times are not the zero time.
\<close>

section \<open>Types (types.go)\<close>

datatype AlertType =
    TypeProcessExit | TypeProcessFatal | TypeProcessCrashLoop | TypeHealthFailed | TypeCPUHigh | TypeMemoryHigh
  | TypeDiskHigh | TypeLocalDBError | TypeAgentFailed | TypeAgentSuspect | TypeControlNoQuorum | TypeCertExpiring
  | TypeVersionMismatch

datatype Severity = SevWarning | SevCritical

text \<open>\<open>StateNone\<close> is the empty string of a record that has not been stored.\<close>

datatype AlertState = StateNone | StateFiring | StateResolved

fun type_text :: "AlertType \<Rightarrow> string" where
  "type_text TypeProcessExit = ''PROCESS_EXIT''"
| "type_text TypeProcessFatal = ''PROCESS_FATAL''"
| "type_text TypeProcessCrashLoop = ''PROCESS_CRASH_LOOP''"
| "type_text TypeHealthFailed = ''HEALTH_FAILED''"
| "type_text TypeCPUHigh = ''CPU_HIGH''"
| "type_text TypeMemoryHigh = ''MEMORY_HIGH''"
| "type_text TypeDiskHigh = ''DISK_HIGH''"
| "type_text TypeLocalDBError = ''LOCAL_DB_ERROR''"
| "type_text TypeAgentFailed = ''AGENT_FAILED''"
| "type_text TypeAgentSuspect = ''AGENT_SUSPECT_TOO_LONG''"
| "type_text TypeControlNoQuorum = ''CONTROL_NO_QUORUM''"
| "type_text TypeCertExpiring = ''CERT_EXPIRING''"
| "type_text TypeVersionMismatch = ''VERSION_MISMATCH''"

definition requiresProcessID :: "AlertType \<Rightarrow> bool" where
  "requiresProcessID ty \<longleftrightarrow> ty \<in> {TypeProcessExit, TypeProcessFatal, TypeProcessCrashLoop, TypeHealthFailed}"

definition DefaultSeverity :: "AlertType \<Rightarrow> Severity" where
  "DefaultSeverity ty =
    (if ty \<in> {TypeProcessFatal, TypeProcessCrashLoop, TypeLocalDBError, TypeAgentFailed, TypeControlNoQuorum}
     then SevCritical else SevWarning)"

definition Fingerprint :: "AlertType \<Rightarrow> string \<Rightarrow> string \<Rightarrow> string \<Rightarrow> string" where
  "Fingerprint ty nodeID processID clusterID =
    (if requiresProcessID ty then type_text ty @ '':'' @ processID
     else if ty = TypeCPUHigh \<or> ty = TypeMemoryHigh
     then type_text ty @ '':'' @ (if processID = [] then nodeID else processID)
     else if ty = TypeAgentFailed then ''NODE_FAILED:'' @ nodeID
     else if ty = TypeAgentSuspect then ''NODE_SUSPECT:'' @ nodeID
     else if ty = TypeControlNoQuorum then ''CONTROL_NO_QUORUM:'' @ clusterID
     else type_text ty @ '':'' @ nodeID)"

section \<open>The table (store/alert.go)\<close>

record AlertRecord =
  ar_AlertID :: string
  ar_Fingerprint :: string
  ar_Type :: AlertType
  ar_Severity :: Severity
  ar_NodeID :: string
  ar_ProcessID :: string
  ar_PayloadJSON :: string
  ar_State :: AlertState
  ar_FirstAt :: gtime
  ar_LastAt :: gtime
  ar_NotifiedAt :: gtime
  ar_ResolvedAt :: gtime
  ar_LastError :: string

type_synonym AlertTable = "(string, AlertRecord) gomap"

definition GetAlertByFingerprint :: "string \<Rightarrow> AlertTable \<Rightarrow> goerror + AlertRecord" where
  "GetAlertByFingerprint fp tab = (case mget tab fp of None \<Rightarrow> Inl (E NOT_FOUND ''alert'') | Some rec \<Rightarrow> Inr rec)"

definition GetAlert :: "string \<Rightarrow> AlertTable \<Rightarrow> goerror + AlertRecord" where
  "GetAlert alertID tab =
    (case find (\<lambda>rec. ar_AlertID rec = alertID) (mvals tab) of None \<Rightarrow> Inl (E NOT_FOUND ''alert'') | Some rec \<Rightarrow> Inr rec)"

text \<open>The fingerprint is unique, and the identifier is the primary key.\<close>

definition UpsertAlert :: "AlertRecord \<Rightarrow> AlertTable \<Rightarrow> goerror + AlertTable" where
  "UpsertAlert rec tab =
    (if ar_AlertID rec = [] \<or> ar_Fingerprint rec = [] then Inl (E INVALID ''alert_id and fingerprint required'')
     else case mget tab (ar_Fingerprint rec) of
       Some old \<Rightarrow> Inr (mput (ar_Fingerprint rec) (rec\<lparr>ar_AlertID := ar_AlertID old, ar_FirstAt := ar_FirstAt old\<rparr>) tab)
     | None \<Rightarrow>
         if mex (\<lambda>_ r. ar_AlertID r = ar_AlertID rec) tab then Inl (Plain ''upsert alert: alert_id exists'')
         else Inr (mput (ar_Fingerprint rec) rec tab))"

text \<open>Newest first by the text of the time, as for batches; SQL does not fix the order of equal times.\<close>

definition ListAlerts :: "(int \<Rightarrow> string) \<Rightarrow> int \<Rightarrow> AlertState \<Rightarrow> AlertTable \<Rightarrow> AlertRecord list" where
  "ListAlerts second_text limit st tab =
    (let n = (if limit \<le> 0 then 50 else min limit 200);
         rows = filter (\<lambda>rec. st = StateNone \<or> ar_State rec = st) (mvals tab)
     in take (nat n) (rev (sort_key (\<lambda>rec. rfc3339 second_text (ar_LastAt rec)) (rev rows))))"

section \<open>The engine (engine.go)\<close>

datatype 'f payload_value = PayFloat 'f | PayInt int | PayStr string

record 'f AlertEvent =
  ev_Type :: AlertType
  ev_NodeID :: string
  ev_Hostname :: string
  ev_ProcessID :: string
  ev_ProcessName :: string
  ev_ClusterID :: string
  ev_Payload :: "(string, 'f payload_value) gomap"
  ev_At :: gtime
  ev_Firing :: bool

text \<open>A policy or a list of channels that is not configured is \<open>None\<close>; \<open>eg_Marshal\<close> is the encoder of JSON.\<close>

record 'f AlertEngine =
  eg_Policy :: "AlertPolicy option"
  eg_Channels :: "AlertChannel list option"
  eg_HasSender :: bool
  eg_Marshal :: "(string, 'f payload_value) gomap \<Rightarrow> string option"

text \<open>What one observation meets: the new identifier, the answer of each channel, and whether the context ends meanwhile.\<close>

record AlertAnswer =
  aa_NewID :: string
  aa_Send :: "string \<Rightarrow> goerror option"
  aa_Ends :: bool

record AlertSend =
  as_ChannelID :: string
  as_Record :: AlertRecord
  as_Error :: "goerror option"

record AlertRun =
  ax_Table :: AlertTable
  ax_Sent :: "AlertSend list"
  ax_Ended :: bool
  ax_Calls :: nat

definition engine_policy :: "'f AlertEngine \<Rightarrow> AlertPolicy" where
  "engine_policy g = (case eg_Policy g of None \<Rightarrow> DefaultAlertPolicy | Some p \<Rightarrow> p)"

definition engine_channels :: "'f AlertEngine \<Rightarrow> AlertChannel list" where
  "engine_channels g = (case eg_Channels g of None \<Rightarrow> [] | Some cs \<Rightarrow> cs)"

definition marshalPayload :: "'f AlertEngine \<Rightarrow> (string, 'f payload_value) gomap \<Rightarrow> string" where
  "marshalPayload g p = (if p = [] then ''{}'' else case eg_Marshal g p of None \<Rightarrow> ''{}'' | Some b \<Rightarrow> b)"

definition payloadWithDisplayNames ::
    "(string, 'f payload_value) gomap \<Rightarrow> string \<Rightarrow> string \<Rightarrow> (string, 'f payload_value) gomap" where
  "payloadWithDisplayNames payload hostname processName =
    (let p1 = (if hostname \<noteq> [] then mput ''hostname'' (PayStr hostname) payload else payload)
     in if processName \<noteq> [] then mput ''process_name'' (PayStr processName) p1 else p1)"

definition sends_to :: "AlertChannel \<Rightarrow> bool" where
  "sends_to ch \<longleftrightarrow> ac_Enabled ch \<and> ac_Type ch \<noteq> ''WEB''"

text \<open>The error of the last channel that failed.\<close>

definition last_error :: "AlertSend list \<Rightarrow> goerror option" where
  "last_error sent = fold (\<lambda>x acc. if as_Error x = None then acc else as_Error x) sent None"

definition alert_dispatch :: "'f AlertEngine \<Rightarrow> AlertAnswer \<Rightarrow> gtime \<Rightarrow> AlertRecord \<Rightarrow> AlertSend list \<times> AlertRecord" where
  "alert_dispatch g a t rec =
    (let window = al_DedupWindowSec (engine_policy g) * nanos in
     if \<not> eg_HasSender g then ([], rec)
     else if ar_NotifiedAt rec \<noteq> time_zero \<and> t - ar_NotifiedAt rec < window then ([], rec)
     else let sent = map (\<lambda>ch. \<lparr>as_ChannelID = ac_ChannelID ch, as_Record = rec, as_Error = aa_Send a (ac_ChannelID ch)\<rparr>)
                (filter sends_to (engine_channels g))
       in (sent,
         if list_ex (\<lambda>x. as_Error x = None) sent then rec\<lparr>ar_NotifiedAt := t, ar_LastError := []\<rparr>
         else case last_error sent of None \<Rightarrow> rec | Some e \<Rightarrow> rec\<lparr>ar_LastError := err_text e\<rparr>))"

definition new_alert :: "AlertAnswer \<Rightarrow> string \<Rightarrow> 'f AlertEvent \<Rightarrow> AlertRecord" where
  "new_alert a fp ev = \<lparr>ar_AlertID = aa_NewID a, ar_Fingerprint = fp, ar_Type = ev_Type ev, ar_Severity = SevWarning, ar_NodeID = [],
     ar_ProcessID = [], ar_PayloadJSON = [], ar_State = StateNone, ar_FirstAt = ev_At ev, ar_LastAt = time_zero,
     ar_NotifiedAt = time_zero, ar_ResolvedAt = time_zero, ar_LastError = []\<rparr>"

text \<open>The record that follows from an event, and whether it calls for a notification.\<close>

definition observed_record :: "'f AlertEngine \<Rightarrow> 'f AlertEvent \<Rightarrow> AlertRecord \<Rightarrow> bool \<times> AlertRecord" where
  "observed_record g ev rec0 =
    (let rec = rec0\<lparr>ar_Type := ev_Type ev, ar_Severity := DefaultSeverity (ev_Type ev), ar_NodeID := ev_NodeID ev,
           ar_ProcessID := ev_ProcessID ev,
           ar_PayloadJSON := marshalPayload g (payloadWithDisplayNames (ev_Payload ev) (ev_Hostname ev) (ev_ProcessName ev))\<rparr> in
     if ev_Firing ev then (True, rec\<lparr>ar_State := StateFiring, ar_LastAt := ev_At ev, ar_ResolvedAt := time_zero\<rparr>)
     else if ar_State rec = StateResolved then (False, rec\<lparr>ar_LastAt := ev_At ev\<rparr>)
     else (al_NotifyOnResolve (engine_policy g),
           rec\<lparr>ar_State := StateResolved, ar_LastAt := ev_At ev, ar_ResolvedAt := ev_At ev\<rparr>))"

definition ctx_error :: "string \<Rightarrow> goerror" where
  "ctx_error what = Plain (what @ '': context deadline exceeded'')"

definition ObserveAlert :: "'f AlertEngine \<Rightarrow> AlertAnswer \<Rightarrow> 'f AlertEvent \<Rightarrow> AlertRun \<Rightarrow> (goerror + AlertRecord) \<times> AlertRun" where
  "ObserveAlert g a ev r =
    (let fp = Fingerprint (ev_Type ev) (ev_NodeID ev) (ev_ProcessID ev) (ev_ClusterID ev) in
     if requiresProcessID (ev_Type ev) \<and> ev_ProcessID ev = [] then (Inl (E INVALID ''process_id''), r)
     else if ax_Ended r then (Inl (ctx_error ''get alert''), r)
     else let (notify, rec) = observed_record g ev
                (case GetAlertByFingerprint fp (ax_Table r) of Inl _ \<Rightarrow> new_alert a fp ev | Inr old \<Rightarrow> old) in
       case UpsertAlert rec (ax_Table r) of Inl e \<Rightarrow> (Inl e, r)
       | Inr t1 \<Rightarrow>
         if \<not> notify then (Inr rec, r\<lparr>ax_Table := t1\<rparr>)
         else let (sent, rec') = alert_dispatch g a (ev_At ev) rec;
                  r1 = r\<lparr>ax_Table := t1, ax_Sent := ax_Sent r @ sent, ax_Ended := sent \<noteq> [] \<and> aa_Ends a\<rparr>
           in if ax_Ended r1 then (Inl (ctx_error ''upsert alert''), r1)
              else case UpsertAlert rec' t1 of Inl e \<Rightarrow> (Inl e, r1) | Inr t2 \<Rightarrow> (Inr rec', r1\<lparr>ax_Table := t2\<rparr>))"

text \<open>A sequence of observations; the \<open>n\<close>-th one meets the answer \<open>ans n\<close>.\<close>

definition observe_next :: "'f AlertEngine \<Rightarrow> (nat \<Rightarrow> AlertAnswer) \<Rightarrow> 'f AlertEvent \<Rightarrow> AlertRun \<Rightarrow> AlertRun" where
  "observe_next g ans ev r = (snd (ObserveAlert g (ans (ax_Calls r)) ev r))\<lparr>ax_Calls := ax_Calls r + 1\<rparr>"

definition alert_init :: AlertRun where
  "alert_init = \<lparr>ax_Table = [], ax_Sent = [], ax_Ended = False, ax_Calls = 0\<rparr>"

definition observe_all :: "'f AlertEngine \<Rightarrow> (nat \<Rightarrow> AlertAnswer) \<Rightarrow> 'f AlertEvent list \<Rightarrow> AlertRun" where
  "observe_all g ans evs = fold (observe_next g ans) evs alert_init"

section \<open>One observation\<close>

definition event_fp :: "'f AlertEvent \<Rightarrow> string" where
  "event_fp ev = Fingerprint (ev_Type ev) (ev_NodeID ev) (ev_ProcessID ev) (ev_ClusterID ev)"

definition accepted :: "'f AlertEvent \<Rightarrow> bool" where
  "accepted ev \<longleftrightarrow> \<not> (requiresProcessID (ev_Type ev) \<and> ev_ProcessID ev = [])"

text \<open>The record that an accepted event leaves, and what is sent for it.\<close>

definition old_or_new :: "AlertAnswer \<Rightarrow> 'f AlertEvent \<Rightarrow> AlertTable \<Rightarrow> AlertRecord" where
  "old_or_new a ev tab = (case mget tab (event_fp ev) of None \<Rightarrow> new_alert a (event_fp ev) ev | Some old \<Rightarrow> old)"

definition outcome_of :: "'f AlertEngine \<Rightarrow> AlertAnswer \<Rightarrow> 'f AlertEvent \<Rightarrow> AlertTable \<Rightarrow> AlertSend list \<times> AlertRecord" where
  "outcome_of g a ev tab =
    (let (notify, rec) = observed_record g ev (old_or_new a ev tab)
     in if notify then alert_dispatch g a (ev_At ev) rec else ([], rec))"

text \<open>Rows bear their fingerprint, and an identifier that was given before.\<close>

definition table_ok :: "string set \<Rightarrow> AlertTable \<Rightarrow> bool" where
  "table_ok ids tab \<longleftrightarrow> mall (\<lambda>fp rec. ar_Fingerprint rec = fp \<and> ar_AlertID rec \<in> ids \<and> ar_AlertID rec \<noteq> []) tab \<and> wfmap tab"

lemma observed_record_keeps [simp]:
  "ar_AlertID (snd (observed_record g ev rec)) = ar_AlertID rec"
  "ar_Fingerprint (snd (observed_record g ev rec)) = ar_Fingerprint rec"
  "ar_FirstAt (snd (observed_record g ev rec)) = ar_FirstAt rec"
  "ar_NotifiedAt (snd (observed_record g ev rec)) = ar_NotifiedAt rec"
  "ar_LastAt (snd (observed_record g ev rec)) = ev_At ev"
  by (simp_all add: observed_record_def Let_def)

lemma alert_dispatch_keeps [simp]:
  "ar_AlertID (snd (alert_dispatch g a t rec)) = ar_AlertID rec"
  "ar_Fingerprint (snd (alert_dispatch g a t rec)) = ar_Fingerprint rec"
  "ar_FirstAt (snd (alert_dispatch g a t rec)) = ar_FirstAt rec"
  "ar_LastAt (snd (alert_dispatch g a t rec)) = ar_LastAt rec"
  "ar_State (snd (alert_dispatch g a t rec)) = ar_State rec"
  "ar_ResolvedAt (snd (alert_dispatch g a t rec)) = ar_ResolvedAt rec"
  by (simp_all add: alert_dispatch_def Let_def split: option.split)

lemma outcome_keeps [simp]:
  "ar_AlertID (snd (outcome_of g a ev tab)) = ar_AlertID (old_or_new a ev tab)"
  "ar_Fingerprint (snd (outcome_of g a ev tab)) = ar_Fingerprint (old_or_new a ev tab)"
  "ar_FirstAt (snd (outcome_of g a ev tab)) = ar_FirstAt (old_or_new a ev tab)"
  "ar_LastAt (snd (outcome_of g a ev tab)) = ev_At ev"
  by (simp_all add: outcome_of_def case_prod_beta)

lemma old_or_new_ids:
  assumes "table_ok ids tab" and "aa_NewID a \<noteq> []"
  shows "ar_Fingerprint (old_or_new a ev tab) = event_fp ev" and "ar_AlertID (old_or_new a ev tab) \<noteq> []"
    and "ar_AlertID (old_or_new a ev tab) \<in> insert (aa_NewID a) ids"
  using assms unfolding table_ok_def
  by (auto simp: old_or_new_def new_alert_def mall_def split: option.split)

lemma fp_nonempty: "event_fp ev \<noteq> []"
  by (simp add: event_fp_def Fingerprint_def)

lemma UpsertAlert_ok:
  assumes "table_ok ids tab" and "aa_NewID a \<noteq> []" and "aa_NewID a \<notin> ids"
    and "ar_AlertID rec = ar_AlertID (old_or_new a ev tab)" and "ar_Fingerprint rec = event_fp ev"
    and "ar_FirstAt rec = ar_FirstAt (old_or_new a ev tab)"
  shows "UpsertAlert rec tab = Inr (mput (event_fp ev) rec tab)"
proof (cases "mget tab (event_fp ev)")
  case None
  have "\<not> mex (\<lambda>_ r. ar_AlertID r = aa_NewID a) tab"
  proof
    assume "mex (\<lambda>_ r. ar_AlertID r = aa_NewID a) tab"
    then obtain k v where "mget tab k = Some v" "ar_AlertID v = aa_NewID a"
      using assms(1) by (auto simp: table_ok_def mex_iff)
    moreover from assms(1) have "mall (\<lambda>fp rec. ar_Fingerprint rec = fp \<and> ar_AlertID rec \<in> ids \<and> ar_AlertID rec \<noteq> []) tab"
      by (simp add: table_ok_def)
    ultimately have "ar_AlertID v \<in> ids" by (blast dest: mallD)
    with \<open>ar_AlertID v = aa_NewID a\<close> assms(3) show False by simp
  qed
  with None assms(2,4,5) show ?thesis
    by (simp add: UpsertAlert_def fp_nonempty old_or_new_def new_alert_def)
next
  case (Some old)
  have "rec\<lparr>ar_AlertID := ar_AlertID old, ar_FirstAt := ar_FirstAt old\<rparr> = rec"
    using assms(4,6) Some by (simp add: old_or_new_def)
  moreover have "ar_AlertID rec \<noteq> []"
    using old_or_new_ids(2) [OF assms(1,2)] assms(4) by simp
  ultimately show ?thesis using Some assms(5) by (simp add: UpsertAlert_def fp_nonempty)
qed

lemma UpsertAlert_again:
  assumes "mget tab fp = Some old" and "ar_AlertID rec = ar_AlertID old" and "ar_FirstAt rec = ar_FirstAt old"
    and "ar_Fingerprint rec = fp" and "ar_AlertID old \<noteq> []" and "fp \<noteq> []"
  shows "UpsertAlert rec tab = Inr (mput fp rec tab)"
proof -
  have e: "rec\<lparr>ar_AlertID := ar_AlertID old, ar_FirstAt := ar_FirstAt old\<rparr> = rec" using assms(2,3) by simp
  from assms show ?thesis by (simp add: UpsertAlert_def e)
qed

text \<open>An accepted observation while the context lasts.\<close>

lemma Observe_ok:
  assumes ok: "table_ok ids (ax_Table r)" and id: "aa_NewID a \<noteq> []" "aa_NewID a \<notin> ids"
    and "accepted ev" and "\<not> ax_Ended r" and "\<not> aa_Ends a"
  shows "ObserveAlert g a ev r = (Inr (snd (outcome_of g a ev (ax_Table r))),
    r\<lparr>ax_Table := mput (event_fp ev) (snd (outcome_of g a ev (ax_Table r))) (ax_Table r),
      ax_Sent := ax_Sent r @ fst (outcome_of g a ev (ax_Table r))\<rparr>)"
proof -
  let ?old = "old_or_new a ev (ax_Table r)"
  obtain notify rec where o: "observed_record g ev ?old = (notify, rec)" by fastforce
  then have rec: "rec = snd (observed_record g ev ?old)" by simp
  have old: "(case GetAlertByFingerprint (event_fp ev) (ax_Table r) of Inl _ \<Rightarrow> new_alert a (event_fp ev) ev | Inr old \<Rightarrow> old) = ?old"
    by (simp add: GetAlertByFingerprint_def old_or_new_def split: option.split)
  note ids = old_or_new_ids [OF ok id(1), of ev]
  have up: "UpsertAlert rec (ax_Table r) = Inr (mput (event_fp ev) rec (ax_Table r))"
    by (rule UpsertAlert_ok [OF ok id]) (simp_all add: rec ids)
  obtain sent rec' where d: "alert_dispatch g a (ev_At ev) rec = (sent, rec')" by fastforce
  then have rec': "rec' = snd (alert_dispatch g a (ev_At ev) rec)" by simp
  have again: "UpsertAlert rec' (mput (event_fp ev) rec (ax_Table r)) = Inr (mput (event_fp ev) rec' (ax_Table r))"
    using UpsertAlert_again [of "mput (event_fp ev) rec (ax_Table r)" "event_fp ev" rec rec'] ids
    by (simp add: rec' rec fp_nonempty)
  have out: "outcome_of g a ev (ax_Table r) = (if notify then (sent, rec') else ([], rec))"
    by (simp add: outcome_of_def o d)
  have acc: "\<not> (requiresProcessID (ev_Type ev) \<and> ev_ProcessID ev = [])" using assms(4) by (simp add: accepted_def)
  show ?thesis
    unfolding ObserveAlert_def Let_def event_fp_def [symmetric] old o if_not_P [OF acc] if_not_P [OF assms(5)]
    using assms(5,6) by (cases notify) (simp_all add: up again out d)
qed

section \<open>Rows follow the events\<close>

text \<open>What the row of one alert says after each of its events: state, first and last time, and when it was resolved.\<close>

type_synonym AlertRow = "AlertState \<times> gtime \<times> gtime \<times> gtime"

definition row_step :: "'f AlertEvent \<Rightarrow> AlertRow option \<Rightarrow> AlertRow option" where
  "row_step ev row =
    (case row of
       None \<Rightarrow> Some (if ev_Firing ev then (StateFiring, ev_At ev, ev_At ev, time_zero) else (StateResolved, ev_At ev, ev_At ev, ev_At ev))
     | Some (st, first, _, resolved) \<Rightarrow>
         Some (if ev_Firing ev then (StateFiring, first, ev_At ev, time_zero)
               else if st = StateResolved then (st, first, ev_At ev, resolved)
               else (StateResolved, first, ev_At ev, ev_At ev)))"

definition row_of :: "AlertRecord \<Rightarrow> AlertRow" where
  "row_of rec = (ar_State rec, ar_FirstAt rec, ar_LastAt rec, ar_ResolvedAt rec)"

lemma outcome_row: "Some (row_of (snd (outcome_of g a ev tab))) = row_step ev (map_option row_of (mget tab (event_fp ev)))"
  by (simp add: outcome_of_def old_or_new_def observed_record_def new_alert_def row_step_def row_of_def Let_def
      split: option.split)

text \<open>New identifiers that differ, while the context lasts.\<close>

definition good_answers :: "(nat \<Rightarrow> AlertAnswer) \<Rightarrow> nat \<Rightarrow> bool" where
  "good_answers ans n \<longleftrightarrow> distinct (map (\<lambda>i. aa_NewID (ans i)) [0..<n])
     \<and> list_all (\<lambda>i. aa_NewID (ans i) \<noteq> [] \<and> \<not> aa_Ends (ans i)) [0..<n]"

definition ids_of :: "(nat \<Rightarrow> AlertAnswer) \<Rightarrow> nat \<Rightarrow> string set" where
  "ids_of ans n = (\<lambda>i. aa_NewID (ans i)) ` {..<n}"

definition run_ok_after :: "(nat \<Rightarrow> AlertAnswer) \<Rightarrow> nat \<Rightarrow> AlertRun \<Rightarrow> bool" where
  "run_ok_after ans n r \<longleftrightarrow> ax_Calls r = n \<and> \<not> ax_Ended r \<and> table_ok (ids_of ans n) (ax_Table r)"

lemma good_answersD:
  assumes "good_answers ans (Suc n)"
  shows "good_answers ans n" and "aa_NewID (ans n) \<notin> ids_of ans n" and "aa_NewID (ans n) \<noteq> []" and "\<not> aa_Ends (ans n)"
  using assms by (auto simp: good_answers_def ids_of_def atLeast0LessThan)

lemma observe_next_rejected: "\<not> accepted ev \<Longrightarrow> observe_next g ans ev r = r\<lparr>ax_Calls := ax_Calls r + 1\<rparr>"
  by (simp add: observe_next_def ObserveAlert_def accepted_def)

lemma observe_next_ok:
  assumes "run_ok_after ans n r" and "good_answers ans (Suc n)" and "accepted ev"
  shows "observe_next g ans ev r = r\<lparr>ax_Table := mput (event_fp ev) (snd (outcome_of g (ans n) ev (ax_Table r))) (ax_Table r),
      ax_Sent := ax_Sent r @ fst (outcome_of g (ans n) ev (ax_Table r)), ax_Calls := Suc n\<rparr>"
proof -
  note good_answersD [OF assms(2)]
  with assms(1,3) Observe_ok [of "ids_of ans n" r "ans n" ev g] show ?thesis
    by (simp add: observe_next_def run_ok_after_def)
qed

lemma table_ok_mono: "table_ok ids tab \<Longrightarrow> ids \<subseteq> ids' \<Longrightarrow> table_ok ids' tab"
  unfolding table_ok_def by (auto elim: mall_mono)

lemma alert_run_ok_step:
  assumes ok: "run_ok_after ans n r" and good: "good_answers ans (Suc n)"
  shows "run_ok_after ans (Suc n) (observe_next g ans ev r)"
proof (cases "accepted ev")
  case False
  have "ids_of ans n \<subseteq> ids_of ans (Suc n)" by (auto simp: ids_of_def)
  with ok table_ok_mono have "table_ok (ids_of ans (Suc n)) (ax_Table r)" by (auto simp: run_ok_after_def)
  with ok False show ?thesis by (simp add: observe_next_rejected run_ok_after_def)
next
  case True
  have ids: "ids_of ans (Suc n) = insert (aa_NewID (ans n)) (ids_of ans n)" by (auto simp: ids_of_def lessThan_Suc)
  from ok have t: "table_ok (ids_of ans n) (ax_Table r)" by (simp add: run_ok_after_def)
  from old_or_new_ids [OF t good_answersD(3) [OF good], of ev]
  have "table_ok (ids_of ans (Suc n)) (mput (event_fp ev) (snd (outcome_of g (ans n) ev (ax_Table r))) (ax_Table r))"
    using table_ok_mono [OF t, of "ids_of ans (Suc n)"] by (auto simp: table_ok_def ids intro!: mall_mput)
  with ok show ?thesis by (simp add: observe_next_ok [OF ok good True] run_ok_after_def)
qed

lemma run_ok_all: "good_answers ans (length evs) \<Longrightarrow> run_ok_after ans (length evs) (observe_all g ans evs)"
proof (induction evs rule: rev_induct)
  case Nil
  show ?case by (simp add: observe_all_def alert_init_def run_ok_after_def table_ok_def)
next
  case (snoc ev evs)
  from snoc.prems have good: "good_answers ans (Suc (length evs))" by simp
  from alert_run_ok_step [OF snoc.IH [OF good_answersD(1) [OF good]] good] show ?case by (simp add: observe_all_def)
qed

text \<open>
  C21: The table of alerts is what the events say: after any sequence of events, whatever the channels answer, the row of
  every alert is firing exactly when the last event of its fingerprint was firing, it bears the time of the first and of
  the last of these events, and the time at which it was resolved, which repeated resolutions do not move; events of
  process alerts without a process leave no trace, and events of other alerts do not touch it.
\<close>

theorem alert_rows_follow_events:
  assumes "good_answers ans (length evs)"
  shows "map_option row_of (mget (ax_Table (observe_all g ans evs)) fp)
    = fold row_step (filter (\<lambda>ev. accepted ev \<and> event_fp ev = fp) evs) None"
  using assms
proof (induction evs rule: rev_induct)
  case Nil
  show ?case by (simp add: observe_all_def alert_init_def)
next
  case (snoc ev evs)
  from snoc.prems have good: "good_answers ans (Suc (length evs))" by simp
  note IH = snoc.IH [OF good_answersD(1) [OF good]]
  note ok = run_ok_all [OF good_answersD(1) [OF good], of g]
  have step: "observe_all g ans (evs @ [ev]) = observe_next g ans ev (observe_all g ans evs)" by (simp add: observe_all_def)
  show ?case
  proof (cases "accepted ev")
    case False
    with IH show ?thesis by (simp add: step observe_next_rejected)
  next
    case True
    show ?thesis
    proof (cases "event_fp ev = fp")
      case False
      with IH show ?thesis by (simp add: step observe_next_ok [OF ok good True])
    next
      case fp: True
      have "map_option row_of (mget (ax_Table (observe_all g ans (evs @ [ev]))) fp)
          = row_step ev (map_option row_of (mget (ax_Table (observe_all g ans evs)) fp))"
        using outcome_row [of g "ans (length evs)" ev "ax_Table (observe_all g ans evs)"]
        by (simp add: step observe_next_ok [OF ok good True] fp)
      with IH True fp show ?thesis by simp
    qed
  qed
qed

definition wit_alert :: "gtime \<Rightarrow> bool \<Rightarrow> unit AlertEvent" where
  "wit_alert t firing = \<lparr>ev_Type = TypeProcessFatal, ev_NodeID = ''n'', ev_Hostname = [], ev_ProcessID = ''p'', ev_ProcessName = [],
     ev_ClusterID = [], ev_Payload = [], ev_At = t, ev_Firing = firing\<rparr>"

definition wit_engine :: "unit AlertEngine" where
  "wit_engine = \<lparr>eg_Policy = None, eg_Channels = Some [\<lparr>ac_ChannelID = ''c'', ac_Type = ''WEBHOOK'', ac_Name = [], ac_Enabled = True,
     ac_ConfigJSON = [], ac_CreatedUnix = 0, ac_UpdatedUnix = 0\<rparr>], eg_HasSender = True, eg_Marshal = (\<lambda>_. None)\<rparr>"

definition wit_answers :: "nat \<Rightarrow> AlertAnswer" where
  "wit_answers n = \<lparr>aa_NewID = CHR ''a'' # replicate n CHR ''x'', aa_Send = (\<lambda>_. None), aa_Ends = False\<rparr>"

lemma alert_rows_follow_events_witness:
  "map_option row_of (mget (ax_Table (observe_all wit_engine wit_answers
     [wit_alert 10 True, wit_alert 20 True, wit_alert 30 False, wit_alert 40 False])) ''PROCESS_FATAL:p'')
   = Some (StateResolved, 10, 40, 30)"
proof -
  have "good_answers wit_answers (Suc (Suc (Suc (Suc 0))))" by code_simp
  then show ?thesis
    by (subst alert_rows_follow_events)
      (simp_all add: wit_alert_def accepted_def event_fp_def Fingerprint_def requiresProcessID_def row_step_def)
qed

section \<open>Notifications\<close>

definition alert_window :: "'f AlertEngine \<Rightarrow> int" where
  "alert_window g = al_DedupWindowSec (engine_policy g) * nanos"

text \<open>After the successful notification \<open>a\<close>, \<open>b\<close> of the same alert is one of the same time, or comes a window later.\<close>

definition spaced :: "int \<Rightarrow> AlertSend \<Rightarrow> AlertSend \<Rightarrow> bool" where
  "spaced w a b \<longleftrightarrow> as_Error a \<noteq> None \<or> ar_Fingerprint (as_Record a) \<noteq> ar_Fingerprint (as_Record b)
     \<or> ar_LastAt (as_Record b) = ar_LastAt (as_Record a) \<or> w \<le> ar_LastAt (as_Record b) - ar_LastAt (as_Record a)"

definition delivered :: "AlertSend list \<Rightarrow> bool" where
  "delivered sent \<longleftrightarrow> list_ex (\<lambda>x. as_Error x = None) sent"

lemma delivered_some: "delivered sent \<Longrightarrow> sent \<noteq> []"
  by (auto simp: delivered_def)

lemma dispatch_facts:
  assumes "alert_dispatch g a t rec = (sent, rec')"
  shows "x \<in> set sent \<Longrightarrow> as_Record x = rec"
    and "sent \<noteq> [] \<Longrightarrow> ar_NotifiedAt rec = time_zero \<or> alert_window g \<le> t - ar_NotifiedAt rec"
    and "ar_NotifiedAt rec' = (if delivered sent then t else ar_NotifiedAt rec)"
  using assms
  by (auto simp: alert_dispatch_def Let_def alert_window_def delivered_def split: if_splits option.splits)

lemma outcome_facts:
  assumes "outcome_of g a ev tab = (sent, rec')"
  shows "x \<in> set sent \<Longrightarrow> ar_Fingerprint (as_Record x) = ar_Fingerprint (old_or_new a ev tab) \<and> ar_LastAt (as_Record x) = ev_At ev"
    and "sent \<noteq> [] \<Longrightarrow> ar_NotifiedAt (old_or_new a ev tab) = time_zero \<or> alert_window g \<le> ev_At ev - ar_NotifiedAt (old_or_new a ev tab)"
    and "ar_NotifiedAt rec' = (if delivered sent then ev_At ev else ar_NotifiedAt (old_or_new a ev tab))"
proof -
  obtain notify rec where o: "observed_record g ev (old_or_new a ev tab) = (notify, rec)" by fastforce
  then have rec: "rec = snd (observed_record g ev (old_or_new a ev tab))" by simp
  have c: "if notify then alert_dispatch g a (ev_At ev) rec = (sent, rec') else sent = [] \<and> rec' = rec"
    using assms by (cases notify) (simp_all add: outcome_of_def o)
  show "x \<in> set sent \<Longrightarrow> ar_Fingerprint (as_Record x) = ar_Fingerprint (old_or_new a ev tab) \<and> ar_LastAt (as_Record x) = ev_At ev"
    using c dispatch_facts(1) [of g a "ev_At ev" rec sent rec' x] by (cases notify) (simp_all add: rec)
  show "sent \<noteq> [] \<Longrightarrow> ar_NotifiedAt (old_or_new a ev tab) = time_zero \<or> alert_window g \<le> ev_At ev - ar_NotifiedAt (old_or_new a ev tab)"
    using c dispatch_facts(2) [of g a "ev_At ev" rec sent rec'] by (cases notify) (simp_all add: rec)
  show "ar_NotifiedAt rec' = (if delivered sent then ev_At ev else ar_NotifiedAt (old_or_new a ev tab))"
    using c dispatch_facts(3) [of g a "ev_At ev" rec sent rec'] by (cases notify) (simp_all add: rec delivered_def)
qed

text \<open>A delivered notification is remembered in its row.\<close>

definition remembered :: "AlertRun \<Rightarrow> bool" where
  "remembered r \<longleftrightarrow> (\<forall>x \<in> set (ax_Sent r). as_Error x = None \<longrightarrow>
     (case mget (ax_Table r) (ar_Fingerprint (as_Record x)) of None \<Rightarrow> False
      | Some rec \<Rightarrow> ar_NotifiedAt rec \<noteq> time_zero \<and> ar_LastAt (as_Record x) \<le> ar_NotifiedAt rec))"

lemma rememberedD:
  "remembered r \<Longrightarrow> x \<in> set (ax_Sent r) \<Longrightarrow> as_Error x = None \<Longrightarrow> ar_Fingerprint (as_Record x) = event_fp ev \<Longrightarrow>
    ar_NotifiedAt (old_or_new a ev (ax_Table r)) \<noteq> time_zero
      \<and> ar_LastAt (as_Record x) \<le> ar_NotifiedAt (old_or_new a ev (ax_Table r))"
  by (auto simp: remembered_def old_or_new_def split: option.splits)

lemma remembered_step:
  assumes ok: "run_ok_after ans n r" and good: "good_answers ans (Suc n)" and w: "0 \<le> alert_window g"
    and t: "ev_At ev \<noteq> time_zero" and acc: "accepted ev"
    and rem: "remembered r" and sp: "sorted_wrt (spaced (alert_window g)) (ax_Sent r)"
  shows "remembered (observe_next g ans ev r) \<and> sorted_wrt (spaced (alert_window g)) (ax_Sent (observe_next g ans ev r))"
proof -
  let ?old = "old_or_new (ans n) ev (ax_Table r)"
  obtain sent rec where out: "outcome_of g (ans n) ev (ax_Table r) = (sent, rec)" by fastforce
  note f = outcome_facts [OF out]
  from ok have "table_ok (ids_of ans n) (ax_Table r)" by (simp add: run_ok_after_def)
  from old_or_new_ids(1) [OF this good_answersD(3) [OF good]] have fp: "ar_Fingerprint ?old = event_fp ev" .
  note step = observe_next_ok [OF ok good acc, of g, unfolded out, simplified]
  have old: "ar_LastAt (as_Record x) \<le> ar_NotifiedAt rec \<and> ar_NotifiedAt rec \<noteq> time_zero"
    if "x \<in> set (ax_Sent r)" "as_Error x = None" "ar_Fingerprint (as_Record x) = event_fp ev" for x
    using rememberedD [OF rem that, of "ans n"] f(2,3) w t delivered_some [of sent] by (cases "delivered sent") auto
  have new: "ev_At ev \<le> ar_NotifiedAt rec \<and> ar_NotifiedAt rec \<noteq> time_zero" if "x \<in> set sent" "as_Error x = None" for x
    using that f(3) t by (auto simp: delivered_def list_ex_iff)
  have same: "spaced (alert_window g) x y" if "x \<in> set sent" "y \<in> set sent" for x y
    by (simp add: spaced_def f(1) [OF that(1)] f(1) [OF that(2)])
  have "remembered (observe_next g ans ev r)"
    using rem old new f(1) fp unfolding step remembered_def by (auto split: if_splits)
  moreover have "spaced (alert_window g) x y" if x: "x \<in> set (ax_Sent r)" and y: "y \<in> set sent" for x y
  proof (cases "as_Error x = None \<and> ar_Fingerprint (as_Record x) = event_fp ev")
    case True
    from y have "sent \<noteq> []" by auto
    with True rememberedD [OF rem x, of ev "ans n"] f(2) have "alert_window g \<le> ev_At ev - ar_LastAt (as_Record x)" by auto
    with f(1) [OF y] show ?thesis by (simp add: spaced_def)
  next
    case False
    with f(1) [OF y] fp show ?thesis by (auto simp: spaced_def)
  qed
  moreover have "sorted_wrt (spaced (alert_window g)) sent"
    by (simp add: sorted_wrt_iff_nth_less same)
  ultimately show ?thesis using sp by (simp add: step sorted_wrt_append)
qed



text \<open>
  A resolution within the window of the last notification is not notified, and the row is resolved; the resolutions that
  follow are not notified either. As a firing alert is notified again whenever its window is over, the recipients learn of
  a resolution only when it happens to be seen first after the end of a window.
\<close>

lemma resolution_swallowed:
  assumes row: "mget tab (event_fp ev) = Some rec" and "ar_State rec \<noteq> StateResolved" and "\<not> ev_Firing ev"
    and "ar_NotifiedAt rec \<noteq> time_zero" and "ev_At ev - ar_NotifiedAt rec < alert_window g"
  shows "fst (outcome_of g a ev tab) = [] \<and> ar_State (snd (outcome_of g a ev tab)) = StateResolved"
  using assms
  by (auto simp: outcome_of_def old_or_new_def observed_record_def Let_def alert_dispatch_def alert_window_def)

lemma resolved_not_notified:
  assumes "mget tab (event_fp ev) = Some rec" and "ar_State rec = StateResolved" and "\<not> ev_Firing ev"
  shows "fst (outcome_of g a ev tab) = [] \<and> ar_State (snd (outcome_of g a ev tab)) = StateResolved"
  using assms by (simp add: outcome_of_def old_or_new_def observed_record_def Let_def)

text \<open>The default policy, an alert seen every five minutes that fires for an hour: it is resolved, unheard.\<close>

lemma resolution_unheard:
  "let r = observe_all wit_engine wit_answers
       (map (\<lambda>i. wit_alert (int i * 300 * nanos) (i < 11)) [0..<20])
   in map (\<lambda>x. ar_State (as_Record x)) (ax_Sent r) = replicate 6 StateFiring
     \<and> map_option ar_State (mget (ax_Table r) ''PROCESS_FATAL:p'') = Some StateResolved"
  by code_simp

end
