(* ===== verification/Alert_Scan.thy ===== *)
theory Alert_Scan imports Alert_Engine Cluster_Types Process_Types
begin

text \<open>
  What an agent watches (\<^verbatim>\<open>internal/alert/scan.go\<close>, and the snapshots that \<^verbatim>\<open>internal/agent/run.go\<close> gives it): the states
  of its processes, thresholds over the samples of the last minutes, and, on the leader, the other members. What a scan
  observes does not depend on the table of alerts, so a part of a scan is modelled as the list of its steps: an
  observation, with the text that is put before its error, or the error of a query; \<open>run_steps\<close> carries them out and
  stops at the first error. The numbers are \<^verbatim>\<open>float64\<close> values; their comparisons, conversions and the percentage of a total
  are parameters, as not every value compares with itself.
\<close>

section \<open>Data\<close>

record 'f alert_floats =
  fm_ge :: "'f \<Rightarrow> 'f \<Rightarrow> bool"
  fm_lt :: "'f \<Rightarrow> 'f \<Rightarrow> bool"
  fm_of_int :: "int \<Rightarrow> 'f"
  fm_percent :: "'f \<Rightarrow> int \<Rightarrow> 'f"

record 'f MetricSample =
  ms_TSUnix :: int
  ms_Value :: 'f

record ClusterView =
  cv_ClusterID :: string
  cv_Leader :: bool
  cv_Voter :: bool
  cv_HasQuorum :: bool
  cv_LeaderAddr :: string
  cv_LeaderMissingSince :: gtime
  cv_Members :: "NodeSummary list"
  cv_CertNotAfter :: "(string, gtime) gomap"

record ProcessSnap =
  pn_ProcessID :: string
  pn_Name :: string
  pn_Desired :: DesiredState
  pn_Observed :: ObservedState
  pn_Health :: HealthState

record 'f NodeSample =
  nm_CPUPercent :: 'f
  nm_MemoryPercent :: 'f
  nm_DiskPercent :: 'f
  nm_MemoryTotalBytes :: int
  nm_HaveSnapshot :: bool

text \<open>A function that is not configured is \<open>None\<close>. \<open>sc_Samples\<close> answers for a series, a subject and an interval of minutes.\<close>

record 'f Scanner =
  sc_Engine :: "'f AlertEngine"
  sc_NodeID :: string
  sc_Hostname :: string
  sc_ListProcs :: "ProcessSnap list option"
  sc_Samples :: "(string \<Rightarrow> string \<Rightarrow> string \<Rightarrow> int \<Rightarrow> int \<Rightarrow> goerror + 'f MetricSample list) option"
  sc_Snapshot :: "'f NodeSample option"
  sc_ProcCPU :: "(string \<Rightarrow> 'f) option"
  sc_ProcMem :: "(string \<Rightarrow> int) option"
  sc_Degraded :: "bool option"
  sc_Floats :: "'f alert_floats"

datatype 'f ScanStep = ScanObserve string "'f AlertEvent" | ScanFail goerror

definition certExpiringWithin :: int where "certExpiringWithin = 30 * 24 * 3600 * nanos"

definition LayerRawMin :: string where "LayerRawMin = ''raw_min''"
definition SeriesNodeCPU :: string where "SeriesNodeCPU = ''node.cpu_percent''"
definition SeriesNodeMem :: string where "SeriesNodeMem = ''node.memory_percent''"
definition SeriesNodeDisk :: string where "SeriesNodeDisk = ''node.disk_percent''"
definition SeriesProcCPU :: string where "SeriesProcCPU = ''process.cpu_percent''"
definition SeriesProcMem :: string where "SeriesProcMem = ''process.memory_bytes''"

definition MinuteUnix :: "gtime \<Rightarrow> int" where
  "MinuteUnix t = t div (60 * nanos) * 60"

definition event :: "AlertType \<Rightarrow> string \<Rightarrow> gtime \<Rightarrow> bool \<Rightarrow> 'f AlertEvent" where
  "event ty node t firing = \<lparr>ev_Type = ty, ev_NodeID = node, ev_Hostname = [], ev_ProcessID = [], ev_ProcessName = [],
     ev_ClusterID = [], ev_Payload = [], ev_At = t, ev_Firing = firing\<rparr>"

definition scan_policy :: "'f Scanner \<Rightarrow> AlertPolicy" where
  "scan_policy sc = engine_policy (sc_Engine sc)"

definition scan_snapshot :: "'f Scanner \<Rightarrow> 'f NodeSample" where
  "scan_snapshot sc = (case sc_Snapshot sc of Some n \<Rightarrow> n
    | None \<Rightarrow> let z = fm_of_int (sc_Floats sc) 0 in \<lparr>nm_CPUPercent = z, nm_MemoryPercent = z, nm_DiskPercent = z,
        nm_MemoryTotalBytes = 0, nm_HaveSnapshot = False\<rparr>)"

section \<open>Thresholds\<close>

text \<open>The loop over the samples, newest first; \<open>prev\<close> is the minute of the sample before.\<close>

fun consecutive_loop :: "'f alert_floats \<Rightarrow> 'f \<Rightarrow> int \<Rightarrow> bool \<Rightarrow> int \<Rightarrow> int \<Rightarrow> 'f MetricSample list \<Rightarrow> bool" where
  "consecutive_loop fl threshold need below n prev [] = False"
| "consecutive_loop fl threshold need below n prev (pt # pts) =
    (if (if below then fm_ge fl (ms_Value pt) threshold else fm_lt fl (ms_Value pt) threshold) then False
     else if n > 0 \<and> ms_TSUnix pt \<noteq> prev - 60 then False
     else if n + 1 \<ge> need then True
     else consecutive_loop fl threshold need below (n + 1) (ms_TSUnix pt) pts)"

definition consecutiveCmp :: "'f alert_floats \<Rightarrow> 'f MetricSample list \<Rightarrow> 'f \<Rightarrow> int \<Rightarrow> bool \<Rightarrow> bool" where
  "consecutiveCmp fl samples threshold need below = consecutive_loop fl threshold need below 0 0 (rev samples)"

definition consecutiveHigh :: "'f alert_floats \<Rightarrow> 'f MetricSample list \<Rightarrow> 'f \<Rightarrow> int \<Rightarrow> bool" where
  "consecutiveHigh fl samples threshold need = consecutiveCmp fl samples threshold need False"

definition thresholdMet :: "'f alert_floats \<Rightarrow> 'f MetricSample list \<Rightarrow> 'f \<Rightarrow> bool \<Rightarrow> 'f \<Rightarrow> int \<Rightarrow> bool" where
  "thresholdMet fl samples snap haveSnap threshold need =
    (let need = max need 1 in
     if samples = [] then haveSnap \<and> fm_ge fl snap threshold \<and> need \<le> 1
     else consecutiveHigh fl samples threshold need)"

definition thresholdRecovered :: "'f alert_floats \<Rightarrow> 'f MetricSample list \<Rightarrow> 'f \<Rightarrow> bool \<Rightarrow> 'f \<Rightarrow> int \<Rightarrow> bool" where
  "thresholdRecovered fl samples snap haveSnap threshold need =
    (let need = max need 1 in
     haveSnap \<and> fm_lt fl snap threshold \<or> consecutiveCmp fl samples threshold need True)"

datatype threshDecision = threshHold | threshFire | threshResolve

definition thresholdDecision :: "'f alert_floats \<Rightarrow> 'f MetricSample list \<Rightarrow> 'f \<Rightarrow> bool \<Rightarrow> 'f \<Rightarrow> int \<Rightarrow> threshDecision" where
  "thresholdDecision fl samples snap haveSnap threshold need =
    (if thresholdMet fl samples snap haveSnap threshold need then threshFire
     else if thresholdRecovered fl samples snap haveSnap threshold need then threshResolve
     else threshHold)"

definition latest_sample :: "'f alert_floats \<Rightarrow> 'f MetricSample list \<Rightarrow> 'f MetricSample" where
  "latest_sample fl samples = fold (\<lambda>s acc. if ms_TSUnix s > ms_TSUnix acc then s else acc) samples
     \<lparr>ms_TSUnix = 0, ms_Value = fm_of_int fl 0\<rparr>"

definition thresholdContext :: "'f alert_floats \<Rightarrow> 'f MetricSample list \<Rightarrow> 'f \<Rightarrow> bool \<Rightarrow> 'f \<Rightarrow> int \<Rightarrow> (string, 'f payload_value) gomap" where
  "thresholdContext fl samples snap haveSnap threshold need =
    (let payload = [(''threshold_percent'', PayFloat threshold), (''consecutive_minutes'', PayInt need)];
         l = latest_sample fl samples in
     if haveSnap then mput ''current_value_percent'' (PayFloat snap) payload
     else if ms_TSUnix l \<noteq> 0 then mput ''current_value_percent'' (PayFloat (ms_Value l)) payload
     else payload)"

definition loadSamples :: "'f Scanner \<Rightarrow> string \<Rightarrow> string \<Rightarrow> gtime \<Rightarrow> int \<Rightarrow> goerror + 'f MetricSample list" where
  "loadSamples sc series subject t need =
    (case sc_Samples sc of None \<Rightarrow> Inr [] | Some f \<Rightarrow>
       if series = [] \<or> subject = [] then Inr []
       else let need = max need 1; stop = MinuteUnix t; start = stop - need * 60
         in case f series subject LayerRawMin start stop of
           Inl e \<Rightarrow> Inl (Plain (''list metric samples '' @ series @ '' '' @ subject @ '': '' @ err_text e)) | Inr xs \<Rightarrow> Inr xs)"

definition applyThreshold ::
    "'f Scanner \<Rightarrow> AlertType \<Rightarrow> string \<Rightarrow> string \<Rightarrow> 'f MetricSample list \<Rightarrow> 'f \<Rightarrow> bool \<Rightarrow> 'f \<Rightarrow> int \<Rightarrow> gtime \<Rightarrow> 'f ScanStep list" where
  "applyThreshold sc ty processID processName samples snap haveSnap threshold need t =
    (let fl = sc_Floats sc;
         ev = (event ty (sc_NodeID sc) t True)\<lparr>ev_ProcessID := processID, ev_ProcessName := processName,
           ev_Payload := thresholdContext fl samples snap haveSnap threshold need\<rparr>;
         what = ''scan '' @ type_text ty @ '' '' @ processID @ '': ''
     in case thresholdDecision fl samples snap haveSnap threshold need of
       threshHold \<Rightarrow> []
     | threshFire \<Rightarrow> [ScanObserve what ev]
     | threshResolve \<Rightarrow> [ScanObserve what (ev\<lparr>ev_Firing := False\<rparr>)])"

definition evalThreshold ::
    "'f Scanner \<Rightarrow> AlertType \<Rightarrow> string \<Rightarrow> string \<Rightarrow> string \<Rightarrow> string \<Rightarrow> 'f \<Rightarrow> int \<Rightarrow> 'f \<Rightarrow> bool \<Rightarrow> gtime \<Rightarrow> 'f ScanStep list" where
  "evalThreshold sc ty processID processName series subject threshold need snap haveSnap t =
    (case loadSamples sc series subject t need of Inl e \<Rightarrow> [ScanFail e]
     | Inr samples \<Rightarrow> applyThreshold sc ty processID processName samples snap haveSnap threshold need t)"

section \<open>The agent itself\<close>

definition process_conds :: "ProcessSnap \<Rightarrow> (AlertType \<times> bool) list" where
  "process_conds p =
    [(TypeProcessExit, pn_Desired p = DesiredRunning \<and> pn_Observed p = ObservedExited),
     (TypeProcessCrashLoop, pn_Desired p = DesiredRunning \<and> pn_Observed p = ObservedBackoff),
     (TypeProcessFatal, pn_Observed p = ObservedFatal),
     (TypeHealthFailed, pn_Desired p = DesiredRunning \<and> pn_Observed p = ObservedRunning \<and> pn_Health p = HealthUnhealthy)]"

definition process_recovered :: "ProcessSnap \<Rightarrow> bool" where
  "process_recovered p \<longleftrightarrow> pn_Desired p = DesiredRunning \<and> pn_Observed p = ObservedRunning \<and> pn_Health p = HealthHealthy"

definition scanProcessStates :: "'f Scanner \<Rightarrow> ProcessSnap \<Rightarrow> gtime \<Rightarrow> 'f ScanStep list" where
  "scanProcessStates sc p t =
    concat (map (\<lambda>(ty, fire).
      let ev = (event ty (sc_NodeID sc) t fire)\<lparr>ev_ProcessID := pn_ProcessID p, ev_ProcessName := pn_Name p\<rparr> in
      if fire then [ScanObserve (''scan process '' @ pn_ProcessID p @ '' '' @ type_text ty @ '': '') ev]
      else if process_recovered p then [ScanObserve (''resolve process '' @ pn_ProcessID p @ '' '' @ type_text ty @ '': '') ev]
      else []) (process_conds p))"

definition scanProcessThresholds :: "'f Scanner \<Rightarrow> ProcessSnap \<Rightarrow> gtime \<Rightarrow> AlertPolicy \<Rightarrow> 'f NodeSample \<Rightarrow> 'f ScanStep list" where
  "scanProcessThresholds sc p t pol snap =
    (let fl = sc_Floats sc; pid = pn_ProcessID p; need = al_HighConsecutiveMins pol;
         cpuSnap = (case sc_ProcCPU sc of None \<Rightarrow> fm_of_int fl (- 1) | Some f \<Rightarrow> f pid);
         cpu = evalThreshold sc TypeCPUHigh pid (pn_Name p) SeriesProcCPU pid (fm_of_int fl (al_CPUHighPercent pol)) need
           cpuSnap (fm_ge fl cpuSnap (fm_of_int fl 0)) t;
         total = nm_MemoryTotalBytes snap;
         (memSnap, haveMem) = (case sc_ProcMem sc of None \<Rightarrow> (fm_of_int fl (- 1), False)
           | Some f \<Rightarrow> if f pid \<ge> 0 then (fm_percent fl (fm_of_int fl (f pid)) total, True) else (fm_of_int fl (- 1), False))
     in cpu @ (if total \<le> 0 then []
       else case loadSamples sc SeriesProcMem pid t need of Inl e \<Rightarrow> [ScanFail e]
         | Inr samples \<Rightarrow> applyThreshold sc TypeMemoryHigh pid (pn_Name p)
             (map (\<lambda>s. s\<lparr>ms_Value := fm_percent fl (ms_Value s) total\<rparr>) samples) memSnap haveMem
             (fm_of_int fl (al_MemoryHighPercent pol)) need t))"

definition scanProcesses :: "'f Scanner \<Rightarrow> gtime \<Rightarrow> 'f ScanStep list" where
  "scanProcesses sc t =
    (case sc_ListProcs sc of None \<Rightarrow> []
     | Some ps \<Rightarrow> concat (map (\<lambda>p. scanProcessStates sc p t @ scanProcessThresholds sc p t (scan_policy sc) (scan_snapshot sc)) ps))"

definition scanLocalDB :: "'f Scanner \<Rightarrow> gtime \<Rightarrow> 'f ScanStep list" where
  "scanLocalDB sc t = [ScanObserve ''scan local db: '' (event TypeLocalDBError (sc_NodeID sc) t (sc_Degraded sc = Some True))]"

definition scanNodeThresholds :: "'f Scanner \<Rightarrow> gtime \<Rightarrow> 'f ScanStep list" where
  "scanNodeThresholds sc t =
    (let pol = scan_policy sc; snap = scan_snapshot sc; fl = sc_Floats sc; need = al_HighConsecutiveMins pol
     in concat (map (\<lambda>(ty, series, limit, value).
          evalThreshold sc ty [] [] series (sc_NodeID sc) (fm_of_int fl limit) need value (nm_HaveSnapshot snap) t)
        [(TypeCPUHigh, SeriesNodeCPU, al_CPUHighPercent pol, nm_CPUPercent snap),
         (TypeMemoryHigh, SeriesNodeMem, al_MemoryHighPercent pol, nm_MemoryPercent snap),
         (TypeDiskHigh, SeriesNodeDisk, al_DiskHighPercent pol, nm_DiskPercent snap)]))"

section \<open>The other members\<close>

definition member_event :: "AlertType \<Rightarrow> string \<Rightarrow> NodeSummary \<Rightarrow> gtime \<Rightarrow> bool \<Rightarrow> 'f ScanStep" where
  "member_event ty clusterID m t firing =
    ScanObserve [] ((event ty (ns_NodeID m) t firing)\<lparr>ev_Hostname := ns_Hostname m, ev_ClusterID := clusterID\<rparr>)"

definition scanMemberFailed :: "string \<Rightarrow> NodeSummary \<Rightarrow> gtime \<Rightarrow> 'f ScanStep list" where
  "scanMemberFailed clusterID m t =
    (if ns_State m = StateFailed then [member_event TypeAgentFailed clusterID m t True]
     else if ns_State m = StateAlive then [member_event TypeAgentFailed clusterID m t False] else [])"

definition scanMemberSuspect :: "string \<Rightarrow> NodeSummary \<Rightarrow> gtime \<Rightarrow> int \<Rightarrow> 'f ScanStep list" where
  "scanMemberSuspect clusterID m t window =
    (if ns_State m = StateSuspect
     then (if t - ns_LastUpdatedUnixMs m * 1000000 < window then [] else [member_event TypeAgentSuspect clusterID m t True])
     else if ns_State m = StateAlive then [member_event TypeAgentSuspect clusterID m t False] else [])"

definition scanMemberVersion :: "string \<Rightarrow> NodeSummary \<Rightarrow> gtime \<Rightarrow> 'f ScanStep list" where
  "scanMemberVersion clusterID m t =
    (if ns_State m \<noteq> StateAlive then []
     else [member_event TypeVersionMismatch clusterID m t (ns_ProtocolVersion m \<noteq> 0 \<and> ns_ProtocolVersion m \<noteq> 2)])"

definition scanMemberCert :: "string \<Rightarrow> NodeSummary \<Rightarrow> (string, gtime) gomap \<Rightarrow> gtime \<Rightarrow> 'f ScanStep list" where
  "scanMemberCert clusterID m certs t =
    (case mget certs (ns_NodeID m) of None \<Rightarrow> []
     | Some notAfter \<Rightarrow> if notAfter = time_zero then []
         else [member_event TypeCertExpiring clusterID m t (\<not> notAfter > t + certExpiringWithin)])"

definition scanClusterMembers :: "'f Scanner \<Rightarrow> ClusterView \<Rightarrow> gtime \<Rightarrow> 'f ScanStep list" where
  "scanClusterMembers sc view t =
    (let window = al_SuspectTooLongSec (scan_policy sc) * nanos; c = cv_ClusterID view
     in concat (map (\<lambda>m. scanMemberFailed c m t @ scanMemberSuspect c m t window @ scanMemberVersion c m t
          @ scanMemberCert c m (cv_CertNotAfter view) t) (cv_Members view)))"

text \<open>The second result is the new \<^verbatim>\<open>leaderGoneAt\<close>.\<close>

definition scanControlQuorum :: "'f Scanner \<Rightarrow> ClusterView \<Rightarrow> gtime \<Rightarrow> gtime \<Rightarrow> 'f ScanStep list \<times> gtime" where
  "scanControlQuorum sc view t goneAt =
    (let ev = \<lambda>firing. ScanObserve [] ((event TypeControlNoQuorum (sc_NodeID sc) t firing)\<lparr>ev_ClusterID := cv_ClusterID view\<rparr>) in
     if \<not> cv_Voter view then ([], goneAt)
     else if cv_HasQuorum view \<and> cv_LeaderAddr view \<noteq> [] then ([ev False], time_zero)
     else let start = (if goneAt \<noteq> time_zero then goneAt
             else if cv_LeaderMissingSince view \<noteq> time_zero then cv_LeaderMissingSince view else t);
           window = al_SuspectTooLongSec (scan_policy sc) * nanos
       in (if t - start < window then [] else [ev True], start))"

section \<open>A scan\<close>

text \<open>A resolution is observed only when the row is there and not resolved.\<close>

definition scan_observe :: "'f Scanner \<Rightarrow> (nat \<Rightarrow> AlertAnswer) \<Rightarrow> 'f AlertEvent \<Rightarrow> AlertRun \<Rightarrow> goerror option \<times> AlertRun" where
  "scan_observe sc ans ev r =
    (let ev = (if ev_Hostname ev = [] \<and> ev_NodeID ev = sc_NodeID sc then ev\<lparr>ev_Hostname := sc_Hostname sc\<rparr> else ev);
         fp = Fingerprint (ev_Type ev) (ev_NodeID ev) (ev_ProcessID ev) (ev_ClusterID ev);
         observe = (case ObserveAlert (sc_Engine sc) (ans (ax_Calls r)) ev r of
           (res, r') \<Rightarrow> (case res of Inl e \<Rightarrow> Some e | Inr _ \<Rightarrow> None, r'\<lparr>ax_Calls := ax_Calls r + 1\<rparr>))
     in if ev_Firing ev then observe
        else if ax_Ended r then (Some (ctx_error ''get alert''), r)
        else case GetAlertByFingerprint fp (ax_Table r) of
          Inl e \<Rightarrow> (if err_is e NOT_FOUND then None else Some e, r)
        | Inr rec \<Rightarrow> if ar_State rec = StateResolved then (None, r) else observe)"

text \<open>The code of a wrapped error is not looked at again.\<close>

definition with_prefix :: "string \<Rightarrow> goerror \<Rightarrow> goerror" where
  "with_prefix what e = (if what = [] then e else Plain (what @ err_text e))"

fun run_steps :: "'f Scanner \<Rightarrow> (nat \<Rightarrow> AlertAnswer) \<Rightarrow> 'f ScanStep list \<Rightarrow> AlertRun \<Rightarrow> goerror option \<times> AlertRun" where
  "run_steps sc ans [] r = (None, r)"
| "run_steps sc ans (ScanFail e # xs) r = (Some e, r)"
| "run_steps sc ans (ScanObserve what ev # xs) r =
    (case scan_observe sc ans ev r of (Some e, r') \<Rightarrow> (Some (with_prefix what e), r') | (None, r') \<Rightarrow> run_steps sc ans xs r')"

text \<open>Every scan has a context of its own.\<close>

definition ScanLocal :: "'f Scanner \<Rightarrow> (nat \<Rightarrow> AlertAnswer) \<Rightarrow> gtime \<Rightarrow> AlertRun \<Rightarrow> goerror option \<times> AlertRun" where
  "ScanLocal sc ans t r =
    run_steps sc ans (scanProcesses sc t @ scanLocalDB sc t @ scanNodeThresholds sc t) (r\<lparr>ax_Ended := False\<rparr>)"

definition ScanCluster ::
    "'f Scanner \<Rightarrow> (nat \<Rightarrow> AlertAnswer) \<Rightarrow> ClusterView \<Rightarrow> gtime \<Rightarrow> gtime \<times> AlertRun \<Rightarrow> goerror option \<times> gtime \<times> AlertRun" where
  "ScanCluster sc ans view t st =
    (case scanControlQuorum sc view t (fst st) of (quorum, goneAt) \<Rightarrow>
      case run_steps sc ans (quorum @ (if cv_Leader view \<and> cv_HasQuorum view then scanClusterMembers sc view t else []))
        ((snd st)\<lparr>ax_Ended := False\<rparr>) of (res, r) \<Rightarrow> (res, goneAt, r))"

section \<open>The snapshots of the agent (agent/run.go)\<close>

definition instanceFiresAlert :: "Instance \<Rightarrow> bool" where
  "instanceFiresAlert inst =
    (if in_Observed inst = ObservedFatal then True
     else if in_Desired inst \<noteq> DesiredRunning then False
     else if in_Observed inst = ObservedExited \<or> in_Observed inst = ObservedBackoff then True
     else in_Observed inst = ObservedRunning \<and> in_Health inst = HealthUnhealthy)"

definition chosen_instance :: "Instance list \<Rightarrow> Instance" where
  "chosen_instance insts =
    (let chosen = (case find (\<lambda>i. in_Ordinal i = 0) insts of Some i \<Rightarrow> i | None \<Rightarrow> hd insts)
     in case find instanceFiresAlert insts of Some i \<Rightarrow> i | None \<Rightarrow> chosen)"

text \<open>\<open>specs\<close> and \<open>insts\<close> are the answers of the process manager; without it there is no snapshot.\<close>

definition listAlertProcessSnaps :: "(goerror + ProcessSpec list) option \<Rightarrow> (string \<Rightarrow> goerror + Instance list) \<Rightarrow> ProcessSnap list" where
  "listAlertProcessSnaps specs insts =
    (case specs of Some (Inr ss) \<Rightarrow>
       concat (map (\<lambda>spec. case insts (ProcessSpec.ps_ProcessID spec) of Inl _ \<Rightarrow> []
         | Inr is \<Rightarrow> if is = [] then []
             else let c = chosen_instance is in
               [\<lparr>pn_ProcessID = ProcessSpec.ps_ProcessID spec, pn_Name = ProcessSpec.ps_Name spec, pn_Desired = in_Desired c,
                 pn_Observed = in_Observed c, pn_Health = in_Health c\<rparr>]) ss)
     | _ \<Rightarrow> [])"

section \<open>Thresholds, stated over the samples\<close>

text \<open>The last \<open>k\<close> samples are all on the side, minute after minute.\<close>

definition steady :: "('f MetricSample \<Rightarrow> bool) \<Rightarrow> nat \<Rightarrow> 'f MetricSample list \<Rightarrow> bool" where
  "steady side k samples \<longleftrightarrow> k \<le> length samples
     \<and> (let recent = drop (length samples - k) samples
        in list_all side recent \<and> successively (\<lambda>a b. ms_TSUnix b = ms_TSUnix a + 60) recent)"

lemma steady_rev:
  "steady side k (rev xs) \<longleftrightarrow> k \<le> length xs \<and> list_all side (take k xs)
     \<and> successively (\<lambda>a b. ms_TSUnix b = ms_TSUnix a - 60) (take k xs)"
proof -
  have "drop (length (rev xs) - k) (rev xs) = rev (take k xs)" by (simp add: rev_take)
  then show ?thesis
    unfolding steady_def Let_def by (auto simp: successively_rev algebra_simps elim: successively_mono)
qed

lemma consecutive_loop_steady:
  assumes "0 \<le> n" and "need = n + int k" and "0 < k"
  shows "consecutive_loop fl threshold need below n prev xs \<longleftrightarrow>
    k \<le> length xs
    \<and> list_all (\<lambda>s. \<not> (if below then fm_ge fl (ms_Value s) threshold else fm_lt fl (ms_Value s) threshold)) (take k xs)
    \<and> successively (\<lambda>a b. ms_TSUnix b = ms_TSUnix a - 60) (take k xs)
    \<and> (n = 0 \<or> ms_TSUnix (hd xs) = prev - 60)"
  using assms
proof (induction xs arbitrary: n k prev)
  case Nil
  then show ?case by simp
next
  case (Cons x xs)
  obtain j where k: "k = Suc j" using Cons.prems(3) by (cases k) auto
  show ?case
  proof (cases "j = 0")
    case True
    with k Cons.prems show ?thesis by auto
  next
    case False
    have next_: "consecutive_loop fl threshold need below (n + 1) (ms_TSUnix x) xs \<longleftrightarrow>
        j \<le> length xs
        \<and> list_all (\<lambda>s. \<not> (if below then fm_ge fl (ms_Value s) threshold else fm_lt fl (ms_Value s) threshold)) (take j xs)
        \<and> successively (\<lambda>a b. ms_TSUnix b = ms_TSUnix a - 60) (take j xs) \<and> ms_TSUnix (hd xs) = ms_TSUnix x - 60"
      using Cons.IH [of "n + 1" j "ms_TSUnix x"] Cons.prems k False by simp
    have more: "\<not> need \<le> n + 1" using Cons.prems k False by simp
    let ?bad = "if below then fm_ge fl (ms_Value x) threshold else fm_lt fl (ms_Value x) threshold"
    have loop: "consecutive_loop fl threshold need below n prev (x # xs) \<longleftrightarrow>
        \<not> ?bad \<and> (n = 0 \<or> ms_TSUnix x = prev - 60) \<and> consecutive_loop fl threshold need below (n + 1) (ms_TSUnix x) xs"
      using more Cons.prems(1) by simp
    show ?thesis
    proof (cases xs)
      case Nil
      then show ?thesis unfolding loop next_ using k False by simp
    next
      case xs: (Cons y ys)
      obtain i where j: "j = Suc i" using False by (cases j) auto
      show ?thesis unfolding loop next_ by (simp add: k j xs) blast
    qed
  qed
qed

lemma consecutiveCmp_steady:
  "1 \<le> need \<Longrightarrow> consecutiveCmp fl samples threshold need below \<longleftrightarrow>
    steady (\<lambda>s. \<not> (if below then fm_ge fl (ms_Value s) threshold else fm_lt fl (ms_Value s) threshold)) (nat need) samples"
  using consecutive_loop_steady [of 0 need "nat need" fl threshold below 0 "rev samples"]
    steady_rev [of "\<lambda>s. \<not> (if below then fm_ge fl (ms_Value s) threshold else fm_lt fl (ms_Value s) threshold)" "nat need" "rev samples"]
  by (simp add: consecutiveCmp_def)

lemma steady_Nil [simp]: "0 < k \<Longrightarrow> \<not> steady side k []"
  by (simp add: steady_def)

text \<open>
  A threshold alert fires exactly when the last minutes, as many as the policy asks for and at least one, are there
  without a gap and none is below the threshold, or when there are no samples at all, one minute is enough and the
  current value reaches it; otherwise it is resolved when the current value is below, or when as many minutes without a
  gap did not reach it; otherwise it stays as it is.
\<close>

theorem threshold_decision_exact:
  "thresholdDecision fl samples snap haveSnap threshold need =
    (let k = nat (max need 1) in
     if steady (\<lambda>s. \<not> fm_lt fl (ms_Value s) threshold) k samples
        \<or> samples = [] \<and> k = 1 \<and> haveSnap \<and> fm_ge fl snap threshold then threshFire
     else if haveSnap \<and> fm_lt fl snap threshold \<or> steady (\<lambda>s. \<not> fm_ge fl (ms_Value s) threshold) k samples then threshResolve
     else threshHold)"
proof -
  have k: "0 < nat (max need 1)" by simp
  have one: "(max need 1 \<le> 1) = (nat (max need 1) = 1)" by auto
  show ?thesis
    unfolding thresholdDecision_def thresholdMet_def thresholdRecovered_def consecutiveHigh_def Let_def
      consecutiveCmp_steady [OF max.cobounded2] one
    using k by (cases "samples = []") auto
qed

section \<open>What a scan does to the table\<close>

definition keyed :: "AlertTable \<Rightarrow> bool" where
  "keyed tab \<longleftrightarrow> mall (\<lambda>fp rec. ar_Fingerprint rec = fp) tab"

definition state_step :: "bool \<Rightarrow> AlertState option \<Rightarrow> AlertState option" where
  "state_step firing st = (if firing then Some StateFiring else map_option (\<lambda>_. StateResolved) st)"

definition alert_state :: "AlertRun \<Rightarrow> string \<Rightarrow> AlertState option" where
  "alert_state r fp = map_option ar_State (mget (ax_Table r) fp)"

lemma UpsertAlert_effect:
  assumes "UpsertAlert rec tab = Inr tab'"
  obtains rec' where "tab' = mput (ar_Fingerprint rec) rec' tab" "ar_State rec' = ar_State rec" "ar_Fingerprint rec' = ar_Fingerprint rec"
  using assms by (auto simp: UpsertAlert_def split: if_splits option.splits)

lemma observed_record_state:
  "observed_record g ev rec0 = (notify, rec) \<Longrightarrow>
    ar_State rec = (if ev_Firing ev then StateFiring else StateResolved) \<and> ar_Fingerprint rec = ar_Fingerprint rec0"
  by (auto simp: observed_record_def Let_def split: if_splits)

lemma Observe_effect:
  assumes "ObserveAlert g a ev r = (Inr x, r')" and "keyed (ax_Table r)"
  obtains rec where "ax_Table r' = mput (event_fp ev) rec (ax_Table r)" "ar_Fingerprint rec = event_fp ev"
    "ar_State rec = (if ev_Firing ev then StateFiring else StateResolved)"
proof -
  let ?old = "case GetAlertByFingerprint (event_fp ev) (ax_Table r) of Inl _ \<Rightarrow> new_alert a (event_fp ev) ev | Inr old \<Rightarrow> old"
  obtain notify rec where o: "observed_record g ev ?old = (notify, rec)" by fastforce
  have "ar_Fingerprint ?old = event_fp ev"
    using assms(2) by (auto simp: GetAlertByFingerprint_def new_alert_def keyed_def dest: mallD split: option.split)
  with observed_record_state [OF o] have rec: "ar_State rec = (if ev_Firing ev then StateFiring else StateResolved)"
    "ar_Fingerprint rec = event_fp ev" by simp_all
  obtain sent rec' where d: "alert_dispatch g a (ev_At ev) rec = (sent, rec')" by fastforce
  with rec alert_dispatch_keeps(2,5) [of g a "ev_At ev" rec]
  have rec': "ar_State rec' = ar_State rec" "ar_Fingerprint rec' = event_fp ev" by simp_all
  from assms(1) obtain t1 where t1: "UpsertAlert rec (ax_Table r) = Inr t1"
    and r': "ax_Table r' = t1 \<or> UpsertAlert rec' t1 = Inr (ax_Table r')"
    unfolding ObserveAlert_def Let_def event_fp_def [symmetric] o d
    by (auto simp: o d split: if_splits sum.splits)
  from t1 obtain u where u: "t1 = mput (event_fp ev) u (ax_Table r)" "ar_State u = ar_State rec" "ar_Fingerprint u = event_fp ev"
    using UpsertAlert_effect [OF t1] rec by metis
  from r' show ?thesis
  proof
    assume "ax_Table r' = t1"
    with u rec show ?thesis by (intro that [of u]) simp_all
  next
    assume up: "UpsertAlert rec' t1 = Inr (ax_Table r')"
    from UpsertAlert_effect [OF up] obtain v where "ax_Table r' = mput (event_fp ev) v t1"
      "ar_State v = ar_State rec'" "ar_Fingerprint v = event_fp ev" unfolding rec' by metis
    with u rec rec' show ?thesis by (intro that [of v]) simp_all
  qed
qed

lemma Observe_done:
  assumes "(case ObserveAlert g a ev r of (res, r1) \<Rightarrow> (case res of Inl e \<Rightarrow> Some e | Inr _ \<Rightarrow> None, r1\<lparr>ax_Calls := n\<rparr>)) = (None, r')"
  shows "\<exists>x r1. ObserveAlert g a ev r = (Inr x, r1) \<and> r' = r1\<lparr>ax_Calls := n\<rparr>"
  using assms by (cases "fst (ObserveAlert g a ev r)"; cases "ObserveAlert g a ev r") auto

lemma scan_observe_effect:
  assumes "scan_observe sc ans ev r = (None, r')" and k: "keyed (ax_Table r)"
  shows "keyed (ax_Table r') \<and> alert_state r' fp = (if fp = event_fp ev then state_step (ev_Firing ev) (alert_state r fp) else alert_state r fp)"
proof -
  let ?ev = "if ev_Hostname ev = [] \<and> ev_NodeID ev = sc_NodeID sc then ev\<lparr>ev_Hostname := sc_Hostname sc\<rparr> else ev"
  have same: "event_fp ?ev = event_fp ev" "ev_Firing ?ev = ev_Firing ev" by (simp_all add: event_fp_def)
  consider (skip) "r' = r" "\<not> ev_Firing ev" "alert_state r (event_fp ev) \<in> {None, Some StateResolved}"
    | (obs) x r1 where "ObserveAlert (sc_Engine sc) (ans (ax_Calls r)) ?ev r = (Inr x, r1)" "r' = r1\<lparr>ax_Calls := ax_Calls r + 1\<rparr>"
        "ev_Firing ev \<or> alert_state r (event_fp ev) \<noteq> None"
  proof -
    let ?obs = "case ObserveAlert (sc_Engine sc) (ans (ax_Calls r)) ?ev r of
        (res, r1) \<Rightarrow> (case res of Inl e \<Rightarrow> Some e | Inr _ \<Rightarrow> None, r1\<lparr>ax_Calls := ax_Calls r + 1\<rparr>)"
    have eq: "scan_observe sc ans ev r = (if ev_Firing ev then ?obs else if ax_Ended r then (Some (ctx_error ''get alert''), r)
        else case mget (ax_Table r) (event_fp ev) of None \<Rightarrow> (None, r)
          | Some rec \<Rightarrow> if ar_State rec = StateResolved then (None, r) else ?obs)"
      unfolding scan_observe_def Let_def event_fp_def [symmetric] same
      by (simp add: GetAlertByFingerprint_def split: option.split)
    show thesis
    proof (cases "(ev_Firing ev \<or> alert_state r (event_fp ev) \<noteq> None) \<and> ?obs = (None, r')")
      case True
      with Observe_done [OF conjunct2 [OF True]] obs show thesis by blast
    next
      case False
      with assms(1) have "r' = r \<and> \<not> ev_Firing ev \<and> alert_state r (event_fp ev) \<in> {None, Some StateResolved}"
        unfolding eq alert_state_def by (cases "mget (ax_Table r) (event_fp ev)") (auto split: if_splits)
      with skip show thesis by blast
    qed
  qed
  then show ?thesis
  proof cases
    case skip
    with k show ?thesis by (auto simp: state_step_def)
  next
    case obs
    from Observe_effect [OF obs(1) k] obtain rec where "ax_Table r1 = mput (event_fp ev) rec (ax_Table r)"
      "ar_Fingerprint rec = event_fp ev" "ar_State rec = (if ev_Firing ev then StateFiring else StateResolved)"
      unfolding same by metis
    moreover from this(1,2) k have "keyed (ax_Table r1)" by (simp add: keyed_def mall_mput)
    ultimately show ?thesis
      using obs(2,3) by (auto simp: alert_state_def state_step_def)
  qed
qed

fun observed_events :: "'f ScanStep list \<Rightarrow> 'f AlertEvent list" where
  "observed_events [] = []"
| "observed_events (ScanFail e # xs) = observed_events xs"
| "observed_events (ScanObserve what ev # xs) = ev # observed_events xs"

lemma observed_events_append [simp]: "observed_events (xs @ ys) = observed_events xs @ observed_events ys"
  by (induction xs rule: observed_events.induct) simp_all

definition events_at :: "string \<Rightarrow> 'f ScanStep list \<Rightarrow> bool list" where
  "events_at fp xs = map ev_Firing (filter (\<lambda>ev. event_fp ev = fp) (observed_events xs))"

lemma events_at_simps [simp]:
  "events_at fp [] = []"
  "events_at fp (xs @ ys) = events_at fp xs @ events_at fp ys"
  "events_at fp (ScanObserve what ev # xs) = (if event_fp ev = fp then [ev_Firing ev] else []) @ events_at fp xs"
  by (simp_all add: events_at_def)

lemma events_at_concat [simp]: "events_at fp (concat xss) = concat (map (events_at fp) xss)"
  by (induction xss) simp_all

text \<open>A scan without error applies its observations, each to its own row.\<close>

lemma run_steps_effect:
  "run_steps sc ans xs r = (None, r') \<Longrightarrow> keyed (ax_Table r) \<Longrightarrow> alert_state r' fp = fold state_step (events_at fp xs) (alert_state r fp)"
proof (induction xs arbitrary: r)
  case (Cons x xs)
  then obtain what ev where x: "x = ScanObserve what ev" by (cases x) simp_all
  with Cons.prems obtain r1 where o: "scan_observe sc ans ev r = (None, r1)" and run: "run_steps sc ans xs r1 = (None, r')"
    by (auto split: prod.splits option.splits)
  from scan_observe_effect [OF o Cons.prems(2)]
  have k: "keyed (ax_Table r1)" and s: "alert_state r1 fp = (if fp = event_fp ev then state_step (ev_Firing ev) (alert_state r fp) else alert_state r fp)"
    by auto
  from Cons.IH [OF run k] s x show ?case by auto
qed simp

text \<open>The type can be read off the fingerprint, up to the colon.\<close>

lemma fp_type:
  "ev_Type ev \<notin> {TypeAgentFailed, TypeAgentSuspect} \<Longrightarrow> takeWhile (\<lambda>c. c \<noteq> CHR '':'') (event_fp ev) = type_text (ev_Type ev)"
  by (cases "ev_Type ev") (simp_all add: event_fp_def Fingerprint_def requiresProcessID_def)

lemma fp_other_type:
  assumes "requiresProcessID ty" and "ev_Type ev \<in> {TypeCPUHigh, TypeMemoryHigh, TypeDiskHigh, TypeLocalDBError}"
  shows "event_fp ev \<noteq> type_text ty @ '':'' @ pid"
proof
  assume "event_fp ev = type_text ty @ '':'' @ pid"
  then have "takeWhile (\<lambda>c. c \<noteq> CHR '':'') (event_fp ev) = takeWhile (\<lambda>c. c \<noteq> CHR '':'') (type_text ty @ '':'' @ pid)" by simp
  with assms fp_type [of ev] show False by (cases ty) (auto simp: requiresProcessID_def)
qed

lemma fp_process:
  assumes "requiresProcessID ty" and "requiresProcessID ty'"
  shows "type_text ty' @ '':'' @ pid' = type_text ty @ '':'' @ pid \<longleftrightarrow> ty' = ty \<and> pid' = pid"
  using assms by (auto simp: requiresProcessID_def)

lemma threshold_types:
  "ev \<in> set (observed_events (evalThreshold sc ty pid name series subject threshold need snap have t)) \<Longrightarrow> ev_Type ev = ty"
  "ev \<in> set (observed_events (applyThreshold sc ty pid name samples snap have threshold need t)) \<Longrightarrow> ev_Type ev = ty"
  by (auto simp: evalThreshold_def applyThreshold_def event_def Let_def split: sum.splits threshDecision.splits)

lemma no_process_events:
  assumes "requiresProcessID ty"
    and "\<And>ev. ev \<in> set (observed_events xs) \<Longrightarrow> ev_Type ev \<in> {TypeCPUHigh, TypeMemoryHigh, TypeDiskHigh, TypeLocalDBError}"
  shows "events_at (type_text ty @ '':'' @ pid) xs = []"
  using fp_other_type [OF assms(1) assms(2)] unfolding events_at_def by (simp add: filter_empty_conv)

lemma other_parts:
  assumes "requiresProcessID ty"
  shows "events_at (type_text ty @ '':'' @ pid) (scanProcessThresholds sc p t pol snap) = []"
    and "events_at (type_text ty @ '':'' @ pid) (scanLocalDB sc t) = []"
    and "events_at (type_text ty @ '':'' @ pid) (scanNodeThresholds sc t) = []"
  by (rule no_process_events [OF assms];
      auto simp: scanProcessThresholds_def scanLocalDB_def scanNodeThresholds_def event_def Let_def
        dest: threshold_types split: if_splits sum.splits option.splits prod.splits)+

lemma events_at_cond:
  assumes "requiresProcessID ty" and "requiresProcessID ty'"
  shows "events_at (type_text ty @ '':'' @ q)
      (let ev = (event ty' node t fire)\<lparr>ev_ProcessID := pid, ev_ProcessName := name\<rparr> in
       if fire then [ScanObserve what ev] else if recov then [ScanObserve what' ev] else [])
    = (if ty' = ty \<and> pid = q then (if fire then [True] else if recov then [False] else []) else [])"
proof -
  have fp: "event_fp ((event ty' node t fire)\<lparr>ev_ProcessID := pid, ev_ProcessName := name\<rparr>) = type_text ty' @ '':'' @ pid"
    using assms(2) by (simp add: event_fp_def event_def Fingerprint_def)
  have firing: "ev_Firing ((event ty' node t fire)\<lparr>ev_ProcessID := pid, ev_ProcessName := name\<rparr>) = fire"
    by (simp add: event_def)
  show ?thesis unfolding Let_def by (simp only: events_at_simps fp firing fp_process [OF assms] split: if_split) simp
qed

lemma events_at_states:
  assumes "(ty, fire) \<in> set (process_conds p)"
  shows "events_at (type_text ty @ '':'' @ q) (scanProcessStates sc p t)
      = (if pn_ProcessID p = q then (if fire then [True] else if process_recovered p then [False] else []) else [])"
proof -
  have req: "requiresProcessID ty" using assms by (auto simp: process_conds_def requiresProcessID_def)
  obtain a b c d where conds: "process_conds p = [(TypeProcessExit, a), (TypeProcessCrashLoop, b), (TypeProcessFatal, c), (TypeHealthFailed, d)]"
    by (simp add: process_conds_def)
  have r: "requiresProcessID TypeProcessExit" "requiresProcessID TypeProcessCrashLoop" "requiresProcessID TypeProcessFatal"
    "requiresProcessID TypeHealthFailed" by (simp_all add: requiresProcessID_def)
  have "events_at (type_text ty @ '':'' @ q) (scanProcessStates sc p t) = concat (map (\<lambda>(ty', fire').
      if ty' = ty \<and> pn_ProcessID p = q then (if fire' then [True] else if process_recovered p then [False] else []) else []) (process_conds p))"
    unfolding scanProcessStates_def events_at_concat conds
    by (simp only: list.map prod.case events_at_cond [OF req r(1)] events_at_cond [OF req r(2)] events_at_cond [OF req r(3)]
      events_at_cond [OF req r(4)])
  with assms show ?thesis unfolding conds by auto
qed

lemma process_conds_types: "(ty, fire) \<in> set (process_conds p) \<Longrightarrow> requiresProcessID ty \<and> (\<exists>fire'. (ty, fire') \<in> set (process_conds q))"
  by (auto simp: process_conds_def requiresProcessID_def)

lemma events_at_scan:
  assumes "sc_ListProcs sc = Some ps" and "distinct (map pn_ProcessID ps)" and "p \<in> set ps" and c: "(ty, fire) \<in> set (process_conds p)"
  shows "events_at (type_text ty @ '':'' @ pn_ProcessID p) (scanProcesses sc t @ scanLocalDB sc t @ scanNodeThresholds sc t)
      = (if fire then [True] else if process_recovered p then [False] else [])"
proof -
  define fp where "fp = type_text ty @ '':'' @ pn_ProcessID p"
  have req: "requiresProcessID ty" using process_conds_types [OF c] by blast
  obtain us vs where ps: "ps = us @ p # vs" using assms(3) by (auto simp: in_set_conv_decomp)
  have other: "events_at fp (scanProcessStates sc q t) = []" if "q \<in> set us \<union> set vs" for q
  proof -
    from assms(2) ps have "pn_ProcessID p \<notin> pn_ProcessID ` (set us \<union> set vs)" by auto
    with imageI [OF that, of pn_ProcessID] have ne: "pn_ProcessID q \<noteq> pn_ProcessID p" by metis
    from process_conds_types [OF c] obtain f where "(ty, f) \<in> set (process_conds q)" by blast
    from events_at_states [OF this, of "pn_ProcessID p" sc t] ne show ?thesis by (simp only: fp_def if_False)
  qed
  have nil: "concat (map (\<lambda>q. events_at fp (scanProcessStates sc q t)) qs) = []" if "set qs \<subseteq> set us \<union> set vs" for qs
    using that other by (auto simp: concat_eq_Nil_conv)
  note rest = other_parts [OF req, of "pn_ProcessID p", folded fp_def]
  show ?thesis
    unfolding fp_def [symmetric] using events_at_states [OF c, of "pn_ProcessID p" sc t, folded fp_def] nil [of us] nil [of vs]
    by (simp add: scanProcesses_def assms(1) ps rest comp_def del: concat_eq_Nil_conv)
qed

text \<open>
  C32: A scan of an agent that meets no error leaves every process alert as the process is: crashed, in the restart
  back-off, given up or unhealthy, the alert is firing; running and healthy as desired, every alert that was raised before
  is resolved and none appears; otherwise, and so for a process that was stopped, the alert stays as it was. This holds
  for each of the four alerts of each process, whatever the other processes, the thresholds and the channels do.
\<close>

theorem process_alerts_exact:
  assumes "sc_ListProcs sc = Some ps" and "distinct (map pn_ProcessID ps)" and "p \<in> set ps"
    and "(ty, fire) \<in> set (process_conds p)"
    and "keyed (ax_Table r)" and "ScanLocal sc ans t r = (None, r')"
  shows "alert_state r' (type_text ty @ '':'' @ pn_ProcessID p) =
    (if fire then Some StateFiring
     else if process_recovered p then map_option (\<lambda>_. StateResolved) (alert_state r (type_text ty @ '':'' @ pn_ProcessID p))
     else alert_state r (type_text ty @ '':'' @ pn_ProcessID p))"
proof -
  from assms(5) have "keyed (ax_Table (r\<lparr>ax_Ended := False\<rparr>))" by simp
  from run_steps_effect [OF assms(6) [unfolded ScanLocal_def] this, of "type_text ty @ '':'' @ pn_ProcessID p"]
  show ?thesis unfolding events_at_scan [OF assms(1-4)] by (simp add: alert_state_def state_step_def)
qed

definition wit_floats :: "int alert_floats" where
  "wit_floats = \<lparr>fm_ge = (\<lambda>a b. b \<le> a), fm_lt = (\<lambda>a b. a < b), fm_of_int = (\<lambda>i. i), fm_percent = (\<lambda>b n. b * 100 div n)\<rparr>"

definition wit_scanner :: "string list \<Rightarrow> int Scanner" where
  "wit_scanner pids = \<lparr>sc_Engine = \<lparr>eg_Policy = None, eg_Channels = eg_Channels wit_engine, eg_HasSender = True, eg_Marshal = (\<lambda>_. None)\<rparr>,
     sc_NodeID = ''n'', sc_Hostname = ''h'',
     sc_ListProcs = Some (map (\<lambda>i. \<lparr>pn_ProcessID = i, pn_Name = i, pn_Desired = DesiredRunning, pn_Observed = ObservedFatal,
       pn_Health = HealthUnknown\<rparr>) pids),
     sc_Samples = None, sc_Snapshot = None, sc_ProcCPU = None, sc_ProcMem = None, sc_Degraded = None, sc_Floats = wit_floats\<rparr>"

lemma process_alerts_exact_witness:
  "alert_state (snd (ScanLocal (wit_scanner [''p'', ''q'']) wit_answers nanos alert_init)) ''PROCESS_FATAL:q'' = Some StateFiring"
proof -
  let ?q = "\<lparr>pn_ProcessID = ''q'', pn_Name = ''q'', pn_Desired = DesiredRunning, pn_Observed = ObservedFatal, pn_Health = HealthUnknown\<rparr>"
  have "fst (ScanLocal (wit_scanner [''p'', ''q'']) wit_answers nanos alert_init) = None" by code_simp
  then have run: "ScanLocal (wit_scanner [''p'', ''q'']) wit_answers nanos alert_init
      = (None, snd (ScanLocal (wit_scanner [''p'', ''q'']) wit_answers nanos alert_init))" by (simp add: prod_eq_iff)
  have ps: "sc_ListProcs (wit_scanner [''p'', ''q'']) = Some [\<lparr>pn_ProcessID = ''p'', pn_Name = ''p'', pn_Desired = DesiredRunning,
      pn_Observed = ObservedFatal, pn_Health = HealthUnknown\<rparr>, ?q]" by (simp add: wit_scanner_def)
  have "(TypeProcessFatal, True) \<in> set (process_conds ?q)" by (simp add: process_conds_def)
  from process_alerts_exact [OF ps _ _ this _ run] show ?thesis by (simp add: keyed_def alert_init_def)
qed

section \<open>A channel that hangs\<close>

text \<open>
  The context of a scan ends while the channel of the first alert hangs: the scan stops there, the alert of the second
  process never reaches the table, and as the attempt is not recorded, the next scan begins with the same channel again.
\<close>

lemma hanging_channel_starves:
  "let hang = (\<lambda>n. (wit_answers n)\<lparr>aa_Send := (\<lambda>_. Some (Plain ''timeout'')), aa_Ends := True\<rparr>);
       scan = (\<lambda>t r. snd (ScanLocal (wit_scanner [''p'', ''q'']) hang t r));
       r = scan (45 * nanos) (scan (30 * nanos) (scan (15 * nanos) alert_init))
   in map fst (ax_Table r) = [''PROCESS_FATAL:p'']
     \<and> map (\<lambda>x. ar_Fingerprint (as_Record x)) (ax_Sent r) = replicate 3 ''PROCESS_FATAL:p''
     \<and> map_option ar_LastError (mget (ax_Table r) ''PROCESS_FATAL:p'') = Some []"
  by code_simp

section \<open>Which instance stands for a process\<close>

lemma chosen_instance_fires:
  "insts \<noteq> [] \<Longrightarrow> chosen_instance insts \<in> set insts
    \<and> (instanceFiresAlert (chosen_instance insts) \<longleftrightarrow> list_ex instanceFiresAlert insts)"
  unfolding chosen_instance_def Let_def
  by (auto simp: list_ex_iff find_None_iff find_Some_iff split: option.split)

text \<open>An instance fires exactly when one of the four conditions holds of its snapshot.\<close>

lemma instance_conditions:
  "instanceFiresAlert i \<longleftrightarrow> list_ex snd (process_conds \<lparr>pn_ProcessID = a, pn_Name = b, pn_Desired = in_Desired i,
     pn_Observed = in_Observed i, pn_Health = in_Health i\<rparr>)"
  by (auto simp: instanceFiresAlert_def process_conds_def)

end
