(* ===== verification/Log_Rotation.thy ===== *)
theory Log_Rotation imports Process_Validate Process_Host
begin

text \<open>
  Rotation of the log of an instance (\<^verbatim>\<open>internal/logmgr/logmgr.go\<close>, up to \<^verbatim>\<open>Prepare\<close>). The files of the disk are a map
  from clean paths; a directory is the paths under it. Every call of the operating system is counted: the \<open>n\<close>-th one, named
  \<open>what\<close>, fails with \<open>de_fault n what\<close>, if there is an error, and then changes nothing; before it, the process that is
  logged appends \<open>de_written n\<close> to its log. Files are read and written through their paths: nobody else renames or removes them. The
  compressed form of a text is the parameter \<open>de_gzip\<close>; modes of files are left out.
\<close>

section \<open>Files\<close>

record LogFile =
  lf_Content :: string
  lf_ModTime :: gtime

record Disk =
  dk_files :: "(string, LogFile) gomap"
  dk_generation :: "(string, u64) gomap"
  dk_ops :: nat

record DiskEnv =
  de_fault :: "nat \<Rightarrow> string \<Rightarrow> string option"
  de_log :: string
  de_written :: "nat \<Rightarrow> string"
  de_clock :: gtime
  de_temp :: string
  de_gzip :: "string \<Rightarrow> string"

type_synonym 'a disk = "(Disk, 'a) act"

definition not_exist :: goerror where
  "not_exist = Plain ''file does not exist''"

definition IsNotExist :: "goerror \<Rightarrow> bool" where
  "IsNotExist e \<longleftrightarrow> e = not_exist"

definition append_log :: "DiskEnv \<Rightarrow> nat \<Rightarrow> (string, LogFile) gomap \<Rightarrow> (string, LogFile) gomap" where
  "append_log v n fs =
    (if de_written v n = [] then fs
     else case mget fs (de_log v) of None \<Rightarrow> fs
       | Some f \<Rightarrow> mput (de_log v) \<lparr>lf_Content = lf_Content f @ de_written v n, lf_ModTime = de_clock v\<rparr> fs)"

definition os_call :: "DiskEnv \<Rightarrow> string \<Rightarrow> ((string, LogFile) gomap \<Rightarrow> goerror + 'a \<times> (string, LogFile) gomap) \<Rightarrow> 'a disk" where
  "os_call v what f = State (\<lambda>d.
    let fs = append_log v (dk_ops d) (dk_files d); d1 = d\<lparr>dk_files := fs, dk_ops := dk_ops d + 1\<rparr> in
    case de_fault v (dk_ops d) what of Some e \<Rightarrow> (Inl (Plain (what @ '': '' @ e)), d1)
    | None \<Rightarrow> (case f fs of Inl e \<Rightarrow> (Inl e, d1) | Inr (r, fs') \<Rightarrow> (Inr r, d1\<lparr>dk_files := fs'\<rparr>)))"

definition found :: "string \<Rightarrow> (LogFile \<Rightarrow> goerror + 'a \<times> (string, LogFile) gomap) \<Rightarrow> (string, LogFile) gomap
    \<Rightarrow> goerror + 'a \<times> (string, LogFile) gomap" where
  "found p f fs = (case mget fs p of None \<Rightarrow> Inl not_exist | Some x \<Rightarrow> f x)"

definition os_Stat :: "DiskEnv \<Rightarrow> string \<Rightarrow> LogFile disk" where
  "os_Stat v p = os_call v (''stat '' @ p) (\<lambda>fs. found p (\<lambda>x. Inr (x, fs)) fs)"

definition os_Open :: "DiskEnv \<Rightarrow> string \<Rightarrow> LogFile disk" where
  "os_Open v p = os_call v (''open '' @ p) (\<lambda>fs. found p (\<lambda>x. Inr (x, fs)) fs)"

definition os_Remove :: "DiskEnv \<Rightarrow> string \<Rightarrow> unit disk" where
  "os_Remove v p = os_call v (''remove '' @ p) (\<lambda>fs. found p (\<lambda>_. Inr ((), mdel p fs)) fs)"

definition os_Rename :: "DiskEnv \<Rightarrow> string \<Rightarrow> string \<Rightarrow> unit disk" where
  "os_Rename v src dst = os_call v (''rename '' @ src) (\<lambda>fs. found src (\<lambda>x. Inr ((), mput dst x (mdel src fs))) fs)"

text \<open>Create or truncate; create if missing; truncate; and calls that only may fail.\<close>

definition os_Create :: "DiskEnv \<Rightarrow> string \<Rightarrow> unit disk" where
  "os_Create v p = os_call v (''open '' @ p) (\<lambda>fs. Inr ((), mput p \<lparr>lf_Content = [], lf_ModTime = de_clock v\<rparr> fs))"

definition os_Touch :: "DiskEnv \<Rightarrow> string \<Rightarrow> unit disk" where
  "os_Touch v p = os_call v (''open '' @ p)
    (\<lambda>fs. Inr ((), if mhas fs p then fs else mput p \<lparr>lf_Content = [], lf_ModTime = de_clock v\<rparr> fs))"

definition os_Truncate :: "DiskEnv \<Rightarrow> string \<Rightarrow> unit disk" where
  "os_Truncate v p = os_call v (''truncate '' @ p)
    (\<lambda>fs. found p (\<lambda>_. Inr ((), mput p \<lparr>lf_Content = [], lf_ModTime = de_clock v\<rparr> fs)) fs)"

definition os_Sync :: "DiskEnv \<Rightarrow> string \<Rightarrow> unit disk" where
  "os_Sync v what = os_call v what (\<lambda>fs. Inr ((), fs))"

definition os_Copy :: "DiskEnv \<Rightarrow> (string \<Rightarrow> string) \<Rightarrow> string \<Rightarrow> string \<Rightarrow> unit disk" where
  "os_Copy v f src dst = os_call v (''copy '' @ src)
    (\<lambda>fs. found src (\<lambda>x. Inr ((), mput dst \<lparr>lf_Content = f (lf_Content x), lf_ModTime = de_clock v\<rparr> fs)) fs)"

text \<open>The files of a directory, by name.\<close>

definition os_ReadDir :: "DiskEnv \<Rightarrow> string \<Rightarrow> (string, LogFile) gomap disk" where
  "os_ReadDir v p = os_call v (''open '' @ p) (\<lambda>fs. Inr (sort_key fst fs, fs))"

text \<open>\<^verbatim>\<open>fmt.Errorf(what + "%w", err)\<close>, and the same for an error that is not that the file is missing.\<close>

definition wrapping :: "string \<Rightarrow> 'a disk \<Rightarrow> 'a disk" where
  "wrapping what c = do { r \<leftarrow> c; case r of Inl e \<Rightarrow> throw (Plain (what @ err_text e)) | Inr x \<Rightarrow> ok x }"

definition unless_missing :: "string \<Rightarrow> unit disk \<Rightarrow> unit disk" where
  "unless_missing what c =
    do { r \<leftarrow> c; case r of Inl e \<Rightarrow> if IsNotExist e then ok () else throw (Plain (what @ err_text e)) | Inr x \<Rightarrow> ok () }"

section \<open>Paths of archives\<close>

definition rotateProtected :: "string \<Rightarrow> bool" where
  "rotateProtected path =
    (let clean = Clean path in
     if list_ex (prefix ''/logs/'') (suffixes clean) \<or> prefix ''logs/'' clean then False
     else list_ex (\<lambda>part. part \<in> {''store.db'', ''raft'', ''cluster'', ''runtime''}) (split_slash clean))"

text \<open>The \<open>i\<close>-th archive, plain or compressed.\<close>

definition archive_path :: "string \<Rightarrow> nat \<Rightarrow> string \<Rightarrow> string" where
  "archive_path path i suf = path @ ''.'' @ Itoa (int i) @ suf"

record archive =
  av_path :: string
  av_index :: int
  av_gz :: bool

definition archive_of :: "string \<Rightarrow> string \<Rightarrow> archive option" where
  "archive_of path p =
    (if \<not> prefix (path @ ''.'') p then None
     else let rest = drop (length path + 1) p; gz = suffix ''.gz'' rest;
              n = (if gz then take (length rest - 3) rest else rest)
       in if CHR ''/'' \<in> set rest then None
          else case Atoi n of None \<Rightarrow> None | Some k \<Rightarrow> if k < 1 then None else Some \<lparr>av_path = p, av_index = k, av_gz = gz\<rparr>)"

definition listArchives :: "DiskEnv \<Rightarrow> string \<Rightarrow> archive list disk" where
  "listArchives v path = andthen (os_ReadDir v path) (\<lambda>ents. ok (List.map_filter (\<lambda>(p, _). archive_of path p) ents))"

section \<open>Rotation\<close>

definition markRotated :: "string \<Rightarrow> unit disk" where
  "markRotated path = do { _ \<leftarrow> modify (\<lambda>d. d\<lparr>dk_generation :=
      mput (Clean path) (mget_or 0 (dk_generation d) (Clean path) + 1) (dk_generation d)\<rparr>); ok () }"

definition recreateEmpty :: "DiskEnv \<Rightarrow> string \<Rightarrow> unit disk" where
  "recreateEmpty v path =
    andthen (wrapping ''recreate log: '' (os_Create v path)) (\<lambda>_.
    andthen (os_Sync v ''chmod'') (\<lambda>_.
    andthen (os_Sync v ''close'') (\<lambda>_. markRotated path)))"

definition archive_steps :: "DiskEnv \<Rightarrow> string \<Rightarrow> unit disk" where
  "archive_steps v path =
    andthen (wrapping ''chmod log archive: '' (os_Sync v ''chmod'')) (\<lambda>_.
    andthen (wrapping ''copy log archive: '' (os_Copy v (\<lambda>c. c) path (de_temp v))) (\<lambda>_.
    andthen (wrapping ''close log archive: '' (os_Sync v ''close'')) (\<lambda>_.
    andthen (wrapping ''install log archive: '' (os_Rename v (de_temp v) (archive_path path 1 []))) (\<lambda>_.
    andthen (wrapping ''truncate current log: '' (os_Truncate v path)) (\<lambda>_. markRotated path)))))"

text \<open>The temporary file is removed in the end, whatever happened.\<close>

definition archiveAndTruncate :: "DiskEnv \<Rightarrow> string \<Rightarrow> unit disk" where
  "archiveAndTruncate v path =
    andthen (wrapping ''open log for rotation: '' (os_Open v path)) (\<lambda>_.
    andthen (wrapping ''create log archive: '' (os_Create v (de_temp v))) (\<lambda>_.
      do { res \<leftarrow> archive_steps v path; ignoring (os_Remove v (de_temp v)) (ret res) }))"

definition shift_one :: "DiskEnv \<Rightarrow> string \<Rightarrow> nat \<Rightarrow> nat \<Rightarrow> string \<Rightarrow> unit disk" where
  "shift_one v path maxFiles i suf =
    do { st \<leftarrow> os_Stat v (archive_path path i suf);
         case st of Inl _ \<Rightarrow> ok ()
         | Inr _ \<Rightarrow> if i \<ge> maxFiles then unless_missing ''rotate remove: '' (os_Remove v (archive_path path i suf))
             else unless_missing ''rotate shift: '' (os_Rename v (archive_path path i suf) (archive_path path (i + 1) suf)) }"

text \<open>From the oldest archive down to the first.\<close>

fun shift_archives :: "DiskEnv \<Rightarrow> string \<Rightarrow> nat \<Rightarrow> nat \<Rightarrow> unit disk" where
  "shift_archives v path maxFiles 0 = ok ()"
| "shift_archives v path maxFiles (Suc i) =
    andthen (each (shift_one v path maxFiles (Suc i)) [[], ''.gz'']) (\<lambda>_. shift_archives v path maxFiles i)"

definition rotateBySize :: "DiskEnv \<Rightarrow> string \<Rightarrow> RotatePolicy \<Rightarrow> unit disk" where
  "rotateBySize v path pol =
    do { st \<leftarrow> os_Stat v path;
         case st of Inl e \<Rightarrow> if IsNotExist e then ok () else throw e
         | Inr f \<Rightarrow>
             if rp_MaxSize pol \<le> 0 \<or> int (length (lf_Content f)) \<le> rp_MaxSize pol then ok ()
             else let maxFiles = nat (rp_MaxFiles pol) in
               andthen (shift_archives v path maxFiles maxFiles) (\<lambda>_.
                 if maxFiles < 1 then recreateEmpty v path else archiveAndTruncate v path) }"

text \<open>\<open>step\<close> fails: the unfinished file is removed.\<close>

definition or_remove :: "DiskEnv \<Rightarrow> string \<Rightarrow> unit disk \<Rightarrow> unit disk" where
  "or_remove v dst step = do { r \<leftarrow> step; case r of Inl e \<Rightarrow> ignoring (os_Remove v dst) (throw e) | Inr _ \<Rightarrow> ok () }"

definition gzipFile :: "DiskEnv \<Rightarrow> string \<Rightarrow> unit disk" where
  "gzipFile v src =
    do { r \<leftarrow> os_Open v src;
         case r of Inl e \<Rightarrow> if IsNotExist e then ok () else throw e
         | Inr _ \<Rightarrow>
             let dst = src @ ''.gz'' in
             andthen (os_Create v dst) (\<lambda>_.
             andthen (or_remove v dst (os_Copy v (de_gzip v) src dst)) (\<lambda>_.
             andthen (or_remove v dst (os_Sync v ''gzip'')) (\<lambda>_.
             andthen (or_remove v dst (os_Sync v ''chmod'')) (\<lambda>_.
             andthen (or_remove v dst (os_Sync v ''close'')) (\<lambda>_.
               unless_missing [] (os_Remove v src)))))) }"

definition compressArchives :: "DiskEnv \<Rightarrow> string \<Rightarrow> unit disk" where
  "compressArchives v path =
    andthen (listArchives v path) (each (\<lambda>a. if av_gz a \<or> av_index a < 2 then ok () else gzipFile v (av_path a)))"

definition pruneExcessArchives :: "DiskEnv \<Rightarrow> string \<Rightarrow> int \<Rightarrow> unit disk" where
  "pruneExcessArchives v path maxFiles =
    andthen (listArchives v path) (each (\<lambda>a. if av_index a \<le> max maxFiles 0 then ok ()
      else unless_missing ''prune archive: '' (os_Remove v (av_path a))))"

definition prune_aged :: "DiskEnv \<Rightarrow> int \<Rightarrow> gtime \<Rightarrow> archive \<Rightarrow> unit disk" where
  "prune_aged v maxAge t a =
    do { st \<leftarrow> os_Stat v (av_path a);
         case st of Inl e \<Rightarrow> if IsNotExist e then ok () else throw e
         | Inr f \<Rightarrow> if t - lf_ModTime f \<le> maxAge then ok () else unless_missing ''age archive: '' (os_Remove v (av_path a)) }"

definition pruneAgedArchives :: "DiskEnv \<Rightarrow> string \<Rightarrow> int \<Rightarrow> gtime \<Rightarrow> unit disk" where
  "pruneAgedArchives v path maxAge t =
    (if maxAge \<le> 0 then ok () else andthen (listArchives v path) (each (prune_aged v maxAge t)))"

definition Rotate :: "DiskEnv \<Rightarrow> string \<Rightarrow> RotatePolicy \<Rightarrow> gtime \<Rightarrow> unit disk" where
  "Rotate v path pol t =
    (if path = [] \<or> rotateProtected path then ok ()
     else let t = (if t = time_zero then de_clock v else t) in
       andthen (rotateBySize v path pol) (\<lambda>_.
       andthen (if rp_Compress pol then compressArchives v path else ok ()) (\<lambda>_.
       andthen (pruneExcessArchives v path (rp_MaxFiles pol)) (\<lambda>_. pruneAgedArchives v path (rp_MaxAge pol) t))))"

definition rotateAll :: "DiskEnv \<Rightarrow> string list \<Rightarrow> RotatePolicy \<Rightarrow> gtime \<Rightarrow> unit disk" where
  "rotateAll v paths pol t = each (\<lambda>p. Rotate v p pol t) paths"

definition Prepare :: "DiskEnv \<Rightarrow> string list \<Rightarrow> unit disk" where
  "Prepare v paths = each (\<lambda>p. if p = [] then ok () else
    andthen (wrapping ''mkdir log parent: '' (os_Sync v ''mkdir'')) (\<lambda>_.
    andthen (wrapping ''create log: '' (os_Touch v p)) (\<lambda>_. os_Sync v ''close''))) paths"

section \<open>Names of archives\<close>

lemma dot_no_digit: "CHR ''.'' \<notin> set (digits_of n)"
proof
  assume "CHR ''.'' \<in> set (digits_of n)"
  from digits_of_digits [OF this] obtain k where k: "k < (10 :: nat)" "CHR ''.'' = char_of (48 + k)" by blast
  then have "of_char (CHR ''.'') = 48 + k" using of_char_of [of "48 + k"] by simp
  with k(1) show False by simp
qed

lemma archive_path_inj:
  assumes "suf \<in> {[], ''.gz''}" and "suf' \<in> {[], ''.gz''}"
  shows "archive_path path i suf = archive_path path j suf' \<longleftrightarrow> i = j \<and> suf = suf'"
proof
  assume "archive_path path i suf = archive_path path j suf'"
  then have e: "digits_of i @ suf = digits_of j @ suf'" by (simp add: archive_path_def Itoa_def)
  have t: "takeWhile (\<lambda>c. c \<noteq> CHR ''.'') (digits_of n @ s) = digits_of n" if "s \<in> {[], ''.gz''}" for n s
    using that dot_no_digit [of n] split_at_first [of "CHR ''.''" "digits_of n" "''gz''"] by (auto simp: takeWhile_eq_all_conv)
  from arg_cong [OF e, of "takeWhile (\<lambda>c. c \<noteq> CHR ''.'')"] have "digits_of i = digits_of j"
    by (simp only: t [OF assms(1)] t [OF assms(2)])
  with e digits_of_inj show "i = j \<and> suf = suf'" by auto
qed simp

lemma archive_not_log [simp]: "archive_path path i suf \<noteq> path" "path \<noteq> archive_path path i suf"
proof -
  have "length (archive_path path i suf) > length path" by (simp add: archive_path_def)
  then show "archive_path path i suf \<noteq> path" "path \<noteq> archive_path path i suf" by auto
qed

definition newest :: "string \<Rightarrow> string" where
  "newest path = path @ ''.1''"

lemma newest_path [simp]: "archive_path path (Suc 0) [] = newest path"
proof -
  have "digits_of 1 = ''1''" by code_simp
  then show ?thesis by (simp add: archive_path_def Itoa_def newest_def)
qed

lemma newest_not_log [simp]: "newest path \<noteq> path" "path \<noteq> newest path"
  by (simp_all add: newest_def)

lemma gz_not_newest: "src @ ''.gz'' \<noteq> newest path"
proof
  assume "src @ ''.gz'' = newest path"
  then have "last (src @ ''.gz'') = last (path @ ''.1'')" by (simp only: newest_def)
  then show False by simp
qed

lemma archive_of_path:
  assumes "archive_of path p = Some a"
  shows "av_path a = p" and "p \<noteq> path" and "p @ ''.gz'' \<noteq> path" and "p = newest path \<Longrightarrow> av_index a = 1"
proof -
  from assms have pre: "prefix (path @ ''.'') p" by (auto simp: archive_of_def split: if_splits)
  then have "length p > length path" by (auto simp: prefix_def)
  then show "p \<noteq> path" "p @ ''.gz'' \<noteq> path" by auto
  from assms show "av_path a = p" by (auto simp: archive_of_def Let_def split: if_splits option.splits)
  assume p: "p = newest path"
  have "\<not> suffix ''.gz'' ''1''" by (simp add: suffix_def)
  moreover have "Atoi ''1'' = Some 1" by code_simp
  ultimately show "av_index a = 1"
    using assms unfolding p newest_def by (auto simp: archive_of_def Let_def split: if_splits)
qed

section \<open>A rotation does not lose the log\<close>

text \<open>The log or the first archive holds the text \<open>old\<close>.\<close>

definition log_kept :: "DiskEnv \<Rightarrow> string \<Rightarrow> string \<Rightarrow> (string, LogFile) gomap \<Rightarrow> bool" where
  "log_kept v path old fs \<longleftrightarrow> map_option lf_Content (mget fs path) = Some old
     \<or> mget fs (newest path) = Some \<lparr>lf_Content = old, lf_ModTime = de_clock v\<rparr>"

abbreviation on_files :: "((string, LogFile) gomap \<Rightarrow> bool) \<Rightarrow> Disk \<Rightarrow> bool" where
  "on_files I d \<equiv> I (dk_files d)"

definition quiet :: "DiskEnv \<Rightarrow> bool" where
  "quiet v \<longleftrightarrow> de_written v = (\<lambda>_. [])"

lemma wp_os_call:
  assumes "quiet v" and "I (dk_files d)"
    and "\<And>r fs. f (dk_files d) = Inr (r, fs) \<Longrightarrow> I fs"
    and "\<And>e t. dk_files t = dk_files d \<Longrightarrow> Q (Inl e) t"
    and "\<And>r fs t. f (dk_files d) = Inr (r, fs) \<Longrightarrow> Q (Inr r) (t\<lparr>dk_files := fs\<rparr>)"
  shows "wp (os_call v what f) Q d"
proof -
  have "append_log v (dk_ops d) (dk_files d) = dk_files d" using assms(1) by (simp add: append_log_def quiet_def)
  with assms(4,5) show ?thesis
    by (auto simp: os_call_def Let_def split: option.split sum.split)
qed

lemma wp_files:
  assumes "quiet v" and "I (dk_files d)" and "\<And>r fs. f (dk_files d) = Inr (r, fs) \<Longrightarrow> I fs"
  shows "wp (os_call v what f) (\<lambda>_. on_files I) d"
  using assms by (intro wp_os_call [of v I]) auto

lemma wp_wrapping [simp]: "wp (wrapping what c) (\<lambda>_. on_files I) d = wp c (\<lambda>_. on_files I) d"
  by (auto simp: wrapping_def wp_def split: prod.split sum.split)

lemma wp_unless_missing [simp]: "wp (unless_missing what c) (\<lambda>_. on_files I) d = wp c (\<lambda>_. on_files I) d"
  by (auto simp: unless_missing_def wp_def split: prod.split sum.split)

text \<open>Files that an invariant does not depend on.\<close>

definition ignores :: "((string, LogFile) gomap \<Rightarrow> bool) \<Rightarrow> string \<Rightarrow> bool" where
  "ignores I p \<longleftrightarrow> (\<forall>fs fs'. (\<forall>q. q \<noteq> p \<longrightarrow> mget fs q = mget fs' q) \<longrightarrow> I fs = I fs')"

lemma ignoresD:
  assumes "ignores I p"
  shows "I (mput p x fs) = I fs" and "I (mdel p fs) = I fs"
  using assms unfolding ignores_def by (metis (no_types, lifting) gomap.put_frame, metis (no_types, lifting) fun_upd_other gomap_simps(2))

text \<open>What the calls keep of an invariant of the files.\<close>

lemma wp_looks:
  assumes "quiet v" and "I (dk_files d)"
  shows "wp (os_Stat v p) (\<lambda>_. on_files I) d" and "wp (os_Open v p) (\<lambda>_. on_files I) d"
    and "wp (os_Sync v w) (\<lambda>_. on_files I) d"
  unfolding os_Stat_def os_Open_def os_Sync_def
  by (rule wp_files [of v I, OF assms]; simp add: found_def assms(2) split: option.splits)+

lemma wp_changes:
  assumes "quiet v" and "I (dk_files d)" and "ignores I p"
  shows "wp (os_Remove v p) (\<lambda>_. on_files I) d" and "wp (os_Create v p) (\<lambda>_. on_files I) d"
    and "wp (os_Copy v f src p) (\<lambda>_. on_files I) d"
  unfolding os_Remove_def os_Create_def os_Copy_def
  by (rule wp_files [of v I, OF assms(1,2)]; auto simp: found_def assms(2) ignoresD [OF assms(3)] split: option.splits)+

lemma wp_rename:
  assumes "quiet v" and "I (dk_files d)" and "ignores I src" and "ignores I dst"
  shows "wp (os_Rename v src dst) (\<lambda>_. on_files I) d"
  unfolding os_Rename_def
  by (rule wp_files [of v I, OF assms(1,2)]) (auto simp: found_def assms(2) ignoresD [OF assms(3)] ignoresD [OF assms(4)] split: option.splits)

lemma wp_listArchives:
  assumes "quiet v" and "I (dk_files d)"
  shows "wp (listArchives v path) (\<lambda>r t. on_files I t \<and> (case r of Inl _ \<Rightarrow> True | Inr as \<Rightarrow> \<forall>a \<in> set as. archive_of path (av_path a) = Some a)) d"
proof -
  have a: "archive_of path (av_path a) = Some a" if "a \<in> set (List.map_filter (\<lambda>(p, _). archive_of path p) fs)" for a and fs :: "(string, LogFile) gomap"
    using that archive_of_path(1) by (force simp: List.map_filter_def)
  show ?thesis
    unfolding listArchives_def os_ReadDir_def
    by (rule wp_andthenI [of _ "\<lambda>_ t. on_files I t"], rule wp_files [of v I, OF assms]) (auto simp: assms a)
qed

lemma wp_each_archive:
  assumes "quiet v" and "I (dk_files d)"
    and step: "\<And>a d. archive_of path (av_path a) = Some a \<Longrightarrow> I (dk_files d) \<Longrightarrow> wp (f a) (\<lambda>_. on_files I) d"
  shows "wp (andthen (listArchives v path) (each f)) (\<lambda>_. on_files I) d"
proof (rule wp_andthenI [OF wp_listArchives [of v I d path, OF assms(1,2)]])
  fix e t assume "on_files I t \<and> (case Inl e of Inl _ \<Rightarrow> True | Inr as \<Rightarrow> \<forall>a \<in> set as. archive_of path (av_path a) = Some a)"
  then show "on_files I t" by simp
next
  fix as t assume "on_files I t \<and> (case Inr as of Inl _ \<Rightarrow> True | Inr as \<Rightarrow> \<forall>a \<in> set as. archive_of path (av_path a) = Some a)"
  then show "wp (each f as) (\<lambda>_. on_files I) t" by (intro wp_each) (auto intro: step)
qed

lemma log_kept_ignores: "p \<noteq> path \<Longrightarrow> p \<noteq> newest path \<Longrightarrow> ignores (log_kept v path old) p"
  unfolding ignores_def log_kept_def by metis

lemma gzipFile_keeps:
  assumes q: "quiet v" and I: "I (dk_files d)" and i: "ignores I src" "ignores I (src @ ''.gz'')"
  shows "wp (gzipFile v src) (\<lambda>_. on_files I) d"
proof -
  have rem: "wp (or_remove v (src @ ''.gz'') c) (\<lambda>_. on_files I) d'" if "wp c (\<lambda>_. on_files I) d'" for c :: "unit disk" and d'
    unfolding or_remove_def
    by (rule wp_bind_inv [OF that], rule wp_sumI, rule wp_ignoring_inv, rule wp_changes(1) [OF q _ i(2)]) simp_all
  show ?thesis
    unfolding gzipFile_def Let_def
    by (intro wp_inv_rules rem wp_looks wp_changes wp_changes(1) [THEN wp_unless_missing [THEN iffD2]] q I i) simp_all
qed

lemma shift_keeps:
  assumes q: "quiet v" and I: "I (dk_files d)" and i: "\<And>k suf. ignores I (archive_path path k suf)"
  shows "wp (shift_archives v path maxFiles n) (\<lambda>_. on_files I) d"
  using I
proof (induction n arbitrary: d)
  case (Suc n)
  have one: "wp (shift_one v path maxFiles (Suc n) suf) (\<lambda>_. on_files I) t" if "I (dk_files t)" for suf t
    unfolding shift_one_def
    by (rule wp_bind_inv, rule wp_looks(1) [of v I, OF q that])
      (auto intro!: wp_changes(1) [OF q _ i] wp_rename [OF q _ i i] split: sum.split)
  show ?case
    unfolding shift_archives.simps by (rule wp_andthen_inv, rule wp_each) (use one Suc in auto)
qed simp

text \<open>One step, which leaves \<open>B\<close> when it succeeds and \<open>F\<close> in any case.\<close>

lemma wp_step:
  assumes "wp c (\<lambda>r t. case r of Inl _ \<Rightarrow> F t | Inr _ \<Rightarrow> B t) s" and "\<And>x t. B t \<Longrightarrow> wp (k x) (\<lambda>_. F) t"
  shows "wp (andthen (wrapping w c) k) (\<lambda>_. F) s"
  using assms by (fastforce simp: wrapping_def wp_def andthen_def split: prod.splits sum.splits)

text \<open>The steps of archiving: the log stays as it is until its copy is installed.\<close>

lemma archive_steps_keep:
  assumes q: "quiet v" and old: "map_option lf_Content (mget (dk_files d) path) = Some old"
    and t: "de_temp v \<noteq> path" "de_temp v \<noteq> newest path"
  shows "wp (archive_steps v path) (\<lambda>_. on_files (log_kept v path old)) d"
proof -
  define P1 where "P1 fs \<longleftrightarrow> map_option lf_Content (mget fs path) = Some old" for fs :: "(string, LogFile) gomap"
  define P2 where "P2 fs \<longleftrightarrow> P1 fs \<and> mget fs (de_temp v) = Some \<lparr>lf_Content = old, lf_ModTime = de_clock v\<rparr>" for fs
  define P3 where "P3 fs \<longleftrightarrow> mget fs (newest path) = Some \<lparr>lf_Content = old, lf_ModTime = de_clock v\<rparr>" for fs :: "(string, LogFile) gomap"
  let ?post = "\<lambda>B r t. case r of Inl _ \<Rightarrow> on_files (log_kept v path old) t | Inr _ \<Rightarrow> on_files B t"
  have kept: "P1 fs \<Longrightarrow> log_kept v path old fs" "P2 fs \<Longrightarrow> log_kept v path old fs" "P3 fs \<Longrightarrow> log_kept v path old fs" for fs
    by (simp_all add: P1_def P2_def P3_def log_kept_def)
  have sync: "wp (os_Sync v w) (?post B) s" if "B (dk_files s)" and "\<And>fs. B fs \<Longrightarrow> log_kept v path old fs" for B w s
    by (rule wp_mono [OF wp_looks(3) [of v B, OF q that(1)]]) (auto simp: that(2) split: sum.split)
  have copy: "wp (os_Copy v (\<lambda>c. c) path (de_temp v)) (?post P2) s" if "P1 (dk_files s)" for s
    unfolding os_Copy_def using that t kept
    by (intro wp_os_call [of v P1, OF q that]) (auto simp: found_def P1_def P2_def split: option.splits)
  have rename: "wp (os_Rename v (de_temp v) (archive_path path 1 [])) (?post P3) s" if "P2 (dk_files s)" for s
    unfolding os_Rename_def using that t kept
    by (intro wp_os_call [of v "\<lambda>_. True"]) (auto simp: q found_def P1_def P2_def P3_def split: option.splits)
  have truncate: "wp (os_Truncate v path) (?post P3) s" if "P3 (dk_files s)" for s
    unfolding os_Truncate_def using that kept
    by (intro wp_os_call [of v "\<lambda>_. True"]) (auto simp: q found_def P3_def split: option.splits)
  have mark: "wp (markRotated path) (\<lambda>_. on_files (log_kept v path old)) s" if "P3 (dk_files s)" for s
    using kept(3) [OF that] by (simp add: markRotated_def)
  have P1: "P1 (dk_files d)" using old by (simp add: P1_def)
  show ?thesis
    unfolding archive_steps_def
    by (rule wp_step [where B = "on_files P1"], rule sync [of P1], rule P1, erule kept(1),
      rule wp_step [where B = "on_files P2"], erule copy,
      rule wp_step [where B = "on_files P2"], rule sync [of P2], assumption, erule kept(2),
      rule wp_step [where B = "on_files P3"], erule rename,
      rule wp_step [where B = "on_files P3"], erule truncate, erule mark)
qed

lemma archiveAndTruncate_keeps:
  assumes q: "quiet v" and old: "map_option lf_Content (mget (dk_files d) path) = Some old"
    and t: "de_temp v \<noteq> path" "de_temp v \<noteq> newest path"
  shows "wp (archiveAndTruncate v path) (\<lambda>_. on_files (log_kept v path old)) d"
proof -
  define P1 where "P1 fs \<longleftrightarrow> map_option lf_Content (mget fs path) = Some old" for fs :: "(string, LogFile) gomap"
  have kept: "P1 fs \<Longrightarrow> log_kept v path old fs" for fs by (simp add: P1_def log_kept_def)
  have i: "ignores P1 (de_temp v)" using t(1) by (auto simp: ignores_def P1_def)
  let ?post = "\<lambda>r t. case r of Inl _ \<Rightarrow> on_files (log_kept v path old) t | Inr _ \<Rightarrow> on_files P1 t"
  have P1: "P1 (dk_files d)" using old by (simp add: P1_def)
  have opened: "wp (os_Open v path) ?post d"
    by (rule wp_mono [OF wp_looks(2) [of v P1, OF q P1]]) (auto simp: kept split: sum.split)
  have created: "wp (os_Create v (de_temp v)) ?post s" if "P1 (dk_files s)" for s
    by (rule wp_mono [OF wp_changes(2) [of v P1, OF q that i]]) (auto simp: kept split: sum.split)
  have rest: "wp (do { res \<leftarrow> archive_steps v path; ignoring (os_Remove v (de_temp v)) (ret res) })
      (\<lambda>_. on_files (log_kept v path old)) s" if "P1 (dk_files s)" for s
  proof (rule wp_bind_inv)
    show "wp (archive_steps v path) (\<lambda>_. on_files (log_kept v path old)) s"
      using that by (intro archive_steps_keep [OF q _ t]) (simp add: P1_def)
    fix res s' assume "on_files (log_kept v path old) s'"
    then show "wp (ignoring (os_Remove v (de_temp v)) (ret res)) (\<lambda>_. on_files (log_kept v path old)) s'"
      by (intro wp_ignoring_inv wp_changes(1) [of v "log_kept v path old"] q log_kept_ignores t) simp_all
  qed
  show ?thesis
    unfolding archiveAndTruncate_def
    by (rule wp_step [where B = "on_files P1"], rule opened, rule wp_step [where B = "on_files P1"], erule created, erule rest)
qed

lemma rotateBySize_keeps:
  assumes q: "quiet v" and old: "map_option lf_Content (mget (dk_files d) path) = Some old"
    and t: "de_temp v \<noteq> path" "de_temp v \<noteq> newest path" and m: "1 \<le> rp_MaxFiles pol"
  shows "wp (rotateBySize v path pol) (\<lambda>_. on_files (log_kept v path old)) d"
proof -
  define P1 where "P1 fs \<longleftrightarrow> map_option lf_Content (mget fs path) = Some old" for fs :: "(string, LogFile) gomap"
  have P1: "P1 (dk_files d)" using old by (simp add: P1_def)
  have kept: "P1 fs \<Longrightarrow> log_kept v path old fs" for fs by (simp add: P1_def log_kept_def)
  have i: "ignores P1 (archive_path path k suf)" for k suf
    by (auto simp: ignores_def P1_def)
  have n: "\<not> nat (rp_MaxFiles pol) < 1" using m by simp
  have shift: "wp (andthen (shift_archives v path n n) (\<lambda>_. archiveAndTruncate v path)) (\<lambda>_. on_files (log_kept v path old)) s"
    if "P1 (dk_files s)" for s n
  proof (rule wp_andthenI [OF shift_keeps [of v P1, OF q that i]])
    show "on_files P1 t \<Longrightarrow> on_files (log_kept v path old) t" for t by (rule kept)
    show "on_files P1 t \<Longrightarrow> wp (archiveAndTruncate v path) (\<lambda>_. on_files (log_kept v path old)) t" for t
      by (rule archiveAndTruncate_keeps [OF q _ t]) (simp add: P1_def)
  qed
  show ?thesis
    unfolding rotateBySize_def Let_def if_not_P [OF n]
  proof (rule wp_bindI [OF wp_looks(1) [of v P1, OF q P1]])
    fix st s assume s: "on_files P1 s"
    show "wp (case st of Inl e \<Rightarrow> if IsNotExist e then ok () else throw e
       | Inr f \<Rightarrow> if rp_MaxSize pol \<le> 0 \<or> int (length (lf_Content f)) \<le> rp_MaxSize pol then ok ()
           else andthen (shift_archives v path (nat (rp_MaxFiles pol)) (nat (rp_MaxFiles pol))) (\<lambda>_. archiveAndTruncate v path))
      (\<lambda>_. on_files (log_kept v path old)) s"
      using kept [of "dk_files s"] s by (intro wp_branches wp_retI shift) auto
  qed
qed

text \<open>The pruning: the first archive is young and has the index 1.\<close>

lemma prune_aged_keeps:
  assumes q: "quiet v" and I: "log_kept v path old (dk_files d)" and a: "archive_of path (av_path a) = Some a"
    and young: "t - de_clock v \<le> maxAge"
  shows "wp (prune_aged v maxAge t a) (\<lambda>_. on_files (log_kept v path old)) d"
proof -
  let ?I = "log_kept v path old"
  have remove: "?I (mdel (av_path a) fs)" if "?I fs" "mget fs (av_path a) = Some f" "\<not> t - lf_ModTime f \<le> maxAge" for fs f
    using that young archive_of_path(2) [OF a] by (auto simp: log_kept_def)
  have stat: "wp (os_Stat v (av_path a)) (\<lambda>r s. ?I (dk_files s) \<and> (case r of Inl _ \<Rightarrow> True | Inr f \<Rightarrow> mget (dk_files s) (av_path a) = Some f)) d"
    unfolding os_Stat_def using I
    by (intro wp_os_call [of v ?I]) (auto simp: q found_def split: option.splits)
  have rem: "wp (os_Remove v (av_path a)) (\<lambda>_. on_files ?I) s"
    if "?I (dk_files s)" "mget (dk_files s) (av_path a) = Some f" "\<not> t - lf_ModTime f \<le> maxAge" for s f
    unfolding os_Remove_def using that remove
    by (intro wp_files [OF q]) (auto simp: found_def)
  show ?thesis
    unfolding prune_aged_def
    by (rule wp_bindI [OF stat]) (auto intro!: rem split: sum.splits)
qed

text \<open>
  C29: Whatever calls of the operating system fail, a rotation does not lose the log: as long as nothing is written
  meanwhile, afterwards its text is still in the log or is the newest archive, compression and both prunings included. It
  takes that the policy keeps one archive or more, and no archive is too old the moment it is written.
\<close>

theorem rotation_keeps_log:
  assumes "quiet v" and "map_option lf_Content (mget (dk_files d) path) = Some old" and "1 \<le> rp_MaxFiles pol"
    and "de_temp v \<noteq> path" and "de_temp v \<noteq> newest path" and "t0 - de_clock v \<le> rp_MaxAge pol" and "t0 \<noteq> time_zero"
  shows "map_option lf_Content (mget (dk_files (snd (run_state (Rotate v path pol t0) d))) path) = Some old
    \<or> map_option lf_Content (mget (dk_files (snd (run_state (Rotate v path pol t0) d))) (newest path)) = Some old"
proof -
  let ?I = "log_kept v path old"
  have I: "?I (dk_files d)" using assms(2) by (simp add: log_kept_def)
  have other: "ignores ?I p" if "archive_of path p = Some a" "av_index a \<noteq> 1" for p a
    using that archive_of_path(2,4) [OF that(1)] by (intro log_kept_ignores) auto
  have gz: "ignores ?I (p @ ''.gz'')" if "archive_of path p = Some a" for p a
    using archive_of_path(3) [OF that] gz_not_newest by (intro log_kept_ignores) auto
  have compress: "wp (if rp_Compress pol then compressArchives v path else ok ()) (\<lambda>_. on_files ?I) s" if "?I (dk_files s)" for s
    unfolding compressArchives_def
    by (intro wp_ifI wp_retI wp_each_archive gzipFile_keeps assms(1) that) (auto intro: other gz)
  have excess: "wp (pruneExcessArchives v path (rp_MaxFiles pol)) (\<lambda>_. on_files ?I) s" if "?I (dk_files s)" for s
    unfolding pruneExcessArchives_def
  proof (rule wp_each_archive [of v ?I s path, OF assms(1) that], rule wp_ifI)
    fix a and t :: Disk assume a: "archive_of path (av_path a) = Some a" "?I (dk_files t)" and "\<not> av_index a \<le> max (rp_MaxFiles pol) 0"
    then have "ignores ?I (av_path a)" using assms(3) by (intro other [OF a(1)]) simp
    then show "wp (unless_missing ''prune archive: '' (os_Remove v (av_path a))) (\<lambda>_. on_files ?I) t"
      using wp_changes(1) [of v ?I t, OF assms(1) a(2)] by simp
  qed simp
  have aged: "wp (pruneAgedArchives v path (rp_MaxAge pol) t0) (\<lambda>_. on_files ?I) s" if "?I (dk_files s)" for s
    unfolding pruneAgedArchives_def
    by (intro wp_ifI wp_retI wp_each_archive prune_aged_keeps assms(1,6) that)
  have "wp (Rotate v path pol t0) (\<lambda>_. on_files ?I) d"
    unfolding Rotate_def Let_def if_not_P [OF assms(7)]
    by (intro wp_ifI wp_retI I, rule wp_andthen_inv, rule rotateBySize_keeps [OF assms(1,2,4,5,3)],
      rule wp_andthen_inv, erule compress, rule wp_andthen_inv, erule excess, erule aged)
  then have "?I (dk_files (snd (run_state (Rotate v path pol t0) d)))" by (simp add: wp_def case_prod_beta)
  then show ?thesis by (auto simp: log_kept_def)
qed

definition wit_disk :: Disk where
  "wit_disk = \<lparr>dk_files = [(''l'', \<lparr>lf_Content = ''new'', lf_ModTime = 3\<rparr>), (''l.1'', \<lparr>lf_Content = ''m'', lf_ModTime = 2\<rparr>),
     (''l.2'', \<lparr>lf_Content = ''o'', lf_ModTime = 1\<rparr>)], dk_generation = [], dk_ops = 0\<rparr>"

definition wit_env :: "(nat \<Rightarrow> string \<Rightarrow> string option) \<Rightarrow> DiskEnv" where
  "wit_env fault = \<lparr>de_fault = fault, de_log = ''l'', de_written = (\<lambda>_. []), de_clock = 4, de_temp = ''l.rotate-1'',
     de_gzip = (\<lambda>c. ''gz:'' @ c)\<rparr>"

definition wit_rotate :: RotatePolicy where
  "wit_rotate = \<lparr>rp_MaxSize = 2, rp_MaxFiles = 3, rp_MaxAge = 100, rp_Compress = True\<rparr>"

definition log_texts :: "Disk \<Rightarrow> (string \<times> string) list" where
  "log_texts d = sort_key fst (map (\<lambda>(p, f). (p, lf_Content f)) (dk_files d))"

lemma rotation_keeps_log_witness:
  "log_texts (snd (run_state (Rotate (wit_env (\<lambda>_ _. None)) ''l'' wit_rotate 5) wit_disk))
     = [(''l'', []), (''l.1'', ''new''), (''l.2.gz'', ''gz:m''), (''l.3.gz'', ''gz:o'')]
   \<and> (let fs = dk_files (snd (run_state (Rotate (wit_env (\<lambda>_ what. if prefix ''copy'' what then Some ''no space'' else None)) ''l'' wit_rotate 5) wit_disk))
      in map_option lf_Content (mget fs ''l'') = Some ''new'' \<or> map_option lf_Content (mget fs (newest ''l'')) = Some ''new'')"
proof
  show "log_texts (snd (run_state (Rotate (wit_env (\<lambda>_ _. None)) ''l'' wit_rotate 5) wit_disk))
     = [(''l'', []), (''l.1'', ''new''), (''l.2.gz'', ''gz:m''), (''l.3.gz'', ''gz:o'')]"
    by code_simp
  let ?v = "wit_env (\<lambda>_ what. if prefix ''copy'' what then Some ''no space'' else None)"
  have "quiet ?v" "1 \<le> rp_MaxFiles wit_rotate" "de_temp ?v \<noteq> ''l''" "de_temp ?v \<noteq> newest ''l''"
    "5 - de_clock ?v \<le> rp_MaxAge wit_rotate" "(5 :: int) \<noteq> time_zero"
    by (simp_all add: quiet_def wit_env_def wit_rotate_def newest_def time_zero_def)
  moreover have "map_option lf_Content (mget (dk_files wit_disk) ''l'') = Some ''new''" by (simp add: wit_disk_def)
  ultimately show "let fs = dk_files (snd (run_state (Rotate ?v ''l'' wit_rotate 5) wit_disk))
      in map_option lf_Content (mget fs ''l'') = Some ''new'' \<or> map_option lf_Content (mget fs (newest ''l'')) = Some ''new''"
    unfolding Let_def using rotation_keeps_log [of ?v wit_disk "''l''" "''new''" wit_rotate 5] by blast
qed

section \<open>What a rotation can lose\<close>

text \<open>
  The archives are shifted before the copy is made. When the copy fails, as it does on a full disk, every further pass
  shifts them again and removes the oldest one, until none is left, while the log itself is never archived.
\<close>

lemma failed_rotations_eat_archives:
  "let full = wit_env (\<lambda>_ what. if prefix ''copy'' what then Some ''no space'' else None);
       pass = rotateBySize full ''l'' wit_rotate
   in map (\<lambda>n. map fst (dk_files (((\<lambda>d. snd (run_state pass d)) ^^ n) wit_disk))) [1, 2, 3]
     = [[''l'', ''l.3'', ''l.2''], [''l'', ''l.3''], [''l'']]
     \<and> fst (run_state pass wit_disk) = Inl (Plain ''copy log archive: copy l: no space'')"
  by code_simp

text \<open>What the process writes between the copy and the truncation is in neither file.\<close>

lemma written_meanwhile_is_lost:
  "log_texts (snd (run_state (rotateBySize ((wit_env (\<lambda>_ _. None))\<lparr>de_written := (\<lambda>n. if n = 14 then ''+'' else [])\<rparr>)
       ''l'' wit_rotate) wit_disk))
   = [(''l'', []), (''l.1'', ''new''), (''l.2'', ''m''), (''l.3'', ''o'')]"
  by code_simp

end
