(* ===== verification/Log_Disk.thy ===== *)
theory Log_Disk imports Complex_Main Log_Rotation "HOL-Library.Product_Lexorder"
begin

text \<open>
  Protection of the disk from logs (\<^verbatim>\<open>internal/logmgr/logmgr.go\<close>, \<open>Protect\<close> and what it calls, and
  \<^verbatim>\<open>internal/logmgr/policy.go\<close>): the oldest logs are deleted until the disk is no longer too full, and new processes get no log
  file in an emergency. The usage of the disk, which file systems a path is on and the end of the context are parameters. A
  percentage is a finite \<^verbatim>\<open>float64\<close>, kept as the rational number that it is. The root and the directories of logs are absolute
  paths without symbolic links, a directory is there when a file is below it, and a walk of a directory tree is one call.
\<close>

section \<open>Policy\<close>

record DiskPolicy =
  dp_WarnPercent :: int
  dp_CleanupPercent :: int
  dp_EmergencyPercent :: int
  dp_AutoDelete :: bool
  dp_EmergencyStopWrites :: bool

definition DefaultDiskPolicy :: DiskPolicy where
  "DefaultDiskPolicy = \<lparr>dp_WarnPercent = 85, dp_CleanupPercent = 90, dp_EmergencyPercent = 95, dp_AutoDelete = False,
     dp_EmergencyStopWrites = True\<rparr>"

definition ValidateDiskPolicy :: "DiskPolicy \<Rightarrow> goerror option" where
  "ValidateDiskPolicy p =
    (if dp_WarnPercent p < 1 \<or> dp_WarnPercent p > 100 \<or> dp_CleanupPercent p < 1 \<or> dp_CleanupPercent p > 100
        \<or> dp_EmergencyPercent p < 1 \<or> dp_EmergencyPercent p > 100
     then Some (E INVALID ''disk percent out of range'')
     else if \<not> (dp_WarnPercent p < dp_CleanupPercent p \<and> dp_CleanupPercent p < dp_EmergencyPercent p)
     then Some (E INVALID ''disk percents must be warn < cleanup < emergency'')
     else None)"

datatype Level = LevelOK | LevelWarn | LevelCleanup | LevelEmergency

definition classify :: "DiskPolicy \<Rightarrow> rat \<Rightarrow> Level" where
  "classify p used =
    (if used > of_int (dp_EmergencyPercent p) then LevelEmergency
     else if used > of_int (dp_CleanupPercent p) then LevelCleanup
     else if used > of_int (dp_WarnPercent p) then LevelWarn
     else LevelOK)"

record LogManager =
  lm_Root :: string
  lm_Policy :: DiskPolicy
  lm_ExtraLogDirs :: "string list"
  lm_blocked :: bool

record DiskUse =
  du_usage :: "nat \<Rightarrow> (string, LogFile) gomap \<Rightarrow> goerror + rat"
  du_same :: "string \<Rightarrow> string \<Rightarrow> bool"
  du_cancelled :: "nat \<Rightarrow> goerror option"

definition log_policy :: "LogManager \<Rightarrow> DiskPolicy" where
  "log_policy m =
    (if dp_WarnPercent (lm_Policy m) = 0 \<and> dp_CleanupPercent (lm_Policy m) = 0 \<and> dp_EmergencyPercent (lm_Policy m) = 0
     then DefaultDiskPolicy else lm_Policy m)"

definition WritesAllowed :: "LogManager \<Rightarrow> bool" where
  "WritesAllowed m \<longleftrightarrow> \<not> lm_blocked m"

definition usedPercent :: "DiskUse \<Rightarrow> rat disk" where
  "usedPercent u = State (\<lambda>d. (du_usage u (dk_ops d) (dk_files d), d\<lparr>dk_ops := dk_ops d + 1\<rparr>))"

section \<open>Which files may be deleted\<close>

definition decimalIntegerName :: "string \<Rightarrow> bool" where
  "decimalIntegerName name \<longleftrightarrow> name \<noteq> [] \<and> list_all is_digit name"

definition deletableLogName :: "string \<Rightarrow> bool" where
  "deletableLogName name \<longleftrightarrow>
    (if suffix ''.log'' name \<or> suffix ''.log.gz'' name then True
     else let trimmed = (if suffix ''.gz'' name then take (length name - 3) name else name);
              number = rev (takeWhile (\<lambda>c. c \<noteq> CHR ''.'') (rev trimmed));
              stem = take (length trimmed - length number - 1) trimmed
       in CHR ''.'' \<in> set trimmed \<and> suffix ''.log'' stem
          \<and> (case Atoi number of None \<Rightarrow> False | Some n \<Rightarrow> n \<ge> 1))"

definition protectedPath :: "string \<Rightarrow> string \<Rightarrow> bool" where
  "protectedPath rt path =
    (case Rel rt path of None \<Rightarrow> True
     | Some rel \<Rightarrow> rel = ''store.db'' \<or> prefix ''store.db/'' rel
         \<or> list_ex (\<lambda>p. rel = p \<or> prefix (p @ ''/'') rel) [''raft'', ''cluster'', ''runtime''])"

record logFile =
  lg_path :: string
  lg_modTime :: gtime

text \<open>The elements of a path below a directory, and the last element of a path.\<close>

definition parts_under :: "string \<Rightarrow> string \<Rightarrow> string list" where
  "parts_under dir p =
    (if IsAbs dir = IsAbs p \<and> prefix (path_elems dir) (path_elems p) then drop (length (path_elems dir)) (path_elems p) else [])"

definition base_name :: "string \<Rightarrow> string" where
  "base_name p = (if path_elems p = [] then [] else List.last (path_elems p))"

text \<open>The walk of \<^verbatim>\<open>logs\<close>.\<close>

definition root_log :: "string \<Rightarrow> string \<Rightarrow> bool" where
  "root_log rt p \<longleftrightarrow> parts_under (Join [rt, ''logs'']) p \<noteq> [] \<and> deletableLogName (base_name p) \<and> \<not> protectedPath rt p"

definition walk_logs :: "DiskEnv \<Rightarrow> string \<Rightarrow> logFile list disk" where
  "walk_logs v rt =
    do { r \<leftarrow> os_call v (''walk '' @ Join [rt, ''logs'']) (\<lambda>fs. Inr (sort_key fst fs, fs));
         case r of Inl e \<Rightarrow> if IsNotExist e then ok [] else throw e
         | Inr fs \<Rightarrow> ok (map (\<lambda>(p, f). \<lparr>lg_path = p, lg_modTime = lf_ModTime f\<rparr>) (filter (\<lambda>(p, f). root_log rt p) fs)) }"

text \<open>The logs in the numbered directories of another directory of logs.\<close>

definition child_dirs :: "string \<Rightarrow> (string, LogFile) gomap \<Rightarrow> string list" where
  "child_dirs extra fs = sort (remdups (map hd (filter (\<lambda>es. 2 \<le> length es) (map (parts_under extra) (map fst fs)))))"

definition child_log :: "string \<Rightarrow> string \<Rightarrow> string \<Rightarrow> bool" where
  "child_log rt child p \<longleftrightarrow> (case parts_under child p of [n] \<Rightarrow> deletableLogName n \<and> \<not> protectedPath rt p | _ \<Rightarrow> False)"

fun child_infos :: "DiskEnv \<Rightarrow> string list \<Rightarrow> logFile list disk" where
  "child_infos v [] = ok []"
| "child_infos v (p # ps) =
    do { r \<leftarrow> os_Stat v p;
         case r of Inl e \<Rightarrow> if IsNotExist e then child_infos v ps else throw e
         | Inr f \<Rightarrow> andthen (child_infos v ps) (\<lambda>fs. ok (\<lparr>lg_path = p, lg_modTime = lf_ModTime f\<rparr> # fs)) }"

fun ordinal_logs :: "DiskEnv \<Rightarrow> string \<Rightarrow> string \<Rightarrow> string list \<Rightarrow> logFile list disk" where
  "ordinal_logs v rt extra [] = ok []"
| "ordinal_logs v rt extra (c # cs) =
    (if \<not> decimalIntegerName c then ordinal_logs v rt extra cs
     else do { r \<leftarrow> os_ReadDir v (Join [extra, c]);
       case r of Inl e \<Rightarrow> if IsNotExist e then ordinal_logs v rt extra cs else throw e
       | Inr fs \<Rightarrow>
           andthen (child_infos v (filter (child_log rt (Join [extra, c])) (map fst fs))) (\<lambda>xs.
           andthen (ordinal_logs v rt extra cs) (\<lambda>ys. ok (xs @ ys))) })"

definition listExtraOrdinalLogs :: "DiskEnv \<Rightarrow> string \<Rightarrow> string \<Rightarrow> logFile list disk" where
  "listExtraOrdinalLogs v rt extra =
    do { r \<leftarrow> os_ReadDir v extra;
         case r of Inl e \<Rightarrow> if IsNotExist e then ok [] else throw e
         | Inr fs \<Rightarrow> ordinal_logs v rt extra (child_dirs extra fs) }"

fun extra_logs :: "DiskUse \<Rightarrow> DiskEnv \<Rightarrow> string \<Rightarrow> string list \<Rightarrow> logFile list disk" where
  "extra_logs u v rt [] = ok []"
| "extra_logs u v rt (extra # es) =
    (if extra = [] \<or> \<not> du_same u rt extra then extra_logs u v rt es
     else andthen (listExtraOrdinalLogs v rt extra) (\<lambda>xs. andthen (extra_logs u v rt es) (\<lambda>ys. ok (xs @ ys))))"

text \<open>The loop over \<^verbatim>\<open>files\<close> with \<^verbatim>\<open>seen\<close>.\<close>

fun dedupe :: "string set \<Rightarrow> logFile list \<Rightarrow> logFile list" where
  "dedupe seen [] = []"
| "dedupe seen (f # fs) = (if lg_path f \<in> seen then dedupe seen fs else f # dedupe (insert (lg_path f) seen) fs)"

definition listDeletableLogs :: "DiskUse \<Rightarrow> DiskEnv \<Rightarrow> LogManager \<Rightarrow> logFile list disk" where
  "listDeletableLogs u v m =
    andthen (walk_logs v (lm_Root m)) (\<lambda>xs.
    andthen (extra_logs u v (lm_Root m) (lm_ExtraLogDirs m)) (\<lambda>ys.
      ok (sort_key (\<lambda>f. (lg_modTime f, lg_path f)) (dedupe {} (xs @ ys)))))"

section \<open>Deleting the oldest\<close>

text \<open>The oldest log is removed; \<open>False\<close> when there is none.\<close>

definition delete_oldest :: "DiskUse \<Rightarrow> DiskEnv \<Rightarrow> LogManager \<Rightarrow> bool disk" where
  "delete_oldest u v m =
    andthen (listDeletableLogs u v m) (\<lambda>files. case files of [] \<Rightarrow> ok False
    | f # _ \<Rightarrow> andthen (unless_missing ''remove log: '' (os_Remove v (lg_path f))) (\<lambda>_. ok True))"

text \<open>
  What reading calls keep of the files: their names, and everything when nothing is written meanwhile. \<open>listed v d P\<close>: the
  call listed the files of \<open>d\<close> with the property \<open>P\<close>.
\<close>

definition file_names :: "Disk \<Rightarrow> string set" where
  "file_names d = set (map fst (dk_files d))"

definition reads :: "DiskEnv \<Rightarrow> Disk \<Rightarrow> Disk \<Rightarrow> bool" where
  "reads v d t \<longleftrightarrow> map fst (dk_files t) = map fst (dk_files d) \<and> (quiet v \<longrightarrow> dk_files t = dk_files d)"

definition listed :: "DiskEnv \<Rightarrow> Disk \<Rightarrow> (string \<Rightarrow> bool) \<Rightarrow> goerror + logFile list \<Rightarrow> Disk \<Rightarrow> bool" where
  "listed v d P r t \<longleftrightarrow> reads v d t \<and> (\<forall>xs. r = Inr xs \<longrightarrow> lg_path ` set xs = {p \<in> file_names d. P p}
     \<and> (quiet v \<and> wfmap (dk_files d) \<longrightarrow>
         (\<forall>f \<in> set xs. map_option lf_ModTime (mget (dk_files d) (lg_path f)) = Some (lg_modTime f))))"

lemma reads_refl [simp]: "reads v d d"
  by (simp add: reads_def)

lemma reads_trans: "reads v d s \<Longrightarrow> reads v s t \<Longrightarrow> reads v d t"
  by (simp add: reads_def)

lemma reads_names: "reads v d t \<Longrightarrow> file_names t = file_names d"
  by (simp only: reads_def file_names_def)

lemma reads_ops [simp]: "reads v (d\<lparr>dk_ops := n\<rparr>) t = reads v d t" "reads v d (t\<lparr>dk_ops := n\<rparr>) = reads v d t"
  by (simp_all add: reads_def)

lemma update_names: "k \<in> set (map fst m) \<Longrightarrow> map fst (mput k x m) = map fst m"
  by (induction m) auto

lemma append_log_names: "map fst (append_log v n fs) = map fst fs"
proof (cases "mget fs (de_log v)")
  case (Some f)
  from mget_SomeD [OF this] have "de_log v \<in> set (map fst fs)" by force
  with Some show ?thesis by (simp add: append_log_def update_names)
qed (simp add: append_log_def)

lemma append_log_quiet: "quiet v \<Longrightarrow> append_log v n fs = fs"
  by (simp add: append_log_def quiet_def)

lemma wp_read:
  assumes "\<And>e. \<not> IsNotExist (Plain (what @ '': '' @ e))"
    and "\<And>fs e. map fst fs = map fst (dk_files d) \<Longrightarrow> f fs = Inl e \<Longrightarrow> \<not> IsNotExist e"
    and "\<And>fs x fs'. f fs = Inr (x, fs') \<Longrightarrow> fs' = fs \<and> R x fs"
  shows "wp (os_call v what f) (\<lambda>r t. reads v d t \<and> (case r of Inl e \<Rightarrow> \<not> IsNotExist e | Inr x \<Rightarrow> R x (dk_files t))) d"
  unfolding os_call_def
  using assms(1) assms(2) [of "append_log v (dk_ops d) (dk_files d)"] assms(3) [of "append_log v (dk_ops d) (dk_files d)"]
  by (auto simp: Let_def reads_def append_log_names append_log_quiet split: option.split sum.split)

lemma wp_open_dir:
  "wp (os_ReadDir v x) (\<lambda>r t. reads v d t \<and> (case r of Inl e \<Rightarrow> \<not> IsNotExist e | Inr fs \<Rightarrow> fs = sort_key fst (dk_files t))) d"
  unfolding os_ReadDir_def by (rule wp_read) (auto simp: IsNotExist_def not_exist_def)

lemma wp_walk:
  "wp (os_call v (''walk '' @ x) (\<lambda>fs. Inr (sort_key fst fs, fs)))
     (\<lambda>r t. reads v d t \<and> (case r of Inl e \<Rightarrow> \<not> IsNotExist e | Inr fs \<Rightarrow> fs = sort_key fst (dk_files t))) d"
  by (rule wp_read) (auto simp: IsNotExist_def not_exist_def)

lemma wp_info:
  assumes "p \<in> file_names d"
  shows "wp (os_Stat v p) (\<lambda>r t. reads v d t \<and> (case r of Inl e \<Rightarrow> \<not> IsNotExist e | Inr f \<Rightarrow> mget (dk_files t) p = Some f)) d"
  unfolding os_Stat_def
proof (rule wp_read)
  fix fs :: "(string, LogFile) gomap" and e
  assume "map fst fs = map fst (dk_files d)" and r: "found p (\<lambda>x. Inr (x, fs)) fs = Inl e"
  with assms have "p \<in> fst ` set fs" by (metis file_names_def list.set_map)
  then have "mget fs p \<noteq> None" by (simp add: map_of_eq_None_iff)
  with r show "\<not> IsNotExist e" by (auto simp: found_def)
qed (auto simp: IsNotExist_def not_exist_def found_def split: option.splits)

section \<open>What is listed\<close>

lemma listed_append:
  assumes "wp c (listed v d P) d" and "\<And>s. reads v d s \<Longrightarrow> wp k (listed v s Q) s"
  shows "wp (andthen c (\<lambda>xs. andthen k (\<lambda>ys. ok (xs @ ys)))) (listed v d (\<lambda>p. P p \<or> Q p)) d"
proof (rule wp_andthenI [OF assms(1)])
  fix xs s assume s: "listed v d P (Inr xs) s"
  then have rs: "reads v d s" by (simp add: listed_def)
  show "wp (andthen k (\<lambda>ys. ok (xs @ ys))) (listed v d (\<lambda>p. P p \<or> Q p)) s"
  proof (rule wp_andthenI [OF assms(2) [OF rs]])
    fix ys t assume t: "listed v s Q (Inr ys) t"
    from s t have "lg_path ` set (xs @ ys) = {p \<in> file_names d. P p \<or> Q p}"
      by (auto simp: listed_def reads_names [OF rs] image_Un)
    moreover have "map_option lf_ModTime (mget (dk_files d) (lg_path f)) = Some (lg_modTime f)"
      if "quiet v" "wfmap (dk_files d)" "f \<in> set (xs @ ys)" for f
      using that s t rs by (auto simp: listed_def reads_def)
    moreover have "reads v d t" using rs t by (auto simp: listed_def intro: reads_trans)
    ultimately show "wp (ok (xs @ ys)) (listed v d (\<lambda>p. P p \<or> Q p)) t" by (simp add: listed_def)
  qed (use rs in \<open>auto simp: listed_def intro: reads_trans\<close>)
qed (simp add: listed_def)

lemma child_infos_listed: "set ps \<subseteq> file_names d \<Longrightarrow> wp (child_infos v ps) (listed v d (\<lambda>p. p \<in> set ps)) d"
proof (induction ps arbitrary: d)
  case Nil
  show ?case by (simp add: listed_def)
next
  case (Cons p ps)
  then have p: "p \<in> file_names d" by simp
  show ?case unfolding child_infos.simps
  proof (rule wp_bindI [OF wp_info [OF p]], rule wp_sumI)
    fix r s e assume "reads v d s \<and> (case r of Inl e \<Rightarrow> \<not> IsNotExist e | Inr f \<Rightarrow> mget (dk_files s) p = Some f)" "r = Inl e"
    then show "wp (if IsNotExist e then child_infos v ps else throw e) (listed v d (\<lambda>q. q \<in> set (p # ps))) s"
      by (simp add: listed_def)
  next
    fix r s f assume "reads v d s \<and> (case r of Inl e \<Rightarrow> \<not> IsNotExist e | Inr f \<Rightarrow> mget (dk_files s) p = Some f)" "r = Inr f"
    then have s: "reads v d s" and f: "mget (dk_files s) p = Some f" by simp_all
    have "set ps \<subseteq> file_names s" using Cons.prems reads_names [OF s] by auto
    from Cons.IH [OF this]
    show "wp (andthen (child_infos v ps) (\<lambda>fs. ok (\<lparr>lg_path = p, lg_modTime = lf_ModTime f\<rparr> # fs)))
        (listed v d (\<lambda>q. q \<in> set (p # ps))) s"
    proof (rule wp_andthenI)
      fix xs t assume t: "listed v s (\<lambda>q. q \<in> set ps) (Inr xs) t"
      with s have r: "reads v d t" by (auto simp: listed_def intro: reads_trans)
      from t p reads_names [OF s] have "lg_path ` set (\<lparr>lg_path = p, lg_modTime = lf_ModTime f\<rparr> # xs)
          = {q \<in> file_names d. q \<in> set (p # ps)}" by (auto simp: listed_def)
      with r t s f show "wp (ok (\<lparr>lg_path = p, lg_modTime = lf_ModTime f\<rparr> # xs)) (listed v d (\<lambda>q. q \<in> set (p # ps))) t"
        by (auto simp: listed_def reads_def)
    qed (use s in \<open>auto simp: listed_def intro: reads_trans\<close>)
  qed
qed

lemma listed_cong: "listed v d P r t \<Longrightarrow> (\<And>p. p \<in> file_names d \<Longrightarrow> P p = Q p) \<Longrightarrow> listed v d Q r t"
  unfolding listed_def by (metis (no_types, lifting) Collect_cong)

lemma wp_listed_cong: "wp c (listed v d P) s \<Longrightarrow> (\<And>p. p \<in> file_names d \<Longrightarrow> P p = Q p) \<Longrightarrow> wp c (listed v d Q) s"
  by (erule wp_mono, rule listed_cong)

lemma listed_from: "reads v d s \<Longrightarrow> listed v s P r t \<Longrightarrow> listed v d P r t"
  by (auto simp: listed_def reads_names intro: reads_trans) (simp add: reads_def)+

lemma wp_listed_from: "reads v d s \<Longrightarrow> wp c (listed v s P) s \<Longrightarrow> wp c (listed v d P) s"
  by (erule wp_mono, rule listed_from)

lemma wp_opened:
  assumes "wp c (\<lambda>r t. reads v d t \<and> (case r of Inl e \<Rightarrow> \<not> IsNotExist e | Inr fs \<Rightarrow> fs = sort_key fst (dk_files t))) d"
    and "\<And>s. reads v d s \<Longrightarrow> wp (k (sort_key fst (dk_files s))) (listed v d P) s"
  shows "wp (do { r \<leftarrow> c; case r of Inl e \<Rightarrow> if IsNotExist e then m else throw e | Inr fs \<Rightarrow> k fs }) (listed v d P) d"
  by (rule wp_bindI [OF assms(1)]) (auto simp: assms(2) listed_def split: sum.splits)

lemma ordinal_logs_listed:
  "wp (ordinal_logs v rt extra cs)
     (listed v d (\<lambda>p. \<exists>c \<in> set cs. decimalIntegerName c \<and> child_log rt (Join [extra, c]) p)) d"
proof (induction cs arbitrary: d)
  case (Cons c cs)
  let ?P = "\<lambda>p. \<exists>c \<in> set (c # cs). decimalIntegerName c \<and> child_log rt (Join [extra, c]) p"
  show ?case
  proof (cases "decimalIntegerName c")
    case False
    then show ?thesis
      unfolding ordinal_logs.simps if_P [OF False] by (intro wp_listed_cong [OF Cons.IH]) auto
  next
    case True
    have "wp (andthen (child_infos v (filter (child_log rt (Join [extra, c])) (map fst fs)))
        (\<lambda>xs. andthen (ordinal_logs v rt extra cs) (\<lambda>ys. ok (xs @ ys)))) (listed v d ?P) s"
      if s: "reads v d s" and fs: "fs = sort_key fst (dk_files s)" for s fs
    proof -
      let ?ps = "filter (child_log rt (Join [extra, c])) (map fst fs)"
      have ps: "set ?ps = {p \<in> file_names s. child_log rt (Join [extra, c]) p}"
        unfolding fs file_names_def by auto
      then have "wp (child_infos v ?ps) (listed v s (\<lambda>p. p \<in> set ?ps)) s" by (intro child_infos_listed) auto
      note both = listed_append [OF this Cons.IH]
      show ?thesis
        by (rule wp_listed_from [OF s], rule wp_listed_cong [OF both]) (use True ps in auto)
    qed
    with True show ?thesis
      unfolding ordinal_logs.simps by (simp only: not_True_eq_False if_False) (rule wp_opened [OF wp_open_dir], blast)
  qed
qed (simp add: listed_def)

text \<open>The logs below another directory, in terms of the names \<open>N\<close> of all files.\<close>

definition below_extra :: "string \<Rightarrow> string \<Rightarrow> string set \<Rightarrow> string \<Rightarrow> bool" where
  "below_extra rt extra N p \<longleftrightarrow> (\<exists>q \<in> N. 2 \<le> length (parts_under extra q) \<and> decimalIntegerName (hd (parts_under extra q))
     \<and> child_log rt (Join [extra, hd (parts_under extra q)]) p)"

lemma listExtra_listed: "wp (listExtraOrdinalLogs v rt extra) (listed v d (below_extra rt extra (file_names d))) d"
  unfolding listExtraOrdinalLogs_def
proof (rule wp_opened [OF wp_open_dir])
  fix s assume s: "reads v d s"
  have "set (child_dirs extra (sort_key fst (dk_files s))) = hd ` {es \<in> parts_under extra ` file_names s. 2 \<le> length es}"
    unfolding child_dirs_def file_names_def by (simp add: image_image)
  then have "(\<exists>c \<in> set (child_dirs extra (sort_key fst (dk_files s))). decimalIntegerName c \<and> child_log rt (Join [extra, c]) p)
      = below_extra rt extra (file_names d) p" for p
    unfolding below_extra_def reads_names [OF s] by auto
  then show "wp (ordinal_logs v rt extra (child_dirs extra (sort_key fst (dk_files s)))) (listed v d (below_extra rt extra (file_names d))) s"
    by (intro wp_listed_from [OF s] wp_listed_cong [OF ordinal_logs_listed]) simp
qed

lemma extra_logs_listed:
  "wp (extra_logs u v rt es) (listed v d (\<lambda>p. \<exists>e \<in> set es. e \<noteq> [] \<and> du_same u rt e \<and> below_extra rt e (file_names d) p)) d"
proof (induction es arbitrary: d)
  case (Cons e es)
  show ?case
  proof (cases "e = [] \<or> \<not> du_same u rt e")
    case True
    then show ?thesis
      unfolding extra_logs.simps if_P [OF True] by (intro wp_listed_cong [OF Cons.IH]) auto
  next
    case False
    have "wp (andthen (listExtraOrdinalLogs v rt e) (\<lambda>xs. andthen (extra_logs u v rt es) (\<lambda>ys. ok (xs @ ys))))
      (listed v d (\<lambda>p. below_extra rt e (file_names d) p
        \<or> (\<exists>e \<in> set es. e \<noteq> [] \<and> du_same u rt e \<and> below_extra rt e (file_names d) p))) d"
    proof (rule listed_append [OF listExtra_listed])
      fix s assume "reads v d s"
      from Cons.IH [of s] reads_names [OF this]
      show "wp (extra_logs u v rt es) (listed v s (\<lambda>p. \<exists>e \<in> set es. e \<noteq> [] \<and> du_same u rt e \<and> below_extra rt e (file_names d) p)) s"
        by simp
    qed
    then show ?thesis
      unfolding extra_logs.simps if_not_P [OF False] by (rule wp_listed_cong) (use False in auto)
  qed
qed (simp add: listed_def)

lemma walk_listed: "wp (walk_logs v rt) (listed v d (root_log rt)) d"
  unfolding walk_logs_def
proof (rule wp_opened [OF wp_walk])
  fix s assume s: "reads v d s"
  let ?xs = "map (\<lambda>(p, f). \<lparr>lg_path = p, lg_modTime = lf_ModTime f\<rparr>) (filter (\<lambda>(p, f). root_log rt p) (sort_key fst (dk_files s)))"
  have "lg_path ` set ?xs = {p \<in> file_names d. root_log rt p}"
    unfolding reads_names [OF s, symmetric] by (force simp: file_names_def image_iff)
  moreover have "\<forall>f \<in> set ?xs. map_option lf_ModTime (mget (dk_files d) (lg_path f)) = Some (lg_modTime f)"
    if "quiet v" "wfmap (dk_files d)"
    using that s by (auto simp: reads_def mget_in_set [symmetric])
  ultimately show "wp (ok ?xs) (listed v d (root_log rt)) s" using s by (simp add: listed_def)
qed

text \<open>All of them.\<close>

definition deletable_in :: "DiskUse \<Rightarrow> LogManager \<Rightarrow> string set \<Rightarrow> string \<Rightarrow> bool" where
  "deletable_in u m N p \<longleftrightarrow> root_log (lm_Root m) p
     \<or> (\<exists>e \<in> set (lm_ExtraLogDirs m). e \<noteq> [] \<and> du_same u (lm_Root m) e \<and> below_extra (lm_Root m) e N p)"

abbreviation age_key :: "logFile \<Rightarrow> gtime \<times> string" where
  "age_key f \<equiv> (lg_modTime f, lg_path f)"

lemma dedupe_paths: "lg_path ` set (dedupe seen fs) = lg_path ` set fs - seen"
  by (induction fs arbitrary: seen) auto

lemma dedupe_sub: "set (dedupe seen fs) \<subseteq> set fs"
  by (induction fs arbitrary: seen) auto

lemma dedupe_distinct: "distinct (map lg_path (dedupe seen fs))"
proof (induction fs arbitrary: seen)
  case (Cons f fs)
  have "lg_path f \<notin> lg_path ` set (dedupe (insert (lg_path f) seen) fs)" unfolding dedupe_paths by simp
  with Cons show ?case by simp
qed simp

lemma listDeletable_listed:
  "wp (listDeletableLogs u v m) (\<lambda>r t. listed v d (deletable_in u m (file_names d)) r t
     \<and> (\<forall>xs. r = Inr xs \<longrightarrow> distinct (map lg_path xs) \<and> sorted (map age_key xs))) d"
proof -
  let ?c = "andthen (walk_logs v (lm_Root m)) (\<lambda>xs. andthen (extra_logs u v (lm_Root m) (lm_ExtraLogDirs m)) (\<lambda>ys. ok (xs @ ys)))"
  let ?k = "\<lambda>zs. sort_key age_key (dedupe {} zs)"
  have all: "wp ?c (listed v d (deletable_in u m (file_names d))) d"
  proof (rule wp_listed_cong [OF listed_append [OF walk_listed]])
    show "wp (extra_logs u v (lm_Root m) (lm_ExtraLogDirs m)) (listed v s (\<lambda>p. \<exists>e \<in> set (lm_ExtraLogDirs m). e \<noteq> []
        \<and> du_same u (lm_Root m) e \<and> below_extra (lm_Root m) e (file_names d) p)) s" if "reads v d s" for s
      using extra_logs_listed [of u v "lm_Root m" "lm_ExtraLogDirs m" s] by (simp only: reads_names [OF that])
  qed (simp add: deletable_in_def)
  have eq: "listDeletableLogs u v m = andthen ?c (\<lambda>zs. ok (?k zs))"
    unfolding listDeletableLogs_def andthen_def
    by (auto simp: State_Monad.bind_def State_Monad.return_def fun_eq_iff split: prod.split sum.split)
  show ?thesis unfolding eq
  proof (rule wp_andthenI [OF all])
    fix zs t assume t: "listed v d (deletable_in u m (file_names d)) (Inr zs) t"
    have "lg_path ` set (?k zs) = lg_path ` set zs" "set (?k zs) \<subseteq> set zs"
      using dedupe_paths [of "{}" zs] dedupe_sub [of "{}" zs] by simp_all
    with t have "listed v d (deletable_in u m (file_names d)) (Inr (?k zs)) t" by (auto simp: listed_def)
    moreover have "distinct (map lg_path (?k zs))"
      using dedupe_distinct [of "{}" zs] by (simp add: distinct_map)
    ultimately show "wp (ok (?k zs)) (\<lambda>r t. listed v d (deletable_in u m (file_names d)) r t
        \<and> (\<forall>xs. r = Inr xs \<longrightarrow> distinct (map lg_path xs) \<and> sorted (map age_key xs))) t" by simp
  qed simp
qed

text \<open>The removal takes one file away, unless it fails.\<close>

lemma length_mdel:
  assumes "k \<in> set (map fst m)"
  shows "length (mdel k m) < length m"
proof -
  from assms obtain b where "(k, b) \<in> set m" by auto
  then show ?thesis unfolding AList.delete_eq by (rule length_filter_less) simp
qed

lemma delete_oldest_fewer:
  "wp (delete_oldest u v m) (\<lambda>r t. r = Inr True \<longrightarrow> length (dk_files t) < length (dk_files d)) d"
  unfolding delete_oldest_def
proof (rule wp_andthenI [OF listDeletable_listed])
  fix xs s
  assume "listed v d (deletable_in u m (file_names d)) (Inr xs) s
    \<and> (\<forall>ys. Inr xs = Inr ys \<longrightarrow> distinct (map lg_path ys) \<and> sorted (map age_key ys))"
  then have s: "reads v d s" and xs: "lg_path ` set xs \<subseteq> file_names d" by (auto simp: listed_def)
  from s have len: "length (dk_files s) = length (dk_files d)" by (metis reads_def length_map)
  show "wp (case xs of [] \<Rightarrow> ok False | f # _ \<Rightarrow> andthen (unless_missing ''remove log: '' (os_Remove v (lg_path f))) (\<lambda>_. ok True))
      (\<lambda>r t. r = Inr True \<longrightarrow> length (dk_files t) < length (dk_files d)) s"
  proof (cases xs)
    case (Cons f fs)
    let ?fs = "append_log v (dk_ops s) (dk_files s)"
    have f: "lg_path f \<in> set (map fst ?fs)"
      using xs Cons by (simp only: append_log_names reads_names [OF s, unfolded file_names_def] file_names_def) auto
    then obtain x where x: "mget ?fs (lg_path f) = Some x" by (metis list.set_map map_of_eq_None_iff not_None_eq)
    have "length ?fs = length (dk_files d)" using arg_cong [OF append_log_names, of length] len by simp
    with length_mdel [OF f] x Cons show ?thesis
      by (auto simp: os_Remove_def os_call_def unless_missing_def found_def Let_def IsNotExist_def not_exist_def split: option.split)
  qed simp
qed simp

lemma delete_oldest_less: "run_state (delete_oldest u v m) d = (Inr True, t) \<Longrightarrow> length (dk_files t) < length (dk_files d)"
  using wp_runD [OF delete_oldest_fewer] by blast

text \<open>The loop over the use of the disk. Its caller does not look at the use that comes with an error.\<close>

function delete_loop :: "DiskUse \<Rightarrow> DiskEnv \<Rightarrow> LogManager \<Rightarrow> rat \<Rightarrow> rat \<Rightarrow> Disk \<Rightarrow> (goerror + rat) \<times> Disk" where
  "delete_loop u v m stopAt used d =
    (if used \<le> stopAt then (Inr used, d)
     else case du_cancelled u (dk_ops d) of Some e \<Rightarrow> (Inl e, d)
     | None \<Rightarrow> (case run_state (delete_oldest u v m) d of
         (Inl e, t) \<Rightarrow> (Inl e, t)
       | (Inr again, t) \<Rightarrow>
           if \<not> again then (Inr used, t)
           else (case run_state (usedPercent u) t of
               (Inl e, t') \<Rightarrow> (Inl e, t')
             | (Inr used', t') \<Rightarrow> delete_loop u v m stopAt used' t')))"
  by pat_completeness auto
termination
proof (relation "measure (\<lambda>(u, v, m, stopAt, used, d). length (dk_files d))", simp, unfold in_measure prod.case)
  fix u v m and d t t' :: Disk and x1 x2 again used' and a b
  assume "(x1, t) = run_state (delete_oldest u v m) d" "x1 = Inr again" "\<not> \<not> again"
    and u: "(x2, t') = run_state (usedPercent u) t"
  then have "run_state (delete_oldest u v m) d = (Inr True, t)" by simp
  from delete_oldest_less [OF this] u show "length (dk_files t') < length (dk_files d)" by (simp add: usedPercent_def)
qed

declare delete_loop.simps [simp del]

definition deleteOldestLogs :: "DiskUse \<Rightarrow> DiskEnv \<Rightarrow> LogManager \<Rightarrow> rat \<Rightarrow> rat disk" where
  "deleteOldestLogs u v m stopAt = andthen (usedPercent u) (\<lambda>used. State (delete_loop u v m stopAt used))"

definition set_blocked :: "DiskPolicy \<Rightarrow> Level \<Rightarrow> rat \<Rightarrow> LogManager \<Rightarrow> LogManager" where
  "set_blocked p level used m =
    (let b = (if dp_EmergencyStopWrites p \<and> level = LevelEmergency then True else lm_blocked m) in
     m\<lparr>lm_blocked := (if b \<and> used \<le> of_int (dp_CleanupPercent p) then False else b)\<rparr>)"

text \<open>No caller looks at the level that comes with an error.\<close>

definition Protect :: "DiskUse \<Rightarrow> DiskEnv \<Rightarrow> LogManager \<Rightarrow> (Disk, (goerror + Level) \<times> LogManager) state" where
  "Protect u v m = do {
     c \<leftarrow> gets (\<lambda>d. du_cancelled u (dk_ops d));
     case c of Some e \<Rightarrow> ret (Inl e, m)
     | None \<Rightarrow> do {
         r \<leftarrow> usedPercent u;
         case r of Inl e \<Rightarrow> ret (Inl e, m)
         | Inr used \<Rightarrow>
             let p = log_policy m; level = classify p used in do {
               r \<leftarrow> (if dp_AutoDelete p \<and> level \<in> {LevelCleanup, LevelEmergency}
                     then deleteOldestLogs u v m (of_int (dp_WarnPercent p)) else ok used);
               case r of Inl e \<Rightarrow> ret (Inl e, m)
               | Inr used \<Rightarrow> ret (Inr level, set_blocked p level used m) } } }"

section \<open>The oldest logs, and no more than needed\<close>

text \<open>The logs that may be deleted, the oldest first, and the files without the first \<open>j\<close> of them.\<close>

definition extra_log :: "string \<Rightarrow> string \<Rightarrow> string \<Rightarrow> bool" where
  "extra_log rt extra p \<longleftrightarrow> (case parts_under extra p of
     [c, n] \<Rightarrow> decimalIntegerName c \<and> deletableLogName n \<and> \<not> protectedPath rt p | _ \<Rightarrow> False)"

definition can_delete :: "DiskUse \<Rightarrow> LogManager \<Rightarrow> string \<Rightarrow> bool" where
  "can_delete u m p \<longleftrightarrow> root_log (lm_Root m) p
     \<or> (\<exists>e \<in> set (lm_ExtraLogDirs m). e \<noteq> [] \<and> du_same u (lm_Root m) e \<and> extra_log (lm_Root m) e p)"

definition oldest_first :: "DiskUse \<Rightarrow> LogManager \<Rightarrow> (string, LogFile) gomap \<Rightarrow> logFile list" where
  "oldest_first u m fs = sort_key age_key
     (map (\<lambda>(p, f). \<lparr>lg_path = p, lg_modTime = lf_ModTime f\<rparr>) (filter (\<lambda>(p, f). can_delete u m p) fs))"

definition after_deleting :: "DiskUse \<Rightarrow> LogManager \<Rightarrow> nat \<Rightarrow> (string, LogFile) gomap \<Rightarrow> (string, LogFile) gomap" where
  "after_deleting u m j fs = filter (\<lambda>(p, f). p \<notin> lg_path ` set (take j (oldest_first u m fs))) fs"

definition measured :: "DiskUse \<Rightarrow> (string, LogFile) gomap \<Rightarrow> rat \<Rightarrow> bool" where
  "measured u fs x \<longleftrightarrow> (\<exists>n. du_usage u n fs = Inr x)"

definition absolute_dirs :: "LogManager \<Rightarrow> bool" where
  "absolute_dirs m \<longleftrightarrow> list_all (\<lambda>e. e = [] \<or> IsAbs e) (lm_ExtraLogDirs m)"

lemma split_slash_app: "split_slash (a @ CHR ''/'' # b) = split_slash a @ split_slash b"
proof (induction a)
  case (Cons c a)
  then show ?case using split_slash_nonempty [of a] by (auto split: list.split)
qed simp

lemma decimal_plain: "decimalIntegerName c \<Longrightarrow> plain_elem c"
  by (auto simp: decimalIntegerName_def plain_elem_def is_digit_def list_all_iff Let_def)

lemma path_elems_child:
  assumes "IsAbs extra" and "plain_elem c"
  shows "path_elems (Join [extra, c]) = path_elems extra @ [c]" and "IsAbs (Join [extra, c])"
proof -
  have abs: "IsAbs (extra @ CHR ''/'' # c)" using assms(1) by (cases extra) (auto simp: IsAbs_def)
  have j: "Join [extra, c] = Clean (extra @ CHR ''/'' # c)"
    using assms by (auto simp: Join_def IsAbs_def plain_elem_def)
  have "split_slash (extra @ CHR ''/'' # c) = split_slash extra @ [c]"
    using assms(2) by (simp add: split_slash_app split_slash_word plain_elem_def)
  then have "path_elems (extra @ CHR ''/'' # c) = path_elems extra @ [c]"
    using abs assms by (simp add: path_elems_def clean_step_def plain_elem_def)
  with abs show "path_elems (Join [extra, c]) = path_elems extra @ [c]" "IsAbs (Join [extra, c])"
    by (simp_all add: j path_elems_Clean IsAbs_Clean)
qed

lemma parts_under_iff:
  "parts_under extra p = x # xs \<longleftrightarrow> IsAbs extra = IsAbs p \<and> path_elems p = path_elems extra @ x # xs"
  by (auto simp: parts_under_def prefix_def)

lemma below_extra_iff:
  assumes "IsAbs extra" and "p \<in> N"
  shows "below_extra rt extra N p \<longleftrightarrow> extra_log rt extra p"
proof
  assume "below_extra rt extra N p"
  then obtain c where c: "decimalIntegerName c" and l: "child_log rt (Join [extra, c]) p" by (auto simp: below_extra_def)
  from l obtain n where n: "parts_under (Join [extra, c]) p = [n]" by (auto simp: child_log_def split: list.splits)
  then have "parts_under extra p = [c, n]"
    unfolding parts_under_iff using path_elems_child [OF assms(1) decimal_plain [OF c]] assms(1) by simp
  with c l n show "extra_log rt extra p" by (simp add: extra_log_def child_log_def)
next
  assume e: "extra_log rt extra p"
  then obtain c n where p: "parts_under extra p = [c, n]" and c: "decimalIntegerName c"
    by (auto simp: extra_log_def split: list.splits)
  then have "parts_under (Join [extra, c]) p = [n]"
    unfolding parts_under_iff using path_elems_child [OF assms(1) decimal_plain [OF c]] assms(1) by simp
  with p e have "child_log rt (Join [extra, c]) p" by (simp add: extra_log_def child_log_def)
  with assms(2) p c show "below_extra rt extra N p" unfolding below_extra_def by (intro bexI [of _ p]) simp_all
qed

lemma deletable_in_iff: "absolute_dirs m \<Longrightarrow> p \<in> N \<Longrightarrow> deletable_in u m N p \<longleftrightarrow> can_delete u m p"
  unfolding deletable_in_def can_delete_def absolute_dirs_def list_all_iff using below_extra_iff by metis

lemma age_key_inj: "inj_on age_key A"
  by (auto simp: inj_on_def intro: logFile.equality)

lemma oldest_first_paths:
  assumes "wfmap fs"
  shows "distinct (map lg_path (oldest_first u m fs))"
proof -
  have "map lg_path (map (\<lambda>(p, f). \<lparr>lg_path = p, lg_modTime = lf_ModTime f\<rparr>) (filter (\<lambda>(p, f). can_delete u m p) fs))
      = map fst (filter (\<lambda>(p, f). can_delete u m p) fs)" by (simp add: comp_def case_prod_beta)
  moreover have "distinct (map fst (filter (\<lambda>(p, f). can_delete u m p) fs))"
    using assms by (simp add: wfmap_def distinct_map_filter)
  ultimately have "distinct (map lg_path (map (\<lambda>(p, f). \<lparr>lg_path = p, lg_modTime = lf_ModTime f\<rparr>) (filter (\<lambda>(p, f). can_delete u m p) fs)))"
    by (simp only:)
  then show ?thesis unfolding oldest_first_def by (simp only: distinct_map distinct_sort set_sort)
qed

lemma listDeletable_oldest:
  assumes q: "quiet v" and wf: "wfmap (dk_files d)" and abs: "absolute_dirs m"
  shows "wp (listDeletableLogs u v m) (\<lambda>r t. dk_files t = dk_files d \<and> (\<forall>xs. r = Inr xs \<longrightarrow> xs = oldest_first u m (dk_files d))) d"
proof (rule wp_mono [OF listDeletable_listed], elim conjE, intro conjI allI impI)
  fix r t assume "listed v d (deletable_in u m (file_names d)) r t"
  with q show "dk_files t = dk_files d" by (simp add: listed_def reads_def)
next
  fix r t xs assume l: "listed v d (deletable_in u m (file_names d)) r t" and r: "r = Inr xs"
    and s: "\<forall>xs. r = Inr xs \<longrightarrow> distinct (map lg_path xs) \<and> sorted (map age_key xs)"
  let ?ys = "oldest_first u m (dk_files d)"
  have dist: "distinct (map age_key zs)" if "distinct (map lg_path zs)" for zs
    using that by (auto simp: distinct_map inj_on_def)
  have paths: "lg_path ` set xs = {p \<in> file_names d. can_delete u m p}"
    and times: "f \<in> set xs \<Longrightarrow> map_option lf_ModTime (mget (dk_files d) (lg_path f)) = Some (lg_modTime f)" for f
    using l r q wf deletable_in_iff [OF abs] by (auto simp: listed_def)
  have "set (map age_key xs) = {(lf_ModTime f, p) |p f. mget (dk_files d) p = Some f \<and> can_delete u m p}" (is "_ = ?S")
  proof (intro set_eqI iffI)
    fix k assume "k \<in> set (map age_key xs)"
    then obtain g where g: "g \<in> set xs" "k = age_key g" by auto
    from g(1) paths have "can_delete u m (lg_path g)" by blast
    with g times [OF g(1)] show "k \<in> ?S" by auto
  next
    fix k assume "k \<in> ?S"
    then obtain p f where k: "k = (lf_ModTime f, p)" "mget (dk_files d) p = Some f" "can_delete u m p" by blast
    from mget_SomeD [OF k(2)] have "p \<in> file_names d" by (force simp: file_names_def)
    with k(3) have "p \<in> lg_path ` set xs" by (simp add: paths)
    then obtain g where g: "g \<in> set xs" "p = lg_path g" by blast
    with times [OF g(1)] k show "k \<in> set (map age_key xs)" by force
  qed
  also have "\<dots> = set (map age_key ?ys)"
    unfolding oldest_first_def mget_in_set [OF wf] by force
  finally have "map age_key xs = map age_key ?ys"
    using s r dist oldest_first_paths [OF wf] by (intro sorted_distinct_set_unique) (simp_all add: oldest_first_def)
  then show "xs = ?ys" by (rule map_injective) (rule age_key_inj)
qed

lemma after_deleting_0 [simp]: "after_deleting u m 0 fs = fs"
  by (simp add: after_deleting_def)

lemma oldest_first_tail:
  assumes "wfmap fs" and o: "oldest_first u m fs = f # rest"
  shows "oldest_first u m (mdel (lg_path f) fs) = rest"
    and "after_deleting u m (Suc j) fs = after_deleting u m j (mdel (lg_path f) fs)"
proof -
  from oldest_first_paths [OF assms(1), of u m] o have "lg_path f \<notin> lg_path ` set rest" by simp
  then have d: "\<forall>g \<in> set rest. lg_path g \<noteq> lg_path f" by (metis imageI)
  have del: "mdel (lg_path f) fs = filter (\<lambda>(p, _). p \<noteq> lg_path f) fs" by (simp add: AList.delete_eq eq_commute)
  have "oldest_first u m (mdel (lg_path f) fs) = filter (\<lambda>g. lg_path g \<noteq> lg_path f) (oldest_first u m fs)"
    unfolding oldest_first_def del filter_sort filter_map
    by (rule arg_cong [where f = "\<lambda>zs. sort_key age_key (map _ zs)"]) (auto intro!: filter_cong)
  also have "\<dots> = rest" unfolding o using d by (auto simp: filter_id_conv)
  finally show t: "oldest_first u m (mdel (lg_path f) fs) = rest" .
  show "after_deleting u m (Suc j) fs = after_deleting u m j (mdel (lg_path f) fs)"
    unfolding after_deleting_def t o unfolding del by (auto intro!: filter_cong)
qed

lemma delete_oldest_exact:
  assumes q: "quiet v" and wf: "wfmap (dk_files d)" and abs: "absolute_dirs m" and run: "run_state (delete_oldest u v m) d = (r, t)"
  shows "case r of Inl e \<Rightarrow> dk_files t = dk_files d
    | Inr again \<Rightarrow> (if again then (\<exists>f rest. oldest_first u m (dk_files d) = f # rest \<and> dk_files t = mdel (lg_path f) (dk_files d))
        else oldest_first u m (dk_files d) = [] \<and> dk_files t = dk_files d)"
    (is "?post r t")
proof -
  have "wp (delete_oldest u v m) ?post d"
    unfolding delete_oldest_def
  proof (rule wp_andthenI [OF listDeletable_oldest [OF q wf abs]])
    fix xs and s :: Disk
    assume "dk_files s = dk_files d \<and> (\<forall>ys. Inr xs = Inr ys \<longrightarrow> ys = oldest_first u m (dk_files d))"
    then have s: "dk_files s = dk_files d" and xs: "oldest_first u m (dk_files d) = xs" by simp_all
    show "wp (case xs of [] \<Rightarrow> ok False | f # _ \<Rightarrow> andthen (unless_missing ''remove log: '' (os_Remove v (lg_path f))) (\<lambda>_. ok True)) ?post s"
    proof (cases xs)
      case (Cons f fs)
      have "f \<in> set (oldest_first u m (dk_files d))" using xs Cons by simp
      then obtain x where "(lg_path f, x) \<in> set (dk_files d)" by (auto simp: oldest_first_def)
      then have "mget (dk_files d) (lg_path f) = Some x" by (simp add: mget_in_set [OF wf])
      with Cons xs s show ?thesis
        by (auto simp: os_Remove_def os_call_def unless_missing_def found_def append_log_quiet [OF q] Let_def IsNotExist_def
            not_exist_def split: option.split)
    qed (simp add: s xs)
  qed simp
  from wp_runD [OF this run] show ?thesis .
qed

text \<open>The loop deletes the first \<open>k\<close> files.\<close>

definition deletes :: "DiskUse \<Rightarrow> LogManager \<Rightarrow> rat \<Rightarrow> rat \<Rightarrow> (string, LogFile) gomap \<Rightarrow> goerror + rat \<Rightarrow> (string, LogFile) gomap \<Rightarrow> nat \<Rightarrow> bool" where
  "deletes u m stopAt used fs r fs' k \<longleftrightarrow> k \<le> length (oldest_first u m fs) \<and> fs' = after_deleting u m k fs
     \<and> (0 < k \<longrightarrow> stopAt < used)
     \<and> (\<forall>j. 0 < j \<and> j < k \<longrightarrow> (\<exists>x. measured u (after_deleting u m j fs) x \<and> stopAt < x))
     \<and> (\<forall>x. r = Inr x \<longrightarrow> (if k = 0 then x = used else measured u fs' x) \<and> (x \<le> stopAt \<or> k = length (oldest_first u m fs)))"

lemma deletes_Suc:
  assumes wf: "wfmap fs" and o: "oldest_first u m fs = f # rest" and used: "stopAt < used"
    and x: "measured u (mdel (lg_path f) fs) used'" and k: "deletes u m stopAt used' (mdel (lg_path f) fs) r fs' k"
  shows "deletes u m stopAt used fs r fs' (Suc k)"
proof -
  note tail = oldest_first_tail [OF wf o]
  have "\<exists>y. measured u (after_deleting u m j fs) y \<and> stopAt < y" if j: "0 < j" "j < Suc k" for j
  proof (cases j)
    case (Suc i)
    show ?thesis
    proof (cases "i = 0")
      case True
      with j Suc k x show ?thesis by (auto simp: deletes_def tail(2))
    next
      case False
      with j Suc k show ?thesis by (auto simp: deletes_def tail(2))
    qed
  qed (use j in simp)
  moreover have "measured u fs' y \<and> (y \<le> stopAt \<or> Suc k = length (oldest_first u m fs))" if "r = Inr y" for y
    using that k x by (auto simp: deletes_def tail(1) o split: if_splits)
  ultimately show ?thesis using k used by (simp add: deletes_def tail o)
qed

lemma delete_loop_exact:
  assumes "quiet v" and "wfmap (dk_files d)" and "absolute_dirs m" and "delete_loop u v m stopAt used d = (r, d')"
  shows "\<exists>k. deletes u m stopAt used (dk_files d) r (dk_files d') k"
  using assms
proof (induction u v m stopAt used d arbitrary: r d' rule: delete_loop.induct)
  case (1 u v m stopAt used d)
  note wf = 1(3) and run = 1(5)
  have none: ?case if "dk_files d' = dk_files d" "\<And>x. r = Inr x \<Longrightarrow> x = used \<and> (x \<le> stopAt \<or> oldest_first u m (dk_files d) = [])"
    using that by (intro exI [of _ 0]) (auto simp: deletes_def)
  show ?case
  proof (cases "used \<le> stopAt \<or> du_cancelled u (dk_ops d) \<noteq> None")
    case True
    with run show ?thesis by (intro none) (auto simp: delete_loop.simps [of u v m stopAt used d] split: if_splits)
  next
    case False
    then have used: "\<not> used \<le> stopAt" and c: "du_cancelled u (dk_ops d) = None" by auto
    obtain r1 t where del: "run_state (delete_oldest u v m) d = (r1, t)" by (cases "run_state (delete_oldest u v m) d") auto
    note eff = delete_oldest_exact [OF 1(2,3,4) del]
    show ?thesis
    proof (cases "r1 = Inr True")
      case not_more: False
      with run used c del eff show ?thesis
        by (intro none) (auto simp: delete_loop.simps [of u v m stopAt used d] split: sum.splits)
    next
      case True
      with eff obtain f rest where o: "oldest_first u m (dk_files d) = f # rest" and t: "dk_files t = mdel (lg_path f) (dk_files d)"
        by auto
      obtain r2 t' where use: "run_state (usedPercent u) t = (r2, t')" by (cases "run_state (usedPercent u) t") auto
      then have t': "dk_files t' = dk_files t" and r2: "r2 = du_usage u (dk_ops t) (dk_files t)" by (auto simp: usedPercent_def)
      show ?thesis
      proof (cases r2)
        case (Inl e)
        with run used c del True use have "r = Inl e" "d' = t'" by (simp_all add: delete_loop.simps [of u v m stopAt used d])
        moreover have "deletes u m stopAt used (dk_files d) (Inl e) (dk_files t') 1"
          using used o t t' oldest_first_tail(2) [OF wf o, of 0] by (simp add: deletes_def)
        ultimately show ?thesis by blast
      next
        case (Inr used')
        with run used c del True use have "delete_loop u v m stopAt used' t' = (r, d')"
          by (simp add: delete_loop.simps [of u v m stopAt used d])
        moreover have "wfmap (dk_files t')" using wf t t' by simp
        ultimately obtain k where "deletes u m stopAt used' (dk_files t') r (dk_files d') k"
          using 1(1) [OF used c del [symmetric] True _ use [symmetric] Inr] 1(2,4) by auto
        moreover have "measured u (mdel (lg_path f) (dk_files d)) used'" using r2 Inr t by (auto simp: measured_def)
        ultimately have "deletes u m stopAt used (dk_files d) r (dk_files d') (Suc k)"
          using used t t' by (intro deletes_Suc [OF wf o]) simp_all
        then show ?thesis by blast
      qed
    qed
  qed
qed

text \<open>
  C24: The protection of the disk deletes the oldest logs, and no more than needed. Take an agent on whose disk nothing else is
  written while \<open>Protect\<close> runs, and order the logs that may be deleted (those below \<^verbatim>\<open>logs\<close> and in the numbered directories
  of the other log directories on the same file system, by their names, never what is kept of the store, the cluster and
  the control plane) from the oldest to the newest. Whatever calls of the operating system fail, the files that are gone
  afterwards are the first \<open>k\<close> of them. Some are gone only if deletion is allowed and the use of the disk was above the
  clean-up percentage; before each deletion it was above the warning percentage. And if \<open>Protect\<close> reports this level without an
  error, the use is at most the warning percentage in the end, or no log is left that may be deleted.
\<close>

theorem protect_deletes_oldest:
  assumes q: "quiet v" and wf: "wfmap (dk_files d)" and abs: "absolute_dirs m"
    and run: "run_state (Protect u v m) d = ((r, m'), d')"
  shows "\<exists>k \<le> length (oldest_first u m (dk_files d)). dk_files d' = after_deleting u m k (dk_files d)
    \<and> (0 < k \<longrightarrow> dp_AutoDelete (log_policy m)
        \<and> (\<exists>x. measured u (dk_files d) x \<and> classify (log_policy m) x \<in> {LevelCleanup, LevelEmergency}))
    \<and> (\<forall>j < k. \<exists>x. measured u (after_deleting u m j (dk_files d)) x \<and> of_int (dp_WarnPercent (log_policy m)) < x)
    \<and> (\<forall>l. r = Inr l \<and> dp_AutoDelete (log_policy m) \<and> l \<in> {LevelCleanup, LevelEmergency} \<longrightarrow>
        k = length (oldest_first u m (dk_files d))
        \<or> (\<exists>x. measured u (dk_files d') x \<and> x \<le> of_int (dp_WarnPercent (log_policy m))))"
    (is "\<exists>k \<le> _. ?claim k")
proof -
  let ?p = "log_policy m" and ?w = "of_int (dp_WarnPercent (log_policy m)) :: rat"
  have none: ?thesis if "dk_files d' = dk_files d" "\<And>l. r = Inr l \<Longrightarrow> \<not> (dp_AutoDelete ?p \<and> l \<in> {LevelCleanup, LevelEmergency})"
    using that by (intro exI [of _ 0]) auto
  show ?thesis
  proof (cases "du_cancelled u (dk_ops d)")
    case (Some e)
    with run show ?thesis by (intro none) (auto simp: Protect_def)
  next
    case c: None
    obtain r1 d1 where use: "run_state (usedPercent u) d = (r1, d1)" by (cases "run_state (usedPercent u) d") auto
    then have d1: "dk_files d1 = dk_files d" and r1: "r1 = du_usage u (dk_ops d) (dk_files d)" by (auto simp: usedPercent_def)
    show ?thesis
    proof (cases r1)
      case (Inl e)
      with run c use d1 show ?thesis by (intro none) (auto simp: Protect_def)
    next
      case (Inr used)
      let ?level = "classify ?p used"
      show ?thesis
      proof (cases "dp_AutoDelete ?p \<and> ?level \<in> {LevelCleanup, LevelEmergency}")
        case False
        with run c use Inr d1 show ?thesis by (intro none) (auto simp: Protect_def Let_def split: if_splits)
      next
        case True
        have first: "measured u (dk_files d) used" using r1 Inr by (metis measured_def)
        with True have level: "dp_AutoDelete ?p \<and> (\<exists>x. measured u (dk_files d) x \<and> classify ?p x \<in> {LevelCleanup, LevelEmergency})"
          by auto
        obtain r2 d2 where use2: "run_state (usedPercent u) d1 = (r2, d2)" by (cases "run_state (usedPercent u) d1") auto
        then have d2: "dk_files d2 = dk_files d" and r2: "r2 = du_usage u (dk_ops d1) (dk_files d)"
          using d1 by (auto simp: usedPercent_def)
        show ?thesis
        proof (cases r2)
          case (Inl e)
          with run c use Inr True use2 d2 show ?thesis by (intro none) (auto simp: Protect_def deleteOldestLogs_def Let_def)
        next
          case Inr2: (Inr used2)
          obtain r3 d3 where loop: "delete_loop u v m ?w used2 d2 = (r3, d3)" by (cases "delete_loop u v m ?w used2 d2") auto
          have d3: "d' = d3" and r3: "r = Inr l \<Longrightarrow> \<exists>x. r3 = Inr x" for l
            using run c use Inr True use2 Inr2 loop by (auto simp: Protect_def deleteOldestLogs_def Let_def split: sum.splits)
          have "wfmap (dk_files d2)" using wf d2 by simp
          from delete_loop_exact [OF q this abs loop] obtain k where k: "deletes u m ?w used2 (dk_files d) r3 (dk_files d') k"
            by (auto simp: d2 d3)
          have second: "measured u (dk_files d) used2" using r2 Inr2 by (metis measured_def)
          have "\<exists>x. measured u (after_deleting u m j (dk_files d)) x \<and> ?w < x" if "j < k" for j
            using k that second by (cases "j = 0") (auto simp: deletes_def)
          moreover have "k = length (oldest_first u m (dk_files d)) \<or> (\<exists>x. measured u (dk_files d') x \<and> x \<le> ?w)" if "r = Inr l" for l
            using r3 [OF that] k second by (auto simp: deletes_def split: if_splits)
          ultimately show ?thesis using k level by (intro exI [of _ k]) (auto simp: deletes_def)
        qed
      qed
    qed
  qed
qed

definition wit_log_manager :: LogManager where
  "wit_log_manager = \<lparr>lm_Root = ''/d'', lm_Policy = \<lparr>dp_WarnPercent = 85, dp_CleanupPercent = 90, dp_EmergencyPercent = 95,
     dp_AutoDelete = True, dp_EmergencyStopWrites = True\<rparr>, lm_ExtraLogDirs = [''/x''], lm_blocked = False\<rparr>"

text \<open>Every file takes six percent of the disk.\<close>

definition wit_use :: DiskUse where
  "wit_use = \<lparr>du_usage = (\<lambda>_ fs. Inr (70 + 6 * of_nat (length fs))), du_same = (\<lambda>_ _. True), du_cancelled = (\<lambda>_. None)\<rparr>"

definition wit_logs :: Disk where
  "wit_logs = \<lparr>dk_files = map (\<lambda>(p, t). (p, \<lparr>lf_Content = [], lf_ModTime = t\<rparr>))
     [(''/d/store.db'', 1), (''/d/logs/a/b.log.1'', 4), (''/x/0/c.log'', 3), (''/x/y/c.log'', 2)], dk_generation = [], dk_ops = 0\<rparr>"

lemma protect_deletes_oldest_witness:
  "fst (run_state (Protect wit_use (wit_env (\<lambda>_ _. None)) wit_log_manager) wit_logs)
     = (Inr LevelCleanup, wit_log_manager)
   \<and> map fst (dk_files (snd (run_state (Protect wit_use (wit_env (\<lambda>_ _. None)) wit_log_manager) wit_logs)))
     = [''/d/store.db'', ''/x/y/c.log'']
   \<and> (\<exists>k \<le> length (oldest_first wit_use wit_log_manager (dk_files wit_logs)).
       dk_files (snd (run_state (Protect wit_use (wit_env (\<lambda>_ _. None)) wit_log_manager) wit_logs))
         = after_deleting wit_use wit_log_manager k (dk_files wit_logs))"
proof (intro conjI)
  let ?r = "run_state (Protect wit_use (wit_env (\<lambda>_ _. None)) wit_log_manager) wit_logs"
  show "fst ?r = (Inr LevelCleanup, wit_log_manager)" by code_simp
  show "map fst (dk_files (snd ?r)) = [''/d/store.db'', ''/x/y/c.log'']" by code_simp
  have "quiet (wit_env (\<lambda>_ _. None))" "wfmap (dk_files wit_logs)" "absolute_dirs wit_log_manager"
    by (simp_all add: quiet_def wit_env_def wfmap_def wit_logs_def absolute_dirs_def wit_log_manager_def IsAbs_def)
  from protect_deletes_oldest [OF this, of wit_use "fst (fst ?r)" "snd (fst ?r)" "snd ?r"]
  show "\<exists>k \<le> length (oldest_first wit_use wit_log_manager (dk_files wit_logs)).
       dk_files (snd ?r) = after_deleting wit_use wit_log_manager k (dk_files wit_logs)" by auto
qed

end
