(* ===== verification/Log_Tail.thy ===== *)
theory Log_Tail imports Log_Rotation
begin

text \<open>
  The last lines of a log (\<open>Tail\<close> of \<^verbatim>\<open>internal/logmgr/logmgr.go\<close>), read from its end in pieces until there are enough of them.
  A file is read through its path, as in \<open>Log_Rotation\<close>; what a read does not find, because the file was truncated meanwhile,
  stays zero in its buffer.
\<close>

section \<open>Lines\<close>

abbreviation newline :: char where
  "newline \<equiv> CHR 0x0A"

text \<open>\<^verbatim>\<open>strings.Split(s, "\n")\<close>\<close>

fun split_lines :: "string \<Rightarrow> string list" where
  "split_lines [] = [[]]"
| "split_lines (c # cs) =
    (if c = newline then [] # split_lines cs
     else case split_lines cs of [] \<Rightarrow> [[c]] | w # ws \<Rightarrow> (c # w) # ws)"

definition newlines :: "string \<Rightarrow> nat" where
  "newlines s = length (filter (\<lambda>c. c = newline) s)"

definition drop_last_newline :: "string \<Rightarrow> string" where
  "drop_last_newline s = (if s \<noteq> [] \<and> List.last s = newline then butlast s else s)"

section \<open>Tail\<close>

definition defaultTailLines :: int where
  "defaultTailLines = 1000"

definition maxTailLines :: int where
  "maxTailLines = 10000"

definition tailChunk :: nat where
  "tailChunk = 32 * 1024"

definition os_ReadAt :: "DiskEnv \<Rightarrow> string \<Rightarrow> nat \<Rightarrow> nat \<Rightarrow> string disk" where
  "os_ReadAt v p n off = os_call v (''read '' @ p) (\<lambda>fs. found p (\<lambda>f.
     let buf = take n (drop off (lf_Content f)) in Inr (buf @ replicate (n - length buf) (CHR 0x00), fs)) fs)"

function tail_loop :: "DiskEnv \<Rightarrow> string \<Rightarrow> nat \<Rightarrow> nat \<Rightarrow> string \<Rightarrow> (nat \<times> string) disk" where
  "tail_loop v path maxLines off data =
    (if off > 0 \<and> newlines data \<le> maxLines then
       let n = min tailChunk off in
       andthen (os_ReadAt v path n (off - n)) (\<lambda>buf. tail_loop v path maxLines (off - n) (buf @ data))
     else ok (off, data))"
  by pat_completeness auto
termination
  by (relation "measure (\<lambda>(v, path, maxLines, off, data). off)") (auto simp: tailChunk_def)

declare tail_loop.simps [simp del]

definition tail_lines :: "nat \<Rightarrow> nat \<Rightarrow> string \<Rightarrow> string list" where
  "tail_lines maxLines off data =
    (let data = (if off > 0 \<and> newline \<in> set data then tl (dropWhile (\<lambda>c. c \<noteq> newline) data) else data);
         data = drop_last_newline data
     in if data = [] then []
        else let ls = split_lines data in if length ls > maxLines then drop (length ls - maxLines) ls else ls)"

definition clamp_lines :: "int \<Rightarrow> nat" where
  "clamp_lines maxLines =
    (let k = (if maxLines \<le> 0 then defaultTailLines else maxLines) in nat (if k > maxTailLines then maxTailLines else k))"

definition Tail :: "DiskEnv \<Rightarrow> string \<Rightarrow> int \<Rightarrow> string list disk" where
  "Tail v path maxLines =
    (let k = clamp_lines maxLines in
     andthen (os_Open v path) (\<lambda>_.
     andthen (os_Stat v path) (\<lambda>st.
       let size = length (lf_Content st) in
       if size = 0 then ok []
       else andthen (tail_loop v path k size []) (\<lambda>(off, data). ok (tail_lines k off data)))))"

section \<open>The last lines, exactly\<close>

text \<open>The lines of a text: a last newline ends the last line. And the last \<open>k\<close> of them.\<close>

definition lines_of :: "string \<Rightarrow> string list" where
  "lines_of c = (if c = [] then [] else split_lines (drop_last_newline c))"

definition last_of :: "nat \<Rightarrow> 'a list \<Rightarrow> 'a list" where
  "last_of k xs = drop (length xs - k) xs"

lemma split_lines_nonempty: "split_lines s \<noteq> []"
  by (induction s) (auto split: list.split)

lemma split_lines_app: "split_lines (a @ newline # b) = split_lines a @ split_lines b"
proof (induction a)
  case (Cons c a)
  then show ?case using split_lines_nonempty [of a] by (auto split: list.split)
qed simp

lemma split_lines_length: "length (split_lines s) = Suc (newlines s)"
proof (induction s)
  case (Cons c s)
  then show ?case using split_lines_nonempty [of s] by (auto simp: newlines_def split: list.split)
qed (simp add: newlines_def)

lemma newlines_app [simp]: "newlines (a @ b) = newlines a + newlines b"
  by (simp add: newlines_def)

lemma newlines_drop_last: "newlines s \<le> Suc (newlines (drop_last_newline s))"
proof (cases "s = []")
  case False
  then have "s = butlast s @ [List.last s]" by simp
  then have "newlines s = newlines (butlast s) + newlines [List.last s]" by (metis newlines_app)
  then show ?thesis by (simp add: drop_last_newline_def newlines_def)
qed (simp add: drop_last_newline_def)

lemma drop_last_newline_app: "b \<noteq> [] \<Longrightarrow> drop_last_newline (a @ newline # b) = a @ newline # drop_last_newline b"
  by (auto simp: drop_last_newline_def butlast_append)

lemma last_of_app: "k \<le> length ys \<Longrightarrow> last_of k (xs @ ys) = last_of k ys"
  by (simp add: last_of_def)

lemma tail_lines_whole:
  assumes "c \<noteq> []"
  shows "tail_lines k 0 c = last_of k (lines_of c) \<or> last_of k (lines_of c) = [[]] \<and> tail_lines k 0 c = [] \<or> k = 0"
proof (cases "drop_last_newline c = []")
  case True
  then show ?thesis using assms by (cases k) (simp_all add: tail_lines_def lines_of_def last_of_def)
qed (use assms in \<open>auto simp: tail_lines_def lines_of_def last_of_def Let_def\<close>)

lemma tail_lines_part:
  assumes "c = pre @ data" and "off > 0" and "k < newlines data" and "1 \<le> k"
  shows "tail_lines k off data = last_of k (lines_of c) \<or> last_of k (lines_of c) = [[]] \<and> tail_lines k off data = []"
proof -
  from assms(3) have "filter (\<lambda>c. c = newline) data \<noteq> []" by (auto simp: newlines_def)
  then have nl: "newline \<in> set data" by (auto simp: filter_empty_conv)
  define a where "a = takeWhile (\<lambda>c. c \<noteq> newline) data"
  define b where "b = tl (dropWhile (\<lambda>c. c \<noteq> newline) data)"
  have "dropWhile (\<lambda>c. c \<noteq> newline) data \<noteq> []" using nl by (auto simp: dropWhile_eq_Nil_conv)
  then have dw: "dropWhile (\<lambda>c. c \<noteq> newline) data = newline # b"
    using hd_dropWhile [of "\<lambda>c. c \<noteq> newline" data] unfolding b_def by (metis (full_types) list.collapse)
  then have data: "data = a @ newline # b" unfolding a_def using takeWhile_dropWhile_id by metis
  have "newlines a = 0" using set_takeWhileD unfolding a_def newlines_def by (fastforce simp: filter_empty_conv)
  with data assms(3) have kb: "k \<le> newlines b" by (simp add: newlines_def)
  with assms(4) have b: "b \<noteq> []" by (auto simp: newlines_def)
  have c: "c = (pre @ a) @ newline # b" by (simp add: assms(1) data)
  then have "lines_of c = split_lines (pre @ a) @ split_lines (drop_last_newline b)"
    unfolding lines_of_def by (simp only: drop_last_newline_app [OF b] split_lines_app) simp
  moreover have long: "k \<le> length (split_lines (drop_last_newline b))"
    using kb newlines_drop_last [of b] by (simp add: split_lines_length)
  ultimately have ref: "last_of k (lines_of c) = last_of k (split_lines (drop_last_newline b))" by (simp add: last_of_app)
  have t: "tail_lines k off data = (if drop_last_newline b = [] then [] else last_of k (split_lines (drop_last_newline b)))"
    using assms(2) nl by (auto simp: tail_lines_def b_def [symmetric] last_of_def Let_def)
  show ?thesis
  proof (cases "drop_last_newline b = []")
    case True
    with long assms(4) have "last_of k (split_lines (drop_last_newline b)) = [[]]" by (simp add: last_of_def)
    with True t ref show ?thesis by simp
  qed (simp add: t ref)
qed

text \<open>A read of an existing file: it fails only when the operating system says so.\<close>

definition faulty :: "DiskEnv \<Rightarrow> bool" where
  "faulty v \<longleftrightarrow> (\<exists>n what e. de_fault v n what = Some e)"

lemma wp_read_file:
  assumes "quiet v" and "mget (dk_files d) p = Some x" and "f (dk_files d) = Inr (y, dk_files d)"
  shows "wp (os_call v what f) (\<lambda>r t. dk_files t = dk_files d \<and> (case r of Inl e \<Rightarrow> faulty v | Inr z \<Rightarrow> z = y)) d"
proof -
  have "append_log v (dk_ops d) (dk_files d) = dk_files d" using assms(1) by (simp add: append_log_def quiet_def)
  with assms(3) show ?thesis by (auto simp: os_call_def Let_def faulty_def split: option.split)
qed

lemma read_end:
  assumes "n \<le> off" and "off \<le> length c" and "data = drop off c"
  shows "(let buf = take n (drop (off - n) c) in buf @ replicate (n - length buf) (CHR 0x00)) @ data = drop (off - n) c"
proof -
  have "length (take n (drop (off - n) c)) = n" using assms(1,2) by simp
  moreover have "drop off c = drop n (drop (off - n) c)" using assms(1) by simp
  ultimately show ?thesis
    unfolding Let_def assms(3) by (simp only: diff_self_eq_0 replicate_0 append_Nil2 append_take_drop_id)
qed

lemma tail_loop_exact:
  assumes "quiet v" and "mget (dk_files d) path = Some f" and "off \<le> length (lf_Content f)" and "data = drop off (lf_Content f)"
  shows "wp (tail_loop v path k off data) (\<lambda>r t. case r of Inl e \<Rightarrow> faulty v
    | Inr (o', dt) \<Rightarrow> o' \<le> length (lf_Content f) \<and> dt = drop o' (lf_Content f) \<and> (o' = 0 \<or> k < newlines dt)) d"
  using assms
proof (induction v path k off data arbitrary: d rule: tail_loop.induct)
  case (1 v path k off data)
  show ?case
  proof (cases "off > 0 \<and> newlines data \<le> k")
    case True
    let ?n = "min tailChunk off" and ?c = "lf_Content f"
    let ?buf = "let buf = take ?n (drop (off - ?n) ?c) in buf @ replicate (?n - length buf) (CHR 0x00)"
    have read: "wp (os_ReadAt v path ?n (off - ?n))
        (\<lambda>r t. dk_files t = dk_files d \<and> (case r of Inl e \<Rightarrow> faulty v | Inr z \<Rightarrow> z = ?buf)) d"
      unfolding os_ReadAt_def by (rule wp_read_file [OF 1(2,3)]) (simp add: found_def 1(3) Let_def)
    have buf: "?buf @ data = drop (off - ?n) ?c" using 1(4,5) by (intro read_end) simp_all
    show ?thesis
      unfolding tail_loop.simps [of v path k off data] if_P [OF True] Let_def [of ?n]
    proof (rule wp_andthenI [OF read])
      fix z and t :: Disk assume "dk_files t = dk_files d \<and> (case Inr z of Inl e \<Rightarrow> faulty v | Inr z \<Rightarrow> z = ?buf)"
      then have t: "dk_files t = dk_files d" and z: "z = ?buf" by simp_all
      show "wp (tail_loop v path k (off - ?n) (z @ data)) (\<lambda>r t. case r of Inl e \<Rightarrow> faulty v
        | Inr (o', dt) \<Rightarrow> o' \<le> length ?c \<and> dt = drop o' ?c \<and> (o' = 0 \<or> k < newlines dt)) t"
        by (rule 1(1) [OF True refl]) (use 1(2,3,4) t buf z in simp_all)
    qed simp
  next
    case False
    with 1(4,5) show ?thesis unfolding tail_loop.simps [of v path k off data] if_not_P [OF False] by auto
  qed
qed

text \<open>
  C22: \<open>Tail\<close> returns the last lines of a file. Between 1 and 10000 lines are asked for, 1000 by default; while nothing is
  written to the file, \<open>Tail\<close> fails only if a call of the operating system fails, and otherwise gives exactly the last lines
  of the text, all of them when there are fewer, however the pieces that it reads cut them. The one exception: of a text whose
  last line is empty the answer for one line may be no line instead of an empty one.
\<close>

theorem tail_exact:
  assumes q: "quiet v" and f: "mget (dk_files d) path = Some f"
  shows "case fst (run_state (Tail v path maxLines) d) of Inl e \<Rightarrow> faulty v
    | Inr ls \<Rightarrow> ls = last_of (clamp_lines maxLines) (lines_of (lf_Content f))
        \<or> ls = [] \<and> last_of (clamp_lines maxLines) (lines_of (lf_Content f)) = [[]]"
    (is "case fst ?run of Inl e \<Rightarrow> faulty v | Inr ls \<Rightarrow> ?good ls")
proof -
  let ?k = "clamp_lines maxLines" and ?c = "lf_Content f"
  let ?post = "\<lambda>r t. case r of Inl e \<Rightarrow> faulty v | Inr ls \<Rightarrow> ?good ls"
  have k: "1 \<le> ?k" by (simp add: clamp_lines_def defaultTailLines_def maxTailLines_def Let_def) linarith
  have opened: "wp (os_Open v path) (\<lambda>r t. dk_files t = dk_files d \<and> (case r of Inl e \<Rightarrow> faulty v | Inr x \<Rightarrow> x = f)) d"
    unfolding os_Open_def by (rule wp_read_file [OF q f]) (simp add: found_def f)
  have stat: "wp (os_Stat v path) (\<lambda>r t. dk_files t = dk_files s \<and> (case r of Inl e \<Rightarrow> faulty v | Inr x \<Rightarrow> x = f)) s"
    if "dk_files s = dk_files d" for s :: Disk
    unfolding os_Stat_def by (rule wp_read_file [OF q]) (use f that in \<open>simp_all add: found_def\<close>)
  have rest: "wp (if length ?c = 0 then ok [] else andthen (tail_loop v path ?k (length ?c) [])
      (\<lambda>(off, data). ok (tail_lines ?k off data))) ?post t" if t: "dk_files t = dk_files d" for t :: Disk
  proof (rule wp_ifI)
    assume "length ?c \<noteq> 0"
    then have c: "?c \<noteq> []" by simp
    have good: "?good (tail_lines ?k o' dt)" if "dt = drop o' ?c" "o' = 0 \<or> ?k < newlines dt" "o' \<le> length ?c" for o' dt
    proof (cases "o' = 0")
      case True
      with that(1) tail_lines_whole [OF c, of ?k] k show ?thesis by auto
    next
      case False
      have "?c = take o' ?c @ dt" using that(1) by simp
      from tail_lines_part [OF this, of o' ?k] False that(2) k show ?thesis by auto
    qed
    have "mget (dk_files t) path = Some f" by (simp add: t f)
    note loop = tail_loop_exact [OF q this, of "length ?c" "[]" ?k, simplified]
    show "wp (andthen (tail_loop v path ?k (length ?c) []) (\<lambda>(off, data). ok (tail_lines ?k off data))) ?post t"
    proof (rule wp_andthenI [OF loop])
      fix z and s :: Disk
      assume z: "case Inr z of Inl e \<Rightarrow> faulty v
        | Inr (o', dt) \<Rightarrow> o' \<le> length ?c \<and> dt = drop o' ?c \<and> (o' = 0 \<or> ?k < newlines dt)"
      obtain o' dt where "z = (o', dt)" by (cases z) auto
      with z have "dt = drop o' ?c" "o' = 0 \<or> ?k < newlines dt" "o' \<le> length ?c" by auto
      note good [OF this]
      with \<open>z = (o', dt)\<close> show "wp (case z of (off, data) \<Rightarrow> ok (tail_lines ?k off data)) ?post s" by simp
    qed simp
  qed (simp add: lines_of_def last_of_def)
  have "wp (Tail v path maxLines) ?post d"
    unfolding Tail_def Let_def
  proof (rule wp_andthenI [OF opened])
    fix x and s :: Disk assume "dk_files s = dk_files d \<and> (case Inr x of Inl e \<Rightarrow> faulty v | Inr x \<Rightarrow> x = f)"
    then have s: "dk_files s = dk_files d" by simp
    show "wp (andthen (os_Stat v path) (\<lambda>st. if length (lf_Content st) = 0 then ok []
        else andthen (tail_loop v path ?k (length (lf_Content st)) []) (\<lambda>(off, data). ok (tail_lines ?k off data)))) ?post s"
      by (rule wp_andthenI [OF stat [OF s]]) (use rest s in auto)
  qed simp
  then show ?thesis by (simp add: wp_def case_prod_beta)
qed

definition tail_disk :: Disk where
  "tail_disk = \<lparr>dk_files = [(''l'', \<lparr>lf_Content = ''a'' @ [newline] @ ''b'' @ [newline, newline] @ ''c'' @ [newline], lf_ModTime = 0\<rparr>)],
     dk_generation = [], dk_ops = 0\<rparr>"

lemma tail_exact_witness:
  "fst (run_state (Tail (wit_env (\<lambda>_ _. None)) ''l'' 2) tail_disk) = Inr [[], ''c'']
   \<and> last_of 2 (lines_of (''a'' @ [newline] @ ''b'' @ [newline, newline] @ ''c'' @ [newline])) = [[], ''c'']"
proof -
  let ?v = "wit_env (\<lambda>_ _. None)" and ?c = "''a'' @ [newline] @ ''b'' @ [newline, newline] @ ''c'' @ [newline]"
  have ref: "last_of 2 (lines_of ?c) = [[], ''c'']" by code_simp
  have "quiet ?v" "\<not> faulty ?v" by (simp_all add: quiet_def faulty_def wit_env_def)
  moreover have "mget (dk_files tail_disk) ''l'' = Some \<lparr>lf_Content = ?c, lf_ModTime = 0\<rparr>" by (simp add: tail_disk_def)
  moreover have "clamp_lines 2 = 2" by code_simp
  ultimately have "case fst (run_state (Tail ?v ''l'' 2) tail_disk) of Inl e \<Rightarrow> False | Inr ls \<Rightarrow> ls = [[], ''c'']"
    using tail_exact [of ?v tail_disk "''l''" _ 2] ref by (fastforce split: sum.splits)
  with ref show ?thesis by (simp split: sum.splits)
qed

end
