(* ===== verification/Spec2Isabelle.thy ===== *)
theory Spec2Isabelle imports Control_Run_Log Control_Fsm Process_Deps Process_Recover Process_Safety Process_Commands Process_Instances Backup_Drafts Backup_Retention Batch_Exec Cluster_Mesh Alert_Scan Log_Disk Log_Tail
begin

text \<open>
  ProcMesh is a supervisor of processes for a cluster, written in Go. An agent runs on every node: it starts, watches and
  restarts the processes of its node through shims that outlive it, and keeps their specifications, instances, alerts and
  batches in a local database. Some agents replicate a control state (users, roles, members, groups, policies, backup
  runs) with Raft; all of them gossip summaries of themselves. A client calls any agent, which authenticates the caller
  and forwards the request to the agent that owns the process.

  This library is a shallow embedding of these parts: every function of the code is a HOL function with the same name
  where HOL leaves the name free, with its branches in the order of the code; each theory begins with the files
  that it models.

  \<^bold>\<open>Conventions.\<close>
  \<^item> An error is a value (\<open>goerror\<close> in \<open>Prelude\<close>), a fallible function returns a sum, \<^verbatim>\<open>nil\<close> is \<open>None\<close>. A Go map is an
    association list with distinct keys (\<open>Go_Map\<close>), in the order in which one run ranges over it: what holds of all maps
    holds of all orders. Strings are lists of bytes. A typed string constant is a constructor, and a last constructor
    stands for any other text where the code lets it in.
  \<^item> Times and durations are integers of nanoseconds. Integers are unbounded where the code cannot overflow; a sum or product
    of values that a caller supplies is wrapped by \<open>wrap64\<close>; terms, versions and counters of fixed width are words.
  \<^item> State is passed explicitly. \<open>Effects\<close> is the state monad with errors in which the process manager and the batch
    engine are written, with weakest preconditions.
  \<^item> What runs under one mutex, or in one transaction, is one step. Concurrency is a sequence of such steps in any order:
    log entries, events of the batch engine, calls into the mesh, observations of alerts.

  \<^bold>\<open>Interfaces.\<close> \<open>map_store\<close> (\<open>Go_Map\<close>) is what components use of a map. \<open>replicated_machine\<close>, \<open>machine_invariant\<close>,
  \<open>machine_order\<close> and \<open>guarded_machine\<close> (\<open>Machine\<close>) lift what one command keeps to whole logs; the control state and
  the mesh interpret them. \<open>Effects\<close>, \<open>Process_History\<close> and \<open>Process_Commands\<close> hold the locales that carry an order on states,
  the histories of optimistic writers, or a part of the database that an operation does not touch, through whole computations.

  \<^bold>\<open>Control state\<close> (\<^verbatim>\<open>internal/control\<close>: \<^verbatim>\<open>fsm.go\<close>, \<^verbatim>\<open>command.go\<close>, \<^verbatim>\<open>capability.go\<close>, parts of \<^verbatim>\<open>crl.go\<close> and \<^verbatim>\<open>token.go\<close>).
  \<open>Control_State\<close> has the records, then one theory per group of commands: \<open>Control_Rbac\<close>, \<open>Control_Users\<close>,
  \<open>Control_Admission\<close>, \<open>Control_Groups\<close>, \<open>Control_Policies\<close>, \<open>Control_Runs\<close>; \<open>Control_Fsm\<close> dispatches, applies, snapshots
  and restores. \<open>Control_Log\<close> proves what every log keeps: the state stays well formed, a snapshot and the rest of the log
  give the state of an uninterrupted run, somebody stays administrator, a disabled user and a removed node stay out.
  \<open>Control_Run_Claims\<close>, \<open>_Steps\<close>, \<open>_Order\<close>, \<open>_Results\<close> and \<open>_Log\<close> prove that a fire is claimed once, that a leader with a
  lower term changes nothing, that the result of a run follows from its tasks and is final, and what pruning removes. The
  record \<open>env\<close> holds what a command reads from outside: SHA-256, the new identifier, whether a text is JSON, the known time
  zones. The hypotheses on it are named where they are used.

  \<^bold>\<open>Processes\<close> (\<^verbatim>\<open>internal/process\<close>, \<^verbatim>\<open>internal/store\<close>, \<^verbatim>\<open>internal/health/health.go\<close>, \<^verbatim>\<open>internal/logmgr/paths.go\<close>).
  \<open>Process_Types\<close>, \<open>_Validate\<close>, \<open>_Deps\<close>, \<open>_Restart\<close> and \<open>_Health\<close> are the pure parts; \<open>Process_Store\<close> and \<open>_History\<close> the
  tables, with the abstract history of specifications that they refine. \<open>Process_Host\<close> is the machine as the manager sees
  it: every system call, reading of the clock, call of a shim and access to the database is a question, and the host
  answers it by any function of all questions so far. \<open>Process_Reconcile\<close> and \<open>_Manager\<close> are the manager over it, recovery
  included. \<open>_Trace\<close>, \<open>_Safety\<close>, \<open>_Recover\<close>, \<open>_Commands\<close> and \<open>_Instances\<close> prove what it asks: no second start while the
  child is alive, nothing started by a recovery, one execution per operation identifier, the exact set of instances.
  Floating-point results of the restart delay are a parameter with the hypothesis \<open>scales_up\<close>.

  \<^bold>\<open>Backups\<close> (\<^verbatim>\<open>internal/backup\<close>: \<^verbatim>\<open>topology.go\<close>, \<^verbatim>\<open>schedule.go\<close>, \<^verbatim>\<open>retention.go\<close>; \<^verbatim>\<open>internal/api/disaster_replication.go\<close>).
  \<open>Backup_Topology\<close> plans routes and proves each route exact, \<open>Backup_Schedule\<close> finds the nearest fire within the 366
  days that the code searches, \<open>Backup_Retention\<close> proves that protected snapshots stay, \<open>Backup_Drafts\<close> that a previewed
  draft is accepted while nothing changed. Rounding of weights, SHA-256 of JSON and the time zones are parameters.

  \<^bold>\<open>Callers and batches\<close> (\<^verbatim>\<open>internal/auth\<close>, \<^verbatim>\<open>internal/batch\<close>, \<^verbatim>\<open>internal/store/batch.go\<close>, \<^verbatim>\<open>internal/rpc/errors.go\<close>;
  \<^verbatim>\<open>internal/api\<close>: \<^verbatim>\<open>authn.go\<close>, \<^verbatim>\<open>rbac.go\<close>, \<^verbatim>\<open>route.go\<close>, \<^verbatim>\<open>connecterr.go\<close>, \<^verbatim>\<open>process.go\<close>, \<^verbatim>\<open>config.go\<close>, \<^verbatim>\<open>batch.go\<close>,
  \<^verbatim>\<open>batch_expand.go\<close>, \<^verbatim>\<open>batch_exec.go\<close>).
  \<open>Auth_Service\<close> logs in and checks; \<open>Api_Auth\<close> takes a request from the interceptor of the entry agent to the one of the
  owner: a forged write is refused, and a hop keeps the identity. \<open>Api_Process\<close> are the handlers: no command without its
  permission. \<open>Batch_Store\<close>, \<open>_Expand\<close>, \<open>_Engine\<close> and \<open>_Exec\<close> take a batch from a selector to the handlers, \<open>Batch_Runs\<close>
  proves over all interleavings that a success is final and that a run left alone ends with its exact results. A handler
  checks first and runs the manager's command afterwards, each under its own lock; they are modelled one after the other. The
  call of another agent, the generator of identifiers (\<open>bx_newid\<close>), the failures of the database (\<open>bx_fault\<close>), password
  hashing (\<open>crypto\<close>) and the decoder of JSON are parameters. Requests have a specification, and the audit rows that
  handlers add without looking at the error are left out.

  \<^bold>\<open>Cluster view\<close> (\<^verbatim>\<open>internal/cluster\<close>, \<^verbatim>\<open>internal/freshness\<close>). \<open>Cluster_Types\<close> is what nodes tell of themselves,
  \<open>Cluster_Mesh\<close> what a node makes of it: the listed members are exact, live workloads are those announced and at most 40
  seconds old, a departed node stays away from late messages for the time that memberlist gossips about it.

  \<^bold>\<open>Alerts\<close> (\<^verbatim>\<open>internal/alert\<close>: \<^verbatim>\<open>engine.go\<close>, \<^verbatim>\<open>types.go\<close>, \<^verbatim>\<open>scan.go\<close>; \<^verbatim>\<open>internal/store/alert.go\<close>; the snapshots of
  \<^verbatim>\<open>internal/agent/run.go\<close>). \<open>Alert_Engine\<close> proves that rows follow the events and that notifications keep their distance,
  \<open>Alert_Scan\<close> that thresholds and process alerts are exact. What channels answer is a parameter.

  \<^bold>\<open>Logs\<close> (\<^verbatim>\<open>internal/logmgr\<close>), on a model of the disk on which every call can fail. \<open>Log_Rotation\<close>: a rotation keeps the
  log, in place or as its newest archive, as long as nothing is written meanwhile. \<open>Log_Disk\<close>: the protection of the disk
  deletes the oldest logs, as many as needed. \<open>Log_Tail\<close>: the last lines of a log are exact.

  \<^bold>\<open>Where the code is at odds with itself\<close>, a lemma shows a concrete history: \<open>Batch_Runs.lost_replay\<close> and
  \<open>finished_batch_stays_running\<close>, \<open>Batch_Exec.denied_target_runs_without_identity\<close>, \<open>Api_Process.config_update_checks_old_group\<close>,
  \<open>Api_Auth.remote_timeout_becomes_failure\<close>, \<open>Batch_Store.text_order_is_not_time_order\<close>,
  \<open>Cluster_Mesh.late_leave_fails_running_node\<close> and \<open>stale_state_cached_as_new\<close>, \<open>Alert_Engine.resolution_unheard\<close>,
  \<open>Alert_Scan.hanging_channel_starves\<close>, \<open>Log_Rotation.failed_rotations_eat_archives\<close>.

  \<^bold>\<open>Bounds.\<close> Every loop of the code is a structural recursion, a fold or a function with a termination proof; there is no fuel. The
  search for a fire ends after 366 days because the code's does. The only infinite run,
  the worker of batches, is a sequence of events of any finite length. No theorem holds merely because a loop does not end.

  \<^bold>\<open>Not modelled\<close>, and why.
  \<^item> The library hashicorp/raft and the transport under it: the model begins with the committed log. Likewise memberlist: the
    model begins with its calls into the mesh.
  \<^item> Certificates, passwords, token files (\<^verbatim>\<open>pki.go\<close>, \<^verbatim>\<open>password.go\<close>, \<^verbatim>\<open>init.go\<close>): cryptography and files of the Go library.
  \<^item> The shim and its launcher: operating system processes and sockets; their answers are those of the host.
  \<^item> The engines that copy, compress and restore files (\<^verbatim>\<open>backup/engine.go\<close> and the sinks), the channels of alerts, the metric
    recorder: input and output around the decisions that are modelled.
  \<^item> The other HTTP handlers (users, nodes, groups, logs, metrics, updates), the start-up code of the agent, the command line
    and the web pages: conversion of messages, wiring and rendering. Of the JSON, protocol-buffer and SQL texts the
    model has the decoded values; that they survive a round trip is assumed, times in texts included.
  \<^item> \<^verbatim>\<open>sort.Slice\<close> with equal keys, where its order is open, is a stable sort or has unique keys, as noted at the place; \<^verbatim>\<open>%q\<close> in
    messages quotes without escapes.
\<close>

end
